(* ===== verification/Prelude.thy ===== *)
theory Prelude
  imports
    Main
    "HOL-Library.Word"
    "HOL-Library.Multiset"
    "HOL-Library.Char_ord"
    "HOL-Library.List_Lexorder"
    "HOL-Library.Product_Lexorder"
begin

text \<open>
  What every component of the development shares: the outcome of a fallible Rust function,
  loops that stop at the first error, and signed machine integers with their checked operations.
\<close>

named_theorems outcome_simps \<open>how a successful outcome of a composed computation arises\<close>
named_theorems codec_simps \<open>evaluation of the byte encodings\<close>

section \<open>Outcomes\<close>

text \<open>
  A Rust function returning \<open>Result<T, E>\<close> ends in \<open>Ok\<close> or \<open>Err\<close>; a failed index,
  \<open>expect\<close> or \<open>unreachable!\<close> ends in a panic, which no caller can observe as a value.
\<close>

datatype ('e, 'a) outcome = Ok 'a | Err 'e | Panic

primrec rbind :: "('e, 'a) outcome \<Rightarrow> ('a \<Rightarrow> ('e, 'b) outcome) \<Rightarrow> ('e, 'b) outcome" where
  "rbind (Ok a) f = f a"
| "rbind (Err e) f = Err e"
| "rbind Panic f = Panic"

primrec map_err :: "('e \<Rightarrow> 'f) \<Rightarrow> ('e, 'a) outcome \<Rightarrow> ('f, 'a) outcome" where
  "map_err g (Ok a) = Ok a"
| "map_err g (Err e) = Err (g e)"
| "map_err g Panic = Panic"

definition ensure :: "bool \<Rightarrow> 'e \<Rightarrow> ('e, unit) outcome" where
  "ensure b e = (if b then Ok () else Err e)"

definition ok_or :: "'a option \<Rightarrow> 'e \<Rightarrow> ('e, 'a) outcome" where
  "ok_or x e = (case x of Some a \<Rightarrow> Ok a | None \<Rightarrow> Err e)"

definition or_panic :: "'a option \<Rightarrow> ('e, 'a) outcome" where
  "or_panic x = (case x of Some a \<Rightarrow> Ok a | None \<Rightarrow> Panic)"

text \<open>A \<open>for\<close> loop over a state, left by the first error or panic.\<close>

primrec rfold :: "('a \<Rightarrow> 's \<Rightarrow> ('e, 's) outcome) \<Rightarrow> 'a list \<Rightarrow> 's \<Rightarrow> ('e, 's) outcome" where
  "rfold f [] s = Ok s"
| "rfold f (x # xs) s = rbind (f x s) (rfold f xs)"

text \<open>\<open>map(f).collect::<Result<Vec<_>, _>>()\<close>.\<close>

primrec rmap :: "('a \<Rightarrow> ('e, 'b) outcome) \<Rightarrow> 'a list \<Rightarrow> ('e, 'b list) outcome" where
  "rmap f [] = Ok []"
| "rmap f (x # xs) = rbind (f x) (\<lambda>y. rbind (rmap f xs) (\<lambda>ys. Ok (y # ys)))"

lemma rbind_Ok_iff [outcome_simps]: "rbind r f = Ok b \<longleftrightarrow> (\<exists>a. r = Ok a \<and> f a = Ok b)"
  by (cases r) auto

lemma rbind_Err_iff [outcome_simps]:
  "rbind r f = Err e \<longleftrightarrow> r = Err e \<or> (\<exists>a. r = Ok a \<and> f a = Err e)"
  by (cases r) auto

lemma rbind_Panic_iff [outcome_simps]:
  "rbind r f = Panic \<longleftrightarrow> r = Panic \<or> (\<exists>a. r = Ok a \<and> f a = Panic)"
  by (cases r) auto

lemma rbind_cong [fundef_cong]:
  "r = r' \<Longrightarrow> (\<And>a. r' = Ok a \<Longrightarrow> f a = f' a) \<Longrightarrow> rbind r f = rbind r' f'"
  by (cases r') auto

lemma map_err_iff [outcome_simps]:
  "map_err g r = Ok a \<longleftrightarrow> r = Ok a"
  "map_err g r = Err e' \<longleftrightarrow> (\<exists>e. r = Err e \<and> e' = g e)"
  "map_err g r = Panic \<longleftrightarrow> r = Panic"
  by (cases r; auto)+

lemma ensure_iff [outcome_simps]:
  "ensure b e = Ok u \<longleftrightarrow> b"
  "ensure b e = Err e' \<longleftrightarrow> \<not> b \<and> e' = e"
  "ensure b e = Panic \<longleftrightarrow> False"
  by (auto simp: ensure_def)

lemma ok_or_iff [outcome_simps]:
  "ok_or x e = Ok a \<longleftrightarrow> x = Some a"
  "ok_or x e = Err e' \<longleftrightarrow> x = None \<and> e' = e"
  "ok_or x e = Panic \<longleftrightarrow> False"
  by (auto simp: ok_or_def split: option.splits)

lemma or_panic_iff [outcome_simps]:
  "or_panic x = Ok a \<longleftrightarrow> x = Some a"
  "or_panic x = Err e' \<longleftrightarrow> False"
  "or_panic x = Panic \<longleftrightarrow> x = None"
  by (auto simp: or_panic_def split: option.splits)

lemma rfold_append: "rfold f (xs @ ys) s = rbind (rfold f xs s) (rfold f ys)"
proof (induction xs arbitrary: s)
  case (Cons x xs)
  then show ?case by (cases "f x s") simp_all
qed simp

text \<open>The loop rule: an invariant over the consumed prefix.\<close>

lemma rfold_invariant:
  assumes "rfold f xs s = Ok t" and "I [] s"
    and "\<And>ys x s s'. I ys s \<Longrightarrow> x \<in> set xs \<Longrightarrow> f x s = Ok s' \<Longrightarrow> I (ys @ [x]) s'"
  shows "I xs t"
proof -
  have "rfold f zs s = Ok t \<Longrightarrow> I ys s \<Longrightarrow> set zs \<subseteq> set xs \<Longrightarrow> I (ys @ zs) t" for ys zs s
  proof (induction zs arbitrary: ys s)
    case (Cons z zs)
    then obtain s' where "f z s = Ok s'" and "rfold f zs s' = Ok t"
      by (auto simp: outcome_simps)
    with Cons show ?case using assms(3) [of ys s z s'] by fastforce
  qed simp
  from this [of xs s "[]"] assms(1,2) show ?thesis by simp
qed

lemma rmap_Ok_iff: "rmap f xs = Ok ys \<longleftrightarrow> list_all2 (\<lambda>x y. f x = Ok y) xs ys"
  by (induction xs arbitrary: ys) (auto simp: outcome_simps list_all2_Cons1)

lemma rmap_id_Ok:
  "rmap (\<lambda>x. rbind (f x) (\<lambda>_. Ok x)) xs = Ok ys \<longleftrightarrow> ys = xs \<and> (\<forall>x\<in>set xs. \<exists>u. f x = Ok u)"
  by (induction xs arbitrary: ys) (auto simp: outcome_simps)

section \<open>Signed machine integers\<close>

type_synonym u8 = "8 word"
type_synonym u16 = "16 word"
type_synonym u32 = "32 word"
type_synonym u64 = "64 word"
type_synonym i32 = "32 word"
type_synonym i64 = "64 word"

text \<open>
  A signed integer is a word read by \<open>sint\<close>. \<open>try_from_int\<close> is \<open>TryFrom\<close> from a wider
  signed type; the checked operations are \<open>None\<close> exactly when the result leaves the range.
\<close>

definition try_from_int :: "int \<Rightarrow> ('a::len) word option" where
  "try_from_int v =
     (if - (2 ^ (LENGTH('a) - 1)) \<le> v \<and> v < 2 ^ (LENGTH('a) - 1) then Some (word_of_int v) else None)"

definition checked_neg :: "('a::len) word \<Rightarrow> 'a word option" where
  "checked_neg w = try_from_int (- sint w)"

definition checked_add :: "('a::len) word \<Rightarrow> 'a word \<Rightarrow> 'a word option" where
  "checked_add v w = try_from_int (sint v + sint w)"

definition checked_sub :: "('a::len) word \<Rightarrow> 'a word \<Rightarrow> 'a word option" where
  "checked_sub v w = try_from_int (sint v - sint w)"

definition checked_mul :: "('a::len) word \<Rightarrow> 'a word \<Rightarrow> 'a word option" where
  "checked_mul v w = try_from_int (sint v * sint w)"

abbreviation i64_min :: i64 where
  "i64_min \<equiv> 0x8000000000000000"

lemma sint_range: "- (2 ^ (LENGTH('a) - 1)) \<le> sint (w :: 'a::len word)"
    "sint (w :: 'a::len word) < 2 ^ (LENGTH('a) - 1)"
  using sint_greater_eq [of w] sint_less [of w] by simp_all

lemma sint_word_of_int_range:
  assumes "- (2 ^ (LENGTH('a) - 1)) \<le> v" and "v < 2 ^ (LENGTH('a) - 1)"
  shows "sint (word_of_int v :: 'a::len word) = v"
proof -
  have "sint (word_of_int v :: 'a word) = signed_take_bit (LENGTH('a) - 1) v"
    by (rule sint_sbintrunc')
  also have "\<dots> = v"
    using assms by (intro signed_take_bit_int_eq_self) auto
  finally show ?thesis .
qed

lemma try_from_int_Some_iff: "try_from_int v = Some (w :: 'a::len word) \<longleftrightarrow> sint w = v"
  using sint_range [of w]
  by (auto simp: try_from_int_def sint_word_of_int_range)

lemma try_from_int_None_iff:
  "try_from_int v = (None :: 'a::len word option) \<longleftrightarrow>
     v < - (2 ^ (LENGTH('a) - 1)) \<or> 2 ^ (LENGTH('a) - 1) \<le> v"
  by (auto simp: try_from_int_def)

lemma checked_Some_iff:
  "checked_add v w = Some (u :: 'a::len word) \<longleftrightarrow> sint u = sint v + sint w"
  "checked_sub v w = Some (u :: 'a::len word) \<longleftrightarrow> sint u = sint v - sint w"
  "checked_mul v w = Some (u :: 'a::len word) \<longleftrightarrow> sint u = sint v * sint w"
  "checked_neg v = Some (u :: 'a::len word) \<longleftrightarrow> sint u = - sint v"
  by (simp_all add: checked_add_def checked_sub_def checked_mul_def checked_neg_def
      try_from_int_Some_iff)

lemma i64_range: "- (2 ^ 63) \<le> sint (w :: i64)" "sint (w :: i64) < 2 ^ 63"
  using sint_range [of w] by simp_all

lemma sint_eq_0_iff: "sint (w :: 'a::len word) = 0 \<longleftrightarrow> w = 0"
  using signed_word_eqI [of w 0] by auto

lemma sint_eqI: "sint v = sint w \<Longrightarrow> v = (w :: 'a::len word)"
  by (rule signed_word_eqI)

lemma sint_i64_min: "sint i64_min = - (2 ^ 63)"
  by simp

lemma eq_i64_min_iff: "w = i64_min \<longleftrightarrow> sint (w :: i64) = - (2 ^ 63)"
  using signed_word_eqI [of w i64_min] by auto

end
