(* ===== verification/Codec.thy ===== *)
theory Codec
  imports Prelude
begin

text \<open>
  Byte strings and fixed-width codecs. The first part models \<open>from_le_bytes\<close>,
  \<open>to_le_bytes\<close> and their big-endian twins of the Rust integer types, with the slice reads the
  parsers use. The locale \<open>fixed_codec\<close> is the contract shared by every fixed-width disk
  value (integers, \<open>QuickBooksDate\<close>, \<open>QuickBooksLegacyBalance\<close>): decoding inverts encoding on
  valid values and every accepted byte string is the encoding of its value.
\<close>

section \<open>Integers as bytes\<close>

type_synonym byte = "8 word"

fun le_nat :: "byte list \<Rightarrow> nat" where
  "le_nat [] = 0"
| "le_nat (b # bs) = unat b + 256 * le_nat bs"

fun le_split :: "nat \<Rightarrow> nat \<Rightarrow> byte list" where
  "le_split 0 v = []"
| "le_split (Suc n) v = word_of_nat v # le_split n (v div 256)"

lemma le_split_numeral [codec_simps]:
  "le_split (numeral k) v = word_of_nat v # le_split (pred_numeral k) (v div 256)"
  by (simp only: numeral_eq_Suc [of k] le_split.simps)

definition from_le_bytes :: "byte list \<Rightarrow> 'a::len word" where
  "from_le_bytes bs = word_of_nat (le_nat bs)"

definition from_be_bytes :: "byte list \<Rightarrow> 'a::len word" where
  "from_be_bytes bs = from_le_bytes (rev bs)"

definition to_le_bytes :: "'a::len word \<Rightarrow> byte list" where
  "to_le_bytes w = le_split (LENGTH('a) div 8) (unat w)"

definition to_be_bytes :: "'a::len word \<Rightarrow> byte list" where
  "to_be_bytes w = rev (to_le_bytes w)"

lemma unat_byte_less: "unat (b :: byte) < 256"
  using unsigned_less [of b] by simp

lemma unat_word_of_nat_byte: "unat (word_of_nat v :: byte) = v mod 256"
  by (simp add: unat_of_nat)

lemma length_le_split [simp]: "length (le_split n v) = n"
  by (induction n arbitrary: v) auto

lemma le_nat_less: "le_nat bs < 256 ^ length bs"
proof (induction bs)
  case (Cons b bs)
  have "unat b + 256 * le_nat bs < 256 + 256 * (256 ^ length bs - 1)"
    using unat_byte_less [of b] Cons by (intro add_less_le_mono mult_le_mono) auto
  also have "\<dots> = 256 * 256 ^ length bs"
    by (cases "256 ^ length bs :: nat") auto
  finally show ?case by simp
qed simp

lemma le_nat_le_split: "le_nat (le_split n v) = v mod 256 ^ n"
proof (induction n arbitrary: v)
  case (Suc n)
  have "v mod 256 + 256 * (v div 256 mod 256 ^ n) = v mod (256 * 256 ^ n)"
    by (simp add: mod_mult2_eq)
  with Suc show ?case by (simp add: unat_word_of_nat_byte)
qed simp

lemma le_split_le_nat: "le_split (length bs) (le_nat bs) = bs"
proof (induction bs)
  case (Cons b bs)
  have "(unat b + 256 * le_nat bs) div 256 = le_nat bs"
    using unat_byte_less [of b] by simp
  moreover have "(word_of_nat (unat b + 256 * le_nat bs) :: byte) = b"
    using unat_byte_less [of b] unat_word_of_nat_byte [of "unat b + 256 * le_nat bs"]
    by (intro word_eq_iff_unsigned [THEN iffD2]) (simp del: of_nat_add of_nat_mult)
  ultimately show ?case using Cons by simp
qed simp

lemma length_to_le_bytes [simp]: "length (to_le_bytes (w :: 'a::len word)) = LENGTH('a) div 8"
  by (simp add: to_le_bytes_def)

lemma length_to_be_bytes [simp]: "length (to_be_bytes (w :: 'a::len word)) = LENGTH('a) div 8"
  by (simp add: to_be_bytes_def)

lemma from_to_le_bytes:
  assumes "8 dvd LENGTH('a)"
  shows "from_le_bytes (to_le_bytes (w :: 'a::len word)) = w"
proof -
  have "256 ^ (LENGTH('a) div 8) = (2 ^ LENGTH('a) :: nat)"
    using assms power_mult [of "2 :: nat" 8 "LENGTH('a) div 8"] by simp
  moreover have "unat w < 2 ^ LENGTH('a)" by (rule unsigned_less)
  ultimately show ?thesis by (simp add: from_le_bytes_def to_le_bytes_def le_nat_le_split)
qed

lemma to_from_le_bytes:
  assumes "LENGTH('a) = 8 * length bs"
  shows "to_le_bytes (from_le_bytes bs :: 'a::len word) = bs"
proof -
  have "256 ^ length bs = (2 ^ LENGTH('a) :: nat)"
    using assms by (simp add: power_mult)
  then have "unat (from_le_bytes bs :: 'a word) = le_nat bs"
    using le_nat_less [of bs] by (simp add: from_le_bytes_def unat_of_nat)
  then show ?thesis
    using assms by (simp add: to_le_bytes_def le_split_le_nat)
qed

lemma from_to_be_bytes:
  assumes "8 dvd LENGTH('a)"
  shows "from_be_bytes (to_be_bytes (w :: 'a::len word)) = w"
  using from_to_le_bytes [OF assms] by (simp add: from_be_bytes_def to_be_bytes_def)

lemma to_from_be_bytes:
  assumes "LENGTH('a) = 8 * length bs"
  shows "to_be_bytes (from_be_bytes bs :: 'a::len word) = bs"
  using to_from_le_bytes [of "rev bs", where 'a = 'a] assms
  by (simp add: from_be_bytes_def to_be_bytes_def)

section \<open>Slices\<close>

text \<open>\<open>bytes.get(start..end)\<close>: absent when the range is reversed or leaves the slice.\<close>

definition get_range :: "'a list \<Rightarrow> nat \<Rightarrow> nat \<Rightarrow> 'a list option" where
  "get_range xs start stop =
     (if start \<le> stop \<and> stop \<le> length xs then Some (take (stop - start) (drop start xs)) else None)"

text \<open>\<open>bytes.get(i)\<close>.\<close>

definition get_at :: "'a list \<Rightarrow> nat \<Rightarrow> 'a option" where
  "get_at xs i = (if i < length xs then Some (xs ! i) else None)"

text \<open>\<open>iter().position(p)\<close>.\<close>

primrec position :: "('a \<Rightarrow> bool) \<Rightarrow> 'a list \<Rightarrow> nat option" where
  "position P [] = None"
| "position P (x # xs) = (if P x then Some 0 else map_option Suc (position P xs))"

lemma get_range_Some_iff:
  "get_range xs i j = Some ys \<longleftrightarrow> i \<le> j \<and> j \<le> length xs \<and> ys = take (j - i) (drop i xs)"
  by (auto simp: get_range_def)

lemma length_get_range: "get_range xs i j = Some ys \<Longrightarrow> length ys = j - i"
  by (auto simp: get_range_Some_iff)

lemma position_Some_append:
  "\<not> (\<exists>x\<in>set xs. P x) \<Longrightarrow> P y \<Longrightarrow> position P (xs @ y # ys) = Some (length xs)"
  by (induction xs) auto

lemma position_Some_imp:
  "position P xs = Some n \<Longrightarrow> n < length xs \<and> P (xs ! n) \<and> (\<forall>x\<in>set (take n xs). \<not> P x)"
proof (induction xs arbitrary: n)
  case (Cons x xs)
  then show ?case by (cases n) (auto split: if_splits)
qed simp

lemma position_None_iff: "position P xs = None \<longleftrightarrow> (\<forall>x\<in>set xs. \<not> P x)"
  by (induction xs) auto

section \<open>Fixed-width codecs\<close>

locale fixed_codec =
  fixes encode :: "'v \<Rightarrow> byte list"
    and decode :: "byte list \<Rightarrow> ('e, 'v) outcome"
    and valid :: "'v \<Rightarrow> bool"
    and width :: nat
  assumes decode_encode: "valid v \<Longrightarrow> decode (encode v) = Ok v"
    and encode_decode: "decode bs = Ok v \<Longrightarrow> encode v = bs"
    and decode_valid: "decode bs = Ok v \<Longrightarrow> valid v"
    and encode_width: "length (encode v) = width"
begin

lemma decode_iff: "decode bs = Ok v \<longleftrightarrow> valid v \<and> encode v = bs"
  using decode_encode encode_decode decode_valid by blast

lemma encode_inject: "valid v \<Longrightarrow> valid w \<Longrightarrow> encode v = encode w \<longleftrightarrow> v = w"
  by (metis decode_encode outcome.inject(1))

lemma decode_inject: "decode bs = Ok v \<Longrightarrow> decode cs = Ok v \<Longrightarrow> bs = cs"
  using encode_decode by blast

lemma decode_width: "decode bs = Ok v \<Longrightarrow> length bs = width"
  using encode_decode encode_width by blast

text \<open>A reader that takes the width off the front of a stream inverts a writer that prepends.\<close>

lemma decode_take: "valid v \<Longrightarrow> decode (take width (encode v @ rest)) = Ok v"
  by (simp add: encode_width decode_encode)

lemma drop_encode: "drop width (encode v @ rest) = rest"
  by (simp add: encode_width)

end

text \<open>An integer read: the array type of the source fixes the length of its argument.\<close>

definition read_le :: "byte list \<Rightarrow> ('e, 'a::len word) outcome" where
  "read_le bs = (if 8 * length bs = LENGTH('a) then Ok (from_le_bytes bs) else Panic)"

definition read_be :: "byte list \<Rightarrow> ('e, 'a::len word) outcome" where
  "read_be bs = (if 8 * length bs = LENGTH('a) then Ok (from_be_bytes bs) else Panic)"

lemma fixed_codec_le:
  assumes "8 * n = LENGTH('a)"
  shows "fixed_codec (to_le_bytes :: 'a::len word \<Rightarrow> byte list) read_le (\<lambda>_. True) n"
proof
  have dvd: "8 dvd LENGTH('a)" and div: "LENGTH('a) div 8 = n"
    unfolding assms [symmetric] by simp_all
  show "read_le (to_le_bytes v) = Ok v" for v :: "'a word"
    using dvd by (simp add: read_le_def from_to_le_bytes)
  show "to_le_bytes v = bs" if "read_le bs = Ok v" for bs and v :: "'a word"
    using that by (auto simp: read_le_def to_from_le_bytes split: if_splits)
  show "length (to_le_bytes v) = n" for v :: "'a word"
    using div by simp
qed simp

lemma fixed_codec_be:
  assumes "8 * n = LENGTH('a)"
  shows "fixed_codec (to_be_bytes :: 'a::len word \<Rightarrow> byte list) read_be (\<lambda>_. True) n"
proof
  have dvd: "8 dvd LENGTH('a)" and div: "LENGTH('a) div 8 = n"
    unfolding assms [symmetric] by simp_all
  show "read_be (to_be_bytes v) = Ok v" for v :: "'a word"
    using dvd by (simp add: read_be_def from_to_be_bytes)
  show "to_be_bytes v = bs" if "read_be bs = Ok v" for bs and v :: "'a word"
    using that by (auto simp: read_be_def to_from_be_bytes split: if_splits)
  show "length (to_be_bytes v) = n" for v :: "'a word"
    using div by simp
qed simp

interpretation u16_le: fixed_codec "to_le_bytes :: u16 \<Rightarrow> byte list" read_le "\<lambda>_. True" 2
  by (rule fixed_codec_le) simp

interpretation u16_be: fixed_codec "to_be_bytes :: u16 \<Rightarrow> byte list" read_be "\<lambda>_. True" 2
  by (rule fixed_codec_be) simp

interpretation u32_le: fixed_codec "to_le_bytes :: u32 \<Rightarrow> byte list" read_le "\<lambda>_. True" 4
  by (rule fixed_codec_le) simp

interpretation u32_be: fixed_codec "to_be_bytes :: u32 \<Rightarrow> byte list" read_be "\<lambda>_. True" 4
  by (rule fixed_codec_be) simp

lemmas [codec_simps] =
  from_le_bytes_def from_be_bytes_def to_le_bytes_def to_be_bytes_def read_le_def read_be_def

section \<open>Blank strings\<close>

text \<open>
  \<open>value.trim().is_empty()\<close> on a Rust \<open>String\<close>. A string is its UTF-8 bytes, so that \<open>\<le>\<close> is the
  byte order of \<open>Ord for str\<close>; \<open>trim\<close> removes the code points of the Unicode \<open>White_Space\<close>
  property, which are one, two or three bytes long.
\<close>

definition ws1 :: "nat \<Rightarrow> bool" where
  "ws1 a \<longleftrightarrow> 9 \<le> a \<and> a \<le> 13 \<or> a = 32"

definition ws2 :: "nat \<Rightarrow> nat \<Rightarrow> bool" where
  "ws2 a b \<longleftrightarrow> a = 194 \<and> (b = 133 \<or> b = 160)"

definition ws3 :: "nat \<Rightarrow> nat \<Rightarrow> nat \<Rightarrow> bool" where
  "ws3 a b c \<longleftrightarrow>
     a = 225 \<and> b = 154 \<and> c = 128
   \<or> a = 226 \<and> b = 128 \<and> (128 \<le> c \<and> c \<le> 138 \<or> c = 168 \<or> c = 169 \<or> c = 175)
   \<or> a = 226 \<and> b = 129 \<and> c = 159
   \<or> a = 227 \<and> b = 128 \<and> c = 128"

fun blank_codes :: "nat list \<Rightarrow> bool" where
  "blank_codes [] = True"
| "blank_codes [a] = ws1 a"
| "blank_codes [a, b] = (if ws1 a then blank_codes [b] else ws2 a b)"
| "blank_codes (a # b # c # cs) =
     (if ws1 a then blank_codes (b # c # cs)
      else if ws2 a b then blank_codes (c # cs)
      else ws3 a b c \<and> blank_codes cs)"

definition trim_is_empty :: "string \<Rightarrow> bool" where
  "trim_is_empty s = blank_codes (map of_char s)"

lemma trim_is_empty_Nil [simp]: "trim_is_empty []"
  by (simp add: trim_is_empty_def)

section \<open>Validated identifiers\<close>

text \<open>
  The identifier newtypes (\<open>AccountId\<close>, \<open>TransactionId\<close>, \<open>PostingId\<close>, \<open>SourceSnapshotId\<close>,
  \<open>DecoderIdentity\<close>) share one contract: the constructor accepts exactly the strings that are
  not blank and keeps them unchanged.
\<close>

locale nonblank_identifier =
  fixes make :: "string \<Rightarrow> ('e, 'i) outcome"
    and as_str :: "'i \<Rightarrow> string"
    and blank_error :: 'e
  assumes make_blank: "trim_is_empty s \<Longrightarrow> make s = Err blank_error"
    and make_nonblank: "\<not> trim_is_empty s \<Longrightarrow> \<exists>i. make s = Ok i \<and> as_str i = s"
    and as_str_inject: "as_str i = as_str j \<Longrightarrow> i = j"
begin

lemma make_Ok_iff: "make s = Ok i \<longleftrightarrow> \<not> trim_is_empty s \<and> as_str i = s"
proof (cases "trim_is_empty s")
  case False
  then obtain j where "make s = Ok j" and "as_str j = s"
    using make_nonblank by blast
  with False show ?thesis using as_str_inject [of i j] by auto
qed (simp add: make_blank)

lemma make_Err_iff: "make s = Err e \<longleftrightarrow> trim_is_empty s \<and> e = blank_error"
  using make_blank [of s] make_nonblank [of s] by (cases "trim_is_empty s") auto

lemma make_total: "make s \<noteq> Panic"
  using make_blank [of s] make_nonblank [of s] by (cases "trim_is_empty s") auto

lemma make_as_str: "make s = Ok i \<Longrightarrow> make (as_str i) = Ok i"
  by (simp add: make_Ok_iff)

end

end
