(* ===== verification/Posting_Date.thy ===== *)
theory Posting_Date
  imports Codec "HOL-Library.Signed_Division"
begin

text \<open>
  The calendar dates of \<open>crates/openqbw/src/materialized_posting_date.rs\<close>: minute counts from
  1600-02-29, the proleptic Gregorian day count, strict ISO input and output. \<open>SaDate\<close> comes
  from another crate; its two functions \<open>ymd\<close> and \<open>days_since_sa_epoch\<close> are the parameters
  \<open>sa_ymd\<close> and \<open>sa_days\<close>. Years, months and days are integers in the range of their \<open>i32\<close> and
  \<open>u8\<close> fields: no operation on them can overflow, and the day count is computed in \<open>i64\<close>.
\<close>

section \<open>The Gregorian calendar\<close>

datatype posting_date_error =
    NonMidnightMinuteCount i32 int
  | InvalidCalendarDate int int int
  | MinuteCountOutOfRange int int int
  | CalendarRoundTripMismatch i32
  | InvalidIsoDateFormat

definition is_leap_year :: "int \<Rightarrow> bool" where
  "is_leap_year year \<longleftrightarrow> year mod 4 = 0 \<and> (year mod 100 \<noteq> 0 \<or> year mod 400 = 0)"

definition days_in_month :: "int \<Rightarrow> int \<Rightarrow> int" where
  "days_in_month year month =
     (if month \<in> {1, 3, 5, 7, 8, 10, 12} then 31
      else if month \<in> {4, 6, 9, 11} then 30
      else if month = 2 \<and> is_leap_year year then 29
      else if month = 2 then 28
      else 0)"

definition validate_ymd :: "int \<Rightarrow> int \<Rightarrow> int \<Rightarrow> (posting_date_error, unit) outcome" where
  "validate_ymd year month day =
     ensure (1 \<le> month \<and> month \<le> 12 \<and> 1 \<le> day \<and> day \<le> days_in_month year month)
       (InvalidCalendarDate year month day)"

definition days_since_sa_epoch :: "int \<Rightarrow> int \<Rightarrow> int \<Rightarrow> (posting_date_error, int) outcome" where
  "days_since_sa_epoch year month day =
     rbind (validate_ymd year month day) (\<lambda>_.
       let year = year - (if month \<le> 2 then 1 else 0);
           era = (if 0 \<le> year then year else year - 399) sdiv 400;
           year_of_era = year - era * 400;
           shifted_month = month + (if 2 < month then -3 else 9);
           day_of_year = (153 * shifted_month + 2) sdiv 5 + day - 1;
           day_of_era = year_of_era * 365 + year_of_era sdiv 4 - year_of_era sdiv 100 + day_of_year in
       Ok (era * 146097 + day_of_era - 719468 + 135081))"

section \<open>The day count is the calendar\<close>

definition valid_ymd :: "int \<Rightarrow> int \<Rightarrow> int \<Rightarrow> bool" where
  "valid_ymd y m d \<longleftrightarrow> 1 \<le> m \<and> m \<le> 12 \<and> 1 \<le> d \<and> d \<le> days_in_month y m"

definition next_ymd :: "int \<Rightarrow> int \<Rightarrow> int \<Rightarrow> int \<times> int \<times> int" where
  "next_ymd y m d =
     (if d < days_in_month y m then (y, m, d + 1)
      else if m < 12 then (y, m + 1, 1) else (y + 1, 1, 1))"

definition year_start :: "int \<Rightarrow> int" where
  "year_start Y = 365 * Y + Y div 4 - Y div 100 + Y div 400"

definition shifted_year :: "int \<Rightarrow> int \<Rightarrow> int" where
  "shifted_year y m = (if m \<le> 2 then y - 1 else y)"

definition day_in_year :: "int \<Rightarrow> int \<Rightarrow> int" where
  "day_in_year m d = (153 * (if 2 < m then m - 3 else m + 9) + 2) div 5 + d - 1"

lemma sdiv_nonneg: "0 \<le> (a :: int) \<Longrightarrow> 0 < b \<Longrightarrow> a sdiv b = a div b"
  by (cases "a = 0") (simp_all add: signed_divide_int_def sgn_mult)

lemma sdiv_era: "(if 0 \<le> y then y else y - 399) sdiv 400 = y div (400 :: int)"
proof (cases "0 \<le> y")
  case False
  then have "(y - 399) sdiv 400 = - ((399 - y) div 400)"
    by (simp add: signed_divide_int_def sgn_mult abs_minus_commute)
  moreover have "(399 - y) div 400 = - (y div 400)"
  proof (rule int_div_pos_eq [where r = "399 - y mod 400"])
    show "399 - y = 400 * - (y div 400) + (399 - y mod 400)" using div_mult_mod_eq [of y 400] by linarith
  qed (use pos_mod_bound [of 400 y] pos_mod_sign [of 400 y] in linarith)+
  ultimately show ?thesis using False by simp
qed (simp add: sdiv_nonneg)

lemma era_arithmetic:
  "(Y div 400) * 146097 + (Y - Y div 400 * 400) * 365 + (Y - Y div 400 * 400) div 4
     - (Y - Y div 400 * 400) div 100 = year_start Y" for Y :: int
proof -
  define q r where "q = Y div 400" and "r = Y mod 400"
  have Y: "Y = r + 400 * q" by (simp add: q_def r_def)
  have "(r + 400 * q) div 4 = r div 4 + 100 * q"
    using div_mult_self2 [of 4 r "100 * q"] by simp
  moreover have "(r + 400 * q) div 100 = r div 100 + 4 * q"
    using div_mult_self2 [of 100 r "4 * q"] by simp
  moreover have "Y - q * 400 = r" by (simp add: Y)
  ultimately show ?thesis
    unfolding year_start_def q_def [symmetric] by (simp add: Y)
qed

lemma days_since_sa_epoch_Ok_iff:
  "days_since_sa_epoch y m d = Ok n \<longleftrightarrow>
     valid_ymd y m d \<and> n = year_start (shifted_year y m) + day_in_year m d - 584387"
proof -
  define Y where "Y = shifted_year y m"
  have Y: "y - (if m \<le> 2 then 1 else 0) = Y" by (simp add: Y_def shifted_year_def)
  have yoe: "0 \<le> Y - Y div 400 * 400"
    by (simp add: minus_div_mult_eq_mod)
  have sm: "(153 * (m + (if 2 < m then -3 else 9)) + 2) sdiv 5 + d - 1 = day_in_year m d" if "1 \<le> m"
    using that by (auto simp: sdiv_nonneg day_in_year_def)
  show ?thesis
    unfolding days_since_sa_epoch_def validate_ymd_def Let_def Y Y_def [symmetric] sdiv_era
    using sm era_arithmetic [of Y]
    by (auto simp: outcome_simps valid_ymd_def sdiv_nonneg [OF yoe])
qed

lemma div_pred:
  assumes "0 < (k :: int)"
  shows "y div k = (y - 1) div k + (if y mod k = 0 then 1 else 0)"
proof (cases "y mod k = 0")
  case True
  then have "(y - 1) div k = y div k - 1"
    using assms div_mult_mod_eq [of y k]
    by (intro int_div_pos_eq [where r = "k - 1"]) (auto simp: algebra_simps)
  with True show ?thesis by simp
next
  case False
  then have "(y - 1) div k = y div k"
  proof (intro int_div_pos_eq [where r = "y mod k - 1"])
    show "y - 1 = k * (y div k) + (y mod k - 1)" using div_mult_mod_eq [of y k] by (simp add: mult.commute)
  qed (use False assms pos_mod_bound [of k y] pos_mod_sign [of k y] in linarith)+
  with False show ?thesis by simp
qed

lemma leap_rule:
  assumes "a = a' + (if P then 1 else 0)" and "b = b' + (if Q then 1 else 0)"
    and "c = c' + (if R then 1 else 0)" and "Q \<longrightarrow> P" and "R \<longrightarrow> Q"
  shows "365 * y + a - b + c = 365 * (y - 1) + a' - b' + c' + (if P \<and> (\<not> Q \<or> R) then 366 else 365 :: int)"
  using assms by (cases P; cases Q; cases R) simp_all

lemma year_start_Suc: "year_start y = year_start (y - 1) + (if is_leap_year y then 366 else 365)"
  unfolding year_start_def is_leap_year_def
proof (rule leap_rule)
  have "(4 :: int) dvd 100" by (rule dvdI [where k = 25]) simp
  then show "y mod 100 = 0 \<longrightarrow> y mod 4 = 0"
    unfolding mod_eq_0_iff_dvd by (iprover intro: dvd_trans)
  have "(100 :: int) dvd 400" by (rule dvdI [where k = 4]) simp
  then show "y mod 400 = 0 \<longrightarrow> y mod 100 = 0"
    unfolding mod_eq_0_iff_dvd by (iprover intro: dvd_trans)
qed (rule div_pred, simp)+

lemma month_cases:
  assumes "1 \<le> m" and "m \<le> (12 :: int)"
  obtains "m = 1" | "m = 2" | "m = 3" | "m = 4" | "m = 5" | "m = 6" | "m = 7" | "m = 8" | "m = 9"
    | "m = 10" | "m = 11" | "m = 12"
proof -
  have "m = 1 \<or> m = 2 \<or> m = 3 \<or> m = 4 \<or> m = 5 \<or> m = 6 \<or> m = 7 \<or> m = 8 \<or> m = 9
    \<or> m = 10 \<or> m = 11 \<or> m = 12" using assms by arith
  then show thesis using that by blast
qed

lemma next_ymd_count:
  assumes "valid_ymd y m d" and "next_ymd y m d = (y', m', d')"
  shows "valid_ymd y' m' d'"
    and "year_start (shifted_year y' m') + day_in_year m' d'
       = year_start (shifted_year y m) + day_in_year m d + 1"
proof -
  have m: "1 \<le> m" "m \<le> 12" using assms(1) by (simp_all add: valid_ymd_def)
  show "valid_ymd y' m' d'"
    using assms by (cases rule: month_cases [OF m])
      (auto simp: valid_ymd_def next_ymd_def days_in_month_def split: if_splits)
  show "year_start (shifted_year y' m') + day_in_year m' d'
       = year_start (shifted_year y m) + day_in_year m d + 1"
    using assms year_start_Suc [of y] by (cases rule: month_cases [OF m])
      (auto simp: valid_ymd_def next_ymd_def days_in_month_def shifted_year_def day_in_year_def split: if_splits)
qed

text \<open>Two valid dates with the same count are the same date.\<close>

lemma day_in_year_range:
  assumes "valid_ymd y m d"
  shows "0 \<le> day_in_year m d"
    and "year_start (shifted_year y m) + day_in_year m d < year_start (shifted_year y m + 1)"
proof -
  have m: "1 \<le> m" "m \<le> 12" using assms by (simp_all add: valid_ymd_def)
  show "0 \<le> day_in_year m d"
    using assms by (cases rule: month_cases [OF m]) (auto simp: valid_ymd_def day_in_year_def)
  show "year_start (shifted_year y m) + day_in_year m d < year_start (shifted_year y m + 1)"
    using assms year_start_Suc [of y] year_start_Suc [of "y + 1"] by (cases rule: month_cases [OF m])
      (auto simp: valid_ymd_def day_in_year_def days_in_month_def shifted_year_def split: if_splits)
qed

lemma month_of_day:
  assumes "valid_ymd y m d"
  shows "(5 * day_in_year m d + 2) div 153 = (if 2 < m then m - 3 else m + 9)"
proof -
  have m: "1 \<le> m" "m \<le> 12" using assms by (simp_all add: valid_ymd_def)
  have d: "1 \<le> d" "d \<le> (if m = 2 then 29 else if m \<in> {4, 6, 9, 11} then 30 else 31)"
    using assms by (auto simp: valid_ymd_def days_in_month_def split: if_splits)
  show ?thesis
  proof (rule int_div_pos_eq [where r = "5 * day_in_year m d + 2 - 153 * (if 2 < m then m - 3 else m + 9)"])
    show "0 \<le> 5 * day_in_year m d + 2 - 153 * (if 2 < m then m - 3 else m + 9)"
      and "5 * day_in_year m d + 2 - 153 * (if 2 < m then m - 3 else m + 9) < 153"
      using d by (cases rule: month_cases [OF m]; simp add: day_in_year_def)+
  qed simp
qed

lemma year_start_mono: "Y < Z \<Longrightarrow> year_start (Y + 1) \<le> year_start Z"
proof (induction Z rule: int_gr_induct [where k = Y])
  case (step Z)
  then show ?case using year_start_Suc [of "Z + 1"] by (simp split: if_splits)
qed (simp_all)

lemma day_count_inject:
  assumes v: "valid_ymd y m d" and v': "valid_ymd y' m' d'"
    and eq: "year_start (shifted_year y m) + day_in_year m d = year_start (shifted_year y' m') + day_in_year m' d'"
  shows "y = y' \<and> m = m' \<and> d = d'"
proof -
  have Y: "shifted_year y m = shifted_year y' m'"
    using day_in_year_range [OF v] day_in_year_range [OF v'] eq
      year_start_mono [of "shifted_year y m" "shifted_year y' m'"]
      year_start_mono [of "shifted_year y' m'" "shifted_year y m"]
    by (cases "shifted_year y m" "shifted_year y' m'" rule: linorder_cases) simp_all
  then have doy: "day_in_year m d = day_in_year m' d'" using eq by simp
  then have "(if 2 < m then m - 3 else m + 9) = (if 2 < m' then m' - 3 else m' + 9)"
    using month_of_day [OF v] month_of_day [OF v'] by simp
  then have "m = m'"
    using v v' by (simp add: valid_ymd_def split: if_splits)
  with doy Y show ?thesis by (simp add: day_in_year_def shifted_year_def split: if_splits)
qed

lemma days_since_sa_epoch_inject:
  "days_since_sa_epoch y m d = Ok n \<Longrightarrow> days_since_sa_epoch y' m' d' = Ok n \<Longrightarrow>
     y = y' \<and> m = m' \<and> d = d'"
  by (rule day_count_inject) (auto simp: days_since_sa_epoch_Ok_iff)

section \<open>Posting dates\<close>

record posting_date =
  pd_raw_minutes :: i32
  pd_accounting_date :: i32
  pd_year :: int
  pd_month :: int
  pd_day :: int

definition from_raw_minutes ::
    "(i32 \<Rightarrow> int \<times> int \<times> int) \<Rightarrow> (i32 \<Rightarrow> i32) \<Rightarrow> i32 \<Rightarrow> (posting_date_error, posting_date) outcome" where
  "from_raw_minutes sa_ymd sa_days raw_minutes =
     (let remainder = sint raw_minutes mod 1440 in
      if remainder \<noteq> 0 then Err (NonMidnightMinuteCount raw_minutes remainder)
      else
        case sa_ymd raw_minutes of (year, month, day) \<Rightarrow>
        rbind (validate_ymd year month day) (\<lambda>_.
        let accounting_date = sa_days raw_minutes in
        rbind (days_since_sa_epoch year month day) (\<lambda>days.
          if days \<noteq> sint accounting_date then Err (CalendarRoundTripMismatch raw_minutes)
          else Ok \<lparr>pd_raw_minutes = raw_minutes, pd_accounting_date = accounting_date,
                   pd_year = year, pd_month = month, pd_day = day\<rparr>)))"

definition posting_date_from_disk_bytes ::
    "(i32 \<Rightarrow> int \<times> int \<times> int) \<Rightarrow> (i32 \<Rightarrow> i32) \<Rightarrow> byte list \<Rightarrow> (posting_date_error, posting_date) outcome" where
  "posting_date_from_disk_bytes sa_ymd sa_days bytes =
     rbind (read_le bytes) (from_raw_minutes sa_ymd sa_days)"

definition from_raw_bits ::
    "(i32 \<Rightarrow> int \<times> int \<times> int) \<Rightarrow> (i32 \<Rightarrow> i32) \<Rightarrow> u32 \<Rightarrow> (posting_date_error, posting_date) outcome" where
  "from_raw_bits sa_ymd sa_days raw_bits =
     posting_date_from_disk_bytes sa_ymd sa_days (to_le_bytes raw_bits)"

definition pd_raw_bits :: "posting_date \<Rightarrow> u32" where
  "pd_raw_bits p = from_le_bytes (to_le_bytes (pd_raw_minutes p))"

text \<open>The day count is at most \<open>2\<^sup>4\<^sup>0\<close> in size, so \<open>checked_mul\<close> in \<open>i64\<close> is exact here.\<close>

definition from_ymd ::
    "(i32 \<Rightarrow> int \<times> int \<times> int) \<Rightarrow> (i32 \<Rightarrow> i32) \<Rightarrow> int \<Rightarrow> int \<Rightarrow> int \<Rightarrow> (posting_date_error, posting_date) outcome" where
  "from_ymd sa_ymd sa_days year month day =
     rbind (days_since_sa_epoch year month day) (\<lambda>days.
     rbind (ok_or (checked_mul (word_of_int days :: i64) 1440) (MinuteCountOutOfRange year month day)) (\<lambda>minutes.
     rbind (ok_or (try_from_int (sint minutes)) (MinuteCountOutOfRange year month day)) (\<lambda>raw_minutes.
       from_raw_minutes sa_ymd sa_days raw_minutes)))"

lemma from_raw_minutes_Ok_iff:
  "from_raw_minutes sa_ymd sa_days r = Ok p \<longleftrightarrow>
     sint r mod 1440 = 0
     \<and> days_since_sa_epoch (pd_year p) (pd_month p) (pd_day p) = Ok (sint (sa_days r))
     \<and> sa_ymd r = (pd_year p, pd_month p, pd_day p)
     \<and> p = \<lparr>pd_raw_minutes = r, pd_accounting_date = sa_days r,
            pd_year = pd_year p, pd_month = pd_month p, pd_day = pd_day p\<rparr>"
  by (cases p) (auto simp: from_raw_minutes_def outcome_simps Let_def days_since_sa_epoch_Ok_iff
      validate_ymd_def valid_ymd_def split: prod.splits)

lemma year_start_bound: "\<bar>year_start Y\<bar> \<le> 368 * \<bar>Y\<bar> + 3"
proof -
  have "\<bar>Y div k\<bar> \<le> \<bar>Y\<bar> + 1" if "1 \<le> k" for k :: int
  proof (cases "0 \<le> Y")
    case True
    have "Y div k \<le> Y div 1" using True that by (intro zdiv_mono2) auto
    moreover have "0 \<le> Y div k" using True that by (simp add: pos_imp_zdiv_nonneg_iff)
    ultimately show ?thesis by simp
  next
    case False
    have "Y div 1 \<le> Y div k" using False that by (intro zdiv_mono2_neg) auto
    moreover have "Y div k \<le> 0" using False that by (simp add: div_nonpos_pos_le0)
    ultimately show ?thesis using False by simp
  qed
  note k = this
  define a b c where "a = Y div 4" and "b = Y div 100" and "c = Y div 400"
  have "\<bar>a\<bar> \<le> \<bar>Y\<bar> + 1" "\<bar>b\<bar> \<le> \<bar>Y\<bar> + 1" "\<bar>c\<bar> \<le> \<bar>Y\<bar> + 1"
    unfolding a_def b_def c_def by (rule k, simp)+
  then show ?thesis
    unfolding year_start_def a_def [symmetric] b_def [symmetric] c_def [symmetric] by (simp only: abs_le_iff) linarith
qed

lemma day_count_bound:
  assumes "days_since_sa_epoch y m d = Ok n" and "\<bar>y\<bar> \<le> 2 ^ 31"
  shows "\<bar>n\<bar> \<le> 2 ^ 41"
proof -
  have v: "valid_ymd y m d" and n: "n = year_start (shifted_year y m) + day_in_year m d - 584387"
    using assms(1) by (simp_all add: days_since_sa_epoch_Ok_iff)
  have "\<bar>shifted_year y m\<bar> \<le> 2 ^ 31 + 1" using assms(2) by (auto simp: shifted_year_def)
  then have "\<bar>year_start (shifted_year y m)\<bar> \<le> 368 * (2 ^ 31 + 1) + 3"
    using year_start_bound [of "shifted_year y m"] by simp
  moreover have "0 \<le> day_in_year m d" "day_in_year m d \<le> 366"
    using day_in_year_range [OF v] year_start_Suc [of "shifted_year y m + 1"] by (simp_all split: if_splits)
  ultimately show ?thesis unfolding n by (simp add: abs_le_iff)
qed

lemma from_ymd_Ok_iff:
  assumes "\<bar>y\<bar> \<le> 2 ^ 31"
  shows "from_ymd sa_ymd sa_days y m d = Ok p \<longleftrightarrow>
    (\<exists>n. days_since_sa_epoch y m d = Ok n \<and> - (2 ^ 31) \<le> n * 1440 \<and> n * 1440 < 2 ^ 31
       \<and> from_raw_minutes sa_ymd sa_days (word_of_int (n * 1440)) = Ok p)"
proof -
  have "from_ymd sa_ymd sa_days y m d = Ok p \<longleftrightarrow>
      - (2 ^ 31) \<le> n * 1440 \<and> n * 1440 < 2 ^ 31 \<and> from_raw_minutes sa_ymd sa_days (word_of_int (n * 1440)) = Ok p"
    if n: "days_since_sa_epoch y m d = Ok n" for n
  proof -
    have bound: "\<bar>n\<bar> \<le> 2 ^ 41" by (rule day_count_bound [OF n assms])
    then have w: "sint (word_of_int n :: i64) = n" by (intro sint_word_of_int_range) auto
    then have "checked_mul (word_of_int n :: i64) 1440 = Some (word_of_int (n * 1440))"
      using bound by (auto simp: checked_mul_def try_from_int_def)
    moreover have "sint (word_of_int (n * 1440) :: i64) = n * 1440"
      using bound by (intro sint_word_of_int_range) auto
    ultimately show ?thesis
      by (auto simp: from_ymd_def n ok_or_def try_from_int_def simp del: of_int_mult)
  qed
  then show ?thesis by (cases "days_since_sa_epoch y m d") (auto simp: from_ymd_def)
qed

section \<open>ISO dates\<close>

definition is_digit_code :: "char \<Rightarrow> bool" where
  "is_digit_code c \<longleftrightarrow> 48 \<le> (of_char c :: nat) \<and> (of_char c :: nat) \<le> 57"

fun parse_ascii_digits :: "nat \<Rightarrow> string \<Rightarrow> nat option" where
  "parse_ascii_digits value [] = Some value"
| "parse_ascii_digits value (c # cs) =
     (if is_digit_code c then parse_ascii_digits (value * 10 + (of_char c - 48)) cs else None)"

text \<open>The number is a \<open>u32\<close>; it is called on at most four digits, which cannot overflow it.\<close>

definition parse_iso_date ::
    "(i32 \<Rightarrow> int \<times> int \<times> int) \<Rightarrow> (i32 \<Rightarrow> i32) \<Rightarrow> string \<Rightarrow> (posting_date_error, posting_date) outcome" where
  "parse_iso_date sa_ymd sa_days s =
     (if length s \<noteq> 10 \<or> s ! 4 \<noteq> CHR ''-'' \<or> s ! 7 \<noteq> CHR ''-'' then Err InvalidIsoDateFormat
      else
        rbind (ok_or (parse_ascii_digits 0 (take 4 s)) InvalidIsoDateFormat) (\<lambda>year.
        rbind (ok_or (parse_ascii_digits 0 (take 2 (drop 5 s))) InvalidIsoDateFormat) (\<lambda>month.
        rbind (ok_or (parse_ascii_digits 0 (take 2 (drop 8 s))) InvalidIsoDateFormat) (\<lambda>day.
          if year = 0 then Err InvalidIsoDateFormat
          else from_ymd sa_ymd sa_days (int year) (int month) (int day)))))"

definition digit_char :: "nat \<Rightarrow> char" where
  "digit_char d = char_of (48 + d)"

fun decimal :: "nat \<Rightarrow> string" where
  "decimal n = (if n < 10 then [digit_char n] else decimal (n div 10) @ [digit_char (n mod 10)])"

declare decimal.simps [simp del]

text \<open>\<open>{:0w}\<close>: zeros after the sign, up to the width.\<close>

definition zero_pad :: "nat \<Rightarrow> nat \<Rightarrow> string" where
  "zero_pad w n = replicate (w - length (decimal n)) CHR ''0'' @ decimal n"

definition fmt_padded :: "nat \<Rightarrow> int \<Rightarrow> string" where
  "fmt_padded w v = (if 0 \<le> v then zero_pad w (nat v) else CHR ''-'' # zero_pad (w - 1) (nat (- v)))"

definition to_iso_date :: "posting_date \<Rightarrow> string" where
  "to_iso_date p = fmt_padded 4 (pd_year p) @ ''-'' @ fmt_padded 2 (pd_month p) @ ''-'' @ fmt_padded 2 (pd_day p)"

primrec fixed_digits :: "nat \<Rightarrow> nat \<Rightarrow> string" where
  "fixed_digits 0 n = []"
| "fixed_digits (Suc w) n = fixed_digits w (n div 10) @ [digit_char (n mod 10)]"

lemma length_fixed_digits [simp]: "length (fixed_digits w n) = w"
  by (induction w arbitrary: n) auto

lemma digit_char_code: "d < 10 \<Longrightarrow> of_char (digit_char d) = 48 + d"
  by (simp add: digit_char_def)

lemma digit_char_digit: "d < 10 \<Longrightarrow> is_digit_code (digit_char d)"
  by (simp add: is_digit_code_def digit_char_code)

lemma digit_code_char: "is_digit_code c \<Longrightarrow> digit_char (of_char c - 48) = c"
  by (simp add: is_digit_code_def digit_char_def)

lemma fixed_digits_0: "fixed_digits w 0 = replicate w CHR ''0''"
proof (induction w)
  case (Suc w)
  have "digit_char 0 = CHR ''0''" by code_simp
  with Suc show ?case by (simp add: replicate_append_same)
qed simp

lemma zero_pad_fixed: "n < 10 ^ w \<Longrightarrow> 0 < w \<Longrightarrow> zero_pad w n = fixed_digits w n"
proof (induction w arbitrary: n)
  case (Suc w)
  show ?case
  proof (cases "n < 10")
    case True
    then show ?thesis by (simp add: zero_pad_def decimal.simps [of n] fixed_digits_0)
  next
    case False
    then have "0 < w" using Suc.prems(1) by (cases w) auto
    moreover have "n div 10 < 10 ^ w" using Suc.prems(1) by (simp add: less_mult_imp_div_less mult.commute)
    ultimately have "zero_pad w (n div 10) = fixed_digits w (n div 10)" by (rule Suc.IH [rotated])
    with False show ?thesis by (simp add: zero_pad_def decimal.simps [of n])
  qed
qed simp

lemma parse_ascii_digits_append:
  "parse_ascii_digits v (xs @ ys) =
     (case parse_ascii_digits v xs of None \<Rightarrow> None | Some u \<Rightarrow> parse_ascii_digits u ys)"
  by (induction xs arbitrary: v) auto

lemma parse_fixed_digits: "n < 10 ^ w \<Longrightarrow> parse_ascii_digits 0 (fixed_digits w n) = Some n"
proof (induction w arbitrary: n)
  case (Suc w)
  have "n div 10 < 10 ^ w" using Suc.prems by (simp add: less_mult_imp_div_less mult.commute)
  then show ?case
    using Suc.IH by (simp add: parse_ascii_digits_append digit_char_digit digit_char_code)
qed simp

lemma parse_ascii_digits_Some:
  "parse_ascii_digits 0 cs = Some n \<Longrightarrow> n < 10 ^ length cs \<and> cs = fixed_digits (length cs) n"
proof (induction cs arbitrary: n rule: rev_induct)
  case (snoc c cs)
  then obtain u where u: "parse_ascii_digits 0 cs = Some u" and c: "is_digit_code c"
    and n: "n = u * 10 + (of_char c - 48)"
    by (auto simp: parse_ascii_digits_append split: option.splits if_splits)
  have "of_char c - 48 < (10 :: nat)" using c unfolding is_digit_code_def by arith
  with snoc.IH [OF u] n digit_code_char [OF c] show ?case by simp
qed simp

section \<open>Round trips\<close>

text \<open>What the source relies on: on a midnight value, \<open>days_since_sa_epoch\<close> is the number of days.\<close>

definition counts_days :: "(i32 \<Rightarrow> i32) \<Rightarrow> bool" where
  "counts_days sa_days \<longleftrightarrow> (\<forall>r. sint r mod 1440 = 0 \<longrightarrow> sint (sa_days r) = sint r div 1440)"

lemma from_ymd_components:
  assumes "counts_days sa_days" and "\<bar>y\<bar> \<le> 2 ^ 31" and "from_ymd sa_ymd sa_days y m d = Ok p"
  shows "pd_year p = y \<and> pd_month p = m \<and> pd_day p = d"
proof -
  from assms(3) obtain n where n: "days_since_sa_epoch y m d = Ok n"
    and r: "- (2 ^ 31) \<le> n * 1440" "n * 1440 < 2 ^ 31"
    and raw: "from_raw_minutes sa_ymd sa_days (word_of_int (n * 1440)) = Ok p"
    unfolding from_ymd_Ok_iff [OF assms(2)] by blast
  have "sint (word_of_int (n * 1440) :: i32) = n * 1440"
    using r by (intro sint_word_of_int_range) auto
  then have "sint (sa_days (word_of_int (n * 1440))) = n"
    using assms(1) by (simp add: counts_days_def del: of_int_mult)
  then have "days_since_sa_epoch (pd_year p) (pd_month p) (pd_day p) = Ok n"
    using raw by (simp add: from_raw_minutes_Ok_iff del: of_int_mult)
  from days_since_sa_epoch_inject [OF this n] show ?thesis by simp
qed

lemma from_ymd_of_raw:
  assumes "counts_days sa_days" and "from_raw_minutes sa_ymd sa_days r = Ok p" and "\<bar>pd_year p\<bar> \<le> 2 ^ 31"
  shows "from_ymd sa_ymd sa_days (pd_year p) (pd_month p) (pd_day p) = Ok p"
  unfolding from_ymd_Ok_iff [OF assms(3)]
proof (intro exI conjI)
  let ?n = "sint (sa_days r)"
  have mid: "sint r mod 1440 = 0"
    and days: "days_since_sa_epoch (pd_year p) (pd_month p) (pd_day p) = Ok ?n"
    using assms(2) unfolding from_raw_minutes_Ok_iff by blast+
  show "days_since_sa_epoch (pd_year p) (pd_month p) (pd_day p) = Ok ?n" by (rule days)
  have "?n * 1440 = sint r"
    using assms(1) mid div_mult_mod_eq [of "sint r" 1440] by (simp add: counts_days_def)
  then show "- (2 ^ 31) \<le> ?n * 1440" and "?n * 1440 < 2 ^ 31"
    and "from_raw_minutes sa_ymd sa_days (word_of_int (?n * 1440)) = Ok p"
    using sint_range [of r] assms(2) by simp_all
qed

lemma iso_shape:
  assumes "length s = 10" and "s ! 4 = x" and "s ! 7 = y"
  shows "s = take 4 s @ [x] @ take 2 (drop 5 s) @ [y] @ take 2 (drop 8 s)"
proof -
  obtain a b c d e f g h i j where "s = [a, b, c, d, e, f, g, h, i, j]"
    using assms(1) by (auto simp: length_Suc_conv eval_nat_numeral)
  with assms(2,3) show ?thesis by simp
qed

lemma fmt_padded_int: "n < 10 ^ w \<Longrightarrow> 0 < w \<Longrightarrow> fmt_padded w (int n) = fixed_digits w n"
  by (simp add: fmt_padded_def zero_pad_fixed)

lemma parse_iso_date_prints:
  assumes "counts_days sa_days" and "parse_iso_date sa_ymd sa_days s = Ok p"
  shows "to_iso_date p = s"
proof -
  from assms(2) obtain y m d where len: "length s = 10" and sep: "s ! 4 = CHR ''-''" "s ! 7 = CHR ''-''"
    and y: "parse_ascii_digits 0 (take 4 s) = Some y"
    and m: "parse_ascii_digits 0 (take 2 (drop 5 s)) = Some m"
    and d: "parse_ascii_digits 0 (take 2 (drop 8 s)) = Some d"
    and ymd: "from_ymd sa_ymd sa_days (int y) (int m) (int d) = Ok p"
    by (auto simp: parse_iso_date_def outcome_simps split: if_splits)
  have Y: "y < 10 ^ 4" "take 4 s = fixed_digits 4 y" using parse_ascii_digits_Some [OF y] len by simp_all
  have M: "m < 10 ^ 2" "take 2 (drop 5 s) = fixed_digits 2 m" using parse_ascii_digits_Some [OF m] len by simp_all
  have D: "d < 10 ^ 2" "take 2 (drop 8 s) = fixed_digits 2 d" using parse_ascii_digits_Some [OF d] len by simp_all
  have "pd_year p = int y \<and> pd_month p = int m \<and> pd_day p = int d"
    using Y(1) by (intro from_ymd_components [OF assms(1) _ ymd]) simp
  then have "to_iso_date p = fixed_digits 4 y @ ''-'' @ fixed_digits 2 m @ ''-'' @ fixed_digits 2 d"
    using Y(1) M(1) D(1) by (simp add: to_iso_date_def fmt_padded_int)
  with iso_shape [OF len sep] Y(2) M(2) D(2) show ?thesis by simp
qed

lemma parse_iso_date_printed:
  assumes "counts_days sa_days" and raw: "from_raw_minutes sa_ymd sa_days r = Ok p"
    and year: "1 \<le> pd_year p" "pd_year p \<le> 9999"
  shows "parse_iso_date sa_ymd sa_days (to_iso_date p) = Ok p"
proof -
  have v: "valid_ymd (pd_year p) (pd_month p) (pd_day p)"
    using raw by (auto simp: from_raw_minutes_Ok_iff days_since_sa_epoch_Ok_iff)
  define y m d where "y = nat (pd_year p)" and "m = nat (pd_month p)" and "d = nat (pd_day p)"
  have ints: "pd_year p = int y" "pd_month p = int m" "pd_day p = int d" and "0 < y"
    using v year by (auto simp: y_def m_def d_def valid_ymd_def)
  have "pd_day p \<le> 31" using v by (auto simp: valid_ymd_def days_in_month_def split: if_splits)
  then have b: "y < 10 ^ 4" "m < 10 ^ 2" "d < 10 ^ 2"
    using v year by (simp_all add: y_def m_def d_def valid_ymd_def nat_less_iff)
  let ?s = "fixed_digits 4 y @ [CHR ''-''] @ fixed_digits 2 m @ [CHR ''-''] @ fixed_digits 2 d"
  have s: "to_iso_date p = ?s"
    using b by (simp add: to_iso_date_def ints fmt_padded_int)
  have "from_ymd sa_ymd sa_days (int y) (int m) (int d) = Ok p"
    using from_ymd_of_raw [OF assms(1) raw] year by (simp add: ints)
  moreover have "take 4 ?s = fixed_digits 4 y" "take 2 (drop 5 ?s) = fixed_digits 2 m"
    "take 2 (drop 8 ?s) = fixed_digits 2 d" "?s ! 4 = CHR ''-''" "?s ! 7 = CHR ''-''" "length ?s = 10"
    by (simp_all add: nth_append)
  ultimately show ?thesis
    unfolding s parse_iso_date_def
    using b parse_fixed_digits [of y 4] parse_fixed_digits [of m 2] parse_fixed_digits [of d 2] \<open>0 < y\<close>
    by (simp only: ok_or_def rbind.simps option.case if_False simp_thms refl neq0_conv [symmetric])
qed

end
