(* ===== verification/Text.thy ===== *)
theory Text
  imports Posting_Date
begin

text \<open>
  The operations of Rust's \<open>str\<close> that the report readers and writers use. A string is its UTF-8
  bytes (see \<open>Codec\<close>). Every character the program searches for is ASCII, or is given with all
  its bytes, and no byte of a multi-byte character is an ASCII byte, so byte-wise search finds
  what \<open>chars()\<close> finds.
\<close>

section \<open>White space\<close>

text \<open>The length of a white-space character at the front, and at the back of a reversed string.\<close>

definition ws_front :: "string \<Rightarrow> nat" where
  "ws_front s =
     (case s of
        [] \<Rightarrow> 0
      | a # t \<Rightarrow>
          if ws1 (of_char a) then 1
          else (case t of
                  [] \<Rightarrow> 0
                | b # u \<Rightarrow>
                    if ws2 (of_char a) (of_char b) then 2
                    else (case u of
                            [] \<Rightarrow> 0
                          | c # _ \<Rightarrow> if ws3 (of_char a) (of_char b) (of_char c) then 3 else 0)))"

definition ws_back :: "string \<Rightarrow> nat" where
  "ws_back s =
     (case s of
        [] \<Rightarrow> 0
      | a # t \<Rightarrow>
          if ws1 (of_char a) then 1
          else (case t of
                  [] \<Rightarrow> 0
                | b # u \<Rightarrow>
                    if ws2 (of_char b) (of_char a) then 2
                    else (case u of
                            [] \<Rightarrow> 0
                          | c # _ \<Rightarrow> if ws3 (of_char c) (of_char b) (of_char a) then 3 else 0)))"

lemma ws_front_pos: "0 < ws_front s \<Longrightarrow> s \<noteq> []"
  by (cases s) (auto simp: ws_front_def)

lemma ws_back_pos: "0 < ws_back s \<Longrightarrow> s \<noteq> []"
  by (cases s) (auto simp: ws_back_def)

function trim_start :: "string \<Rightarrow> string" where
  "trim_start s = (if ws_front s = 0 then s else trim_start (drop (ws_front s) s))"
  by pat_completeness auto
termination
  by (relation "measure length") (auto intro!: diff_less dest: ws_front_pos)

function trim_back :: "string \<Rightarrow> string" where
  "trim_back s = (if ws_back s = 0 then s else trim_back (drop (ws_back s) s))"
  by pat_completeness auto
termination
  by (relation "measure length") (auto intro!: diff_less dest: ws_back_pos)

declare trim_start.simps [simp del] trim_back.simps [simp del]

definition trim_end :: "string \<Rightarrow> string" where
  "trim_end s = rev (trim_back (rev s))"

definition trim :: "string \<Rightarrow> string" where
  "trim s = trim_end (trim_start s)"

text \<open>\<open>split_whitespace\<close>: the maximal nonempty runs of other characters.\<close>

function split_words :: "string \<Rightarrow> string \<Rightarrow> string list" where
  "split_words word s =
     (if s = [] then (if word = [] then [] else [word])
      else if ws_front s = 0 then split_words (word @ [hd s]) (tl s)
      else (if word = [] then [] else [word]) @ split_words [] (drop (ws_front s) s))"
  by pat_completeness auto
termination
  by (relation "measure (\<lambda>(w, s). length s)") (auto intro!: diff_less dest: ws_front_pos)

declare split_words.simps [simp del]

definition split_whitespace :: "string \<Rightarrow> string list" where
  "split_whitespace s = split_words [] s"

section \<open>Searching\<close>

fun strip_prefix :: "string \<Rightarrow> string \<Rightarrow> string option" where
  "strip_prefix [] s = Some s"
| "strip_prefix (p # ps) [] = None"
| "strip_prefix (p # ps) (c # cs) = (if p = c then strip_prefix ps cs else None)"

definition starts_with :: "string \<Rightarrow> string \<Rightarrow> bool" where
  "starts_with p s \<longleftrightarrow> strip_prefix p s \<noteq> None"

definition strip_suffix :: "string \<Rightarrow> string \<Rightarrow> string option" where
  "strip_suffix p s = map_option rev (strip_prefix (rev p) (rev s))"

definition ends_with :: "string \<Rightarrow> string \<Rightarrow> bool" where
  "ends_with p s \<longleftrightarrow> strip_suffix p s \<noteq> None"

text \<open>\<open>split_once\<close>: around the first occurrence.\<close>

fun split_once :: "string \<Rightarrow> string \<Rightarrow> (string \<times> string) option" where
  "split_once p [] = (if p = [] then Some ([], []) else None)"
| "split_once p (c # cs) =
     (case strip_prefix p (c # cs) of
        Some rest \<Rightarrow> Some ([], rest)
      | None \<Rightarrow> map_option (\<lambda>(l, r). (c # l, r)) (split_once p cs))"

definition contains_str :: "string \<Rightarrow> string \<Rightarrow> bool" where
  "contains_str p s \<longleftrightarrow> split_once p s \<noteq> None"

text \<open>\<open>split(c)\<close> on one ASCII character: always at least one piece.\<close>

fun split_char :: "char \<Rightarrow> string \<Rightarrow> string list" where
  "split_char d [] = [[]]"
| "split_char d (c # cs) =
     (if c = d then [] # split_char d cs
      else (case split_char d cs of [] \<Rightarrow> [[c]] | w # ws \<Rightarrow> (c # w) # ws))"

definition join_with :: "string \<Rightarrow> string list \<Rightarrow> string" where
  "join_with sep xs = (case xs of [] \<Rightarrow> [] | x # ys \<Rightarrow> x @ concat (map (\<lambda>y. sep @ y) ys))"

section \<open>ASCII classes\<close>

definition ascii_lower :: "char \<Rightarrow> char" where
  "ascii_lower c = (if 65 \<le> (of_char c :: nat) \<and> (of_char c :: nat) \<le> 90 then char_of (of_char c + 32 :: nat) else c)"

definition to_ascii_lowercase :: "string \<Rightarrow> string" where
  "to_ascii_lowercase s = map ascii_lower s"

definition eq_ignore_ascii_case :: "string \<Rightarrow> string \<Rightarrow> bool" where
  "eq_ignore_ascii_case s t \<longleftrightarrow> to_ascii_lowercase s = to_ascii_lowercase t"

definition is_ascii_alphanumeric :: "char \<Rightarrow> bool" where
  "is_ascii_alphanumeric c \<longleftrightarrow>
     is_digit_code c
   \<or> 65 \<le> (of_char c :: nat) \<and> (of_char c :: nat) \<le> 90
   \<or> 97 \<le> (of_char c :: nat) \<and> (of_char c :: nat) \<le> 122"

section \<open>Integers as text\<close>

definition digits_value :: "string \<Rightarrow> nat option" where
  "digits_value s = (if s = [] then None else parse_ascii_digits 0 s)"

text \<open>
  \<open>str::parse\<close> for a signed integer type: an optional sign, at least one digit, digits only, and
  a value in range; for an unsigned type the minus sign is not accepted.
\<close>

definition parse_number :: "bool \<Rightarrow> string \<Rightarrow> int option" where
  "parse_number neg s = map_option (\<lambda>n. if neg then - int n else int n) (digits_value s)"

definition parse_int_str :: "bool \<Rightarrow> string \<Rightarrow> int option" where
  "parse_int_str is_signed s =
     (case s of
        [] \<Rightarrow> None
      | c # cs \<Rightarrow>
          if c = CHR ''+'' then parse_number False cs
          else if c = CHR ''-'' \<and> is_signed then parse_number True cs
          else parse_number False s)"

definition parse_i64 :: "string \<Rightarrow> i64 option" where
  "parse_i64 s = (case parse_int_str True s of None \<Rightarrow> None | Some v \<Rightarrow> try_from_int v)"

definition parse_i32 :: "string \<Rightarrow> i32 option" where
  "parse_i32 s = (case parse_int_str True s of None \<Rightarrow> None | Some v \<Rightarrow> try_from_int v)"

definition parse_u8 :: "string \<Rightarrow> int option" where
  "parse_u8 s =
     (case parse_int_str False s of None \<Rightarrow> None | Some v \<Rightarrow> if v < 256 then Some v else None)"

text \<open>\<open>to_string\<close> of an integer.\<close>

definition int_to_string :: "int \<Rightarrow> string" where
  "int_to_string v = (if v < 0 then CHR ''-'' # decimal (nat (- v)) else decimal (nat v))"

section \<open>UTF-8\<close>

text \<open>
  The length of a well-formed character at the front of a byte string, by the table of the
  Unicode standard that \<open>std::str::from_utf8\<close> implements; 0 when there is none.
\<close>

definition utf8_tail :: "nat \<Rightarrow> bool" where
  "utf8_tail b \<longleftrightarrow> 128 \<le> b \<and> b \<le> 191"

definition utf8_front :: "nat list \<Rightarrow> nat" where
  "utf8_front s =
     (case s of
        [] \<Rightarrow> 0
      | a # t \<Rightarrow>
          if a < 128 then 1
          else if 194 \<le> a \<and> a \<le> 223 then (case t of b # _ \<Rightarrow> if utf8_tail b then 2 else 0 | _ \<Rightarrow> 0)
          else if 224 \<le> a \<and> a \<le> 239 then
            (case t of
               b # c # _ \<Rightarrow>
                 if utf8_tail b \<and> utf8_tail c \<and> (a = 224 \<longrightarrow> 160 \<le> b) \<and> (a = 237 \<longrightarrow> b \<le> 159) then 3 else 0
             | _ \<Rightarrow> 0)
          else if 240 \<le> a \<and> a \<le> 244 then
            (case t of
               b # c # d # _ \<Rightarrow>
                 if utf8_tail b \<and> utf8_tail c \<and> utf8_tail d \<and> (a = 240 \<longrightarrow> 144 \<le> b) \<and> (a = 244 \<longrightarrow> b \<le> 143)
                 then 4 else 0
             | _ \<Rightarrow> 0)
          else 0)"

lemma utf8_front_pos: "0 < utf8_front s \<Longrightarrow> s \<noteq> []"
  by (cases s) (auto simp: utf8_front_def)

function utf8_codes :: "nat list \<Rightarrow> bool" where
  "utf8_codes s = (s = [] \<or> (if utf8_front s = 0 then False else utf8_codes (drop (utf8_front s) s)))"
  by pat_completeness auto
termination
  by (relation "measure length") (auto intro!: diff_less dest: utf8_front_pos)

declare utf8_codes.simps [simp del]

definition utf8_valid :: "string \<Rightarrow> bool" where
  "utf8_valid s = utf8_codes (map of_char s)"

definition encode_utf8 :: "nat \<Rightarrow> string" where
  "encode_utf8 u =
     (if u < 128 then [char_of u]
      else if u < 2048 then [char_of (192 + u div 64), char_of (128 + u mod 64)]
      else [char_of (224 + u div 4096), char_of (128 + u div 64 mod 64), char_of (128 + u mod 64)])"

section \<open>Facts\<close>

lemma trim_start_id: "ws_front s = 0 \<Longrightarrow> trim_start s = s"
  by (simp add: trim_start.simps)

lemma trim_end_id: "ws_back (rev s) = 0 \<Longrightarrow> trim_end s = s"
  by (simp add: trim_end_def trim_back.simps)

lemma trim_id: "ws_front s = 0 \<Longrightarrow> ws_back (rev s) = 0 \<Longrightarrow> trim s = s"
  by (simp add: trim_def trim_start_id trim_end_id)

lemma trim_Nil [simp]: "trim [] = []"
  by (rule trim_id) (simp_all add: ws_front_def ws_back_def)

lemma ws_front_trim_start: "ws_front (trim_start s) = 0"
  by (induction s rule: trim_start.induct) (metis trim_start.simps)

lemma ws_back_trim_back: "ws_back (trim_back s) = 0"
  by (induction s rule: trim_back.induct) (metis trim_back.simps)

text \<open>A string of printable ASCII characters is its own trimming.\<close>

definition plain_char :: "char \<Rightarrow> bool" where
  "plain_char c \<longleftrightarrow> 33 \<le> (of_char c :: nat) \<and> (of_char c :: nat) \<le> 126"

lemma plain_not_ws:
  "plain_char a \<Longrightarrow> \<not> ws1 (of_char a)" "plain_char a \<Longrightarrow> \<not> ws2 (of_char a) b"
  "plain_char a \<Longrightarrow> \<not> ws2 b (of_char a)" "plain_char a \<Longrightarrow> \<not> ws3 (of_char a) b c"
  "plain_char a \<Longrightarrow> \<not> ws3 b c (of_char a)"
  by (auto simp: plain_char_def ws1_def ws2_def ws3_def)

lemma trim_plain: "plain_char (hd s) \<Longrightarrow> plain_char (last s) \<Longrightarrow> trim s = s"
proof (cases "s = []")
  case False
  then obtain a t b u where s: "s = a # t" and r: "rev s = b # u" and b: "last s = b"
    by (metis hd_rev list.exhaust list.sel(1) rev_is_Nil_conv)
  assume "plain_char (hd s)" and "plain_char (last s)"
  then have "ws_front s = 0" and "ws_back (rev s) = 0"
    unfolding r b using s plain_not_ws
    by (auto simp: ws_front_def ws_back_def split: list.splits)
  then show ?thesis by (rule trim_id)
qed simp

lemma digit_plain: "is_digit_code c \<Longrightarrow> plain_char c"
  by (simp add: is_digit_code_def plain_char_def)

text \<open>\<open>trim\<close> leaves nothing exactly on a blank string.\<close>

lemma ws_front_append: "0 < ws_front p \<Longrightarrow> 0 < ws_front (p @ q)"
  by (auto simp: ws_front_def split: list.splits if_splits)

lemma ws_front_of_back: "0 < ws_back s \<Longrightarrow> drop (ws_back s) s = [] \<Longrightarrow> 0 < ws_front (rev s)"
  by (auto simp: ws_back_def ws_front_def split: list.splits if_splits)

lemma trim_back_blank: "trim_back s = [] \<Longrightarrow> s \<noteq> [] \<Longrightarrow> 0 < ws_front (rev s)"
proof (induction s rule: trim_back.induct)
  case (1 s)
  show ?case
  proof (cases "ws_back s = 0")
    case True
    with "1.prems" show ?thesis by (simp add: trim_back.simps)
  next
    case False
    then have rest: "trim_back (drop (ws_back s) s) = []"
      using "1.prems"(1) by (simp add: trim_back.simps)
    show ?thesis
    proof (cases "drop (ws_back s) s = []")
      case True
      with False show ?thesis by (simp add: ws_front_of_back)
    next
      case nonempty: False
      have "0 < ws_front (rev (drop (ws_back s) s))"
        using "1.IH" [OF False rest nonempty] .
      then have "0 < ws_front (rev (drop (ws_back s) s) @ rev (take (ws_back s) s))"
        by (rule ws_front_append)
      then show ?thesis by (metis append_take_drop_id rev_append)
    qed
  qed
qed

lemma trim_Nil_start: "trim s = [] \<longleftrightarrow> trim_start s = []"
proof
  assume "trim s = []"
  then have "trim_back (rev (trim_start s)) = []" by (simp add: trim_def trim_end_def)
  then show "trim_start s = []"
    using trim_back_blank [of "rev (trim_start s)"] ws_front_trim_start [of s] by auto
qed (simp add: trim_def trim_end_def trim_back.simps ws_back_def)

lemma trim_start_blank: "trim_start s = [] \<longleftrightarrow> blank_codes (map of_char s)"
proof (induction s rule: trim_start.induct)
  case (1 s)
  have ws: "ws_front s = 0 \<Longrightarrow> s \<noteq> [] \<Longrightarrow> \<not> blank_codes (map of_char s)"
    by (cases s rule: remdups_adj.cases; cases "tl (tl s)")
      (auto simp: ws_front_def split: if_splits list.splits)
  have step: "ws_front s \<noteq> 0 \<Longrightarrow> blank_codes (map of_char s) = blank_codes (map of_char (drop (ws_front s) s))"
    by (cases s rule: remdups_adj.cases; cases "tl (tl s)")
      (auto simp: ws_front_def split: if_splits list.splits)
  show ?case
  proof (cases "ws_front s = 0")
    case True
    with ws show ?thesis by (cases "s = []") (auto simp: trim_start_id)
  next
    case False
    with "1.IH" step show ?thesis by (simp add: trim_start.simps [of s])
  qed
qed

lemma trim_Nil_iff: "trim s = [] \<longleftrightarrow> trim_is_empty s"
  by (simp add: trim_Nil_start trim_start_blank trim_is_empty_def)

text \<open>A string with a byte of no white-space character is not blank.\<close>

definition ws_byte :: "nat \<Rightarrow> bool" where
  "ws_byte b \<longleftrightarrow> ws1 b \<or> b \<in> {194, 133, 160, 225, 154, 128, 226, 168, 169, 175, 129, 159, 227} \<or> 128 \<le> b \<and> b \<le> 138"

lemma blank_codes_bytes: "blank_codes s \<Longrightarrow> \<forall>b \<in> set s. ws_byte b"
  by (induction s rule: blank_codes.induct)
    (auto simp: ws_byte_def ws2_def ws3_def split: if_splits)

lemma not_blank_byte: "c \<in> set s \<Longrightarrow> \<not> ws_byte (of_char c) \<Longrightarrow> \<not> trim_is_empty s"
  unfolding trim_is_empty_def using blank_codes_bytes [of "map of_char s"] by auto

text \<open>ASCII text is UTF-8.\<close>

lemma utf8_codes_ascii: "list_all (\<lambda>b. b < 128) s \<Longrightarrow> utf8_codes s"
proof (induction s)
  case (Cons b s)
  then have "utf8_front (b # s) = 1" by (simp add: utf8_front_def)
  with Cons show ?case by (subst utf8_codes.simps) simp
qed (simp add: utf8_codes.simps)

lemma utf8_valid_ascii: "list_all (\<lambda>c. (of_char c :: nat) < 128) s \<Longrightarrow> utf8_valid s"
  unfolding utf8_valid_def by (rule utf8_codes_ascii) (simp add: list_all_iff)

end
