(* ===== verification/Ordered_Map.thy ===== *)
theory Ordered_Map
  imports Prelude
begin

text \<open>
  The part of \<open>BTreeMap\<close> the program uses: insertion, lookup, \<open>*entry(k).or_default() += v\<close> and
  iteration in key order. A map is the list of its entries in strictly increasing key order. The
  locale \<open>ordered_map\<close> states what the clients rely on; the running totals of the reports are
  characterised inside it, once, as sums over the postings of a key.
\<close>

type_synonym ('k, 'v) btree = "('k \<times> 'v) list"

fun bt_insert :: "'k::linorder \<Rightarrow> 'v \<Rightarrow> ('k, 'v) btree \<Rightarrow> ('k, 'v) btree" where
  "bt_insert k v [] = [(k, v)]"
| "bt_insert k v ((l, w) # m) =
     (if k < l then (k, v) # (l, w) # m
      else if k = l then (k, v) # m
      else (l, w) # bt_insert k v m)"

definition bt_get :: "('k, 'v) btree \<Rightarrow> 'k \<Rightarrow> 'v option" where
  "bt_get m k = map_of m k"

definition bt_add :: "'k::linorder \<Rightarrow> int \<Rightarrow> ('k, int) btree \<Rightarrow> ('k, int) btree" where
  "bt_add k x m = bt_insert k ((case bt_get m k of None \<Rightarrow> 0 | Some y \<Rightarrow> y) + x) m"

definition bt_keys :: "('k, 'v) btree \<Rightarrow> 'k list" where
  "bt_keys m = map fst m"

definition bt_values :: "('k, 'v) btree \<Rightarrow> 'v list" where
  "bt_values m = map snd m"

definition bt_ok :: "('k::linorder, 'v) btree \<Rightarrow> bool" where
  "bt_ok m \<longleftrightarrow> sorted_wrt (<) (map fst m)"

text \<open>\<open>get(k).copied().unwrap_or_default()\<close> on a map of totals.\<close>

definition bt_total :: "('k, int) btree \<Rightarrow> 'k \<Rightarrow> int" where
  "bt_total m k = (case bt_get m k of None \<Rightarrow> 0 | Some y \<Rightarrow> y)"

section \<open>The interface\<close>

definition default_total :: "int option \<Rightarrow> int" where
  "default_total x = (case x of None \<Rightarrow> 0 | Some s \<Rightarrow> s)"

definition tally_step ::
    "('m \<Rightarrow> 'k \<Rightarrow> int option) \<Rightarrow> ('k \<Rightarrow> int \<Rightarrow> 'm \<Rightarrow> 'm) \<Rightarrow> ('a \<Rightarrow> 'k) \<Rightarrow> ('a \<Rightarrow> int) \<Rightarrow> 'a \<Rightarrow> 'm \<Rightarrow> 'm" where
  "tally_step get ins f g x m = ins (f x) (default_total (get m (f x)) + g x) m"

locale ordered_map =
  fixes get :: "'m \<Rightarrow> 'k::linorder \<Rightarrow> int option"
    and insert_entry :: "'k \<Rightarrow> int \<Rightarrow> 'm \<Rightarrow> 'm"
    and empty :: 'm
    and entries :: "'m \<Rightarrow> ('k \<times> int) list"
    and invariant :: "'m \<Rightarrow> bool"
  assumes get_empty: "get empty k = None"
    and get_insert: "invariant m \<Longrightarrow> get (insert_entry k v m) = (get m)(k \<mapsto> v)"
    and invariant_empty: "invariant empty"
    and invariant_insert: "invariant m \<Longrightarrow> invariant (insert_entry k v m)"
    and entries_get: "invariant m \<Longrightarrow> (k, v) \<in> set (entries m) \<longleftrightarrow> get m k = Some v"
    and entries_sorted: "invariant m \<Longrightarrow> sorted_wrt (<) (map fst (entries m))"
begin

text \<open>The total of a key after a loop of \<open>or_default() += v\<close> is the sum of its increments.\<close>

lemma tally_invariant: "invariant m \<Longrightarrow> invariant (fold (tally_step get insert_entry f g) xs m)"
  by (induction xs arbitrary: m) (auto simp: tally_step_def invariant_insert)

lemma tally_total:
  "invariant m \<Longrightarrow>
     default_total (get (fold (tally_step get insert_entry f g) xs m) k)
   = default_total (get m k) + sum_list (map g (filter (\<lambda>x. f x = k) xs))"
  by (induction xs arbitrary: m)
    (auto simp: tally_step_def invariant_insert get_insert default_total_def)

lemma tally_absent:
  "invariant m \<Longrightarrow>
     get (fold (tally_step get insert_entry f g) xs m) k = None \<longleftrightarrow> get m k = None \<and> k \<notin> f ` set xs"
  by (induction xs arbitrary: m) (auto simp: tally_step_def invariant_insert get_insert)

lemma entries_distinct: "invariant m \<Longrightarrow> distinct (map fst (entries m))"
  using entries_sorted strict_sorted_iff by blast

end

section \<open>The association list implements it\<close>

lemma bt_get_insert: "bt_get (bt_insert k v m) = (bt_get m)(k \<mapsto> v)"
  by (induction k v m rule: bt_insert.induct) (auto simp: bt_get_def)

lemma set_bt_insert_keys: "fst ` set (bt_insert k v m) = insert k (fst ` set m)"
  by (induction k v m rule: bt_insert.induct) (auto simp: image_iff)

lemma bt_ok_insert: "bt_ok m \<Longrightarrow> bt_ok (bt_insert k v m)"
proof (induction k v m rule: bt_insert.induct)
  case (2 k v l w m)
  have "\<forall>x \<in> fst ` set (bt_insert k v m). l < x" if "l < k"
    using 2 that unfolding set_bt_insert_keys by (auto simp: bt_ok_def)
  with 2 show ?case by (auto simp: bt_ok_def)
qed (simp add: bt_ok_def)

lemma bt_ok_Nil [simp]: "bt_ok []"
  by (simp add: bt_ok_def)

lemma bt_get_Nil [simp]: "bt_get [] k = None"
  by (simp add: bt_get_def)

lemma bt_ok_distinct: "bt_ok m \<Longrightarrow> distinct (map fst m)"
  by (simp add: bt_ok_def strict_sorted_iff)

lemma bt_get_iff: "bt_ok m \<Longrightarrow> (k, v) \<in> set m \<longleftrightarrow> bt_get m k = Some v"
  by (auto simp: bt_get_def bt_ok_distinct)

lemma bt_get_SomeD: "bt_get m k = Some v \<Longrightarrow> (k, v) \<in> set m"
  by (simp add: bt_get_def map_of_SomeD)

lemma bt_get_None_iff: "bt_get m k = None \<longleftrightarrow> k \<notin> fst ` set m"
  by (simp add: bt_get_def map_of_eq_None_iff)

interpretation btree: ordered_map bt_get bt_insert "[]" "\<lambda>m. m" bt_ok
  by unfold_locales
    (auto simp: bt_get_insert bt_ok_insert bt_get_iff, auto simp: bt_ok_def)

text \<open>A tally over a list, as the reports build it.\<close>

definition bt_tally :: "('a \<Rightarrow> 'k::linorder) \<Rightarrow> ('a \<Rightarrow> int) \<Rightarrow> 'a list \<Rightarrow> ('k, int) btree" where
  "bt_tally f g xs = fold (\<lambda>x. bt_add (f x) (g x)) xs []"

lemma bt_tally_fold: "bt_tally f g xs = fold (tally_step bt_get bt_insert f g) xs []"
  by (simp add: bt_tally_def bt_add_def [abs_def] tally_step_def [abs_def] default_total_def)

lemma bt_ok_tally: "bt_ok (bt_tally f g xs)"
  unfolding bt_tally_fold by (rule btree.tally_invariant) simp

lemma bt_total_tally: "bt_total (bt_tally f g xs) k = sum_list (map g (filter (\<lambda>x. f x = k) xs))"
  using btree.tally_total [of "[]" f g xs k]
  by (simp add: bt_total_def bt_tally_fold default_total_def)

lemma bt_get_tally:
  "bt_get (bt_tally f g xs) k =
     (if k \<in> f ` set xs then Some (sum_list (map g (filter (\<lambda>x. f x = k) xs))) else None)"
  using btree.tally_absent [of "[]" f g xs k] bt_total_tally [of f g xs k]
  by (auto simp: bt_total_def bt_tally_fold split: option.splits if_splits)

lemma bt_tally_entries:
  "(k, s) \<in> set (bt_tally f g xs) \<longleftrightarrow>
     k \<in> f ` set xs \<and> s = sum_list (map g (filter (\<lambda>x. f x = k) xs))"
  by (auto simp: bt_get_iff [OF bt_ok_tally] bt_get_tally)

text \<open>Sums over a partition by key.\<close>

lemma sum_list_filter_disj:
  "sum_list (map g (filter P xs)) + sum_list (map g (filter (\<lambda>x. \<not> P x) xs)) = (sum_list (map g xs) :: int)"
  by (induction xs) auto

lemma sum_list_by_key:
  assumes "distinct ks" and "f ` set xs \<subseteq> set ks"
  shows "(\<Sum>k\<leftarrow>ks. sum_list (map g (filter (\<lambda>x. f x = k) xs))) = (sum_list (map g xs) :: int)"
  using assms(2)
proof (induction xs)
  case (Cons x xs)
  have *: "(\<Sum>k\<leftarrow>ks. if f x = k then g x else 0) = g x"
    using Cons.prems assms(1)
    by (simp add: sum_list_distinct_conv_sum_set sum.delta)
  have "(\<Sum>k\<leftarrow>ks. sum_list (map g (filter (\<lambda>x. f x = k) (x # xs))))
      = (\<Sum>k\<leftarrow>ks. (if f x = k then g x else 0) + sum_list (map g (filter (\<lambda>x. f x = k) xs)))"
    by (rule arg_cong [where f = sum_list], rule map_cong) auto
  with Cons * show ?case by (simp add: sum_list_addf)
qed simp

end
