(* ===== verification/Account_Types.thy ===== *)
theory Account_Types
  imports Codec
begin

text \<open>
  Account categories. \<open>account_type\<close> and its two queries are in
  \<open>crates/openqbw/src/accounting.rs\<close>; the source-granularity classification and the calibrated
  code map are \<open>crates/openqbw/src/materialized_account_type_mapping.rs\<close>.
\<close>

datatype account_type =
  Asset | Liability | Equity | Income | Expense | CostOfGoodsSold | Other string

datatype balance_side = Debit_Normal | Credit_Normal

fun normal_balance :: "account_type \<Rightarrow> balance_side option" where
  "normal_balance Asset = Some Debit_Normal"
| "normal_balance Expense = Some Debit_Normal"
| "normal_balance CostOfGoodsSold = Some Debit_Normal"
| "normal_balance Liability = Some Credit_Normal"
| "normal_balance Equity = Some Credit_Normal"
| "normal_balance Income = Some Credit_Normal"
| "normal_balance (Other _) = None"

fun is_profit_and_loss :: "account_type \<Rightarrow> bool" where
  "is_profit_and_loss Income = True"
| "is_profit_and_loss Expense = True"
| "is_profit_and_loss CostOfGoodsSold = True"
| "is_profit_and_loss _ = False"

datatype qb_classification =
    QB_Bank | QB_AccountsReceivable | QB_OtherCurrentAsset | QB_FixedAsset | QB_OtherAsset
  | QB_AccountsPayable | QB_CreditCard | QB_OtherCurrentLiability | QB_LongTermLiability
  | QB_Equity | QB_Income | QB_CostOfGoodsSold | QB_Expense | QB_OtherIncome | QB_OtherExpense

datatype account_type_mapping_error = UncalibratedCode u8

fun materialized_code :: "qb_classification \<Rightarrow> u8" where
  "materialized_code QB_Bank = 0"
| "materialized_code QB_AccountsReceivable = 1"
| "materialized_code QB_OtherCurrentAsset = 2"
| "materialized_code QB_FixedAsset = 3"
| "materialized_code QB_OtherAsset = 4"
| "materialized_code QB_AccountsPayable = 5"
| "materialized_code QB_CreditCard = 6"
| "materialized_code QB_OtherCurrentLiability = 7"
| "materialized_code QB_LongTermLiability = 8"
| "materialized_code QB_Equity = 9"
| "materialized_code QB_Income = 10"
| "materialized_code QB_CostOfGoodsSold = 11"
| "materialized_code QB_Expense = 12"
| "materialized_code QB_OtherIncome = 13"
| "materialized_code QB_OtherExpense = 14"

fun source_label :: "qb_classification \<Rightarrow> string" where
  "source_label QB_Bank = ''Bank''"
| "source_label QB_AccountsReceivable = ''AccountsReceivable''"
| "source_label QB_OtherCurrentAsset = ''OtherCurrentAsset''"
| "source_label QB_FixedAsset = ''FixedAsset''"
| "source_label QB_OtherAsset = ''OtherAsset''"
| "source_label QB_AccountsPayable = ''AccountsPayable''"
| "source_label QB_CreditCard = ''CreditCard''"
| "source_label QB_OtherCurrentLiability = ''OtherCurrentLiability''"
| "source_label QB_LongTermLiability = ''LongTermLiability''"
| "source_label QB_Equity = ''Equity''"
| "source_label QB_Income = ''Income''"
| "source_label QB_CostOfGoodsSold = ''CostOfGoodsSold''"
| "source_label QB_Expense = ''Expense''"
| "source_label QB_OtherIncome = ''OtherIncome''"
| "source_label QB_OtherExpense = ''OtherExpense''"

fun trial_balance_type :: "qb_classification \<Rightarrow> account_type" where
  "trial_balance_type QB_Bank = Asset"
| "trial_balance_type QB_AccountsReceivable = Asset"
| "trial_balance_type QB_OtherCurrentAsset = Asset"
| "trial_balance_type QB_FixedAsset = Asset"
| "trial_balance_type QB_OtherAsset = Asset"
| "trial_balance_type QB_AccountsPayable = Liability"
| "trial_balance_type QB_CreditCard = Liability"
| "trial_balance_type QB_OtherCurrentLiability = Liability"
| "trial_balance_type QB_LongTermLiability = Liability"
| "trial_balance_type QB_Equity = Equity"
| "trial_balance_type QB_Income = Income"
| "trial_balance_type QB_OtherIncome = Income"
| "trial_balance_type QB_CostOfGoodsSold = CostOfGoodsSold"
| "trial_balance_type QB_Expense = Expense"
| "trial_balance_type QB_OtherExpense = Expense"

definition map_materialized_account_type_code ::
    "u8 \<Rightarrow> (account_type_mapping_error, qb_classification) outcome" where
  "map_materialized_account_type_code code =
     (if code = 0 then Ok QB_Bank
      else if code = 1 then Ok QB_AccountsReceivable
      else if code = 2 then Ok QB_OtherCurrentAsset
      else if code = 3 then Ok QB_FixedAsset
      else if code = 4 then Ok QB_OtherAsset
      else if code = 5 then Ok QB_AccountsPayable
      else if code = 6 then Ok QB_CreditCard
      else if code = 7 then Ok QB_OtherCurrentLiability
      else if code = 8 then Ok QB_LongTermLiability
      else if code = 9 then Ok QB_Equity
      else if code = 10 then Ok QB_Income
      else if code = 11 then Ok QB_CostOfGoodsSold
      else if code = 12 then Ok QB_Expense
      else if code = 13 then Ok QB_OtherIncome
      else if code = 14 then Ok QB_OtherExpense
      else Err (UncalibratedCode code))"

lemma map_code_of_classification: "map_materialized_account_type_code (materialized_code q) = Ok q"
  by (cases q) (simp_all add: map_materialized_account_type_code_def)

lemma map_code_Ok: "map_materialized_account_type_code c = Ok q \<Longrightarrow> materialized_code q = c"
  by (auto simp: map_materialized_account_type_code_def split: if_splits)

text \<open>A code is calibrated exactly when it is below fifteen.\<close>

lemma map_code_Err_iff:
  "map_materialized_account_type_code c = Err e \<longleftrightarrow> 15 \<le> unat c \<and> e = UncalibratedCode c"
proof -
  have "\<exists>q. map_materialized_account_type_code c = Ok q" if "unat c < 15"
  proof -
    obtain n where n: "c = word_of_nat n" "n < 15"
      using \<open>unat c < 15\<close> by (rule that [of "unat c", rotated]) simp
    then have "n \<in> set [0..<15]" by simp
    then have "list_ex (\<lambda>i. n = i) [0..<15]" by (auto simp: list_ex_iff)
    with n(1) show ?thesis by (auto simp: map_materialized_account_type_code_def upt_rec)
  qed
  moreover have "15 \<le> unat c \<Longrightarrow> map_materialized_account_type_code c = Err (UncalibratedCode c)"
    by (auto simp: map_materialized_account_type_code_def)
  ultimately show ?thesis by (cases "unat c < 15") auto
qed

lemma source_label_inject: "source_label p = source_label q \<longleftrightarrow> p = q"
  by (cases p; cases q) simp_all

lemma trial_balance_type_classified: "trial_balance_type q \<noteq> Other s"
  by (cases q) simp_all

lemma profit_and_loss_normal_side:
  "is_profit_and_loss t \<Longrightarrow> normal_balance t = Some Credit_Normal \<longleftrightarrow> t = Income"
  by (cases t) simp_all

end
