(* ===== verification/Accounting.thy ===== *)
theory Accounting
  imports Account_Types Ordered_Map
begin

text \<open>
  The normalized accounting model of \<open>crates/openqbw/src/accounting.rs\<close>: identifiers, accounts,
  postings and the validating constructors, up to \<open>Ledger::new\<close>. The reports are in
  \<open>Ledger_Reports\<close>.
\<close>

section \<open>Identifiers\<close>

datatype account_id = AccountId (account_id_str: string)
datatype transaction_id = TransactionId (transaction_id_str: string)
datatype posting_id = PostingId (posting_id_str: string)

instantiation account_id :: linorder
begin
definition less_eq_account_id :: "account_id \<Rightarrow> account_id \<Rightarrow> bool" where
  "less_eq_account_id a b \<longleftrightarrow> account_id_str a \<le> account_id_str b"
definition less_account_id :: "account_id \<Rightarrow> account_id \<Rightarrow> bool" where
  "less_account_id a b \<longleftrightarrow> account_id_str a < account_id_str b"
instance
  by standard (auto simp: less_eq_account_id_def less_account_id_def intro: account_id.expand)
end

instantiation transaction_id :: linorder
begin
definition less_eq_transaction_id :: "transaction_id \<Rightarrow> transaction_id \<Rightarrow> bool" where
  "less_eq_transaction_id a b \<longleftrightarrow> transaction_id_str a \<le> transaction_id_str b"
definition less_transaction_id :: "transaction_id \<Rightarrow> transaction_id \<Rightarrow> bool" where
  "less_transaction_id a b \<longleftrightarrow> transaction_id_str a < transaction_id_str b"
instance
  by standard
    (auto simp: less_eq_transaction_id_def less_transaction_id_def intro: transaction_id.expand)
end

instantiation posting_id :: linorder
begin
definition less_eq_posting_id :: "posting_id \<Rightarrow> posting_id \<Rightarrow> bool" where
  "less_eq_posting_id a b \<longleftrightarrow> posting_id_str a \<le> posting_id_str b"
definition less_posting_id :: "posting_id \<Rightarrow> posting_id \<Rightarrow> bool" where
  "less_posting_id a b \<longleftrightarrow> posting_id_str a < posting_id_str b"
instance
  by standard (auto simp: less_eq_posting_id_def less_posting_id_def intro: posting_id.expand)
end

lemmas id_order_defs =
  less_eq_account_id_def less_account_id_def less_eq_transaction_id_def less_transaction_id_def
  less_eq_posting_id_def less_posting_id_def

text \<open>Dates are only compared here, so an \<open>i32\<close> day number is read as the integer it denotes.\<close>

type_synonym accounting_date = int

datatype accounting_error =
    EmptyIdentifier string
  | EmptyAccountName account_id
  | EmptyAccountNumber account_id
  | UnknownParentAccount account_id account_id
  | SelfParentAccount account_id
  | AccountHierarchyCycle account_id
  | InvalidMinorUnits i64
  | InvalidProvenance
  | DuplicateAccount account_id
  | UnknownAccount posting_id account_id
  | DuplicatePosting posting_id
  | DuplicateProvenance string
  | ZeroPosting posting_id
  | AmbiguousCurrentState posting_id
  | IncompleteData string
  | UnsupportedData string
  | UnbalancedTransaction transaction_id int
  | BalanceOverflow account_id
  | UnbalancedLedger int
  | FiscalYearStartAfterAsOf accounting_date accounting_date
  | UnknownRetainedEarningsAccount account_id
  | RetainedEarningsAccountNotEquity account_id

definition account_id_new :: "string \<Rightarrow> (accounting_error, account_id) outcome" where
  "account_id_new value =
     (if trim_is_empty value then Err (EmptyIdentifier ''account'') else Ok (AccountId value))"

definition transaction_id_new :: "string \<Rightarrow> (accounting_error, transaction_id) outcome" where
  "transaction_id_new value =
     (if trim_is_empty value then Err (EmptyIdentifier ''transaction'') else Ok (TransactionId value))"

definition posting_id_new :: "string \<Rightarrow> (accounting_error, posting_id) outcome" where
  "posting_id_new value =
     (if trim_is_empty value then Err (EmptyIdentifier ''posting'') else Ok (PostingId value))"

interpretation account_ids:
  nonblank_identifier account_id_new account_id_str "EmptyIdentifier ''account''"
  by unfold_locales (auto simp: account_id_new_def intro: account_id.expand)

interpretation transaction_ids:
  nonblank_identifier transaction_id_new transaction_id_str "EmptyIdentifier ''transaction''"
  by unfold_locales (auto simp: transaction_id_new_def intro: transaction_id.expand)

interpretation posting_ids:
  nonblank_identifier posting_id_new posting_id_str "EmptyIdentifier ''posting''"
  by unfold_locales (auto simp: posting_id_new_def intro: posting_id.expand)

section \<open>Accounts\<close>

datatype account_activity = Active | Inactive | Unknown

fun activity_as_str :: "account_activity \<Rightarrow> string" where
  "activity_as_str Active = ''active''"
| "activity_as_str Inactive = ''inactive''"
| "activity_as_str Unknown = ''unknown''"

fun known_bool :: "account_activity \<Rightarrow> bool option" where
  "known_bool Active = Some True"
| "known_bool Inactive = Some False"
| "known_bool Unknown = None"

record account =
  acc_id :: account_id
  acc_number :: "string option"
  acc_name :: string
  acc_parent :: "account_id option"
  acc_type :: account_type
  acc_classification :: "qb_classification option"
  acc_active :: bool
  acc_activity :: account_activity

definition account_new ::
    "account_id \<Rightarrow> string \<Rightarrow> account_type \<Rightarrow> bool \<Rightarrow> (accounting_error, account) outcome" where
  "account_new ident name ty active =
     (if trim_is_empty name then Err (EmptyAccountName ident)
      else Ok \<lparr>acc_id = ident, acc_number = None, acc_name = name, acc_parent = None, acc_type = ty,
               acc_classification = None, acc_active = active,
               acc_activity = (if active then Active else Inactive)\<rparr>)"

definition account_new_with_unknown_activity ::
    "account_id \<Rightarrow> string \<Rightarrow> account_type \<Rightarrow> (accounting_error, account) outcome" where
  "account_new_with_unknown_activity ident name ty =
     rbind (account_new ident name ty False) (\<lambda>a. Ok (a\<lparr>acc_activity := Unknown\<rparr>))"

definition with_activity :: "account_activity \<Rightarrow> account \<Rightarrow> account" where
  "with_activity activity a =
     a\<lparr>acc_active := (case known_bool activity of Some b \<Rightarrow> b | None \<Rightarrow> False),
       acc_activity := activity\<rparr>"

definition with_quickbooks_classification :: "qb_classification \<Rightarrow> account \<Rightarrow> account" where
  "with_quickbooks_classification c a = a\<lparr>acc_classification := Some c\<rparr>"

definition with_hierarchy ::
    "string option \<Rightarrow> account_id option \<Rightarrow> account \<Rightarrow> (accounting_error, account) outcome" where
  "with_hierarchy number parent a =
     (if (case number of Some n \<Rightarrow> trim_is_empty n | None \<Rightarrow> False)
      then Err (EmptyAccountNumber (acc_id a))
      else Ok (a\<lparr>acc_number := number, acc_parent := parent\<rparr>))"

text \<open>The legacy Boolean agrees with the activity state, and an unknown state never claims activity.\<close>

definition activity_synced :: "account \<Rightarrow> bool" where
  "activity_synced a \<longleftrightarrow> acc_active a = (acc_activity a = Active)"

lemma activity_synced_constructors:
  "account_new i n t b = Ok a \<Longrightarrow> activity_synced a"
  "account_new_with_unknown_activity i n t = Ok a \<Longrightarrow> activity_synced a"
  "activity_synced (with_activity s a)"
  "activity_synced a \<Longrightarrow> activity_synced (with_quickbooks_classification c a)"
  "activity_synced a \<Longrightarrow> with_hierarchy num p a = Ok a' \<Longrightarrow> activity_synced a'"
  by (auto simp: activity_synced_def account_new_def account_new_with_unknown_activity_def
      with_activity_def with_quickbooks_classification_def with_hierarchy_def outcome_simps
      split: if_splits option.splits elim: known_bool.elims)

section \<open>Postings\<close>

datatype debit_credit = Debit | Credit

record debit_credit_amount =
  amount_side :: debit_credit
  amount_minor_units :: i64

definition debit_credit_amount_new ::
    "debit_credit \<Rightarrow> i64 \<Rightarrow> (accounting_error, debit_credit_amount) outcome" where
  "debit_credit_amount_new side minor_units =
     (if sint minor_units \<le> 0 \<or> minor_units = i64_min then Err (InvalidMinorUnits minor_units)
      else Ok \<lparr>amount_side = side, amount_minor_units = minor_units\<rparr>)"

definition signed_minor_units :: "debit_credit_amount \<Rightarrow> (accounting_error, i64) outcome" where
  "signed_minor_units a =
     (case amount_side a of
        Debit \<Rightarrow> Ok (amount_minor_units a)
      | Credit \<Rightarrow> or_panic (checked_neg (amount_minor_units a)))"

record posting_provenance =
  prov_source_row :: string
  prov_page_number :: "u32 option"
  prov_slot_number :: "u16 option"
  prov_decoder :: string

definition posting_provenance_new ::
    "string \<Rightarrow> u32 option \<Rightarrow> u16 option \<Rightarrow> string \<Rightarrow> (accounting_error, posting_provenance) outcome" where
  "posting_provenance_new source_row page_number slot_number decoder =
     (if trim_is_empty source_row \<or> trim_is_empty decoder then Err InvalidProvenance
      else Ok \<lparr>prov_source_row = source_row, prov_page_number = page_number,
               prov_slot_number = slot_number, prov_decoder = decoder\<rparr>)"

datatype current_state = Current | Superseded | Deleted | Ambiguous

record posting =
  post_transaction :: transaction_id
  post_id :: posting_id
  post_account :: account_id
  post_date :: accounting_date
  post_signed :: i64
  post_state :: current_state
  post_provenance :: posting_provenance
  post_type :: "string option"
  post_memo :: "string option"

definition posting_new ::
    "transaction_id \<Rightarrow> posting_id \<Rightarrow> account_id \<Rightarrow> accounting_date \<Rightarrow> debit_credit_amount \<Rightarrow>
     current_state \<Rightarrow> posting_provenance \<Rightarrow> string option \<Rightarrow> string option \<Rightarrow>
     (accounting_error, posting) outcome" where
  "posting_new txn pid account date amount state provenance ty memo =
     rbind (signed_minor_units amount) (\<lambda>signed.
       Ok \<lparr>post_transaction = txn, post_id = pid, post_account = account, post_date = date,
           post_signed = signed, post_state = state, post_provenance = provenance,
           post_type = ty, post_memo = memo\<rparr>)"

definition debit_minor_units :: "posting \<Rightarrow> i64 option" where
  "debit_minor_units p = (if 0 < sint (post_signed p) then Some (post_signed p) else None)"

definition credit_minor_units :: "posting \<Rightarrow> i64 option" where
  "credit_minor_units p = (if sint (post_signed p) < 0 then Some (- post_signed p) else None)"

lemma debit_credit_amount_new_Ok_iff:
  "debit_credit_amount_new side m = Ok a \<longleftrightarrow>
     0 < sint m \<and> a = \<lparr>amount_side = side, amount_minor_units = m\<rparr>"
  by (auto simp: debit_credit_amount_new_def)

lemma checked_neg_Some_iff: "checked_neg (w :: i64) = Some v \<longleftrightarrow> sint v = - sint w"
  by (simp add: checked_neg_def try_from_int_Some_iff)

text \<open>Normalisation of a validated amount cannot panic and is exact.\<close>

lemma signed_minor_units_valid:
  assumes "debit_credit_amount_new side m = Ok a"
  shows "\<exists>w. signed_minor_units a = Ok w \<and> sint w = (case side of Debit \<Rightarrow> sint m | Credit \<Rightarrow> - sint m)"
proof (cases side)
  case Credit
  have "\<exists>w. checked_neg m = Some (w :: i64)"
    using assms i64_range [of m]
    by (cases "checked_neg m")
      (auto simp: checked_neg_def try_from_int_None_iff debit_credit_amount_new_Ok_iff)
  with Credit assms show ?thesis
    by (auto simp: signed_minor_units_def debit_credit_amount_new_Ok_iff outcome_simps
        checked_neg_Some_iff)
qed (use assms in \<open>auto simp: signed_minor_units_def debit_credit_amount_new_Ok_iff\<close>)

section \<open>The chart hierarchy\<close>

type_synonym chart = "(account_id, account) btree"

text \<open>
  The inner \<open>while let\<close> of \<open>validate_account_hierarchy\<close>. The index \<open>accounts[&cursor]\<close> panics on a
  missing key; \<open>visited.insert\<close> reports whether the cursor is new.
\<close>

function walk_parents ::
    "chart \<Rightarrow> account_id \<Rightarrow> account_id set \<Rightarrow> account_id \<Rightarrow> (accounting_error, unit) outcome" where
  "walk_parents m start visited cursor =
     (case bt_get m cursor of
        None \<Rightarrow> Panic
      | Some a \<Rightarrow>
          (case acc_parent a of
             None \<Rightarrow> Ok ()
           | Some next_parent \<Rightarrow>
               if cursor \<in> visited \<or> next_parent = start then Err (AccountHierarchyCycle start)
               else walk_parents m start (insert cursor visited) next_parent))"
  by pat_completeness auto
termination
proof (relation "measure (\<lambda>(m, start, visited, cursor). card (fst ` set m - visited))", goal_cases)
  case (2 m start visited cursor a next_parent)
  then have "cursor \<in> fst ` set m - visited"
    by (metis DiffI bt_get_None_iff option.distinct(1))
  moreover have "fst ` set m - insert cursor visited = fst ` set m - visited - {cursor}" by auto
  ultimately have "card (fst ` set m - insert cursor visited) < card (fst ` set m - visited)"
    by (simp only:) (intro card_Diff1_less, auto)
  then show ?case by simp
qed simp

declare walk_parents.simps [simp del]

definition check_parent :: "chart \<Rightarrow> account \<Rightarrow> (accounting_error, unit) outcome" where
  "check_parent m a =
     (case acc_parent a of
        None \<Rightarrow> Ok ()
      | Some parent_id \<Rightarrow>
          if parent_id = acc_id a then Err (SelfParentAccount (acc_id a))
          else if bt_get m parent_id = None then Err (UnknownParentAccount (acc_id a) parent_id)
          else walk_parents m (acc_id a) {} (acc_id a))"

definition validate_account_hierarchy :: "chart \<Rightarrow> (accounting_error, unit) outcome" where
  "validate_account_hierarchy m = rfold (\<lambda>a _. check_parent m a) (bt_values m) ()"

section \<open>The ledger\<close>

datatype completeness = Complete | Incomplete string | Unsupported string

record ledger =
  led_accounts :: chart
  led_postings :: "posting list"
  led_completeness :: completeness

definition insert_account :: "account \<Rightarrow> chart \<Rightarrow> (accounting_error, chart) outcome" where
  "insert_account a m =
     (if bt_get m (acc_id a) \<noteq> None then Err (DuplicateAccount (acc_id a))
      else Ok (bt_insert (acc_id a) a m))"

definition check_posting ::
    "chart \<Rightarrow> posting \<Rightarrow> posting_id set \<times> string set \<Rightarrow>
     (accounting_error, posting_id set \<times> string set) outcome" where
  "check_posting m p seen =
     (case seen of (posting_ids, source_rows) \<Rightarrow>
        if post_signed p = 0 \<or> post_signed p = i64_min then Err (ZeroPosting (post_id p))
        else if bt_get m (post_account p) = None then Err (UnknownAccount (post_id p) (post_account p))
        else if post_id p \<in> posting_ids then Err (DuplicatePosting (post_id p))
        else if prov_source_row (post_provenance p) \<in> source_rows
          then Err (DuplicateProvenance (prov_source_row (post_provenance p)))
        else Ok (insert (post_id p) posting_ids,
                 insert (prov_source_row (post_provenance p)) source_rows))"

definition ledger_new ::
    "account list \<Rightarrow> posting list \<Rightarrow> completeness \<Rightarrow> (accounting_error, ledger) outcome" where
  "ledger_new accounts postings completeness =
     rbind (rfold insert_account accounts []) (\<lambda>account_map.
     rbind (validate_account_hierarchy account_map) (\<lambda>_.
     rbind (rfold (check_posting account_map) postings ({}, {})) (\<lambda>_.
       Ok \<lparr>led_accounts = account_map, led_postings = postings, led_completeness = completeness\<rparr>)))"

end
