(* ===== verification/Ledger_Invariant.thy ===== *)
theory Ledger_Invariant
  imports Accounting
begin

text \<open>
  What \<open>Ledger::new\<close> guarantees. \<open>rooted\<close> is the specification of the hierarchy check: following
  parent links from the account stays inside the chart and ends at a top-level account.
  \<open>ledger_ok\<close> is the invariant of the private fields of \<open>Ledger\<close>; every report lemma rests on it.
\<close>

section \<open>Rooted accounts\<close>

inductive rooted :: "chart \<Rightarrow> account_id \<Rightarrow> bool" for m where
  top: "bt_get m x = Some a \<Longrightarrow> acc_parent a = None \<Longrightarrow> rooted m x"
| child: "bt_get m x = Some a \<Longrightarrow> acc_parent a = Some p \<Longrightarrow> rooted m p \<Longrightarrow> rooted m x"

inductive_cases rooted_cases: "rooted m x"

definition parent_rel :: "chart \<Rightarrow> (account_id \<times> account_id) set" where
  "parent_rel m = {(x, p). \<exists>a. bt_get m x = Some a \<and> acc_parent a = Some p}"

definition chart_ok :: "chart \<Rightarrow> bool" where
  "chart_ok m \<longleftrightarrow> bt_ok m \<and> (\<forall>(k, a) \<in> set m. acc_id a = k)"

definition hierarchy_ok :: "chart \<Rightarrow> bool" where
  "hierarchy_ok m \<longleftrightarrow> (\<forall>k \<in> fst ` set m. rooted m k)"

lemma parent_rel_iff: "(x, p) \<in> parent_rel m \<longleftrightarrow> (\<exists>a. bt_get m x = Some a \<and> acc_parent a = Some p)"
  by (simp add: parent_rel_def)

lemma parent_rel_fun: "(x, p) \<in> parent_rel m \<Longrightarrow> (x, q) \<in> parent_rel m \<Longrightarrow> p = q"
  by (auto simp: parent_rel_iff)

lemma parent_rel_first_step: "(x, p) \<in> parent_rel m \<Longrightarrow> (x, y) \<in> (parent_rel m)\<^sup>+ \<Longrightarrow> (p, y) \<in> (parent_rel m)\<^sup>*"
  by (metis parent_rel_fun tranclD)

lemma rooted_not_on_cycle: "rooted m x \<Longrightarrow> (x, x) \<notin> (parent_rel m)\<^sup>+"
proof (induction rule: rooted.induct)
  case (top x a)
  then show ?case by (auto simp: parent_rel_iff dest: tranclD)
next
  case (child x a p)
  then have xp: "(x, p) \<in> parent_rel m" by (auto simp: parent_rel_iff)
  show ?case
  proof
    assume "(x, x) \<in> (parent_rel m)\<^sup>+"
    with xp have "(p, x) \<in> (parent_rel m)\<^sup>*" by (rule parent_rel_first_step)
    with xp have "(p, p) \<in> (parent_rel m)\<^sup>+" by (meson rtrancl_into_trancl1)
    with child.IH show False by simp
  qed
qed

lemma hierarchy_ok_acyclic: "hierarchy_ok m \<Longrightarrow> acyclic (parent_rel m)"
proof (rule acyclicI, rule allI)
  fix x assume *: "hierarchy_ok m"
  show "(x, x) \<notin> (parent_rel m)\<^sup>+"
  proof (cases "x \<in> fst ` set m")
    case True
    with * have "rooted m x" unfolding hierarchy_ok_def by blast
    then show ?thesis by (rule rooted_not_on_cycle)
  next
    case False
    then have "bt_get m x = None" by (simp add: bt_get_None_iff)
    then show ?thesis by (auto simp: parent_rel_iff dest: tranclD)
  qed
qed

section \<open>The hierarchy check decides rootedness\<close>

lemma walk_parents_Ok: "walk_parents m start visited cursor = Ok u \<Longrightarrow> rooted m cursor"
proof (induction m start visited cursor rule: walk_parents.induct)
  case (1 m start visited cursor)
  then show ?case
    by (subst (asm) walk_parents.simps)
      (auto split: option.splits if_splits intro: rooted.intros)
qed

lemma walk_parents_complete:
  assumes "rooted m cursor"
    and "\<And>y. (cursor, y) \<in> (parent_rel m)\<^sup>* \<Longrightarrow> y \<notin> visited"
    and "(cursor, start) \<notin> (parent_rel m)\<^sup>+"
  shows "walk_parents m start visited cursor = Ok ()"
  using assms
proof (induction arbitrary: visited rule: rooted.induct)
  case (top x a)
  then show ?case by (subst walk_parents.simps) simp
next
  case (child x a p)
  then have xp: "(x, p) \<in> parent_rel m" by (auto simp: parent_rel_iff)
  have up: "(x, y) \<in> (parent_rel m)\<^sup>*" if "(p, y) \<in> (parent_rel m)\<^sup>*" for y
    using xp that by (rule converse_rtrancl_into_rtrancl)
  have "x \<notin> visited" using child.prems(1) [of x] by simp
  moreover have "p \<noteq> start" using xp child.prems(2) by auto
  moreover have "walk_parents m start (insert x visited) p = Ok ()"
  proof (rule child.IH)
    fix y assume py: "(p, y) \<in> (parent_rel m)\<^sup>*"
    have "y \<noteq> x"
      using py xp rooted_not_on_cycle [OF rooted.child [OF child.hyps(1,2)]] child.hyps(3)
      by (meson rtrancl_into_trancl2)
    with child.prems(1) [OF up [OF py]] show "y \<notin> insert x visited" by simp
  next
    show "(p, start) \<notin> (parent_rel m)\<^sup>+"
      using xp child.prems(2) by (meson trancl_into_trancl2)
  qed
  ultimately show ?case using child.hyps by (subst walk_parents.simps) simp
qed

lemma check_parent_Ok_iff:
  assumes "chart_ok m" and "(k, a) \<in> set m"
  shows "check_parent m a = Ok () \<longleftrightarrow> rooted m k"
proof -
  have get: "bt_get m k = Some a" and ident: "acc_id a = k"
    using assms unfolding chart_ok_def by (simp add: bt_get_iff, blast)
  show ?thesis
  proof
    assume "check_parent m a = Ok ()"
    then show "rooted m k"
      using get ident
      by (auto simp: check_parent_def split: option.splits if_splits
          intro: rooted.top walk_parents_Ok)
  next
    assume r: "rooted m k"
    then have acyc: "(k, k) \<notin> (parent_rel m)\<^sup>+" by (rule rooted_not_on_cycle)
    show "check_parent m a = Ok ()"
    proof (cases "acc_parent a")
      case (Some p)
      with r get have "rooted m p" by (auto elim: rooted_cases)
      then have "bt_get m p \<noteq> None" by (auto elim: rooted_cases)
      moreover have "p \<noteq> k" using Some get acyc by (auto simp: parent_rel_iff)
      ultimately show ?thesis
        using Some get ident walk_parents_complete [OF r, of "{}" k] acyc
        by (simp add: check_parent_def)
    qed (simp add: check_parent_def)
  qed
qed

lemma rfold_unit_Ok_iff: "rfold (\<lambda>x _. f x) xs () = Ok () \<longleftrightarrow> (\<forall>x \<in> set xs. f x = Ok ())"
  by (induction xs) (auto simp: outcome_simps)

lemma validate_account_hierarchy_iff:
  assumes "chart_ok m"
  shows "validate_account_hierarchy m = Ok () \<longleftrightarrow> hierarchy_ok m"
  unfolding validate_account_hierarchy_def rfold_unit_Ok_iff hierarchy_ok_def bt_values_def
  using check_parent_Ok_iff [OF assms] by fastforce

text \<open>The panic of \<open>accounts[&cursor]\<close> needs a parent that is not in the chart.\<close>

definition parents_present :: "chart \<Rightarrow> bool" where
  "parents_present m \<longleftrightarrow> snd ` parent_rel m \<subseteq> fst ` set m"

lemma walk_parents_no_panic:
  "parents_present m \<Longrightarrow> cursor \<in> fst ` set m \<Longrightarrow> walk_parents m start visited cursor \<noteq> Panic"
proof (induction m start visited cursor rule: walk_parents.induct)
  case (1 m start visited cursor)
  show ?case
  proof (cases "bt_get m cursor")
    case (Some a)
    show ?thesis
    proof (cases "acc_parent a")
      case (Some p)
      then have "(cursor, p) \<in> parent_rel m"
        using \<open>bt_get m cursor = Some a\<close> by (simp add: parent_rel_iff)
      then have "p \<in> fst ` set m" using "1.prems"(1) by (force simp: parents_present_def)
      with Some \<open>bt_get m cursor = Some a\<close> "1.IH" "1.prems" show ?thesis
        by (subst walk_parents.simps) auto
    qed (use Some in \<open>subst walk_parents.simps, simp\<close>)
  qed (use "1.prems" in \<open>simp add: bt_get_None_iff\<close>)
qed

lemma rfold_unit_no_panic: "(\<forall>x \<in> set xs. f x \<noteq> Panic) \<Longrightarrow> rfold (\<lambda>x _. f x) xs () \<noteq> Panic"
  by (induction xs) (auto simp: outcome_simps)

lemma validate_account_hierarchy_no_panic:
  assumes "chart_ok m" and "parents_present m"
  shows "validate_account_hierarchy m \<noteq> Panic"
  unfolding validate_account_hierarchy_def
proof (rule rfold_unit_no_panic, rule ballI)
  fix a assume "a \<in> set (bt_values m)"
  then obtain k where "(k, a) \<in> set m" and "acc_id a = k"
    using assms(1) by (auto simp: bt_values_def chart_ok_def)
  then have "walk_parents m k {} k \<noteq> Panic"
    by (intro walk_parents_no_panic [OF assms(2)]) force
  with \<open>acc_id a = k\<close> show "check_parent m a \<noteq> Panic"
    by (auto simp: check_parent_def split: option.splits)
qed

section \<open>What construction accepts\<close>

definition chart_of :: "account list \<Rightarrow> chart" where
  "chart_of accounts = fold (\<lambda>a. bt_insert (acc_id a) a) accounts []"

definition source_row_of :: "posting \<Rightarrow> string" where
  "source_row_of p = prov_source_row (post_provenance p)"

definition postings_ok :: "chart \<Rightarrow> posting list \<Rightarrow> bool" where
  "postings_ok m ps \<longleftrightarrow>
     (\<forall>p \<in> set ps. post_signed p \<noteq> 0 \<and> post_signed p \<noteq> i64_min \<and> post_account p \<in> fst ` set m)
   \<and> distinct (map post_id ps) \<and> distinct (map source_row_of ps)"

definition ledger_ok :: "ledger \<Rightarrow> bool" where
  "ledger_ok l \<longleftrightarrow> chart_ok (led_accounts l) \<and> hierarchy_ok (led_accounts l)
     \<and> postings_ok (led_accounts l) (led_postings l)"

lemma insert_accounts_Ok:
  "distinct (map acc_id as) \<and> fst ` set m \<inter> acc_id ` set as = {} \<Longrightarrow>
     rfold insert_account as m = Ok (fold (\<lambda>a. bt_insert (acc_id a) a) as m)"
proof (induction as arbitrary: m)
  case (Cons a as)
  then have "insert_account a m = Ok (bt_insert (acc_id a) a m)"
    using bt_get_None_iff [of m "acc_id a"] by (simp add: insert_account_def)
  moreover have "fst ` set (bt_insert (acc_id a) a m) \<inter> acc_id ` set as = {}"
    using Cons.prems unfolding set_bt_insert_keys by auto
  ultimately show ?case using Cons by simp
qed simp

lemma insert_accounts_Err:
  "\<not> (distinct (map acc_id as) \<and> fst ` set m \<inter> acc_id ` set as = {}) \<Longrightarrow>
     \<exists>k. rfold insert_account as m = Err (DuplicateAccount k)"
proof (induction as arbitrary: m)
  case (Cons a as)
  show ?case
  proof (cases "acc_id a \<in> fst ` set m")
    case True
    then have "insert_account a m = Err (DuplicateAccount (acc_id a))"
      using bt_get_None_iff [of m "acc_id a"] by (auto simp: insert_account_def)
    then show ?thesis by simp
  next
    case False
    then have "insert_account a m = Ok (bt_insert (acc_id a) a m)"
      using bt_get_None_iff [of m "acc_id a"] by (simp add: insert_account_def)
    moreover have "\<not> (distinct (map acc_id as) \<and> fst ` set (bt_insert (acc_id a) a m) \<inter> acc_id ` set as = {})"
      using False Cons.prems unfolding set_bt_insert_keys by auto
    ultimately show ?thesis using Cons.IH by simp
  qed
qed simp

lemma insert_accounts_Ok_iff:
  "rfold insert_account as [] = Ok m \<longleftrightarrow> distinct (map acc_id as) \<and> m = chart_of as"
  using insert_accounts_Ok [of as "[]"] insert_accounts_Err [of as "[]"]
  by (cases "distinct (map acc_id as)") (auto simp: chart_of_def)

lemma insert_accounts_no_panic: "rfold insert_account as [] \<noteq> Panic"
  using insert_accounts_Ok [of as "[]"] insert_accounts_Err [of as "[]"]
  by (cases "distinct (map acc_id as)") auto

lemma chart_okI:
  "bt_ok m \<Longrightarrow> (\<And>k a. bt_get m k = Some a \<Longrightarrow> acc_id a = k) \<Longrightarrow> chart_ok m"
  by (auto simp: chart_ok_def bt_get_iff)

lemma chart_ok_get: "chart_ok m \<Longrightarrow> bt_get m k = Some a \<Longrightarrow> acc_id a = k"
  unfolding chart_ok_def by (auto dest: bt_get_SomeD)

lemma bt_get_fold_insert:
  "bt_get (fold (\<lambda>a. bt_insert (acc_id a) a) as m) =
     bt_get m ++ map_of (rev (map (\<lambda>a. (acc_id a, a)) as))"
  by (induction as arbitrary: m) (auto simp: bt_get_insert fun_eq_iff map_add_def split: option.splits)

lemma bt_ok_fold_insert: "bt_ok m \<Longrightarrow> bt_ok (fold (\<lambda>a. bt_insert (acc_id a) a) as m)"
  by (induction as arbitrary: m) (auto simp: bt_ok_insert)

lemma chart_of_ok: "chart_ok (chart_of as)"
proof (rule chart_okI)
  show "bt_ok (chart_of as)" by (simp add: chart_of_def bt_ok_fold_insert)
  fix k a assume "bt_get (chart_of as) k = Some a"
  then show "acc_id a = k"
    by (auto simp: chart_of_def bt_get_fold_insert map_add_Some_iff dest: map_of_SomeD)
qed

lemma keys_chart_of: "fst ` set (chart_of as) = acc_id ` set as"
proof -
  have "fst ` set (fold (\<lambda>a. bt_insert (acc_id a) a) as m) = fst ` set m \<union> acc_id ` set as" for m
    by (induction as arbitrary: m) (auto simp: set_bt_insert_keys)
  then show ?thesis by (simp add: chart_of_def)
qed

lemma bt_get_chart_of:
  assumes "distinct (map acc_id as)"
  shows "bt_get (chart_of as) k = Some a \<longleftrightarrow> a \<in> set as \<and> acc_id a = k"
proof -
  let ?ps = "rev (map (\<lambda>a. (acc_id a, a)) as)"
  have "distinct (map fst ?ps)" using assms by (simp add: rev_map [symmetric] o_def)
  then have "map_of ?ps k = Some a \<longleftrightarrow> (k, a) \<in> set ?ps" by (rule map_of_eq_Some_iff)
  moreover have "bt_get (chart_of as) k = map_of ?ps k"
    by (simp add: chart_of_def bt_get_fold_insert map_add_def split: option.split)
  ultimately show ?thesis by auto
qed

lemma check_postings_Ok_iff:
  "rfold (check_posting m) ps (ids, rows) = Ok s \<longleftrightarrow>
     postings_ok m ps \<and> ids \<inter> post_id ` set ps = {} \<and> rows \<inter> source_row_of ` set ps = {}
     \<and> s = (ids \<union> post_id ` set ps, rows \<union> source_row_of ` set ps)"
proof (induction ps arbitrary: ids rows)
  case (Cons p ps)
  show ?case
    using Cons [of "insert (post_id p) ids" "insert (source_row_of p) rows"]
      bt_get_None_iff [of m "post_account p"]
    by (auto simp: outcome_simps check_posting_def postings_ok_def source_row_of_def)
qed (auto simp: postings_ok_def)

lemma check_postings_no_panic: "rfold (check_posting m) ps s \<noteq> Panic"
  by (induction ps arbitrary: s) (auto simp: outcome_simps check_posting_def split: prod.splits)

lemma ledger_new_Ok:
  "ledger_new as ps c = Ok l \<longleftrightarrow>
     distinct (map acc_id as) \<and> hierarchy_ok (chart_of as) \<and> postings_ok (chart_of as) ps
     \<and> l = \<lparr>led_accounts = chart_of as, led_postings = ps, led_completeness = c\<rparr>"
  by (auto simp: ledger_new_def outcome_simps insert_accounts_Ok_iff check_postings_Ok_iff
      validate_account_hierarchy_iff [OF chart_of_ok])

lemma ledger_new_ledger_ok: "ledger_new as ps c = Ok l \<Longrightarrow> ledger_ok l"
  by (auto simp: ledger_new_Ok ledger_ok_def chart_of_ok)

lemma ledger_new_no_panic:
  assumes "\<forall>a \<in> set as. \<forall>p. acc_parent a = Some p \<longrightarrow> p \<in> acc_id ` set as"
  shows "ledger_new as ps c \<noteq> Panic"
proof
  assume "ledger_new as ps c = Panic"
  then have d: "distinct (map acc_id as)" and v: "validate_account_hierarchy (chart_of as) = Panic"
    by (auto simp: ledger_new_def outcome_simps insert_accounts_Ok_iff insert_accounts_no_panic
        check_postings_no_panic)
  have "parents_present (chart_of as)"
    using assms by (auto simp: parents_present_def parent_rel_def bt_get_chart_of [OF d] keys_chart_of)
  with v show False using validate_account_hierarchy_no_panic [OF chart_of_ok] by blast
qed

text \<open>A missing grandparent: the outcome depends on which of the two accounts sorts first.\<close>

lemma missing_grandparent:
  assumes "acc_parent a = Some (acc_id b)" and "acc_parent b = Some g"
    and "g \<noteq> acc_id a" and "g \<noteq> acc_id b"
  shows "acc_id a < acc_id b \<Longrightarrow> ledger_new [a, b] ps c = Panic"
    and "acc_id b < acc_id a \<Longrightarrow> ledger_new [a, b] ps c = Err (UnknownParentAccount (acc_id b) g)"
  using assms
  by (auto simp: ledger_new_def insert_account_def bt_get_def validate_account_hierarchy_def
      bt_values_def check_parent_def walk_parents.simps)

end
