(* ===== verification/Ledger_Reports.thy ===== *)
theory Ledger_Reports
  imports Ledger_Invariant
begin

text \<open>
  The General Ledger and Trial Balance reports of \<open>crates/openqbw/src/accounting.rs\<close>. Amounts
  are \<open>i64\<close> words; the running totals, \<open>i128\<close> in the source, are integers, which is exact:
  \<open>tally_fits_i128\<close> bounds them for every posting vector that fits an address space.
\<close>

section \<open>General Ledger\<close>

record general_ledger_entry =
  ent_account :: account
  ent_posting :: posting

record general_ledger =
  gl_as_of :: accounting_date
  gl_entries :: "general_ledger_entry list"

text \<open>The loop of \<open>current_postings_as_of\<close>; the index \<open>self.accounts[...]\<close> may panic.\<close>

fun collect_current ::
    "chart \<Rightarrow> accounting_date \<Rightarrow> posting list \<Rightarrow> (accounting_error, general_ledger_entry list) outcome" where
  "collect_current m as_of [] = Ok []"
| "collect_current m as_of (p # ps) =
     (if post_state p = Current \<and> post_date p \<le> as_of then
        rbind (or_panic (bt_get m (post_account p))) (\<lambda>a.
        rbind (collect_current m as_of ps) (\<lambda>es.
          Ok (\<lparr>ent_account = a, ent_posting = p\<rparr> # es)))
      else if post_state p = Ambiguous \<and> post_date p \<le> as_of then
        Err (AmbiguousCurrentState (post_id p))
      else collect_current m as_of ps)"

definition entry_key ::
    "general_ledger_entry \<Rightarrow> accounting_date \<times> account_id \<times> transaction_id \<times> posting_id" where
  "entry_key e =
     (post_date (ent_posting e), acc_id (ent_account e), post_transaction (ent_posting e),
      post_id (ent_posting e))"

definition current_postings_as_of ::
    "ledger \<Rightarrow> accounting_date \<Rightarrow> (accounting_error, general_ledger_entry list) outcome" where
  "current_postings_as_of l as_of =
     (case led_completeness l of
        Incomplete reason \<Rightarrow> Err (IncompleteData reason)
      | Unsupported feature \<Rightarrow> Err (UnsupportedData feature)
      | Complete \<Rightarrow>
          rbind (collect_current (led_accounts l) as_of (led_postings l)) (\<lambda>entries.
            Ok (sort_key entry_key entries)))"

definition entry_amount :: "general_ledger_entry \<Rightarrow> int" where
  "entry_amount e = sint (post_signed (ent_posting e))"

definition transaction_totals :: "general_ledger_entry list \<Rightarrow> (transaction_id, int) btree" where
  "transaction_totals entries =
     bt_tally (\<lambda>e. post_transaction (ent_posting e)) entry_amount entries"

definition assert_balanced_by_transaction ::
    "general_ledger_entry list \<Rightarrow> (accounting_error, unit) outcome" where
  "assert_balanced_by_transaction entries =
     (case find (\<lambda>(txn, net). net \<noteq> 0) (transaction_totals entries) of
        Some (txn, net) \<Rightarrow> Err (UnbalancedTransaction txn net)
      | None \<Rightarrow> Ok ())"

definition general_ledger_as_of ::
    "ledger \<Rightarrow> accounting_date \<Rightarrow> (accounting_error, general_ledger) outcome" where
  "general_ledger_as_of l as_of =
     rbind (current_postings_as_of l as_of) (\<lambda>entries.
     rbind (assert_balanced_by_transaction entries) (\<lambda>_.
       Ok \<lparr>gl_as_of = as_of, gl_entries = entries\<rparr>))"

section \<open>Trial Balance\<close>

record trial_balance_options =
  include_zero_balance_accounts :: bool

record accrual_policy =
  pol_fiscal_year_start :: accounting_date
  pol_retained_earnings :: account_id

record trial_balance_row =
  row_account :: account
  row_signed :: i64
  row_debit :: "i64 option"
  row_credit :: "i64 option"

record trial_balance =
  tb_as_of :: accounting_date
  tb_rows :: "trial_balance_row list"

definition row_from_signed ::
    "account \<Rightarrow> i64 \<Rightarrow> (accounting_error, trial_balance_row) outcome" where
  "row_from_signed a amount =
     rbind (if sint amount < 0
            then rbind (ok_or (checked_neg amount) (BalanceOverflow (acc_id a))) (\<lambda>c. Ok (Some c))
            else Ok None) (\<lambda>credit.
       Ok \<lparr>row_account = a, row_signed = amount,
           row_debit = (if 0 < sint amount then Some amount else None), row_credit = credit\<rparr>)"

fun trial_balance_rows ::
    "trial_balance_options \<Rightarrow> (account_id, int) btree \<Rightarrow> account list \<Rightarrow>
     (accounting_error, trial_balance_row list) outcome" where
  "trial_balance_rows options balances [] = Ok []"
| "trial_balance_rows options balances (a # as) =
     (let total = bt_total balances (acc_id a) in
      if total = 0 \<and> \<not> include_zero_balance_accounts options
      then trial_balance_rows options balances as
      else rbind (ok_or (try_from_int total) (BalanceOverflow (acc_id a))) (\<lambda>signed_minor.
           rbind (row_from_signed a signed_minor) (\<lambda>row.
           rbind (trial_balance_rows options balances as) (\<lambda>rows. Ok (row # rows)))))"

definition trial_balance_from_balances ::
    "ledger \<Rightarrow> accounting_date \<Rightarrow> trial_balance_options \<Rightarrow> (account_id, int) btree \<Rightarrow>
     (accounting_error, trial_balance) outcome" where
  "trial_balance_from_balances l as_of options balances =
     rbind (trial_balance_rows options balances (bt_values (led_accounts l))) (\<lambda>rows.
       let net = (\<Sum>row\<leftarrow>rows. sint (row_signed row)) in
       if net \<noteq> 0 then Err (UnbalancedLedger net)
       else Ok \<lparr>tb_as_of = as_of, tb_rows = rows\<rparr>)"

definition trial_balance_as_of ::
    "ledger \<Rightarrow> accounting_date \<Rightarrow> trial_balance_options \<Rightarrow> (accounting_error, trial_balance) outcome" where
  "trial_balance_as_of l as_of options =
     rbind (general_ledger_as_of l as_of) (\<lambda>gl.
       trial_balance_from_balances l as_of options
         (bt_tally (\<lambda>e. post_account (ent_posting e)) entry_amount (gl_entries gl)))"

definition accrual_step ::
    "accrual_policy \<Rightarrow> general_ledger_entry \<Rightarrow> (account_id, int) btree \<Rightarrow> (account_id, int) btree" where
  "accrual_step policy e balances =
     (if post_date (ent_posting e) < pol_fiscal_year_start policy
         \<and> is_profit_and_loss (acc_type (ent_account e))
      then bt_add (pol_retained_earnings policy) (entry_amount e) balances
      else bt_add (post_account (ent_posting e)) (entry_amount e) balances)"

definition quickbooks_accrual_trial_balance_as_of ::
    "ledger \<Rightarrow> accounting_date \<Rightarrow> trial_balance_options \<Rightarrow> accrual_policy \<Rightarrow>
     (accounting_error, trial_balance) outcome" where
  "quickbooks_accrual_trial_balance_as_of l as_of options policy =
     (if as_of < pol_fiscal_year_start policy
      then Err (FiscalYearStartAfterAsOf (pol_fiscal_year_start policy) as_of)
      else
        rbind (ok_or (bt_get (led_accounts l) (pol_retained_earnings policy))
                 (UnknownRetainedEarningsAccount (pol_retained_earnings policy))) (\<lambda>retained_earnings.
        if acc_type retained_earnings \<noteq> Equity
        then Err (RetainedEarningsAccountNotEquity (acc_id retained_earnings))
        else
          rbind (general_ledger_as_of l as_of) (\<lambda>gl.
            trial_balance_from_balances l as_of options
              (fold (accrual_step policy) (gl_entries gl) []))))"

definition total_debit_minor_units :: "trial_balance \<Rightarrow> int" where
  "total_debit_minor_units tb = (\<Sum>d\<leftarrow>List.map_filter row_debit (tb_rows tb). sint d)"

definition total_credit_minor_units :: "trial_balance \<Rightarrow> int" where
  "total_credit_minor_units tb = (\<Sum>c\<leftarrow>List.map_filter row_credit (tb_rows tb). sint c)"

end
