(* ===== verification/Report_Facts.thy ===== *)
theory Report_Facts
  imports Ledger_Reports
begin

text \<open>
  Lemmas about the reports, shared by the properties and by the financial statements: which
  postings a General Ledger holds and in which order, when it is refused, and the exact amount of
  every Trial Balance row as a sum over the postings of the ledger.
\<close>

section \<open>The postings of a report\<close>

definition current_upto :: "accounting_date \<Rightarrow> posting \<Rightarrow> bool" where
  "current_upto d p \<longleftrightarrow> post_state p = Current \<and> post_date p \<le> d"

definition ambiguous_upto :: "accounting_date \<Rightarrow> posting \<Rightarrow> bool" where
  "ambiguous_upto d p \<longleftrightarrow> post_state p = Ambiguous \<and> post_date p \<le> d"

definition entry_of :: "chart \<Rightarrow> posting \<Rightarrow> general_ledger_entry" where
  "entry_of m p = \<lparr>ent_account = the (bt_get m (post_account p)), ent_posting = p\<rparr>"

definition report_entries :: "ledger \<Rightarrow> accounting_date \<Rightarrow> general_ledger_entry list" where
  "report_entries l d = map (entry_of (led_accounts l)) (filter (current_upto d) (led_postings l))"

definition posted :: "ledger \<Rightarrow> accounting_date \<Rightarrow> (posting \<Rightarrow> bool) \<Rightarrow> int" where
  "posted l d P = (\<Sum>p\<leftarrow>filter (\<lambda>p. current_upto d p \<and> P p) (led_postings l). sint (post_signed p))"

definition transactions_balance :: "ledger \<Rightarrow> accounting_date \<Rightarrow> bool" where
  "transactions_balance l d \<longleftrightarrow> (\<forall>t. posted l d (\<lambda>p. post_transaction p = t) = 0)"

definition reportable :: "ledger \<Rightarrow> accounting_date \<Rightarrow> bool" where
  "reportable l d \<longleftrightarrow> led_completeness l = Complete
     \<and> (\<forall>p \<in> set (led_postings l). \<not> ambiguous_upto d p) \<and> transactions_balance l d"

lemma collect_current_Ok_iff:
  "\<forall>p \<in> set ps. post_account p \<in> fst ` set m \<Longrightarrow>
   collect_current m d ps = Ok es \<longleftrightarrow>
     (\<forall>p \<in> set ps. \<not> ambiguous_upto d p) \<and> es = map (entry_of m) (filter (current_upto d) ps)"
proof (induction ps arbitrary: es)
  case (Cons p ps)
  have "bt_get m (post_account p) \<noteq> None" using Cons.prems by (auto simp: bt_get_None_iff)
  with Cons show ?case
    by (auto simp: outcome_simps current_upto_def ambiguous_upto_def entry_of_def)
qed auto

lemma collect_current_no_panic:
  "\<forall>p \<in> set ps. post_account p \<in> fst ` set m \<Longrightarrow> collect_current m d ps \<noteq> Panic"
proof (induction ps)
  case (Cons p ps)
  then have "bt_get m (post_account p) \<noteq> None" by (auto simp: bt_get_None_iff)
  with Cons show ?case by (auto simp: outcome_simps)
qed simp

lemma ledger_ok_accounts_known: "ledger_ok l \<Longrightarrow> \<forall>p \<in> set (led_postings l). post_account p \<in> fst ` set (led_accounts l)"
  by (simp add: ledger_ok_def postings_ok_def)

lemma ledger_ok_chart: "ledger_ok l \<Longrightarrow> chart_ok (led_accounts l)"
  by (simp add: ledger_ok_def)

lemma current_postings_Ok_iff:
  assumes "ledger_ok l"
  shows "current_postings_as_of l d = Ok es \<longleftrightarrow>
    led_completeness l = Complete \<and> (\<forall>p \<in> set (led_postings l). \<not> ambiguous_upto d p)
    \<and> es = sort_key entry_key (report_entries l d)"
  using collect_current_Ok_iff [OF ledger_ok_accounts_known [OF assms]]
  by (auto simp: current_postings_as_of_def outcome_simps report_entries_def split: completeness.splits)

lemma sum_list_sort_key_filter:
  "(\<Sum>x\<leftarrow>filter P (sort_key k xs). g x :: int) = (\<Sum>x\<leftarrow>filter P xs. g x)"
proof -
  have "mset (map g (filter P (sort_key k xs))) = mset (map g (filter P xs))" by simp
  then show ?thesis by (metis sum_mset_sum_list)
qed

lemma sum_report_entries:
  "(\<Sum>e\<leftarrow>filter (\<lambda>e. P (ent_posting e)) (sort_key k (report_entries l d)). entry_amount e) = posted l d P"
proof -
  have "(\<Sum>e\<leftarrow>filter (\<lambda>e. P (ent_posting e)) (report_entries l d). entry_amount e)
      = (\<Sum>p\<leftarrow>filter P (filter (current_upto d) (led_postings l)). sint (post_signed p))"
    by (simp add: report_entries_def filter_map o_def entry_of_def entry_amount_def)
  also have "\<dots> = posted l d P" by (simp add: posted_def conj_commute)
  finally show ?thesis by (simp add: sum_list_sort_key_filter)
qed

lemma assert_balanced_Ok_iff:
  "assert_balanced_by_transaction es = Ok () \<longleftrightarrow>
     (\<forall>t. (\<Sum>e\<leftarrow>filter (\<lambda>e. post_transaction (ent_posting e) = t) es. entry_amount e) = 0)"
    (is "_ \<longleftrightarrow> (\<forall>t. ?sum t = 0)")
proof -
  have "assert_balanced_by_transaction es = Ok () \<longleftrightarrow>
      (\<forall>(t, s) \<in> set (transaction_totals es). s = 0)"
    by (fastforce simp: assert_balanced_by_transaction_def find_None_iff find_Some_iff in_set_conv_nth
        split: option.splits)
  also have "\<dots> \<longleftrightarrow> (\<forall>t \<in> (\<lambda>e. post_transaction (ent_posting e)) ` set es. ?sum t = 0)"
  proof -
    have "(\<forall>(t, s) \<in> set (transaction_totals es). s = 0)
        \<longleftrightarrow> (\<forall>t s. (t, s) \<in> set (transaction_totals es) \<longrightarrow> s = 0)" by auto
    then show ?thesis by (auto simp: transaction_totals_def bt_tally_entries)
  qed
  also have "\<dots> \<longleftrightarrow> (\<forall>t. ?sum t = 0)"
  proof -
    have "?sum t = 0" if "t \<notin> (\<lambda>e. post_transaction (ent_posting e)) ` set es" for t
    proof -
      have "filter (\<lambda>e. post_transaction (ent_posting e) = t) es = []"
        using that by (auto simp: filter_empty_conv)
      then show ?thesis by simp
    qed
    then show ?thesis by blast
  qed
  finally show ?thesis .
qed

lemma assert_balanced_no_panic: "assert_balanced_by_transaction es \<noteq> Panic"
  by (auto simp: assert_balanced_by_transaction_def split: option.splits)

lemma general_ledger_Ok_iff:
  assumes "ledger_ok l"
  shows "general_ledger_as_of l d = Ok gl \<longleftrightarrow>
    reportable l d \<and> gl = \<lparr>gl_as_of = d, gl_entries = sort_key entry_key (report_entries l d)\<rparr>"
proof -
  have "(\<Sum>e\<leftarrow>filter (\<lambda>e. post_transaction (ent_posting e) = t) (sort_key entry_key (report_entries l d)).
      entry_amount e) = posted l d (\<lambda>p. post_transaction p = t)" for t
    by (rule sum_report_entries)
  then show ?thesis
    by (auto simp: general_ledger_as_of_def outcome_simps current_postings_Ok_iff [OF assms]
        assert_balanced_Ok_iff reportable_def transactions_balance_def)
qed

lemma general_ledger_no_panic: "ledger_ok l \<Longrightarrow> general_ledger_as_of l d \<noteq> Panic"
  using collect_current_no_panic [OF ledger_ok_accounts_known]
  by (auto simp: general_ledger_as_of_def current_postings_as_of_def outcome_simps
      assert_balanced_no_panic split: completeness.splits)

lemma ent_account_report_entries:
  assumes "ledger_ok l" and "e \<in> set (report_entries l d)"
  shows "bt_get (led_accounts l) (post_account (ent_posting e)) = Some (ent_account e)"
    and "acc_id (ent_account e) = post_account (ent_posting e)"
    and "ent_posting e \<in> set (led_postings l)" and "current_upto d (ent_posting e)"
proof -
  obtain p where p: "p \<in> set (led_postings l)" "current_upto d p" "e = entry_of (led_accounts l) p"
    using assms(2) by (auto simp: report_entries_def)
  then have "bt_get (led_accounts l) (post_account p) \<noteq> None"
    using ledger_ok_accounts_known [OF assms(1)] by (auto simp: bt_get_None_iff)
  then show get: "bt_get (led_accounts l) (post_account (ent_posting e)) = Some (ent_account e)"
    using p by (auto simp: entry_of_def)
  show "acc_id (ent_account e) = post_account (ent_posting e)"
    using chart_ok_get [OF ledger_ok_chart [OF assms(1)] get] .
qed (use assms(2) in \<open>auto simp: report_entries_def entry_of_def\<close>)

text \<open>Distinct posting identifiers make the report order a total order on its entries.\<close>

lemma entry_key_inj_on: "ledger_ok l \<Longrightarrow> inj_on entry_key (set (report_entries l d))"
proof (rule inj_onI)
  fix e f assume l: "ledger_ok l" and e: "e \<in> set (report_entries l d)" and f: "f \<in> set (report_entries l d)"
    and "entry_key e = entry_key f"
  then have "post_id (ent_posting e) = post_id (ent_posting f)" by (simp add: entry_key_def)
  moreover have "distinct (map post_id (led_postings l))" using l by (simp add: ledger_ok_def postings_ok_def)
  ultimately have "ent_posting e = ent_posting f"
    using ent_account_report_entries(3) [OF l e] ent_account_report_entries(3) [OF l f]
    by (auto simp: distinct_map dest: inj_onD)
  with e f show "e = f" by (auto simp: report_entries_def entry_of_def)
qed

end
