(* ===== verification/Trial_Balance_Facts.thy ===== *)
theory Trial_Balance_Facts
  imports Report_Facts
begin

text \<open>
  Closed forms of the two Trial Balances: which accounts get a row, the exact amount in it, when
  the balance of an account does not fit the column, and why the final net-zero test of
  \<open>trial_balance_from_balances\<close> cannot fail on a ledger that passed construction.
  At the end, which changes to the posting vector a report cannot see: rows outside the cutoff or
  not current, and the order of delivery.
\<close>

section \<open>Rows\<close>

definition fits_column :: "int \<Rightarrow> bool" where
  "fits_column v \<longleftrightarrow> \<bar>v\<bar> < 2 ^ 63"

definition exact_row :: "account \<Rightarrow> int \<Rightarrow> trial_balance_row" where
  "exact_row a v =
     \<lparr>row_account = a, row_signed = word_of_int v,
      row_debit = (if 0 < v then Some (word_of_int v) else None),
      row_credit = (if v < 0 then Some (word_of_int (- v)) else None)\<rparr>"

definition shown :: "trial_balance_options \<Rightarrow> int \<Rightarrow> bool" where
  "shown options v \<longleftrightarrow> v \<noteq> 0 \<or> include_zero_balance_accounts options"

lemma row_from_signed_outcome:
  assumes "try_from_int v = Some (w :: i64)"
  shows "row_from_signed a w =
    (if fits_column v then Ok (exact_row a v) else Err (BalanceOverflow (acc_id a)))"
proof -
  have v: "v = sint w" using assms by (simp add: try_from_int_Some_iff)
  show ?thesis
    using i64_range [of w] unfolding v
    by (auto simp: row_from_signed_def checked_neg_def try_from_int_def ok_or_def fits_column_def
        exact_row_def)
qed

text \<open>The loop stops at the first account whose balance does not fit, in identifier order.\<close>

lemma trial_balance_rows_closed:
  "trial_balance_rows options b as =
     (case find (\<lambda>a. \<not> fits_column (bt_total b (acc_id a))) as of
        Some a \<Rightarrow> Err (BalanceOverflow (acc_id a))
      | None \<Rightarrow> Ok (map (\<lambda>a. exact_row a (bt_total b (acc_id a)))
                   (filter (\<lambda>a. shown options (bt_total b (acc_id a))) as)))"
proof (induction as)
  case (Cons a as)
  let ?v = "bt_total b (acc_id a)"
  show ?case
  proof (cases "shown options ?v")
    case False
    then have "fits_column ?v" by (simp add: shown_def fits_column_def)
    with False Cons show ?thesis by (auto simp: shown_def split: option.split)
  next
    case shown: True
    show ?thesis
    proof (cases "try_from_int ?v :: i64 option")
      case None
      then have "\<not> fits_column ?v" by (auto simp: try_from_int_None_iff fits_column_def)
      with None shown show ?thesis by (auto simp: shown_def ok_or_def)
    next
      case (Some w)
      with shown Cons show ?thesis
        by (auto simp: shown_def ok_or_def row_from_signed_outcome split: option.split)
    qed
  qed
qed simp

lemma trial_balance_rows_Ok_iff:
  "trial_balance_rows options b as = Ok rows \<longleftrightarrow>
     (\<forall>a \<in> set as. fits_column (bt_total b (acc_id a)))
     \<and> rows = map (\<lambda>a. exact_row a (bt_total b (acc_id a)))
                (filter (\<lambda>a. shown options (bt_total b (acc_id a))) as)"
  unfolding trial_balance_rows_closed
  by (auto simp: find_None_iff find_Some_iff split: option.split dest: nth_mem)

lemma trial_balance_rows_Err:
  "trial_balance_rows options b as = Err e \<Longrightarrow>
     \<exists>a \<in> set as. \<not> fits_column (bt_total b (acc_id a)) \<and> e = BalanceOverflow (acc_id a)"
  unfolding trial_balance_rows_closed
  by (auto simp: find_Some_iff split: option.splits intro: nth_mem)

lemma trial_balance_rows_no_panic: "trial_balance_rows options b as \<noteq> Panic"
  unfolding trial_balance_rows_closed by (simp split: option.split)

lemma sint_exact_row: "fits_column v \<Longrightarrow> sint (row_signed (exact_row a v)) = v"
  by (simp add: exact_row_def fits_column_def sint_word_of_int_range)

lemma sum_exact_rows:
  assumes "\<forall>a \<in> set as. fits_column (f a)"
  shows "(\<Sum>row\<leftarrow>map (\<lambda>a. exact_row a (f a)) (filter (\<lambda>a. shown options (f a)) as). sint (row_signed row))
       = (\<Sum>a\<leftarrow>as. f a)"
  using assms by (induction as) (auto simp: sint_exact_row shown_def)

section \<open>Sums over the chart\<close>

lemma chart_ids: "chart_ok m \<Longrightarrow> map acc_id (bt_values m) = bt_keys m"
  by (auto simp: chart_ok_def bt_values_def bt_keys_def)

lemma chart_ids_distinct: "chart_ok m \<Longrightarrow> distinct (map acc_id (bt_values m))"
  by (simp add: chart_ids) (simp add: chart_ok_def bt_keys_def bt_ok_distinct)

lemma sum_over_chart:
  assumes "chart_ok m" and "f ` set es \<subseteq> fst ` set m"
  shows "(\<Sum>a\<leftarrow>bt_values m. bt_total (bt_tally f g es) (acc_id a)) = (\<Sum>e\<leftarrow>es. g e)"
proof -
  have "(\<Sum>a\<leftarrow>bt_values m. bt_total (bt_tally f g es) (acc_id a))
      = (\<Sum>k\<leftarrow>map acc_id (bt_values m). \<Sum>e\<leftarrow>filter (\<lambda>e. f e = k) es. g e)"
    by (simp add: bt_total_tally o_def)
  also have "\<dots> = (\<Sum>e\<leftarrow>es. g e)"
    using assms(2) by (intro sum_list_by_key [OF chart_ids_distinct [OF assms(1)]])
      (simp add: chart_ids [OF assms(1)] bt_keys_def)
  finally show ?thesis .
qed

lemma transactions_balance_total: "transactions_balance l d \<Longrightarrow> posted l d (\<lambda>_. True) = 0"
proof -
  assume b: "transactions_balance l d"
  let ?ps = "filter (current_upto d) (led_postings l)"
  let ?ts = "remdups (map post_transaction ?ps)"
  have "posted l d (\<lambda>_. True) = (\<Sum>p\<leftarrow>?ps. sint (post_signed p))" by (simp add: posted_def)
  also have "\<dots> = (\<Sum>t\<leftarrow>?ts. \<Sum>p\<leftarrow>filter (\<lambda>p. post_transaction p = t) ?ps. sint (post_signed p))"
    by (rule sum_list_by_key [symmetric]) auto
  also have "\<dots> = (\<Sum>t\<leftarrow>?ts. posted l d (\<lambda>p. post_transaction p = t))"
    by (simp add: posted_def conj_commute)
  also have "\<dots> = (\<Sum>t\<leftarrow>?ts. 0)" using b by (simp add: transactions_balance_def)
  finally show ?thesis by simp
qed

text \<open>The net-zero test of a report whose totals came from a balanced General Ledger passes.\<close>

lemma trial_balance_from_balances_Ok_iff:
  assumes "(\<Sum>a\<leftarrow>bt_values (led_accounts l). bt_total b (acc_id a)) = 0"
  shows "trial_balance_from_balances l d options b = Ok tb \<longleftrightarrow>
    (\<forall>a \<in> set (bt_values (led_accounts l)). fits_column (bt_total b (acc_id a)))
    \<and> tb = \<lparr>tb_as_of = d,
            tb_rows = map (\<lambda>a. exact_row a (bt_total b (acc_id a)))
              (filter (\<lambda>a. shown options (bt_total b (acc_id a))) (bt_values (led_accounts l)))\<rparr>"
  using sum_exact_rows [of "bt_values (led_accounts l)" "\<lambda>a. bt_total b (acc_id a)" options] assms
  by (auto simp: trial_balance_from_balances_def outcome_simps trial_balance_rows_Ok_iff Let_def)

lemma trial_balance_from_balances_Err:
  assumes "(\<Sum>a\<leftarrow>bt_values (led_accounts l). bt_total b (acc_id a)) = 0"
    and "trial_balance_from_balances l d options b = Err e"
  shows "\<exists>a \<in> set (bt_values (led_accounts l)).
    \<not> fits_column (bt_total b (acc_id a)) \<and> e = BalanceOverflow (acc_id a)"
  using assms sum_exact_rows [of "bt_values (led_accounts l)" "\<lambda>a. bt_total b (acc_id a)" options]
  by (auto simp: trial_balance_from_balances_def outcome_simps trial_balance_rows_Ok_iff Let_def
      dest: trial_balance_rows_Err split: if_splits)

lemma trial_balance_from_balances_no_panic: "trial_balance_from_balances l d options b \<noteq> Panic"
  by (auto simp: trial_balance_from_balances_def outcome_simps trial_balance_rows_no_panic Let_def)

section \<open>The two reports in closed form\<close>

definition account_balance :: "ledger \<Rightarrow> accounting_date \<Rightarrow> account \<Rightarrow> int" where
  "account_balance l d a = posted l d (\<lambda>p. post_account p = acc_id a)"

definition balance_report ::
    "ledger \<Rightarrow> accounting_date \<Rightarrow> trial_balance_options \<Rightarrow> (account \<Rightarrow> int) \<Rightarrow> trial_balance" where
  "balance_report l d options f =
     \<lparr>tb_as_of = d,
      tb_rows = map (\<lambda>a. exact_row a (f a)) (filter (\<lambda>a. shown options (f a)) (bt_values (led_accounts l)))\<rparr>"

definition posting_is_profit_and_loss :: "ledger \<Rightarrow> posting \<Rightarrow> bool" where
  "posting_is_profit_and_loss l p \<longleftrightarrow>
     (case bt_get (led_accounts l) (post_account p) of
        Some a \<Rightarrow> is_profit_and_loss (acc_type a) | None \<Rightarrow> False)"

definition prior_years_result :: "ledger \<Rightarrow> accounting_date \<Rightarrow> accrual_policy \<Rightarrow> int" where
  "prior_years_result l d policy =
     posted l d (\<lambda>p. post_date p < pol_fiscal_year_start policy \<and> posting_is_profit_and_loss l p)"

definition accrual_presentation ::
    "ledger \<Rightarrow> accounting_date \<Rightarrow> accrual_policy \<Rightarrow> account \<Rightarrow> int" where
  "accrual_presentation l d policy a =
     (if is_profit_and_loss (acc_type a)
      then posted l d (\<lambda>p. post_account p = acc_id a \<and> pol_fiscal_year_start policy \<le> post_date p)
      else if acc_id a = pol_retained_earnings policy
      then account_balance l d a + prior_years_result l d policy
      else account_balance l d a)"

lemma values_get: "chart_ok m \<Longrightarrow> a \<in> set (bt_values m) \<longleftrightarrow> bt_get m (acc_id a) = Some a"
  by (force simp: bt_values_def chart_ok_def bt_get_iff [symmetric])

lemma report_total:
  "bt_total (bt_tally (\<lambda>e. f (ent_posting e)) entry_amount (sort_key k (report_entries l d))) x
     = posted l d (\<lambda>p. f p = x)"
  unfolding bt_total_tally by (rule sum_report_entries)

lemma report_sum:
  "reportable l d \<Longrightarrow> (\<Sum>e\<leftarrow>sort_key k (report_entries l d). entry_amount e) = 0"
  using sum_report_entries [of "\<lambda>_. True" k l d] transactions_balance_total [of l d]
  by (simp add: reportable_def)

lemma report_keys:
  "ledger_ok l \<Longrightarrow>
   (\<lambda>e. post_account (ent_posting e)) ` set (sort_key k (report_entries l d)) \<subseteq> fst ` set (led_accounts l)"
  using ent_account_report_entries(3) [of l _ d] ledger_ok_accounts_known [of l] by fastforce

lemma trial_balance_Ok_iff:
  assumes "ledger_ok l"
  shows "trial_balance_as_of l d options = Ok tb \<longleftrightarrow>
    reportable l d \<and> (\<forall>a \<in> set (bt_values (led_accounts l)). fits_column (account_balance l d a))
    \<and> tb = balance_report l d options (account_balance l d)"
proof -
  let ?b = "bt_tally (\<lambda>e. post_account (ent_posting e)) entry_amount (sort_key entry_key (report_entries l d))"
  have total: "bt_total ?b (acc_id a) = account_balance l d a" for a
    unfolding account_balance_def by (rule report_total)
  have zero: "(\<Sum>a\<leftarrow>bt_values (led_accounts l). bt_total ?b (acc_id a)) = 0" if "reportable l d"
    unfolding sum_over_chart [OF ledger_ok_chart [OF assms] report_keys [OF assms]]
    using that by (rule report_sum)
  show ?thesis
    using trial_balance_from_balances_Ok_iff [OF zero, of d options tb]
    by (auto simp: trial_balance_as_of_def outcome_simps general_ledger_Ok_iff [OF assms] total
        balance_report_def)
qed

lemma accrual_fold:
  "fold (accrual_step policy) es [] =
     bt_tally (\<lambda>e. if post_date (ent_posting e) < pol_fiscal_year_start policy
                     \<and> is_profit_and_loss (acc_type (ent_account e))
                   then pol_retained_earnings policy else post_account (ent_posting e)) entry_amount es"
  unfolding bt_tally_def by (rule fold_cong) (auto simp: accrual_step_def fun_eq_iff)

text \<open>The account an accrual report charges a posting to.\<close>

definition accrual_account :: "ledger \<Rightarrow> accrual_policy \<Rightarrow> posting \<Rightarrow> account_id" where
  "accrual_account l policy p =
     (if post_date p < pol_fiscal_year_start policy \<and> posting_is_profit_and_loss l p
      then pol_retained_earnings policy else post_account p)"

lemma posted_cong:
  "(\<And>p. p \<in> set (led_postings l) \<Longrightarrow> P p \<longleftrightarrow> Q p) \<Longrightarrow> posted l d P = posted l d Q"
  unfolding posted_def by (rule arg_cong [where f = "\<lambda>ps. \<Sum>p\<leftarrow>ps. sint (post_signed p)"], rule filter_cong) auto

lemma posted_disjoint:
  assumes "\<And>p. p \<in> set (led_postings l) \<Longrightarrow> \<not> (P p \<and> Q p)"
  shows "posted l d (\<lambda>p. P p \<or> Q p) = posted l d P + posted l d Q"
proof -
  have "(\<Sum>p\<leftarrow>filter (\<lambda>p. current_upto d p \<and> (P p \<or> Q p)) ps. sint (post_signed p))
      = (\<Sum>p\<leftarrow>filter (\<lambda>p. current_upto d p \<and> P p) ps. sint (post_signed p))
      + (\<Sum>p\<leftarrow>filter (\<lambda>p. current_upto d p \<and> Q p) ps. sint (post_signed p))"
    if "\<forall>p \<in> set ps. \<not> (P p \<and> Q p)" for ps
    using that by (induction ps) auto
  with assms show ?thesis unfolding posted_def by blast
qed

lemma accrual_total:
  assumes "ledger_ok l"
  shows "bt_total (fold (accrual_step policy) (sort_key entry_key (report_entries l d)) []) x
       = posted l d (\<lambda>p. accrual_account l policy p = x)"
proof -
  let ?es = "sort_key entry_key (report_entries l d)"
  have "is_profit_and_loss (acc_type (ent_account e)) = posting_is_profit_and_loss l (ent_posting e)"
    if "e \<in> set ?es" for e
    using that ent_account_report_entries(1) [OF assms, of e d]
    by (simp add: posting_is_profit_and_loss_def)
  then have "fold (accrual_step policy) ?es [] =
      bt_tally (\<lambda>e. accrual_account l policy (ent_posting e)) entry_amount ?es"
    unfolding accrual_fold bt_tally_def by (intro fold_cong) (auto simp: accrual_account_def)
  then show ?thesis by (simp only: report_total)
qed

lemma accrual_total_presentation:
  assumes l: "ledger_ok l" and a: "a \<in> set (bt_values (led_accounts l))"
    and re: "bt_get (led_accounts l) (pol_retained_earnings policy) = Some r" "acc_type r = Equity"
  shows "posted l d (\<lambda>p. accrual_account l policy p = acc_id a) = accrual_presentation l d policy a"
proof -
  have get: "bt_get (led_accounts l) (acc_id a) = Some a"
    using a values_get [OF ledger_ok_chart [OF l]] by blast
  have own: "posting_is_profit_and_loss l p = is_profit_and_loss (acc_type a)" if "post_account p = acc_id a" for p
    using that get by (simp add: posting_is_profit_and_loss_def)
  have re_not_pl: "\<not> is_profit_and_loss (acc_type a)" if "acc_id a = pol_retained_earnings policy"
    using that re get by simp
  show ?thesis
  proof (cases "acc_id a = pol_retained_earnings policy")
    case True
    have "posted l d (\<lambda>p. accrual_account l policy p = acc_id a)
        = posted l d (\<lambda>p. post_account p = acc_id a
            \<or> post_date p < pol_fiscal_year_start policy \<and> posting_is_profit_and_loss l p)"
      using True own re_not_pl by (intro posted_cong) (auto simp: accrual_account_def)
    also have "\<dots> = account_balance l d a + prior_years_result l d policy"
      unfolding account_balance_def prior_years_result_def
      using True own re_not_pl by (intro posted_disjoint) auto
    finally show ?thesis using True re_not_pl by (simp add: accrual_presentation_def)
  next
    case False
    then show ?thesis
      unfolding accrual_presentation_def account_balance_def
      using own by (auto simp: accrual_account_def intro!: posted_cong)
  qed
qed

lemma accrual_fold_sum:
  assumes l: "ledger_ok l" and re: "bt_get (led_accounts l) (pol_retained_earnings policy) = Some r"
  shows "(\<Sum>a\<leftarrow>bt_values (led_accounts l).
      bt_total (fold (accrual_step policy) (sort_key entry_key (report_entries l d)) []) (acc_id a))
    = (\<Sum>e\<leftarrow>sort_key entry_key (report_entries l d). entry_amount e)"
proof -
  let ?es = "sort_key entry_key (report_entries l d)"
  have keys: "(\<lambda>e. if post_date (ent_posting e) < pol_fiscal_year_start policy
        \<and> is_profit_and_loss (acc_type (ent_account e))
      then pol_retained_earnings policy else post_account (ent_posting e)) ` set ?es \<subseteq> fst ` set (led_accounts l)"
  proof -
    have "pol_retained_earnings policy \<in> fst ` set (led_accounts l)"
      using re bt_get_None_iff [of "led_accounts l" "pol_retained_earnings policy"] by simp
    with report_keys [OF l, of entry_key d] show ?thesis
      unfolding image_subset_iff by simp
  qed
  show ?thesis unfolding accrual_fold by (rule sum_over_chart [OF ledger_ok_chart [OF l] keys])
qed

lemma accrual_trial_balance_Ok_iff:
  assumes "ledger_ok l"
  shows "quickbooks_accrual_trial_balance_as_of l d options policy = Ok tb \<longleftrightarrow>
    pol_fiscal_year_start policy \<le> d
    \<and> (\<exists>r. bt_get (led_accounts l) (pol_retained_earnings policy) = Some r \<and> acc_type r = Equity)
    \<and> reportable l d
    \<and> (\<forall>a \<in> set (bt_values (led_accounts l)). fits_column (accrual_presentation l d policy a))
    \<and> tb = balance_report l d options (accrual_presentation l d policy)"
proof (cases "\<exists>r. bt_get (led_accounts l) (pol_retained_earnings policy) = Some r \<and> acc_type r = Equity")
  case False
  then show ?thesis
    by (auto simp: quickbooks_accrual_trial_balance_as_of_def outcome_simps split: if_splits)
next
  case True
  then obtain r where re: "bt_get (led_accounts l) (pol_retained_earnings policy) = Some r" "acc_type r = Equity"
    by blast
  let ?es = "sort_key entry_key (report_entries l d)"
  let ?b = "fold (accrual_step policy) ?es []"
  have total: "bt_total ?b (acc_id a) = accrual_presentation l d policy a"
    if "a \<in> set (bt_values (led_accounts l))" for a
    unfolding accrual_total [OF assms] using accrual_total_presentation [OF assms that re] .
  have zero: "(\<Sum>a\<leftarrow>bt_values (led_accounts l). bt_total ?b (acc_id a)) = 0" if "reportable l d"
    unfolding accrual_fold_sum [OF assms re(1)] using that by (rule report_sum)
  have rows: "map (\<lambda>a. exact_row a (bt_total ?b (acc_id a))) (filter (\<lambda>a. shown options (bt_total ?b (acc_id a))) (bt_values (led_accounts l)))
     = map (\<lambda>a. exact_row a (accrual_presentation l d policy a)) (filter (\<lambda>a. shown options (accrual_presentation l d policy a)) (bt_values (led_accounts l)))"
    using total by (auto cong: filter_cong)
  have run: "quickbooks_accrual_trial_balance_as_of l d options policy = Ok tb \<longleftrightarrow>
      pol_fiscal_year_start policy \<le> d \<and> reportable l d \<and> trial_balance_from_balances l d options ?b = Ok tb"
    using re by (simp add: quickbooks_accrual_trial_balance_as_of_def outcome_simps
        general_ledger_Ok_iff [OF assms] ok_or_def not_less)
  show ?thesis
  proof (cases "reportable l d")
    case True
    have "trial_balance_from_balances l d options ?b = Ok tb \<longleftrightarrow>
        (\<forall>a \<in> set (bt_values (led_accounts l)). fits_column (accrual_presentation l d policy a))
        \<and> tb = balance_report l d options (accrual_presentation l d policy)"
      unfolding trial_balance_from_balances_Ok_iff [OF zero [OF True]] rows balance_report_def
      using total by simp
    with run re show ?thesis by blast
  qed (simp add: run)
qed

section \<open>Changes a report cannot see\<close>

text \<open>Rows dated after the cutoff, and superseded or deleted rows, never reach a report.\<close>

definition relevant :: "accounting_date \<Rightarrow> posting \<Rightarrow> bool" where
  "relevant d p \<longleftrightarrow> post_date p \<le> d \<and> (post_state p = Current \<or> post_state p = Ambiguous)"

lemma collect_current_relevant:
  "collect_current m d (filter (relevant d) ps) = collect_current m d ps"
proof (induction ps)
  case (Cons p ps)
  then show ?case by (cases "post_state p") (auto simp: relevant_def)
qed simp

lemma general_ledger_relevant:
  "general_ledger_as_of (l\<lparr>led_postings := filter (relevant d) (led_postings l)\<rparr>) d
     = general_ledger_as_of l d"
  by (simp add: general_ledger_as_of_def current_postings_as_of_def collect_current_relevant
      split: completeness.split)

text \<open>The order in which a decoder delivers the postings never shows in a report.\<close>

lemma sort_key_permutation:
  assumes "mset xs = mset ys" and "inj_on k (set xs)"
  shows "sort_key k xs = sort_key k ys"
  using assms mset_eq_setD [OF assms(1)]
  by (intro sort_key_inj_key_eq) auto

lemma report_entries_permutation:
  "mset ps = mset (led_postings l) \<Longrightarrow>
   mset (report_entries (l\<lparr>led_postings := ps\<rparr>) d) = mset (report_entries l d)"
  by (simp add: report_entries_def)

lemma posted_permutation:
  assumes "mset ps = mset (led_postings l)"
  shows "posted (l\<lparr>led_postings := ps\<rparr>) d P = posted l d P"
proof -
  have "mset (map (\<lambda>p. sint (post_signed p)) (filter (\<lambda>p. current_upto d p \<and> P p) ps))
      = mset (map (\<lambda>p. sint (post_signed p)) (filter (\<lambda>p. current_upto d p \<and> P p) (led_postings l)))"
    using assms by simp
  from arg_cong [where f = sum_mset, OF this] show ?thesis
    unfolding sum_mset_sum_list by (simp add: posted_def)
qed

lemma distinct_map_permutation: "mset xs = mset ys \<Longrightarrow> distinct (map f xs) \<longleftrightarrow> distinct (map f ys)"
  by (rule mset_eq_imp_distinct_iff) simp

lemma ledger_ok_permutation:
  assumes "ledger_ok l" and "mset ps = mset (led_postings l)"
  shows "ledger_ok (l\<lparr>led_postings := ps\<rparr>)"
  using assms mset_eq_setD [OF assms(2)] distinct_map_permutation [OF assms(2), of post_id]
    distinct_map_permutation [OF assms(2), of source_row_of]
  by (simp add: ledger_ok_def postings_ok_def)

lemma general_ledger_permutation:
  assumes l: "ledger_ok l" and perm: "mset ps = mset (led_postings l)"
  shows "general_ledger_as_of (l\<lparr>led_postings := ps\<rparr>) d = Ok gl \<longleftrightarrow> general_ledger_as_of l d = Ok gl"
proof -
  have "sort_key entry_key (report_entries (l\<lparr>led_postings := ps\<rparr>) d) = sort_key entry_key (report_entries l d)"
    by (rule sort_key_permutation [OF report_entries_permutation [OF perm]])
      (rule entry_key_inj_on [OF ledger_ok_permutation [OF l perm]])
  moreover have "reportable (l\<lparr>led_postings := ps\<rparr>) d = reportable l d"
    using mset_eq_setD [OF perm]
    by (simp add: reportable_def transactions_balance_def posted_permutation [OF perm])
  ultimately show ?thesis
    by (simp add: general_ledger_Ok_iff [OF l] general_ledger_Ok_iff [OF ledger_ok_permutation [OF l perm]])
qed

text \<open>
  The totals are \<open>i128\<close> in the source. A vector holds fewer than \<open>2\<^sup>6\<^sup>3\<close> elements, so no prefix
  of an accumulation can leave that range.
\<close>

lemma tally_fits_i128:
  assumes "length es < 2 ^ 63"
  shows "- (2 ^ 127) \<le> (\<Sum>e\<leftarrow>filter P es. entry_amount e) \<and> (\<Sum>e\<leftarrow>filter P es. entry_amount e) < 2 ^ 127"
proof -
  have "\<bar>\<Sum>e\<leftarrow>es. entry_amount e\<bar> \<le> int (length es) * 2 ^ 63" for es
  proof (induction es)
    case (Cons e es)
    have "\<bar>entry_amount e\<bar> \<le> 2 ^ 63"
      using i64_range [of "post_signed (ent_posting e)"] by (auto simp: entry_amount_def)
    with Cons show ?case by (simp add: algebra_simps)
  qed simp
  from this [of "filter P es"]
  have "\<bar>\<Sum>e\<leftarrow>filter P es. entry_amount e\<bar> \<le> int (length es) * 2 ^ 63"
    by (rule order_trans) (simp add: mult_right_mono)
  moreover have "int (length es) * 2 ^ 63 < 2 ^ 63 * 2 ^ 63"
    using assms by (intro mult_strict_right_mono) auto
  ultimately show ?thesis by auto
qed

end
