(* ===== verification/Statements.thy ===== *)
theory Statements
  imports Ledger_Reports
begin

text \<open>
  The accrual statements of \<open>crates/openqbw/src/financial_statements.rs\<close>: Profit and Loss over a
  date range and Balance Sheet at a cutoff, built row by row from the ledger reports.
\<close>

datatype statement_kind = ProfitAndLoss | BalanceSheet

fun statement_kind_as_str :: "statement_kind \<Rightarrow> string" where
  "statement_kind_as_str ProfitAndLoss = ''profit_and_loss''"
| "statement_kind_as_str BalanceSheet = ''balance_sheet''"

record statement_row =
  srow_key :: string
  srow_kind :: string
  srow_section :: string
  srow_label :: string
  srow_account :: "account option"
  srow_signed :: "i64 option"
  srow_amount :: i64

record financial_statement =
  st_kind :: statement_kind
  st_from :: "accounting_date option"
  st_as_of :: accounting_date
  st_policy :: "accrual_policy option"
  st_accounts :: "account list"
  st_rows :: "statement_row list"

datatype statement_error =
    Accounting accounting_error
  | InvalidPeriod
  | UnclassifiedAccount account_id
  | ConflictingClassification account_id
  | AmountOverflow
  | UnbalancedBalanceSheet

section \<open>Rows and sections\<close>

definition exact_amount :: "int \<Rightarrow> (statement_error, i64) outcome" where
  "exact_amount v = ok_or (try_from_int v) AmountOverflow"

definition validate_account :: "account \<Rightarrow> (statement_error, account) outcome" where
  "validate_account a =
     (if (case acc_type a of Other _ \<Rightarrow> True | _ \<Rightarrow> False) \<or> acc_classification a = None
      then Err (UnclassifiedAccount (acc_id a))
      else if (case acc_classification a of
                 Some c \<Rightarrow> trial_balance_type c \<noteq> acc_type a | None \<Rightarrow> False)
      then Err (ConflictingClassification (acc_id a))
      else Ok a)"

definition validated_accounts :: "ledger \<Rightarrow> (statement_error, account list) outcome" where
  "validated_accounts l = rmap validate_account (bt_values (led_accounts l))"

definition section_for :: "account \<Rightarrow> (statement_error, string) outcome" where
  "section_for a =
     (case acc_classification a of
        Some QB_OtherIncome \<Rightarrow> Ok ''other_income''
      | Some QB_OtherExpense \<Rightarrow> Ok ''other_expense''
      | _ \<Rightarrow>
          (case acc_type a of
             Asset \<Rightarrow> Ok ''assets''
           | Liability \<Rightarrow> Ok ''liabilities''
           | Equity \<Rightarrow> Ok ''equity''
           | Income \<Rightarrow> Ok ''income''
           | CostOfGoodsSold \<Rightarrow> Ok ''cost_of_goods_sold''
           | Expense \<Rightarrow> Ok ''expense''
           | Other _ \<Rightarrow> Panic))"

definition presented :: "account \<Rightarrow> int \<Rightarrow> int" where
  "presented a v =
     (if acc_type a = Income \<or> acc_type a = Liability \<or> acc_type a = Equity then - v else v)"

definition account_row :: "account \<Rightarrow> string \<Rightarrow> i64 \<Rightarrow> i64 \<Rightarrow> statement_row" where
  "account_row a sec v amount =
     \<lparr>srow_key = ''account:'' @ account_id_str (acc_id a), srow_kind = ''account'', srow_section = sec,
      srow_label = acc_name a, srow_account = Some a, srow_signed = Some v, srow_amount = amount\<rparr>"

fun section_loop ::
    "(account_id, int) btree \<Rightarrow> string \<Rightarrow> trial_balance_options \<Rightarrow> account list \<Rightarrow>
     int \<Rightarrow> statement_row list \<Rightarrow> (statement_error, int \<times> statement_row list) outcome" where
  "section_loop balances sec options [] acc rows = Ok (acc, rows)"
| "section_loop balances sec options (a # as) acc rows =
     rbind (section_for a) (\<lambda>s.
       if s \<noteq> sec then section_loop balances sec options as acc rows
       else
         let balance = bt_total balances (acc_id a); amount = presented a balance in
         if balance = 0 \<and> \<not> include_zero_balance_accounts options
         then section_loop balances sec options as (acc + amount) rows
         else
           rbind (exact_amount balance) (\<lambda>signed_minor.
           rbind (exact_amount amount) (\<lambda>amount_minor.
             section_loop balances sec options as (acc + amount)
               (rows @ [account_row a sec signed_minor amount_minor]))))"

definition append_section ::
    "financial_statement \<Rightarrow> (account_id, int) btree \<Rightarrow> string \<Rightarrow> trial_balance_options \<Rightarrow>
     (statement_error, financial_statement \<times> int) outcome" where
  "append_section report balances sec options =
     rbind (section_loop balances sec options (st_accounts report) 0 (st_rows report)) (\<lambda>(acc, rows).
       Ok (report\<lparr>st_rows := rows\<rparr>, acc))"

definition append_derived ::
    "financial_statement \<Rightarrow> string \<Rightarrow> string \<Rightarrow> string \<Rightarrow> string \<Rightarrow> int \<Rightarrow>
     (statement_error, financial_statement) outcome" where
  "append_derived report kind sec key label amount =
     rbind (exact_amount amount) (\<lambda>amount_minor.
       Ok (report\<lparr>st_rows := st_rows report @
         [\<lparr>srow_key = key, srow_kind = kind, srow_section = sec, srow_label = label,
           srow_account = None, srow_signed = None, srow_amount = amount_minor\<rparr>]\<rparr>))"

definition append_total ::
    "financial_statement \<Rightarrow> string \<Rightarrow> string \<Rightarrow> string \<Rightarrow> int \<Rightarrow> (statement_error, financial_statement) outcome" where
  "append_total report sec key label amount = append_derived report ''subtotal'' sec key label amount"

definition append_calculated ::
    "financial_statement \<Rightarrow> string \<Rightarrow> string \<Rightarrow> string \<Rightarrow> int \<Rightarrow> (statement_error, financial_statement) outcome" where
  "append_calculated report sec key label amount =
     append_derived report ''calculated'' sec key label amount"

section \<open>Profit and Loss\<close>

definition profit_and_loss ::
    "ledger \<Rightarrow> accounting_date \<Rightarrow> accounting_date \<Rightarrow> trial_balance_options \<Rightarrow>
     (statement_error, financial_statement) outcome" where
  "profit_and_loss l from_date through options =
     (if through < from_date then Err InvalidPeriod
      else
        rbind (validated_accounts l) (\<lambda>accounts.
        rbind (map_err Accounting (general_ledger_as_of l through)) (\<lambda>gl.
        let balances = bt_tally (\<lambda>e. acc_id (ent_account e)) entry_amount
              (filter (\<lambda>e. from_date \<le> post_date (ent_posting e)) (gl_entries gl));
            report = \<lparr>st_kind = ProfitAndLoss, st_from = Some from_date, st_as_of = through,
                      st_policy = None, st_accounts = accounts, st_rows = []\<rparr> in
        rbind (append_section report balances ''income'' options) (\<lambda>(report, income).
        rbind (append_total report ''income'' ''total_income'' ''Total Income'' income) (\<lambda>report.
        rbind (append_section report balances ''cost_of_goods_sold'' options) (\<lambda>(report, cogs).
        rbind (append_total report ''cost_of_goods_sold'' ''total_cost_of_goods_sold''
                 ''Total Cost of Goods Sold'' cogs) (\<lambda>report.
        rbind (append_calculated report ''profit'' ''gross_profit'' ''Gross Profit'' (income - cogs)) (\<lambda>report.
        rbind (append_section report balances ''expense'' options) (\<lambda>(report, expense).
        rbind (append_total report ''expense'' ''total_expense'' ''Total Expense'' expense) (\<lambda>report.
        rbind (append_calculated report ''profit'' ''net_operating_income'' ''Net Operating Income''
                 (income - cogs - expense)) (\<lambda>report.
        rbind (append_section report balances ''other_income'' options) (\<lambda>(report, other_income).
        rbind (append_total report ''other_income'' ''total_other_income'' ''Total Other Income''
                 other_income) (\<lambda>report.
        rbind (append_section report balances ''other_expense'' options) (\<lambda>(report, other_expense).
        rbind (append_total report ''other_expense'' ''total_other_expense'' ''Total Other Expense''
                 other_expense) (\<lambda>report.
        rbind (append_calculated report ''profit'' ''net_other_income'' ''Net Other Income''
                 (other_income - other_expense)) (\<lambda>report.
        append_calculated report ''profit'' ''net_income'' ''Net Income''
          (income - cogs - expense + other_income - other_expense)))))))))))))))))"

section \<open>Balance Sheet\<close>

text \<open>The loop over the Trial Balance rows: profit-and-loss rows add up to one current-year result.\<close>

definition balance_sheet_step ::
    "trial_balance_row \<Rightarrow> (account_id, int) btree \<times> int \<Rightarrow> (account_id, int) btree \<times> int" where
  "balance_sheet_step row state =
     (case state of (balances, current_income) \<Rightarrow>
        let amount = sint (row_signed row) in
        if is_profit_and_loss (acc_type (row_account row))
        then (balances, current_income - amount)
        else (bt_insert (acc_id (row_account row)) amount balances, current_income))"

definition balance_sheet_as_of ::
    "ledger \<Rightarrow> accounting_date \<Rightarrow> trial_balance_options \<Rightarrow> accrual_policy \<Rightarrow>
     (statement_error, financial_statement) outcome" where
  "balance_sheet_as_of l as_of options policy =
     rbind (validated_accounts l) (\<lambda>accounts.
     rbind (map_err Accounting (quickbooks_accrual_trial_balance_as_of l as_of options policy)) (\<lambda>tb.
     case fold balance_sheet_step (tb_rows tb) ([], 0) of (balances, current_income) \<Rightarrow>
     let report = \<lparr>st_kind = BalanceSheet, st_from = None, st_as_of = as_of, st_policy = Some policy,
                   st_accounts = accounts, st_rows = []\<rparr> in
     rbind (append_section report balances ''assets'' options) (\<lambda>(report, assets).
     rbind (append_total report ''assets'' ''total_assets'' ''Total Assets'' assets) (\<lambda>report.
     rbind (append_section report balances ''liabilities'' options) (\<lambda>(report, liabilities).
     rbind (append_total report ''liabilities'' ''total_liabilities'' ''Total Liabilities'' liabilities) (\<lambda>report.
     rbind (append_section report balances ''equity'' options) (\<lambda>(report, equity).
     rbind (append_calculated report ''equity'' ''current_year_net_income'' ''Current Year Net Income''
              current_income) (\<lambda>report.
     rbind (append_total report ''equity'' ''total_equity'' ''Total Equity'' (equity + current_income)) (\<lambda>report.
     rbind (append_total report ''liabilities_and_equity'' ''total_liabilities_and_equity''
              ''Total Liabilities and Equity'' (liabilities + equity + current_income)) (\<lambda>report.
     if assets \<noteq> liabilities + equity + current_income then Err UnbalancedBalanceSheet
     else Ok report))))))))))"

end
