(* ===== verification/Statement_Facts.thy ===== *)
theory Statement_Facts
  imports Statements Trial_Balance_Facts
begin

text \<open>
  Closed forms of the two statements: every section total is the sum of the presented balances of
  its accounts, and every derived row is a combination of those totals. From them follow the
  result of a period as a sum over the postings, and the accounting equation.
\<close>

section \<open>Sections\<close>

definition classified :: "account \<Rightarrow> bool" where
  "classified a \<longleftrightarrow> (\<exists>c. acc_classification a = Some c \<and> acc_type a = trial_balance_type c)"

definition section_name :: "account \<Rightarrow> string" where
  "section_name a = (case section_for a of Ok s \<Rightarrow> s | _ \<Rightarrow> '''')"

lemma validate_account_Ok_iff: "validate_account a = Ok b \<longleftrightarrow> classified a \<and> b = a"
proof (cases "acc_classification a")
  case (Some c)
  have "acc_type a \<noteq> trial_balance_type c" if "acc_type a = Other s" for s
    using that trial_balance_type_classified [of c s] by simp
  with Some show ?thesis
    by (auto simp: validate_account_def classified_def split: account_type.split)
qed (simp add: validate_account_def classified_def)

lemma validate_account_no_panic: "validate_account a \<noteq> Panic"
  by (simp add: validate_account_def)

lemma validated_accounts_Ok_iff:
  "validated_accounts l = Ok as \<longleftrightarrow>
     as = bt_values (led_accounts l) \<and> (\<forall>a \<in> set (bt_values (led_accounts l)). classified a)"
proof -
  have "rmap validate_account xs = Ok as \<longleftrightarrow> as = xs \<and> (\<forall>a \<in> set xs. classified a)" for xs
    by (induction xs arbitrary: as) (auto simp: outcome_simps validate_account_Ok_iff)
  then show ?thesis by (simp add: validated_accounts_def)
qed

lemma section_for_classified: "classified a \<Longrightarrow> section_for a = Ok (section_name a)"
proof -
  assume "classified a"
  then obtain c where "acc_classification a = Some c" "acc_type a = trial_balance_type c"
    by (auto simp: classified_def)
  then show ?thesis by (cases c) (simp_all add: section_name_def section_for_def)
qed

definition amount_fits :: "int \<Rightarrow> bool" where
  "amount_fits v \<longleftrightarrow> - (2 ^ 63) \<le> v \<and> v < 2 ^ 63"

lemma exact_amount_Ok_iff: "exact_amount v = Ok w \<longleftrightarrow> amount_fits v \<and> w = word_of_int v"
  by (auto simp: exact_amount_def ok_or_def try_from_int_def amount_fits_def)

lemma exact_amount_no_panic: "exact_amount v \<noteq> Panic"
  by (auto simp: exact_amount_def ok_or_def split: option.split)

text \<open>The accounts of a section, its total and its rows, for account balances \<open>f\<close>.\<close>

definition in_section :: "string \<Rightarrow> account list \<Rightarrow> account list" where
  "in_section sec as = filter (\<lambda>a. section_name a = sec) as"

definition section_total :: "(account \<Rightarrow> int) \<Rightarrow> string \<Rightarrow> account list \<Rightarrow> int" where
  "section_total f sec as = (\<Sum>a\<leftarrow>in_section sec as. presented a (f a))"

definition section_fits :: "(account \<Rightarrow> int) \<Rightarrow> string \<Rightarrow> account list \<Rightarrow> bool" where
  "section_fits f sec as \<longleftrightarrow>
     (\<forall>a \<in> set (in_section sec as). amount_fits (f a) \<and> amount_fits (presented a (f a)))"

definition section_rows ::
    "trial_balance_options \<Rightarrow> (account \<Rightarrow> int) \<Rightarrow> string \<Rightarrow> account list \<Rightarrow> statement_row list" where
  "section_rows options f sec as =
     map (\<lambda>a. account_row a sec (word_of_int (f a)) (word_of_int (presented a (f a))))
       (filter (\<lambda>a. shown options (f a)) (in_section sec as))"

lemma presented_0 [simp]: "presented a 0 = 0"
  by (simp add: presented_def)

lemma amount_fits_0 [simp]: "amount_fits 0"
  by (simp add: amount_fits_def)

lemma section_loop_Ok_iff:
  assumes "\<forall>a \<in> set as. classified a"
    and "\<forall>a \<in> set (in_section sec as). bt_total b (acc_id a) = f a"
  shows "section_loop b sec options as t rows = Ok r \<longleftrightarrow>
    section_fits f sec as \<and> r = (t + section_total f sec as, rows @ section_rows options f sec as)"
  using assms
proof (induction as arbitrary: t rows)
  case (Cons a as)
  then have a: "section_for a = Ok (section_name a)" by (simp add: section_for_classified)
  show ?case
  proof (cases "section_name a = sec")
    case True
    with Cons.prems have "bt_total b (acc_id a) = f a" by (simp add: in_section_def)
    with True Cons a show ?thesis
      by (auto simp: Let_def outcome_simps exact_amount_Ok_iff section_fits_def section_total_def
          section_rows_def in_section_def shown_def)
  next
    case False
    with Cons a show ?thesis
      by (simp add: section_fits_def section_total_def section_rows_def in_section_def)
  qed
qed (auto simp: section_fits_def section_total_def section_rows_def in_section_def)

lemma section_loop_no_panic:
  "\<forall>a \<in> set as. classified a \<Longrightarrow> section_loop b sec options as t rows \<noteq> Panic"
  by (induction as arbitrary: t rows)
    (auto simp: section_for_classified Let_def outcome_simps exact_amount_no_panic)

definition derived_row :: "string \<Rightarrow> string \<Rightarrow> string \<Rightarrow> string \<Rightarrow> int \<Rightarrow> statement_row" where
  "derived_row kind sec key label v =
     \<lparr>srow_key = key, srow_kind = kind, srow_section = sec, srow_label = label,
      srow_account = None, srow_signed = None, srow_amount = word_of_int v\<rparr>"

lemma append_section_Ok_iff:
  assumes "\<forall>a \<in> set (st_accounts r). classified a"
    and "\<forall>a \<in> set (in_section sec (st_accounts r)). bt_total b (acc_id a) = f a"
  shows "append_section r b sec options = Ok x \<longleftrightarrow>
    section_fits f sec (st_accounts r)
    \<and> x = (r\<lparr>st_rows := st_rows r @ section_rows options f sec (st_accounts r)\<rparr>,
           section_total f sec (st_accounts r))"
  by (auto simp: append_section_def outcome_simps section_loop_Ok_iff [OF assms])

lemma append_derived_Ok_iff:
  "append_derived r kind sec key label v = Ok x \<longleftrightarrow>
     amount_fits v \<and> x = r\<lparr>st_rows := st_rows r @ [derived_row kind sec key label v]\<rparr>"
  by (auto simp: append_derived_def outcome_simps exact_amount_Ok_iff derived_row_def)

lemmas append_rows = append_total_def append_calculated_def append_derived_Ok_iff

lemma append_no_panic:
  "\<forall>a \<in> set (st_accounts r). classified a \<Longrightarrow> append_section r b sec options \<noteq> Panic"
  "append_total r sec key label v \<noteq> Panic"
  "append_calculated r sec key label v \<noteq> Panic"
  by (auto simp: append_section_def append_total_def append_calculated_def append_derived_def
      outcome_simps section_loop_no_panic exact_amount_no_panic)

section \<open>Sums over sections\<close>

text \<open>
  The profit-and-loss sections partition the accounts of those types, and the presentation signs
  cancel: adding the section totals with their statement signs negates the sum of the balances.
\<close>

definition net_of_sections :: "(account \<Rightarrow> int) \<Rightarrow> account list \<Rightarrow> int" where
  "net_of_sections f as =
     section_total f ''income'' as - section_total f ''cost_of_goods_sold'' as
     - section_total f ''expense'' as + section_total f ''other_income'' as
     - section_total f ''other_expense'' as"

lemma section_total_Cons:
  "section_total f sec (a # as) =
     (if section_name a = sec then presented a (f a) else 0) + section_total f sec as"
  by (simp add: section_total_def in_section_def)

lemma section_total_Nil [simp]: "section_total f sec [] = 0"
  by (simp add: section_total_def in_section_def)

lemma classified_cases:
  assumes "classified a"
  obtains c where "acc_classification a = Some c" "acc_type a = trial_balance_type c"
  using assms by (auto simp: classified_def)

lemma net_of_sections_sum:
  "\<forall>a \<in> set as. classified a \<Longrightarrow>
   net_of_sections f as = - (\<Sum>a\<leftarrow>filter (\<lambda>a. is_profit_and_loss (acc_type a)) as. f a)"
proof (induction as)
  case (Cons a as)
  then have "classified a" by simp
  then obtain c where c: "acc_classification a = Some c" "acc_type a = trial_balance_type c"
    by (rule classified_cases)
  with Cons show ?case
    by (cases c) (simp_all add: net_of_sections_def section_total_Cons section_name_def
        section_for_def presented_def)
qed (simp add: net_of_sections_def)

lemma equation_sections_sum:
  "\<forall>a \<in> set as. classified a \<Longrightarrow>
   section_total f ''assets'' as - section_total f ''liabilities'' as - section_total f ''equity'' as
     = (\<Sum>a\<leftarrow>filter (\<lambda>a. \<not> is_profit_and_loss (acc_type a)) as. f a)"
proof (induction as)
  case (Cons a as)
  then have "classified a" by simp
  then obtain c where c: "acc_classification a = Some c" "acc_type a = trial_balance_type c"
    by (rule classified_cases)
  with Cons show ?case
    by (cases c) (simp_all add: section_total_Cons section_name_def section_for_def presented_def)
qed simp

section \<open>Profit and Loss in closed form\<close>

definition period_balance :: "ledger \<Rightarrow> accounting_date \<Rightarrow> accounting_date \<Rightarrow> account \<Rightarrow> int" where
  "period_balance l from_date through a =
     posted l through (\<lambda>p. post_account p = acc_id a \<and> from_date \<le> post_date p)"

definition period_result :: "ledger \<Rightarrow> accounting_date \<Rightarrow> accounting_date \<Rightarrow> int" where
  "period_result l from_date through =
     posted l through (\<lambda>p. from_date \<le> post_date p \<and> posting_is_profit_and_loss l p)"

definition profit_and_loss_rows ::
    "trial_balance_options \<Rightarrow> (account \<Rightarrow> int) \<Rightarrow> account list \<Rightarrow> statement_row list" where
  "profit_and_loss_rows options f as =
     (let t = (\<lambda>sec. section_total f sec as); rows = (\<lambda>sec. section_rows options f sec as) in
      rows ''income'' @ [derived_row ''subtotal'' ''income'' ''total_income'' ''Total Income'' (t ''income'')]
    @ rows ''cost_of_goods_sold'' @
      [derived_row ''subtotal'' ''cost_of_goods_sold'' ''total_cost_of_goods_sold''
         ''Total Cost of Goods Sold'' (t ''cost_of_goods_sold''),
       derived_row ''calculated'' ''profit'' ''gross_profit'' ''Gross Profit''
         (t ''income'' - t ''cost_of_goods_sold'')]
    @ rows ''expense'' @
      [derived_row ''subtotal'' ''expense'' ''total_expense'' ''Total Expense'' (t ''expense''),
       derived_row ''calculated'' ''profit'' ''net_operating_income'' ''Net Operating Income''
         (t ''income'' - t ''cost_of_goods_sold'' - t ''expense'')]
    @ rows ''other_income'' @
      [derived_row ''subtotal'' ''other_income'' ''total_other_income'' ''Total Other Income'' (t ''other_income'')]
    @ rows ''other_expense'' @
      [derived_row ''subtotal'' ''other_expense'' ''total_other_expense'' ''Total Other Expense''
         (t ''other_expense''),
       derived_row ''calculated'' ''profit'' ''net_other_income'' ''Net Other Income''
         (t ''other_income'' - t ''other_expense''),
       derived_row ''calculated'' ''profit'' ''net_income'' ''Net Income'' (net_of_sections f as)])"

definition profit_and_loss_fits :: "(account \<Rightarrow> int) \<Rightarrow> account list \<Rightarrow> bool" where
  "profit_and_loss_fits f as \<longleftrightarrow>
     (let t = (\<lambda>sec. section_total f sec as) in
      (\<forall>sec \<in> {''income'', ''cost_of_goods_sold'', ''expense'', ''other_income'', ''other_expense''}.
         section_fits f sec as \<and> amount_fits (t sec))
      \<and> amount_fits (t ''income'' - t ''cost_of_goods_sold'')
      \<and> amount_fits (t ''income'' - t ''cost_of_goods_sold'' - t ''expense'')
      \<and> amount_fits (t ''other_income'' - t ''other_expense'')
      \<and> amount_fits (net_of_sections f as))"

lemma period_total:
  assumes "ledger_ok l"
  shows "bt_total (bt_tally (\<lambda>e. acc_id (ent_account e)) entry_amount
      (filter (\<lambda>e. from_date \<le> post_date (ent_posting e)) (sort_key k (report_entries l through))))
      (acc_id a) = period_balance l from_date through a"
proof -
  let ?es = "sort_key k (report_entries l through)"
  have "filter (\<lambda>e. acc_id (ent_account e) = acc_id a) (filter (\<lambda>e. from_date \<le> post_date (ent_posting e)) ?es)
      = filter (\<lambda>e. post_account (ent_posting e) = acc_id a \<and> from_date \<le> post_date (ent_posting e)) ?es"
    unfolding filter_filter
    by (rule filter_cong) (auto simp: ent_account_report_entries(2) [OF assms, of _ through])
  then show ?thesis
    unfolding bt_total_tally period_balance_def using sum_report_entries by simp
qed

lemma profit_and_loss_Ok_iff:
  fixes from_date through
  assumes l: "ledger_ok l"
  defines "as \<equiv> bt_values (led_accounts l)"
  defines "f \<equiv> period_balance l from_date through"
  shows "profit_and_loss l from_date through options = Ok st \<longleftrightarrow>
    from_date \<le> through \<and> (\<forall>a \<in> set as. classified a) \<and> reportable l through
    \<and> profit_and_loss_fits f as
    \<and> st = \<lparr>st_kind = ProfitAndLoss, st_from = Some from_date, st_as_of = through, st_policy = None,
            st_accounts = as, st_rows = profit_and_loss_rows options f as\<rparr>"
proof (cases "(\<forall>a \<in> set as. classified a) \<and> from_date \<le> through \<and> reportable l through")
  case False
  then show ?thesis
    by (auto simp: profit_and_loss_def outcome_simps validated_accounts_Ok_iff as_def
        general_ledger_Ok_iff [OF l])
next
  case True
  then have cl: "\<forall>a \<in> set as. classified a" and gl: "reportable l through" and d: "from_date \<le> through"
    by auto
  have f: "bt_total (bt_tally (\<lambda>e. acc_id (ent_account e)) entry_amount
      (filter (\<lambda>e. from_date \<le> post_date (ent_posting e)) (sort_key entry_key (report_entries l through))))
      (acc_id a) = f a" for a
    unfolding f_def by (rule period_total [OF l])
  note sec = append_section_Ok_iff [where f = f]
  show ?thesis
    using cl gl d unfolding profit_and_loss_def
    by (simp add: outcome_simps validated_accounts_Ok_iff as_def [symmetric] general_ledger_Ok_iff [OF l]
        Let_def sec f append_rows profit_and_loss_fits_def profit_and_loss_rows_def net_of_sections_def)
      blast
qed

text \<open>The result of a period is minus the sum of its profit-and-loss postings.\<close>

definition charged :: "ledger \<Rightarrow> (account \<Rightarrow> bool) \<Rightarrow> posting \<Rightarrow> bool" where
  "charged l Q p = (case bt_get (led_accounts l) (post_account p) of Some a \<Rightarrow> Q a | None \<Rightarrow> False)"

lemma posted_by_account:
  assumes l: "ledger_ok l"
  shows "(\<Sum>a\<leftarrow>filter Q (bt_values (led_accounts l)). posted l d (\<lambda>p. post_account p = acc_id a \<and> R p))
       = posted l d (\<lambda>p. R p \<and> charged l Q p)"
proof -
  let ?as = "bt_values (led_accounts l)"
  let ?ps = "filter (\<lambda>p. current_upto d p \<and> R p \<and> charged l Q p) (led_postings l)"
  have own: "(\<Sum>p\<leftarrow>filter (\<lambda>p. post_account p = acc_id a) ?ps. sint (post_signed p))
      = (if Q a then posted l d (\<lambda>p. post_account p = acc_id a \<and> R p) else 0)" if "a \<in> set ?as" for a
  proof -
    have "bt_get (led_accounts l) (acc_id a) = Some a"
      using that values_get [OF ledger_ok_chart [OF l]] by blast
    then have "filter (\<lambda>p. post_account p = acc_id a) ?ps
        = (if Q a then filter (\<lambda>p. current_upto d p \<and> post_account p = acc_id a \<and> R p) (led_postings l) else [])"
      by (auto simp: charged_def filter_empty_conv intro!: filter_cong)
    then show ?thesis by (simp add: posted_def)
  qed
  have "posted l d (\<lambda>p. R p \<and> charged l Q p) = (\<Sum>p\<leftarrow>?ps. sint (post_signed p))"
    by (simp add: posted_def)
  also have "\<dots> = (\<Sum>k\<leftarrow>map acc_id ?as. \<Sum>p\<leftarrow>filter (\<lambda>p. post_account p = k) ?ps. sint (post_signed p))"
    using ledger_ok_accounts_known [OF l] chart_ids [OF ledger_ok_chart [OF l]]
    by (intro sum_list_by_key [symmetric] chart_ids_distinct ledger_ok_chart [OF l])
      (auto simp: bt_keys_def)
  also have "\<dots> = (\<Sum>a\<leftarrow>?as. if Q a then posted l d (\<lambda>p. post_account p = acc_id a \<and> R p) else 0)"
    unfolding map_map by (rule arg_cong [where f = sum_list], rule map_cong) (simp_all only: o_apply own)
  also have "\<dots> = (\<Sum>a\<leftarrow>filter Q ?as. posted l d (\<lambda>p. post_account p = acc_id a \<and> R p))"
    by (simp add: sum_list_map_filter')
  finally show ?thesis by simp
qed

lemma net_of_sections_period:
  assumes l: "ledger_ok l" and cl: "\<forall>a \<in> set (bt_values (led_accounts l)). classified a"
    and f: "\<And>a. a \<in> set (bt_values (led_accounts l)) \<Longrightarrow> is_profit_and_loss (acc_type a) \<Longrightarrow>
      f a = period_balance l from_date through a"
  shows "net_of_sections f (bt_values (led_accounts l)) = - period_result l from_date through"
proof -
  let ?PL = "\<lambda>a. is_profit_and_loss (acc_type a)"
  have "net_of_sections f (bt_values (led_accounts l))
      = - (\<Sum>a\<leftarrow>filter ?PL (bt_values (led_accounts l)). period_balance l from_date through a)"
    unfolding net_of_sections_sum [OF cl]
    by (rule arg_cong [where f = "\<lambda>xs. - sum_list xs"], rule map_cong) (auto simp: f)
  also have "\<dots> = - period_result l from_date through"
    unfolding period_balance_def posted_by_account [OF l] period_result_def posting_is_profit_and_loss_def charged_def
    by (rule refl)
  finally show ?thesis .
qed

section \<open>Balance Sheet in closed form\<close>

lemma balance_sheet_fold_get:
  "k \<notin> (\<lambda>r. acc_id (row_account r)) ` set rows \<Longrightarrow>
   bt_get (fst (fold balance_sheet_step rows (b, i))) k = bt_get b k"
  by (induction rows arbitrary: b i) (auto simp: balance_sheet_step_def Let_def bt_get_insert)

lemma balance_sheet_fold_income:
  "snd (fold balance_sheet_step rows (b, i)) =
     i - (\<Sum>r\<leftarrow>filter (\<lambda>r. is_profit_and_loss (acc_type (row_account r))) rows. sint (row_signed r))"
  by (induction rows arbitrary: b i) (auto simp: balance_sheet_step_def Let_def)

lemma row_account_exact [simp]: "row_account (exact_row a v) = a"
  by (simp add: exact_row_def)

definition shown_rows :: "trial_balance_options \<Rightarrow> (account \<Rightarrow> int) \<Rightarrow> account list \<Rightarrow> trial_balance_row list" where
  "shown_rows options f as = map (\<lambda>a. exact_row a (f a)) (filter (\<lambda>a. shown options (f a)) as)"

lemma balance_sheet_balances:
  assumes "distinct (map acc_id as)" and "\<forall>a \<in> set as. fits_column (f a)"
    and "\<forall>a \<in> set as. bt_get b (acc_id a) = None"
    and "a \<in> set as" and "\<not> is_profit_and_loss (acc_type a)"
  shows "bt_total (fst (fold balance_sheet_step (shown_rows options f as) (b, i))) (acc_id a) = f a"
  using assms
proof (induction as arbitrary: b i)
  case (Cons c as)
  define r where "r = exact_row c (f c)"
  have sint: "sint (row_signed r) = f c" using Cons.prems by (simp add: r_def sint_exact_row)
  show ?case
  proof (cases "a = c")
    case True
    have "acc_id c \<notin> (\<lambda>r. acc_id (row_account r)) ` set (shown_rows options f as)"
      using Cons.prems by (auto simp: shown_rows_def)
    note rest = balance_sheet_fold_get [OF this]
    show ?thesis
    proof (cases "shown options (f c)")
      case shown: True
      have "balance_sheet_step r (b, i) = (bt_insert (acc_id c) (f c) b, i)"
        using True Cons.prems sint by (simp add: balance_sheet_step_def Let_def r_def)
      with True shown rest [of "bt_insert (acc_id c) (f c) b" i] show ?thesis
        by (simp add: shown_rows_def r_def bt_total_def bt_get_insert)
    next
      case False
      with True Cons.prems rest show ?thesis
        by (simp add: shown_rows_def bt_total_def) (simp add: shown_def)
    qed
  next
    case False
    then have a: "a \<in> set as" using Cons.prems by simp
    obtain b' i' where s: "balance_sheet_step r (b, i) = (b', i')" by fastforce
    then have "b' = b \<or> b' = bt_insert (acc_id c) (f c) b"
      using sint by (auto simp: balance_sheet_step_def Let_def r_def split: if_splits)
    moreover have "acc_id x \<noteq> acc_id c" if "x \<in> set as" for x
      using Cons.prems(1) imageI [OF that, of acc_id] by auto
    ultimately have "\<forall>x \<in> set as. bt_get b' (acc_id x) = None"
      using Cons.prems(3) by (auto simp: bt_get_insert)
    then show ?thesis
      using Cons.IH [of b' i'] Cons.IH [of b i] Cons.prems a s
      by (simp add: shown_rows_def r_def)
  qed
qed simp

lemma balance_sheet_income:
  assumes "\<forall>a \<in> set as. fits_column (f a)"
  shows "snd (fold balance_sheet_step (shown_rows options f as) (b, 0))
       = - (\<Sum>a\<leftarrow>filter (\<lambda>a. is_profit_and_loss (acc_type a)) as. f a)"
proof -
  have "(\<Sum>r\<leftarrow>filter (\<lambda>r. is_profit_and_loss (acc_type (row_account r))) (shown_rows options f as).
      sint (row_signed r)) = (\<Sum>a\<leftarrow>filter (\<lambda>a. is_profit_and_loss (acc_type a)) as. f a)"
    using assms by (induction as) (auto simp: shown_rows_def sint_exact_row shown_def)
  then show ?thesis by (simp add: balance_sheet_fold_income)
qed

definition balance_sheet_rows ::
    "trial_balance_options \<Rightarrow> (account \<Rightarrow> int) \<Rightarrow> account list \<Rightarrow> statement_row list" where
  "balance_sheet_rows options f as =
     (let t = (\<lambda>sec. section_total f sec as); rows = (\<lambda>sec. section_rows options f sec as);
          current = net_of_sections f as in
      rows ''assets'' @ [derived_row ''subtotal'' ''assets'' ''total_assets'' ''Total Assets'' (t ''assets'')]
    @ rows ''liabilities'' @
      [derived_row ''subtotal'' ''liabilities'' ''total_liabilities'' ''Total Liabilities'' (t ''liabilities'')]
    @ rows ''equity'' @
      [derived_row ''calculated'' ''equity'' ''current_year_net_income'' ''Current Year Net Income'' current,
       derived_row ''subtotal'' ''equity'' ''total_equity'' ''Total Equity'' (t ''equity'' + current),
       derived_row ''subtotal'' ''liabilities_and_equity'' ''total_liabilities_and_equity''
         ''Total Liabilities and Equity'' (t ''liabilities'' + t ''equity'' + current)])"

definition balance_sheet_fits :: "(account \<Rightarrow> int) \<Rightarrow> account list \<Rightarrow> bool" where
  "balance_sheet_fits f as \<longleftrightarrow>
     (\<forall>sec \<in> {''assets'', ''liabilities'', ''equity''}. section_fits f sec as)
     \<and> (\<forall>sec \<in> {''assets'', ''liabilities''}. amount_fits (section_total f sec as))
     \<and> amount_fits (net_of_sections f as)
     \<and> amount_fits (section_total f ''equity'' as + net_of_sections f as)
     \<and> amount_fits (section_total f ''liabilities'' as + section_total f ''equity'' as + net_of_sections f as)"

lemma balance_sections_classified:
  assumes "classified a" and "section_name a \<in> {''assets'', ''liabilities'', ''equity''}"
  shows "\<not> is_profit_and_loss (acc_type a)"
proof -
  obtain c where "acc_classification a = Some c" "acc_type a = trial_balance_type c"
    using assms(1) by (rule classified_cases)
  with assms(2) show ?thesis by (cases c) (simp_all add: section_name_def section_for_def)
qed

text \<open>The amounts of a balanced chart satisfy the accounting equation.\<close>

lemma accounting_equation:
  assumes "\<forall>a \<in> set as. classified a" and "(\<Sum>a\<leftarrow>as. f a) = 0"
  shows "section_total f ''assets'' as
       = section_total f ''liabilities'' as + section_total f ''equity'' as + net_of_sections f as"
  using equation_sections_sum [OF assms(1), of f] net_of_sections_sum [OF assms(1), of f]
    sum_list_filter_disj [of f "\<lambda>a. is_profit_and_loss (acc_type a)" as] assms(2)
  by simp

lemma accrual_presentation_sum:
  assumes l: "ledger_ok l" and "reportable l d"
    and re: "bt_get (led_accounts l) (pol_retained_earnings policy) = Some r" "acc_type r = Equity"
  shows "(\<Sum>a\<leftarrow>bt_values (led_accounts l). accrual_presentation l d policy a) = 0"
proof -
  let ?es = "sort_key entry_key (report_entries l d)"
  have "(\<Sum>a\<leftarrow>bt_values (led_accounts l). accrual_presentation l d policy a)
      = (\<Sum>a\<leftarrow>bt_values (led_accounts l). bt_total (fold (accrual_step policy) ?es []) (acc_id a))"
    using accrual_total_presentation [OF l _ re, of _ d]
    by (intro arg_cong [where f = sum_list] map_cong) (auto simp: accrual_total [OF l])
  also have "\<dots> = (\<Sum>e\<leftarrow>?es. entry_amount e)"
    by (rule accrual_fold_sum [OF l re(1)])
  also have "\<dots> = 0" using assms(2) by (rule report_sum)
  finally show ?thesis .
qed

lemma balance_report_rows: "tb_rows (balance_report l d options f) = shown_rows options f (bt_values (led_accounts l))"
  by (simp add: balance_report_def shown_rows_def)

text \<open>What the loop over the Trial Balance rows hands to the sections.\<close>

lemma balance_sheet_state:
  fixes d policy
  assumes l: "ledger_ok l"
  defines "as \<equiv> bt_values (led_accounts l)" and "f \<equiv> accrual_presentation l d policy"
  assumes cl: "\<forall>a \<in> set as. classified a"
    and tb: "quickbooks_accrual_trial_balance_as_of l d options policy = Ok tb"
  obtains b where "fold balance_sheet_step (tb_rows tb) ([], 0) = (b, net_of_sections f as)"
    and "\<forall>a \<in> set (in_section ''assets'' as). bt_total b (acc_id a) = f a"
    and "\<forall>a \<in> set (in_section ''liabilities'' as). bt_total b (acc_id a) = f a"
    and "\<forall>a \<in> set (in_section ''equity'' as). bt_total b (acc_id a) = f a"
    and "section_total f ''assets'' as
       = section_total f ''liabilities'' as + section_total f ''equity'' as + net_of_sections f as"
proof -
  have fits: "\<forall>a \<in> set as. fits_column (f a)" and rows: "tb_rows tb = shown_rows options f as"
    using tb by (auto simp: accrual_trial_balance_Ok_iff [OF l] as_def f_def balance_report_rows)
  have zero: "(\<Sum>a\<leftarrow>as. f a) = 0"
    using tb accrual_presentation_sum [OF l]
    by (auto simp: accrual_trial_balance_Ok_iff [OF l] as_def f_def)
  have ids: "distinct (map acc_id as)"
    unfolding as_def by (rule chart_ids_distinct [OF ledger_ok_chart [OF l]])
  obtain b i where st: "fold balance_sheet_step (shown_rows options f as) ([], 0) = (b, i)" by fastforce
  have i: "i = net_of_sections f as"
    using balance_sheet_income [OF fits, of options "[]"] st by (simp add: net_of_sections_sum [OF cl])
  have total: "\<forall>a \<in> set (in_section sec as). bt_total b (acc_id a) = f a"
    if sec: "sec \<in> {''assets'', ''liabilities'', ''equity''}" for sec
  proof
    fix a assume "a \<in> set (in_section sec as)"
    then have a: "a \<in> set as" and "section_name a = sec" by (simp_all add: in_section_def)
    moreover have "classified a" using cl a by (rule bspec)
    ultimately have "\<not> is_profit_and_loss (acc_type a)"
      using sec by (intro balance_sections_classified) simp_all
    from balance_sheet_balances [OF ids fits _ a this, of "[]" options 0]
    show "bt_total b (acc_id a) = f a" by (simp add: st)
  qed
  show thesis
    by (rule that [of b]; (rule total)?) (simp_all add: rows st i accounting_equation [OF cl zero])
qed

lemma balance_sheet_Ok_iff:
  assumes l: "ledger_ok l"
  defines "as \<equiv> bt_values (led_accounts l)"
  shows "balance_sheet_as_of l d options policy = Ok st \<longleftrightarrow>
    (\<forall>a \<in> set as. classified a)
    \<and> (\<exists>tb. quickbooks_accrual_trial_balance_as_of l d options policy = Ok tb)
    \<and> balance_sheet_fits (accrual_presentation l d policy) as
    \<and> st = \<lparr>st_kind = BalanceSheet, st_from = None, st_as_of = d, st_policy = Some policy,
            st_accounts = as, st_rows = balance_sheet_rows options (accrual_presentation l d policy) as\<rparr>"
proof (cases "(\<forall>a \<in> set as. classified a) \<and> (\<exists>tb. quickbooks_accrual_trial_balance_as_of l d options policy = Ok tb)")
  case False
  then show ?thesis
    by (auto simp: balance_sheet_as_of_def outcome_simps validated_accounts_Ok_iff as_def)
next
  case True
  let ?f = "accrual_presentation l d policy"
  from True obtain tb where cl: "\<forall>a \<in> set as. classified a"
    and tb: "quickbooks_accrual_trial_balance_as_of l d options policy = Ok tb" by blast
  obtain b where b: "fold balance_sheet_step (tb_rows tb) ([], 0) = (b, net_of_sections ?f as)"
    "\<forall>a \<in> set (in_section ''assets'' as). bt_total b (acc_id a) = ?f a"
    "\<forall>a \<in> set (in_section ''liabilities'' as). bt_total b (acc_id a) = ?f a"
    "\<forall>a \<in> set (in_section ''equity'' as). bt_total b (acc_id a) = ?f a"
    "section_total ?f ''assets'' as
       = section_total ?f ''liabilities'' as + section_total ?f ''equity'' as + net_of_sections ?f as"
    using balance_sheet_state [OF l cl [unfolded as_def] tb, folded as_def] by blast
  note sec = append_section_Ok_iff [where f = ?f and b = b]
  show ?thesis
    unfolding balance_sheet_as_of_def
    by (simp add: outcome_simps validated_accounts_Ok_iff as_def [symmetric] b Let_def sec append_rows
        balance_sheet_fits_def balance_sheet_rows_def tb cl)
      blast
qed

section \<open>How a statement can fail\<close>

text \<open>
  The errors of the row builders: only an amount that does not fit. With it, the last test of the
  Balance Sheet is unreachable, and so is the \<open>unreachable!\<close> of \<open>section_for\<close>.
\<close>

lemma exact_amount_Err: "exact_amount v = Err e \<Longrightarrow> e = AmountOverflow"
  by (auto simp: exact_amount_def outcome_simps)

lemma section_loop_Err:
  "\<forall>a \<in> set as. classified a \<Longrightarrow> section_loop b sec options as t rows = Err e \<Longrightarrow> e = AmountOverflow"
  by (induction as arbitrary: t rows)
    (auto simp: section_for_classified Let_def outcome_simps exact_amount_Err split: if_splits)

lemma append_Err:
  "\<forall>a \<in> set (st_accounts r). classified a \<Longrightarrow> append_section r b sec options = Err e \<Longrightarrow> e = AmountOverflow"
  "append_total r sec key label v = Err e \<Longrightarrow> e = AmountOverflow"
  "append_calculated r sec key label v = Err e \<Longrightarrow> e = AmountOverflow"
  by (auto simp: append_section_def append_total_def append_calculated_def append_derived_def
      outcome_simps dest: section_loop_Err exact_amount_Err)

lemma append_not_unbalanced:
  "\<forall>a \<in> set (st_accounts r). classified a \<Longrightarrow> append_section r b sec options \<noteq> Err UnbalancedBalanceSheet"
  "append_total r sec key label v \<noteq> Err UnbalancedBalanceSheet"
  "append_calculated r sec key label v \<noteq> Err UnbalancedBalanceSheet"
  using append_Err by blast+

lemma append_keeps_accounts:
  "append_section r b sec options = Ok (r', t) \<Longrightarrow> st_accounts r' = st_accounts r"
  "append_total r sec key label v = Ok r' \<Longrightarrow> st_accounts r' = st_accounts r"
  "append_calculated r sec key label v = Ok r' \<Longrightarrow> st_accounts r' = st_accounts r"
  by (auto simp: append_section_def append_rows outcome_simps)

lemma validated_accounts_no_panic: "validated_accounts l \<noteq> Panic"
proof -
  have "rmap validate_account xs \<noteq> Panic" for xs
    by (induction xs) (auto simp: outcome_simps validate_account_no_panic)
  then show ?thesis by (simp add: validated_accounts_def)
qed

lemma validated_accounts_Err: "validated_accounts l = Err e \<Longrightarrow> e \<noteq> UnbalancedBalanceSheet"
proof -
  have "rmap validate_account xs = Err e \<Longrightarrow> e \<noteq> UnbalancedBalanceSheet" for xs
    by (induction xs) (auto simp: outcome_simps validate_account_def split: if_splits)
  then show "validated_accounts l = Err e \<Longrightarrow> e \<noteq> UnbalancedBalanceSheet"
    by (simp add: validated_accounts_def)
qed

lemma accrual_trial_balance_no_panic:
  "ledger_ok l \<Longrightarrow> quickbooks_accrual_trial_balance_as_of l d options policy \<noteq> Panic"
  by (auto simp: quickbooks_accrual_trial_balance_as_of_def outcome_simps general_ledger_no_panic
      trial_balance_from_balances_no_panic)

lemma profit_and_loss_total: "ledger_ok l \<Longrightarrow> profit_and_loss l from_date through options \<noteq> Panic"
  by (auto simp: profit_and_loss_def outcome_simps validated_accounts_no_panic general_ledger_no_panic
      validated_accounts_Ok_iff Let_def append_no_panic append_keeps_accounts)

lemma balance_sheet_total: "ledger_ok l \<Longrightarrow> balance_sheet_as_of l d options policy \<noteq> Panic"
  by (auto simp: balance_sheet_as_of_def outcome_simps validated_accounts_no_panic
      accrual_trial_balance_no_panic validated_accounts_Ok_iff Let_def append_no_panic
      append_keeps_accounts split: prod.splits)

lemma balance_sheet_never_unbalanced:
  assumes l: "ledger_ok l"
  shows "balance_sheet_as_of l d options policy \<noteq> Err UnbalancedBalanceSheet"
proof (cases "(\<forall>a \<in> set (bt_values (led_accounts l)). classified a)
    \<and> (\<exists>tb. quickbooks_accrual_trial_balance_as_of l d options policy = Ok tb)")
  case False
  then show ?thesis
    by (auto simp: balance_sheet_as_of_def outcome_simps validated_accounts_Ok_iff
        dest: validated_accounts_Err)
next
  case True
  let ?f = "accrual_presentation l d policy" and ?as = "bt_values (led_accounts l)"
  from True obtain tb where cl: "\<forall>a \<in> set ?as. classified a"
    and tb: "quickbooks_accrual_trial_balance_as_of l d options policy = Ok tb" by blast
  obtain b where b: "fold balance_sheet_step (tb_rows tb) ([], 0) = (b, net_of_sections ?f ?as)"
    "\<forall>a \<in> set (in_section ''assets'' ?as). bt_total b (acc_id a) = ?f a"
    "\<forall>a \<in> set (in_section ''liabilities'' ?as). bt_total b (acc_id a) = ?f a"
    "\<forall>a \<in> set (in_section ''equity'' ?as). bt_total b (acc_id a) = ?f a"
    "section_total ?f ''assets'' ?as
       = section_total ?f ''liabilities'' ?as + section_total ?f ''equity'' ?as + net_of_sections ?f ?as"
    using balance_sheet_state [OF l cl tb] by blast
  note sec = append_section_Ok_iff [where f = ?f and b = b]
  have "validated_accounts l = Ok ?as" using cl by (simp add: validated_accounts_Ok_iff)
  then show ?thesis
    unfolding balance_sheet_as_of_def
    by (simp add: outcome_simps b Let_def sec append_rows
        append_not_unbalanced [unfolded append_total_def append_calculated_def] tb cl)
qed

section \<open>Reading a statement\<close>

text \<open>The amount of the first row with a given key, as a reader of the report looks it up.\<close>

definition statement_amount :: "financial_statement \<Rightarrow> string \<Rightarrow> int option" where
  "statement_amount st key =
     map_option (\<lambda>r. sint (srow_amount r)) (find (\<lambda>r. srow_key r = key) (st_rows st))"

lemma find_append: "find P (xs @ ys) = (case find P xs of None \<Rightarrow> find P ys | Some x \<Rightarrow> Some x)"
  by (induction xs) auto

lemma find_section_rows:
  "take 1 key \<noteq> ''a'' \<Longrightarrow> find (\<lambda>r. srow_key r = key) (section_rows options f sec as) = None"
  by (auto simp: section_rows_def account_row_def find_None_iff)

lemma derived_row_simps [simp]:
  "srow_key (derived_row kind sec key label v) = key"
  "srow_amount (derived_row kind sec key label v) = word_of_int v"
  by (simp_all add: derived_row_def)

lemma sint_amount_fits: "amount_fits v \<Longrightarrow> sint (word_of_int v :: i64) = v"
  by (simp add: amount_fits_def sint_word_of_int_range)

lemma profit_and_loss_net_income:
  "profit_and_loss_fits f as \<Longrightarrow>
   statement_amount \<lparr>st_kind = k, st_from = fr, st_as_of = d, st_policy = p, st_accounts = acs,
     st_rows = profit_and_loss_rows options f as\<rparr> ''net_income'' = Some (net_of_sections f as)"
  by (simp add: statement_amount_def profit_and_loss_rows_def Let_def find_append find_section_rows
      profit_and_loss_fits_def sint_amount_fits)

lemma balance_sheet_amounts:
  fixes d p options
  assumes "balance_sheet_fits f as"
  defines "st \<equiv> \<lparr>st_kind = BalanceSheet, st_from = None, st_as_of = d, st_policy = p, st_accounts = as,
      st_rows = balance_sheet_rows options f as\<rparr>"
  shows "statement_amount st ''total_assets'' = Some (section_total f ''assets'' as)"
    and "statement_amount st ''current_year_net_income'' = Some (net_of_sections f as)"
    and "statement_amount st ''total_liabilities_and_equity''
       = Some (section_total f ''liabilities'' as + section_total f ''equity'' as + net_of_sections f as)"
  using assms(1) unfolding st_def
  by (simp_all add: statement_amount_def balance_sheet_rows_def Let_def find_append find_section_rows
      balance_sheet_fits_def sint_amount_fits del: of_int_add)

lemma period_result_split:
  assumes "f \<le> m" and "m < t"
  shows "period_result l f t = period_result l f m + period_result l (m + 1) t"
proof -
  have "period_result l f m = posted l t (\<lambda>p. (f \<le> post_date p \<and> post_date p \<le> m) \<and> posting_is_profit_and_loss l p)"
    using assms unfolding period_result_def posted_def
    by (intro arg_cong [where f = "\<lambda>ps. \<Sum>p\<leftarrow>ps. sint (post_signed p)"] filter_cong) (auto simp: current_upto_def)
  moreover have "period_result l f t = posted l t (\<lambda>p. ((f \<le> post_date p \<and> post_date p \<le> m) \<and> posting_is_profit_and_loss l p)
      \<or> (m + 1 \<le> post_date p \<and> posting_is_profit_and_loss l p))"
    using assms unfolding period_result_def posted_def
    by (intro arg_cong [where f = "\<lambda>ps. \<Sum>p\<leftarrow>ps. sint (post_signed p)"] filter_cong) auto
  ultimately show ?thesis
    unfolding period_result_def [of l "m + 1"] by (simp add: posted_disjoint)
qed

section \<open>Totals of a balanced report\<close>

lemma totals_of_exact_rows:
  assumes "\<forall>a \<in> set as. fits_column (f a)"
  shows "(\<Sum>d\<leftarrow>List.map_filter row_debit (map (\<lambda>a. exact_row a (f a)) as). sint d)
       - (\<Sum>c\<leftarrow>List.map_filter row_credit (map (\<lambda>a. exact_row a (f a)) as). sint c) = (\<Sum>a\<leftarrow>as. f a)"
  using assms
proof (induction as)
  case (Cons a as)
  have fits: "- (2 ^ 63) < f a" "f a < 2 ^ 63" using Cons.prems by (simp_all add: fits_column_def abs_less_iff)
  have "sint (word_of_int (f a) :: i64) = f a" and "sint (- word_of_int (f a) :: i64) = - f a" if "f a \<noteq> 0"
    using fits sint_word_of_int_range [of "f a", where 'a = 64] sint_word_of_int_range [of "- f a", where 'a = 64]
    by simp_all
  with Cons show ?case by (auto simp: exact_row_def List.map_filter_simps)
qed (simp add: List.map_filter_simps)

lemma balance_report_totals:
  assumes "\<forall>a \<in> set (bt_values (led_accounts l)). fits_column (f a)"
    and "(\<Sum>a\<leftarrow>bt_values (led_accounts l). f a) = 0"
  shows "total_debit_minor_units (balance_report l d options f) = total_credit_minor_units (balance_report l d options f)"
proof -
  have "(\<Sum>a\<leftarrow>filter (\<lambda>a. shown options (f a)) as. f a) = (\<Sum>a\<leftarrow>as. f a)" for as
    by (induction as) (auto simp: shown_def)
  then show ?thesis
    using totals_of_exact_rows [of "filter (\<lambda>a. shown options (f a)) (bt_values (led_accounts l))" f] assms
    by (simp add: balance_report_def total_debit_minor_units_def total_credit_minor_units_def)
qed

lemma account_balance_sum:
  assumes "ledger_ok l" and "reportable l d"
  shows "(\<Sum>a\<leftarrow>bt_values (led_accounts l). account_balance l d a) = 0"
proof -
  have "(\<Sum>a\<leftarrow>filter (\<lambda>_. True) (bt_values (led_accounts l)). posted l d (\<lambda>p. post_account p = acc_id a \<and> True))
      = posted l d (\<lambda>p. True \<and> charged l (\<lambda>_. True) p)"
    by (rule posted_by_account [OF assms(1)])
  moreover have "charged l (\<lambda>_. True) p" if "p \<in> set (led_postings l)" for p
    using that ledger_ok_accounts_known [OF assms(1)] bt_get_None_iff [of "led_accounts l" "post_account p"]
    by (auto simp: charged_def split: option.split)
  then have "posted l d (\<lambda>p. True \<and> charged l (\<lambda>_. True) p) = posted l d (\<lambda>_. True)"
    by (intro posted_cong) simp
  ultimately show ?thesis
    using transactions_balance_total [of l d] assms(2) by (simp add: account_balance_def reportable_def)
qed

end
