(* ===== verification/QuickBooks_Values.thy ===== *)
theory QuickBooks_Values
  imports Codec
begin

unbundle bit_operations_syntax

text \<open>
  The fixed-width disk values of QuickBooks records: the day counter of
  \<open>crates/openqbw/src/date.rs\<close>, \<open>DateType32\<close> (\<open>quickbooks_date.rs\<close>) and
  \<open>BalTypeLegacy_6Bytes\<close> (\<open>quickbooks_balance.rs\<close>). The two disk codecs are instances of
  \<open>fixed_codec\<close>.
\<close>

section \<open>SA-days\<close>

text \<open>Machine arithmetic wraps; \<open>v as u32\<close> keeps the low 32 bits.\<close>

definition sa_day_to_unix_day :: "u32 \<Rightarrow> i64 option" where
  "sa_day_to_unix_day sa_day =
     (if \<not> (1 \<le> unat sa_day \<and> unat sa_day \<le> 80000) then None
      else Some (word_of_int (uint sa_day) - 4017))"

definition unix_day_to_sa_day :: "i64 \<Rightarrow> u32 option" where
  "unix_day_to_sa_day unix_day =
     (let v = unix_day + 4017 in
      if \<not> (1 \<le> sint v \<and> sint v \<le> 80000) then None else Some (word_of_int (sint v)))"

definition sa_day_to_unix_seconds :: "u32 \<Rightarrow> i64 option" where
  "sa_day_to_unix_seconds sa_day = map_option (\<lambda>d. d * 86400) (sa_day_to_unix_day sa_day)"

lemma sint_shifted_day:
  assumes "0 \<le> v" and "v \<le> 80000"
  shows "sint (word_of_int v - 4017 :: i64) = v - 4017" and "sint (word_of_int v :: i64) = v"
proof -
  have "(word_of_int v - 4017 :: i64) = word_of_int (v - 4017)" by simp
  then show "sint (word_of_int v - 4017 :: i64) = v - 4017"
    using assms by (simp only:) (rule sint_word_of_int_range, auto)
  show "sint (word_of_int v :: i64) = v"
    using assms by (intro sint_word_of_int_range) auto
qed

lemma uint_day_le: "unat (s :: u32) \<le> 80000 \<Longrightarrow> uint s \<le> 80000"
  using of_nat_le_iff [of "unat s" 80000, where 'a = int] by simp

lemma sa_day_to_unix_day_Some_iff:
  "sa_day_to_unix_day s = Some u \<longleftrightarrow> 1 \<le> unat s \<and> unat s \<le> 80000 \<and> sint u = int (unat s) - 4017"
proof -
  have "sint (word_of_int (uint s) - 4017 :: i64) = int (unat s) - 4017" if "unat s \<le> 80000"
  proof -
    show ?thesis using sint_shifted_day(1) [OF _ uint_day_le [OF that]] by simp
  qed
  then show ?thesis
    by (auto simp: sa_day_to_unix_day_def intro: sint_eqI)
qed

lemma unix_day_to_sa_day_Some_iff:
  "unix_day_to_sa_day u = Some s \<longleftrightarrow> 1 \<le> unat s \<and> unat s \<le> 80000 \<and> sint u = int (unat s) - 4017"
proof
  assume some: "unix_day_to_sa_day u = Some s"
  define v where "v = sint (u + 4017)"
  have v: "1 \<le> v" "v \<le> 80000" and s: "s = word_of_int v"
    using some by (auto simp: unix_day_to_sa_day_def Let_def v_def split: if_splits)
  have "uint s = v"
    unfolding s using v by (simp add: uint_word_of_int)
  moreover have "sint u = v - 4017"
    using sint_shifted_day(1) [of v] v by (simp add: v_def)
  ultimately show "1 \<le> unat s \<and> unat s \<le> 80000 \<and> sint u = int (unat s) - 4017"
    using v unfolding unat_eq_nat_uint by (simp add: nat_le_iff le_nat_iff)
next
  assume *: "1 \<le> unat s \<and> unat s \<le> 80000 \<and> sint u = int (unat s) - 4017"
  have "u + 4017 = word_of_int (sint u) + 4017" by simp
  also have "\<dots> = word_of_int (int (unat s))" using * by simp
  finally have "sint (u + 4017) = int (unat s)"
    using * sint_shifted_day(2) [OF _ uint_day_le [of s]] by simp
  moreover have "1 \<le> uint s"
    using * of_nat_le_iff [of 1 "unat s", where 'a = int] by simp
  ultimately show "unix_day_to_sa_day u = Some s"
    using * uint_day_le [of s] by (simp add: unix_day_to_sa_day_def Let_def)
qed

section \<open>DateType32\<close>

record qb_date =
  qb_year :: u16
  qb_month :: u8
  qb_day :: u8

datatype qb_date_error =
    ZeroYear
  | InvalidMonth u8
  | InvalidDay u16 u8 u8

definition qb_is_leap_year :: "u16 \<Rightarrow> bool" where
  "qb_is_leap_year year \<longleftrightarrow>
     (unat year mod 4 = 0 \<and> unat year mod 100 \<noteq> 0) \<or> unat year mod 400 = 0"

definition qb_days_in_month :: "u16 \<Rightarrow> u8 \<Rightarrow> u8" where
  "qb_days_in_month year month =
     (if month \<in> {1, 3, 5, 7, 8, 10, 12} then 31
      else if month \<in> {4, 6, 9, 11} then 30
      else if month = 2 \<and> qb_is_leap_year year then 29
      else if month = 2 then 28
      else 0)"

definition validate_components :: "u16 \<Rightarrow> u8 \<Rightarrow> u8 \<Rightarrow> (qb_date_error, unit) outcome" where
  "validate_components year month day =
     (if year = 0 then Err ZeroYear
      else if \<not> (1 \<le> month \<and> month \<le> 12) then Err (InvalidMonth month)
      else if day = 0 \<or> qb_days_in_month year month < day then Err (InvalidDay year month day)
      else Ok ())"

definition qb_date_new :: "u16 \<Rightarrow> u8 \<Rightarrow> u8 \<Rightarrow> (qb_date_error, qb_date) outcome" where
  "qb_date_new year month day =
     rbind (validate_components year month day) (\<lambda>_.
       Ok \<lparr>qb_year = year, qb_month = month, qb_day = day\<rparr>)"

definition qb_date_from_disk_bytes :: "byte list \<Rightarrow> (qb_date_error, qb_date option) outcome" where
  "qb_date_from_disk_bytes bytes =
     (case bytes of
        [b0, b1, b2, b3] \<Rightarrow>
          if bytes = [0, 0, 0, 0] then Ok None
          else rbind (qb_date_new (from_be_bytes [b0, b1]) b2 b3) (\<lambda>d. Ok (Some d))
      | _ \<Rightarrow> Panic)"

definition qb_date_to_disk_bytes :: "qb_date \<Rightarrow> byte list" where
  "qb_date_to_disk_bytes d = to_be_bytes (qb_year d) @ [qb_month d, qb_day d]"

text \<open>The all-zero bytes stand for the missing date.\<close>

definition qb_date_disk_form :: "qb_date option \<Rightarrow> byte list" where
  "qb_date_disk_form x = (case x of None \<Rightarrow> [0, 0, 0, 0] | Some d \<Rightarrow> qb_date_to_disk_bytes d)"

definition qb_date_ok :: "qb_date \<Rightarrow> bool" where
  "qb_date_ok d \<longleftrightarrow>
     qb_year d \<noteq> 0 \<and> 1 \<le> qb_month d \<and> qb_month d \<le> 12 \<and> 1 \<le> qb_day d
     \<and> qb_day d \<le> qb_days_in_month (qb_year d) (qb_month d)"

lemma qb_date_new_Ok_iff:
  "qb_date_new y m dd = Ok d \<longleftrightarrow> d = \<lparr>qb_year = y, qb_month = m, qb_day = dd\<rparr> \<and> qb_date_ok d"
proof -
  have "1 \<le> dd \<longleftrightarrow> dd \<noteq> 0"
    using unat_eq_zero [of dd] by (cases "unat dd") (auto simp: word_le_nat_alt)
  then show ?thesis
    by (auto simp: qb_date_new_def validate_components_def qb_date_ok_def outcome_simps not_less)
qed

lemma two_bytes: "length bs = 2 \<Longrightarrow> \<exists>a b. bs = [a, b]"
  by (auto simp: length_Suc_conv numeral_2_eq_2)

interpretation quickbooks_date:
  fixed_codec qb_date_disk_form qb_date_from_disk_bytes "\<lambda>x. case x of None \<Rightarrow> True | Some d \<Rightarrow> qb_date_ok d" 4
proof
  fix v :: "qb_date option"
  assume v: "case v of None \<Rightarrow> True | Some d \<Rightarrow> qb_date_ok d"
  show "qb_date_from_disk_bytes (qb_date_disk_form v) = Ok v"
  proof (cases v)
    case (Some d)
    obtain y m dd where d: "d = \<lparr>qb_year = y, qb_month = m, qb_day = dd\<rparr>" by (cases d)
    obtain a b where ab: "to_be_bytes (qb_year d) = [a, b]"
      using two_bytes [of "to_be_bytes (qb_year d)"] by auto
    have y: "from_be_bytes [a, b] = qb_year d"
      using from_to_be_bytes [of "qb_year d"] by (simp add: ab)
    have "[a, b] \<noteq> [0, 0]"
    proof
      assume "[a, b] = [0, 0]"
      with y have "qb_year d = 0" by (simp add: codec_simps)
      with v Some show False by (simp add: qb_date_ok_def)
    qed
    with v Some ab y d show ?thesis
      by (auto simp: qb_date_disk_form_def qb_date_to_disk_bytes_def qb_date_from_disk_bytes_def
          outcome_simps qb_date_new_Ok_iff)
  qed (simp add: qb_date_disk_form_def qb_date_from_disk_bytes_def)
next
  fix bs and v :: "qb_date option"
  assume "qb_date_from_disk_bytes bs = Ok v"
  then show "qb_date_disk_form v = bs"
    using to_from_be_bytes [of "take 2 bs", where 'a = 16]
    by (auto simp: qb_date_from_disk_bytes_def outcome_simps qb_date_new_Ok_iff qb_date_disk_form_def
        qb_date_to_disk_bytes_def split: list.splits if_splits)
next
  fix bs and v :: "qb_date option"
  assume "qb_date_from_disk_bytes bs = Ok v"
  then show "case v of None \<Rightarrow> True | Some d \<Rightarrow> qb_date_ok d"
    by (auto simp: qb_date_from_disk_bytes_def outcome_simps qb_date_new_Ok_iff split: list.splits if_splits)
next
  show "length (qb_date_disk_form v) = 4" for v
    by (simp add: qb_date_disk_form_def qb_date_to_disk_bytes_def split: option.split)
qed

section \<open>BalTypeLegacy_6Bytes\<close>

datatype qb_balance_kind = Dollar | Quantity

record qb_balance_flags =
  flags_raw :: u8

record qb_balance =
  bal_fraction :: u8
  bal_flags :: qb_balance_flags
  bal_dollars :: u32

datatype qb_balance_error =
    UnknownFlagBits u8 u8
  | InvalidDollarCents u8
  | NotMonetary qb_balance_kind qb_balance_flags

definition flags_from_raw :: "u8 \<Rightarrow> (qb_balance_error, qb_balance_flags) outcome" where
  "flags_from_raw raw =
     (let unknown_bits = raw AND NOT 0x1f in
      if unknown_bits \<noteq> 0 then Err (UnknownFlagBits raw unknown_bits)
      else Ok \<lparr>flags_raw = raw\<rparr>)"

definition flags_kind :: "qb_balance_flags \<Rightarrow> qb_balance_kind" where
  "flags_kind f = (if flags_raw f AND 0x01 = 0 then Dollar else Quantity)"

definition flags_is_negative :: "qb_balance_flags \<Rightarrow> bool" where
  "flags_is_negative f \<longleftrightarrow> flags_raw f AND 0x02 \<noteq> 0"

definition flags_is_error :: "qb_balance_flags \<Rightarrow> bool" where
  "flags_is_error f \<longleftrightarrow> flags_raw f AND 0x04 \<noteq> 0"

definition flags_is_percent :: "qb_balance_flags \<Rightarrow> bool" where
  "flags_is_percent f \<longleftrightarrow> flags_raw f AND 0x08 \<noteq> 0"

definition flags_is_empty :: "qb_balance_flags \<Rightarrow> bool" where
  "flags_is_empty f \<longleftrightarrow> flags_raw f AND 0x10 \<noteq> 0"

definition qb_balance_from_disk_bytes :: "byte list \<Rightarrow> (qb_balance_error, qb_balance) outcome" where
  "qb_balance_from_disk_bytes bytes =
     (case bytes of
        [b0, b1, b2, b3, b4, b5] \<Rightarrow>
          rbind (flags_from_raw b1) (\<lambda>flags.
            if flags_kind flags = Dollar \<and> 99 < b0 then Err (InvalidDollarCents b0)
            else Ok \<lparr>bal_fraction = b0, bal_flags = flags, bal_dollars = from_be_bytes [b2, b3, b4, b5]\<rparr>)
      | _ \<Rightarrow> Panic)"

definition qb_balance_to_disk_bytes :: "qb_balance \<Rightarrow> byte list" where
  "qb_balance_to_disk_bytes b = [bal_fraction b, flags_raw (bal_flags b)] @ to_be_bytes (bal_dollars b)"

text \<open>\<open>i64::from\<close> widens without sign; the arithmetic is that of \<open>i64\<close>.\<close>

definition signed_cents :: "qb_balance \<Rightarrow> (qb_balance_error, i64) outcome" where
  "signed_cents b =
     (let flags = bal_flags b in
      if flags_kind flags \<noteq> Dollar then Err (NotMonetary (flags_kind flags) flags)
      else if flags_is_error flags \<or> flags_is_percent flags \<or> flags_is_empty flags
      then Err (NotMonetary (flags_kind flags) flags)
      else
        let magnitude = word_of_int (uint (bal_dollars b)) * 100 + word_of_int (uint (bal_fraction b)) in
        Ok (if flags_is_negative flags then - magnitude else magnitude))"

definition qb_balance_ok :: "qb_balance \<Rightarrow> bool" where
  "qb_balance_ok b \<longleftrightarrow>
     flags_raw (bal_flags b) AND NOT 0x1f = 0
     \<and> (flags_kind (bal_flags b) = Dollar \<longrightarrow> bal_fraction b \<le> 99)"

lemma four_bytes: "length bs = 4 \<Longrightarrow> \<exists>a b c d. bs = [a, b, c, d]"
  by (auto simp: length_Suc_conv eval_nat_numeral)

lemma qb_balance_from_disk_bytes_six:
  "qb_balance_from_disk_bytes [b0, b1, b2, b3, b4, b5] = Ok b \<longleftrightarrow>
     b = \<lparr>bal_fraction = b0, bal_flags = \<lparr>flags_raw = b1\<rparr>, bal_dollars = from_be_bytes [b2, b3, b4, b5]\<rparr>
     \<and> qb_balance_ok b"
  by (auto simp: qb_balance_from_disk_bytes_def flags_from_raw_def Let_def qb_balance_ok_def
      outcome_simps not_less)

lemma qb_balance_from_disk_bytes_Ok:
  assumes "qb_balance_from_disk_bytes bs = Ok b"
  obtains b0 b1 b2 b3 b4 b5 where "bs = [b0, b1, b2, b3, b4, b5]"
  using assms by (auto simp: qb_balance_from_disk_bytes_def split: list.splits)

interpretation legacy_balance:
  fixed_codec qb_balance_to_disk_bytes qb_balance_from_disk_bytes qb_balance_ok 6
proof
  fix v assume ok: "qb_balance_ok v"
  obtain a b c d where bytes: "to_be_bytes (bal_dollars v) = [a, b, c, d]"
    using four_bytes [of "to_be_bytes (bal_dollars v)"] by auto
  then have "from_be_bytes [a, b, c, d] = bal_dollars v"
    using from_to_be_bytes [of "bal_dollars v"] by simp
  moreover obtain fr fl dl where "v = \<lparr>bal_fraction = fr, bal_flags = \<lparr>flags_raw = fl\<rparr>, bal_dollars = dl\<rparr>"
    by (cases v, cases "bal_flags v") auto
  ultimately show "qb_balance_from_disk_bytes (qb_balance_to_disk_bytes v) = Ok v"
    using ok bytes by (simp add: qb_balance_to_disk_bytes_def qb_balance_from_disk_bytes_six)
next
  fix bs v assume v: "qb_balance_from_disk_bytes bs = Ok v"
  then obtain b0 b1 b2 b3 b4 b5 where bs: "bs = [b0, b1, b2, b3, b4, b5]"
    by (rule qb_balance_from_disk_bytes_Ok)
  from v show "qb_balance_to_disk_bytes v = bs" and "qb_balance_ok v"
    using to_from_be_bytes [of "[b2, b3, b4, b5]", where 'a = 32]
    by (auto simp: bs qb_balance_from_disk_bytes_six qb_balance_to_disk_bytes_def)
next
  show "length (qb_balance_to_disk_bytes v) = 6" for v
    by (simp add: qb_balance_to_disk_bytes_def)
qed

text \<open>The cents of a dollar value are exact: no intermediate result leaves \<open>i64\<close>.\<close>

lemma sint_cents:
  assumes "0 \<le> m" and "m < 2 ^ 40"
  shows "sint (word_of_int m :: i64) = m" and "sint (- word_of_int m :: i64) = - m"
proof -
  show "sint (word_of_int m :: i64) = m"
    using assms by (intro sint_word_of_int_range) auto
  have "sint (word_of_int (- m) :: i64) = - m"
    using assms by (intro sint_word_of_int_range) auto
  then show "sint (- word_of_int m :: i64) = - m" by simp
qed

lemma signed_cents_exact:
  assumes "signed_cents b = Ok w"
  shows "sint w = (if flags_is_negative (bal_flags b) then -1 else 1)
    * (100 * int (unat (bal_dollars b)) + int (unat (bal_fraction b)))"
proof -
  define m where "m = 100 * int (unat (bal_dollars b)) + int (unat (bal_fraction b))"
  have "uint (bal_dollars b) < 2 ^ 32" and "uint (bal_fraction b) < 2 ^ 8"
    using uint_lt2p [of "bal_dollars b"] uint_lt2p [of "bal_fraction b"] by simp_all
  then have bounds: "0 \<le> m" "m < 2 ^ 40" by (simp_all add: m_def)
  have "word_of_int (uint (bal_dollars b)) * 100 + word_of_int (uint (bal_fraction b)) = (word_of_int m :: i64)"
    by (simp add: m_def mult.commute)
  with assms sint_cents [OF bounds] show ?thesis
    unfolding m_def [symmetric] by (auto simp: signed_cents_def Let_def split: if_splits)
qed

lemma signed_cents_Ok_iff:
  "(\<exists>w. signed_cents b = Ok w) \<longleftrightarrow>
     flags_kind (bal_flags b) = Dollar \<and> \<not> flags_is_error (bal_flags b)
     \<and> \<not> flags_is_percent (bal_flags b) \<and> \<not> flags_is_empty (bal_flags b)"
  by (simp add: signed_cents_def Let_def)

end
