(* ===== verification/Posting_Cents.thy ===== *)
theory Posting_Cents
  imports Codec
begin

unbundle bit_operations_syntax

text \<open>
  The base-100 amounts of \<open>crates/openqbw/src/materialized_numeric.rs\<close>. The \<open>i64\<close> accumulation
  with \<open>checked_mul\<close> and \<open>checked_add\<close> is compared with the exact value of the digits: the
  checked arithmetic fails exactly when the amount does not fit. An \<open>EnterpriseNumericToken\<close> of
  the other crate enters as its two fields, marker and digits.
\<close>

datatype posting_cents_error =
    TokenTooShort nat
  | DigitsOutsideToken nat nat
  | UnsupportedZeroMarker u8
  | UnsupportedMarker u8
  | InvalidBase100Digit u8
  | CentsOverflow

record posting_cents =
  signed_cents_value :: i64
  is_canonical_zero :: bool

definition cents_canonical_zero :: posting_cents where
  "cents_canonical_zero = \<lparr>signed_cents_value = 0, is_canonical_zero = True\<rparr>"

definition digit_step :: "u8 \<Rightarrow> i64 \<Rightarrow> (posting_cents_error, i64) outcome" where
  "digit_step digit magnitude =
     (if 99 < digit then Err (InvalidBase100Digit digit)
      else ok_or (case checked_mul magnitude 100 of
                    None \<Rightarrow> None
                  | Some v \<Rightarrow> checked_add v (word_of_int (uint digit))) CentsOverflow)"

definition scale_step :: "nat \<Rightarrow> i64 \<Rightarrow> (posting_cents_error, i64) outcome" where
  "scale_step i magnitude = ok_or (checked_mul magnitude 100) CentsOverflow"

definition cents_from_parts :: "u8 \<Rightarrow> u8 list \<Rightarrow> (posting_cents_error, posting_cents) outcome" where
  "cents_from_parts marker values =
     (let exponent_marker = marker AND 0x7f in
      if \<not> (0x3f \<le> exponent_marker \<and> exponent_marker \<le> 0x45) then Err (UnsupportedMarker marker)
      else
        let negative = (marker AND 0x80 = 0) in
        rbind (rfold digit_step (rev values) 0) (\<lambda>magnitude.
        rbind (rfold scale_step [0x3f..<unat exponent_marker] magnitude) (\<lambda>magnitude.
          Ok \<lparr>signed_cents_value = (if negative then - magnitude else magnitude),
              is_canonical_zero = False\<rparr>)))"

definition cents_parse :: "byte list \<Rightarrow> (posting_cents_error, posting_cents) outcome" where
  "cents_parse input =
     (if length input < 2 then Err (TokenTooShort (length input))
      else
        let digits = unat (input ! 0); marker = input ! 1 in
        if digits = 0 then
          (if marker = 0x81 then Ok cents_canonical_zero else Err (UnsupportedZeroMarker marker))
        else
          rbind (ok_or (get_range input 2 (2 + digits)) (DigitsOutsideToken digits (length input)))
            (cents_from_parts marker))"

definition cents_from_enterprise_token :: "u8 \<Rightarrow> u8 list \<Rightarrow> (posting_cents_error, posting_cents) outcome" where
  "cents_from_enterprise_token marker digits =
     (if digits = [] then
        (if marker = 0x81 then Ok cents_canonical_zero else Err (UnsupportedZeroMarker marker))
      else cents_from_parts marker digits)"

section \<open>The value of the digits\<close>

fun base100 :: "u8 list \<Rightarrow> nat" where
  "base100 [] = 0"
| "base100 (d # ds) = unat d + 100 * base100 ds"

definition cents_exponent :: "u8 \<Rightarrow> nat" where
  "cents_exponent marker = unat (marker AND 0x7f) - 63"

definition digits_ok :: "u8 list \<Rightarrow> bool" where
  "digits_ok ds \<longleftrightarrow> (\<forall>d \<in> set ds. d \<le> 99)"

definition cents_word :: "nat \<Rightarrow> i64" where
  "cents_word n = word_of_nat n"

lemma cents_word_0: "cents_word 0 = 0"
  by (simp add: cents_word_def)

lemma sint_cents_word:
  assumes "n < 2 ^ 63"
  shows "sint (cents_word n) = int n" and "sint (- cents_word n) = - int n"
proof -
  show "sint (cents_word n) = int n"
    using assms sint_word_of_int_range [of "int n", where 'a = 64] by (simp add: cents_word_def)
  show "sint (- cents_word n) = - int n"
    using assms sint_word_of_int_range [of "- int n", where 'a = 64] by (simp add: cents_word_def)
qed

lemma try_from_int_nat: "(try_from_int (int n) :: i64 option) = (if n < 2 ^ 63 then Some (cents_word n) else None)"
  by (auto simp: try_from_int_def cents_word_def)

lemma checked_mul_nat:
  assumes "n < 2 ^ 63"
  shows "checked_mul (cents_word n) 100 = (if 100 * n < 2 ^ 63 then Some (cents_word (100 * n)) else None)"
  using try_from_int_nat [of "100 * n"] sint_cents_word [OF assms] by (simp add: checked_mul_def mult.commute)

lemma checked_add_digit:
  assumes "n < 2 ^ 63"
  shows "checked_add (cents_word n) (word_of_int (uint (d :: u8))) =
    (if n + unat d < 2 ^ 63 then Some (cents_word (n + unat d)) else None)"
proof -
  have "- (2 ^ 63) \<le> uint d" by (rule order_trans [of _ 0]) simp_all
  moreover have "uint d < 2 ^ 63" using uint_lt2p [of d] by simp
  ultimately have "sint (word_of_int (uint d) :: i64) = uint d"
    using sint_word_of_int_range [of "uint d", where 'a = 64] by simp
  with sint_cents_word [OF assms] try_from_int_nat [of "n + unat d"] show ?thesis
    by (simp add: checked_add_def)
qed

lemma digit_step_outcome:
  assumes "n < 2 ^ 63" and "d \<le> 99"
  shows "digit_step d (cents_word n) =
    (if unat d + 100 * n < 2 ^ 63 then Ok (cents_word (unat d + 100 * n)) else Err CentsOverflow)"
  using assms(2) checked_mul_nat [OF assms(1)] checked_add_digit [of "100 * n" d]
  by (auto simp: digit_step_def ok_or_def not_less add.commute split: option.split)

lemma digits_loop_Ok_iff:
  "rfold digit_step (rev ds) 0 = Ok m \<longleftrightarrow>
     digits_ok ds \<and> base100 ds < 2 ^ 63 \<and> m = cents_word (base100 ds)"
proof (induction ds arbitrary: m)
  case (Cons d ds)
  have "rfold digit_step (rev (d # ds)) 0 = Ok m \<longleftrightarrow>
      digits_ok ds \<and> base100 ds < 2 ^ 63 \<and> digit_step d (cents_word (base100 ds)) = Ok m"
    using Cons by (auto simp: rfold_append outcome_simps)
  also have "\<dots> \<longleftrightarrow> digits_ok (d # ds) \<and> base100 (d # ds) < 2 ^ 63
      \<and> m = cents_word (base100 (d # ds))"
  proof (cases "d \<le> 99 \<and> base100 ds < 2 ^ 63")
    case True
    then show ?thesis using digit_step_outcome [of "base100 ds" d] by (auto simp: digits_ok_def)
  next
    case False
    then show ?thesis by (auto simp: digit_step_def digits_ok_def)
  qed
  finally show ?case .
qed (auto simp: digits_ok_def cents_word_0)

lemma scale_step_outcome:
  "n < 2 ^ 63 \<Longrightarrow> scale_step i (cents_word n) =
     (if 100 * n < 2 ^ 63 then Ok (cents_word (100 * n)) else Err CentsOverflow)"
  using checked_mul_nat [of n] by (simp add: scale_step_def ok_or_def)

lemma scale_loop_Ok_iff:
  "n < 2 ^ 63 \<Longrightarrow>
   rfold scale_step is (cents_word n) = Ok m \<longleftrightarrow>
     n * 100 ^ length is < 2 ^ 63 \<and> m = cents_word (n * 100 ^ length is)"
proof (induction "is" arbitrary: n)
  case (Cons i "is")
  show ?case
  proof (cases "100 * n < 2 ^ 63")
    case True
    have "n * 100 ^ length (i # is) = 100 * n * 100 ^ length is" by simp
    then show ?thesis
      using Cons.IH [OF True] True
      by (simp only: rfold.simps scale_step_outcome [OF Cons.prems] if_True rbind.simps)
  next
    case False
    have "100 * n \<le> n * 100 ^ length (i # is)" by simp
    with False have "\<not> n * 100 ^ length (i # is) < 2 ^ 63" by linarith
    then show ?thesis
      using False
      by (simp only: rfold.simps scale_step_outcome [OF Cons.prems] if_False rbind.simps) simp
  qed
qed auto

text \<open>The amount of a token, and when a token has one.\<close>

definition cents_amount :: "u8 \<Rightarrow> u8 list \<Rightarrow> int" where
  "cents_amount marker ds =
     (if marker AND 0x80 = 0 then -1 else 1) * int (base100 ds * 100 ^ cents_exponent marker)"

definition signed_word :: "u8 \<Rightarrow> i64 \<Rightarrow> i64" where
  "signed_word marker m = (if marker AND 0x80 = 0 then - m else m)"

lemma cents_from_parts_run:
  "cents_from_parts marker ds = Ok c \<longleftrightarrow>
     63 \<le> unat (marker AND 0x7f) \<and> unat (marker AND 0x7f) \<le> 69 \<and> digits_ok ds
     \<and> base100 ds * 100 ^ cents_exponent marker < 2 ^ 63
     \<and> c = \<lparr>signed_cents_value = signed_word marker (cents_word (base100 ds * 100 ^ cents_exponent marker)),
            is_canonical_zero = False\<rparr>"
proof -
  let ?is = "[0x3f..<unat (marker AND 0x7f)]" and ?n = "base100 ds * 100 ^ cents_exponent marker"
  have scale: "rfold scale_step ?is (cents_word (base100 ds)) = Ok k \<longleftrightarrow> ?n < 2 ^ 63 \<and> k = cents_word ?n"
    if "base100 ds < 2 ^ 63" for k
    using scale_loop_Ok_iff [OF that, of ?is] by (simp add: cents_exponent_def)
  have "base100 ds \<le> ?n" by simp
  then have small: "?n < 2 ^ 63 \<Longrightarrow> base100 ds < 2 ^ 63" by (rule order.strict_trans1)
  have "cents_from_parts marker ds = Ok c \<longleftrightarrow>
      63 \<le> unat (marker AND 0x7f) \<and> unat (marker AND 0x7f) \<le> 69
      \<and> (\<exists>m. rfold digit_step (rev ds) 0 = Ok m \<and> (\<exists>k. rfold scale_step ?is m = Ok k
          \<and> c = \<lparr>signed_cents_value = signed_word marker k, is_canonical_zero = False\<rparr>))"
    by (auto simp: cents_from_parts_def Let_def outcome_simps word_le_nat_alt signed_word_def [symmetric])
  then show ?thesis
    using scale small by (auto simp: digits_loop_Ok_iff cong: conj_cong)
qed

lemma cents_from_parts_Ok_iff:
  "cents_from_parts marker ds = Ok \<lparr>signed_cents_value = w, is_canonical_zero = z\<rparr> \<longleftrightarrow>
     63 \<le> unat (marker AND 0x7f) \<and> unat (marker AND 0x7f) \<le> 69 \<and> digits_ok ds
     \<and> base100 ds * 100 ^ cents_exponent marker < 2 ^ 63 \<and> \<not> z \<and> sint w = cents_amount marker ds"
proof -
  let ?n = "base100 ds * 100 ^ cents_exponent marker"
  have "w = signed_word marker (cents_word ?n) \<longleftrightarrow> sint w = cents_amount marker ds" if "?n < 2 ^ 63"
  proof -
    have "sint (signed_word marker (cents_word ?n)) = cents_amount marker ds"
      using sint_cents_word [OF that] unfolding cents_amount_def signed_word_def by (simp only: split: if_split) simp
    then show ?thesis using sint_eqI [of w "signed_word marker (cents_word ?n)"] by auto
  qed
  then show ?thesis unfolding cents_from_parts_run by auto
qed

lemma cents_from_parts_no_panic: "cents_from_parts marker ds \<noteq> Panic"
proof -
  have "rfold digit_step xs m \<noteq> Panic" and "rfold scale_step ys m \<noteq> Panic" for xs ys m
    by (induction xs arbitrary: m; auto simp: digit_step_def outcome_simps)
      (induction ys arbitrary: m; auto simp: scale_step_def outcome_simps)
  then show ?thesis by (simp add: cents_from_parts_def Let_def outcome_simps)
qed

end
