(* ===== verification/Decoder_Contract.thy ===== *)
theory Decoder_Contract
  imports Report_Facts
begin

text \<open>
  The hand-off between physical decoders and the ledger,
  \<open>crates/openqbw/src/decoder_contract.rs\<close>: source identities, the coverage attestation, explicitly
  excluded rows, and the only conversion into a \<open>Ledger\<close>.
\<close>

section \<open>Identities\<close>

datatype source_snapshot_id = SourceSnapshotId (snapshot_str: string)
datatype decoder_identity = DecoderIdentity (decoder_str: string)

datatype decoder_contract_error =
    EmptySourceSnapshotId
  | EmptyDecoderIdentity
  | CoverageMismatch u64 u64
  | MaterializedCountMismatch u64 u64
  | MaterializedCountOverflow
  | DuplicateCandidateProvenance string
  | SnapshotMismatch string string
  | InvalidNormalizedLedger accounting_error

definition source_snapshot_id_new :: "string \<Rightarrow> (decoder_contract_error, source_snapshot_id) outcome" where
  "source_snapshot_id_new s =
     (if trim_is_empty s then Err EmptySourceSnapshotId else Ok (SourceSnapshotId s))"

definition decoder_identity_new :: "string \<Rightarrow> (decoder_contract_error, decoder_identity) outcome" where
  "decoder_identity_new s =
     (if trim_is_empty s then Err EmptyDecoderIdentity else Ok (DecoderIdentity s))"

interpretation snapshot_ids: nonblank_identifier source_snapshot_id_new snapshot_str EmptySourceSnapshotId
  by unfold_locales (auto simp: source_snapshot_id_new_def intro: source_snapshot_id.expand)

interpretation decoder_ids: nonblank_identifier decoder_identity_new decoder_str EmptyDecoderIdentity
  by unfold_locales (auto simp: decoder_identity_new_def intro: decoder_identity.expand)

section \<open>Coverage and dispositions\<close>

record complete_coverage =
  recognized_candidates :: u64
  handled_candidates :: u64

definition complete_coverage_new :: "u64 \<Rightarrow> u64 \<Rightarrow> (decoder_contract_error, complete_coverage) outcome" where
  "complete_coverage_new recognized handled =
     (if recognized \<noteq> handled then Err (CoverageMismatch recognized handled)
      else Ok \<lparr>recognized_candidates = recognized, handled_candidates = handled\<rparr>)"

datatype posting_exclusion_reason =
  SourceOrLinkRow | DeletionTombstone | CanonicalZeroVoidedRow | CanonicalZeroAmount

record posting_exclusion =
  excl_provenance :: posting_provenance
  excl_reason :: posting_exclusion_reason

datatype posting_disposition = Posting posting | Excluded posting_exclusion

primrec disposition_provenance :: "posting_disposition \<Rightarrow> posting_provenance" where
  "disposition_provenance (Posting p) = post_provenance p"
| "disposition_provenance (Excluded e) = excl_provenance e"

record decoded_accounts =
  da_snapshot :: source_snapshot_id
  da_decoder :: decoder_identity
  da_accounts :: "account list"

record decoded_postings =
  dp_snapshot :: source_snapshot_id
  dp_decoder :: decoder_identity
  dp_dispositions :: "posting_disposition list"

definition validate_materialized_count ::
    "complete_coverage \<Rightarrow> nat \<Rightarrow> (decoder_contract_error, unit) outcome" where
  "validate_materialized_count coverage actual_rows =
     (if 2 ^ 64 \<le> actual_rows then Err MaterializedCountOverflow
      else if handled_candidates coverage \<noteq> word_of_nat actual_rows
      then Err (MaterializedCountMismatch (handled_candidates coverage) (word_of_nat actual_rows))
      else Ok ())"

definition insert_candidate ::
    "posting_disposition \<Rightarrow> string set \<Rightarrow> (decoder_contract_error, string set) outcome" where
  "insert_candidate d source_rows =
     (let source_row = prov_source_row (disposition_provenance d) in
      if source_row \<in> source_rows then Err (DuplicateCandidateProvenance source_row)
      else Ok (insert source_row source_rows))"

definition validate_unique_candidate_provenance ::
    "posting_disposition list \<Rightarrow> (decoder_contract_error, unit) outcome" where
  "validate_unique_candidate_provenance dispositions =
     rbind (rfold insert_candidate dispositions {}) (\<lambda>_. Ok ())"

definition decoded_accounts_new ::
    "source_snapshot_id \<Rightarrow> decoder_identity \<Rightarrow> account list \<Rightarrow> complete_coverage \<Rightarrow>
     (decoder_contract_error, decoded_accounts) outcome" where
  "decoded_accounts_new snapshot decoder accounts coverage =
     rbind (validate_materialized_count coverage (length accounts)) (\<lambda>_.
       Ok \<lparr>da_snapshot = snapshot, da_decoder = decoder, da_accounts = accounts\<rparr>)"

definition decoded_postings_new ::
    "source_snapshot_id \<Rightarrow> decoder_identity \<Rightarrow> posting_disposition list \<Rightarrow> complete_coverage \<Rightarrow>
     (decoder_contract_error, decoded_postings) outcome" where
  "decoded_postings_new snapshot decoder dispositions coverage =
     rbind (validate_materialized_count coverage (length dispositions)) (\<lambda>_.
     rbind (validate_unique_candidate_provenance dispositions) (\<lambda>_.
       Ok \<lparr>dp_snapshot = snapshot, dp_decoder = decoder, dp_dispositions = dispositions\<rparr>))"

definition into_postings :: "decoded_postings \<Rightarrow> posting list" where
  "into_postings d =
     List.map_filter (\<lambda>x. case x of Posting p \<Rightarrow> Some p | Excluded _ \<Rightarrow> None) (dp_dispositions d)"

definition ledger_adapter_build ::
    "decoded_accounts \<Rightarrow> decoded_postings \<Rightarrow> (decoder_contract_error, ledger) outcome" where
  "ledger_adapter_build accounts postings =
     (if da_snapshot accounts \<noteq> dp_snapshot postings
      then Err (SnapshotMismatch (snapshot_str (da_snapshot accounts)) (snapshot_str (dp_snapshot postings)))
      else map_err InvalidNormalizedLedger
             (ledger_new (da_accounts accounts) (into_postings postings) Complete))"

section \<open>What the wrappers guarantee\<close>

definition candidate_row :: "posting_disposition \<Rightarrow> string" where
  "candidate_row d = prov_source_row (disposition_provenance d)"

lemma insert_candidates_Ok_iff:
  "(\<exists>s. rfold insert_candidate ds rows = Ok s) \<longleftrightarrow>
     distinct (map candidate_row ds) \<and> rows \<inter> candidate_row ` set ds = {}"
proof (induction ds arbitrary: rows)
  case (Cons d ds)
  show ?case
  proof (cases "candidate_row d \<in> rows")
    case False
    then have "insert_candidate d rows = Ok (insert (candidate_row d) rows)"
      by (simp add: insert_candidate_def candidate_row_def)
    with Cons [of "insert (candidate_row d) rows"] False show ?thesis by auto
  qed (simp add: insert_candidate_def candidate_row_def)
qed simp

lemma validate_unique_Ok_iff:
  "validate_unique_candidate_provenance ds = Ok () \<longleftrightarrow> distinct (map candidate_row ds)"
  using insert_candidates_Ok_iff [of ds "{}"]
  by (auto simp: validate_unique_candidate_provenance_def outcome_simps)

lemma validate_materialized_count_Ok_iff:
  "validate_materialized_count c n = Ok () \<longleftrightarrow> n < 2 ^ 64 \<and> unat (handled_candidates c) = n"
proof -
  have "handled_candidates c = word_of_nat n \<longleftrightarrow> unat (handled_candidates c) = n" if "n < 2 ^ 64"
  proof -
    have "unat (word_of_nat n :: u64) = n" using that by (simp add: unat_of_nat)
    then show ?thesis by auto
  qed
  then show ?thesis by (auto simp: validate_materialized_count_def)
qed

lemma decoded_postings_new_Ok_iff:
  "decoded_postings_new s d ds c = Ok dp \<longleftrightarrow>
     length ds < 2 ^ 64 \<and> unat (handled_candidates c) = length ds \<and> distinct (map candidate_row ds)
     \<and> dp = \<lparr>dp_snapshot = s, dp_decoder = d, dp_dispositions = ds\<rparr>"
  by (auto simp: decoded_postings_new_def outcome_simps validate_materialized_count_Ok_iff validate_unique_Ok_iff)

lemma into_postings_simps:
  "into_postings \<lparr>dp_snapshot = s, dp_decoder = d, dp_dispositions = []\<rparr> = []"
  "into_postings \<lparr>dp_snapshot = s, dp_decoder = d, dp_dispositions = x # xs\<rparr> =
     (case x of Posting p \<Rightarrow> [p] | Excluded _ \<Rightarrow> [])
     @ into_postings \<lparr>dp_snapshot = s, dp_decoder = d, dp_dispositions = xs\<rparr>"
  by (simp_all add: into_postings_def List.map_filter_simps split: posting_disposition.split)

text \<open>No two postings of an accepted hand-off share a source row.\<close>

lemma into_postings_rows:
  "source_row_of ` set (into_postings \<lparr>dp_snapshot = s, dp_decoder = d, dp_dispositions = ds\<rparr>)
     \<subseteq> candidate_row ` set ds"
  by (induction ds) (auto simp: into_postings_simps candidate_row_def source_row_of_def
      split: posting_disposition.splits)

lemma into_postings_distinct:
  "distinct (map candidate_row ds) \<Longrightarrow>
   distinct (map source_row_of (into_postings \<lparr>dp_snapshot = s, dp_decoder = d, dp_dispositions = ds\<rparr>))"
proof (induction ds)
  case (Cons x ds)
  show ?case
  proof (cases x)
    case (Posting p)
    then have "source_row_of p = candidate_row x" by (simp add: candidate_row_def source_row_of_def)
    then have "source_row_of p \<notin> source_row_of ` set (into_postings \<lparr>dp_snapshot = s, dp_decoder = d, dp_dispositions = ds\<rparr>)"
      using Cons.prems into_postings_rows [of s d ds] by auto
    with Cons Posting show ?thesis by (simp add: into_postings_simps)
  qed (use Cons in \<open>simp add: into_postings_simps\<close>)
qed (simp add: into_postings_simps)

lemma check_postings_duplicate_row:
  assumes "distinct (map source_row_of ps)" and "rows \<inter> source_row_of ` set ps = {}"
  shows "rfold (check_posting m) ps (ids, rows) \<noteq> Err (DuplicateProvenance r)"
  using assms
proof (induction ps arbitrary: ids rows)
  case (Cons p ps)
  have "insert (source_row_of p) rows \<inter> source_row_of ` set ps = {}" using Cons.prems by auto
  with Cons show ?case
    by (auto simp: outcome_simps check_posting_def source_row_of_def)
qed simp

text \<open>No hierarchy or insertion step reports a duplicate source row.\<close>

lemma insert_accounts_not_provenance: "rfold insert_account as m \<noteq> Err (DuplicateProvenance r)"
  by (induction as arbitrary: m) (auto simp: outcome_simps insert_account_def)

lemma walk_parents_not_provenance: "walk_parents m start visited cursor \<noteq> Err (DuplicateProvenance r)"
proof (induction m start visited cursor rule: walk_parents.induct)
  case (1 m start visited cursor)
  then show ?case by (subst walk_parents.simps) (auto split: option.split)
qed

lemma hierarchy_not_provenance: "validate_account_hierarchy m \<noteq> Err (DuplicateProvenance r)"
proof -
  have "check_parent m a \<noteq> Err (DuplicateProvenance r)" for a
    by (auto simp: check_parent_def walk_parents_not_provenance split: option.split)
  then have "rfold (\<lambda>a _. check_parent m a) as () \<noteq> Err (DuplicateProvenance r)" for as
    by (induction as) (auto simp: outcome_simps)
  then show ?thesis by (simp add: validate_account_hierarchy_def)
qed

lemma ledger_new_not_provenance:
  assumes "distinct (map source_row_of ps)"
  shows "ledger_new as ps c \<noteq> Err (DuplicateProvenance r)"
  using check_postings_duplicate_row [OF assms, of "{}"]
  by (auto simp: ledger_new_def outcome_simps insert_accounts_not_provenance hierarchy_not_provenance)

lemma build_Ok_iff:
  "ledger_adapter_build da dp = Ok l \<longleftrightarrow>
     da_snapshot da = dp_snapshot dp \<and> ledger_new (da_accounts da) (into_postings dp) Complete = Ok l"
  by (auto simp: ledger_adapter_build_def outcome_simps)

text \<open>Every disposition is accounted for: postings of the ledger, or explicit exclusions.\<close>

definition exclusions :: "decoded_postings \<Rightarrow> posting_exclusion list" where
  "exclusions d = List.map_filter (\<lambda>x. case x of Posting _ \<Rightarrow> None | Excluded e \<Rightarrow> Some e) (dp_dispositions d)"

lemma dispositions_partition:
  "length (into_postings dp) + length (exclusions dp) = length (dp_dispositions dp)"
proof -
  have "length (List.map_filter (\<lambda>x. case x of Posting p \<Rightarrow> Some p | Excluded _ \<Rightarrow> None) ds)
      + length (List.map_filter (\<lambda>x. case x of Posting _ \<Rightarrow> None | Excluded e \<Rightarrow> Some e) ds) = length ds" for ds
    by (induction ds) (auto simp: List.map_filter_simps split: posting_disposition.split)
  then show ?thesis by (simp add: into_postings_def exclusions_def)
qed

end
