(* ===== verification/Drec.thy ===== *)
theory Drec
  imports QuickBooks_Values Ordered_Map
begin

text \<open>
  The sparse record grammar of \<open>crates/openqbw/src/cindex_drec.rs\<close>: descriptors, schemas, the
  parser with its cursor and the two passes of the encoder. A \<open>usize\<close> is a natural number whose
  checked additions fail at \<open>2\<^sup>6\<^sup>4\<close>; a cursor is returned with the value that was read.
\<close>

section \<open>Byte order, classes and values\<close>

datatype drec_byte_order = Little | Big

definition read_u16 :: "drec_byte_order \<Rightarrow> byte list \<Rightarrow> ('e, u16) outcome" where
  "read_u16 order bytes = (case order of Little \<Rightarrow> read_le bytes | Big \<Rightarrow> read_be bytes)"

definition read_u32 :: "drec_byte_order \<Rightarrow> byte list \<Rightarrow> ('e, u32) outcome" where
  "read_u32 order bytes = (case order of Little \<Rightarrow> read_le bytes | Big \<Rightarrow> read_be bytes)"

definition write_u16 :: "drec_byte_order \<Rightarrow> u16 \<Rightarrow> byte list" where
  "write_u16 order v = (case order of Little \<Rightarrow> to_le_bytes v | Big \<Rightarrow> to_be_bytes v)"

definition write_u32 :: "drec_byte_order \<Rightarrow> u32 \<Rightarrow> byte list" where
  "write_u32 order v = (case order of Little \<Rightarrow> to_le_bytes v | Big \<Rightarrow> to_be_bytes v)"

datatype drec_class =
    ClassEnd | ClassString | ClassBytes | ClassF | ClassI | ClassL | ClassH | ClassU
  | ClassLegacyBalance | ClassZ | PointerSizedD

datatype drec_value =
    VString "byte list"
  | VBytes "byte list"
  | VU32 u32
  | VU16 u16
  | VLegacyBalance qb_balance
  | VZ "byte list"

datatype drec_error =
    UnknownClass u8
  | MissingDescriptorTerminator
  | EarlyDescriptorTerminator nat
  | InvalidEndDescriptor
  | InvalidDescriptorLength nat drec_class nat
  | PointerSizedFieldUnsupported nat
  | Truncated nat nat nat
  | RecordTooLarge nat nat
  | OrdinalOutOfRange u16 nat
  | SchemaTooLarge nat
  | DuplicateOrdinal u16
  | NonIncreasingOrdinal u16 u16
  | FieldOrdinalMismatch u16 u16
  | UnterminatedString nat nat
  | TrailingBytes nat nat
  | ValueDoesNotMatchDescriptor drec_class nat
  | UnexpectedEndDescriptor
  | LengthOverflow
  | LegacyBalanceError qb_balance_error

definition class_from_tag :: "u8 \<Rightarrow> (drec_error, drec_class) outcome" where
  "class_from_tag t =
     (if t = 69 then Ok ClassEnd
      else if t = 83 then Ok ClassString
      else if t = 66 then Ok ClassBytes
      else if t = 70 then Ok ClassF
      else if t = 73 then Ok ClassI
      else if t = 76 then Ok ClassL
      else if t = 72 then Ok ClassH
      else if t = 85 then Ok ClassU
      else if t = 77 then Ok ClassLegacyBalance
      else if t = 90 then Ok ClassZ
      else if t = 68 then Ok PointerSizedD
      else Err (UnknownClass t))"

fun class_tag :: "drec_class \<Rightarrow> u8" where
  "class_tag ClassEnd = 69"
| "class_tag ClassString = 83"
| "class_tag ClassBytes = 66"
| "class_tag ClassF = 70"
| "class_tag ClassI = 73"
| "class_tag ClassL = 76"
| "class_tag ClassH = 72"
| "class_tag ClassU = 85"
| "class_tag ClassLegacyBalance = 77"
| "class_tag ClassZ = 90"
| "class_tag PointerSizedD = 68"

section \<open>Schemas\<close>

record drec_descriptor =
  dd_class :: drec_class
  dd_length :: nat
  dd_default :: "drec_value option"

record drec_schema =
  sch_fields :: "drec_descriptor list"

text \<open>\<open>value.len() + 1\<close> cannot overflow: a vector holds fewer than \<open>2\<^sup>6\<^sup>3\<close> bytes.\<close>

fun value_matches :: "drec_class \<Rightarrow> nat \<Rightarrow> drec_value \<Rightarrow> bool" where
  "value_matches ClassString len (VString v) = (length v + 1 \<le> len \<and> 0 \<notin> set v)"
| "value_matches ClassBytes len (VBytes v) = (length v = len)"
| "value_matches ClassF len (VU32 v) = True"
| "value_matches ClassI len (VU32 v) = True"
| "value_matches ClassL len (VU32 v) = True"
| "value_matches ClassH len (VU16 v) = True"
| "value_matches ClassU len (VU16 v) = True"
| "value_matches ClassLegacyBalance len (VLegacyBalance v) = True"
| "value_matches ClassZ len (VZ v) = True"
| "value_matches _ len _ = False"

definition ensure_value_matches :: "drec_descriptor \<Rightarrow> drec_value \<Rightarrow> (drec_error, unit) outcome" where
  "ensure_value_matches d v =
     ensure (value_matches (dd_class d) (dd_length d) v)
       (ValueDoesNotMatchDescriptor (dd_class d) (dd_length d))"

fun valid_length :: "drec_class \<Rightarrow> nat \<Rightarrow> bool" where
  "valid_length ClassString len = (0 < len)"
| "valid_length ClassBytes len = True"
| "valid_length ClassF len = (len = 4)"
| "valid_length ClassI len = (len = 4)"
| "valid_length ClassL len = (len = 4)"
| "valid_length ClassH len = (len = 2)"
| "valid_length ClassU len = (len = 2)"
| "valid_length ClassLegacyBalance len = (len = 6)"
| "valid_length ClassZ len = (len = 9)"
| "valid_length ClassEnd len = False"
| "valid_length PointerSizedD len = False"

definition validate_descriptor :: "nat \<Rightarrow> drec_descriptor \<Rightarrow> (drec_error, unit) outcome" where
  "validate_descriptor ordinal d =
     (if dd_class d = ClassEnd then Err (EarlyDescriptorTerminator ordinal)
      else if dd_class d = PointerSizedD then Err (PointerSizedFieldUnsupported ordinal)
      else if \<not> valid_length (dd_class d) (dd_length d)
      then Err (InvalidDescriptorLength ordinal (dd_class d) (dd_length d))
      else case dd_default d of None \<Rightarrow> Ok () | Some v \<Rightarrow> ensure_value_matches d v)"

definition drec_schema_new :: "drec_descriptor list \<Rightarrow> (drec_error, drec_schema) outcome" where
  "drec_schema_new descriptors =
     (if descriptors = [] then Err MissingDescriptorTerminator
      else
        let last_one = last descriptors; descriptors = butlast descriptors in
        if dd_class last_one \<noteq> ClassEnd then Err MissingDescriptorTerminator
        else if dd_length last_one \<noteq> 0 \<or> dd_default last_one \<noteq> None then Err InvalidEndDescriptor
        else if 65535 < length descriptors then Err (SchemaTooLarge (length descriptors))
        else
          rbind (rfold (\<lambda>(ordinal, d) _. validate_descriptor ordinal d) (enumerate 0 descriptors) ()) (\<lambda>_.
            Ok \<lparr>sch_fields = descriptors\<rparr>))"

definition schema_field :: "drec_schema \<Rightarrow> u16 \<Rightarrow> drec_descriptor option" where
  "schema_field s ordinal = get_at (sch_fields s) (unat ordinal)"

definition field_count :: "drec_schema \<Rightarrow> nat" where
  "field_count s = length (sch_fields s)"

section \<open>Records\<close>

record drec_field =
  df_ordinal :: u16
  df_value :: drec_value
  df_byte_range :: "nat \<times> nat"
  df_payload_range :: "nat \<times> nat"

record drec_record =
  dr_flag :: u8
  dr_fields :: "(u16, drec_field) btree"

definition unlocated :: "u16 \<Rightarrow> drec_value \<Rightarrow> drec_field" where
  "unlocated ordinal v =
     \<lparr>df_ordinal = ordinal, df_value = v, df_byte_range = (0, 0), df_payload_range = (0, 0)\<rparr>"

definition add_field ::
    "u16 \<times> drec_value \<Rightarrow> (u16, drec_field) btree \<Rightarrow> (drec_error, (u16, drec_field) btree) outcome" where
  "add_field f m =
     (case f of (ordinal, v) \<Rightarrow>
        if bt_get m ordinal \<noteq> None then Err (DuplicateOrdinal ordinal)
        else Ok (bt_insert ordinal (unlocated ordinal v) m))"

definition drec_record_new :: "u8 \<Rightarrow> (u16 \<times> drec_value) list \<Rightarrow> (drec_error, drec_record) outcome" where
  "drec_record_new flag entries =
     rbind (rfold add_field entries []) (\<lambda>parsed. Ok \<lparr>dr_flag = flag, dr_fields = parsed\<rparr>)"

text \<open>\<open>index as u16\<close> keeps the low 16 bits.\<close>

definition add_default ::
    "nat \<times> drec_descriptor \<Rightarrow> (u16, drec_field) btree \<Rightarrow> (u16, drec_field) btree" where
  "add_default f m =
     (case f of (index, d) \<Rightarrow>
        let ordinal = word_of_nat index in
        case (bt_get m ordinal, dd_default d) of
          (None, Some v) \<Rightarrow> bt_insert ordinal (unlocated ordinal v) m
        | _ \<Rightarrow> m)"

definition materialize_schema_defaults :: "drec_record \<Rightarrow> drec_schema \<Rightarrow> drec_record" where
  "materialize_schema_defaults r s =
     r\<lparr>dr_fields := fold add_default (enumerate 0 (sch_fields s)) (dr_fields r)\<rparr>"

section \<open>Reading\<close>

definition usize_add :: "nat \<Rightarrow> nat \<Rightarrow> nat option" where
  "usize_add a b = (if a + b < 2 ^ 64 then Some (a + b) else None)"

definition truncated_at :: "byte list \<Rightarrow> nat \<Rightarrow> nat \<Rightarrow> drec_error" where
  "truncated_at bytes offset needed = Truncated offset needed (length bytes - offset)"

definition take_slice :: "byte list \<Rightarrow> nat \<Rightarrow> nat \<Rightarrow> (drec_error, byte list \<times> nat) outcome" where
  "take_slice bytes cursor n =
     rbind (ok_or (usize_add cursor n) LengthOverflow) (\<lambda>stop.
     rbind (ok_or (get_range bytes cursor stop) (truncated_at bytes cursor n)) (\<lambda>slice.
       Ok (slice, stop)))"

definition parse_value ::
    "byte list \<Rightarrow> nat \<Rightarrow> drec_descriptor \<Rightarrow> drec_byte_order \<Rightarrow> (drec_error, drec_value \<times> nat) outcome" where
  "parse_value bytes cursor d order =
     (case dd_class d of
        ClassString \<Rightarrow>
          rbind (ok_or (usize_add cursor (dd_length d)) LengthOverflow) (\<lambda>bound_end.
          rbind (ok_or (get_range bytes cursor (min bound_end (length bytes))) (truncated_at bytes cursor 1)) (\<lambda>bounded.
          case position (\<lambda>b. b = 0) bounded of
            None \<Rightarrow>
              if length bytes < bound_end then Err (truncated_at bytes cursor (dd_length d))
              else Err (UnterminatedString cursor (dd_length d))
          | Some nul \<Rightarrow> Ok (VString (take nul bounded), cursor + nul + 1)))
      | ClassBytes \<Rightarrow>
          rbind (take_slice bytes cursor (dd_length d)) (\<lambda>(slice, cursor). Ok (VBytes slice, cursor))
      | ClassLegacyBalance \<Rightarrow>
          rbind (take_slice bytes cursor 6) (\<lambda>(slice, cursor).
          rbind (map_err LegacyBalanceError (qb_balance_from_disk_bytes slice)) (\<lambda>b.
            Ok (VLegacyBalance b, cursor)))
      | ClassZ \<Rightarrow> rbind (take_slice bytes cursor 9) (\<lambda>(slice, cursor). Ok (VZ slice, cursor))
      | ClassEnd \<Rightarrow> Err UnexpectedEndDescriptor
      | PointerSizedD \<Rightarrow> Err (PointerSizedFieldUnsupported (2 ^ 64 - 1))
      | c \<Rightarrow>
          if c = ClassH \<or> c = ClassU
          then rbind (take_slice bytes cursor 2) (\<lambda>(slice, cursor).
               rbind (read_u16 order slice) (\<lambda>v. Ok (VU16 v, cursor)))
          else rbind (take_slice bytes cursor 4) (\<lambda>(slice, cursor).
               rbind (read_u32 order slice) (\<lambda>v. Ok (VU32 v, cursor))))"

lemma take_slice_Ok_iff:
  "take_slice bytes c n = Ok (bs, c') \<longleftrightarrow>
     c' = c + n \<and> c + n < 2 ^ 64 \<and> c + n \<le> length bytes \<and> bs = take n (drop c bytes)"
  by (auto simp: take_slice_def outcome_simps usize_add_def get_range_Some_iff)

text \<open>What a successful string read has seen: a terminator inside the bound and the slice.\<close>

lemma parse_string_Ok_iff:
  assumes "dd_class d = ClassString" and "c \<le> length bytes"
  shows "parse_value bytes c d order = Ok (v, c') \<longleftrightarrow>
    c + dd_length d < 2 ^ 64
    \<and> (\<exists>n. position (\<lambda>b. b = 0) (take (min (c + dd_length d) (length bytes) - c) (drop c bytes)) = Some n
         \<and> v = VString (take n (drop c bytes)) \<and> c' = c + n + 1)"
proof -
  have "n < min (c + dd_length d) (length bytes) - c"
    if "position (\<lambda>b. b = 0) (take (min (c + dd_length d) (length bytes) - c) (drop c bytes)) = Some n" for n
    using position_Some_imp [OF that] by simp
  with assms show ?thesis
    by (auto simp: parse_value_def outcome_simps usize_add_def get_range_def min_absorb1 split: option.splits)
qed

lemma parse_value_cursor:
  assumes "parse_value bytes c d order = Ok (v, c')" and "c \<le> length bytes"
  shows "c \<le> c' \<and> c' \<le> length bytes"
proof (cases "dd_class d = ClassString")
  case True
  with assms show ?thesis
    by (auto simp: parse_string_Ok_iff dest!: position_Some_imp)
next
  case False
  with assms show ?thesis
    by (cases "dd_class d") (auto simp: parse_value_def outcome_simps take_slice_Ok_iff)
qed

definition check_increasing :: "u16 option \<Rightarrow> u16 \<Rightarrow> (drec_error, unit) outcome" where
  "check_increasing previous ordinal =
     (case previous of
        Some p \<Rightarrow> if ordinal \<le> p then Err (NonIncreasingOrdinal p ordinal) else Ok ()
      | None \<Rightarrow> Ok ())"

text \<open>The \<open>loop\<close> of \<open>parse_drec\<close>; every turn moves the cursor past at least one ordinal.\<close>

function parse_loop ::
    "byte list \<Rightarrow> drec_schema \<Rightarrow> drec_byte_order \<Rightarrow> u8 \<Rightarrow> nat \<Rightarrow> (u16, drec_field) btree \<Rightarrow> u16 option \<Rightarrow>
     (drec_error, drec_record) outcome" where
  "parse_loop bytes s order flag cursor acc previous =
     rbind (take_slice bytes cursor 2) (\<lambda>(ordinal_bytes, payload_start).
     rbind (read_u16 order ordinal_bytes) (\<lambda>ordinal.
       if ordinal = 0xffff then
         (if payload_start \<noteq> length bytes
          then Err (TrailingBytes payload_start (length bytes - payload_start))
          else Ok \<lparr>dr_flag = flag, dr_fields = acc\<rparr>)
       else
         rbind (check_increasing previous ordinal) (\<lambda>_.
         rbind (ok_or (schema_field s ordinal) (OrdinalOutOfRange ordinal (field_count s))) (\<lambda>d.
         if bt_get acc ordinal \<noteq> None then Err (DuplicateOrdinal ordinal)
         else
           rbind (parse_value bytes payload_start d order) (\<lambda>(v, stop).
             parse_loop bytes s order flag stop
               (bt_insert ordinal
                  \<lparr>df_ordinal = ordinal, df_value = v, df_byte_range = (cursor, stop),
                   df_payload_range = (payload_start, stop)\<rparr> acc)
               (Some ordinal))))))"
  by pat_completeness auto
termination
proof (relation "measure (\<lambda>(bytes, s, order, flag, cursor, acc, previous). length bytes - cursor)", goal_cases)
  case (2 bytes s order flag cursor acc previous a ordinal_bytes payload_start ordinal u d b v stop)
  then have "payload_start = cursor + 2" and "payload_start \<le> length bytes"
    by (auto simp: take_slice_Ok_iff)
  moreover have "payload_start \<le> stop" and "stop \<le> length bytes"
    using parse_value_cursor [of bytes payload_start d order v stop] 2 calculation by auto
  ultimately show ?case by auto
qed simp

declare parse_loop.simps [simp del]

definition parse_drec ::
    "byte list \<Rightarrow> drec_schema \<Rightarrow> drec_byte_order \<Rightarrow> (drec_error, drec_record) outcome" where
  "parse_drec bytes s order =
     (if 0x7530 < length bytes then Err (RecordTooLarge (length bytes) 0x7530)
      else case bytes of
             [] \<Rightarrow> Err (Truncated 0 1 0)
           | flag # _ \<Rightarrow> parse_loop bytes s order flag 1 [] None)"

section \<open>Writing\<close>

fun value_encoded_len :: "drec_value \<Rightarrow> nat" where
  "value_encoded_len (VString v) = length v + 1"
| "value_encoded_len (VBytes v) = length v"
| "value_encoded_len (VU32 v) = 4"
| "value_encoded_len (VU16 v) = 2"
| "value_encoded_len (VLegacyBalance v) = 6"
| "value_encoded_len (VZ v) = 9"

fun value_bytes :: "drec_byte_order \<Rightarrow> drec_value \<Rightarrow> byte list" where
  "value_bytes order (VString v) = v @ [0]"
| "value_bytes order (VBytes v) = v"
| "value_bytes order (VU32 v) = write_u32 order v"
| "value_bytes order (VU16 v) = write_u16 order v"
| "value_bytes order (VLegacyBalance v) = qb_balance_to_disk_bytes v"
| "value_bytes order (VZ v) = v"

definition encode_value ::
    "byte list \<Rightarrow> drec_descriptor \<Rightarrow> drec_value \<Rightarrow> drec_byte_order \<Rightarrow> (drec_error, byte list) outcome" where
  "encode_value out d v order = rbind (ensure_value_matches d v) (\<lambda>_. Ok (out @ value_bytes order v))"

definition size_step :: "drec_schema \<Rightarrow> u16 \<times> drec_field \<Rightarrow> nat \<Rightarrow> (drec_error, nat) outcome" where
  "size_step s entry encoded_len =
     (case entry of (ordinal, field) \<Rightarrow>
        rbind (ok_or (schema_field s ordinal) (OrdinalOutOfRange ordinal (field_count s))) (\<lambda>d.
        rbind (ensure_value_matches d (df_value field)) (\<lambda>_.
        rbind (ok_or (case usize_add encoded_len 2 of
                        None \<Rightarrow> None
                      | Some len \<Rightarrow> usize_add len (value_encoded_len (df_value field))) LengthOverflow) (\<lambda>len.
          if 0x7530 < len then Err (RecordTooLarge len 0x7530) else Ok len))))"

definition write_step ::
    "drec_schema \<Rightarrow> drec_byte_order \<Rightarrow> u16 \<times> drec_field \<Rightarrow> byte list \<Rightarrow> (drec_error, byte list) outcome" where
  "write_step s order entry out =
     (case entry of (ordinal, field) \<Rightarrow>
        if df_ordinal field \<noteq> ordinal then Err (FieldOrdinalMismatch ordinal (df_ordinal field))
        else
          rbind (ok_or (schema_field s ordinal) (OrdinalOutOfRange ordinal (field_count s))) (\<lambda>d.
            encode_value (out @ write_u16 order ordinal) d (df_value field) order))"

definition encode_drec ::
    "drec_record \<Rightarrow> drec_schema \<Rightarrow> drec_byte_order \<Rightarrow> (drec_error, byte list) outcome" where
  "encode_drec r s order =
     rbind (rfold (size_step s) (dr_fields r) 3) (\<lambda>_.
     rbind (rfold (write_step s order) (dr_fields r) [dr_flag r]) (\<lambda>out.
       Ok (out @ write_u16 order 0xffff)))"

end
