(* ===== verification/Drec_Facts.thy ===== *)
theory Drec_Facts
  imports Drec
begin

text \<open>
  The record grammar: a body is the flag, the fields in increasing ordinal order, and the
  terminator. Parsing reads exactly the bytes the encoder writes, field by field, so that the two
  functions are inverse to each other on valid schemas.
\<close>

section \<open>Values\<close>

text \<open>What the Rust types of the values guarantee: a nine-byte array and a validated balance.\<close>

fun value_typed :: "drec_value \<Rightarrow> bool" where
  "value_typed (VLegacyBalance b) = qb_balance_ok b"
| "value_typed (VZ v) = (length v = 9)"
| "value_typed _ = True"

interpretation drec_u16: fixed_codec "write_u16 order" "read_u16 order" "\<lambda>_. True" 2 for order
  using u16_le.fixed_codec_axioms u16_be.fixed_codec_axioms
  by (cases order) (simp_all add: write_u16_def [abs_def] read_u16_def [abs_def])

interpretation drec_u32: fixed_codec "write_u32 order" "read_u32 order" "\<lambda>_. True" 4 for order
  using u32_le.fixed_codec_axioms u32_be.fixed_codec_axioms
  by (cases order) (simp_all add: write_u32_def [abs_def] read_u32_def [abs_def])

lemma length_write_u16 [simp]: "length (write_u16 order v) = 2"
  by (rule drec_u16.encode_width)

lemma length_write_u32 [simp]: "length (write_u32 order v) = 4"
  by (rule drec_u32.encode_width)

lemma read_write_u16 [simp]: "read_u16 order (write_u16 order v) = Ok v"
  by (rule drec_u16.decode_encode) simp

lemma read_write_u32 [simp]: "read_u32 order (write_u32 order v) = Ok v"
  by (rule drec_u32.decode_encode) simp

lemma length_balance [simp]: "length (qb_balance_to_disk_bytes b) = 6"
  by (rule legacy_balance.encode_width)

lemma length_value_bytes: "value_typed v \<Longrightarrow> length (value_bytes order v) = value_encoded_len v"
  by (cases v) simp_all

definition descriptor_ok :: "drec_descriptor \<Rightarrow> bool" where
  "descriptor_ok d \<longleftrightarrow> valid_length (dd_class d) (dd_length d)"

lemma value_matches_len:
  "descriptor_ok d \<Longrightarrow> value_matches (dd_class d) (dd_length d) v \<Longrightarrow> value_encoded_len v \<le> dd_length d"
  by (cases "dd_class d"; cases v) (auto simp: descriptor_ok_def)

text \<open>Reading a written value returns it and stops behind it.\<close>

lemma take_slice_written:
  "length pre + length bs < 2 ^ 64 \<Longrightarrow> n = length bs \<Longrightarrow>
   take_slice (pre @ bs @ rest) (length pre) n = Ok (bs, length pre + n)"
  by (auto simp: take_slice_Ok_iff)

lemma parse_written_string:
  assumes "dd_class d = ClassString" and "length v + 1 \<le> dd_length d" and "0 \<notin> set v"
    and "length pre + dd_length d < 2 ^ 64"
  shows "parse_value (pre @ (v @ [0]) @ rest) (length pre) d order
    = Ok (VString v, length pre + length v + 1)"
proof -
  let ?bytes = "pre @ (v @ [0]) @ rest"
  define k where "k = min (length pre + dd_length d) (length ?bytes) - length pre - (length v + 1)"
  have "take (min (length pre + dd_length d) (length ?bytes) - length pre) (drop (length pre) ?bytes)
      = v @ 0 # take k rest"
    using assms(2) by (auto simp: k_def min_def take_Cons' Suc_diff_le)
  moreover have "position (\<lambda>b. b = 0) (v @ 0 # take k rest) = Some (length v)"
    using assms(3) by (intro position_Some_append) auto
  ultimately show ?thesis
    using assms(4) by (subst parse_string_Ok_iff [OF assms(1)]) auto
qed

lemma parse_written_value:
  assumes "value_matches (dd_class d) (dd_length d) v" and "value_typed v" and "descriptor_ok d"
    and "length pre + dd_length d < 2 ^ 64"
  shows "parse_value (pre @ value_bytes order v @ rest) (length pre) d order
    = Ok (v, length pre + length (value_bytes order v))"
proof (cases v)
  case (VString x)
  with assms have "dd_class d = ClassString" "length x + 1 \<le> dd_length d" "0 \<notin> set x"
    by (cases "dd_class d"; simp)+
  from parse_written_string [OF this assms(4)] VString show ?thesis by simp
next
  case (VLegacyBalance b)
  with assms have b: "qb_balance_ok b" and d: "dd_class d = ClassLegacyBalance" "dd_length d = 6"
    by (cases "dd_class d"; simp add: descriptor_ok_def)+
  have "take_slice (pre @ qb_balance_to_disk_bytes b @ rest) (length pre) 6
      = Ok (qb_balance_to_disk_bytes b, length pre + 6)"
    using assms(4) d(2) by (intro take_slice_written) simp_all
  with VLegacyBalance d show ?thesis
    by (simp add: parse_value_def legacy_balance.decode_encode [OF b])
next
  case (VU32 w)
  with assms have d: "dd_class d = ClassF \<or> dd_class d = ClassI \<or> dd_class d = ClassL" "dd_length d = 4"
    by (cases "dd_class d"; simp add: descriptor_ok_def)+
  have "take_slice (pre @ write_u32 order w @ rest) (length pre) 4 = Ok (write_u32 order w, length pre + 4)"
    using assms(4) d(2) by (intro take_slice_written) simp_all
  with VU32 d(1) show ?thesis by (elim disjE) (simp_all add: parse_value_def)
next
  case (VU16 w)
  with assms have d: "dd_class d = ClassH \<or> dd_class d = ClassU" "dd_length d = 2"
    by (cases "dd_class d"; simp add: descriptor_ok_def)+
  have "take_slice (pre @ write_u16 order w @ rest) (length pre) 2 = Ok (write_u16 order w, length pre + 2)"
    using assms(4) d(2) by (intro take_slice_written) simp_all
  with VU16 d(1) show ?thesis by (elim disjE) (simp_all add: parse_value_def)
next
  case (VBytes x)
  with assms have d: "dd_class d = ClassBytes" "dd_length d = length x"
    by (cases "dd_class d"; simp)+
  have "take_slice (pre @ x @ rest) (length pre) (length x) = Ok (x, length pre + length x)"
    using assms(4) d(2) by (intro take_slice_written) simp_all
  with VBytes d show ?thesis by (simp add: parse_value_def)
next
  case (VZ x)
  with assms have d: "dd_class d = ClassZ" "dd_length d = 9" "length x = 9"
    by (cases "dd_class d"; simp add: descriptor_ok_def)+
  have "take_slice (pre @ x @ rest) (length pre) 9 = Ok (x, length pre + 9)"
    using assms(4) d by (intro take_slice_written) simp_all
  with VZ d show ?thesis by (simp add: parse_value_def)
qed

text \<open>A value that was read matches its descriptor and its bytes are the ones consumed.\<close>

lemma read_u16_Ok: "read_u16 order bs = Ok v \<Longrightarrow> write_u16 order v = bs"
  by (rule drec_u16.encode_decode)

lemma read_u32_Ok: "read_u32 order bs = Ok v \<Longrightarrow> write_u32 order v = bs"
  by (rule drec_u32.encode_decode)

lemma parsed_string:
  assumes "dd_class d = ClassString" and "parse_value bytes c d order = Ok (v, c')" and "c \<le> length bytes"
  shows "value_matches (dd_class d) (dd_length d) v \<and> value_typed v
    \<and> value_bytes order v = take (c' - c) (drop c bytes)"
proof -
  let ?bounded = "take (min (c + dd_length d) (length bytes) - c) (drop c bytes)"
  obtain n where n: "position (\<lambda>b. b = 0) ?bounded = Some n"
    and v: "v = VString (take n (drop c bytes))" and c': "c' = c + n + 1"
    using assms(2) unfolding parse_string_Ok_iff [OF assms(1,3)] by blast
  have len: "n < length ?bounded" and nul: "?bounded ! n = 0" and clean: "\<forall>x \<in> set (take n ?bounded). x \<noteq> 0"
    using position_Some_imp [OF n] by auto
  have "n < dd_length d" and "n < length bytes - c" using len by auto
  moreover have "take n ?bounded = take n (drop c bytes)"
    using len unfolding take_take by (simp only: min_absorb1 less_imp_le length_take)
  moreover have "take n (drop c bytes) @ [0] = take (Suc n) (drop c bytes)"
    using len nul by (simp add: take_Suc_conv_app_nth)
  ultimately show ?thesis
    using clean assms(1) by (auto simp: v c')
qed

lemma parsed_value:
  assumes "parse_value bytes c d order = Ok (v, c')" and "c \<le> length bytes" and "descriptor_ok d"
  shows "value_matches (dd_class d) (dd_length d) v \<and> value_typed v
    \<and> value_bytes order v = take (c' - c) (drop c bytes)"
proof (cases "dd_class d = ClassString")
  case True
  then show ?thesis by (rule parsed_string [OF _ assms(1,2)])
next
  case False
  with assms show ?thesis
    by (cases "dd_class d") (auto simp: parse_value_def outcome_simps take_slice_Ok_iff descriptor_ok_def
        dest: read_u16_Ok read_u32_Ok legacy_balance.encode_decode legacy_balance.decode_valid)
qed

section \<open>Bodies\<close>

definition drec_body :: "drec_byte_order \<Rightarrow> (u16 \<times> drec_value) list \<Rightarrow> byte list" where
  "drec_body order es = concat (map (\<lambda>(k, v). write_u16 order k @ value_bytes order v) es)"

definition entries_of :: "(u16, drec_field) btree \<Rightarrow> (u16 \<times> drec_value) list" where
  "entries_of m = map (\<lambda>(k, f). (k, df_value f)) m"

definition schema_ok :: "drec_schema \<Rightarrow> bool" where
  "schema_ok s \<longleftrightarrow> field_count s \<le> 65535 \<and> (\<forall>d \<in> set (sch_fields s). descriptor_ok d)"

definition entry_fits :: "drec_schema \<Rightarrow> u16 \<times> drec_value \<Rightarrow> bool" where
  "entry_fits s e \<longleftrightarrow>
     (\<exists>d. schema_field s (fst e) = Some d \<and> value_matches (dd_class d) (dd_length d) (snd e))"

definition encoded_size :: "(u16 \<times> drec_value) list \<Rightarrow> nat" where
  "encoded_size es = (\<Sum>e\<leftarrow>es. 2 + value_encoded_len (snd e))"

definition own_ordinals :: "(u16, drec_field) btree \<Rightarrow> bool" where
  "own_ordinals m \<longleftrightarrow> (\<forall>(k, f) \<in> set m. df_ordinal f = k)"

lemma drec_body_simps [simp]:
  "drec_body order [] = []"
  "drec_body order ((k, v) # es) = write_u16 order k @ value_bytes order v @ drec_body order es"
  by (simp_all add: drec_body_def)

lemma entries_of_simps [simp]:
  "entries_of [] = []"
  "entries_of ((k, f) # m) = (k, df_value f) # entries_of m"
  "entries_of (m @ n) = entries_of m @ entries_of n"
  by (simp_all add: entries_of_def)

lemma map_fst_entries_of [simp]: "map fst (entries_of m) = map fst m"
  by (auto simp: entries_of_def)

lemma encoded_size_simps [simp]:
  "encoded_size [] = 0"
  "encoded_size (e # es) = 2 + value_encoded_len (snd e) + encoded_size es"
  by (simp_all add: encoded_size_def)

lemma length_drec_body:
  "\<forall>e \<in> set es. value_typed (snd e) \<Longrightarrow> length (drec_body order es) = encoded_size es"
  by (induction es) (auto simp: length_value_bytes)

lemma schema_new_ok: "drec_schema_new ds = Ok s \<Longrightarrow> schema_ok s"
proof -
  have checked: "rfold (\<lambda>(i, d) _. validate_descriptor i d) (enumerate n ds) () = Ok u \<Longrightarrow> \<forall>d \<in> set ds. descriptor_ok d"
    for n u and ds :: "drec_descriptor list"
    by (induction ds arbitrary: n)
      (auto simp: outcome_simps validate_descriptor_def descriptor_ok_def split: if_splits)
  assume "drec_schema_new ds = Ok s"
  then show ?thesis
    using checked [of 0 "butlast ds"]
    by (auto simp: drec_schema_new_def outcome_simps Let_def schema_ok_def field_count_def split: if_splits)
qed

lemma schema_field_ok:
  assumes "schema_ok s" and "schema_field s k = Some d"
  shows "descriptor_ok d" and "k \<noteq> 0xffff" and "d \<in> set (sch_fields s)"
proof -
  have "unat k < field_count s" and "d = sch_fields s ! unat k"
    using assms(2) by (auto simp: schema_field_def get_at_def field_count_def split: if_splits)
  then show "descriptor_ok d" and "k \<noteq> 0xffff" and "d \<in> set (sch_fields s)"
    using assms(1) by (auto simp: schema_ok_def field_count_def)
qed

section \<open>The encoder\<close>

lemma size_pass_Ok_iff:
  "n \<le> 0x7530 \<Longrightarrow> rfold (size_step s) m n = Ok n' \<longleftrightarrow>
     (\<forall>e \<in> set (entries_of m). entry_fits s e) \<and> n' = n + encoded_size (entries_of m) \<and> n' \<le> 0x7530"
proof (induction m arbitrary: n)
  case (Cons x m)
  obtain k f where x: "x = (k, f)" by fastforce
  let ?n = "n + 2 + value_encoded_len (df_value f)"
  have "size_step s x n = Ok i \<longleftrightarrow> entry_fits s (k, df_value f) \<and> i = ?n \<and> ?n \<le> 0x7530" for i
    using Cons.prems
    by (auto simp: size_step_def x outcome_simps ensure_value_matches_def usize_add_def entry_fits_def
        split: option.split)
  then have "rfold (size_step s) (x # m) n = Ok n' \<longleftrightarrow>
      entry_fits s (k, df_value f) \<and> ?n \<le> 0x7530 \<and> rfold (size_step s) m ?n = Ok n'"
    by (auto simp: outcome_simps)
  also have "\<dots> \<longleftrightarrow> (\<forall>e \<in> set (entries_of (x # m)). entry_fits s e)
      \<and> n' = n + encoded_size (entries_of (x # m)) \<and> n' \<le> 0x7530"
    using Cons.IH [of ?n] by (auto simp: x)
  finally show ?case .
qed auto

lemma write_pass_Ok_iff:
  "rfold (write_step s order) m out = Ok out' \<longleftrightarrow>
     (\<forall>e \<in> set (entries_of m). entry_fits s e) \<and> own_ordinals m \<and> out' = out @ drec_body order (entries_of m)"
proof (induction m arbitrary: out)
  case (Cons x m)
  obtain k f where x: "x = (k, f)" by fastforce
  have "write_step s order x out = Ok i \<longleftrightarrow>
      entry_fits s (k, df_value f) \<and> df_ordinal f = k
      \<and> i = out @ write_u16 order k @ value_bytes order (df_value f)" for i
    by (auto simp: write_step_def x outcome_simps encode_value_def ensure_value_matches_def entry_fits_def)
  then have "rfold (write_step s order) (x # m) out = Ok out' \<longleftrightarrow>
      entry_fits s (k, df_value f) \<and> df_ordinal f = k
      \<and> rfold (write_step s order) m (out @ write_u16 order k @ value_bytes order (df_value f)) = Ok out'"
    by (auto simp: outcome_simps)
  then show ?case using Cons.IH by (auto simp: x own_ordinals_def)
qed (auto simp: own_ordinals_def)

lemma encode_drec_Ok_iff:
  "encode_drec r s order = Ok bs \<longleftrightarrow>
     (\<forall>e \<in> set (entries_of (dr_fields r)). entry_fits s e) \<and> own_ordinals (dr_fields r)
     \<and> 3 + encoded_size (entries_of (dr_fields r)) \<le> 0x7530
     \<and> bs = dr_flag r # drec_body order (entries_of (dr_fields r)) @ write_u16 order 0xffff"
  by (auto simp: encode_drec_def outcome_simps size_pass_Ok_iff write_pass_Ok_iff)

section \<open>The parser reads what was written\<close>

lemma bt_insert_last: "\<forall>x \<in> fst ` set m. x < k \<Longrightarrow> bt_insert k v m = m @ [(k, v)]"
  by (induction m) auto

definition last_key :: "(u16, drec_field) btree \<Rightarrow> u16 option" where
  "last_key m = (if m = [] then None else Some (fst (last m)))"

lemma increasing_step:
  assumes "sorted_wrt (<) (map fst m @ k # ks)"
  shows "check_increasing (last_key m) k = Ok ()" and "bt_get m k = None"
    and "bt_insert k f m = m @ [(k, f)]" and "last_key (m @ [(k, f)]) = Some k"
proof -
  have below: "\<forall>x \<in> fst ` set m. x < k" using assms by (auto simp: sorted_wrt_append)
  then show "check_increasing (last_key m) k = Ok ()"
    by (cases m rule: rev_cases) (auto simp: check_increasing_def last_key_def not_le)
  show "bt_get m k = None" using below by (auto simp: bt_get_None_iff)
  show "bt_insert k f m = m @ [(k, f)]" using below by (rule bt_insert_last)
qed (simp add: last_key_def)

definition addressable :: "drec_schema \<Rightarrow> bool" where
  "addressable s \<longleftrightarrow> (\<forall>d \<in> set (sch_fields s). dd_length d + 0x7530 < 2 ^ 64)"

lemma parse_loop_written:
  assumes "schema_ok s" and "addressable s"
    and "\<forall>e \<in> set es. entry_fits s e \<and> value_typed (snd e)"
    and "sorted_wrt (<) (map fst acc @ map fst es)"
    and "length (pre @ drec_body order es @ write_u16 order 0xffff) \<le> 0x7530"
  shows "\<exists>m. parse_loop (pre @ drec_body order es @ write_u16 order 0xffff) s order flag (length pre) acc (last_key acc)
      = Ok \<lparr>dr_flag = flag, dr_fields = m\<rparr> \<and> entries_of m = entries_of acc @ es"
  using assms(3-)
proof (induction es arbitrary: pre acc)
  case Nil
  have "take_slice (pre @ write_u16 order 0xffff @ []) (length pre) 2 = Ok (write_u16 order 0xffff, length pre + 2)"
    using Nil(3) by (intro take_slice_written) simp_all
  then show ?case by (subst parse_loop.simps) simp
next
  case (Cons e es)
  obtain k v where e: "e = (k, v)" by fastforce
  then obtain d where d: "schema_field s k = Some d" "value_matches (dd_class d) (dd_length d) v" and v: "value_typed v"
    using Cons.prems(1) by (auto simp: entry_fits_def)
  note dok = schema_field_ok [OF assms(1) d(1)]
  let ?rest = "drec_body order es @ write_u16 order 0xffff"
  let ?pre1 = "pre @ write_u16 order k" and ?pre2 = "pre @ write_u16 order k @ value_bytes order v"
  let ?bytes = "pre @ drec_body order (e # es) @ write_u16 order 0xffff"
  have bytes: "?bytes = pre @ write_u16 order k @ value_bytes order v @ ?rest" by (simp add: e)
  have len: "length ?pre2 \<le> 0x7530" using Cons.prems(3) by (simp add: e)
  have ord: "take_slice ?bytes (length pre) 2 = Ok (write_u16 order k, length pre + 2)"
    unfolding bytes using len by (intro take_slice_written) simp_all
  have "dd_length d + 0x7530 < 2 ^ 64" using assms(2) dok(3) by (simp add: addressable_def)
  then have val: "parse_value ?bytes (length pre + 2) d order = Ok (v, length ?pre2)"
    using parse_written_value [OF d(2) v dok(1), of ?pre1 order ?rest] len by (simp add: bytes)
  define f where "f = \<lparr>df_ordinal = k, df_value = v, df_byte_range = (length pre, length ?pre2),
      df_payload_range = (length pre + 2, length ?pre2)\<rparr>"
  have sorted: "sorted_wrt (<) (map fst acc @ k # map fst es)" using Cons.prems(2) by (simp add: e)
  note inc = increasing_step [OF sorted]
  have "parse_loop ?bytes s order flag (length pre) acc (last_key acc)
      = parse_loop ?bytes s order flag (length ?pre2) (acc @ [(k, f)]) (Some k)"
    by (subst parse_loop.simps) (simp add: ord dok inc d val ok_or_def f_def del: append_assoc add_2_eq_Suc add_2_eq_Suc')
  moreover have "\<exists>m. parse_loop (?pre2 @ ?rest) s order flag (length ?pre2) (acc @ [(k, f)]) (last_key (acc @ [(k, f)]))
      = Ok \<lparr>dr_flag = flag, dr_fields = m\<rparr> \<and> entries_of m = entries_of (acc @ [(k, f)]) @ es"
    using Cons.prems by (intro Cons.IH) (simp_all add: e)
  ultimately show ?case by (simp add: bytes inc f_def e)
qed

section \<open>What the parser accepts is what the encoder writes\<close>

lemma check_increasing_sorted:
  assumes "check_increasing (last_key m) k = Ok u" and "sorted_wrt (<) (map fst m)"
  shows "sorted_wrt (<) (map fst m @ [k])"
  using assms by (cases m rule: rev_cases)
    (auto simp: check_increasing_def last_key_def sorted_wrt_append split: if_splits intro: less_trans)

lemma drop_split: "c \<le> stop \<Longrightarrow> drop c bytes = take (stop - c) (drop c bytes) @ drop stop bytes"
  using append_take_drop_id [of "stop - c" "drop c bytes"] by simp

lemma parse_loop_Ok_cases:
  assumes "parse_loop bytes s order flag c acc prev = Ok r"
  obtains (terminator) ob where "take_slice bytes c 2 = Ok (ob, length bytes)"
      and "read_u16 order ob = (Ok 0xffff :: (drec_error, u16) outcome)"
      and "r = \<lparr>dr_flag = flag, dr_fields = acc\<rparr>"
    | (field) ob start k d v stop where "take_slice bytes c 2 = Ok (ob, start)"
      and "read_u16 order ob = (Ok k :: (drec_error, u16) outcome)" and "k \<noteq> 0xffff"
      and "check_increasing prev k = Ok ()" and "schema_field s k = Some d" and "bt_get acc k = None"
      and "parse_value bytes start d order = Ok (v, stop)"
      and "parse_loop bytes s order flag stop
          (bt_insert k \<lparr>df_ordinal = k, df_value = v, df_byte_range = (c, stop), df_payload_range = (start, stop)\<rparr> acc)
          (Some k) = Ok r"
proof -
  note unfold = assms [unfolded parse_loop.simps [of bytes s order flag c acc prev]]
  obtain ob start where ob: "take_slice bytes c 2 = Ok (ob, start)"
    using unfold by (cases "take_slice bytes c 2") auto
  obtain k where k: "read_u16 order ob = (Ok k :: (drec_error, u16) outcome)"
    using unfold ob by (cases "read_u16 order ob :: (drec_error, u16) outcome") simp_all
  show thesis
  proof (cases "k = 0xffff")
    case True
    then show thesis using terminator [of ob] unfold ob k by (simp split: if_splits)
  next
    case False
    then obtain d where "check_increasing prev k = Ok ()" and "schema_field s k = Some d"
      and "bt_get acc k = None"
      and "rbind (parse_value bytes start d order) (\<lambda>(v, stop).
             parse_loop bytes s order flag stop
               (bt_insert k \<lparr>df_ordinal = k, df_value = v, df_byte_range = (c, stop),
                  df_payload_range = (start, stop)\<rparr> acc) (Some k)) = Ok r"
      using unfold ob k by (auto simp: rbind_Ok_iff [of "check_increasing prev k"]
          rbind_Ok_iff [of "ok_or x e" for x e] ok_or_iff split: if_splits)
    then show thesis using field [OF ob k False] by (auto simp: rbind_Ok_iff)
  qed
qed

lemma parse_loop_reads:
  assumes "parse_loop bytes s order flag c acc prev = Ok r" and "c \<le> length bytes" and "schema_ok s"
    and "prev = last_key acc" and "sorted_wrt (<) (map fst acc)"
  shows "\<exists>m. r = \<lparr>dr_flag = flag, dr_fields = acc @ m\<rparr> \<and> sorted_wrt (<) (map fst (acc @ m))
    \<and> drop c bytes = drec_body order (entries_of m) @ write_u16 order 0xffff
    \<and> own_ordinals m \<and> (\<forall>e \<in> set (entries_of m). entry_fits s e \<and> value_typed (snd e))"
  using assms
proof (induction bytes s order flag c acc prev rule: parse_loop.induct)
  case (1 bytes s order flag c acc prev)
  have head: "drop c bytes = write_u16 order k @ drop start bytes \<and> start = c + 2 \<and> start \<le> length bytes"
    if "take_slice bytes c 2 = Ok (ob, start)" and "read_u16 order ob = (Ok k :: (drec_error, u16) outcome)"
    for ob start k
    using that read_u16_Ok [OF that(2)] drop_split [of c start bytes] by (auto simp: take_slice_Ok_iff)
  from "1.prems"(1) show ?case
  proof (cases rule: parse_loop_Ok_cases)
    case (terminator ob)
    with head [OF terminator(1,2)] "1.prems"(5) show ?thesis
      by (intro exI [of _ "[]"]) (simp add: own_ordinals_def)
  next
    case (field ob start k d v stop)
    define f where "f = \<lparr>df_ordinal = k, df_value = v, df_byte_range = (c, stop), df_payload_range = (start, stop)\<rparr>"
    note start = head [OF field(1,2)]
    have sorted: "sorted_wrt (<) (map fst acc @ [k])"
      using check_increasing_sorted field(4) "1.prems"(4,5) by blast
    note step = increasing_step [OF sorted]
    note dok = schema_field_ok [OF "1.prems"(3) field(5)]
    have start_le: "start \<le> length bytes" using start by blast
    note val = parsed_value [OF field(7) start_le dok(1)]
    have stop: "start \<le> stop" "stop \<le> length bytes" using parse_value_cursor [OF field(7) start_le] by auto
    have ins: "bt_insert k \<lparr>df_ordinal = k, df_value = v, df_byte_range = (c, stop), df_payload_range = (start, stop)\<rparr> acc
        = acc @ [(k, f)]" by (simp add: step f_def)
    have "\<exists>m. r = \<lparr>dr_flag = flag, dr_fields = (acc @ [(k, f)]) @ m\<rparr> \<and> sorted_wrt (<) (map fst ((acc @ [(k, f)]) @ m))
      \<and> drop stop bytes = drec_body order (entries_of m) @ write_u16 order 0xffff
      \<and> own_ordinals m \<and> (\<forall>e \<in> set (entries_of m). entry_fits s e \<and> value_typed (snd e))"
    proof (rule "1.IH" [OF field(1) refl field(2,3,4) _ _ field(7) refl, unfolded ins])
      show "ok_or (schema_field s k) (OrdinalOutOfRange k (field_count s)) = Ok d"
        using field(5) by (simp add: ok_or_def)
      show "parse_loop bytes s order flag stop (acc @ [(k, f)]) (Some k) = Ok r"
        using field(8) unfolding ins .
      show "sorted_wrt (<) (map fst (acc @ [(k, f)]))" using sorted by simp
    qed (simp_all add: field(6) stop "1.prems"(3) step)
    then obtain m where r: "r = \<lparr>dr_flag = flag, dr_fields = (acc @ [(k, f)]) @ m\<rparr>"
      and srt: "sorted_wrt (<) (map fst ((acc @ [(k, f)]) @ m))"
      and body: "drop stop bytes = drec_body order (entries_of m) @ write_u16 order 0xffff"
      and m: "own_ordinals m" "\<forall>e \<in> set (entries_of m). entry_fits s e \<and> value_typed (snd e)"
      by blast
    have "drop start bytes = value_bytes order v @ drop stop bytes"
      using drop_split [OF stop(1), of bytes] val by simp
    then have all: "drop c bytes = drec_body order (entries_of ((k, f) # m)) @ write_u16 order 0xffff"
      using start by (simp only: body entries_of_simps drec_body_simps append_assoc f_def drec_field.simps)
    have fit: "entry_fits s (k, v)" using val field(5) by (auto simp: entry_fits_def)
    show ?thesis
    proof (intro exI conjI)
      show "r = \<lparr>dr_flag = flag, dr_fields = acc @ (k, f) # m\<rparr>" using r by simp
      show "sorted_wrt (<) (map fst (acc @ (k, f) # m))" using srt by simp
      show "drop c bytes = drec_body order (entries_of ((k, f) # m)) @ write_u16 order 0xffff" by (rule all)
      show "own_ordinals ((k, f) # m)" using m(1) by (simp add: own_ordinals_def f_def)
      show "\<forall>e \<in> set (entries_of ((k, f) # m)). entry_fits s e \<and> value_typed (snd e)"
        using m(2) fit val by (simp add: f_def)
    qed
  qed
qed

definition record_ok :: "drec_record \<Rightarrow> bool" where
  "record_ok r \<longleftrightarrow> bt_ok (dr_fields r) \<and> (\<forall>(k, f) \<in> set (dr_fields r). value_typed (df_value f))"

lemma record_ok_entries: "record_ok r \<Longrightarrow> \<forall>e \<in> set (entries_of (dr_fields r)). value_typed (snd e)"
  by (auto simp: record_ok_def entries_of_def)

lemma parse_drec_encodes:
  assumes s: "schema_ok s" and p: "parse_drec bs s order = Ok r"
  shows "record_ok r" and "encode_drec r s order = Ok bs"
proof -
  obtain flag rest where bs: "bs = flag # rest" and len: "length bs \<le> 0x7530"
    and loop: "parse_loop bs s order flag 1 [] None = Ok r"
    using p by (cases bs) (auto simp: parse_drec_def split: if_splits)
  have "1 \<le> length bs" and "None = last_key []" and "sorted_wrt (<) (map fst [])"
    by (simp_all add: bs last_key_def)
  from parse_loop_reads [OF loop this(1) s this(2,3)] obtain m
    where r: "r = \<lparr>dr_flag = flag, dr_fields = m\<rparr>" and sorted: "sorted_wrt (<) (map fst m)"
      and body: "drop 1 bs = drec_body order (entries_of m) @ write_u16 order 0xffff"
      and own: "own_ordinals m" and fits: "\<forall>e \<in> set (entries_of m). entry_fits s e \<and> value_typed (snd e)"
    by auto
  show "record_ok r"
    using sorted fits by (auto simp: record_ok_def bt_ok_def r entries_of_def)
  have "rest = drec_body order (entries_of m) @ write_u16 order 0xffff" using body by (simp add: bs)
  moreover from this have "length bs = 3 + encoded_size (entries_of m)"
    using fits by (simp add: bs length_drec_body)
  ultimately show "encode_drec r s order = Ok bs"
    using own fits len by (simp add: encode_drec_Ok_iff r bs)
qed

lemma encode_drec_parses:
  assumes s: "schema_ok s" "addressable s" and r: "record_ok r" and e: "encode_drec r s order = Ok bs"
  shows "\<exists>m. parse_drec bs s order = Ok \<lparr>dr_flag = dr_flag r, dr_fields = m\<rparr>
    \<and> entries_of m = entries_of (dr_fields r)"
proof -
  let ?es = "entries_of (dr_fields r)"
  have fits: "\<forall>e \<in> set ?es. entry_fits s e" and size: "3 + encoded_size ?es \<le> 0x7530"
    and bs: "bs = [dr_flag r] @ drec_body order ?es @ write_u16 order 0xffff"
    using e by (auto simp: encode_drec_Ok_iff)
  have typed: "\<forall>e \<in> set ?es. value_typed (snd e)" using r by (rule record_ok_entries)
  have len: "length bs \<le> 0x7530" using size length_drec_body [OF typed] by (simp add: bs)
  have "\<exists>m. parse_loop ([dr_flag r] @ drec_body order ?es @ write_u16 order 0xffff) s order (dr_flag r)
      (length [dr_flag r]) [] (last_key []) = Ok \<lparr>dr_flag = dr_flag r, dr_fields = m\<rparr>
      \<and> entries_of m = entries_of [] @ ?es"
  proof (rule parse_loop_written [OF s])
    show "\<forall>e \<in> set ?es. entry_fits s e \<and> value_typed (snd e)" using fits typed by blast
    show "sorted_wrt (<) (map fst [] @ map fst ?es)" using r by (simp add: record_ok_def bt_ok_def)
  qed (use len in \<open>simp add: bs\<close>)
  with len show ?thesis by (simp add: parse_drec_def bs last_key_def)
qed

text \<open>
  A string bound near the top of \<open>usize\<close> can be written but not read back: the addition of the
  bound to the cursor overflows. \<open>addressable\<close> excludes it.
\<close>

definition huge_schema :: drec_schema where
  "huge_schema = \<lparr>sch_fields = [\<lparr>dd_class = ClassString, dd_length = 2 ^ 64 - 1, dd_default = None\<rparr>]\<rparr>"

definition empty_string_record :: drec_record where
  "empty_string_record = \<lparr>dr_flag = 0, dr_fields = [(0, unlocated 0 (VString []))]\<rparr>"

lemma huge_bound_not_readable:
  "encode_drec empty_string_record huge_schema Little = Ok [0, 0, 0, 0, 0xff, 0xff]"
  "parse_drec [0, 0, 0, 0, 0xff, 0xff] huge_schema Little = Err LengthOverflow"
proof -
  have w: "write_u16 Little 0 = [0, 0]" "write_u16 Little 0xffff = [0xff, 0xff]"
    by (simp_all add: write_u16_def codec_simps)
  show "encode_drec empty_string_record huge_schema Little = Ok [0, 0, 0, 0, 0xff, 0xff]"
    by (simp add: encode_drec_Ok_iff empty_string_record_def huge_schema_def entry_fits_def schema_field_def
        get_at_def unlocated_def own_ordinals_def w)
  have "read_u16 Little [0, 0] = (Ok 0 :: (drec_error, u16) outcome)"
    by (simp add: read_u16_def codec_simps)
  then show "parse_drec [0, 0, 0, 0, 0xff, 0xff] huge_schema Little = Err LengthOverflow"
    by (simp add: parse_drec_def parse_loop.simps take_slice_def usize_add_def get_range_def ok_or_def
        check_increasing_def schema_field_def get_at_def huge_schema_def parse_value_def)
qed

end
