(* ===== verification/Example_Books.thy ===== *)
theory Example_Books
  imports Trial_Balance_Facts Statement_Facts Decoder_Contract
begin

text \<open>
  A small set of books, accepted by \<open>Ledger::new\<close>, on which the statements of the properties are
  evaluated: a bank account with a sub-account, retained earnings, sales, cost of goods and rent;
  a sale in the year before day 100, a sale and a rent payment after it, a superseded row and a
  row after the reporting date.
\<close>

definition example_account :: "string \<Rightarrow> string \<Rightarrow> qb_classification \<Rightarrow> account_id option \<Rightarrow> account" where
  "example_account i name c parent =
     \<lparr>acc_id = AccountId i, acc_number = None, acc_name = name, acc_parent = parent,
      acc_type = trial_balance_type c, acc_classification = Some c, acc_active = True, acc_activity = Active\<rparr>"

definition example_posting ::
    "string \<Rightarrow> string \<Rightarrow> string \<Rightarrow> accounting_date \<Rightarrow> int \<Rightarrow> current_state \<Rightarrow> posting" where
  "example_posting txn pid account date amount state =
     \<lparr>post_transaction = TransactionId txn, post_id = PostingId pid, post_account = AccountId account,
      post_date = date, post_signed = word_of_int amount, post_state = state,
      post_provenance = \<lparr>prov_source_row = ''row-'' @ pid, prov_page_number = None,
        prov_slot_number = None, prov_decoder = ''d''\<rparr>,
      post_type = None, post_memo = None\<rparr>"

definition example_accounts :: "account list" where
  "example_accounts =
     [example_account ''sales'' ''Sales'' QB_Income None,
      example_account ''bank'' ''Bank'' QB_Bank None,
      example_account ''petty'' ''Petty cash'' QB_Bank (Some (AccountId ''bank'')),
      example_account ''re'' ''Retained earnings'' QB_Equity None,
      example_account ''rent'' ''Rent'' QB_Expense None]"

definition example_postings :: "posting list" where
  "example_postings =
     [example_posting ''t1'' ''p1'' ''bank'' 50 10000 Current,
      example_posting ''t1'' ''p2'' ''sales'' 50 (-10000) Current,
      example_posting ''t2'' ''p3'' ''petty'' 120 5000 Current,
      example_posting ''t2'' ''p4'' ''sales'' 120 (-5000) Current,
      example_posting ''t3'' ''p5'' ''rent'' 130 2000 Current,
      example_posting ''t3'' ''p6'' ''bank'' 130 (-2000) Current,
      example_posting ''t4'' ''p7'' ''rent'' 130 777 Superseded,
      example_posting ''t5'' ''p8'' ''rent'' 900 999 Current]"

definition example_books :: ledger where
  "example_books = \<lparr>led_accounts = chart_of example_accounts, led_postings = example_postings, led_completeness = Complete\<rparr>"

definition example_options :: trial_balance_options where
  "example_options = \<lparr>include_zero_balance_accounts = True\<rparr>"

definition example_policy :: accrual_policy where
  "example_policy = \<lparr>pol_fiscal_year_start = 100, pol_retained_earnings = AccountId ''re''\<rparr>"

lemma example_new: "ledger_new example_accounts example_postings Complete = Ok example_books"
  by code_simp

lemma example_ok: "ledger_ok example_books"
  by (rule ledger_new_ledger_ok [OF example_new])

definition value_of :: "('e, 'a) outcome \<Rightarrow> 'a" where
  "value_of r = (case r of Ok a \<Rightarrow> a | _ \<Rightarrow> undefined)"

fun is_ok :: "('e, 'a) outcome \<Rightarrow> bool" where
  "is_ok (Ok a) = True"
| "is_ok _ = False"

lemma is_ok_value: "is_ok r \<Longrightarrow> r = Ok (value_of r)"
  by (cases r) (simp_all add: value_of_def)

lemma example_general_ledger: "is_ok (general_ledger_as_of example_books 200)"
  by code_simp

lemma example_trial_balance: "is_ok (trial_balance_as_of example_books 200 example_options)"
  by code_simp

lemma example_accrual: "is_ok (quickbooks_accrual_trial_balance_as_of example_books 200 example_options example_policy)"
  by code_simp

lemma example_profit_and_loss: "is_ok (profit_and_loss example_books 100 200 example_options)"
  by code_simp

lemma example_balance_sheet: "is_ok (balance_sheet_as_of example_books 200 example_options example_policy)"
  by code_simp

end
