(* ===== verification/Ledger_Properties.thy ===== *)
theory Ledger_Properties
  imports Example_Books
begin

text \<open>
  The properties of the ledger, its reports and its statements, each with its evaluation on the
  example books where it has a hypothesis.
\<close>

section \<open>Construction\<close>

text \<open>C33: \<open>Ledger::new\<close> accepts exactly the inputs with distinct account identifiers, a hierarchy in
  which every account reaches a top-level account, and postings that are nonzero, on known
  accounts, with distinct identifiers and source rows; the ledger holds them unchanged, the
  accounts in identifier order.\<close>

theorem ledger_new_accepts:
  "ledger_new as ps c = Ok l \<longleftrightarrow>
     distinct (map acc_id as) \<and> hierarchy_ok (chart_of as) \<and> postings_ok (chart_of as) ps
     \<and> l = \<lparr>led_accounts = chart_of as, led_postings = ps, led_completeness = c\<rparr>"
  by (rule ledger_new_Ok)

text \<open>In an accepted ledger no chain of parent links returns to its start, and every account's
  chain ends at a top-level account of the chart.\<close>

theorem accepted_hierarchy:
  assumes "ledger_new as ps c = Ok l"
  shows "acyclic (parent_rel (led_accounts l)) \<and> (\<forall>a \<in> set as. rooted (led_accounts l) (acc_id a))"
  using assms by (auto simp: ledger_new_Ok hierarchy_ok_def keys_chart_of intro: hierarchy_ok_acyclic)

lemma accepted_hierarchy_witness:
  "acyclic (parent_rel (led_accounts example_books))
   \<and> list_all (\<lambda>a. rooted (led_accounts example_books) (acc_id a)) example_accounts"
  using accepted_hierarchy [OF example_new] by (simp add: list_all_iff)

text \<open>\<open>Ledger::new\<close> never panics when every parent that an account names is in the input.\<close>

theorem ledger_new_total:
  assumes "\<forall>a \<in> set as. \<forall>p. acc_parent a = Some p \<longrightarrow> p \<in> acc_id ` set as"
  shows "ledger_new as ps c \<noteq> Panic"
  using assms by (rule ledger_new_no_panic)

lemma ledger_new_total_witness: "ledger_new example_accounts [] (Incomplete ''x'') \<noteq> Panic"
  by (rule ledger_new_total) (simp add: example_accounts_def example_account_def)

text \<open>C40: Without that condition it can panic: a child that sorts before its parent, where the
  parent names a missing grandparent, makes the walk index a missing account; with the two
  identifiers in the other order the same defect is reported as an error.\<close>

theorem missing_grandparent_panics:
  assumes "acc_parent a = Some (acc_id b)" and "acc_parent b = Some g" and "g \<noteq> acc_id a" and "g \<noteq> acc_id b"
    and "acc_id a \<noteq> acc_id b"
  shows "ledger_new [a, b] ps c =
    (if acc_id a < acc_id b then Panic else Err (UnknownParentAccount (acc_id b) g))"
  using missing_grandparent [OF assms(1-4), of ps c] assms(5) by (cases "acc_id a" "acc_id b" rule: linorder_cases) auto

lemma missing_grandparent_panics_witness:
  "ledger_new [example_account ''a'' ''A'' QB_Bank (Some (AccountId ''b'')),
               example_account ''b'' ''B'' QB_Bank (Some (AccountId ''z''))] [] Complete = Panic"
  using missing_grandparent_panics [of "example_account ''a'' ''A'' QB_Bank (Some (AccountId ''b''))"
      "example_account ''b'' ''B'' QB_Bank (Some (AccountId ''z''))" "AccountId ''z''" "[]" Complete]
  by (simp add: example_account_def id_order_defs)

text \<open>Posting a validated debit or credit amount is exact: it never panics, the signed amount is
  plus or minus the minor units, and exactly the column of its side shows them.\<close>

theorem posting_new_exact:
  assumes "debit_credit_amount_new side m = Ok amount"
  shows "\<exists>p. posting_new t i a d amount s pr ty me = Ok p
    \<and> sint (post_signed p) = (case side of Debit \<Rightarrow> sint m | Credit \<Rightarrow> - sint m)
    \<and> debit_minor_units p = (case side of Debit \<Rightarrow> Some m | Credit \<Rightarrow> None)
    \<and> credit_minor_units p = (case side of Debit \<Rightarrow> None | Credit \<Rightarrow> Some m)"
proof -
  obtain w where w: "signed_minor_units amount = Ok w"
    and v: "sint w = (case side of Debit \<Rightarrow> sint m | Credit \<Rightarrow> - sint m)"
    using signed_minor_units_valid [OF assms] by blast
  have pos: "0 < sint m" using assms by (simp add: debit_credit_amount_new_Ok_iff)
  have "sint (word_of_int (- sint w) :: i64) = - sint w"
    using v pos i64_range [of m] by (intro sint_word_of_int_range) (cases side; simp)+
  then have "sint (- w) = - sint w" by simp
  then have "- w = m" if "side = Credit" using v that by (intro sint_eqI) simp
  moreover have "w = m" if "side = Debit" using v that by (intro sint_eqI) simp
  ultimately show ?thesis
    using v pos w by (cases side) (auto simp: posting_new_def debit_minor_units_def credit_minor_units_def)
qed

lemma posting_new_exact_witness:
  "\<exists>p. posting_new (TransactionId ''t'') (PostingId ''p'') (AccountId ''a'') 0
      \<lparr>amount_side = Credit, amount_minor_units = 250\<rparr> Current undefined None None = Ok p
    \<and> sint (post_signed p) = - 250 \<and> debit_minor_units p = None \<and> credit_minor_units p = Some 250"
proof -
  have "debit_credit_amount_new Credit 250 = Ok \<lparr>amount_side = Credit, amount_minor_units = 250\<rparr>"
    by (simp add: debit_credit_amount_new_def)
  from posting_new_exact [OF this, of "TransactionId ''t''" "PostingId ''p''" "AccountId ''a''" 0 Current undefined None None]
  show ?thesis by simp
qed

section \<open>Reports\<close>

text \<open>C6: The General Ledger at a date exists exactly when the extraction is complete, no ambiguous row
  is dated up to it, and every transaction's current postings up to it sum to zero; it then holds
  exactly those postings with their accounts, ordered by date, account, transaction and posting.\<close>

theorem general_ledger_closed_form:
  assumes "ledger_new as ps c = Ok l"
  shows "general_ledger_as_of l d = Ok gl \<longleftrightarrow>
    c = Complete \<and> (\<forall>p \<in> set ps. \<not> ambiguous_upto d p)
    \<and> (\<forall>t. posted l d (\<lambda>p. post_transaction p = t) = 0)
    \<and> gl = \<lparr>gl_as_of = d, gl_entries = sort_key entry_key (map (entry_of (chart_of as)) (filter (current_upto d) ps))\<rparr>"
  using general_ledger_Ok_iff [OF ledger_new_ledger_ok [OF assms]] assms
  by (auto simp: ledger_new_Ok reportable_def transactions_balance_def report_entries_def)

lemma general_ledger_closed_form_witness:
  "general_ledger_as_of example_books 200 = Ok
     \<lparr>gl_as_of = 200, gl_entries = sort_key entry_key (map (entry_of (chart_of example_accounts))
        (filter (current_upto 200) example_postings))\<rparr>"
  using general_ledger_closed_form [OF example_new] is_ok_value [OF example_general_ledger] by blast

text \<open>C5: The Trial Balance exists exactly when the General Ledger does and every account's balance is
  smaller than \<open>2\<^sup>6\<^sup>3\<close> in size; each shown row then carries the exact sum of the account's postings.\<close>

theorem trial_balance_closed_form:
  assumes "ledger_new as ps c = Ok l"
  shows "trial_balance_as_of l d options = Ok tb \<longleftrightarrow>
    (\<exists>gl. general_ledger_as_of l d = Ok gl)
    \<and> (\<forall>a \<in> set (bt_values (led_accounts l)). \<bar>account_balance l d a\<bar> < 2 ^ 63)
    \<and> tb = balance_report l d options (account_balance l d)"
  using trial_balance_Ok_iff [OF ledger_new_ledger_ok [OF assms]]
    general_ledger_Ok_iff [OF ledger_new_ledger_ok [OF assms]]
  by (simp add: fits_column_def)

lemma trial_balance_closed_form_witness:
  "trial_balance_as_of example_books 200 example_options
     = Ok (balance_report example_books 200 example_options (account_balance example_books 200))"
  using trial_balance_closed_form [OF example_new] is_ok_value [OF example_trial_balance] by blast

text \<open>The debit and credit columns of a Trial Balance, plain or accrual, have the same total.\<close>

theorem trial_balance_columns_agree:
  assumes "ledger_new as ps c = Ok l"
    and "trial_balance_as_of l d options = Ok tb \<or> quickbooks_accrual_trial_balance_as_of l d options policy = Ok tb"
  shows "total_debit_minor_units tb = total_credit_minor_units tb"
proof -
  note l = ledger_new_ledger_ok [OF assms(1)]
  from assms(2) show ?thesis
  proof
    assume "trial_balance_as_of l d options = Ok tb"
    then show ?thesis
      using balance_report_totals account_balance_sum [OF l] by (auto simp: trial_balance_Ok_iff [OF l])
  next
    assume "quickbooks_accrual_trial_balance_as_of l d options policy = Ok tb"
    then show ?thesis
      using balance_report_totals accrual_presentation_sum [OF l]
      by (auto simp: accrual_trial_balance_Ok_iff [OF l])
  qed
qed

lemma trial_balance_columns_agree_witness:
  "total_debit_minor_units (value_of (trial_balance_as_of example_books 200 example_options))
     = total_credit_minor_units (value_of (trial_balance_as_of example_books 200 example_options))"
  using trial_balance_columns_agree [OF example_new] is_ok_value [OF example_trial_balance] by blast

text \<open>A Trial Balance of a ledger with a General Ledger never panics and fails only because some
  account's balance does not fit its column: the final net-zero test is redundant.\<close>

theorem trial_balance_failure:
  assumes "ledger_new as ps c = Ok l" and "general_ledger_as_of l d = Ok gl"
  shows "\<exists>tb. trial_balance_as_of l d options = Ok tb \<or>
    (\<exists>a \<in> set (bt_values (led_accounts l)). 2 ^ 63 \<le> \<bar>account_balance l d a\<bar>
       \<and> trial_balance_as_of l d options = Err (BalanceOverflow (acc_id a)))"
proof -
  note l = ledger_new_ledger_ok [OF assms(1)]
  let ?b = "bt_tally (\<lambda>e. post_account (ent_posting e)) entry_amount (sort_key entry_key (report_entries l d))"
  have r: "reportable l d" and gl: "gl_entries gl = sort_key entry_key (report_entries l d)"
    using assms(2) by (auto simp: general_ledger_Ok_iff [OF l])
  have run: "trial_balance_as_of l d options = trial_balance_from_balances l d options ?b"
    by (simp add: trial_balance_as_of_def assms(2) gl)
  have total: "bt_total ?b (acc_id a) = account_balance l d a" for a
    unfolding account_balance_def by (rule report_total)
  have zero: "(\<Sum>a\<leftarrow>bt_values (led_accounts l). bt_total ?b (acc_id a)) = 0"
    using account_balance_sum [OF l r] by (simp add: total)
  show ?thesis
  proof (cases "trial_balance_from_balances l d options ?b")
    case (Err e)
    from trial_balance_from_balances_Err [OF zero this] show ?thesis
      using Err by (auto simp: run total fits_column_def not_less)
  qed (simp_all add: run trial_balance_from_balances_no_panic)
qed

lemma trial_balance_failure_witness:
  "\<exists>tb. trial_balance_as_of example_books 200 example_options = Ok tb \<or>
    (\<exists>a \<in> set (bt_values (led_accounts example_books)). 2 ^ 63 \<le> \<bar>account_balance example_books 200 a\<bar>
       \<and> trial_balance_as_of example_books 200 example_options = Err (BalanceOverflow (acc_id a)))"
  using trial_balance_failure [OF example_new] is_ok_value [OF example_general_ledger] by blast

text \<open>C7: The accrual Trial Balance exists exactly when the fiscal year has started, the retained
  earnings account is an equity account of the chart, the General Ledger exists and the presented
  balances fit; profit-and-loss accounts show the current year only, and retained earnings absorbs
  the profit-and-loss postings of all prior years.\<close>

theorem accrual_closed_form:
  assumes "ledger_new as ps c = Ok l"
  shows "quickbooks_accrual_trial_balance_as_of l d options policy = Ok tb \<longleftrightarrow>
    pol_fiscal_year_start policy \<le> d
    \<and> (\<exists>r. bt_get (led_accounts l) (pol_retained_earnings policy) = Some r \<and> acc_type r = Equity)
    \<and> (\<exists>gl. general_ledger_as_of l d = Ok gl)
    \<and> (\<forall>a \<in> set (bt_values (led_accounts l)). \<bar>accrual_presentation l d policy a\<bar> < 2 ^ 63)
    \<and> tb = balance_report l d options (accrual_presentation l d policy)"
  using accrual_trial_balance_Ok_iff [OF ledger_new_ledger_ok [OF assms]]
    general_ledger_Ok_iff [OF ledger_new_ledger_ok [OF assms]]
  by (simp add: fits_column_def)

lemma accrual_closed_form_witness:
  "quickbooks_accrual_trial_balance_as_of example_books 200 example_options example_policy
     = Ok (balance_report example_books 200 example_options (accrual_presentation example_books 200 example_policy))"
  using accrual_closed_form [OF example_new] is_ok_value [OF example_accrual] by blast

text \<open>When no profit-and-loss posting precedes the fiscal year, the accrual report and the plain
  Trial Balance are the same report.\<close>

theorem accrual_without_prior_years:
  assumes "ledger_new as ps c = Ok l"
    and "\<forall>p \<in> set ps. post_date p < pol_fiscal_year_start policy \<longrightarrow> \<not> posting_is_profit_and_loss l p"
    and "quickbooks_accrual_trial_balance_as_of l d options policy = Ok tb"
  shows "trial_balance_as_of l d options = Ok tb"
proof -
  note l = ledger_new_ledger_ok [OF assms(1)]
  have ps: "led_postings l = ps" using assms(1) by (simp add: ledger_new_Ok)
  have none: "prior_years_result l d policy = 0"
  proof -
    have "filter (\<lambda>p. current_upto d p \<and> post_date p < pol_fiscal_year_start policy \<and> posting_is_profit_and_loss l p) ps = []"
      using assms(2) by (auto simp: filter_empty_conv)
    then show ?thesis by (simp add: prior_years_result_def posted_def ps)
  qed
  have same: "accrual_presentation l d policy a = account_balance l d a" if a: "a \<in> set (bt_values (led_accounts l))" for a
  proof (cases "is_profit_and_loss (acc_type a)")
    case True
    have "bt_get (led_accounts l) (acc_id a) = Some a" using a values_get [OF ledger_ok_chart [OF l]] by blast
    then have "posting_is_profit_and_loss l p" if "post_account p = acc_id a" for p
      using that True by (simp add: posting_is_profit_and_loss_def)
    then have "posted l d (\<lambda>p. post_account p = acc_id a \<and> pol_fiscal_year_start policy \<le> post_date p)
        = posted l d (\<lambda>p. post_account p = acc_id a)"
      using assms(2) by (intro posted_cong) (auto simp: ps not_le)
    with True show ?thesis by (simp add: accrual_presentation_def account_balance_def)
  qed (simp add: accrual_presentation_def none)
  have "balance_report l d options (accrual_presentation l d policy) = balance_report l d options (account_balance l d)"
    using same by (auto simp: balance_report_def cong: filter_cong)
  with assms(3) show ?thesis
    using same by (simp add: accrual_trial_balance_Ok_iff [OF l] trial_balance_Ok_iff [OF l])
qed

lemma accrual_without_prior_years_witness:
  "\<exists>tb. trial_balance_as_of example_books 200 example_options = Ok tb"
proof -
  let ?policy = "example_policy\<lparr>pol_fiscal_year_start := 10\<rparr>"
  have "is_ok (quickbooks_accrual_trial_balance_as_of example_books 200 example_options ?policy)" by code_simp
  moreover have "\<forall>p \<in> set example_postings. pol_fiscal_year_start ?policy \<le> post_date p" by code_simp
  ultimately show ?thesis
    using accrual_without_prior_years [OF example_new, of ?policy 200 example_options] is_ok_value by fastforce
qed

text \<open>The order in which the postings were supplied does not change the General Ledger or the
  Trial Balance.\<close>

theorem reports_order_independent:
  assumes "ledger_new as ps c = Ok l" and "ledger_new as ps' c = Ok l'" and "mset ps' = mset ps"
  shows "(general_ledger_as_of l' d = Ok gl \<longleftrightarrow> general_ledger_as_of l d = Ok gl)
    \<and> (trial_balance_as_of l' d options = Ok tb \<longleftrightarrow> trial_balance_as_of l d options = Ok tb)"
proof -
  note l = ledger_new_ledger_ok [OF assms(1)] and l' = ledger_new_ledger_ok [OF assms(2)]
  have l'_eq: "l' = l\<lparr>led_postings := ps'\<rparr>" and perm: "mset ps' = mset (led_postings l)"
    using assms by (auto simp: ledger_new_Ok)
  have gl: "general_ledger_as_of l' d = Ok gl \<longleftrightarrow> general_ledger_as_of l d = Ok gl" for gl
    unfolding l'_eq by (rule general_ledger_permutation [OF l perm])
  have "reportable l' d = reportable l d"
    using gl unfolding general_ledger_Ok_iff [OF l] general_ledger_Ok_iff [OF l'] by blast
  moreover have "account_balance l' d = account_balance l d"
    by (simp add: account_balance_def fun_eq_iff l'_eq posted_permutation [OF perm])
  moreover have "led_accounts l' = led_accounts l" by (simp add: l'_eq)
  ultimately show ?thesis
    using gl by (simp add: trial_balance_Ok_iff [OF l] trial_balance_Ok_iff [OF l'] balance_report_def)
qed

lemma reports_order_independent_witness:
  "\<exists>l'. ledger_new example_accounts (rev example_postings) Complete = Ok l'
    \<and> (\<exists>gl. general_ledger_as_of l' 200 = Ok gl \<and> general_ledger_as_of example_books 200 = Ok gl)"
proof -
  have "is_ok (ledger_new example_accounts (rev example_postings) Complete)" by code_simp
  from reports_order_independent [OF example_new is_ok_value [OF this]] is_ok_value [OF this]
    is_ok_value [OF example_general_ledger]
  show ?thesis by (metis mset_rev)
qed

text \<open>Rows dated after the cutoff, and superseded or deleted rows, never influence a report.\<close>

theorem reports_ignore_irrelevant_rows:
  "general_ledger_as_of (l\<lparr>led_postings := filter (relevant d) (led_postings l)\<rparr>) d = general_ledger_as_of l d
   \<and> trial_balance_as_of (l\<lparr>led_postings := filter (relevant d) (led_postings l)\<rparr>) d options
     = trial_balance_as_of l d options"
  using general_ledger_relevant [where l = l and d = d]
  by (simp add: trial_balance_as_of_def trial_balance_from_balances_def)

section \<open>Statements\<close>

text \<open>C16: The Profit and Loss net income is minus the sum of the profit-and-loss postings dated in the
  inclusive period.\<close>

theorem net_income_of_period:
  assumes "ledger_new as ps c = Ok l" and "profit_and_loss l from_date through options = Ok st"
  shows "statement_amount st ''net_income'' = Some (- posted l through
    (\<lambda>p. from_date \<le> post_date p \<and> posting_is_profit_and_loss l p))"
proof -
  note l = ledger_new_ledger_ok [OF assms(1)]
  note ok = assms(2) [unfolded profit_and_loss_Ok_iff [OF l]]
  then have "statement_amount st ''net_income''
      = Some (net_of_sections (period_balance l from_date through) (bt_values (led_accounts l)))"
    using profit_and_loss_net_income by simp
  also have "\<dots> = Some (- period_result l from_date through)"
    using ok by (simp add: net_of_sections_period [OF l])
  finally show ?thesis by (simp add: period_result_def)
qed

lemma net_income_of_period_witness:
  "statement_amount (value_of (profit_and_loss example_books 100 200 example_options)) ''net_income''
     = Some (- posted example_books 200 (\<lambda>p. 100 \<le> post_date p \<and> posting_is_profit_and_loss example_books p))"
  by (rule net_income_of_period [OF example_new is_ok_value [OF example_profit_and_loss]])

text \<open>Net income adds up: over two adjacent periods it is the net income of the joined period.\<close>

theorem net_income_additive:
  assumes "ledger_new as ps c = Ok l" and "from_date \<le> mid" and "mid < through"
    and "profit_and_loss l from_date mid options = Ok st1"
    and "profit_and_loss l (mid + 1) through options = Ok st2"
    and "profit_and_loss l from_date through options = Ok st"
  shows "the (statement_amount st ''net_income'')
    = the (statement_amount st1 ''net_income'') + the (statement_amount st2 ''net_income'')"
proof -
  note l = ledger_new_ledger_ok [OF assms(1)]
  have net: "the (statement_amount s ''net_income'') = - period_result l f t"
    if "profit_and_loss l f t options = Ok s" for f t s
  proof -
    note ok = that [unfolded profit_and_loss_Ok_iff [OF l]]
    then have "statement_amount s ''net_income''
        = Some (net_of_sections (period_balance l f t) (bt_values (led_accounts l)))"
      using profit_and_loss_net_income by simp
    with ok show ?thesis by (simp add: net_of_sections_period [OF l])
  qed
  show ?thesis
    using period_result_split [OF assms(2,3), of l] by (simp add: net [OF assms(4)] net [OF assms(5)] net [OF assms(6)])
qed

lemma net_income_additive_witness:
  "the (statement_amount (value_of (profit_and_loss example_books 40 200 example_options)) ''net_income'')
   = the (statement_amount (value_of (profit_and_loss example_books 40 99 example_options)) ''net_income'')
   + the (statement_amount (value_of (profit_and_loss example_books (99 + 1) 200 example_options)) ''net_income'')"
proof -
  have ok: "is_ok (profit_and_loss example_books 40 99 example_options)"
    "is_ok (profit_and_loss example_books (99 + 1) 200 example_options)"
    "is_ok (profit_and_loss example_books 40 200 example_options)" by code_simp+
  show ?thesis
    by (rule net_income_additive [OF example_new _ _ is_ok_value [OF ok(1)] is_ok_value [OF ok(2)] is_ok_value [OF ok(3)]])
      simp_all
qed

text \<open>C15: A Balance Sheet satisfies the accounting equation: its total assets equal its total
  liabilities and equity.\<close>

theorem balance_sheet_equation:
  assumes "ledger_new as ps c = Ok l" and "balance_sheet_as_of l d options policy = Ok st"
  shows "statement_amount st ''total_assets'' \<noteq> None
    \<and> statement_amount st ''total_assets'' = statement_amount st ''total_liabilities_and_equity''"
proof -
  note l = ledger_new_ledger_ok [OF assms(1)]
  note ok = assms(2) [unfolded balance_sheet_Ok_iff [OF l]]
  have zero: "(\<Sum>a\<leftarrow>bt_values (led_accounts l). accrual_presentation l d policy a) = 0"
    using ok accrual_presentation_sum [OF l] by (auto simp: accrual_trial_balance_Ok_iff [OF l])
  show ?thesis
    using ok accounting_equation [OF _ zero] by (simp add: balance_sheet_amounts)
qed

lemma balance_sheet_equation_witness:
  "statement_amount (value_of (balance_sheet_as_of example_books 200 example_options example_policy)) ''total_assets''
   = statement_amount (value_of (balance_sheet_as_of example_books 200 example_options example_policy))
       ''total_liabilities_and_equity''"
  using balance_sheet_equation [OF example_new is_ok_value [OF example_balance_sheet]] by blast

text \<open>The calculated current-year net income of a Balance Sheet is the net income of the Profit and
  Loss from the fiscal year start to the same date.\<close>

theorem balance_sheet_net_income:
  assumes "ledger_new as ps c = Ok l" and "balance_sheet_as_of l d options policy = Ok bs"
    and "profit_and_loss l (pol_fiscal_year_start policy) d options = Ok pl"
  shows "statement_amount bs ''current_year_net_income'' = statement_amount pl ''net_income''"
proof -
  note l = ledger_new_ledger_ok [OF assms(1)]
  note ok = assms(2) [unfolded balance_sheet_Ok_iff [OF l]] and pl = assms(3) [unfolded profit_and_loss_Ok_iff [OF l]]
  have "statement_amount bs ''current_year_net_income''
      = Some (net_of_sections (accrual_presentation l d policy) (bt_values (led_accounts l)))"
    using ok by (simp add: balance_sheet_amounts)
  also have "\<dots> = Some (- period_result l (pol_fiscal_year_start policy) d)"
    using ok by (subst net_of_sections_period [OF l, of _ "pol_fiscal_year_start policy" d])
      (simp_all add: accrual_presentation_def period_balance_def)
  also have "\<dots> = statement_amount pl ''net_income''"
    using pl by (simp add: profit_and_loss_net_income net_of_sections_period [OF l])
  finally show ?thesis .
qed

lemma balance_sheet_net_income_witness:
  "statement_amount (value_of (balance_sheet_as_of example_books 200 example_options example_policy)) ''current_year_net_income''
   = statement_amount (value_of (profit_and_loss example_books (pol_fiscal_year_start example_policy) 200 example_options)) ''net_income''"
proof -
  have "is_ok (profit_and_loss example_books (pol_fiscal_year_start example_policy) 200 example_options)" by code_simp
  from balance_sheet_net_income [OF example_new is_ok_value [OF example_balance_sheet] is_ok_value [OF this]]
  show ?thesis .
qed

text \<open>C35: Neither statement panics on an accepted ledger, and the Balance Sheet never reports itself
  unbalanced: the \<open>unreachable!\<close> of \<open>section_for\<close> and the last test are unreachable.\<close>

theorem statements_total:
  assumes "ledger_new as ps c = Ok l"
  shows "profit_and_loss l from_date through options \<noteq> Panic
    \<and> balance_sheet_as_of l d options policy \<noteq> Panic
    \<and> balance_sheet_as_of l d options policy \<noteq> Err UnbalancedBalanceSheet"
  using ledger_new_ledger_ok [OF assms]
  by (simp add: profit_and_loss_total balance_sheet_total balance_sheet_never_unbalanced)

lemma statements_total_witness:
  "balance_sheet_as_of example_books 5 example_options example_policy \<noteq> Err UnbalancedBalanceSheet"
  using statements_total [OF example_new] by blast

section \<open>Hand-off\<close>

text \<open>A ledger built from two hand-offs is complete, holds exactly the non-excluded candidates, and
  together with the exclusions they are as many as the decoder attested.\<close>

theorem hand_off_conserves:
  assumes "decoded_postings_new s dec ds cov = Ok dp" and "ledger_adapter_build da dp = Ok l"
  shows "led_completeness l = Complete \<and> led_postings l = into_postings dp
    \<and> length (led_postings l) + length (exclusions dp) = unat (handled_candidates cov)
    \<and> da_snapshot da = s"
  using assms dispositions_partition [of dp]
  by (auto simp: build_Ok_iff decoded_postings_new_Ok_iff ledger_new_Ok)

definition example_dispositions :: "posting_disposition list" where
  "example_dispositions =
     map Posting example_postings @
     [Excluded \<lparr>excl_provenance = \<lparr>prov_source_row = ''row-x'', prov_page_number = None,
        prov_slot_number = None, prov_decoder = ''d''\<rparr>, excl_reason = DeletionTombstone\<rparr>]"

definition example_hand_off :: decoded_postings where
  "example_hand_off = \<lparr>dp_snapshot = SourceSnapshotId ''s'', dp_decoder = DecoderIdentity ''d'',
     dp_dispositions = example_dispositions\<rparr>"

definition example_coverage :: complete_coverage where
  "example_coverage = \<lparr>recognized_candidates = 9, handled_candidates = 9\<rparr>"

lemma example_hand_off_new:
  "decoded_postings_new (SourceSnapshotId ''s'') (DecoderIdentity ''d'') example_dispositions example_coverage
     = Ok example_hand_off"
proof -
  have "distinct (map candidate_row example_dispositions)" by code_simp
  then show ?thesis
    by (simp add: decoded_postings_new_Ok_iff example_hand_off_def example_coverage_def)
      (simp add: example_dispositions_def example_postings_def)
qed

lemma hand_off_conserves_witness:
  "length (led_postings example_books) + length (exclusions example_hand_off) = 9"
proof -
  have "ledger_adapter_build \<lparr>da_snapshot = SourceSnapshotId ''s'', da_decoder = DecoderIdentity ''d'',
      da_accounts = example_accounts\<rparr> example_hand_off = Ok example_books" by code_simp
  from hand_off_conserves [OF example_hand_off_new this]
  have "length (led_postings example_books) + length (exclusions example_hand_off)
      = unat (handled_candidates example_coverage)" by blast
  then show ?thesis by (simp add: example_coverage_def)
qed

text \<open>After the hand-off check of candidate provenance, the ledger never reports a duplicate source
  row.\<close>

theorem hand_off_provenance_unique:
  assumes "decoded_postings_new s dec ds cov = Ok dp"
  shows "ledger_adapter_build da dp \<noteq> Err (InvalidNormalizedLedger (DuplicateProvenance r))"
  using assms into_postings_distinct [of ds s dec] ledger_new_not_provenance
  by (auto simp: ledger_adapter_build_def outcome_simps decoded_postings_new_Ok_iff)

lemma hand_off_provenance_unique_witness:
  "ledger_adapter_build \<lparr>da_snapshot = SourceSnapshotId ''s'', da_decoder = DecoderIdentity ''d'', da_accounts = []\<rparr>
     example_hand_off \<noteq> Err (InvalidNormalizedLedger (DuplicateProvenance ''row-x''))"
  by (rule hand_off_provenance_unique [OF example_hand_off_new])

end
