(* ===== verification/Codec_Properties.thy ===== *)
theory Codec_Properties
  imports Posting_Date Posting_Cents Drec_Facts Account_Types
begin

text \<open>The properties of the disk values and of the record grammar.\<close>

section \<open>Dates\<close>

text \<open>The two SA-day conversions are inverse to each other on the plausible window.\<close>

theorem sa_day_conversions_inverse:
  "unix_day_to_sa_day u = Some s \<longleftrightarrow> sa_day_to_unix_day s = Some u"
  by (simp add: unix_day_to_sa_day_Some_iff sa_day_to_unix_day_Some_iff)

text \<open>A \<open>DateType32\<close> value decodes to a date exactly when it is the encoding of a valid Gregorian
  date, and to the missing date exactly when it is all zero.\<close>

theorem qb_date_codec:
  "qb_date_from_disk_bytes bs = Ok x \<longleftrightarrow>
     (case x of None \<Rightarrow> bs = [0, 0, 0, 0] | Some d \<Rightarrow> qb_date_ok d \<and> bs = qb_date_to_disk_bytes d)"
  using quickbooks_date.decode_iff [of bs x] by (auto simp: qb_date_disk_form_def split: option.splits)

text \<open>The day count of a calendar date advances by one from each date to the next, across months and
  leap years, and is zero on 1600-02-29.\<close>

theorem day_count_is_calendar:
  assumes "days_since_sa_epoch y m d = Ok n"
  shows "(case next_ymd y m d of (y', m', d') \<Rightarrow> days_since_sa_epoch y' m' d' = Ok (n + 1))
    \<and> days_since_sa_epoch 1600 2 29 = Ok 0"
proof -
  obtain y' m' d' where step: "next_ymd y m d = (y', m', d')" by (cases "next_ymd y m d")
  have "valid_ymd y m d" using assms by (simp add: days_since_sa_epoch_Ok_iff)
  from next_ymd_count [OF this step] have "days_since_sa_epoch y' m' d' = Ok (n + 1)"
    using assms by (auto simp: days_since_sa_epoch_Ok_iff)
  moreover have "days_since_sa_epoch 1600 2 29 = Ok 0" by code_simp
  ultimately show ?thesis by (simp add: step)
qed

lemma day_count_is_calendar_witness:
  "days_since_sa_epoch 2000 2 28 = Ok 146096 \<and> days_since_sa_epoch 2000 2 29 = Ok 146097"
proof -
  have *: "days_since_sa_epoch 2000 2 28 = Ok 146096" by code_simp
  have "next_ymd 2000 2 28 = (2000, 2, 29)" by code_simp
  with day_count_is_calendar [OF *] * show ?thesis by simp
qed

text \<open>Two calendar dates with the same day count are the same date.\<close>

theorem day_count_injective:
  assumes "days_since_sa_epoch y m d = Ok n" and "days_since_sa_epoch y' m' d' = Ok n"
  shows "(y, m, d) = (y', m', d')"
  using days_since_sa_epoch_inject [OF assms] by simp

lemma day_count_injective_witness:
  "days_since_sa_epoch 2024 2 28 \<noteq> days_since_sa_epoch 2024 2 29"
proof
  assume same: "days_since_sa_epoch 2024 2 28 = days_since_sa_epoch 2024 2 29"
  have "days_since_sa_epoch 2024 2 28 = Ok 154862" by code_simp
  from day_count_injective [OF this this [unfolded same]] show False by simp
qed

text \<open>Every accepted ISO date is printed back character by character, whatever \<open>SaDate::ymd\<close> returns,
  as long as \<open>days_since_sa_epoch\<close> counts days on midnight values.\<close>

theorem iso_date_prints_back:
  assumes "counts_days sa_days" and "parse_iso_date sa_ymd sa_days s = Ok p"
  shows "to_iso_date p = s"
  by (rule parse_iso_date_prints [OF assms])

definition example_days :: "i32 \<Rightarrow> i32" where
  "example_days r = word_of_int (sint r div 1440)"

lemma example_days_count: "counts_days example_days"
proof -
  have "sint (word_of_int (sint (r :: i32) div 1440) :: i32) = sint r div 1440" for r :: i32
  proof (rule sint_word_of_int_range)
    have "- (2 ^ 31) div 1440 \<le> sint r div 1440" using sint_range [of r] by (intro zdiv_mono1) simp_all
    then show "- (2 ^ (LENGTH(32) - 1)) \<le> sint r div 1440" by simp
    have "sint r div 1440 \<le> (2 ^ 31) div 1440" using sint_range [of r] by (intro zdiv_mono1) simp_all
    then show "sint r div 1440 < 2 ^ (LENGTH(32) - 1)" by simp
  qed
  then show ?thesis by (simp add: counts_days_def example_days_def)
qed

definition example_date :: posting_date where
  "example_date = \<lparr>pd_raw_minutes = 223002720, pd_accounting_date = 154863,
     pd_year = 2024, pd_month = 2, pd_day = 29\<rparr>"

lemma example_date_raw: "from_raw_minutes (\<lambda>_. (2024, 2, 29)) example_days 223002720 = Ok example_date"
  by code_simp

lemma example_date_iso: "parse_iso_date (\<lambda>_. (2024, 2, 29)) example_days ''2024-02-29'' = Ok example_date"
  by code_simp

lemma iso_date_prints_back_witness: "to_iso_date example_date = ''2024-02-29''"
  by (rule iso_date_prints_back [OF example_days_count example_date_iso])

text \<open>Every date decoded from a row, with a year from 1 to 9999, is printed in a form that parses to
  the same value.\<close>

theorem iso_date_parses_back:
  assumes "counts_days sa_days" and "from_raw_minutes sa_ymd sa_days r = Ok p"
    and "1 \<le> pd_year p" and "pd_year p \<le> 9999"
  shows "parse_iso_date sa_ymd sa_days (to_iso_date p) = Ok p"
  by (rule parse_iso_date_printed [OF assms])

lemma iso_date_parses_back_witness:
  "parse_iso_date (\<lambda>_. (2024, 2, 29)) example_days (to_iso_date example_date) = Ok example_date"
  by (rule iso_date_parses_back [OF example_days_count example_date_raw]) (simp_all add: example_date_def)

section \<open>Amounts\<close>

text \<open>A legacy balance decodes exactly from the encoding of a balance with known flags and, for
  dollars, at most 99 cents; decoding and encoding are inverse to each other.\<close>

theorem qb_balance_codec:
  "qb_balance_from_disk_bytes bs = Ok b \<longleftrightarrow> qb_balance_ok b \<and> qb_balance_to_disk_bytes b = bs"
  by (rule legacy_balance.decode_iff)

text \<open>The signed cents of a balance exist exactly for dollar values without a status flag, and are the
  exact signed amount: the \<open>i64\<close> arithmetic never wraps.\<close>

theorem signed_cents_closed_form:
  "signed_cents b = Ok w \<longleftrightarrow>
     flags_kind (bal_flags b) = Dollar \<and> \<not> flags_is_error (bal_flags b)
     \<and> \<not> flags_is_percent (bal_flags b) \<and> \<not> flags_is_empty (bal_flags b)
     \<and> sint w = (if flags_is_negative (bal_flags b) then -1 else 1)
         * (100 * int (unat (bal_dollars b)) + int (unat (bal_fraction b)))"
proof
  assume "signed_cents b = Ok w"
  then show "flags_kind (bal_flags b) = Dollar \<and> \<not> flags_is_error (bal_flags b)
     \<and> \<not> flags_is_percent (bal_flags b) \<and> \<not> flags_is_empty (bal_flags b)
     \<and> sint w = (if flags_is_negative (bal_flags b) then -1 else 1)
         * (100 * int (unat (bal_dollars b)) + int (unat (bal_fraction b)))"
    using signed_cents_exact signed_cents_Ok_iff by blast
next
  assume *: "flags_kind (bal_flags b) = Dollar \<and> \<not> flags_is_error (bal_flags b)
     \<and> \<not> flags_is_percent (bal_flags b) \<and> \<not> flags_is_empty (bal_flags b)
     \<and> sint w = (if flags_is_negative (bal_flags b) then -1 else 1)
         * (100 * int (unat (bal_dollars b)) + int (unat (bal_fraction b)))"
  then obtain v where v: "signed_cents b = Ok v" using signed_cents_Ok_iff by blast
  have "sint v = sint w" using signed_cents_exact [OF v] * by simp
  then have "v = w" by (rule sint_eqI)
  with v show "signed_cents b = Ok w" by simp
qed

text \<open>C37: A posting amount decodes exactly when its marker is one of the seven scales, its digits are below
  one hundred and the exact value fits \<open>i64\<close>: the checked arithmetic rejects nothing else.\<close>

theorem cents_exact:
  "cents_from_parts marker ds = Ok \<lparr>signed_cents_value = w, is_canonical_zero = z\<rparr> \<longleftrightarrow>
     63 \<le> unat (and marker 0x7f) \<and> unat (and marker 0x7f) \<le> 69 \<and> digits_ok ds
     \<and> base100 ds * 100 ^ (unat (and marker 0x7f) - 63) < 2 ^ 63 \<and> \<not> z
     \<and> sint w = (if and marker 0x80 = 0 then -1 else 1) * int (base100 ds * 100 ^ (unat (and marker 0x7f) - 63))"
  unfolding cents_from_parts_Ok_iff cents_amount_def cents_exponent_def by (rule refl)

text \<open>The account-type code map accepts exactly the codes below fifteen, one for each classification.\<close>

theorem account_type_codes:
  "(map_materialized_account_type_code code = Ok q \<longleftrightarrow> materialized_code q = code)
   \<and> (map_materialized_account_type_code code = Err e \<longleftrightarrow> 15 \<le> unat code \<and> e = UncalibratedCode code)"
  using map_code_of_classification [of q] map_code_Ok [of code q] map_code_Err_iff [of code e] by auto

section \<open>Sparse records\<close>

text \<open>C34: Encoding what was parsed gives back the same bytes: the record grammar has one form per record.\<close>

theorem drec_parse_encode:
  assumes "drec_schema_new ds = Ok s" and "parse_drec bs s order = Ok r"
  shows "encode_drec r s order = Ok bs"
  by (rule parse_drec_encodes(2) [OF schema_new_ok [OF assms(1)] assms(2)])

definition example_descriptors :: "drec_descriptor list" where
  "example_descriptors =
     [\<lparr>dd_class = ClassString, dd_length = 8, dd_default = None\<rparr>,
      \<lparr>dd_class = ClassH, dd_length = 2, dd_default = Some (VU16 7)\<rparr>,
      \<lparr>dd_class = ClassEnd, dd_length = 0, dd_default = None\<rparr>]"

definition example_schema :: drec_schema where
  "example_schema = \<lparr>sch_fields = butlast example_descriptors\<rparr>"

definition example_record :: drec_record where
  "example_record = \<lparr>dr_flag = 5, dr_fields = [(0, unlocated 0 (VString [65, 66])), (1, unlocated 1 (VU16 300))]\<rparr>"

definition example_bytes :: "byte list" where
  "example_bytes = [5, 0, 0, 65, 66, 0, 0, 1, 1, 44, 255, 255]"

lemma example_schema_new: "drec_schema_new example_descriptors = Ok example_schema"
  by (simp add: drec_schema_new_def example_descriptors_def example_schema_def validate_descriptor_def
      ensure_value_matches_def ensure_def)

lemma example_encoded: "encode_drec example_record example_schema Big = Ok example_bytes"
  by (simp add: encode_drec_Ok_iff example_record_def example_schema_def example_descriptors_def example_bytes_def
      entry_fits_def schema_field_def get_at_def unlocated_def own_ordinals_def write_u16_def codec_simps)

lemma example_record_ok: "record_ok example_record"
  by (simp add: record_ok_def example_record_def unlocated_def bt_ok_def)

lemma example_addressable: "addressable example_schema"
  by (simp add: addressable_def example_schema_def example_descriptors_def)

lemma example_parses: "\<exists>m. parse_drec example_bytes example_schema Big = Ok \<lparr>dr_flag = 5, dr_fields = m\<rparr>"
  using encode_drec_parses [OF schema_new_ok [OF example_schema_new] example_addressable example_record_ok example_encoded]
  by (auto simp: example_record_def)

lemma drec_parse_encode_witness:
  "\<exists>m. encode_drec \<lparr>dr_flag = 5, dr_fields = m\<rparr> example_schema Big = Ok example_bytes"
  using drec_parse_encode [OF example_schema_new] example_parses by blast

text \<open>Parsing what was encoded returns the same flag and the same ordinals with the same values, when
  the string bounds of the schema stay clear of the top of \<open>usize\<close>.\<close>

theorem drec_encode_parse:
  assumes "drec_schema_new ds = Ok s" and "addressable s" and "record_ok r"
    and "encode_drec r s order = Ok bs"
  shows "\<exists>m. parse_drec bs s order = Ok \<lparr>dr_flag = dr_flag r, dr_fields = m\<rparr>
    \<and> map (\<lambda>(k, f). (k, df_value f)) m = map (\<lambda>(k, f). (k, df_value f)) (dr_fields r)"
  using encode_drec_parses [OF schema_new_ok [OF assms(1)] assms(2-4)] by (simp add: entries_of_def)

lemma drec_encode_parse_witness:
  "\<exists>m. parse_drec example_bytes example_schema Big = Ok \<lparr>dr_flag = dr_flag example_record, dr_fields = m\<rparr>
    \<and> map (\<lambda>(k, f). (k, df_value f)) m = [(0, VString [65, 66]), (1, VU16 300)]"
  using drec_encode_parse [OF example_schema_new example_addressable example_record_ok example_encoded]
  by (simp add: example_record_def unlocated_def)

text \<open>Without that bound the round trip fails: a record of a schema with a string bound of
  \<open>2\<^sup>6\<^sup>4 - 1\<close> is written and then refused with a length overflow.\<close>

theorem drec_huge_bound:
  "drec_schema_new (sch_fields huge_schema @ [\<lparr>dd_class = ClassEnd, dd_length = 0, dd_default = None\<rparr>]) = Ok huge_schema
   \<and> encode_drec empty_string_record huge_schema Little = Ok [0, 0, 0, 0, 0xff, 0xff]
   \<and> parse_drec [0, 0, 0, 0, 0xff, 0xff] huge_schema Little = Err LengthOverflow"
  by (simp add: huge_bound_not_readable, simp add: drec_schema_new_def huge_schema_def validate_descriptor_def)

end
