(* ===== verification/Csv.thy ===== *)
theory Csv
  imports Text
begin

text \<open>
  CSV on both sides of the command line tool: the record parser of
  \<open>crates/openqbw-cli/src/trial_balance_reconciliation.rs\<close> (\<open>parse_csv_records\<close>) and the field
  writer of \<open>crates/openqbw-cli/src/report_output.rs\<close> (\<open>csv_row\<close>, \<open>csv_field\<close>). The parser reads
  back every row the writer can produce.
\<close>

section \<open>The record parser\<close>

datatype tb_csv_error =
    MissingRequiredHeader
  | NoAccountRows
  | EmptyAccountLabel
  | DuplicateAccountLabel string
  | InvalidAmount string
  | InvalidNormalizedCents string string
  | MissingNormalizedCents string string
  | InconsistentNormalizedRow string i64 i64 i64
  | AmountOverflow
  | UnclosedQuote
  | BareQuote
  | CharactersAfterClosingQuote

record csv_state =
  csv_rows :: "string list list"
  csv_cells :: "string list"
  csv_text :: string
  csv_quoted :: bool
  csv_after_quote :: bool

definition csv_start :: csv_state where
  "csv_start = \<lparr>csv_rows = [], csv_cells = [], csv_text = [], csv_quoted = False, csv_after_quote = False\<rparr>"

text \<open>\<open>row.push(take(&mut field))\<close>, \<open>rows.push(take(&mut row))\<close>, \<open>field.push(ch)\<close>.\<close>

definition push_cell :: "csv_state \<Rightarrow> csv_state" where
  "push_cell st = st\<lparr>csv_cells := csv_cells st @ [csv_text st], csv_text := []\<rparr>"

definition push_row :: "csv_state \<Rightarrow> csv_state" where
  "push_row st = (push_cell st)\<lparr>csv_rows := csv_rows st @ [csv_cells (push_cell st)], csv_cells := []\<rparr>"

definition push_char :: "char \<Rightarrow> csv_state \<Rightarrow> csv_state" where
  "push_char c st = st\<lparr>csv_text := csv_text st @ [c]\<rparr>"

definition pop_return :: "csv_state \<Rightarrow> csv_state" where
  "pop_return st =
     (if ends_with [CHR 0x0D] (csv_text st) then st\<lparr>csv_text := butlast (csv_text st)\<rparr> else st)"

text \<open>The look-ahead \<open>chars.peek()\<close> and the character it consumes.\<close>

definition peek_is :: "char \<Rightarrow> string \<Rightarrow> bool" where
  "peek_is c s \<longleftrightarrow> s \<noteq> [] \<and> hd s = c"

definition skip_char :: "char \<Rightarrow> string \<Rightarrow> string" where
  "skip_char c s = (if peek_is c s then tl s else s)"

lemma length_skip_char: "length (skip_char c s) \<le> length s"
  by (simp add: skip_char_def)

function csv_loop :: "csv_state \<Rightarrow> string \<Rightarrow> (tb_csv_error, csv_state) outcome" where
  "csv_loop st [] = Ok st"
| "csv_loop st (ch # rest) =
     (if csv_after_quote st then
        (if ch = CHR '','' then csv_loop ((push_cell st)\<lparr>csv_after_quote := False\<rparr>) rest
         else if ch = CHR 0x0A then csv_loop ((push_row st)\<lparr>csv_after_quote := False\<rparr>) rest
         else if ch = CHR 0x0D then
           csv_loop ((push_row st)\<lparr>csv_after_quote := False\<rparr>) (skip_char (CHR 0x0A) rest)
         else Err CharactersAfterClosingQuote)
      else if csv_quoted st then
        (if ch = CHR 0x22 \<and> peek_is (CHR 0x22) rest then csv_loop (push_char ch st) (skip_char (CHR 0x22) rest)
         else if ch = CHR 0x22 then csv_loop (st\<lparr>csv_quoted := False, csv_after_quote := True\<rparr>) rest
         else csv_loop (push_char ch st) rest)
      else if ch = CHR 0x22 then
        (if csv_text st = [] then csv_loop (st\<lparr>csv_quoted := True\<rparr>) rest else Err BareQuote)
      else if ch = CHR '','' then csv_loop (push_cell st) rest
      else if ch = CHR 0x0A then csv_loop (push_row (pop_return st)) rest
      else csv_loop (push_char ch st) rest)"
  by pat_completeness auto
termination
  by (relation "measure (\<lambda>(st, s). length s)") (auto simp: le_imp_less_Suc length_skip_char)

definition csv_end :: "csv_state \<Rightarrow> (tb_csv_error, string list list) outcome" where
  "csv_end st =
     (if csv_quoted st then Err UnclosedQuote
      else if csv_text st \<noteq> [] \<or> csv_cells st \<noteq> [] then Ok (csv_rows (push_row (pop_return st)))
      else Ok (csv_rows st))"

definition parse_csv_records :: "string \<Rightarrow> (tb_csv_error, string list list) outcome" where
  "parse_csv_records text = rbind (csv_loop csv_start text) csv_end"

section \<open>The row writer\<close>

definition needs_quotes :: "string \<Rightarrow> bool" where
  "needs_quotes s \<longleftrightarrow> (\<exists>c \<in> set s. c \<in> {CHR '','', CHR 0x22, CHR 0x0D, CHR 0x0A})"

definition double_quotes :: "string \<Rightarrow> string" where
  "double_quotes s = concat (map (\<lambda>c. if c = CHR 0x22 then [c, c] else [c]) s)"

definition csv_field :: "string \<Rightarrow> string" where
  "csv_field s = (if needs_quotes s then CHR 0x22 # double_quotes s @ [CHR 0x22] else s)"

primrec csv_fields :: "nat \<Rightarrow> string option list \<Rightarrow> string" where
  "csv_fields index [] = []"
| "csv_fields index (v # vs) =
     (if index \<noteq> 0 then '','' else []) @ (case v of Some s \<Rightarrow> csv_field s | None \<Rightarrow> []) @ csv_fields (Suc index) vs"

definition csv_row :: "string \<Rightarrow> string option list \<Rightarrow> string" where
  "csv_row out fs = out @ csv_fields 0 fs @ [CHR 0x0A]"

definition csv_rows_text :: "string option list list \<Rightarrow> string" where
  "csv_rows_text rows = fold (\<lambda>r out. csv_row out r) rows []"

section \<open>The parser reads the writer back\<close>

definition cell_text :: "string option \<Rightarrow> string" where
  "cell_text v = (case v of Some s \<Rightarrow> s | None \<Rightarrow> [])"

definition fresh_field :: "csv_state \<Rightarrow> bool" where
  "fresh_field st \<longleftrightarrow> csv_text st = [] \<and> \<not> csv_quoted st \<and> \<not> csv_after_quote st"

lemma needs_quotes_simps [simp]:
  "needs_quotes [] = False"
  "needs_quotes (c # s) = (c \<in> {CHR '','', CHR 0x22, CHR 0x0D, CHR 0x0A} \<or> needs_quotes s)"
  by (auto simp: needs_quotes_def)

lemma csv_loop_plain:
  "\<not> csv_quoted st \<Longrightarrow> \<not> csv_after_quote st \<Longrightarrow> \<not> needs_quotes s \<Longrightarrow>
     csv_loop st (s @ rest) = csv_loop (st\<lparr>csv_text := csv_text st @ s\<rparr>) rest"
  by (induction s arbitrary: st) (simp_all add: push_char_def)

lemma csv_loop_quoted:
  "csv_quoted st \<Longrightarrow> \<not> csv_after_quote st \<Longrightarrow> \<not> peek_is (CHR 0x22) rest \<Longrightarrow>
     csv_loop st (double_quotes s @ CHR 0x22 # rest)
   = csv_loop (st\<lparr>csv_text := csv_text st @ s, csv_quoted := False, csv_after_quote := True\<rparr>) rest"
  by (induction s arbitrary: st)
    (auto simp: double_quotes_def push_char_def peek_is_def skip_char_def)

lemma ends_with_return: "ends_with [c] s \<longleftrightarrow> s \<noteq> [] \<and> last s = c"
  by (cases s rule: rev_cases) (auto simp: ends_with_def strip_suffix_def)

lemma pop_return_plain: "\<not> needs_quotes (csv_text st) \<Longrightarrow> pop_return st = st"
  by (auto simp: pop_return_def ends_with_return needs_quotes_def dest: last_in_set)

text \<open>One written field followed by a comma, and by the end of the row.\<close>

lemma csv_loop_field_comma:
  assumes "fresh_field st"
  shows "csv_loop st (csv_field s @ CHR '','' # rest)
       = csv_loop (st\<lparr>csv_cells := csv_cells st @ [s], csv_text := []\<rparr>) rest"
  using assms csv_loop_quoted [of "st\<lparr>csv_quoted := True\<rparr>" "CHR '','' # rest" s]
  by (cases st; cases "needs_quotes s")
    (simp_all add: csv_field_def fresh_field_def csv_loop_plain push_cell_def peek_is_def)

lemma csv_loop_field_newline:
  assumes "fresh_field st"
  shows "csv_loop st (csv_field s @ CHR 0x0A # rest)
       = csv_loop (st\<lparr>csv_rows := csv_rows st @ [csv_cells st @ [s]], csv_cells := [], csv_text := []\<rparr>) rest"
  using assms csv_loop_quoted [of "st\<lparr>csv_quoted := True\<rparr>" "CHR 0x0A # rest" s]
  by (cases st; cases "needs_quotes s")
    (simp_all add: csv_field_def fresh_field_def csv_loop_plain push_row_def push_cell_def
      peek_is_def pop_return_plain)

lemma csv_field_Nil: "csv_field [] = []"
  by (simp add: csv_field_def)

lemma csv_fields_Cons:
  "csv_fields i (v # vs) = (if i \<noteq> 0 then '','' else []) @ csv_field (cell_text v) @ csv_fields (Suc i) vs"
  by (cases v) (simp_all add: cell_text_def csv_field_Nil)

text \<open>The cells after the first, each with its leading comma.\<close>

lemma csv_loop_fields:
  "fresh_field st \<Longrightarrow>
     csv_loop st (csv_field s @ csv_fields (Suc i) vs @ CHR 0x0A # rest)
   = csv_loop (st\<lparr>csv_rows := csv_rows st @ [csv_cells st @ s # map cell_text vs], csv_cells := [], csv_text := []\<rparr>) rest"
proof (induction vs arbitrary: st s i)
  case Nil
  then show ?case by (simp add: csv_loop_field_newline)
next
  case (Cons v vs)
  have "fresh_field (st\<lparr>csv_cells := csv_cells st @ [s], csv_text := []\<rparr>)"
    using Cons.prems by (simp add: fresh_field_def)
  from Cons.IH [OF this, of "cell_text v" "Suc i"] Cons.prems show ?case
    by (simp add: csv_fields_Cons csv_loop_field_comma del: csv_fields.simps)
qed

lemma csv_loop_row:
  assumes "fresh_field st" and "csv_cells st = []" and "fs \<noteq> []"
  shows "csv_loop st (csv_row [] fs @ rest)
       = csv_loop (st\<lparr>csv_rows := csv_rows st @ [map cell_text fs]\<rparr>) rest"
proof -
  obtain v vs where fs: "fs = v # vs" using assms(3) by (cases fs) auto
  have "st\<lparr>csv_rows := r, csv_cells := [], csv_text := []\<rparr> = st\<lparr>csv_rows := r\<rparr>" for r
    using assms(1,2) by (simp add: fresh_field_def)
  with assms show ?thesis
    by (simp add: fs csv_row_def csv_fields_Cons csv_loop_fields del: csv_fields.simps)
qed

lemma csv_row_out: "csv_row out fs = out @ csv_row [] fs"
  by (simp add: csv_row_def)

lemma csv_rows_fold: "fold (\<lambda>r out. csv_row out r) rows out = out @ concat (map (csv_row []) rows)"
  by (induction rows arbitrary: out) (simp_all add: csv_row_out [of "_ @ _"] csv_row_def)

lemma csv_rows_text_concat: "csv_rows_text rows = concat (map (csv_row []) rows)"
  by (simp add: csv_rows_text_def csv_rows_fold)

lemma csv_loop_rows:
  assumes "[] \<notin> set rows" and "fresh_field st" and "csv_cells st = []"
  shows "csv_loop st (csv_rows_text rows)
       = Ok (st\<lparr>csv_rows := csv_rows st @ map (map cell_text) rows\<rparr>)"
  using assms
proof (induction rows arbitrary: st)
  case (Cons r rows)
  let ?st = "st\<lparr>csv_rows := csv_rows st @ [map cell_text r]\<rparr>"
  have "fresh_field ?st" and "csv_cells ?st = []" and "r \<noteq> []"
    using Cons.prems by (auto simp: fresh_field_def)
  with Cons show ?case by (simp add: csv_rows_text_concat csv_loop_row)
qed (simp add: csv_rows_text_concat)

lemma parse_written_rows:
  assumes "[] \<notin> set rows"
  shows "parse_csv_records (csv_rows_text rows) = Ok (map (map cell_text) rows)"
  using csv_loop_rows [OF assms, of csv_start]
  by (simp add: parse_csv_records_def csv_start_def csv_end_def fresh_field_def)

end
