(* ===== verification/Native_Trial_Balance.thy ===== *)
theory Native_Trial_Balance
  imports Csv Ordered_Map
begin

text \<open>
  The Trial Balance reader and the exact reconciliation of
  \<open>crates/openqbw-cli/src/trial_balance_reconciliation.rs\<close>: both CSV dialects, the signed balance
  per account label, and the account-for-account comparison. Amounts are \<open>i64\<close> words with checked
  operations; variances are \<open>i128\<close> differences of two \<open>i64\<close> values and so plain integers.
\<close>

section \<open>Balances\<close>

record native_balance =
  nat_balances :: "(string, i64) btree"
  nat_debits :: i64
  nat_credits :: i64

definition no_balances :: native_balance where
  "no_balances = \<lparr>nat_balances = [], nat_debits = 0, nat_credits = 0\<rparr>"

definition add_balance :: "string \<times> i64 \<Rightarrow> native_balance \<Rightarrow> (tb_csv_error, native_balance) outcome" where
  "add_balance entry r =
     (case entry of (account, balance) \<Rightarrow>
        let account = trim account; r' = r\<lparr>nat_balances := bt_insert account balance (nat_balances r)\<rparr> in
        if account = [] then Err EmptyAccountLabel
        else if bt_get (nat_balances r) account \<noteq> None then Err (DuplicateAccountLabel account)
        else if 0 \<le> sint balance then
          rbind (ok_or (checked_add (nat_debits r) balance) AmountOverflow) (\<lambda>d.
            Ok (r'\<lparr>nat_debits := d\<rparr>))
        else
          rbind (ok_or (checked_neg balance) AmountOverflow) (\<lambda>credit.
          rbind (ok_or (checked_add (nat_credits r) credit) AmountOverflow) (\<lambda>c.
            Ok (r'\<lparr>nat_credits := c\<rparr>))))"

definition from_balances :: "(string \<times> i64) list \<Rightarrow> (tb_csv_error, native_balance) outcome" where
  "from_balances balances = rfold add_balance balances no_balances"

definition is_balanced :: "native_balance \<Rightarrow> bool" where
  "is_balanced r \<longleftrightarrow> nat_debits r = nat_credits r"

section \<open>Reconciliation\<close>

record account_variance =
  var_account :: string
  var_cents :: int

record reconciliation =
  rec_missing :: "account_variance list"
  rec_extra :: "account_variance list"
  rec_mismatched :: "account_variance list"
  rec_reference_debits :: i64
  rec_reference_credits :: i64
  rec_actual_debits :: i64
  rec_actual_credits :: i64
  rec_debit_variance :: int
  rec_credit_variance :: int
  rec_net_variance :: int
  rec_max_variance :: int

text \<open>The loop over the reference balances, and the one over the actual balances.\<close>

definition compare_reference ::
    "native_balance \<Rightarrow> string \<times> i64 \<Rightarrow> account_variance list \<times> account_variance list \<times> int \<Rightarrow>
     account_variance list \<times> account_variance list \<times> int" where
  "compare_reference actual entry st =
     (case (entry, st) of ((account, reference_balance), (missing, mismatched, mx)) \<Rightarrow>
        (case bt_get (nat_balances actual) account of
           None \<Rightarrow>
             let variance = - sint reference_balance in
             (missing @ [\<lparr>var_account = account, var_cents = variance\<rparr>], mismatched, max mx \<bar>variance\<bar>)
         | Some actual_balance \<Rightarrow>
             if actual_balance \<noteq> reference_balance then
               let variance = sint actual_balance - sint reference_balance in
               (missing, mismatched @ [\<lparr>var_account = account, var_cents = variance\<rparr>], max mx \<bar>variance\<bar>)
             else (missing, mismatched, mx)))"

definition compare_actual ::
    "native_balance \<Rightarrow> string \<times> i64 \<Rightarrow> account_variance list \<times> int \<Rightarrow> account_variance list \<times> int" where
  "compare_actual reference entry st =
     (case (entry, st) of ((account, actual_balance), (extra, mx)) \<Rightarrow>
        if bt_get (nat_balances reference) account = None then
          (extra @ [\<lparr>var_account = account, var_cents = sint actual_balance\<rparr>], max mx \<bar>sint actual_balance\<bar>)
        else (extra, mx))"

definition reconcile_trial_balances :: "native_balance \<Rightarrow> native_balance \<Rightarrow> reconciliation" where
  "reconcile_trial_balances reference actual =
     (case fold (compare_reference actual) (nat_balances reference) ([], [], 0) of
        (missing, mismatched, mx) \<Rightarrow>
      case fold (compare_actual reference) (nat_balances actual) ([], mx) of
        (extra, mx') \<Rightarrow>
          \<lparr>rec_missing = missing, rec_extra = extra, rec_mismatched = mismatched,
           rec_reference_debits = nat_debits reference, rec_reference_credits = nat_credits reference,
           rec_actual_debits = nat_debits actual, rec_actual_credits = nat_credits actual,
           rec_debit_variance = sint (nat_debits actual) - sint (nat_debits reference),
           rec_credit_variance = sint (nat_credits actual) - sint (nat_credits reference),
           rec_net_variance =
             (sint (nat_debits actual) - sint (nat_credits actual))
             - (sint (nat_debits reference) - sint (nat_credits reference)),
           rec_max_variance = mx'\<rparr>)"

definition passes :: "reconciliation \<Rightarrow> bool" where
  "passes r \<longleftrightarrow>
     rec_missing r = [] \<and> rec_extra r = [] \<and> rec_mismatched r = []
     \<and> rec_reference_debits r = rec_reference_credits r
     \<and> rec_actual_debits r = rec_actual_credits r
     \<and> rec_debit_variance r = 0 \<and> rec_credit_variance r = 0
     \<and> rec_net_variance r = 0 \<and> rec_max_variance r = 0"

definition bool_text :: "bool \<Rightarrow> string" where
  "bool_text b = (if b then ''true'' else ''false'')"

definition status_line :: "reconciliation \<Rightarrow> string" where
  "status_line r =
     (if passes r then ''PASS: all accounts and totals reconcile exactly to $0.00''
      else ''FAIL: missing='' @ decimal (length (rec_missing r))
        @ '' extra='' @ decimal (length (rec_extra r))
        @ '' mismatched='' @ decimal (length (rec_mismatched r))
        @ '' reference_balanced='' @ bool_text (rec_reference_debits r = rec_reference_credits r)
        @ '' actual_balanced='' @ bool_text (rec_actual_debits r = rec_actual_credits r)
        @ '' debit_variance_cents='' @ int_to_string (rec_debit_variance r)
        @ '' credit_variance_cents='' @ int_to_string (rec_credit_variance r)
        @ '' net_variance_cents='' @ int_to_string (rec_net_variance r)
        @ '' max_account_variance_cents='' @ int_to_string (rec_max_variance r))"

section \<open>Cells\<close>

definition cell :: "string list \<Rightarrow> nat \<Rightarrow> string" where
  "cell row i = (case get_at row i of Some s \<Rightarrow> s | None \<Rightarrow> [])"

definition is_total_row :: "string \<Rightarrow> bool" where
  "is_total_row account =
     (let folded = to_ascii_lowercase (trim account) in
      folded = ''total'' \<or> starts_with ''total '' folded \<or> starts_with ''total:'' folded)"

text \<open>The middle dot of the account-number wrapper, U+00B7.\<close>

definition middle_dot :: string where
  "middle_dot = [CHR 0xC2, CHR 0xB7]"

text \<open>The wrapper test: a number, white space, the dot, white space.\<close>

definition is_number_wrapper :: "string \<Rightarrow> string \<Rightarrow> bool" where
  "is_number_wrapper number name \<longleftrightarrow>
     trim number \<noteq> [] \<and> list_all is_digit_code (trim number)
     \<and> ws_back (rev number) \<noteq> 0 \<and> ws_front name \<noteq> 0"

definition canonical_native_account_full_name :: "string \<Rightarrow> string" where
  "canonical_native_account_full_name account =
     (let account = trim account in
      case split_once middle_dot account of
        None \<Rightarrow> account
      | Some (number, name) \<Rightarrow>
          if is_number_wrapper number name then trim_start name else account)"

text \<open>
  Display money. Negation cannot overflow: the cents are not negative there.
\<close>

definition fraction_cents :: "string \<Rightarrow> int" where
  "fraction_cents fraction =
     (if length fraction = 0 then 0
      else if length fraction = 1 then (of_char (fraction ! 0) - 48) * 10
      else (of_char (fraction ! 0) - 48) * 10 + (of_char (fraction ! 1) - 48))"

definition parse_money_cents :: "string \<Rightarrow> (tb_csv_error, i64) outcome" where
  "parse_money_cents value =
     (let text = trim value in
      if text = [] \<or> text = ''-'' then Ok 0
      else
        let (negative, text) =
              (if starts_with ''('' text \<and> ends_with '')'' text then (True, butlast (tl text)) else (False, text));
            (negative, text) =
              (case strip_prefix ''-'' text of
                 Some rest \<Rightarrow> (True, rest)
               | None \<Rightarrow> (negative, case strip_prefix ''+'' text of Some rest \<Rightarrow> rest | None \<Rightarrow> text));
            text = (case strip_prefix ''$'' (trim text) of Some rest \<Rightarrow> rest | None \<Rightarrow> trim text);
            compact = filter (\<lambda>c. c \<noteq> CHR '','' \<and> c \<noteq> CHR '' '') text in
        if compact = [] then Err (InvalidAmount value)
        else
          let (whole, fraction) = (case split_once ''.'' compact of Some p \<Rightarrow> p | None \<Rightarrow> (compact, [])) in
          if whole = [] \<or> \<not> list_all is_digit_code whole \<or> \<not> list_all is_digit_code fraction
             \<or> 2 < length fraction
          then Err (InvalidAmount value)
          else
            rbind (ok_or (parse_i64 whole) AmountOverflow) (\<lambda>w.
            rbind (ok_or (checked_mul w 100) AmountOverflow) (\<lambda>n.
            rbind (ok_or (checked_add n (word_of_int (fraction_cents fraction))) AmountOverflow) (\<lambda>cents.
              Ok (if negative then - cents else cents)))))"

text \<open>Code page 1252, for bytes that are not UTF-8.\<close>

definition windows_1252 :: "nat \<Rightarrow> nat" where
  "windows_1252 b =
     (case map_of
        [(0x80, 0x20AC), (0x82, 0x201A), (0x83, 0x0192), (0x84, 0x201E), (0x85, 0x2026),
         (0x86, 0x2020), (0x87, 0x2021), (0x88, 0x02C6), (0x89, 0x2030), (0x8A, 0x0160),
         (0x8B, 0x2039), (0x8C, 0x0152), (0x8E, 0x017D), (0x91, 0x2018), (0x92, 0x2019),
         (0x93, 0x201C), (0x94, 0x201D), (0x95, 0x2022), (0x96, 0x2013), (0x97, 0x2014),
         (0x98, 0x02DC), (0x99, 0x2122), (0x9A, 0x0161), (0x9B, 0x203A), (0x9C, 0x0153),
         (0x9E, 0x017E), (0x9F, 0x0178)] b of
        Some u \<Rightarrow> u
      | None \<Rightarrow> b)"

definition decode_windows_1252 :: "string \<Rightarrow> string" where
  "decode_windows_1252 bytes =
     (if utf8_valid bytes then bytes
      else concat (map (\<lambda>b. encode_utf8 (windows_1252 (of_char b))) bytes))"

section \<open>Headers\<close>

text \<open>The last column whose heading is one of the names.\<close>

definition column :: "string list \<Rightarrow> string list \<Rightarrow> nat option" where
  "column names row =
     fold (\<lambda>(i, v) acc. if to_ascii_lowercase (trim v) \<in> set names then Some i else acc)
       (enumerate 0 row) None"

definition or_else :: "'a option \<Rightarrow> 'a option \<Rightarrow> 'a option" where
  "or_else x y = (case x of Some a \<Rightarrow> Some a | None \<Rightarrow> y)"

text \<open>\<open>rows.iter().enumerate().find_map(f)\<close>.\<close>

primrec find_map_from :: "(nat \<Rightarrow> 'a \<Rightarrow> 'b option) \<Rightarrow> nat \<Rightarrow> 'a list \<Rightarrow> 'b option" where
  "find_map_from f i [] = None"
| "find_map_from f i (x # xs) = (case f i x of Some y \<Rightarrow> Some y | None \<Rightarrow> find_map_from f (Suc i) xs)"

record normalized_header =
  nh_label :: nat
  nh_debit :: nat
  nh_credit :: nat
  nh_net :: nat
  nh_data_start :: nat

definition normalized_header_of :: "nat \<Rightarrow> string list \<Rightarrow> normalized_header option" where
  "normalized_header_of row_index row =
     (case (or_else (column [''account_display_name''] row)
              (or_else (column [''account_full_name''] row) (column [''account_name''] row)),
            column [''debit_cents''] row, column [''credit_cents''] row, column [''net_cents''] row) of
        (Some label, Some debit, Some credit, Some net) \<Rightarrow>
          Some \<lparr>nh_label = label, nh_debit = debit, nh_credit = credit, nh_net = net,
                nh_data_start = row_index + 1\<rparr>
      | _ \<Rightarrow> None)"

definition find_normalized_header :: "string list list \<Rightarrow> normalized_header option" where
  "find_normalized_header rows = find_map_from normalized_header_of 0 rows"

definition native_header_of :: "nat \<Rightarrow> string list \<Rightarrow> (nat \<times> nat \<times> nat \<times> nat) option" where
  "native_header_of row_index row =
     (case (column [''account'', ''account name''] row, column [''debit'', ''debits''] row,
            column [''credit'', ''credits''] row) of
        (Some account, Some debit, Some credit) \<Rightarrow> Some (account, debit, credit, row_index + 1)
      | (None, Some debit, Some credit) \<Rightarrow>
          if 0 < debit \<and> debit < credit then Some (0, debit, credit, row_index + 1) else None
      | _ \<Rightarrow> None)"

definition find_header :: "string list list \<Rightarrow> (tb_csv_error, nat \<times> nat \<times> nat \<times> nat) outcome" where
  "find_header rows = ok_or (find_map_from native_header_of 0 rows) MissingRequiredHeader"

section \<open>Rows\<close>

definition native_row ::
    "nat \<Rightarrow> nat \<Rightarrow> nat \<Rightarrow> string list \<Rightarrow> (string \<times> i64) list \<Rightarrow> (tb_csv_error, (string \<times> i64) list) outcome" where
  "native_row account_col debit_col credit_col row balances =
     (let account = trim (cell row account_col);
          debit_cell = trim (cell row debit_col);
          credit_cell = trim (cell row credit_col) in
      if account = [] \<or> is_total_row account then Ok balances
      else if debit_cell = [] \<and> credit_cell = [] then Ok balances
      else
        rbind (parse_money_cents debit_cell) (\<lambda>debit.
        rbind (parse_money_cents credit_cell) (\<lambda>credit.
        rbind (ok_or (checked_sub debit credit) AmountOverflow) (\<lambda>balance.
          if balance = 0 then Ok balances
          else Ok (balances @ [(canonical_native_account_full_name account, balance)])))))"

definition finish_balances :: "(string \<times> i64) list \<Rightarrow> (tb_csv_error, native_balance) outcome" where
  "finish_balances balances = (if balances = [] then Err NoAccountRows else from_balances balances)"

definition parse_quickbooks_trial_balance_csv_rows ::
    "string list list \<Rightarrow> (tb_csv_error, native_balance) outcome" where
  "parse_quickbooks_trial_balance_csv_rows rows =
     rbind (find_header rows) (\<lambda>(account_col, debit_col, credit_col, data_start).
     rbind (rfold (native_row account_col debit_col credit_col) (drop data_start rows) []) finish_balances)"

definition parse_normalized_cents :: "string \<Rightarrow> string \<Rightarrow> bool \<Rightarrow> (tb_csv_error, i64 option) outcome" where
  "parse_normalized_cents value col nonnegative =
     (let text = trim value in
      if text = [] then Ok None
      else rbind (ok_or (parse_i64 text) (InvalidNormalizedCents col text)) (\<lambda>cents.
        if nonnegative \<and> sint cents < 0 then Err (InvalidNormalizedCents col text)
        else Ok (Some cents)))"

definition or_zero :: "i64 option \<Rightarrow> i64" where
  "or_zero x = (case x of Some c \<Rightarrow> c | None \<Rightarrow> 0)"

definition normalized_row ::
    "normalized_header \<Rightarrow> string list \<Rightarrow> (string \<times> i64) list \<Rightarrow> (tb_csv_error, (string \<times> i64) list) outcome" where
  "normalized_row h row balances =
     (let account = trim (cell row (nh_label h)) in
      if account = [] \<and> trim (cell row (nh_debit h)) = [] \<and> trim (cell row (nh_credit h)) = []
         \<and> trim (cell row (nh_net h)) = []
      then Ok balances
      else if account = [] then Err EmptyAccountLabel
      else
        rbind (parse_normalized_cents (cell row (nh_debit h)) ''debit_cents'' True) (\<lambda>debit_cents.
        rbind (parse_normalized_cents (cell row (nh_credit h)) ''credit_cents'' True) (\<lambda>credit_cents.
        rbind (parse_normalized_cents (cell row (nh_net h)) ''net_cents'' False) (\<lambda>net_cents.
        rbind (ok_or net_cents (MissingNormalizedCents account ''net_cents'')) (\<lambda>net.
          let debit = or_zero debit_cents; credit = or_zero credit_cents in
          rbind (ok_or (checked_sub debit credit) AmountOverflow) (\<lambda>calculated.
            if calculated \<noteq> net then Err (InconsistentNormalizedRow account debit credit net)
            else Ok (balances @ [(canonical_native_account_full_name account, net)])))))))"

definition parse_normalized_trial_balance_csv_rows ::
    "string list list \<Rightarrow> normalized_header \<Rightarrow> (tb_csv_error, native_balance) outcome" where
  "parse_normalized_trial_balance_csv_rows rows h =
     rbind (rfold (normalized_row h) (drop (nh_data_start h) rows) []) finish_balances"

definition parse_trial_balance_csv :: "string \<Rightarrow> (tb_csv_error, native_balance) outcome" where
  "parse_trial_balance_csv bytes =
     rbind (parse_csv_records (decode_windows_1252 bytes)) (\<lambda>rows.
       case find_normalized_header rows of
         Some h \<Rightarrow> parse_normalized_trial_balance_csv_rows rows h
       | None \<Rightarrow> parse_quickbooks_trial_balance_csv_rows rows)"

definition parse_quickbooks_trial_balance_csv :: "string \<Rightarrow> (tb_csv_error, native_balance) outcome" where
  "parse_quickbooks_trial_balance_csv bytes =
     rbind (parse_csv_records (decode_windows_1252 bytes)) parse_quickbooks_trial_balance_csv_rows"

end
