(* ===== verification/Native_Balance_Facts.thy ===== *)
theory Native_Balance_Facts
  imports Native_Trial_Balance
begin

text \<open>
  Facts about the Trial Balance reader: the numbers it reads back, the shape of every balance it
  returns, and what a passing reconciliation says.
\<close>

section \<open>Numbers as text\<close>

lemma parse_decimal: "parse_ascii_digits 0 (decimal n) = Some n"
proof (induction n rule: decimal.induct)
  case (1 n)
  show ?case
  proof (cases "n < 10")
    case False
    with 1 have "parse_ascii_digits 0 (decimal (n div 10)) = Some (n div 10)" by simp
    with False show ?thesis
      by (simp add: decimal.simps [of n] parse_ascii_digits_append digit_char_digit digit_char_code)
  qed (simp add: decimal.simps [of n] digit_char_digit digit_char_code)
qed

lemma decimal_digits: "list_all is_digit_code (decimal n)"
proof (induction n rule: decimal.induct)
  case (1 n)
  then show ?case
    by (cases "n < 10") (simp_all add: decimal.simps [of n] digit_char_digit)
qed

lemma decimal_not_Nil [simp]: "decimal n \<noteq> []"
  by (simp add: decimal.simps [of n])

lemma digits_value_decimal: "digits_value (decimal n) = Some n"
  by (simp add: digits_value_def parse_decimal)

lemma digit_not_special:
  "is_digit_code c \<Longrightarrow> c \<noteq> CHR ''+''" "is_digit_code c \<Longrightarrow> c \<noteq> CHR ''-''"
  "is_digit_code c \<Longrightarrow> c \<noteq> CHR '',''" "is_digit_code c \<Longrightarrow> c \<noteq> CHR '' ''"
  "is_digit_code c \<Longrightarrow> c \<noteq> CHR ''.''" "is_digit_code c \<Longrightarrow> c \<noteq> CHR ''(''"
  "is_digit_code c \<Longrightarrow> c \<noteq> CHR '')''" "is_digit_code c \<Longrightarrow> c \<noteq> CHR ''$''"
  by (auto simp: is_digit_code_def)

lemma decimal_Cons: obtains d ds where "decimal n = d # ds" and "is_digit_code d"
  using decimal_digits [of n] by (cases "decimal n") auto

lemma parse_int_to_string: "parse_int_str True (int_to_string v) = Some v"
proof (cases "v < 0")
  case True
  then show ?thesis
    by (simp add: int_to_string_def parse_int_str_def parse_number_def digits_value_decimal)
next
  case False
  obtain d ds where d: "decimal (nat v) = d # ds" and "is_digit_code d" by (rule decimal_Cons)
  with False digits_value_decimal [of "nat v"] show ?thesis
    by (simp add: int_to_string_def parse_int_str_def parse_number_def digit_not_special)
qed

lemma parse_i64_to_string: "parse_i64 (int_to_string (sint w)) = Some w"
  by (simp add: parse_i64_def parse_int_to_string try_from_int_Some_iff)

lemma last_decimal_digit: "is_digit_code (last (decimal n))"
  using decimal_digits [of n] by (metis decimal_not_Nil last_in_set list_all_iff)

lemma hd_decimal_digit: "is_digit_code (hd (decimal n))"
  using decimal_digits [of n] by (metis decimal_not_Nil hd_in_set list_all_iff)

lemma trim_int_to_string: "trim (int_to_string v) = int_to_string v"
proof (rule trim_plain)
  show "plain_char (hd (int_to_string v))"
    using digit_plain [OF hd_decimal_digit]
    by (simp add: int_to_string_def plain_char_def)
  show "plain_char (last (int_to_string v))"
    using digit_plain [OF last_decimal_digit]
    by (simp add: int_to_string_def)
qed

lemma int_to_string_not_Nil [simp]: "int_to_string v \<noteq> []"
  by (simp add: int_to_string_def)

section \<open>The shape of a balance\<close>

definition positive_part :: "int \<Rightarrow> int" where
  "positive_part x = max 0 x"

definition debit_sum :: "(string, i64) btree \<Rightarrow> int" where
  "debit_sum m = (\<Sum>b\<leftarrow>bt_values m. positive_part (sint b))"

definition credit_sum :: "(string, i64) btree \<Rightarrow> int" where
  "credit_sum m = (\<Sum>b\<leftarrow>bt_values m. positive_part (- sint b))"

definition native_ok :: "native_balance \<Rightarrow> bool" where
  "native_ok r \<longleftrightarrow>
     bt_ok (nat_balances r)
     \<and> (\<forall>(a, b) \<in> set (nat_balances r). a \<noteq> [] \<and> b \<noteq> i64_min)
     \<and> sint (nat_debits r) = debit_sum (nat_balances r)
     \<and> sint (nat_credits r) = credit_sum (nat_balances r)"

lemma sum_bt_insert:
  "k \<notin> fst ` set m \<Longrightarrow> (\<Sum>b\<leftarrow>bt_values (bt_insert k v m). f b) = f v + (\<Sum>b\<leftarrow>bt_values m. f b :: int)"
  by (induction k v m rule: bt_insert.induct) (auto simp: bt_values_def)

lemma set_bt_insert: "k \<notin> fst ` set m \<Longrightarrow> set (bt_insert k v m) = insert (k, v) (set m)"
  by (induction k v m rule: bt_insert.induct) auto

lemma sint_inject: "sint v = sint w \<longleftrightarrow> v = (w :: 'a::len word)"
  by (auto intro: sint_eqI)

lemma add_balance_Ok_iff:
  "add_balance (account, b) r = Ok r' \<longleftrightarrow>
     trim account \<noteq> [] \<and> trim account \<notin> fst ` set (nat_balances r) \<and> b \<noteq> i64_min
     \<and> nat_balances r' = bt_insert (trim account) b (nat_balances r)
     \<and> sint (nat_debits r') = sint (nat_debits r) + positive_part (sint b)
     \<and> sint (nat_credits r') = sint (nat_credits r) + positive_part (- sint b)"
proof (cases "trim account = [] \<or> bt_get (nat_balances r) (trim account) \<noteq> None")
  case True
  then show ?thesis by (auto simp: add_balance_def Let_def bt_get_None_iff)
next
  case fresh: False
  show ?thesis
  proof (cases "0 \<le> sint b")
    case True
    then have "b \<noteq> i64_min" by auto
    with True fresh show ?thesis
      by (cases r; cases r')
        (auto simp: add_balance_def Let_def outcome_simps checked_Some_iff positive_part_def
          bt_get_None_iff [symmetric] intro: sint_eqI)
  next
    case False
    show ?thesis
    proof (cases "checked_neg b")
      case None
      then have "b = i64_min"
        using i64_range [of b] by (simp add: checked_neg_def try_from_int_None_iff eq_i64_min_iff)
      with None False fresh show ?thesis by (simp add: add_balance_def ok_or_def)
    next
      case (Some c)
      then have c: "sint c = - sint b" by (simp add: checked_Some_iff)
      then have "b \<noteq> i64_min" using i64_range [of c] by (simp add: eq_i64_min_iff)
      with Some c False fresh show ?thesis
        by (cases r; cases r')
          (auto simp: add_balance_def Let_def outcome_simps checked_Some_iff positive_part_def
            bt_get_None_iff [symmetric] sint_inject)
    qed
  qed
qed

lemma add_balance_ok:
  assumes "native_ok r" and "add_balance x r = Ok r'"
  shows "native_ok r'"
  using assms
  by (cases x)
    (auto simp: native_ok_def add_balance_Ok_iff bt_ok_insert set_bt_insert debit_sum_def
      credit_sum_def sum_bt_insert)

lemma no_balances_ok: "native_ok no_balances"
  by (simp add: native_ok_def no_balances_def debit_sum_def credit_sum_def bt_values_def)

lemma from_balances_ok: "from_balances xs = Ok r \<Longrightarrow> native_ok r"
  unfolding from_balances_def
  using no_balances_ok by (auto elim!: rfold_invariant [where I = "\<lambda>_. native_ok"] intro: add_balance_ok)

section \<open>What a parsed balance is\<close>

lemma finish_balances_ok: "finish_balances xs = Ok r \<Longrightarrow> native_ok r"
  by (auto simp: finish_balances_def from_balances_ok split: if_splits)

lemma parse_trial_balance_ok:
  "parse_trial_balance_csv bytes = Ok r \<Longrightarrow> native_ok r"
  "parse_quickbooks_trial_balance_csv bytes = Ok r \<Longrightarrow> native_ok r"
  by (auto simp: parse_trial_balance_csv_def parse_quickbooks_trial_balance_csv_def
      parse_normalized_trial_balance_csv_rows_def parse_quickbooks_trial_balance_csv_rows_def
      outcome_simps split: option.splits dest: finish_balances_ok)

section \<open>What a passing reconciliation says\<close>

lemma bt_ok_ext:
  assumes "bt_ok m" and "bt_ok n" and "\<And>k. bt_get m k = bt_get n k"
  shows "m = n"
proof -
  have "set m = set n"
    using assms by (auto simp: bt_get_iff)
  moreover have "distinct (map fst m)" and "distinct (map fst n)"
    and "sorted (map fst m)" and "sorted (map fst n)"
    using assms(1,2) by (auto simp: bt_ok_def strict_sorted_iff)
  ultimately show ?thesis
    by (intro map_sorted_distinct_set_unique [of fst m n]) (auto simp: distinct_map)
qed

definition only_in :: "native_balance \<Rightarrow> native_balance \<Rightarrow> (string \<times> i64) list" where
  "only_in r a = filter (\<lambda>(k, b). bt_get (nat_balances a) k = None) (nat_balances r)"

definition differing :: "native_balance \<Rightarrow> native_balance \<Rightarrow> (string \<times> i64) list" where
  "differing r a =
     filter (\<lambda>(k, b). \<exists>c. bt_get (nat_balances a) k = Some c \<and> c \<noteq> b) (nat_balances r)"

lemma compare_reference_fold:
  "fold (compare_reference a) xs (m, e, mx) =
     (m @ map (\<lambda>(k, b). \<lparr>var_account = k, var_cents = - sint b\<rparr>)
            (filter (\<lambda>(k, b). bt_get (nat_balances a) k = None) xs),
      e @ map (\<lambda>(k, b). \<lparr>var_account = k, var_cents = sint (the (bt_get (nat_balances a) k)) - sint b\<rparr>)
            (filter (\<lambda>(k, b). \<exists>c. bt_get (nat_balances a) k = Some c \<and> c \<noteq> b) xs),
      fold (\<lambda>(k, b) mx. case bt_get (nat_balances a) k of
                           None \<Rightarrow> max mx \<bar>sint b\<bar>
                         | Some c \<Rightarrow> if c \<noteq> b then max mx \<bar>sint c - sint b\<bar> else mx) xs mx)"
  by (induction xs arbitrary: m e mx)
    (auto simp: compare_reference_def Let_def split: option.split prod.split)

lemma compare_actual_fold:
  "fold (compare_actual r) xs (e, mx) =
     (e @ map (\<lambda>(k, b). \<lparr>var_account = k, var_cents = sint b\<rparr>)
            (filter (\<lambda>(k, b). bt_get (nat_balances r) k = None) xs),
      fold (\<lambda>(k, b) mx. if bt_get (nat_balances r) k = None then max mx \<bar>sint b\<bar> else mx) xs mx)"
  by (induction xs arbitrary: e mx) (auto simp: compare_actual_def split: prod.split)

lemma reconcile_lists:
  "rec_missing (reconcile_trial_balances r a) =
     map (\<lambda>(k, b). \<lparr>var_account = k, var_cents = - sint b\<rparr>) (only_in r a)"
  "rec_extra (reconcile_trial_balances r a) =
     map (\<lambda>(k, b). \<lparr>var_account = k, var_cents = sint b\<rparr>) (only_in a r)"
  "rec_mismatched (reconcile_trial_balances r a) =
     map (\<lambda>(k, b). \<lparr>var_account = k, var_cents = sint (the (bt_get (nat_balances a) k)) - sint b\<rparr>) (differing r a)"
  by (simp_all add: reconcile_trial_balances_def compare_reference_fold compare_actual_fold
      only_in_def differing_def)

lemma only_in_Nil:
  assumes "bt_ok (nat_balances r)"
  shows "only_in r a = [] \<longleftrightarrow> (\<forall>k b. bt_get (nat_balances r) k = Some b \<longrightarrow> bt_get (nat_balances a) k \<noteq> None)"
  unfolding only_in_def filter_empty_conv bt_get_iff [OF assms, symmetric] by auto

lemma differing_Nil:
  assumes "bt_ok (nat_balances r)"
  shows "differing r a = [] \<longleftrightarrow>
    (\<forall>k b c. bt_get (nat_balances r) k = Some b \<longrightarrow> bt_get (nat_balances a) k = Some c \<longrightarrow> c = b)"
  unfolding differing_def filter_empty_conv bt_get_iff [OF assms, symmetric] by auto

lemma no_difference_iff:
  assumes r: "bt_ok (nat_balances r)" and a: "bt_ok (nat_balances a)"
  shows "only_in r a = [] \<and> only_in a r = [] \<and> differing r a = [] \<longleftrightarrow> nat_balances r = nat_balances a"
proof
  assume none: "only_in r a = [] \<and> only_in a r = [] \<and> differing r a = []"
  have "bt_get (nat_balances r) k = bt_get (nat_balances a) k" for k
  proof (cases "bt_get (nat_balances r) k")
    case None
    with none show ?thesis
      unfolding only_in_Nil [OF a] by (cases "bt_get (nat_balances a) k") auto
  next
    case (Some b)
    with none show ?thesis
      unfolding only_in_Nil [OF r] differing_Nil [OF r] by (cases "bt_get (nat_balances a) k") auto
  qed
  with assms show "nat_balances r = nat_balances a" by (rule bt_ok_ext)
qed (auto simp: only_in_Nil r a differing_Nil)

lemma fold_fixpoint: "(\<And>x. x \<in> set xs \<Longrightarrow> f x s = s) \<Longrightarrow> fold f xs s = s"
  by (induction xs) auto

lemma reconcile_max_same:
  assumes "bt_ok m" and "nat_balances r = m" and "nat_balances a = m"
  shows "rec_max_variance (reconcile_trial_balances r a) = 0"
proof -
  have "fold (compare_reference a) m ([], [], 0) = ([], [], 0)"
    using assms by (intro fold_fixpoint) (auto simp: compare_reference_def bt_get_iff)
  moreover have "fold (compare_actual r) m ([], 0) = ([], 0)"
    using assms by (intro fold_fixpoint) (auto simp: compare_actual_def bt_get_iff)
  ultimately show ?thesis using assms by (simp add: reconcile_trial_balances_def)
qed

lemma passes_iff:
  assumes "native_ok r" and "native_ok a"
  shows "passes (reconcile_trial_balances r a) \<longleftrightarrow> nat_balances r = nat_balances a \<and> is_balanced r"
proof
  assume p: "passes (reconcile_trial_balances r a)"
  have "is_balanced r"
    using p by (auto simp: passes_def reconcile_trial_balances_def is_balanced_def split: prod.splits)
  moreover have "nat_balances r = nat_balances a"
    using p no_difference_iff [of r a] assms
    by (simp add: passes_def reconcile_lists native_ok_def)
  ultimately show "nat_balances r = nat_balances a \<and> is_balanced r" by simp
next
  assume same: "nat_balances r = nat_balances a \<and> is_balanced r"
  then have "nat_debits r = nat_debits a" and "nat_credits r = nat_credits a"
    using assms by (auto simp: native_ok_def intro!: sint_eqI)
  moreover have "only_in r a = [] \<and> only_in a r = [] \<and> differing r a = []"
    using same no_difference_iff [of r a] assms by (simp add: native_ok_def)
  moreover have "rec_max_variance (reconcile_trial_balances r a) = 0"
    using same assms by (intro reconcile_max_same [of "nat_balances a"]) (auto simp: native_ok_def)
  ultimately show "passes (reconcile_trial_balances r a)"
    using same
    by (simp add: passes_def is_balanced_def reconcile_lists)
      (simp add: reconcile_trial_balances_def split: prod.split)
qed

section \<open>Headings\<close>

definition folded_heading :: "string \<Rightarrow> string" where
  "folded_heading v = to_ascii_lowercase (trim v)"

lemma column_folded:
  "column names row =
     fold (\<lambda>(i, v) acc. if v \<in> set names then Some i else acc) (enumerate 0 (map folded_heading row)) None"
proof -
  have "fold (\<lambda>(i, v) acc. if to_ascii_lowercase (trim v) \<in> set names then Some i else acc) (enumerate n row) acc
     = fold (\<lambda>(i, v) acc. if v \<in> set names then Some i else acc) (enumerate n (map folded_heading row)) acc"
    for n acc
    by (induction row arbitrary: n acc) (simp_all add: folded_heading_def)
  then show ?thesis by (simp add: column_def)
qed

end
