(* ===== verification/Report_Names.thy ===== *)
theory Report_Names
  imports Ledger_Invariant Text
begin

text \<open>
  Account names in the reports of \<open>crates/openqbw-cli/src/report_output.rs\<close>: the
  hierarchy-qualified full name (\<open>Parent:Child\<close>) and the display label with the nearest account
  number. Both walk the parent references with a set of visited accounts. Maps keyed by the text
  of an account identifier are keyed by the identifier, which has the same order.
\<close>

datatype report_output_error =
    EmptyMetadata string
  | InvalidTrialBalancePolicyMetadata
  | EmptyBundle
  | InconsistentAsOfDays accounting_date accounting_date
  | UnbalancedReport int int
  | InconsistentTrialBalanceRow account_id
  | UnbalancedReportTransaction transaction_id int
  | DuplicateAccountId account_id
  | ConflictingAccountMetadata account_id
  | MissingParentAccount account_id string
  | ReportHierarchyCycle account_id
  | DuplicatePostingId posting_id
  | DuplicateSourceRow string
  | PostingAccountMismatch posting_id account_id account_id
  | NonCurrentPosting posting_id
  | ZeroReportPosting posting_id
  | NonDisplayablePostingAmount posting_id
  | PostingAfterAsOf posting_id accounting_date accounting_date
  | TrialBalanceGeneralLedgerMismatch account_id i64 int

type_synonym names = "(account_id, string) btree"

section \<open>The accounts of a report\<close>

definition add_by_id :: "account \<Rightarrow> chart \<Rightarrow> (report_output_error, chart) outcome" where
  "add_by_id a m =
     (case bt_get m (acc_id a) of
        Some existing \<Rightarrow> if existing \<noteq> a then Err (ConflictingAccountMetadata (acc_id a)) else Ok m
      | None \<Rightarrow> Ok (bt_insert (acc_id a) a m))"

definition accounts_by_id :: "account list \<Rightarrow> (report_output_error, chart) outcome" where
  "accounts_by_id as = rfold add_by_id as []"

section \<open>Full names\<close>

text \<open>The inner \<open>loop\<close>: names from the account up to its top-level ancestor.\<close>

function name_components ::
    "chart \<Rightarrow> account_id \<Rightarrow> account_id set \<Rightarrow> string list \<Rightarrow> account_id \<Rightarrow>
     (report_output_error, string list) outcome" where
  "name_components m start seen components current =
     (if current \<in> seen then Err (ReportHierarchyCycle current)
      else
        (case bt_get m current of
           None \<Rightarrow> Err (MissingParentAccount start (account_id_str current))
         | Some a \<Rightarrow>
             (case acc_parent a of
                Some parent \<Rightarrow>
                  name_components m start (insert current seen) (components @ [acc_name a]) parent
              | None \<Rightarrow> Ok (components @ [acc_name a]))))"
  by pat_completeness auto
termination
proof (relation "measure (\<lambda>(m, start, seen, components, current). card (fst ` set m - seen))", goal_cases)
  case (2 m start seen components current a parent)
  then have "current \<in> fst ` set m - seen"
    by (metis DiffI bt_get_None_iff option.distinct(1))
  moreover have "fst ` set m - insert current seen = fst ` set m - seen - {current}" by auto
  ultimately have "card (fst ` set m - insert current seen) < card (fst ` set m - seen)"
    by (simp only:) (intro card_Diff1_less, auto)
  then show ?case by simp
qed simp

declare name_components.simps [simp del]

definition full_name_of :: "chart \<Rightarrow> account_id \<Rightarrow> (report_output_error, string) outcome" where
  "full_name_of m k =
     rbind (name_components m k {} [] k) (\<lambda>components. Ok (join_with '':'' (rev components)))"

definition account_full_names :: "account list \<Rightarrow> (report_output_error, names) outcome" where
  "account_full_names as =
     rbind (accounts_by_id as) (\<lambda>by_id.
       rfold (\<lambda>k names. rbind (full_name_of by_id k) (\<lambda>n. Ok (bt_insert k n names))) (bt_keys by_id) [])"

definition account_full_names_with_catalog ::
    "account list \<Rightarrow> account list \<Rightarrow> (report_output_error, names) outcome" where
  "account_full_names_with_catalog catalog report_accounts = account_full_names (catalog @ report_accounts)"

section \<open>Display labels\<close>

text \<open>The inner \<open>loop\<close>: the account's own number or that of the nearest numbered ancestor.\<close>

function nearest_number ::
    "chart \<Rightarrow> account_id \<Rightarrow> account_id set \<Rightarrow> account \<Rightarrow> (report_output_error, string option) outcome" where
  "nearest_number m start seen current =
     (if acc_id current \<in> seen then Err (ReportHierarchyCycle start)
      else
        (case acc_number current of
           Some number \<Rightarrow> Ok (Some number)
         | None \<Rightarrow>
             (case acc_parent current of
                None \<Rightarrow> Ok None
              | Some parent \<Rightarrow>
                  (case bt_get m parent of
                     None \<Rightarrow> Err (MissingParentAccount start (account_id_str parent))
                   | Some a \<Rightarrow> nearest_number m start (insert (acc_id current) seen) a))))"
  by pat_completeness auto
termination
proof (relation "measure (\<lambda>(m, start, seen, current).
    card (insert (acc_id current) (acc_id ` snd ` set m) - seen))", goal_cases)
  case (2 m start seen current parent a)
  then have "a \<in> snd ` set m" by (force dest: bt_get_SomeD)
  then have "insert (acc_id a) (acc_id ` snd ` set m) - insert (acc_id current) seen
           \<subset> insert (acc_id current) (acc_id ` snd ` set m) - seen"
    using 2(1) by auto
  then show ?case by (simp add: psubset_card_mono)
qed simp

declare nearest_number.simps [simp del]

definition number_separator :: string where
  "number_separator = [CHR '' '', CHR 0xC2, CHR 0xB7, CHR '' '']"

definition missing_from_report :: string where
  "missing_from_report = ''<account missing from report>''"

definition display_label :: "chart \<Rightarrow> names \<Rightarrow> account_id \<times> account \<Rightarrow> (report_output_error, string) outcome" where
  "display_label m full_names entry =
     (case entry of (k, a) \<Rightarrow>
        rbind (nearest_number m k {} a) (\<lambda>number.
        rbind (ok_or (bt_get full_names k) (MissingParentAccount k missing_from_report)) (\<lambda>full_name.
          Ok (case number of Some n \<Rightarrow> n @ number_separator @ full_name | None \<Rightarrow> full_name))))"

definition account_display_names :: "account list \<Rightarrow> names \<Rightarrow> (report_output_error, names) outcome" where
  "account_display_names as full_names =
     rbind (accounts_by_id as) (\<lambda>by_id.
       rfold (\<lambda>e names. rbind (display_label by_id full_names e) (\<lambda>n. Ok (bt_insert (fst e) n names))) by_id [])"

definition account_display_names_with_catalog ::
    "account list \<Rightarrow> account list \<Rightarrow> names \<Rightarrow> (report_output_error, names) outcome" where
  "account_display_names_with_catalog catalog report_accounts full_names =
     account_display_names (catalog @ report_accounts) full_names"

text \<open>Look-ups of one account's names.\<close>

definition account_full_name :: "names \<Rightarrow> account \<Rightarrow> (report_output_error, string) outcome" where
  "account_full_name names a = ok_or (bt_get names (acc_id a)) (MissingParentAccount (acc_id a) missing_from_report)"

definition account_display_name :: "names \<Rightarrow> account \<Rightarrow> (report_output_error, string) outcome" where
  "account_display_name names a = account_full_name names a"

end
