(* ===== verification/Report_Output.thy ===== *)
theory Report_Output
  imports Report_Names Native_Trial_Balance Ledger_Reports
begin

text \<open>
  The report encoders of \<open>crates/openqbw-cli/src/report_output.rs\<close>: provenance metadata, the
  validation that runs before any output, and the CSV and JSON encodings of the Trial Balance and
  the General Ledger. The functions that append to \<open>out\<close> return the extended string.
\<close>

section \<open>Metadata\<close>

record policy_provenance =
  pp_source :: string
  pp_fiscal_year_start :: string
  pp_as_of :: string
  pp_retained_id :: string
  pp_retained_name :: "string option"

record report_metadata =
  md_entity :: string
  md_source_file :: string
  md_parser_version :: string
  md_generated_at :: string
  md_policy :: "policy_provenance option"

definition check_metadata_field ::
    "string \<times> string \<Rightarrow> unit \<Rightarrow> (report_output_error, unit) outcome" where
  "check_metadata_field entry u =
     (case entry of (field, v) \<Rightarrow> ensure (\<not> trim_is_empty v) (EmptyMetadata field))"

definition policy_invalid :: "policy_provenance \<Rightarrow> bool" where
  "policy_invalid p \<longleftrightarrow>
     pp_source p \<noteq> ''explicit'' \<or> trim_is_empty (pp_fiscal_year_start p) \<or> trim_is_empty (pp_as_of p)
     \<or> trim_is_empty (pp_retained_id p)
     \<or> (case pp_retained_name p of Some n \<Rightarrow> trim_is_empty n | None \<Rightarrow> False)"

definition metadata_validate :: "report_metadata \<Rightarrow> (report_output_error, unit) outcome" where
  "metadata_validate md =
     rbind (rfold check_metadata_field
              [(''entity_id'', md_entity md), (''source_file'', md_source_file md),
               (''parser_version'', md_parser_version md), (''generated_at'', md_generated_at md)] ()) (\<lambda>_.
       if (case md_policy md of Some p \<Rightarrow> policy_invalid p | None \<Rightarrow> False)
       then Err InvalidTrialBalancePolicyMetadata
       else Ok ())"

section \<open>Validation\<close>

definition display_matches_signed :: "trial_balance_row \<Rightarrow> bool" where
  "display_matches_signed row =
     (if 0 < sint (row_signed row) then row_debit row = Some (row_signed row) \<and> row_credit row = None
      else if sint (row_signed row) < 0 then
        row_debit row = None \<and> map_option sint (row_credit row) = Some (- sint (row_signed row))
      else row_debit row = None \<and> row_credit row = None)"

definition validate_row ::
    "trial_balance_row \<Rightarrow> account_id set \<Rightarrow> (report_output_error, account_id set) outcome" where
  "validate_row row ids =
     (if acc_id (row_account row) \<in> ids then Err (DuplicateAccountId (acc_id (row_account row)))
      else if \<not> display_matches_signed row then
        Err (InconsistentTrialBalanceRow (acc_id (row_account row)))
      else Ok (insert (acc_id (row_account row)) ids))"

definition validate_trial_balance :: "trial_balance \<Rightarrow> (report_output_error, unit) outcome" where
  "validate_trial_balance report =
     rbind (rfold validate_row (tb_rows report) {}) (\<lambda>_.
       let debit = total_debit_minor_units report; credit = total_credit_minor_units report in
       if debit \<noteq> credit then Err (UnbalancedReport debit credit) else Ok ())"

definition validate_entry ::
    "accounting_date \<Rightarrow> general_ledger_entry \<Rightarrow>
     posting_id set \<times> string set \<times> (transaction_id, int) btree \<Rightarrow>
     (report_output_error, posting_id set \<times> string set \<times> (transaction_id, int) btree) outcome" where
  "validate_entry as_of e st =
     (case st of (posting_ids, source_rows, totals) \<Rightarrow>
        let p = ent_posting e in
        if post_id p \<in> posting_ids then Err (DuplicatePostingId (post_id p))
        else if prov_source_row (post_provenance p) \<in> source_rows then
          Err (DuplicateSourceRow (prov_source_row (post_provenance p)))
        else if post_account p \<noteq> acc_id (ent_account e) then
          Err (PostingAccountMismatch (post_id p) (post_account p) (acc_id (ent_account e)))
        else if post_state p \<noteq> Current then Err (NonCurrentPosting (post_id p))
        else if post_signed p = 0 then Err (ZeroReportPosting (post_id p))
        else if post_signed p = i64_min then Err (NonDisplayablePostingAmount (post_id p))
        else if as_of < post_date p then Err (PostingAfterAsOf (post_id p) (post_date p) as_of)
        else Ok (insert (post_id p) posting_ids, insert (prov_source_row (post_provenance p)) source_rows,
                 bt_add (post_transaction p) (sint (post_signed p)) totals))"

definition validate_general_ledger :: "general_ledger \<Rightarrow> (report_output_error, unit) outcome" where
  "validate_general_ledger report =
     rbind (rfold (validate_entry (gl_as_of report)) (gl_entries report) ({}, {}, [])) (\<lambda>(_, _, totals).
       case find (\<lambda>(txn, net). net \<noteq> 0) totals of
         Some (txn, net) \<Rightarrow> Err (UnbalancedReportTransaction txn net)
       | None \<Rightarrow> Ok ())"

text \<open>Both reports in one bundle: the same day, the same account metadata, the same balances.\<close>

record report_bundle =
  bun_trial_balance :: "trial_balance option"
  bun_general_ledger :: "general_ledger option"

definition signed_or_zero :: "i64 option \<Rightarrow> i64" where
  "signed_or_zero x = (case x of Some w \<Rightarrow> w | None \<Rightarrow> 0)"

definition compare_balance ::
    "(account_id, i64) btree \<Rightarrow> (account_id, int) btree \<Rightarrow> account_id \<Rightarrow> unit \<Rightarrow>
     (report_output_error, unit) outcome" where
  "compare_balance tb gl k u =
     (let t = signed_or_zero (bt_get tb k); g = bt_total gl k in
      if sint t \<noteq> g then Err (TrialBalanceGeneralLedgerMismatch k t g) else Ok ())"

definition validate_trial_balance_matches_general_ledger ::
    "trial_balance \<Rightarrow> general_ledger \<Rightarrow> (report_output_error, unit) outcome" where
  "validate_trial_balance_matches_general_ledger tb gl =
     (let ledger_balances = bt_tally (\<lambda>e. acc_id (ent_account e)) entry_amount (gl_entries gl);
          row_balances = fold (\<lambda>r. bt_insert (acc_id (row_account r)) (row_signed r)) (tb_rows tb) [] in
      rfold (compare_balance row_balances ledger_balances)
        (bt_keys (fold (\<lambda>k. bt_insert k ()) (bt_keys row_balances @ bt_keys ledger_balances) [])) ())"

definition check_account_metadata :: "account \<Rightarrow> chart \<Rightarrow> (report_output_error, chart) outcome" where
  "check_account_metadata a m =
     (case bt_get m (acc_id a) of
        Some existing \<Rightarrow> if existing \<noteq> a then Err (ConflictingAccountMetadata (acc_id a)) else Ok m
      | None \<Rightarrow> Ok (bt_insert (acc_id a) a m))"

definition validate_account_metadata_consistency :: "report_bundle \<Rightarrow> (report_output_error, unit) outcome" where
  "validate_account_metadata_consistency bundle =
     (let accounts =
            (case bun_trial_balance bundle of
               Some tb \<Rightarrow> fold (\<lambda>r. bt_insert (acc_id (row_account r)) (row_account r)) (tb_rows tb) []
             | None \<Rightarrow> []) in
      case bun_general_ledger bundle of
        Some gl \<Rightarrow> rbind (rfold check_account_metadata (map ent_account (gl_entries gl)) accounts) (\<lambda>_. Ok ())
      | None \<Rightarrow> Ok ())"

definition when_some :: "('a \<Rightarrow> ('e, unit) outcome) \<Rightarrow> 'a option \<Rightarrow> ('e, unit) outcome" where
  "when_some f x = (case x of Some a \<Rightarrow> f a | None \<Rightarrow> Ok ())"

definition validate_bundle :: "report_bundle \<Rightarrow> (report_output_error, unit) outcome" where
  "validate_bundle bundle =
     (if bun_trial_balance bundle = None \<and> bun_general_ledger bundle = None then Err EmptyBundle
      else
        rbind (when_some validate_trial_balance (bun_trial_balance bundle)) (\<lambda>_.
        rbind (when_some validate_general_ledger (bun_general_ledger bundle)) (\<lambda>_.
        rbind (case (bun_trial_balance bundle, bun_general_ledger bundle) of
                 (Some tb, Some gl) \<Rightarrow>
                   if tb_as_of tb \<noteq> gl_as_of gl then Err (InconsistentAsOfDays (tb_as_of tb) (gl_as_of gl)) else Ok ()
               | _ \<Rightarrow> Ok ()) (\<lambda>_.
        rbind (validate_account_metadata_consistency bundle) (\<lambda>_.
          case (bun_trial_balance bundle, bun_general_ledger bundle) of
            (Some tb, Some gl) \<Rightarrow> validate_trial_balance_matches_general_ledger tb gl
          | _ \<Rightarrow> Ok ())))))"

definition account_full_names_for_bundle_with_catalog ::
    "report_bundle \<Rightarrow> account list \<Rightarrow> (report_output_error, names) outcome" where
  "account_full_names_for_bundle_with_catalog bundle catalog =
     account_full_names_with_catalog catalog
       ((case bun_trial_balance bundle of Some tb \<Rightarrow> map row_account (tb_rows tb) | None \<Rightarrow> [])
        @ (case bun_general_ledger bundle of Some gl \<Rightarrow> map ent_account (gl_entries gl) | None \<Rightarrow> []))"

section \<open>Cells\<close>

fun account_type_name :: "account_type \<Rightarrow> string" where
  "account_type_name Asset = ''asset''"
| "account_type_name Liability = ''liability''"
| "account_type_name Equity = ''equity''"
| "account_type_name Income = ''income''"
| "account_type_name Expense = ''expense''"
| "account_type_name CostOfGoodsSold = ''cost_of_goods_sold''"
| "account_type_name (Other v) = v"

fun csv_legacy_active :: "account_activity \<Rightarrow> string option" where
  "csv_legacy_active Active = Some ''true''"
| "csv_legacy_active Inactive = Some ''false''"
| "csv_legacy_active Unknown = None"

definition format_cents :: "i64 \<Rightarrow> string" where
  "format_cents cents =
     (let v = sint cents; magnitude = nat \<bar>v\<bar> in
      (if v < 0 then ''-'' else []) @ decimal (magnitude div 100) @ ''.'' @ zero_pad 2 (magnitude mod 100))"

definition cents_text :: "i64 \<Rightarrow> string" where
  "cents_text w = int_to_string (sint w)"

definition trial_balance_account_display_name :: "string \<Rightarrow> report_metadata \<Rightarrow> account \<Rightarrow> string" where
  "trial_balance_account_display_name decoded md a =
     (case md_policy md of
        Some p \<Rightarrow>
          if pp_retained_id p = account_id_str (acc_id a)
          then (case pp_retained_name p of Some n \<Rightarrow> n | None \<Rightarrow> decoded)
          else decoded
      | None \<Rightarrow> decoded)"

section \<open>CSV\<close>

definition trial_balance_header :: string where
  "trial_balance_header =
     ''entity_id,as_of_day,account_id,account_number,account_name,account_full_name,account_display_name,parent_account_id,account_type,quickbooks_classification,active,activity,debit_cents,debit,credit_cents,credit,net_cents,net,source_file,parser_version,generated_at,tb_policy_source,tb_policy_as_of,tb_policy_fiscal_year_start,tb_policy_retained_earnings_account_id,tb_policy_retained_earnings_report_name''
     @ [CHR 0x0A]"

definition trial_balance_cells ::
    "report_metadata \<Rightarrow> accounting_date \<Rightarrow> string \<Rightarrow> string \<Rightarrow> trial_balance_row \<Rightarrow> string option list" where
  "trial_balance_cells md as_of full_name display_name row =
     (let a = row_account row in
      [Some (md_entity md), Some (int_to_string as_of), Some (account_id_str (acc_id a)),
       acc_number a, Some (acc_name a), Some full_name, Some display_name,
       map_option account_id_str (acc_parent a), Some (account_type_name (acc_type a)),
       map_option source_label (acc_classification a), csv_legacy_active (acc_activity a),
       Some (activity_as_str (acc_activity a)),
       map_option cents_text (row_debit row), map_option format_cents (row_debit row),
       map_option cents_text (row_credit row), map_option format_cents (row_credit row),
       Some (cents_text (row_signed row)), Some (format_cents (row_signed row)),
       Some (md_source_file md), Some (md_parser_version md), Some (md_generated_at md),
       map_option pp_source (md_policy md), map_option pp_as_of (md_policy md),
       map_option pp_fiscal_year_start (md_policy md), map_option pp_retained_id (md_policy md),
       Option.bind (md_policy md) pp_retained_name])"

definition trial_balance_csv_row ::
    "report_metadata \<Rightarrow> accounting_date \<Rightarrow> names \<Rightarrow> names \<Rightarrow> trial_balance_row \<Rightarrow> string \<Rightarrow>
     (report_output_error, string) outcome" where
  "trial_balance_csv_row md as_of full_names display_names row out =
     (let a = row_account row in
      rbind (account_display_name display_names a) (\<lambda>d.
      rbind (account_full_name full_names a) (\<lambda>f.
        Ok (csv_row out
             (trial_balance_cells md as_of f (trial_balance_account_display_name d md a) row)))))"

definition rows_by_account :: "trial_balance \<Rightarrow> trial_balance_row list" where
  "rows_by_account report = sort_key (\<lambda>row. acc_id (row_account row)) (tb_rows report)"

definition trial_balance_csv_with_account_catalog ::
    "trial_balance \<Rightarrow> report_metadata \<Rightarrow> account list \<Rightarrow> (report_output_error, string) outcome" where
  "trial_balance_csv_with_account_catalog report md catalog =
     rbind (validate_trial_balance report) (\<lambda>_.
     rbind (metadata_validate md) (\<lambda>_.
     rbind (account_full_names_with_catalog catalog (map row_account (tb_rows report))) (\<lambda>full_names.
     rbind (account_display_names_with_catalog catalog (map row_account (tb_rows report)) full_names) (\<lambda>display_names.
       rfold (trial_balance_csv_row md (tb_as_of report) full_names display_names)
         (rows_by_account report) trial_balance_header))))"

definition trial_balance_csv :: "trial_balance \<Rightarrow> report_metadata \<Rightarrow> (report_output_error, string) outcome" where
  "trial_balance_csv report md = trial_balance_csv_with_account_catalog report md []"

definition general_ledger_header :: string where
  "general_ledger_header =
     ''entity_id,as_of_day,posting_day,transaction_id,posting_id,account_id,account_number,account_name,account_full_name,account_display_name,parent_account_id,account_type,quickbooks_classification,active,activity,debit_cents,debit,credit_cents,credit,net_cents,net,transaction_type,memo,source_row,page_number,slot_number,decoder,source_file,parser_version,generated_at''
     @ [CHR 0x0A]"

definition general_ledger_cells ::
    "report_metadata \<Rightarrow> accounting_date \<Rightarrow> string \<Rightarrow> string \<Rightarrow> general_ledger_entry \<Rightarrow> string option list" where
  "general_ledger_cells md as_of full_name display_name e =
     (let a = ent_account e; p = ent_posting e; prov = post_provenance p in
      [Some (md_entity md), Some (int_to_string as_of), Some (int_to_string (post_date p)),
       Some (transaction_id_str (post_transaction p)), Some (posting_id_str (post_id p)),
       Some (account_id_str (acc_id a)), acc_number a, Some (acc_name a), Some full_name, Some display_name,
       map_option account_id_str (acc_parent a), Some (account_type_name (acc_type a)),
       map_option source_label (acc_classification a), csv_legacy_active (acc_activity a),
       Some (activity_as_str (acc_activity a)),
       map_option cents_text (debit_minor_units p), map_option format_cents (debit_minor_units p),
       map_option cents_text (credit_minor_units p), map_option format_cents (credit_minor_units p),
       Some (cents_text (post_signed p)), Some (format_cents (post_signed p)),
       post_type p, post_memo p, Some (prov_source_row prov),
       map_option (\<lambda>n. decimal (unat n)) (prov_page_number prov),
       map_option (\<lambda>n. decimal (unat n)) (prov_slot_number prov),
       Some (prov_decoder prov), Some (md_source_file md), Some (md_parser_version md),
       Some (md_generated_at md)])"

definition general_ledger_csv_row ::
    "report_metadata \<Rightarrow> accounting_date \<Rightarrow> names \<Rightarrow> names \<Rightarrow> general_ledger_entry \<Rightarrow> string \<Rightarrow>
     (report_output_error, string) outcome" where
  "general_ledger_csv_row md as_of full_names display_names e out =
     rbind (account_display_name display_names (ent_account e)) (\<lambda>d.
     rbind (account_full_name full_names (ent_account e)) (\<lambda>f.
       Ok (csv_row out (general_ledger_cells md as_of f d e))))"

definition sorted_entries :: "general_ledger \<Rightarrow> general_ledger_entry list" where
  "sorted_entries report = sort_key entry_key (gl_entries report)"

definition general_ledger_csv_with_account_catalog ::
    "general_ledger \<Rightarrow> report_metadata \<Rightarrow> account list \<Rightarrow> (report_output_error, string) outcome" where
  "general_ledger_csv_with_account_catalog report md catalog =
     rbind (validate_general_ledger report) (\<lambda>_.
     rbind (metadata_validate md) (\<lambda>_.
     rbind (account_full_names_with_catalog catalog (map ent_account (gl_entries report))) (\<lambda>full_names.
     rbind (account_display_names_with_catalog catalog (map ent_account (gl_entries report)) full_names) (\<lambda>display_names.
       rfold (general_ledger_csv_row md (gl_as_of report) full_names display_names)
         (sorted_entries report) general_ledger_header))))"

definition general_ledger_csv :: "general_ledger \<Rightarrow> report_metadata \<Rightarrow> (report_output_error, string) outcome" where
  "general_ledger_csv report md = general_ledger_csv_with_account_catalog report md []"

end
