(* ===== verification/Report_Json.thy ===== *)
theory Report_Json
  imports Report_Output
begin

text \<open>
  The JSON encoders of \<open>crates/openqbw-cli/src/report_output.rs\<close>, written without a serialization
  library. What can go wrong in such an encoder is escaping; \<open>json_string_reads_back\<close> shows that a
  reader of the escapes recovers the text, and that the encoded text cannot close its own quotes.
\<close>

section \<open>Strings\<close>

definition hex_digit :: "nat \<Rightarrow> char" where
  "hex_digit d = (if d < 10 then char_of (48 + d) else char_of (87 + d))"

definition hex4 :: "nat \<Rightarrow> string" where
  "hex4 n = [hex_digit (n div 4096 mod 16), hex_digit (n div 256 mod 16), hex_digit (n div 16 mod 16),
             hex_digit (n mod 16)]"

definition backslash :: char where
  "backslash = CHR 0x5C"

definition json_char :: "char \<Rightarrow> string" where
  "json_char c =
     (if c = CHR 0x22 then [backslash, CHR 0x22]
      else if c = backslash then [backslash, backslash]
      else if c = CHR 0x08 then [backslash, CHR ''b'']
      else if c = CHR 0x0C then [backslash, CHR ''f'']
      else if c = CHR 0x0A then [backslash, CHR ''n'']
      else if c = CHR 0x0D then [backslash, CHR ''r'']
      else if c = CHR 0x09 then [backslash, CHR ''t'']
      else if (of_char c :: nat) \<le> 0x1F then backslash # CHR ''u'' # hex4 (of_char c)
      else [c])"

definition json_string :: "string \<Rightarrow> string \<Rightarrow> string" where
  "json_string out v = out @ [CHR 0x22] @ concat (map json_char v) @ [CHR 0x22]"

section \<open>Members\<close>

definition json_key_string_no_prefix :: "string \<Rightarrow> string \<Rightarrow> string \<Rightarrow> string" where
  "json_key_string_no_prefix out key v = json_string (json_string out key @ '':'') v"

definition json_key_string :: "string \<Rightarrow> string \<Rightarrow> string \<Rightarrow> string" where
  "json_key_string out key v = json_key_string_no_prefix (out @ '','') key v"

definition json_key_optional_string :: "string \<Rightarrow> string \<Rightarrow> string option \<Rightarrow> string" where
  "json_key_optional_string out key v =
     (let out = json_string (out @ '','') key @ '':'' in
      case v of Some s \<Rightarrow> json_string out s | None \<Rightarrow> out @ ''null'')"

definition json_key_optional_number :: "string \<Rightarrow> string \<Rightarrow> int option \<Rightarrow> string" where
  "json_key_optional_number out key v =
     (let out = json_string (out @ '','') key @ '':'' in
      case v of Some n \<Rightarrow> out @ int_to_string n | None \<Rightarrow> out @ ''null'')"

definition json_key_number :: "string \<Rightarrow> string \<Rightarrow> int \<Rightarrow> string" where
  "json_key_number out key v = json_string (out @ '','') key @ '':'' @ int_to_string v"

definition json_amounts :: "string \<Rightarrow> i64 option \<Rightarrow> i64 option \<Rightarrow> i64 \<Rightarrow> string" where
  "json_amounts out debit credit net =
     (let out = json_key_optional_number out ''debit_cents'' (map_option sint debit);
          out = json_key_optional_string out ''debit'' (map_option format_cents debit);
          out = json_key_optional_number out ''credit_cents'' (map_option sint credit);
          out = json_key_optional_string out ''credit'' (map_option format_cents credit);
          out = json_key_number out ''net_cents'' (sint net) in
      json_key_string out ''net'' (format_cents net))"

definition json_policy :: "string \<Rightarrow> policy_provenance \<Rightarrow> string" where
  "json_policy out p =
     (let out = out @ '',\"trial_balance_policy\":{'';
          out = json_key_string_no_prefix out ''source'' (pp_source p);
          out = json_key_string out ''as_of'' (pp_as_of p);
          out = json_key_string out ''fiscal_year_start'' (pp_fiscal_year_start p);
          out = json_key_string out ''retained_earnings_account_id'' (pp_retained_id p);
          out = json_key_optional_string out ''retained_earnings_report_name'' (pp_retained_name p) in
      out @ ''}'')"

definition json_metadata :: "report_metadata \<Rightarrow> bool \<Rightarrow> string" where
  "json_metadata md include_policy =
     (let out = json_key_string_no_prefix ''{'' ''entity_id'' (md_entity md);
          out = json_key_string out ''source_file'' (md_source_file md);
          out = json_key_string out ''parser_version'' (md_parser_version md);
          out = json_key_string out ''generated_at'' (md_generated_at md);
          out = (case md_policy md of Some p \<Rightarrow> if include_policy then json_policy out p else out | None \<Rightarrow> out) in
      out @ ''}'')"

definition json_account ::
    "string \<Rightarrow> account \<Rightarrow> names \<Rightarrow> names \<Rightarrow> (report_output_error, string) outcome" where
  "json_account out a full_names display_names =
     (let out = json_key_string_no_prefix (out @ ''{'') ''account_id'' (account_id_str (acc_id a));
          out = json_key_optional_string out ''account_number'' (acc_number a);
          out = json_key_string out ''account_name'' (acc_name a) in
      rbind (account_full_name full_names a) (\<lambda>f.
        let out = json_key_string out ''account_full_name'' f in
        rbind (account_display_name display_names a) (\<lambda>d.
          let out = json_key_string out ''account_display_name'' d;
              out = json_key_optional_string out ''parent_account_id'' (map_option account_id_str (acc_parent a));
              out = json_key_string out ''account_type'' (account_type_name (acc_type a));
              out = json_key_optional_string out ''quickbooks_classification''
                      (map_option source_label (acc_classification a));
              out = out @ '',\"active\":'' @
                      (case known_bool (acc_activity a) of
                         Some b \<Rightarrow> if b then ''true'' else ''false''
                       | None \<Rightarrow> ''null'');
              out = json_key_string out ''activity'' (activity_as_str (acc_activity a)) in
          Ok (out @ ''}''))))"

section \<open>Reports\<close>

definition comma_unless_first :: "nat \<Rightarrow> string \<Rightarrow> string" where
  "comma_unless_first index out = (if index \<noteq> 0 then out @ '','' else out)"

definition json_trial_balance_row ::
    "names \<Rightarrow> names \<Rightarrow> nat \<times> trial_balance_row \<Rightarrow> string \<Rightarrow> (report_output_error, string) outcome" where
  "json_trial_balance_row full_names display_names entry out =
     (case entry of (index, row) \<Rightarrow>
        rbind (json_account (comma_unless_first index out @ ''{\"account\":'') (row_account row)
                 full_names display_names) (\<lambda>out.
          Ok (json_amounts out (row_debit row) (row_credit row) (row_signed row) @ ''}'')))"

definition trial_balance_json_with_account_catalog ::
    "trial_balance \<Rightarrow> report_metadata \<Rightarrow> account list \<Rightarrow> (report_output_error, string) outcome" where
  "trial_balance_json_with_account_catalog report md catalog =
     rbind (validate_trial_balance report) (\<lambda>_.
     rbind (metadata_validate md) (\<lambda>_.
     rbind (account_full_names_with_catalog catalog (map row_account (tb_rows report))) (\<lambda>full_names.
     rbind (account_display_names_with_catalog catalog (map row_account (tb_rows report)) full_names) (\<lambda>display_names.
     rbind (rfold (json_trial_balance_row full_names display_names) (enumerate 0 (rows_by_account report))
              (''{\"report_type\":\"trial_balance\",\"metadata\":'' @ json_metadata md True
               @ '',\"as_of_day\":'' @ int_to_string (tb_as_of report) @ '',\"rows\":['')) (\<lambda>out.
       Ok (out @ '']}''))))))"

definition trial_balance_json :: "trial_balance \<Rightarrow> report_metadata \<Rightarrow> (report_output_error, string) outcome" where
  "trial_balance_json report md = trial_balance_json_with_account_catalog report md []"

definition json_provenance :: "string \<Rightarrow> posting_provenance \<Rightarrow> string" where
  "json_provenance out prov =
     (let out = json_key_string_no_prefix (out @ '',\"provenance\":{'') ''source_row'' (prov_source_row prov);
          out = json_key_optional_number out ''page_number'' (map_option uint (prov_page_number prov));
          out = json_key_optional_number out ''slot_number'' (map_option uint (prov_slot_number prov));
          out = json_key_string out ''decoder'' (prov_decoder prov) in
      out @ ''}}'')"

definition json_general_ledger_entry ::
    "names \<Rightarrow> names \<Rightarrow> nat \<times> general_ledger_entry \<Rightarrow> string \<Rightarrow> (report_output_error, string) outcome" where
  "json_general_ledger_entry full_names display_names entry out =
     (case entry of (index, e) \<Rightarrow>
        let p = ent_posting e in
        rbind (json_account (comma_unless_first index out @ ''{\"account\":'') (ent_account e)
                 full_names display_names) (\<lambda>out.
          let out = out @ '',\"posting_day\":'' @ int_to_string (post_date p);
              out = json_key_string out ''transaction_id'' (transaction_id_str (post_transaction p));
              out = json_key_string out ''posting_id'' (posting_id_str (post_id p));
              out = json_amounts out (debit_minor_units p) (credit_minor_units p) (post_signed p);
              out = json_key_optional_string out ''transaction_type'' (post_type p);
              out = json_key_optional_string out ''memo'' (post_memo p) in
          Ok (json_provenance out (post_provenance p))))"

definition general_ledger_json_with_account_catalog ::
    "general_ledger \<Rightarrow> report_metadata \<Rightarrow> account list \<Rightarrow> (report_output_error, string) outcome" where
  "general_ledger_json_with_account_catalog report md catalog =
     rbind (validate_general_ledger report) (\<lambda>_.
     rbind (metadata_validate md) (\<lambda>_.
     rbind (account_full_names_with_catalog catalog (map ent_account (gl_entries report))) (\<lambda>full_names.
     rbind (account_display_names_with_catalog catalog (map ent_account (gl_entries report)) full_names) (\<lambda>display_names.
     rbind (rfold (json_general_ledger_entry full_names display_names) (enumerate 0 (sorted_entries report))
              (''{\"report_type\":\"general_ledger\",\"metadata\":'' @ json_metadata md False
               @ '',\"as_of_day\":'' @ int_to_string (gl_as_of report) @ '',\"entries\":['')) (\<lambda>out.
       Ok (out @ '']}''))))))"

definition general_ledger_json :: "general_ledger \<Rightarrow> report_metadata \<Rightarrow> (report_output_error, string) outcome" where
  "general_ledger_json report md = general_ledger_json_with_account_catalog report md []"

section \<open>Reading a string back\<close>

text \<open>The string part of a JSON reader: the text up to the closing quote, and what follows it.\<close>

definition hex_value :: "char \<Rightarrow> nat option" where
  "hex_value c =
     (if is_digit_code c then Some (of_char c - 48)
      else if 97 \<le> (of_char c :: nat) \<and> (of_char c :: nat) \<le> 102 then Some (of_char c - 87)
      else None)"

definition read_escape :: "char \<Rightarrow> char option" where
  "read_escape c =
     map_of [(CHR 0x22, CHR 0x22), (backslash, backslash), (CHR ''b'', CHR 0x08), (CHR ''f'', CHR 0x0C),
             (CHR ''n'', CHR 0x0A), (CHR ''r'', CHR 0x0D), (CHR ''t'', CHR 0x09)] c"

fun read_json_text :: "string \<Rightarrow> (string \<times> string) option" where
  "read_json_text [] = None"
| "read_json_text (c # cs) =
     (if c = CHR 0x22 then Some ([], cs)
      else if c \<noteq> backslash then map_option (\<lambda>(v, r). (c # v, r)) (read_json_text cs)
      else
        (case cs of
           [] \<Rightarrow> None
         | e # r \<Rightarrow>
             if e = CHR ''u'' then
               (case r of
                  a # b # x # y # r' \<Rightarrow>
                    (case (hex_value a, hex_value b, hex_value x, hex_value y) of
                       (Some i, Some j, Some k, Some l) \<Rightarrow>
                         map_option (\<lambda>(v, t). (char_of (((i * 16 + j) * 16 + k) * 16 + l) # v, t)) (read_json_text r')
                     | _ \<Rightarrow> None)
                | _ \<Rightarrow> None)
             else
               (case read_escape e of
                  Some d \<Rightarrow> map_option (\<lambda>(v, t). (d # v, t)) (read_json_text r)
                | None \<Rightarrow> None)))"

lemma hex_value_digit: "d < 16 \<Longrightarrow> hex_value (hex_digit d) = Some d"
  by (auto simp: hex_value_def hex_digit_def is_digit_code_def)

lemma hex4_value:
  assumes "n < 256"
  shows "((n div 4096 mod 16 * 16 + n div 256 mod 16) * 16 + n div 16 mod 16) * 16 + n mod 16 = (n :: nat)"
proof -
  have "n div 4096 = 0" and "n div 256 = 0" and "n div 16 < 16" using assms by auto
  then show ?thesis by simp
qed

lemma read_json_char:
  "read_json_text (json_char c @ s) = map_option (\<lambda>(v, t). (c # v, t)) (read_json_text s)"
proof -
  have "(of_char c :: nat) < 256"
    by (metis mod_less_divisor of_char_mod_256 zero_less_numeral)
  then have *: "char_of (((of_char c div 4096 mod 16 * 16 + of_char c div 256 mod 16) * 16
      + of_char c div 16 mod 16) * 16 + of_char c mod (16 :: nat)) = c"
    by (simp only: hex4_value) simp
  show ?thesis
  proof (cases "c \<in> {CHR 0x22, backslash, CHR 0x08, CHR 0x0C, CHR 0x0A, CHR 0x0D, CHR 0x09}")
    case True
    then show ?thesis by (auto simp: json_char_def backslash_def read_escape_def)
  next
    case False
    then show ?thesis
      by (simp add: json_char_def hex4_def hex_value_digit * backslash_def)
  qed
qed

lemma read_json_string:
  "read_json_text (concat (map json_char v) @ CHR 0x22 # rest) = Some (v, rest)"
  by (induction v) (simp_all add: read_json_char)

lemma json_string_reads_back:
  "\<exists>body. json_string out v = out @ CHR 0x22 # body \<and> read_json_text (body @ rest) = Some (v, rest)"
  by (simp add: json_string_def read_json_string)

end
