(* ===== verification/Report_Name_Facts.thy ===== *)
theory Report_Name_Facts
  imports Report_Output Native_Balance_Facts
begin

text \<open>
  Facts about the account names of the reports: the walks of \<open>Report_Names\<close> end with names exactly
  on charts whose accounts all reach a top-level account, and the full name is then the path of
  names from that account down. \<open>name_path\<close> is the specification of that path.
\<close>

section \<open>Accounts by identifier\<close>

definition consistent :: "account list \<Rightarrow> bool" where
  "consistent as \<longleftrightarrow> (\<forall>a \<in> set as. \<forall>b \<in> set as. acc_id a = acc_id b \<longrightarrow> a = b)"

lemma add_by_id_Ok:
  assumes "chart_ok m" and "add_by_id a m = Ok m'"
  shows "chart_ok m' \<and> (\<forall>k b. bt_get m' k = Some b \<longleftrightarrow> bt_get m k = Some b \<or> b = a \<and> acc_id a = k)"
proof (cases "bt_get m (acc_id a)")
  case None
  with assms(2) have m': "m' = bt_insert (acc_id a) a m" by (simp add: add_by_id_def)
  have "acc_id a \<notin> fst ` set m" using None by (simp add: bt_get_None_iff)
  then have "chart_ok m'"
    using assms(1) by (auto simp: m' chart_ok_def bt_ok_insert set_bt_insert)
  with None show ?thesis by (auto simp: m' bt_get_insert)
qed (use assms in \<open>auto simp: add_by_id_def split: if_splits\<close>)

lemma rfold_add_by_id:
  assumes "chart_ok m" and "rfold add_by_id as m = Ok m'"
  shows "chart_ok m'
    \<and> (\<forall>k b. bt_get m' k = Some b \<longleftrightarrow> bt_get m k = Some b \<or> b \<in> set as \<and> acc_id b = k)"
  using assms
proof (induction as arbitrary: m)
  case (Cons a as)
  then obtain n where n: "add_by_id a m = Ok n" and rest: "rfold add_by_id as n = Ok m'"
    by (auto simp: outcome_simps)
  from add_by_id_Ok [OF Cons.prems(1) n] Cons.IH [OF _ rest] show ?case by auto
qed simp

lemma rfold_add_by_id_total:
  assumes "consistent (bt_values m @ as)" and "chart_ok m"
  shows "\<exists>m'. rfold add_by_id as m = Ok m'"
  using assms
proof (induction as arbitrary: m)
  case (Cons a as)
  show ?case
  proof (cases "bt_get m (acc_id a)")
    case None
    then have fresh: "acc_id a \<notin> fst ` set m" by (simp add: bt_get_None_iff)
    let ?n = "bt_insert (acc_id a) a m"
    have "add_by_id a m = Ok ?n" using None by (simp add: add_by_id_def)
    moreover have "set (bt_values ?n @ as) = set (bt_values m @ a # as)"
      using fresh by (auto simp: bt_values_def set_bt_insert)
    then have "consistent (bt_values ?n @ as)" using Cons.prems(1) by (simp add: consistent_def)
    moreover have "chart_ok ?n"
      using add_by_id_Ok [OF Cons.prems(2)] \<open>add_by_id a m = Ok ?n\<close> by blast
    ultimately show ?thesis using Cons.IH [of ?n] by simp
  next
    case (Some b)
    then have "b \<in> set (bt_values m)" and "acc_id b = acc_id a"
      using Cons.prems(2) bt_get_SomeD [OF Some] by (force simp: bt_values_def chart_ok_def)+
    then have "b = a" using Cons.prems(1) by (auto simp: consistent_def)
    then have "add_by_id a m = Ok m" using Some by (simp add: add_by_id_def)
    moreover have "consistent (bt_values m @ as)" using Cons.prems(1) by (auto simp: consistent_def)
    ultimately show ?thesis using Cons.IH [of m] Cons.prems(2) by simp
  qed
qed simp

lemma chart_ok_Nil: "chart_ok []"
  by (simp add: chart_ok_def)

lemma accounts_by_id_Ok:
  assumes "accounts_by_id as = Ok m"
  shows "chart_ok m" and "bt_get m k = Some a \<longleftrightarrow> a \<in> set as \<and> acc_id a = k"
  using rfold_add_by_id [OF chart_ok_Nil assms [unfolded accounts_by_id_def]] by auto

lemma accounts_by_id_total: "consistent as \<Longrightarrow> \<exists>m. accounts_by_id as = Ok m"
  unfolding accounts_by_id_def
  by (rule rfold_add_by_id_total) (simp_all add: bt_values_def chart_ok_Nil)

lemma accounts_by_id_keys:
  assumes "accounts_by_id as = Ok m"
  shows "set (bt_keys m) = acc_id ` set as"
proof -
  have "k \<in> set (bt_keys m) \<longleftrightarrow> (\<exists>a. bt_get m k = Some a)" for k
    using bt_get_None_iff [of m k] by (auto simp: bt_keys_def)
  then show ?thesis by (auto simp: accounts_by_id_Ok(2) [OF assms])
qed

section \<open>Maps built by a loop of insertions\<close>

lemma rfold_insert_Ok:
  assumes "rfold (\<lambda>x names. rbind (f x) (\<lambda>n. Ok (bt_insert (g x) n names))) xs names0 = Ok names"
    and "distinct (map g xs)"
  shows "\<forall>x \<in> set xs. \<exists>n. f x = Ok n \<and> bt_get names (g x) = Some n"
    and "k \<notin> g ` set xs \<Longrightarrow> bt_get names k = bt_get names0 k"
proof -
  have "(\<forall>x \<in> set xs. \<exists>n. f x = Ok n \<and> bt_get names (g x) = Some n)
      \<and> (\<forall>k. k \<notin> g ` set xs \<longrightarrow> bt_get names k = bt_get names0 k)"
    using assms
  proof (induction xs arbitrary: names0)
    case (Cons x xs)
    then obtain n where n: "f x = Ok n"
      and "rfold (\<lambda>x names. rbind (f x) (\<lambda>n. Ok (bt_insert (g x) n names))) xs (bt_insert (g x) n names0) = Ok names"
      by (auto simp: outcome_simps)
    with Cons.IH Cons.prems(2) show ?case by (auto simp: bt_get_insert)
  qed simp
  then show "\<forall>x \<in> set xs. \<exists>n. f x = Ok n \<and> bt_get names (g x) = Some n"
    and "k \<notin> g ` set xs \<Longrightarrow> bt_get names k = bt_get names0 k" by auto
qed

lemma rfold_insert_total:
  "\<forall>x \<in> set xs. \<exists>n. f x = Ok n \<Longrightarrow>
     \<exists>names. rfold (\<lambda>x names. rbind (f x) (\<lambda>n. Ok (bt_insert (g x) n names))) xs names0 = Ok names"
  by (induction xs arbitrary: names0) auto

section \<open>The path of names\<close>

inductive name_path :: "chart \<Rightarrow> account_id \<Rightarrow> string list \<Rightarrow> bool" for m where
  top_name: "bt_get m x = Some a \<Longrightarrow> acc_parent a = None \<Longrightarrow> name_path m x [acc_name a]"
| child_name: "bt_get m x = Some a \<Longrightarrow> acc_parent a = Some p \<Longrightarrow> name_path m p ns \<Longrightarrow>
    name_path m x (acc_name a # ns)"

lemma name_path_rooted: "(\<exists>ns. name_path m x ns) \<longleftrightarrow> rooted m x"
proof
  assume "\<exists>ns. name_path m x ns"
  then obtain ns where "name_path m x ns" ..
  then show "rooted m x" by induction (auto intro: rooted.intros)
next
  assume "rooted m x"
  then show "\<exists>ns. name_path m x ns" by induction (auto intro: name_path.intros)
qed

lemma name_path_hd: "name_path m x ns \<Longrightarrow> \<exists>a. bt_get m x = Some a \<and> ns \<noteq> [] \<and> hd ns = acc_name a"
  by (auto elim: name_path.cases)

lemma name_components_Ok:
  "name_components m start seen components current = Ok cs \<Longrightarrow>
     \<exists>ns. name_path m current ns \<and> cs = components @ ns"
proof (induction m start seen components current rule: name_components.induct)
  case (1 m start seen components current)
  then show ?case
    by (subst (asm) name_components.simps)
      (fastforce split: if_splits option.splits intro: name_path.intros)
qed

lemma name_components_complete:
  assumes "name_path m current ns" and "\<forall>y \<in> seen. (current, y) \<notin> (parent_rel m)\<^sup>*"
  shows "name_components m start seen components current = Ok (components @ ns)"
  using assms
proof (induction arbitrary: seen components rule: name_path.induct)
  case (top_name x a)
  then show ?case by (subst name_components.simps) auto
next
  case (child_name x a p ns)
  have edge: "(x, p) \<in> parent_rel m"
    using child_name.hyps(1,2) by (auto simp: parent_rel_iff)
  have "rooted m x" using child_name.hyps name_path_rooted by (blast intro: rooted.child)
  then have "(p, x) \<notin> (parent_rel m)\<^sup>*"
    using edge rooted_not_on_cycle [of m x] by (meson rtrancl_into_trancl2)
  moreover have "\<forall>y \<in> seen. (p, y) \<notin> (parent_rel m)\<^sup>*"
    using child_name.prems edge by (meson converse_rtrancl_into_rtrancl)
  moreover have "x \<notin> seen" using child_name.prems by auto
  ultimately show ?case
    using child_name.IH [of "insert x seen" "components @ [acc_name a]"] child_name.hyps(1,2)
    by (subst name_components.simps) auto
qed

lemma name_components_iff: "name_components m k {} [] k = Ok cs \<longleftrightarrow> name_path m k cs"
  using name_components_Ok [of m k "{}" "[]" k cs] name_components_complete [of m k cs "{}" k "[]"]
  by auto

lemma name_components_no_panic: "name_components m start seen components current \<noteq> Panic"
proof (induction m start seen components current rule: name_components.induct)
  case (1 m start seen components current)
  then show ?case by (subst name_components.simps) (auto split: option.split)
qed

definition full_name :: "string list \<Rightarrow> string" where
  "full_name ns = join_with '':'' (rev ns)"

lemma full_name_of_iff: "full_name_of m k = Ok n \<longleftrightarrow> (\<exists>ns. name_path m k ns \<and> n = full_name ns)"
  by (auto simp: full_name_of_def outcome_simps name_components_iff full_name_def)

lemma bt_keys_distinct: "chart_ok m \<Longrightarrow> distinct (bt_keys m)"
  by (simp add: chart_ok_def bt_ok_distinct bt_keys_def)

lemma account_full_names_Ok:
  assumes "account_full_names as = Ok names" and "accounts_by_id as = Ok m" and "a \<in> set as"
  shows "\<exists>ns. name_path m (acc_id a) ns \<and> bt_get names (acc_id a) = Some (full_name ns)"
proof -
  have "rfold (\<lambda>k names. rbind (full_name_of m k) (\<lambda>n. Ok (bt_insert k n names))) (bt_keys m) [] = Ok names"
    using assms(1,2) by (simp add: account_full_names_def)
  from rfold_insert_Ok(1) [OF this, simplified, OF bt_keys_distinct [OF accounts_by_id_Ok(1) [OF assms(2)]]]
  show ?thesis using assms(3) by (auto simp: accounts_by_id_keys [OF assms(2)] full_name_of_iff)
qed

lemma account_full_names_total:
  assumes "accounts_by_id as = Ok m" and "\<forall>a \<in> set as. rooted m (acc_id a)"
  shows "\<exists>names. account_full_names as = Ok names"
  unfolding account_full_names_def assms(1) rbind.simps
  by (rule rfold_insert_total)
    (use assms(2) in \<open>auto simp: accounts_by_id_keys [OF assms(1)] full_name_of_iff name_path_rooted [symmetric]\<close>)

lemma rfold_insert_no_panic:
  "(\<And>x. f x \<noteq> Panic) \<Longrightarrow>
     rfold (\<lambda>x names. rbind (f x) (\<lambda>n. Ok (bt_insert (g x) n names))) xs names0 \<noteq> Panic"
proof (induction xs arbitrary: names0)
  case (Cons x xs)
  then show ?case by (cases "f x") auto
qed simp

lemma account_full_names_no_panic:
  assumes "accounts_by_id as = Ok m"
  shows "account_full_names as \<noteq> Panic"
proof -
  have "full_name_of m k \<noteq> Panic" for k
    using name_components_no_panic [of m k "{}" "[]" k]
    by (cases "name_components m k {} [] k") (auto simp: full_name_of_def)
  then show ?thesis
    by (simp add: account_full_names_def assms rfold_insert_no_panic)
qed

section \<open>Display labels\<close>

lemma nearest_number_total:
  assumes "rooted m k" and "chart_ok m" and "bt_get m k = Some a"
    and "\<forall>y \<in> seen. (k, y) \<notin> (parent_rel m)\<^sup>*"
  shows "\<exists>n. nearest_number m start seen a = Ok n"
  using assms
proof (induction arbitrary: seen a rule: rooted.induct)
  case (top x b)
  have "acc_id a = x" using top.prems bt_get_SomeD by (force simp: chart_ok_def)
  with top show ?case by (subst nearest_number.simps) (auto split: option.split)
next
  case (child x b p)
  then have "b = a" by simp
  have x: "acc_id a = x" using child.prems bt_get_SomeD by (force simp: chart_ok_def)
  have edge: "(x, p) \<in> parent_rel m"
    using child.hyps(1,2) by (auto simp: parent_rel_iff)
  have "rooted m x" using child.hyps by (blast intro: rooted.child)
  then have "(p, x) \<notin> (parent_rel m)\<^sup>*"
    using edge rooted_not_on_cycle [of m x] by (meson rtrancl_into_trancl2)
  moreover have "\<forall>y \<in> seen. (p, y) \<notin> (parent_rel m)\<^sup>*"
    using child.prems(3) edge by (meson converse_rtrancl_into_rtrancl)
  moreover have "x \<notin> seen" using child.prems(3) by auto
  moreover obtain c where "bt_get m p = Some c" using child.hyps(3) by (auto elim: rooted_cases)
  ultimately show ?case
    using child.IH [of c "insert x seen"] child.hyps(2) child.prems(1) x \<open>b = a\<close>
    by (subst nearest_number.simps) (auto split: option.split)
qed

lemma account_display_names_Ok:
  assumes "account_display_names as full_names = Ok names" and "accounts_by_id as = Ok m"
    and "a \<in> set as"
  shows "\<exists>n f. nearest_number m (acc_id a) {} a = Ok n \<and> bt_get full_names (acc_id a) = Some f
    \<and> bt_get names (acc_id a) = Some (case n of Some s \<Rightarrow> s @ number_separator @ f | None \<Rightarrow> f)"
proof -
  have "rfold (\<lambda>e names. rbind (display_label m full_names e) (\<lambda>n. Ok (bt_insert (fst e) n names))) m [] = Ok names"
    using assms(1,2) by (simp add: account_display_names_def)
  moreover have "distinct (map fst m)"
    using accounts_by_id_Ok(1) [OF assms(2)] by (simp add: chart_ok_def bt_ok_distinct)
  ultimately have "\<forall>e \<in> set m. \<exists>n. display_label m full_names e = Ok n \<and> bt_get names (fst e) = Some n"
    by (rule rfold_insert_Ok(1))
  moreover have "(acc_id a, a) \<in> set m"
    using assms(3) accounts_by_id_Ok [OF assms(2)] by (simp add: bt_get_iff chart_ok_def)
  ultimately show ?thesis by (fastforce simp: display_label_def outcome_simps)
qed

lemma account_display_names_total:
  assumes m: "accounts_by_id as = Ok m" and "\<forall>a \<in> set as. rooted m (acc_id a)"
    and "\<forall>a \<in> set as. bt_get full_names (acc_id a) \<noteq> None"
  shows "\<exists>names. account_display_names as full_names = Ok names"
  unfolding account_display_names_def m rbind.simps
proof (rule rfold_insert_total, rule ballI)
  fix e assume e: "e \<in> set m"
  obtain k a where ka: "e = (k, a)" by (cases e)
  have get: "bt_get m k = Some a" and a: "a \<in> set as" and k: "acc_id a = k"
    using e accounts_by_id_Ok [OF m] by (auto simp: ka chart_ok_def bt_get_iff [symmetric])
  have "\<exists>n. nearest_number m k {} a = Ok n"
    using assms(2) a k get accounts_by_id_Ok(1) [OF m] by (intro nearest_number_total) auto
  with assms(3) a k show "\<exists>n. display_label m full_names e = Ok n"
    by (auto simp: display_label_def ka ok_or_def)
qed

end
