(* ===== verification/Report_Reading.thy ===== *)
theory Report_Reading
  imports Report_Name_Facts Trial_Balance_Facts
begin

text \<open>
  The Trial Balance encoder and the Trial Balance reader together: what the reader makes of the
  text the encoder wrote, and when the encoder produces a text at all.
\<close>

section \<open>The encoded text\<close>

definition trial_balance_columns :: "string list" where
  "trial_balance_columns =
     [''entity_id'', ''as_of_day'', ''account_id'', ''account_number'', ''account_name'',
      ''account_full_name'', ''account_display_name'', ''parent_account_id'', ''account_type'',
      ''quickbooks_classification'', ''active'', ''activity'', ''debit_cents'', ''debit'',
      ''credit_cents'', ''credit'', ''net_cents'', ''net'', ''source_file'', ''parser_version'',
      ''generated_at'', ''tb_policy_source'', ''tb_policy_as_of'', ''tb_policy_fiscal_year_start'',
      ''tb_policy_retained_earnings_account_id'', ''tb_policy_retained_earnings_report_name'']"

lemma trial_balance_header_row: "trial_balance_header = csv_row [] (map Some trial_balance_columns)"
  by code_simp

definition row_label :: "report_metadata \<Rightarrow> names \<Rightarrow> trial_balance_row \<Rightarrow> string" where
  "row_label md display row =
     trial_balance_account_display_name (the (bt_get display (acc_id (row_account row)))) md (row_account row)"

definition row_cells ::
    "report_metadata \<Rightarrow> accounting_date \<Rightarrow> names \<Rightarrow> names \<Rightarrow> trial_balance_row \<Rightarrow> string option list" where
  "row_cells md as_of full display row =
     trial_balance_cells md as_of (the (bt_get full (acc_id (row_account row)))) (row_label md display row) row"

lemma csv_row_Ok_iff:
  "trial_balance_csv_row md as_of full display row out0 = Ok out \<longleftrightarrow>
     bt_get display (acc_id (row_account row)) \<noteq> None \<and> bt_get full (acc_id (row_account row)) \<noteq> None
     \<and> out = out0 @ csv_row [] (row_cells md as_of full display row)"
  by (auto simp: trial_balance_csv_row_def Let_def outcome_simps account_display_name_def
      account_full_name_def row_cells_def row_label_def csv_row_def)

lemma csv_row_loop:
  "rfold (trial_balance_csv_row md as_of full display) rows out0 = Ok out \<Longrightarrow>
     out = out0 @ concat (map (\<lambda>row. csv_row [] (row_cells md as_of full display row)) rows)"
proof (induction rows arbitrary: out0)
  case (Cons row rows)
  then show ?case by (simp only: rfold.simps rbind_Ok_iff csv_row_Ok_iff) fastforce
qed simp

lemma csv_row_loop_total:
  assumes "\<forall>row \<in> set rows. bt_get display (acc_id (row_account row)) \<noteq> None
      \<and> bt_get full (acc_id (row_account row)) \<noteq> None"
  shows "\<exists>out. rfold (trial_balance_csv_row md as_of full display) rows out0 = Ok out"
  using assms
proof (induction rows arbitrary: out0)
  case (Cons row rows)
  have "trial_balance_csv_row md as_of full display row out0
      = Ok (out0 @ csv_row [] (row_cells md as_of full display row))"
    using Cons.prems by (simp add: csv_row_Ok_iff)
  with Cons show ?case by simp
qed simp

lemma trial_balance_csv_cases:
  assumes "trial_balance_csv_with_account_catalog report md catalog = Ok out"
  obtains full display where
    "validate_trial_balance report = Ok ()"
    and "metadata_validate md = Ok ()"
    and "account_full_names_with_catalog catalog (map row_account (tb_rows report)) = Ok full"
    and "account_display_names_with_catalog catalog (map row_account (tb_rows report)) full = Ok display"
    and "out = csv_rows_text (map Some trial_balance_columns
               # map (row_cells md (tb_as_of report) full display) (rows_by_account report))"
proof -
  from assms obtain full display where
    *: "validate_trial_balance report = Ok ()" "metadata_validate md = Ok ()"
      "account_full_names_with_catalog catalog (map row_account (tb_rows report)) = Ok full"
      "account_display_names_with_catalog catalog (map row_account (tb_rows report)) full = Ok display"
    and loop: "rfold (trial_balance_csv_row md (tb_as_of report) full display)
      (rows_by_account report) trial_balance_header = Ok out"
    by (auto simp: trial_balance_csv_with_account_catalog_def outcome_simps)
  have "out = csv_rows_text (map Some trial_balance_columns
               # map (row_cells md (tb_as_of report) full display) (rows_by_account report))"
    using csv_row_loop [OF loop]
    by (simp add: csv_rows_text_concat trial_balance_header_row comp_def)
  with * show thesis by (rule that)
qed

lemma trial_balance_csv_records:
  "parse_csv_records (csv_rows_text (map Some trial_balance_columns # map (row_cells md as_of full display) rows))
   = Ok (trial_balance_columns # map (\<lambda>row. map cell_text (row_cells md as_of full display row)) rows)"
proof -
  have "[] \<notin> set (map Some trial_balance_columns # map (row_cells md as_of full display) rows)"
    by (auto simp: trial_balance_columns_def row_cells_def trial_balance_cells_def Let_def)
  then show ?thesis
    by (simp add: parse_written_rows comp_def cell_text_def)
qed

definition own_header :: normalized_header where
  "own_header = \<lparr>nh_label = 6, nh_debit = 12, nh_credit = 14, nh_net = 16, nh_data_start = 1\<rparr>"

lemma trial_balance_columns_folded: "map folded_heading trial_balance_columns = trial_balance_columns"
  by (simp add: trial_balance_columns_def folded_heading_def trim_plain plain_char_def
      to_ascii_lowercase_def ascii_lower_def)

lemma own_columns:
  "column [''account_display_name''] trial_balance_columns = Some 6"
  "column [''debit_cents''] trial_balance_columns = Some 12"
  "column [''credit_cents''] trial_balance_columns = Some 14"
  "column [''net_cents''] trial_balance_columns = Some 16"
  by (simp_all add: column_folded trial_balance_columns_folded) (simp_all add: trial_balance_columns_def)

lemma own_header_found: "find_normalized_header (trial_balance_columns # rows) = Some own_header"
proof -
  have "normalized_header_of 0 trial_balance_columns = Some own_header"
    by (simp add: normalized_header_of_def own_columns or_else_def own_header_def)
  then show ?thesis by (simp add: find_normalized_header_def)
qed

section \<open>Reading one row\<close>

lemma own_cells:
  "cell (map cell_text (row_cells md as_of full display row)) 6 = row_label md display row"
  "cell (map cell_text (row_cells md as_of full display row)) 12 = cell_text (map_option cents_text (row_debit row))"
  "cell (map cell_text (row_cells md as_of full display row)) 14 = cell_text (map_option cents_text (row_credit row))"
  "cell (map cell_text (row_cells md as_of full display row)) 16 = cents_text (row_signed row)"
  by (simp_all add: cell_def get_at_def row_cells_def trial_balance_cells_def Let_def cell_text_def)

lemma parse_own_cents:
  "(nonneg \<Longrightarrow> 0 \<le> sint w) \<Longrightarrow> parse_normalized_cents (cents_text w) col nonneg = Ok (Some w)"
  by (cases nonneg)
    (simp_all add: parse_normalized_cents_def cents_text_def trim_int_to_string parse_i64_to_string ok_or_def)

lemma parse_own_optional:
  "(\<And>w. x = Some w \<Longrightarrow> 0 \<le> sint w) \<Longrightarrow>
     parse_normalized_cents (cell_text (map_option cents_text x)) col True = Ok x"
proof (cases x)
  case None
  then show ?thesis by (simp add: cell_text_def parse_normalized_cents_def)
qed (simp add: cell_text_def parse_own_cents)

lemma display_matches_cents:
  assumes "display_matches_signed row"
  shows "sint (or_zero (row_debit row)) - sint (or_zero (row_credit row)) = sint (row_signed row)"
    and "row_debit row = Some w \<Longrightarrow> 0 \<le> sint w" and "row_credit row = Some w \<Longrightarrow> 0 \<le> sint w"
    and "sint (or_zero (row_debit row)) = positive_part (sint (row_signed row))"
    and "sint (or_zero (row_credit row)) = positive_part (- sint (row_signed row))"
  using assms
  by (auto simp: display_matches_signed_def or_zero_def positive_part_def split: if_splits option.splits)

definition read_label :: "report_metadata \<Rightarrow> names \<Rightarrow> trial_balance_row \<Rightarrow> string" where
  "read_label md display row = canonical_native_account_full_name (trim (row_label md display row))"

lemma read_own_row:
  assumes "display_matches_signed row" and "trim (row_label md display row) \<noteq> []"
  shows "normalized_row own_header (map cell_text (row_cells md as_of full display row)) balances
       = Ok (balances @ [(read_label md display row, row_signed row)])"
proof -
  have "checked_sub (or_zero (row_debit row)) (or_zero (row_credit row)) = Some (row_signed row)"
    using display_matches_cents(1) [OF assms(1)] by (simp add: checked_Some_iff)
  with assms display_matches_cents(2,3) [OF assms(1)] show ?thesis
    by (simp add: normalized_row_def own_header_def own_cells parse_own_optional parse_own_cents
        ok_or_def read_label_def)
qed

lemma read_own_rows:
  "\<forall>row \<in> set rows. display_matches_signed row \<and> trim (row_label md display row) \<noteq> [] \<Longrightarrow>
     rfold (normalized_row own_header) (map (\<lambda>row. map cell_text (row_cells md as_of full display row)) rows) balances
   = Ok (balances @ map (\<lambda>row. (read_label md display row, row_signed row)) rows)"
  by (induction rows arbitrary: balances) (simp_all add: read_own_row)

section \<open>Labels are not blank\<close>

lemma colon_not_ws: "\<not> ws_byte (of_char (CHR '':''))" "\<not> ws_byte (of_char (CHR 0xB7))"
  by (simp_all add: ws_byte_def ws1_def)

lemma full_name_not_blank:
  assumes "name_path m x ns" and "\<not> trim_is_empty (hd ns)"
  shows "\<not> trim_is_empty (full_name ns)"
proof -
  from name_path_hd [OF assms(1)] obtain n ns' where ns: "ns = n # ns'" by (cases ns) auto
  show ?thesis
  proof (cases "rev ns'")
    case Nil
    with assms(2) ns show ?thesis by (simp add: full_name_def join_with_def)
  next
    case (Cons a list)
    then have "CHR '':'' \<in> set (full_name ns)" by (simp add: ns full_name_def join_with_def)
    then show ?thesis by (rule not_blank_byte) (rule colon_not_ws)
  qed
qed

lemma metadata_policy_name:
  assumes "metadata_validate md = Ok ()" and "md_policy md = Some p" and "pp_retained_name p = Some n"
  shows "\<not> trim_is_empty n"
  using assms by (auto simp: metadata_validate_def policy_invalid_def outcome_simps split: if_splits)

lemma row_label_not_blank:
  assumes "account_full_names as = Ok full" and "account_display_names as full = Ok display"
    and "row_account row \<in> set as" and "\<not> trim_is_empty (acc_name (row_account row))"
    and "metadata_validate md = Ok ()"
  shows "trim (row_label md display row) \<noteq> []"
proof -
  let ?a = "row_account row"
  obtain m where m: "accounts_by_id as = Ok m"
    using assms(1) by (auto simp: account_full_names_def outcome_simps)
  from account_full_names_Ok [OF assms(1) m assms(3)] obtain ns
    where path: "name_path m (acc_id ?a) ns" and f: "bt_get full (acc_id ?a) = Some (full_name ns)" by blast
  have "bt_get m (acc_id ?a) = Some ?a" using accounts_by_id_Ok(2) [OF m] assms(3) by simp
  with name_path_hd [OF path] have "hd ns = acc_name ?a" by auto
  then have full: "\<not> trim_is_empty (full_name ns)"
    using full_name_not_blank [OF path] assms(4) by simp
  from account_display_names_Ok [OF assms(2) m assms(3)] f obtain n
    where d: "bt_get display (acc_id ?a) =
      Some (case n of Some s \<Rightarrow> s @ number_separator @ full_name ns | None \<Rightarrow> full_name ns)" by auto
  have "\<not> trim_is_empty (s @ number_separator @ full_name ns)" for s
    by (rule not_blank_byte [of "CHR 0xB7"]) (simp add: number_separator_def, rule colon_not_ws)
  with full have "\<not> trim_is_empty (the (bt_get display (acc_id ?a)))"
    by (simp add: d split: option.split)
  then show ?thesis
    using metadata_policy_name [OF assms(5)]
    by (auto simp: trim_Nil_iff row_label_def trial_balance_account_display_name_def split: option.split)
qed

section \<open>Reading the report back\<close>

lemma validate_rows_Ok:
  "rfold validate_row rows ids = Ok ids' \<longleftrightarrow>
     (\<forall>row \<in> set rows. display_matches_signed row)
   \<and> distinct (map (\<lambda>row. acc_id (row_account row)) rows)
   \<and> ids \<inter> (\<lambda>row. acc_id (row_account row)) ` set rows = {}
   \<and> ids' = ids \<union> (\<lambda>row. acc_id (row_account row)) ` set rows"
  by (induction rows arbitrary: ids) (auto simp: validate_row_def outcome_simps split: if_splits)

lemma validate_trial_balance_Ok_iff:
  "validate_trial_balance report = Ok () \<longleftrightarrow>
     (\<forall>row \<in> set (tb_rows report). display_matches_signed row)
   \<and> distinct (map (\<lambda>row. acc_id (row_account row)) (tb_rows report))
   \<and> total_debit_minor_units report = total_credit_minor_units report"
  by (auto simp: validate_trial_balance_def outcome_simps Let_def validate_rows_Ok split: if_splits)

lemma set_rows_by_account [simp]: "set (rows_by_account report) = set (tb_rows report)"
  by (simp add: rows_by_account_def)

lemma rows_by_account_Nil [simp]: "rows_by_account report = [] \<longleftrightarrow> tb_rows report = []"
  by (metis rows_by_account_def set_empty set_sort)

lemma read_back_rows:
  assumes "trial_balance_csv_with_account_catalog report md catalog = Ok out" and "utf8_valid out"
    and "\<forall>row \<in> set (tb_rows report). \<not> trim_is_empty (acc_name (row_account row))"
  obtains full display where
    "account_full_names_with_catalog catalog (map row_account (tb_rows report)) = Ok full"
    and "account_display_names_with_catalog catalog (map row_account (tb_rows report)) full = Ok display"
    and "parse_trial_balance_csv out =
      finish_balances (map (\<lambda>row. (read_label md display row, row_signed row)) (rows_by_account report))"
proof -
  from assms(1) obtain full display where
    v: "validate_trial_balance report = Ok ()" and md: "metadata_validate md = Ok ()"
    and full: "account_full_names_with_catalog catalog (map row_account (tb_rows report)) = Ok full"
    and display: "account_display_names_with_catalog catalog (map row_account (tb_rows report)) full = Ok display"
    and out: "out = csv_rows_text (map Some trial_balance_columns
               # map (row_cells md (tb_as_of report) full display) (rows_by_account report))"
    by (rule trial_balance_csv_cases)
  have "\<forall>row \<in> set (rows_by_account report). display_matches_signed row \<and> trim (row_label md display row) \<noteq> []"
    using v assms(3) row_label_not_blank [OF full [unfolded account_full_names_with_catalog_def]
        display [unfolded account_display_names_with_catalog_def] _ _ md]
    by (simp add: validate_trial_balance_Ok_iff)
  from read_own_rows [OF this] have "parse_trial_balance_csv out =
      finish_balances (map (\<lambda>row. (read_label md display row, row_signed row)) (rows_by_account report))"
    using assms(2)
    by (simp add: parse_trial_balance_csv_def decode_windows_1252_def)
      (simp add: out trial_balance_csv_records own_header_found
        parse_normalized_trial_balance_csv_rows_def own_header_def)
  with full display show thesis by (rule that)
qed

text \<open>The totals of what is read are the totals of the report.\<close>

lemma from_balances_sums:
  assumes "rfold add_balance xs r0 = Ok r"
  shows "sint (nat_debits r) = sint (nat_debits r0) + (\<Sum>(_, b)\<leftarrow>xs. positive_part (sint b))"
    and "sint (nat_credits r) = sint (nat_credits r0) + (\<Sum>(_, b)\<leftarrow>xs. positive_part (- sint b))"
proof -
  have "sint (nat_debits r) = sint (nat_debits r0) + (\<Sum>(_, b)\<leftarrow>xs. positive_part (sint b))
      \<and> sint (nat_credits r) = sint (nat_credits r0) + (\<Sum>(_, b)\<leftarrow>xs. positive_part (- sint b))"
    using assms
  proof (induction xs arbitrary: r0)
    case (Cons x xs)
    obtain a b where x: "x = (a, b)" by (cases x)
    with Cons.prems obtain r1 where "add_balance (a, b) r0 = Ok r1" and rest: "rfold add_balance xs r1 = Ok r"
      by (auto simp: outcome_simps)
    with Cons.IH [OF rest] show ?case by (simp add: add_balance_Ok_iff x)
  qed simp
  then show "sint (nat_debits r) = sint (nat_debits r0) + (\<Sum>(_, b)\<leftarrow>xs. positive_part (sint b))"
    and "sint (nat_credits r) = sint (nat_credits r0) + (\<Sum>(_, b)\<leftarrow>xs. positive_part (- sint b))"
    by auto
qed

lemma totals_of_display:
  assumes "\<forall>row \<in> set (tb_rows report). display_matches_signed row"
  shows "total_debit_minor_units report = (\<Sum>row\<leftarrow>rows_by_account report. positive_part (sint (row_signed row)))"
    and "total_credit_minor_units report = (\<Sum>row\<leftarrow>rows_by_account report. positive_part (- sint (row_signed row)))"
proof -
  have perm: "(\<Sum>row\<leftarrow>rows_by_account report. f row) = (\<Sum>row\<leftarrow>tb_rows report. f row :: int)" for f
  proof -
    have "mset (map f (rows_by_account report)) = mset (map f (tb_rows report))"
      by (simp add: rows_by_account_def)
    then show ?thesis by (metis sum_mset_sum_list)
  qed
  have d: "(\<Sum>d\<leftarrow>List.map_filter row_debit rows. sint d) = (\<Sum>row\<leftarrow>rows. sint (or_zero (row_debit row)))"
    and c: "(\<Sum>d\<leftarrow>List.map_filter row_credit rows. sint d) = (\<Sum>row\<leftarrow>rows. sint (or_zero (row_credit row)))"
    for rows
    by (induction rows) (auto simp: List.map_filter_def or_zero_def)
  have "(\<Sum>row\<leftarrow>tb_rows report. sint (or_zero (row_debit row))) = (\<Sum>row\<leftarrow>tb_rows report. positive_part (sint (row_signed row)))"
    and "(\<Sum>row\<leftarrow>tb_rows report. sint (or_zero (row_credit row))) = (\<Sum>row\<leftarrow>tb_rows report. positive_part (- sint (row_signed row)))"
    using assms display_matches_cents(4,5) by (auto intro!: arg_cong [where f = sum_list] map_cong)
  then show "total_debit_minor_units report = (\<Sum>row\<leftarrow>rows_by_account report. positive_part (sint (row_signed row)))"
    and "total_credit_minor_units report = (\<Sum>row\<leftarrow>rows_by_account report. positive_part (- sint (row_signed row)))"
    by (simp_all add: total_debit_minor_units_def total_credit_minor_units_def perm d c)
qed

lemma read_totals:
  assumes "finish_balances (map (\<lambda>row. (label row, row_signed row)) rows) = Ok r"
  shows "sint (nat_debits r) = (\<Sum>row\<leftarrow>rows. positive_part (sint (row_signed row)))"
    and "sint (nat_credits r) = (\<Sum>row\<leftarrow>rows. positive_part (- sint (row_signed row)))"
proof -
  have "rfold add_balance (map (\<lambda>row. (label row, row_signed row)) rows) no_balances = Ok r"
    using assms by (simp add: finish_balances_def from_balances_def split: if_splits)
  from from_balances_sums [OF this]
  show "sint (nat_debits r) = (\<Sum>row\<leftarrow>rows. positive_part (sint (row_signed row)))"
    and "sint (nat_credits r) = (\<Sum>row\<leftarrow>rows. positive_part (- sint (row_signed row)))"
    by (simp_all add: no_balances_def comp_def)
qed

end
