(* ===== verification/Report_Rendering.thy ===== *)
theory Report_Rendering
  imports Report_Reading Report_Json Statement_Facts
begin

text \<open>
  The reports of a ledger pass the encoders' validation, and their accounts have names: with the accounts
  of the ledger as the catalog, encoding a report that the ledger produced as CSV or JSON never fails.
\<close>

section \<open>Trial Balances of a ledger\<close>

lemma exact_row_matches:
  assumes "fits_column v"
  shows "display_matches_signed (exact_row a v)"
proof -
  have "- (2 ^ 63) < v" and "v < 2 ^ 63" using assms by (simp_all add: fits_column_def abs_less_iff)
  then have "sint (word_of_int v :: i64) = v" and "sint (word_of_int (- v) :: i64) = - v"
    by (auto intro!: sint_word_of_int_range simp del: of_int_minus)
  then show ?thesis by (simp add: display_matches_signed_def exact_row_def del: of_int_minus)
qed

lemma balance_report_valid:
  assumes "chart_ok (led_accounts l)"
    and "\<forall>a \<in> set (bt_values (led_accounts l)). fits_column (f a)"
    and "(\<Sum>a\<leftarrow>bt_values (led_accounts l). f a) = 0"
  shows "validate_trial_balance (balance_report l d options f) = Ok ()"
proof -
  have "map (\<lambda>row. acc_id (row_account row)) (tb_rows (balance_report l d options f))
      = map acc_id (filter (\<lambda>a. shown options (f a)) (bt_values (led_accounts l)))"
    by (simp add: balance_report_def exact_row_def comp_def)
  moreover have "distinct \<dots>"
    using chart_ids_distinct [OF assms(1)] by (rule distinct_map_filter)
  moreover have "\<forall>row \<in> set (tb_rows (balance_report l d options f)). display_matches_signed row"
    using assms(2) by (auto simp: balance_report_def exact_row_matches)
  ultimately show ?thesis
    using balance_report_totals [OF assms(2,3)] by (simp add: validate_trial_balance_Ok_iff)
qed

lemma balance_report_accounts:
  "set (map row_account (tb_rows (balance_report l d options f))) \<subseteq> set (bt_values (led_accounts l))"
  by (auto simp: balance_report_def exact_row_def)

lemma ledger_trial_balance_valid:
  assumes l: "ledger_ok l"
    and "trial_balance_as_of l d options = Ok tb \<or> quickbooks_accrual_trial_balance_as_of l d options policy = Ok tb"
  shows "validate_trial_balance tb = Ok ()"
    and "set (map row_account (tb_rows tb)) \<subseteq> set (bt_values (led_accounts l))"
proof -
  have "\<exists>f. tb = balance_report l d options f
      \<and> (\<forall>a \<in> set (bt_values (led_accounts l)). fits_column (f a))
      \<and> (\<Sum>a\<leftarrow>bt_values (led_accounts l). f a) = 0"
    using assms(2) account_balance_sum [OF l] accrual_presentation_sum [OF l]
    by (auto simp: trial_balance_Ok_iff [OF l] accrual_trial_balance_Ok_iff [OF l])
  then obtain f where tb: "tb = balance_report l d options f"
    and fits: "\<forall>a \<in> set (bt_values (led_accounts l)). fits_column (f a)"
    and zero: "(\<Sum>a\<leftarrow>bt_values (led_accounts l). f a) = 0"
    by (elim exE conjE)
  show "validate_trial_balance tb = Ok ()"
    unfolding tb using ledger_ok_chart [OF l] fits zero by (rule balance_report_valid)
  show "set (map row_account (tb_rows tb)) \<subseteq> set (bt_values (led_accounts l))"
    unfolding tb by (rule balance_report_accounts)
qed

section \<open>Names of a ledger's accounts\<close>

lemma rooted_cong:
  assumes "\<And>k. bt_get m k = bt_get n k" and "rooted m x"
  shows "rooted n x"
  using assms(2,1) by (induction rule: rooted.induct) (auto intro: rooted.intros)

lemma names_of_chart:
  assumes "distinct (map acc_id as)" and "hierarchy_ok (chart_of as)" and "set bs \<subseteq> set as"
  shows "\<exists>full display. account_full_names_with_catalog as bs = Ok full
    \<and> account_display_names_with_catalog as bs full = Ok display
    \<and> (\<forall>b \<in> set bs. bt_get display (acc_id b) \<noteq> None \<and> bt_get full (acc_id b) \<noteq> None)"
proof -
  have same: "set (as @ bs) = set as" using assms(3) by auto
  have "consistent (as @ bs)"
    unfolding consistent_def same using assms(1) by (auto simp: distinct_map inj_on_def)
  then obtain m where m: "accounts_by_id (as @ bs) = Ok m" using accounts_by_id_total by blast
  have "bt_get (chart_of as) k = bt_get m k" for k
  proof (rule option.expand)
    show "(bt_get (chart_of as) k = None) = (bt_get m k = None)"
      using accounts_by_id_Ok(2) [OF m, of k] bt_get_chart_of [OF assms(1), of k]
      unfolding same by (metis option.exhaust)
  next
    assume "bt_get (chart_of as) k \<noteq> None" and "bt_get m k \<noteq> None"
    then show "the (bt_get (chart_of as) k) = the (bt_get m k)"
      using accounts_by_id_Ok(2) [OF m, of k] bt_get_chart_of [OF assms(1), of k]
      unfolding same by (metis option.exhaust option.sel)
  qed
  moreover have "rooted (chart_of as) (acc_id a)" if "a \<in> set as" for a
    using assms(2) that by (auto simp: hierarchy_ok_def keys_chart_of)
  ultimately have rooted: "\<forall>a \<in> set (as @ bs). rooted m (acc_id a)"
    unfolding same by (blast intro: rooted_cong)
  obtain full where full: "account_full_names (as @ bs) = Ok full"
    using account_full_names_total [OF m rooted] by blast
  then have has: "\<forall>a \<in> set (as @ bs). bt_get full (acc_id a) \<noteq> None"
    using account_full_names_Ok [OF full m] by fastforce
  then obtain display where display: "account_display_names (as @ bs) full = Ok display"
    using account_display_names_total [OF m rooted] by blast
  then have "\<forall>a \<in> set (as @ bs). bt_get display (acc_id a) \<noteq> None"
    using account_display_names_Ok [OF display m] by fastforce
  with full display has show ?thesis
    by (auto simp: account_full_names_with_catalog_def account_display_names_with_catalog_def)
qed

section \<open>General Ledgers of a ledger\<close>

lemma validate_entries_Ok_iff:
  "rfold (validate_entry d) es (ids, rows, totals) = Ok st \<longleftrightarrow>
     distinct (map (\<lambda>e. post_id (ent_posting e)) es) \<and> ids \<inter> (\<lambda>e. post_id (ent_posting e)) ` set es = {}
   \<and> distinct (map (\<lambda>e. source_row_of (ent_posting e)) es)
   \<and> rows \<inter> (\<lambda>e. source_row_of (ent_posting e)) ` set es = {}
   \<and> (\<forall>e \<in> set es. post_account (ent_posting e) = acc_id (ent_account e)
        \<and> post_state (ent_posting e) = Current \<and> post_signed (ent_posting e) \<noteq> 0
        \<and> post_signed (ent_posting e) \<noteq> i64_min \<and> post_date (ent_posting e) \<le> d)
   \<and> st = (ids \<union> (\<lambda>e. post_id (ent_posting e)) ` set es,
           rows \<union> (\<lambda>e. source_row_of (ent_posting e)) ` set es,
           fold (\<lambda>e. bt_add (post_transaction (ent_posting e)) (entry_amount e)) es totals)"
proof (induction es arbitrary: ids rows totals)
  case (Cons e es)
  have "validate_entry d e (ids, rows, totals) = Ok st' \<longleftrightarrow>
      post_id (ent_posting e) \<notin> ids \<and> source_row_of (ent_posting e) \<notin> rows
      \<and> post_account (ent_posting e) = acc_id (ent_account e)
      \<and> post_state (ent_posting e) = Current \<and> post_signed (ent_posting e) \<noteq> 0
      \<and> post_signed (ent_posting e) \<noteq> i64_min \<and> post_date (ent_posting e) \<le> d
      \<and> st' = (insert (post_id (ent_posting e)) ids, insert (source_row_of (ent_posting e)) rows,
               bt_add (post_transaction (ent_posting e)) (entry_amount e) totals)" for st'
    by (auto simp: validate_entry_def Let_def source_row_of_def entry_amount_def)
  then show ?case
    by (auto simp: outcome_simps Cons.IH)
qed auto

lemma validate_general_ledger_Ok:
  assumes "distinct (map (\<lambda>e. post_id (ent_posting e)) (gl_entries gl))"
    and "distinct (map (\<lambda>e. source_row_of (ent_posting e)) (gl_entries gl))"
    and "\<forall>e \<in> set (gl_entries gl). post_account (ent_posting e) = acc_id (ent_account e)
        \<and> post_state (ent_posting e) = Current \<and> post_signed (ent_posting e) \<noteq> 0
        \<and> post_signed (ent_posting e) \<noteq> i64_min \<and> post_date (ent_posting e) \<le> gl_as_of gl"
    and "assert_balanced_by_transaction (gl_entries gl) = Ok ()"
  shows "validate_general_ledger gl = Ok ()"
proof -
  obtain ids rows where run: "rfold (validate_entry (gl_as_of gl)) (gl_entries gl) ({}, {}, [])
      = Ok (ids, rows, transaction_totals (gl_entries gl))"
    using assms(1-3) by (auto simp: validate_entries_Ok_iff transaction_totals_def bt_tally_def)
  moreover have "find (\<lambda>(txn, net). net \<noteq> 0) (transaction_totals (gl_entries gl)) = None"
    using assms(4) by (auto simp: assert_balanced_by_transaction_def split: option.splits)
  ultimately show ?thesis by (simp add: validate_general_ledger_def)
qed

lemma ledger_general_ledger_valid:
  assumes l: "ledger_ok l" and gl: "general_ledger_as_of l d = Ok gl"
  shows "validate_general_ledger gl = Ok ()"
    and "set (map ent_account (gl_entries gl)) \<subseteq> set (bt_values (led_accounts l))"
proof -
  from gl have entries: "gl = \<lparr>gl_as_of = d, gl_entries = sort_key entry_key (report_entries l d)\<rparr>"
    by (simp add: general_ledger_Ok_iff [OF l])
  have balanced: "assert_balanced_by_transaction (gl_entries gl) = Ok ()"
    using gl by (auto simp: general_ledger_as_of_def outcome_simps)
  have posts: "map ent_posting (report_entries l d) = filter (current_upto d) (led_postings l)"
    by (simp add: report_entries_def entry_of_def comp_def)
  have distinct: "distinct (map (\<lambda>e. f (ent_posting e)) (gl_entries gl))"
    if "distinct (map f (led_postings l))" for f :: "posting \<Rightarrow> 'a"
  proof -
    have "distinct (map f (filter (current_upto d) (led_postings l)))"
      using that by (rule distinct_map_filter)
    then have "distinct (map (\<lambda>e. f (ent_posting e)) (report_entries l d))"
      unfolding posts [symmetric] by (simp add: comp_def)
    moreover have "mset (map (\<lambda>e. f (ent_posting e)) (gl_entries gl))
        = mset (map (\<lambda>e. f (ent_posting e)) (report_entries l d))"
      by (simp add: entries)
    ultimately show ?thesis by (metis mset_eq_imp_distinct_iff)
  qed
  have entry: "post_account (ent_posting e) = acc_id (ent_account e) \<and> ent_account e \<in> set (bt_values (led_accounts l))
      \<and> current_upto d (ent_posting e) \<and> ent_posting e \<in> set (led_postings l)" if "e \<in> set (gl_entries gl)" for e
  proof -
    from that obtain p where e: "e = entry_of (led_accounts l) p" and p: "p \<in> set (led_postings l)" "current_upto d p"
      by (auto simp: entries report_entries_def)
    obtain a where a: "bt_get (led_accounts l) (post_account p) = Some a"
      using ledger_ok_accounts_known [OF l] p(1) bt_get_None_iff [of "led_accounts l" "post_account p"] by auto
    then have "acc_id a = post_account p"
      using ledger_ok_chart [OF l] bt_get_SomeD [OF a] by (auto simp: chart_ok_def)
    moreover have "a \<in> set (bt_values (led_accounts l))"
      using bt_get_SomeD [OF a] by (force simp: bt_values_def)
    ultimately show ?thesis using a p by (simp add: e entry_of_def)
  qed
  have "postings_ok (led_accounts l) (led_postings l)" using l by (simp add: ledger_ok_def)
  then have "\<forall>e \<in> set (gl_entries gl). post_account (ent_posting e) = acc_id (ent_account e)
      \<and> post_state (ent_posting e) = Current \<and> post_signed (ent_posting e) \<noteq> 0
      \<and> post_signed (ent_posting e) \<noteq> i64_min \<and> post_date (ent_posting e) \<le> gl_as_of gl"
    using entry by (auto simp: postings_ok_def current_upto_def entries)
  then show "validate_general_ledger gl = Ok ()"
    using l balanced
    by (intro validate_general_ledger_Ok distinct) (auto simp: ledger_ok_def postings_ok_def)
  show "set (map ent_account (gl_entries gl)) \<subseteq> set (bt_values (led_accounts l))"
    using entry by auto
qed

section \<open>Encoding is total on a ledger's reports\<close>

lemma general_ledger_row_Ok_iff:
  "general_ledger_csv_row md as_of full display e out0 = Ok out \<longleftrightarrow>
     bt_get display (acc_id (ent_account e)) \<noteq> None \<and> bt_get full (acc_id (ent_account e)) \<noteq> None
     \<and> out = out0 @ csv_row [] (general_ledger_cells md as_of (the (bt_get full (acc_id (ent_account e))))
                                  (the (bt_get display (acc_id (ent_account e)))) e)"
  by (auto simp: general_ledger_csv_row_def outcome_simps account_display_name_def
      account_full_name_def csv_row_def)

lemma general_ledger_rows_total:
  assumes "\<forall>e \<in> set es. bt_get display (acc_id (ent_account e)) \<noteq> None
      \<and> bt_get full (acc_id (ent_account e)) \<noteq> None"
  shows "\<exists>out. rfold (general_ledger_csv_row md as_of full display) es out0 = Ok out"
  using assms
proof (induction es arbitrary: out0)
  case (Cons e es)
  obtain out1 where "general_ledger_csv_row md as_of full display e out0 = Ok out1"
    using Cons.prems by (auto simp: general_ledger_row_Ok_iff)
  with Cons show ?case by simp
qed simp

lemma json_account_total:
  assumes "bt_get full (acc_id a) \<noteq> None" and "bt_get display (acc_id a) \<noteq> None"
  shows "\<exists>out. json_account out0 a full display = Ok out"
  using assms by (auto simp: json_account_def Let_def rbind_Ok_iff account_full_name_def account_display_name_def ok_or_iff)

lemma json_rows_total:
  assumes "\<forall>row \<in> set rows. bt_get display (acc_id (row_account row)) \<noteq> None
      \<and> bt_get full (acc_id (row_account row)) \<noteq> None"
  shows "\<exists>out. rfold (json_trial_balance_row full display) (enumerate n rows) out0 = Ok out"
  using assms
proof (induction rows arbitrary: n out0)
  case (Cons row rows)
  obtain out1 where "json_trial_balance_row full display (n, row) out0 = Ok out1"
    using json_account_total [of full "row_account row" display "comma_unless_first n out0 @ ''{\"account\":''"] Cons.prems
    by (auto simp: json_trial_balance_row_def)
  with Cons show ?case by simp
qed simp

lemma json_entries_total:
  assumes "\<forall>e \<in> set es. bt_get display (acc_id (ent_account e)) \<noteq> None
      \<and> bt_get full (acc_id (ent_account e)) \<noteq> None"
  shows "\<exists>out. rfold (json_general_ledger_entry full display) (enumerate n es) out0 = Ok out"
  using assms
proof (induction es arbitrary: n out0)
  case (Cons e es)
  obtain out1 where "json_general_ledger_entry full display (n, e) out0 = Ok out1"
    using json_account_total [of full "ent_account e" display "comma_unless_first n out0 @ ''{\"account\":''"] Cons.prems
    by (auto simp: json_general_ledger_entry_def Let_def)
  with Cons show ?case by simp
qed simp

lemma chart_values: "distinct (map acc_id as) \<Longrightarrow> set (bt_values (chart_of as)) \<subseteq> set as"
  using chart_of_ok [of as] bt_get_chart_of [of as]
  by (auto simp: bt_values_def chart_ok_def bt_get_iff)

lemma trial_balance_rendered:
  assumes "ledger_new as ps c = Ok l"
    and "trial_balance_as_of l d options = Ok tb \<or> quickbooks_accrual_trial_balance_as_of l d options policy = Ok tb"
    and "metadata_validate md = Ok ()"
  shows "\<exists>out. trial_balance_csv_with_account_catalog tb md as = Ok out"
    and "\<exists>out. trial_balance_json_with_account_catalog tb md as = Ok out"
proof -
  have l: "ledger_ok l" and new: "distinct (map acc_id as)" "hierarchy_ok (chart_of as)" "led_accounts l = chart_of as"
    using ledger_new_ledger_ok [OF assms(1)] assms(1) by (auto simp: ledger_new_Ok)
  note valid = ledger_trial_balance_valid [OF l assms(2)]
  have "set (map row_account (tb_rows tb)) \<subseteq> set as"
    using valid(2) chart_values [OF new(1)] by (simp add: new(3))
  from names_of_chart [OF new(1,2) this] obtain full display
    where names: "account_full_names_with_catalog as (map row_account (tb_rows tb)) = Ok full"
        "account_display_names_with_catalog as (map row_account (tb_rows tb)) full = Ok display"
      and named: "\<forall>row \<in> set (tb_rows tb). bt_get display (acc_id (row_account row)) \<noteq> None
        \<and> bt_get full (acc_id (row_account row)) \<noteq> None" by auto
  from names named valid(1) assms(3)
    csv_row_loop_total [of "rows_by_account tb" display full md "tb_as_of tb" trial_balance_header]
  show "\<exists>out. trial_balance_csv_with_account_catalog tb md as = Ok out"
    by (simp add: trial_balance_csv_with_account_catalog_def)
  have "\<forall>row \<in> set (rows_by_account tb). bt_get display (acc_id (row_account row)) \<noteq> None
      \<and> bt_get full (acc_id (row_account row)) \<noteq> None" using named by simp
  from json_rows_total [OF this] names valid(1) assms(3)
  show "\<exists>out. trial_balance_json_with_account_catalog tb md as = Ok out"
    by (auto simp: trial_balance_json_with_account_catalog_def rbind_Ok_iff)
qed

lemma general_ledger_rendered:
  assumes "ledger_new as ps c = Ok l" and "general_ledger_as_of l d = Ok gl"
    and "metadata_validate md = Ok ()"
  shows "\<exists>out. general_ledger_csv_with_account_catalog gl md as = Ok out"
    and "\<exists>out. general_ledger_json_with_account_catalog gl md as = Ok out"
proof -
  have l: "ledger_ok l" and new: "distinct (map acc_id as)" "hierarchy_ok (chart_of as)" "led_accounts l = chart_of as"
    using ledger_new_ledger_ok [OF assms(1)] assms(1) by (auto simp: ledger_new_Ok)
  note valid = ledger_general_ledger_valid [OF l assms(2)]
  have "set (map ent_account (gl_entries gl)) \<subseteq> set as"
    using valid(2) chart_values [OF new(1)] by (simp add: new(3))
  from names_of_chart [OF new(1,2) this] obtain full display
    where names: "account_full_names_with_catalog as (map ent_account (gl_entries gl)) = Ok full"
        "account_display_names_with_catalog as (map ent_account (gl_entries gl)) full = Ok display"
      and named: "\<forall>e \<in> set (gl_entries gl). bt_get display (acc_id (ent_account e)) \<noteq> None
        \<and> bt_get full (acc_id (ent_account e)) \<noteq> None" by auto
  from names named valid(1) assms(3)
    general_ledger_rows_total [of "sorted_entries gl" display full md "gl_as_of gl" general_ledger_header]
  show "\<exists>out. general_ledger_csv_with_account_catalog gl md as = Ok out"
    by (simp add: general_ledger_csv_with_account_catalog_def sorted_entries_def)
  have "\<forall>e \<in> set (sorted_entries gl). bt_get display (acc_id (ent_account e)) \<noteq> None
      \<and> bt_get full (acc_id (ent_account e)) \<noteq> None" using named by (simp add: sorted_entries_def)
  from json_entries_total [OF this] names valid(1) assms(3)
  show "\<exists>out. general_ledger_json_with_account_catalog gl md as = Ok out"
    by (auto simp: general_ledger_json_with_account_catalog_def rbind_Ok_iff)
qed

end
