(* ===== verification/Native_General_Ledger.thy ===== *)
theory Native_General_Ledger
  imports Native_Trial_Balance Ledger_Reports "HOL-Library.Option_ord"
begin

text \<open>
  The General Ledger readers and the posting-multiset reconciliation of
  \<open>crates/openqbw-cli/src/general_ledger_reconciliation.rs\<close>. The resolution of account sections
  against a decoded chart is in \<open>Account_Sections\<close>. Dates come from \<open>MaterializedPostingDate\<close>
  (\<open>Posting_Date\<close>), with its two parameters of the \<open>SaDate\<close> crate.
\<close>

section \<open>Postings\<close>

record gl_identity =
  gid_date :: accounting_date
  gid_account :: string
  gid_cents :: i64

record native_posting =
  np_identity :: gl_identity
  np_type :: "string option"
  np_number :: "string option"

record generated_posting =
  gp_identity :: gl_identity
  gp_type :: "string option"

datatype general_ledger_error =
    InvalidCsv
  | MissingGlHeader
  | InvalidDateRange
  | InvalidDate
  | AmbiguousTwoDigitYear
  | DateOutsideReportRange
  | PostingWithoutAccount
  | BothDebitAndCredit
  | InvalidMoney
  | GlAmountOverflow
  | NoPostingRows
  | MissingGeneratedHeader
  | MalformedGeneratedRow
  | InvalidGeneratedCents
  | GeneratedZeroMovement
  | UnresolvedNativeAccountSection
  | AmbiguousNativeAccountSection
  | NoAccountsPayableControlMatch

definition nonempty :: "string \<Rightarrow> string option" where
  "nonempty s = (if trim s = [] then None else Some (trim s))"

definition is_total_label :: "string \<Rightarrow> bool" where
  "is_total_label s \<longleftrightarrow>
     eq_ignore_ascii_case (trim s) ''total'' \<or> starts_with ''total '' (to_ascii_lowercase (trim s))"

definition has_native_account_number_prefix :: "string \<Rightarrow> bool" where
  "has_native_account_number_prefix s =
     (case split_once middle_dot (trim s) of
        None \<Rightarrow> False
      | Some (number, name) \<Rightarrow> is_number_wrapper number name)"

section \<open>The generated report\<close>

record generated_header =
  gh_posting_day :: nat
  gh_account :: nat
  gh_net :: nat
  gh_type :: nat
  gh_data_start :: nat

definition generated_header_of :: "nat \<Rightarrow> string list \<Rightarrow> generated_header option" where
  "generated_header_of index row =
     (case (column [''posting_day''] row,
            or_else (column [''account_display_name''] row)
              (or_else (column [''account_full_name''] row) (column [''account_name''] row)),
            column [''net_cents''] row, column [''transaction_type''] row) of
        (Some day, Some account, Some net, Some kind) \<Rightarrow>
          Some \<lparr>gh_posting_day = day, gh_account = account, gh_net = net, gh_type = kind,
                gh_data_start = index + 1\<rparr>
      | _ \<Rightarrow> None)"

definition find_generated_header ::
    "string list list \<Rightarrow> (general_ledger_error, generated_header) outcome" where
  "find_generated_header rows = ok_or (find_map_from generated_header_of 0 rows) MissingGeneratedHeader"

definition generated_row ::
    "generated_header \<Rightarrow> accounting_date \<Rightarrow> accounting_date \<Rightarrow> string list \<Rightarrow> generated_posting list \<Rightarrow>
     (general_ledger_error, generated_posting list) outcome" where
  "generated_row h from_day through row postings =
     (let account = trim (cell row (gh_account h));
          posting_day = trim (cell row (gh_posting_day h));
          net_cents = trim (cell row (gh_net h)) in
      if account = [] \<and> posting_day = [] \<and> net_cents = [] then Ok postings
      else if account = [] \<or> posting_day = [] \<or> net_cents = [] then Err MalformedGeneratedRow
      else
        rbind (ok_or (parse_i32 posting_day) InvalidDate) (\<lambda>date.
        if \<not> (from_day \<le> sint date \<and> sint date \<le> through) then Err DateOutsideReportRange
        else
          rbind (ok_or (parse_i64 net_cents) InvalidGeneratedCents) (\<lambda>signed_cents.
          if signed_cents = 0 then Err GeneratedZeroMovement
          else Ok (postings @
            [\<lparr>gp_identity = \<lparr>gid_date = sint date,
                              gid_account = canonical_native_account_full_name account,
                              gid_cents = signed_cents\<rparr>,
              gp_type = nonempty (cell row (gh_type h))\<rparr>]))))"

definition parse_generated_general_ledger_csv ::
    "string \<Rightarrow> accounting_date \<Rightarrow> accounting_date \<Rightarrow> (general_ledger_error, generated_posting list) outcome" where
  "parse_generated_general_ledger_csv bytes from_day through =
     rbind (map_err (\<lambda>_. InvalidCsv) (parse_csv_records (decode_windows_1252 bytes))) (\<lambda>rows.
     rbind (find_generated_header rows) (\<lambda>h.
     rbind (rfold (generated_row h from_day through) (drop (gh_data_start h) rows) []) (\<lambda>postings.
       if postings = [] then Err NoPostingRows else Ok postings)))"

section \<open>The native report\<close>

record gl_header =
  hd_account :: nat
  hd_type :: nat
  hd_date :: nat
  hd_number :: nat
  hd_debit :: nat
  hd_credit :: nat
  hd_data_start :: nat

text \<open>The account heading may be blank when the other four headings are present.\<close>

definition gl_header_of :: "nat \<Rightarrow> string list \<Rightarrow> gl_header option" where
  "gl_header_of index row =
     (let kind = column [''type'', ''transaction type''] row;
          date = column [''date''] row;
          number = column [''num'', ''number'', ''transaction number''] row;
          debit = column [''debit'', ''debits''] row;
          credit = column [''credit'', ''credits''] row;
          account = column [''account'', ''account name''] row;
          account =
            (if account = None \<and> kind \<noteq> None \<and> date \<noteq> None \<and> debit \<noteq> None \<and> credit \<noteq> None
             then Some 0 else account) in
      case (account, kind, date, number, debit, credit) of
        (Some a, Some k, Some d, Some n, Some db, Some cr) \<Rightarrow>
          Some \<lparr>hd_account = a, hd_type = k, hd_date = d, hd_number = n, hd_debit = db, hd_credit = cr,
                hd_data_start = index + 1\<rparr>
      | _ \<Rightarrow> None)"

definition find_gl_header :: "string list list \<Rightarrow> (general_ledger_error, gl_header) outcome" where
  "find_gl_header rows = ok_or (find_map_from gl_header_of 0 rows) MissingGlHeader"

text \<open>
  Desktop dates. The sum with 1900 or 2000 cannot overflow: the year text has two characters.
\<close>

definition candidate_step ::
    "(i32 \<Rightarrow> int \<times> int \<times> int) \<Rightarrow> (i32 \<Rightarrow> i32) \<Rightarrow> accounting_date \<Rightarrow> accounting_date \<Rightarrow> int \<Rightarrow> int \<Rightarrow>
     int \<Rightarrow> accounting_date list \<Rightarrow> (general_ledger_error, accounting_date list) outcome" where
  "candidate_step sa_ymd sa_days from_day through month day year candidates =
     rbind (map_err (\<lambda>_. InvalidDate) (from_ymd sa_ymd sa_days year month day)) (\<lambda>p.
       let candidate = sint (pd_accounting_date p) in
       if from_day \<le> candidate \<and> candidate \<le> through then Ok (candidates @ [candidate]) else Ok candidates)"

definition parse_desktop_date ::
    "(i32 \<Rightarrow> int \<times> int \<times> int) \<Rightarrow> (i32 \<Rightarrow> i32) \<Rightarrow> string \<Rightarrow> accounting_date \<Rightarrow> accounting_date \<Rightarrow>
     (general_ledger_error, accounting_date) outcome" where
  "parse_desktop_date sa_ymd sa_days v from_day through =
     (case split_char (CHR ''/'') (trim v) of
        [m, d, y] \<Rightarrow>
          rbind (ok_or (parse_u8 m) InvalidDate) (\<lambda>month.
          rbind (ok_or (parse_u8 d) InvalidDate) (\<lambda>day.
          rbind (ok_or (parse_i32 y) InvalidDate) (\<lambda>supplied.
          rbind (if length y = 2 then Ok [1900 + sint supplied, 2000 + sint supplied]
                 else if length y = 4 then Ok [sint supplied]
                 else Err InvalidDate) (\<lambda>years.
          rbind (rfold (candidate_step sa_ymd sa_days from_day through month day) years []) (\<lambda>candidates.
            case candidates of
              [date] \<Rightarrow> Ok date
            | [] \<Rightarrow> Err DateOutsideReportRange
            | _ \<Rightarrow> Err AmbiguousTwoDigitYear)))))
      | _ \<Rightarrow> Err InvalidDate)"

text \<open>The section state of the reader: current heading, nearest numbered heading, postings so far.\<close>

record gl_state =
  sec_account :: "string option"
  sec_ancestor :: "string option"
  sec_has_postings :: bool
  sec_postings :: "native_posting list"
  sec_neutral :: nat

definition gl_start :: gl_state where
  "gl_start = \<lparr>sec_account = None, sec_ancestor = None, sec_has_postings = False, sec_postings = [],
               sec_neutral = 0\<rparr>"

definition heading_row :: "string \<Rightarrow> gl_state \<Rightarrow> gl_state" where
  "heading_row account_cell st =
     (if is_total_label account_cell then st\<lparr>sec_account := None, sec_has_postings := False\<rparr>
      else if account_cell \<noteq> [] \<and> \<not> sec_has_postings st then
        (let label = canonical_native_account_full_name account_cell in
         if has_native_account_number_prefix account_cell then
           st\<lparr>sec_ancestor := Some label, sec_account := Some label\<rparr>
         else
           (case sec_ancestor st of
              Some ancestor \<Rightarrow> st\<lparr>sec_account := Some (ancestor @ '':'' @ label)\<rparr>
            | None \<Rightarrow> st\<lparr>sec_account := Some label\<rparr>))
      else st)"

definition posting_row ::
    "(i32 \<Rightarrow> int \<times> int \<times> int) \<Rightarrow> (i32 \<Rightarrow> i32) \<Rightarrow> gl_header \<Rightarrow> accounting_date \<Rightarrow> accounting_date \<Rightarrow>
     string list \<Rightarrow> string \<Rightarrow> gl_state \<Rightarrow> (general_ledger_error, gl_state) outcome" where
  "posting_row sa_ymd sa_days h from_day through row date_cell st =
     rbind (ok_or (sec_account st) PostingWithoutAccount) (\<lambda>account.
     rbind (parse_desktop_date sa_ymd sa_days date_cell from_day through) (\<lambda>date.
     rbind (map_err (\<lambda>_. InvalidMoney) (parse_money_cents (trim (cell row (hd_debit h))))) (\<lambda>debit.
     rbind (map_err (\<lambda>_. InvalidMoney) (parse_money_cents (trim (cell row (hd_credit h))))) (\<lambda>credit.
       if debit \<noteq> 0 \<and> credit \<noteq> 0 then Err BothDebitAndCredit
       else if debit = 0 \<and> credit = 0 then Ok (st\<lparr>sec_neutral := sec_neutral st + 1\<rparr>)
       else
         rbind (ok_or (checked_sub debit credit) GlAmountOverflow) (\<lambda>signed_cents.
           Ok (st\<lparr>sec_postings := sec_postings st @
                    [\<lparr>np_identity = \<lparr>gid_date = date, gid_account = account, gid_cents = signed_cents\<rparr>,
                      np_type = nonempty (cell row (hd_type h)),
                      np_number = nonempty (cell row (hd_number h))\<rparr>],
                  sec_has_postings := True\<rparr>))))))"

definition native_gl_row ::
    "(i32 \<Rightarrow> int \<times> int \<times> int) \<Rightarrow> (i32 \<Rightarrow> i32) \<Rightarrow> gl_header \<Rightarrow> accounting_date \<Rightarrow> accounting_date \<Rightarrow>
     string list \<Rightarrow> gl_state \<Rightarrow> (general_ledger_error, gl_state) outcome" where
  "native_gl_row sa_ymd sa_days h from_day through row st =
     (let account_cell = trim (cell row (hd_account h)); date_cell = trim (cell row (hd_date h)) in
      if date_cell = [] then Ok (heading_row account_cell st)
      else posting_row sa_ymd sa_days h from_day through row date_cell st)"

record native_general_ledger =
  ngl_postings :: "native_posting list"
  ngl_neutral :: nat

definition parse_quickbooks_general_ledger_csv ::
    "(i32 \<Rightarrow> int \<times> int \<times> int) \<Rightarrow> (i32 \<Rightarrow> i32) \<Rightarrow> string \<Rightarrow> accounting_date \<Rightarrow> accounting_date \<Rightarrow>
     (general_ledger_error, native_general_ledger) outcome" where
  "parse_quickbooks_general_ledger_csv sa_ymd sa_days bytes from_day through =
     (if through < from_day then Err InvalidDateRange
      else
        rbind (map_err (\<lambda>_. InvalidCsv) (parse_csv_records (decode_windows_1252 bytes))) (\<lambda>rows.
        rbind (find_gl_header rows) (\<lambda>h.
        rbind (rfold (native_gl_row sa_ymd sa_days h from_day through) (drop (hd_data_start h) rows) gl_start) (\<lambda>st.
          if sec_postings st = [] then Err NoPostingRows
          else Ok \<lparr>ngl_postings = sec_postings st, ngl_neutral = sec_neutral st\<rparr>))))"

section \<open>The multiset comparison\<close>

definition normalized_comparison_type :: "string \<Rightarrow> string" where
  "normalized_comparison_type v =
     (let normalized = to_ascii_lowercase (join_with '' '' (split_whitespace v)) in
      if normalized \<in> {''journal'', ''general journal''} then ''general journal''
      else if normalized \<in> {''vendor credit'', ''credit''} then ''credit''
      else if normalized \<in> {''bill payment check'', ''bill pmt-check'', ''bill pmt -check''} then ''bill pmt-check''
      else normalized)"

definition has_type :: "string option \<Rightarrow> bool" where
  "has_type v = (case v of Some s \<Rightarrow> \<not> trim_is_empty s | None \<Rightarrow> False)"

definition compare_types :: "native_posting list \<Rightarrow> generated_posting list \<Rightarrow> bool" where
  "compare_types native generated \<longleftrightarrow>
     native \<noteq> [] \<and> generated \<noteq> []
     \<and> list_all (\<lambda>r. has_type (np_type r)) native \<and> list_all (\<lambda>r. has_type (gp_type r)) generated"

text \<open>
  The comparison key. With types compared every row has a type, so the \<open>expect\<close> on it cannot fail.
\<close>

type_synonym gl_key = "(accounting_date \<times> string \<times> int) \<times> string option"

definition gl_key :: "bool \<Rightarrow> gl_identity \<Rightarrow> string option \<Rightarrow> gl_key" where
  "gl_key with_types i kind =
     ((gid_date i, gid_account i, sint (gid_cents i)),
      if with_types then map_option normalized_comparison_type kind else None)"

definition multiset :: "'k::linorder list \<Rightarrow> ('k, int) btree" where
  "multiset xs = bt_tally (\<lambda>x. x) (\<lambda>_. 1) xs"

text \<open>One turn of the matching loop, which subtracts the common count from both sides.\<close>

definition match_key ::
    "'k::linorder \<Rightarrow> ('k, int) btree \<times> ('k, int) btree \<times> int \<Rightarrow> ('k, int) btree \<times> ('k, int) btree \<times> int" where
  "match_key k st =
     (case st of (native_counts, generated_counts, matching) \<Rightarrow>
        (case (bt_get native_counts k, bt_get generated_counts k) of
           (Some n, Some g) \<Rightarrow>
             let matched = min n g in
             (bt_insert k (n - matched) native_counts, bt_insert k (g - matched) generated_counts,
              matching + matched)
         | _ \<Rightarrow> st))"

definition projection_overlap :: "'k::linorder list \<Rightarrow> 'k list \<Rightarrow> int" where
  "projection_overlap left right =
     (let right_counts = multiset right in
      (\<Sum>(k, n)\<leftarrow>multiset left. min n (bt_total right_counts k)))"

record gl_reconciliation =
  glr_native :: nat
  glr_generated :: int
  glr_matching :: int
  glr_missing :: int
  glr_extra :: int
  glr_date_amount :: int
  glr_shared_accounts :: nat
  glr_native_only :: nat
  glr_generated_only :: nat
  glr_compared_fields :: "string list"
  glr_not_compared_fields :: "string list"

definition date_amount :: "gl_identity \<Rightarrow> accounting_date \<times> int" where
  "date_amount i = (gid_date i, sint (gid_cents i))"

definition reconcile_general_ledger_postings ::
    "native_posting list \<Rightarrow> generated_posting list \<Rightarrow> gl_reconciliation" where
  "reconcile_general_ledger_postings native generated =
     (let with_types = compare_types native generated;
          native_keys = map (\<lambda>r. gl_key with_types (np_identity r) (np_type r)) native;
          generated_keys = map (\<lambda>r. gl_key with_types (gp_identity r) (gp_type r)) generated;
          native_counts = multiset native_keys;
          generated_counts = multiset generated_keys;
          (native_left, generated_left, matching) =
            fold match_key (bt_keys native_counts) (native_counts, generated_counts, 0);
          native_accounts = set (map (\<lambda>r. gid_account (np_identity r)) native);
          generated_accounts = set (map (\<lambda>r. gid_account (gp_identity r)) generated) in
      \<lparr>glr_native = length native, glr_generated = sum_list (bt_values generated_counts),
       glr_matching = matching,
       glr_missing = sum_list (bt_values native_left), glr_extra = sum_list (bt_values generated_left),
       glr_date_amount = projection_overlap (map (\<lambda>r. date_amount (np_identity r)) native)
                           (map (\<lambda>r. date_amount (gp_identity r)) generated),
       glr_shared_accounts = card (native_accounts \<inter> generated_accounts),
       glr_native_only = card (native_accounts - generated_accounts),
       glr_generated_only = card (generated_accounts - native_accounts),
       glr_compared_fields = [''account_full_name'', ''posting_day'', ''signed_cents'']
         @ (if with_types then [''transaction_type''] else []),
       glr_not_compared_fields = (if with_types then [] else [''transaction_type'']) @ [''transaction_number'']\<rparr>)"

definition passes_posting_multiset :: "gl_reconciliation \<Rightarrow> bool" where
  "passes_posting_multiset r \<longleftrightarrow> glr_missing r = 0 \<and> glr_extra r = 0"

definition gl_status_line :: "gl_reconciliation \<Rightarrow> string" where
  "gl_status_line r =
     (if passes_posting_multiset r
      then ''PASS: native and direct-QBW General Ledger posting multisets match on the compared fields''
      else ''FAIL: native and direct-QBW General Ledger posting multisets differ'')"

end
