(* ===== verification/Account_Sections.thy ===== *)
theory Account_Sections
  imports Native_General_Ledger Report_Names
begin

text \<open>
  Resolution of the account headings of a native General Ledger against the decoded chart
  (\<open>crates/openqbw-cli/src/general_ledger_reconciliation.rs\<close>). Sets and maps of the source are
  lists in their iteration order. The opt-in diagnostic print is not modelled: it has no effect on
  the result.
\<close>

section \<open>Chart identities\<close>

definition with_account :: "string \<Rightarrow> native_posting \<Rightarrow> native_posting" where
  "with_account name r = r\<lparr>np_identity := (np_identity r)\<lparr>gid_account := name\<rparr>\<rparr>"

definition row_name :: "native_posting \<Rightarrow> string" where
  "row_name r = gid_account (np_identity r)"

text \<open>\<open>pop()\<close>, then an error if anything is left.\<close>

definition only_match :: "'e \<Rightarrow> 'a list \<Rightarrow> ('e, 'a option) outcome" where
  "only_match ambiguous matches =
     (if matches = [] then Ok None
      else if butlast matches \<noteq> [] then Err ambiguous
      else Ok (Some (last matches)))"

definition resolve_native_display_name ::
    "string \<Rightarrow> names \<Rightarrow> (general_ledger_error, account_id option) outcome" where
  "resolve_native_display_name native_name display_names =
     (let native_name = canonical_native_account_full_name native_name in
      rbind (map_err (\<lambda>_. UnresolvedNativeAccountSection)
               (rmap (\<lambda>(k, _). account_id_new (account_id_str k))
                  (filter (\<lambda>(_, d). canonical_native_account_full_name d = native_name) display_names)))
        (only_match AmbiguousNativeAccountSection))"

definition exact_account_name_matches :: "string \<Rightarrow> account list \<Rightarrow> account_id list" where
  "exact_account_name_matches native_name chart = map acc_id (filter (\<lambda>a. acc_name a = native_name) chart)"

text \<open>\<open>rsplit(':').next()\<close>.\<close>

definition leaf_of :: "string \<Rightarrow> string" where
  "leaf_of name = last (split_char (CHR '':'') name)"

definition resolve_native_account_name ::
    "string \<Rightarrow> account list \<Rightarrow> (general_ledger_error, account_id option) outcome" where
  "resolve_native_account_name native_name chart =
     (let native_name = canonical_native_account_full_name native_name;
          matches = exact_account_name_matches native_name chart;
          matches = (if matches = [] then exact_account_name_matches (leaf_of native_name) chart else matches) in
      only_match AmbiguousNativeAccountSection matches)"

definition resolve_native_other_section_name ::
    "string \<Rightarrow> account list \<Rightarrow> (general_ledger_error, account_id option) outcome" where
  "resolve_native_other_section_name native_name chart =
     (case strip_suffix '' - Other'' (canonical_native_account_full_name native_name) of
        None \<Rightarrow> Ok None
      | Some base_name \<Rightarrow>
          (let matches = exact_account_name_matches base_name chart in
           if length matches = 1 then Ok (Some (last matches)) else Ok None))"

section \<open>The Accounts Payable control section\<close>

definition compact_type :: "string \<Rightarrow> string" where
  "compact_type s = map ascii_lower (filter is_ascii_alphanumeric s)"

definition normalize_ap_control_transaction_type :: "string option \<Rightarrow> string option" where
  "normalize_ap_control_transaction_type v =
     (case v of
        None \<Rightarrow> None
      | Some s \<Rightarrow>
          (let compact = compact_type s in
           if compact \<in> {''bill'', ''enterprise24table3042''} then Some ''bill''
           else if compact \<in> {''billpmtcheck'', ''billpaymentcheck'', ''enterprise24table3039''}
             then Some ''bill-pmt-check''
           else if compact \<in> {''credit'', ''vendorcredit'', ''enterprise24table3042vendorcredit''} then Some ''credit''
           else if compact \<in> {''generaljournal'', ''enterprise24table3078''} then Some ''general-journal''
           else if compact \<in> {''check'', ''enterprise24table3047''} then Some ''check''
           else if compact \<in> {''deposit'', ''enterprise24table3069''} then Some ''deposit''
           else None))"

type_synonym movement = "accounting_date \<times> string \<times> int"

text \<open>The movements of one side: absent as soon as a row has no recognised type.\<close>

primrec movements_of :: "('a \<Rightarrow> string option) \<Rightarrow> ('a \<Rightarrow> accounting_date) \<Rightarrow> ('a \<Rightarrow> int) \<Rightarrow> 'a list \<Rightarrow> movement list option" where
  "movements_of kind date cents [] = Some []"
| "movements_of kind date cents (r # rs) =
     (case normalize_ap_control_transaction_type (kind r) of
        None \<Rightarrow> None
      | Some k \<Rightarrow> map_option (\<lambda>ms. (date r, k, cents r) # ms) (movements_of kind date cents rs))"

definition generated_ap_control_multiset :: "general_ledger_entry list \<Rightarrow> account_id \<Rightarrow> (movement, int) btree option" where
  "generated_ap_control_multiset entries k =
     map_option multiset
       (movements_of (\<lambda>e. post_type (ent_posting e)) (\<lambda>e. post_date (ent_posting e)) entry_amount
          (filter (\<lambda>e. acc_id (ent_account e) = k) entries))"

definition native_ap_movements :: "native_posting list \<Rightarrow> nat list \<Rightarrow> movement list option" where
  "native_ap_movements native indices =
     movements_of np_type (\<lambda>r. gid_date (np_identity r)) (\<lambda>r. sint (gid_cents (np_identity r)))
       (map (\<lambda>i. native ! i) indices)"

definition resolve_accounts_payable_control_section ::
    "native_posting list \<Rightarrow> nat list \<Rightarrow> account list \<Rightarrow> general_ledger_entry list \<Rightarrow>
     (general_ledger_error, account_id) outcome" where
  "resolve_accounts_payable_control_section native indices chart entries =
     rbind (ok_or (native_ap_movements native indices) UnresolvedNativeAccountSection) (\<lambda>movements.
       let kinds = map (\<lambda>(_, k, _). k) movements in
       if \<not> (''bill'' \<in> set kinds \<and> ''bill-pmt-check'' \<in> set kinds) then Err UnresolvedNativeAccountSection
       else
         (case map acc_id
                 (filter (\<lambda>a. generated_ap_control_multiset entries (acc_id a) = Some (multiset movements))
                    (filter (\<lambda>a. acc_classification a = Some QB_AccountsPayable) chart)) of
            [candidate] \<Rightarrow> Ok candidate
          | [] \<Rightarrow> Err NoAccountsPayableControlMatch
          | _ \<Rightarrow> Err AmbiguousNativeAccountSection))"

section \<open>Resolution\<close>

definition full_name_by_id :: "names \<Rightarrow> account_id \<Rightarrow> (general_ledger_error, string) outcome" where
  "full_name_by_id full_names k = ok_or (bt_get full_names k) UnresolvedNativeAccountSection"

text \<open>The first pass, on one row.\<close>

definition resolve_row ::
    "string list \<Rightarrow> account list \<Rightarrow> names \<Rightarrow> names \<Rightarrow> native_posting \<Rightarrow>
     (general_ledger_error, native_posting) outcome" where
  "resolve_row decoded_full_names chart full_names display_names r =
     (if row_name r \<in> set decoded_full_names then Ok r
      else
        rbind (resolve_native_display_name (row_name r) display_names) (\<lambda>by_display.
        case by_display of
          Some k \<Rightarrow> rbind (full_name_by_id full_names k) (\<lambda>n. Ok (with_account n r))
        | None \<Rightarrow>
            rbind (resolve_native_account_name (row_name r) chart) (\<lambda>by_name.
            case by_name of
              Some k \<Rightarrow> rbind (full_name_by_id full_names k) (\<lambda>n. Ok (with_account n r))
            | None \<Rightarrow>
                rbind (resolve_native_other_section_name (row_name r) chart) (\<lambda>by_other.
                case by_other of
                  Some k \<Rightarrow> rbind (full_name_by_id full_names k) (\<lambda>n. Ok (with_account n r))
                | None \<Rightarrow>
                    (case filter (\<lambda>n. n = leaf_of (row_name r)) decoded_full_names of
                       [resolved] \<Rightarrow> Ok (with_account resolved r)
                     | _ \<Rightarrow> Ok r)))))"

text \<open>The second pass groups the unresolved rows by name and resolves each group as a whole.\<close>

definition add_unresolved ::
    "string list \<Rightarrow> nat \<times> native_posting \<Rightarrow> (string, nat list) btree \<Rightarrow> (string, nat list) btree" where
  "add_unresolved decoded_full_names entry m =
     (case entry of (i, r) \<Rightarrow>
        if row_name r \<in> set decoded_full_names then m
        else bt_insert (row_name r) ((case bt_get m (row_name r) of Some l \<Rightarrow> l | None \<Rightarrow> []) @ [i]) m)"

definition unresolved_sections :: "string list \<Rightarrow> native_posting list \<Rightarrow> nat list list" where
  "unresolved_sections decoded_full_names native =
     bt_values (fold (add_unresolved decoded_full_names) (enumerate 0 native) [])"

definition set_accounts :: "string \<Rightarrow> nat list \<Rightarrow> native_posting list \<Rightarrow> native_posting list" where
  "set_accounts name indices native = fold (\<lambda>i rs. rs[i := with_account name (rs ! i)]) indices native"

definition resolve_section ::
    "account list \<Rightarrow> names \<Rightarrow> general_ledger_entry list \<Rightarrow> nat list \<Rightarrow> native_posting list \<Rightarrow>
     (general_ledger_error, native_posting list) outcome" where
  "resolve_section chart full_names entries indices native =
     rbind (resolve_accounts_payable_control_section native indices chart entries) (\<lambda>k.
     rbind (full_name_by_id full_names k) (\<lambda>name. Ok (set_accounts name indices native)))"

definition resolve_native_account_sections_with_chart ::
    "native_posting list \<Rightarrow> string list \<Rightarrow> account list \<Rightarrow> names \<Rightarrow> names \<Rightarrow> general_ledger_entry list \<Rightarrow>
     (general_ledger_error, native_posting list) outcome" where
  "resolve_native_account_sections_with_chart native decoded_full_names chart full_names display_names entries =
     rbind (rmap (resolve_row decoded_full_names chart full_names display_names) native) (\<lambda>native.
       rfold (resolve_section chart full_names entries) (unresolved_sections decoded_full_names native) native)"

definition resolve_native_account_sections ::
    "native_posting list \<Rightarrow> string list \<Rightarrow> (general_ledger_error, native_posting list) outcome" where
  "resolve_native_account_sections native decoded_full_names =
     resolve_native_account_sections_with_chart native decoded_full_names [] [] [] []"

section \<open>Resolution renames and nothing else\<close>

text \<open>Two postings that differ at most in the account name.\<close>

definition same_posting :: "native_posting \<Rightarrow> native_posting \<Rightarrow> bool" where
  "same_posting r s \<longleftrightarrow> with_account [] r = with_account [] s"

lemma same_posting_refl [simp]: "same_posting r r"
  by (simp add: same_posting_def)

lemma same_posting_trans: "same_posting r s \<Longrightarrow> same_posting s t \<Longrightarrow> same_posting r t"
  by (simp add: same_posting_def)

lemma same_posting_renamed [simp]: "same_posting r (with_account n r)"
  by (simp add: same_posting_def with_account_def)

text \<open>The new name is a decoded full name.\<close>

definition renamed_to_chart :: "string list \<Rightarrow> names \<Rightarrow> native_posting \<Rightarrow> native_posting \<Rightarrow> bool" where
  "renamed_to_chart decoded full r s \<longleftrightarrow>
     s = r \<or> (\<exists>n \<in> set decoded \<union> snd ` set full. s = with_account n r)"

lemma renamed_refl: "renamed_to_chart decoded full r r"
  by (simp add: renamed_to_chart_def)

lemma renamed_full: "full_name_by_id full k = Ok n \<Longrightarrow> renamed_to_chart decoded full r (with_account n r)"
proof -
  assume "full_name_by_id full k = Ok n"
  then have "(k, n) \<in> set full" by (auto simp: full_name_by_id_def outcome_simps dest: bt_get_SomeD)
  then have "n \<in> snd ` set full" by force
  then show ?thesis by (auto simp: renamed_to_chart_def)
qed

lemma renamed_leaf:
  "filter (\<lambda>n. n = x) decoded = [y] \<Longrightarrow> renamed_to_chart decoded full r (with_account y r)"
proof -
  assume "filter (\<lambda>n. n = x) decoded = [y]"
  then have "y \<in> set decoded" by (metis filter_is_subset list.set_intros(1) subsetD)
  then show ?thesis by (auto simp: renamed_to_chart_def)
qed

lemma resolve_row_renamed:
  "resolve_row decoded chart full display r = Ok s \<Longrightarrow> renamed_to_chart decoded full r s"
  by (auto simp: resolve_row_def outcome_simps renamed_refl renamed_full renamed_leaf
      split: if_splits option.splits list.splits)

lemma renamed_same: "renamed_to_chart decoded full r s \<Longrightarrow> same_posting r s"
  by (auto simp: renamed_to_chart_def)

lemma same_postings_trans:
  "list_all2 same_posting as bs \<Longrightarrow> list_all2 same_posting bs cs \<Longrightarrow> list_all2 same_posting as cs"
  by (rule list_all2_trans [OF same_posting_trans])

lemma set_accounts_same:
  "list_all2 same_posting native (set_accounts name indices native)"
proof (induction indices arbitrary: native)
  case Nil
  then show ?case by (simp add: set_accounts_def list_all2_refl)
next
  case (Cons i js)
  let ?next = "native[i := with_account name (native ! i)]"
  have "list_all2 same_posting native ?next"
  proof (rule list_all2_all_nthI)
    fix k assume "k < length native"
    then show "same_posting (native ! k) (?next ! k)" by (cases "k = i") simp_all
  qed simp
  then have "list_all2 same_posting native (set_accounts name js ?next)"
    using Cons.IH by (rule same_postings_trans)
  then show ?case by (simp add: set_accounts_def)
qed

lemma resolve_sections_same:
  assumes "rfold (resolve_section chart full entries) sections native = Ok native'"
  shows "list_all2 same_posting native native'"
  using assms
proof (induction sections arbitrary: native)
  case Nil
  then show ?case by (simp add: list_all2_refl)
next
  case (Cons s ss)
  then obtain native1 where "resolve_section chart full entries s native = Ok native1"
    and rest: "rfold (resolve_section chart full entries) ss native1 = Ok native'"
    by (auto simp: outcome_simps)
  then have "list_all2 same_posting native native1"
    by (auto simp: resolve_section_def outcome_simps set_accounts_same)
  with Cons.IH [OF rest] show ?case
    by (auto intro: same_postings_trans)
qed

lemma resolve_sections_rename:
  assumes "resolve_native_account_sections_with_chart native decoded chart full display entries = Ok native'"
  shows "list_all2 same_posting native native'"
proof -
  from assms obtain mid
    where "rmap (resolve_row decoded chart full display) native = Ok mid"
      and rest: "rfold (resolve_section chart full entries) (unresolved_sections decoded mid) mid = Ok native'"
    by (auto simp: resolve_native_account_sections_with_chart_def outcome_simps)
  then have "list_all2 (\<lambda>r s. resolve_row decoded chart full display r = Ok s) native mid"
    by (simp add: rmap_Ok_iff)
  then have "list_all2 same_posting native mid"
    by (rule list_all2_mono) (auto dest: resolve_row_renamed renamed_same)
  with resolve_sections_same [OF rest] show ?thesis
    by (auto intro: same_postings_trans)
qed

end
