(* ===== verification/Posting_Multiset.thy ===== *)
theory Posting_Multiset
  imports Native_General_Ledger Native_Balance_Facts
begin

text \<open>
  The counting maps of the General Ledger reconciliation compute multiset operations: the matching
  loop leaves the two multiset differences and counts the intersection.
\<close>

section \<open>Counting maps\<close>

lemma sum_filter_count: "sum_list (map (\<lambda>_. 1) (filter (\<lambda>x. x = k) xs)) = int (count (mset xs) k)"
  by (induction xs) auto

lemma bt_total_multiset: "bt_total (multiset xs) k = int (count (mset xs) k)"
  unfolding multiset_def bt_total_tally by (rule sum_filter_count)

lemma bt_get_multiset:
  "bt_get (multiset xs) k = (if k \<in> set xs then Some (int (count (mset xs) k)) else None)"
  unfolding multiset_def bt_get_tally sum_filter_count by simp

lemma bt_ok_multiset: "bt_ok (multiset xs)"
  by (simp add: multiset_def bt_ok_tally)

lemma bt_keys_multiset: "set (bt_keys (multiset xs)) = set xs" "distinct (bt_keys (multiset xs))"
proof -
  have "k \<in> set (bt_keys (multiset xs)) \<longleftrightarrow> bt_get (multiset xs) k \<noteq> None" for k
    by (simp add: bt_keys_def bt_get_None_iff)
  then show "set (bt_keys (multiset xs)) = set xs" by (auto simp: bt_get_multiset split: if_splits)
  show "distinct (bt_keys (multiset xs))"
    using bt_ok_distinct [OF bt_ok_multiset] by (simp add: bt_keys_def)
qed

lemma sum_entries:
  assumes "bt_ok m"
  shows "(\<Sum>(k, v)\<leftarrow>m. f k v) = (\<Sum>k\<in>set (bt_keys m). f k (the (bt_get m k)) :: int)"
proof -
  have "(\<Sum>(k, v)\<leftarrow>m. f k v) = (\<Sum>k\<leftarrow>bt_keys m. f k (the (bt_get m k)))"
    unfolding bt_keys_def map_map
    using bt_get_iff [OF assms] by (intro arg_cong [where f = sum_list] map_cong) auto
  also have "\<dots> = (\<Sum>k\<in>set (bt_keys m). f k (the (bt_get m k)))"
    by (rule sum_list_distinct_conv_sum_set) (simp add: bt_keys_def bt_ok_distinct [OF assms])
  finally show ?thesis .
qed

lemma sum_values: "sum_list (bt_values m) = (\<Sum>(k, v)\<leftarrow>m. v)"
  by (simp add: bt_values_def case_prod_unfold)

lemma size_as_sum: "int (size M) = (\<Sum>k\<in>set_mset M. int (count M k))"
  by (simp add: size_multiset_overloaded_eq)

lemma sum_values_multiset: "sum_list (bt_values (multiset xs)) = int (length xs)"
proof -
  have "sum_list (bt_values (multiset xs)) = (\<Sum>k\<in>set xs. the (bt_get (multiset xs) k))"
    by (simp only: sum_values sum_entries [OF bt_ok_multiset] bt_keys_multiset)
  also have "\<dots> = (\<Sum>k\<in>set xs. int (count (mset xs) k))"
    by (rule sum.cong) (simp_all add: bt_get_multiset)
  also have "\<dots> = int (length xs)"
    using size_as_sum [of "mset xs"] by simp
  finally show ?thesis .
qed

text \<open>The sum of the common counts is the size of the intersection.\<close>

lemma sum_min_inter:
  "(\<Sum>k\<in>set xs. min (int (count (mset xs) k)) (int (count (mset ys) k))) = int (size (mset xs \<inter># mset ys))"
proof -
  let ?I = "mset xs \<inter># mset ys"
  have "int (size ?I) = (\<Sum>k\<in>set_mset ?I. int (count ?I k))" by (rule size_as_sum)
  also have "\<dots> = (\<Sum>k\<in>set xs. int (count ?I k))"
    by (rule sum.mono_neutral_left) (auto simp: not_in_iff [symmetric])
  finally show ?thesis by (simp add: min_def if_distrib [of int])
qed

lemma projection_overlap_inter: "projection_overlap xs ys = int (size (mset xs \<inter># mset ys))"
proof -
  have "projection_overlap xs ys
      = (\<Sum>k\<in>set xs. min (the (bt_get (multiset xs) k)) (bt_total (multiset ys) k))"
    unfolding projection_overlap_def Let_def
    by (simp only: sum_entries [OF bt_ok_multiset, where f = "\<lambda>k n. min n (bt_total (multiset ys) k)"]
        bt_keys_multiset)
  also have "\<dots> = (\<Sum>k\<in>set xs. min (int (count (mset xs) k)) (int (count (mset ys) k)))"
    by (rule sum.cong) (simp_all add: bt_get_multiset bt_total_multiset)
  finally show ?thesis by (simp add: sum_min_inter)
qed

section \<open>The matching loop\<close>

definition common :: "('k, int) btree \<Rightarrow> ('k, int) btree \<Rightarrow> 'k \<Rightarrow> int" where
  "common m n k = (case (bt_get m k, bt_get n k) of (Some a, Some b) \<Rightarrow> min a b | _ \<Rightarrow> 0)"

lemma sum_bt_insert_old:
  assumes "bt_ok m" and "bt_get m k = Some v"
  shows "sum_list (bt_values (bt_insert k w m)) = sum_list (bt_values m) - v + (w :: int)"
  using assms
proof (induction k w m rule: bt_insert.induct)
  case (2 k w l x m)
  then show ?case
    by (auto simp: bt_get_def bt_values_def bt_ok_def split: if_splits dest!: map_of_SomeD)
qed simp

lemma match_key_step:
  assumes "bt_ok m" and "bt_ok n" and "match_key k (m, n, c) = (m', n', c')"
  shows "bt_ok m' \<and> bt_ok n'
    \<and> sum_list (bt_values m') = sum_list (bt_values m) - common m n k
    \<and> sum_list (bt_values n') = sum_list (bt_values n) - common m n k
    \<and> c' = c + common m n k
    \<and> (\<forall>j. j \<noteq> k \<longrightarrow> bt_get m' j = bt_get m j \<and> bt_get n' j = bt_get n j)"
  using assms
  by (auto simp: match_key_def common_def Let_def sum_bt_insert_old bt_ok_insert bt_get_insert
      split: option.splits)

lemma match_fold:
  assumes "bt_ok m" and "bt_ok n" and "distinct ks" and "fold match_key ks (m, n, c) = (m', n', c')"
  shows "sum_list (bt_values m') = sum_list (bt_values m) - (\<Sum>k\<leftarrow>ks. common m n k)
    \<and> sum_list (bt_values n') = sum_list (bt_values n) - (\<Sum>k\<leftarrow>ks. common m n k)
    \<and> c' = c + (\<Sum>k\<leftarrow>ks. common m n k)"
  using assms
proof (induction ks arbitrary: m n c)
  case (Cons k ks)
  obtain m1 n1 c1 where step: "match_key k (m, n, c) = (m1, n1, c1)" by (cases "match_key k (m, n, c)")
  note s = match_key_step [OF Cons.prems(1,2) step]
  have "common m1 n1 j = common m n j" if "j \<in> set ks" for j
  proof -
    from that Cons.prems(3) have "j \<noteq> k" by auto
    with s have "bt_get m1 j = bt_get m j" and "bt_get n1 j = bt_get n j" by blast+
    then show ?thesis by (simp add: common_def)
  qed
  then have "(\<Sum>j\<leftarrow>ks. common m1 n1 j) = (\<Sum>j\<leftarrow>ks. common m n j)"
    by (intro arg_cong [where f = sum_list] map_cong) auto
  moreover have "fold match_key ks (m1, n1, c1) = (m', n', c')" using Cons.prems(4) step by simp
  ultimately show ?case using Cons.IH [of m1 n1 c1] s Cons.prems(3) by simp
qed simp

lemma count_mset_0: "x \<notin> set xs \<Longrightarrow> count (mset xs) x = 0"
  by (simp add: not_in_iff [symmetric])

lemma match_all:
  assumes "fold match_key (bt_keys (multiset xs)) (multiset xs, multiset ys, 0) = (m, n, c)"
  shows "c = int (size (mset xs \<inter># mset ys))"
    and "sum_list (bt_values m) = int (size (mset xs - mset ys))"
    and "sum_list (bt_values n) = int (size (mset ys - mset xs))"
proof -
  have "(\<Sum>k\<leftarrow>bt_keys (multiset xs). common (multiset xs) (multiset ys) k)
      = (\<Sum>k\<in>set xs. common (multiset xs) (multiset ys) k)"
    by (simp add: sum_list_distinct_conv_sum_set bt_keys_multiset)
  also have "\<dots> = (\<Sum>k\<in>set xs. min (int (count (mset xs) k)) (int (count (mset ys) k)))"
    by (rule sum.cong) (auto simp: common_def bt_get_multiset count_mset_0)
  finally have common: "(\<Sum>k\<leftarrow>bt_keys (multiset xs). common (multiset xs) (multiset ys) k)
      = int (size (mset xs \<inter># mset ys))" by (simp add: sum_min_inter)
  note fold = match_fold [OF bt_ok_multiset bt_ok_multiset bt_keys_multiset(2) assms, unfolded common]
  have size: "int (size (M - N)) = int (size M) - int (size (M \<inter># N))" for M N :: "'a multiset"
  proof -
    have "M - N = M - M \<inter># N" by (rule multiset_eqI) simp
    then have "size (M - N) = size (M - M \<inter># N)" by (rule arg_cong)
    also have "\<dots> = size M - size (M \<inter># N)" by (rule size_Diff_submset) simp
    finally show ?thesis using size_mset_mono [of "M \<inter># N" M] by simp
  qed
  from fold show "c = int (size (mset xs \<inter># mset ys))"
    and "sum_list (bt_values m) = int (size (mset xs - mset ys))"
    and "sum_list (bt_values n) = int (size (mset ys - mset xs))"
    by (simp_all add: sum_values_multiset size subset_mset.inf_commute [of "mset ys"])
qed

section \<open>The reconciliation\<close>

definition native_keys :: "native_posting list \<Rightarrow> generated_posting list \<Rightarrow> gl_key multiset" where
  "native_keys native generated =
     mset (map (\<lambda>r. gl_key (compare_types native generated) (np_identity r) (np_type r)) native)"

definition generated_keys :: "native_posting list \<Rightarrow> generated_posting list \<Rightarrow> gl_key multiset" where
  "generated_keys native generated =
     mset (map (\<lambda>r. gl_key (compare_types native generated) (gp_identity r) (gp_type r)) generated)"

lemma reconcile_counts:
  defines "R \<equiv> reconcile_general_ledger_postings"
  shows "glr_matching (R native generated) = int (size (native_keys native generated \<inter># generated_keys native generated))"
    and "glr_missing (R native generated) = int (size (native_keys native generated - generated_keys native generated))"
    and "glr_extra (R native generated) = int (size (generated_keys native generated - native_keys native generated))"
    and "glr_generated (R native generated) = int (length generated)"
    and "glr_date_amount (R native generated) =
      int (size (mset (map (\<lambda>r. date_amount (np_identity r)) native)
                 \<inter># mset (map (\<lambda>r. date_amount (gp_identity r)) generated)))"
proof -
  let ?xs = "map (\<lambda>r. gl_key (compare_types native generated) (np_identity r) (np_type r)) native"
  let ?ys = "map (\<lambda>r. gl_key (compare_types native generated) (gp_identity r) (gp_type r)) generated"
  obtain m n c where f: "fold match_key (bt_keys (multiset ?xs)) (multiset ?xs, multiset ?ys, 0) = (m, n, c)"
    by (cases "fold match_key (bt_keys (multiset ?xs)) (multiset ?xs, multiset ?ys, 0)")
  have "glr_matching (R native generated) = c" and "glr_missing (R native generated) = sum_list (bt_values m)"
    and "glr_extra (R native generated) = sum_list (bt_values n)"
    and "glr_generated (R native generated) = sum_list (bt_values (multiset ?ys))"
    by (simp_all add: R_def reconcile_general_ledger_postings_def Let_def f)
  with match_all [OF f]
  show "glr_matching (R native generated) = int (size (native_keys native generated \<inter># generated_keys native generated))"
    and "glr_missing (R native generated) = int (size (native_keys native generated - generated_keys native generated))"
    and "glr_extra (R native generated) = int (size (generated_keys native generated - native_keys native generated))"
    and "glr_generated (R native generated) = int (length generated)"
    by (simp_all add: native_keys_def generated_keys_def sum_values_multiset)
  show "glr_date_amount (R native generated) =
      int (size (mset (map (\<lambda>r. date_amount (np_identity r)) native)
                 \<inter># mset (map (\<lambda>r. date_amount (gp_identity r)) generated)))"
    by (simp add: R_def reconcile_general_ledger_postings_def Let_def f projection_overlap_inter)
qed

lemma passes_multiset_iff:
  "passes_posting_multiset (reconcile_general_ledger_postings native generated) \<longleftrightarrow>
     native_keys native generated = generated_keys native generated"
proof -
  have "size (M - N) = 0 \<and> size (N - M) = 0 \<longleftrightarrow> M = N" for M N :: "gl_key multiset"
    by (auto simp: Diff_eq_empty_iff_mset intro: subset_mset.antisym)
  then show ?thesis by (simp add: passes_posting_multiset_def reconcile_counts)
qed

end
