(* ===== verification/General_Ledger_Reading.thy ===== *)
theory General_Ledger_Reading
  imports Report_Rendering Posting_Multiset
begin

text \<open>
  The General Ledger encoder and the reader of generated General Ledgers together: every posting
  of the report is read back, with its day, its account label, its cents and its type.
\<close>

definition general_ledger_columns :: "string list" where
  "general_ledger_columns =
     [''entity_id'', ''as_of_day'', ''posting_day'', ''transaction_id'', ''posting_id'', ''account_id'',
      ''account_number'', ''account_name'', ''account_full_name'', ''account_display_name'',
      ''parent_account_id'', ''account_type'', ''quickbooks_classification'', ''active'', ''activity'',
      ''debit_cents'', ''debit'', ''credit_cents'', ''credit'', ''net_cents'', ''net'',
      ''transaction_type'', ''memo'', ''source_row'', ''page_number'', ''slot_number'', ''decoder'',
      ''source_file'', ''parser_version'', ''generated_at'']"

lemma general_ledger_header_row: "general_ledger_header = csv_row [] (map Some general_ledger_columns)"
  by code_simp

definition entry_label :: "names \<Rightarrow> general_ledger_entry \<Rightarrow> string" where
  "entry_label display e = the (bt_get display (acc_id (ent_account e)))"

definition entry_cells ::
    "report_metadata \<Rightarrow> accounting_date \<Rightarrow> names \<Rightarrow> names \<Rightarrow> general_ledger_entry \<Rightarrow> string option list" where
  "entry_cells md as_of full display e =
     general_ledger_cells md as_of (the (bt_get full (acc_id (ent_account e)))) (entry_label display e) e"

lemma general_ledger_loop:
  "rfold (general_ledger_csv_row md as_of full display) es out0 = Ok out \<Longrightarrow>
     out = out0 @ concat (map (\<lambda>e. csv_row [] (entry_cells md as_of full display e)) es)"
proof (induction es arbitrary: out0)
  case (Cons e es)
  then show ?case
    by (simp only: rfold.simps rbind_Ok_iff general_ledger_row_Ok_iff entry_cells_def entry_label_def) fastforce
qed simp

lemma general_ledger_records:
  "parse_csv_records (csv_rows_text (map Some general_ledger_columns # map (entry_cells md as_of full display) es))
   = Ok (general_ledger_columns # map (\<lambda>e. map cell_text (entry_cells md as_of full display e)) es)"
proof -
  have "[] \<notin> set (map Some general_ledger_columns # map (entry_cells md as_of full display) es)"
    by (auto simp: general_ledger_columns_def entry_cells_def general_ledger_cells_def Let_def)
  then show ?thesis
    by (simp add: parse_written_rows comp_def cell_text_def)
qed

definition own_gl_header :: generated_header where
  "own_gl_header = \<lparr>gh_posting_day = 2, gh_account = 9, gh_net = 19, gh_type = 21, gh_data_start = 1\<rparr>"

lemma general_ledger_columns_folded: "map folded_heading general_ledger_columns = general_ledger_columns"
  by (simp add: general_ledger_columns_def folded_heading_def trim_plain plain_char_def
      to_ascii_lowercase_def ascii_lower_def)

lemma own_gl_columns:
  "column [''posting_day''] general_ledger_columns = Some 2"
  "column [''account_display_name''] general_ledger_columns = Some 9"
  "column [''net_cents''] general_ledger_columns = Some 19"
  "column [''transaction_type''] general_ledger_columns = Some 21"
  by (simp_all add: column_folded general_ledger_columns_folded) (simp_all add: general_ledger_columns_def)

lemma own_gl_header_found: "find_generated_header (general_ledger_columns # rows) = Ok own_gl_header"
proof -
  have "generated_header_of 0 general_ledger_columns = Some own_gl_header"
    by (simp add: generated_header_of_def own_gl_columns or_else_def own_gl_header_def)
  then show ?thesis by (simp add: find_generated_header_def ok_or_def)
qed

lemma own_gl_cells:
  "cell (map cell_text (entry_cells md as_of full display e)) 2 = int_to_string (post_date (ent_posting e))"
  "cell (map cell_text (entry_cells md as_of full display e)) 9 = entry_label display e"
  "cell (map cell_text (entry_cells md as_of full display e)) 19 = cents_text (post_signed (ent_posting e))"
  "cell (map cell_text (entry_cells md as_of full display e)) 21 = cell_text (post_type (ent_posting e))"
  by (simp_all add: cell_def get_at_def entry_cells_def general_ledger_cells_def Let_def cell_text_def)

text \<open>A day number as the source has it: an \<open>i32\<close>.\<close>

definition day_number :: "accounting_date \<Rightarrow> bool" where
  "day_number d \<longleftrightarrow> - (2 ^ 31) \<le> d \<and> d < 2 ^ 31"

lemma parse_day: "day_number d \<Longrightarrow> \<exists>w. parse_i32 (int_to_string d) = Some w \<and> sint w = d"
  by (simp add: parse_i32_def parse_int_to_string try_from_int_def day_number_def sint_word_of_int_range)

definition read_entry :: "names \<Rightarrow> general_ledger_entry \<Rightarrow> generated_posting" where
  "read_entry display e =
     \<lparr>gp_identity =
        \<lparr>gid_date = post_date (ent_posting e),
         gid_account = canonical_native_account_full_name (trim (entry_label display e)),
         gid_cents = post_signed (ent_posting e)\<rparr>,
      gp_type = nonempty (cell_text (post_type (ent_posting e)))\<rparr>"

definition entry_readable :: "names \<Rightarrow> accounting_date \<Rightarrow> accounting_date \<Rightarrow> general_ledger_entry \<Rightarrow> bool" where
  "entry_readable display from_day through e \<longleftrightarrow>
     trim (entry_label display e) \<noteq> [] \<and> day_number (post_date (ent_posting e))
     \<and> from_day \<le> post_date (ent_posting e) \<and> post_date (ent_posting e) \<le> through
     \<and> post_signed (ent_posting e) \<noteq> 0"

lemma read_own_entry:
  assumes "entry_readable display from_day through e"
  shows "generated_row own_gl_header from_day through (map cell_text (entry_cells md as_of full display e)) ps
       = Ok (ps @ [read_entry display e])"
proof -
  obtain w where "parse_i32 (int_to_string (post_date (ent_posting e))) = Some w"
    and "sint w = post_date (ent_posting e)"
    using parse_day assms by (auto simp: entry_readable_def)
  with assms show ?thesis
    by (simp add: generated_row_def own_gl_header_def own_gl_cells trim_int_to_string cents_text_def
        parse_i64_to_string ok_or_def entry_readable_def read_entry_def)
qed

lemma read_own_entries:
  "\<forall>e \<in> set es. entry_readable display from_day through e \<Longrightarrow>
     rfold (generated_row own_gl_header from_day through)
       (map (\<lambda>e. map cell_text (entry_cells md as_of full display e)) es) ps
   = Ok (ps @ map (read_entry display) es)"
  by (induction es arbitrary: ps) (simp_all add: read_own_entry)

lemma entry_label_not_blank:
  assumes "account_full_names as = Ok full" and "account_display_names as full = Ok display"
    and "a \<in> set as" and "\<not> trim_is_empty (acc_name a)"
  shows "trim (the (bt_get display (acc_id a))) \<noteq> []"
proof -
  let ?md = "\<lparr>md_entity = ''x'', md_source_file = ''x'', md_parser_version = ''x'', md_generated_at = ''x'', md_policy = None\<rparr>"
  let ?row = "\<lparr>row_account = a, row_signed = 0, row_debit = None, row_credit = None\<rparr>"
  have "metadata_validate ?md = Ok ()" by code_simp
  from row_label_not_blank [OF assms(1,2) _ _ this, of ?row] assms(3,4) show ?thesis
    by (simp add: row_label_def trial_balance_account_display_name_def)
qed

lemma validated_entries:
  assumes "validate_general_ledger gl = Ok ()" and "e \<in> set (gl_entries gl)"
  shows "post_signed (ent_posting e) \<noteq> 0" and "post_date (ent_posting e) \<le> gl_as_of gl"
proof -
  obtain st where "rfold (validate_entry (gl_as_of gl)) (gl_entries gl) ({}, {}, []) = Ok st"
    using assms(1) by (auto simp: validate_general_ledger_def outcome_simps)
  then show "post_signed (ent_posting e) \<noteq> 0" and "post_date (ent_posting e) \<le> gl_as_of gl"
    using assms(2) by (auto simp: validate_entries_Ok_iff)
qed

lemma read_back_entries:
  assumes "general_ledger_csv_with_account_catalog report md catalog = Ok out" and "utf8_valid out"
    and "\<forall>e \<in> set (gl_entries report). \<not> trim_is_empty (acc_name (ent_account e))
      \<and> day_number (post_date (ent_posting e)) \<and> from_day \<le> post_date (ent_posting e)
      \<and> post_date (ent_posting e) \<le> through"
  obtains full display where
    "account_full_names_with_catalog catalog (map ent_account (gl_entries report)) = Ok full"
    and "account_display_names_with_catalog catalog (map ent_account (gl_entries report)) full = Ok display"
    and "parse_generated_general_ledger_csv out from_day through =
      (if gl_entries report = [] then Err NoPostingRows
       else Ok (map (read_entry display) (sorted_entries report)))"
proof -
  from assms(1) obtain full display
    where v: "validate_general_ledger report = Ok ()"
      and full: "account_full_names_with_catalog catalog (map ent_account (gl_entries report)) = Ok full"
      and display: "account_display_names_with_catalog catalog (map ent_account (gl_entries report)) full = Ok display"
      and loop: "rfold (general_ledger_csv_row md (gl_as_of report) full display) (sorted_entries report)
        general_ledger_header = Ok out"
    by (auto simp: general_ledger_csv_with_account_catalog_def outcome_simps)
  have out: "out = csv_rows_text (map Some general_ledger_columns
      # map (entry_cells md (gl_as_of report) full display) (sorted_entries report))"
    using general_ledger_loop [OF loop]
    by (simp add: csv_rows_text_concat general_ledger_header_row comp_def)
  have set: "set (sorted_entries report) = set (gl_entries report)"
    by (simp add: sorted_entries_def)
  have "\<forall>e \<in> set (sorted_entries report). entry_readable display from_day through e"
    using assms(3) validated_entries(1) [OF v]
      entry_label_not_blank [OF full [unfolded account_full_names_with_catalog_def]
        display [unfolded account_display_names_with_catalog_def]]
    unfolding set by (simp add: entry_readable_def entry_label_def)
  note rows = read_own_entries [OF this, of md "gl_as_of report" full "[]", unfolded append_Nil]
  have "decode_windows_1252 out = out" using assms(2) by (simp add: decode_windows_1252_def)
  moreover have "drop (gh_data_start own_gl_header) (general_ledger_columns # xs) = xs" for xs
    by (simp add: own_gl_header_def)
  ultimately have "parse_generated_general_ledger_csv out from_day through =
      (if map (read_entry display) (sorted_entries report) = [] then Err NoPostingRows
       else Ok (map (read_entry display) (sorted_entries report)))"
    unfolding parse_generated_general_ledger_csv_def
    by (simp only: out general_ledger_records own_gl_header_found map_err.simps rbind.simps rows)
  moreover have "sorted_entries report = [] \<longleftrightarrow> gl_entries report = []"
    using set by (metis set_empty)
  ultimately show thesis using that [OF full display] by simp
qed

end
