(* ===== verification/Report_Properties.thy ===== *)
theory Report_Properties
  imports General_Ledger_Reading Account_Sections Report_Json Example_Books
begin

text \<open>
  The properties of the command line tool's report encoders and of its reconciliation against
  native QuickBooks reports, each with its evaluation where it has a hypothesis.
\<close>

definition example_metadata :: report_metadata where
  "example_metadata =
     \<lparr>md_entity = ''co'', md_source_file = ''co.qbw'', md_parser_version = ''1'', md_generated_at = ''now'',
      md_policy = None\<rparr>"

definition example_report :: trial_balance where
  "example_report =
     (let bank = example_account ''bank'' ''Bank'' QB_Bank None;
          petty = example_account ''petty'' ''Petty, cash'' QB_Bank (Some (AccountId ''bank'')) in
      \<lparr>tb_as_of = 7,
       tb_rows = [\<lparr>row_account = petty, row_signed = 250, row_debit = Some 250, row_credit = None\<rparr>,
                  \<lparr>row_account = bank, row_signed = - 250, row_debit = None, row_credit = Some 250\<rparr>]\<rparr>)"

definition example_csv :: string where
  "example_csv = value_of (trial_balance_csv_with_account_catalog example_report example_metadata [])"

lemma example_csv_ok:
  "trial_balance_csv_with_account_catalog example_report example_metadata [] = Ok example_csv"
  unfolding example_csv_def by (rule is_ok_value) code_simp

lemma example_csv_utf8: "utf8_valid example_csv"
  by (rule utf8_valid_ascii) code_simp

lemma example_report_names:
  "\<forall>row \<in> set (tb_rows example_report). \<not> trim_is_empty (acc_name (row_account row))"
  by code_simp

lemma example_metadata_valid: "metadata_validate example_metadata = Ok ()"
  by code_simp

section \<open>Round trips of the encoders\<close>

text \<open>C14: Reading a table written by \<open>csv_row\<close> row by row, quotes, commas and line breaks in the
  cells included, gives the cells that were written; an absent cell reads as empty text.\<close>

theorem csv_reads_back:
  assumes "[] \<notin> set rows"
  shows "parse_csv_records (csv_rows_text rows) = Ok (map (map cell_text) rows)"
  by (rule parse_written_rows [OF assms])

lemma csv_reads_back_witness:
  "parse_csv_records (csv_rows_text [[Some ''a,b'', None], [Some [CHR 0x22, CHR 0x0A], Some ''c'']])
     = Ok [[''a,b'', ''''], [[CHR 0x22, CHR 0x0A], ''c'']]"
  using csv_reads_back [of "[[Some ''a,b'', None], [Some [CHR 0x22, CHR 0x0A], Some ''c'']]"]
  by (simp add: cell_text_def)

text \<open>\<open>json_string\<close> writes a quoted text that a reader of JSON strings takes back to the value,
  whatever bytes it holds, and leaves what follows it.\<close>

theorem json_text_reads_back:
  "\<exists>body. json_string out v = out @ CHR 0x22 # body \<and> read_json_text (body @ rest) = Some (v, rest)"
  by (rule json_string_reads_back)

section \<open>Account names\<close>

text \<open>C13: The walks behind the account names end on every chart: they never panic, they give names
  exactly when every account reaches a top-level account through its parents (a cycle or a missing
  parent is an error, not a loop), and the name of an account is then its path of names joined by
  colons from the top.\<close>

theorem account_names_decided:
  assumes "accounts_by_id as = Ok m"
  shows "account_full_names as \<noteq> Panic
    \<and> ((\<exists>names. account_full_names as = Ok names) \<longleftrightarrow> list_all (\<lambda>a. rooted m (acc_id a)) as)
    \<and> (case account_full_names as of
         Ok names \<Rightarrow> list_all (\<lambda>a. \<exists>ns. name_path m (acc_id a) ns
           \<and> bt_get names (acc_id a) = Some (full_name ns)) as
       | _ \<Rightarrow> True)"
proof -
  have path: "\<exists>ns. name_path m (acc_id a) ns \<and> bt_get names (acc_id a) = Some (full_name ns)"
    if "account_full_names as = Ok names" and "a \<in> set as" for names a
    using account_full_names_Ok [OF that(1) assms that(2)] .
  have "(\<exists>names. account_full_names as = Ok names) \<longleftrightarrow> list_all (\<lambda>a. rooted m (acc_id a)) as"
    using path account_full_names_total [OF assms]
    unfolding list_all_iff name_path_rooted [symmetric] by blast
  with path account_full_names_no_panic [OF assms] show ?thesis
    by (auto simp: list_all_iff split: outcome.split)
qed

definition example_chart :: "account list" where
  "example_chart = map row_account (tb_rows example_report)"

lemma example_chart_ok: "is_ok (accounts_by_id example_chart)"
  by code_simp

lemma account_names_decided_witness:
  "account_full_names example_chart \<noteq> Panic
    \<and> ((\<exists>names. account_full_names example_chart = Ok names)
       \<longleftrightarrow> list_all (\<lambda>a. rooted (value_of (accounts_by_id example_chart)) (acc_id a)) example_chart)"
  using account_names_decided [OF is_ok_value [OF example_chart_ok]] by blast

section \<open>Reports of a ledger\<close>

text \<open>C10: The encoders with a catalog do not refuse the reports of a ledger. For a ledger that
  \<open>Ledger::new\<close> made from a chart, valid metadata and this chart as the catalog, every Trial Balance of the ledger,
  plain or accrual, and every General Ledger is encoded both as CSV and as JSON. The encoders without a
  catalog are not covered: they refuse a report that omits the parent of one of its accounts.\<close>

theorem reports_always_render:
  assumes "ledger_new as ps c = Ok l" and "metadata_validate md = Ok ()"
  shows "(trial_balance_as_of l d options = Ok tb \<or> quickbooks_accrual_trial_balance_as_of l d options policy = Ok tb \<longrightarrow>
      (\<exists>out. trial_balance_csv_with_account_catalog tb md as = Ok out)
      \<and> (\<exists>out. trial_balance_json_with_account_catalog tb md as = Ok out))
    \<and> (general_ledger_as_of l d' = Ok gl \<longrightarrow>
      (\<exists>out. general_ledger_csv_with_account_catalog gl md as = Ok out)
      \<and> (\<exists>out. general_ledger_json_with_account_catalog gl md as = Ok out))"
  using trial_balance_rendered [OF assms(1) _ assms(2)] general_ledger_rendered [OF assms(1) _ assms(2)] by blast

lemma reports_always_render_witness:
  "(\<exists>out. trial_balance_csv_with_account_catalog
      (value_of (trial_balance_as_of example_books 200 example_options)) example_metadata example_accounts = Ok out)
   \<and> (\<exists>out. trial_balance_json_with_account_catalog
      (value_of (trial_balance_as_of example_books 200 example_options)) example_metadata example_accounts = Ok out)
   \<and> (\<exists>out. general_ledger_csv_with_account_catalog
      (value_of (general_ledger_as_of example_books 200)) example_metadata example_accounts = Ok out)
   \<and> (\<exists>out. general_ledger_json_with_account_catalog
      (value_of (general_ledger_as_of example_books 200)) example_metadata example_accounts = Ok out)"
  using reports_always_render [OF example_new example_metadata_valid, of 200 example_options _ _ 200]
    is_ok_value [OF example_trial_balance] is_ok_value [OF example_general_ledger] by blast

text \<open>C8: The Trial Balance CSV that the tool writes is read by its own parser as exactly the
  report: each account's label with its signed balance, in the order of the rows, and the totals
  read from it are the totals of the report.\<close>

theorem trial_balance_csv_reads_back:
  assumes "trial_balance_csv_with_account_catalog report md catalog = Ok out" and "utf8_valid out"
    and "\<forall>row \<in> set (tb_rows report). \<not> trim_is_empty (acc_name (row_account row))"
  shows "\<exists>full display.
      account_full_names_with_catalog catalog (map row_account (tb_rows report)) = Ok full
    \<and> account_display_names_with_catalog catalog (map row_account (tb_rows report)) full = Ok display
    \<and> parse_trial_balance_csv out =
        finish_balances (map (\<lambda>row. (read_label md display row, row_signed row)) (rows_by_account report))
    \<and> (case parse_trial_balance_csv out of
         Ok r \<Rightarrow> sint (nat_debits r) = total_debit_minor_units report
           \<and> sint (nat_credits r) = total_credit_minor_units report
       | _ \<Rightarrow> True)"
proof -
  obtain full display where names:
    "account_full_names_with_catalog catalog (map row_account (tb_rows report)) = Ok full"
    "account_display_names_with_catalog catalog (map row_account (tb_rows report)) full = Ok display"
    and parsed: "parse_trial_balance_csv out =
      finish_balances (map (\<lambda>row. (read_label md display row, row_signed row)) (rows_by_account report))"
    by (rule read_back_rows [OF assms])
  have "validate_trial_balance report = Ok ()"
    using assms(1) by (cases "validate_trial_balance report") (simp_all add: trial_balance_csv_with_account_catalog_def)
  then have "\<forall>row \<in> set (tb_rows report). display_matches_signed row"
    unfolding validate_trial_balance_Ok_iff by blast
  note totals = totals_of_display [OF this]
  have "case parse_trial_balance_csv out of
         Ok r \<Rightarrow> sint (nat_debits r) = total_debit_minor_units report
           \<and> sint (nat_credits r) = total_credit_minor_units report
       | _ \<Rightarrow> True"
    using read_totals [where label = "read_label md display" and rows = "rows_by_account report"]
    by (simp add: parsed totals split: outcome.split)
  with names parsed show ?thesis by blast
qed

lemma trial_balance_csv_reads_back_witness:
  "case parse_trial_balance_csv example_csv of
     Ok r \<Rightarrow> sint (nat_debits r) = total_debit_minor_units example_report
       \<and> sint (nat_credits r) = total_credit_minor_units example_report
   | _ \<Rightarrow> True"
  using trial_balance_csv_reads_back [OF example_csv_ok example_csv_utf8 example_report_names] by blast

text \<open>C9: The General Ledger CSV that the tool writes is read by its own parser as exactly the
  entries of the report, in the order of the file, each with its day, its account label, its
  amount and its type.\<close>

theorem general_ledger_csv_reads_back:
  assumes "general_ledger_csv_with_account_catalog report md catalog = Ok out" and "utf8_valid out"
    and "\<forall>e \<in> set (gl_entries report). \<not> trim_is_empty (acc_name (ent_account e))
      \<and> day_number (post_date (ent_posting e)) \<and> from_day \<le> post_date (ent_posting e)
      \<and> post_date (ent_posting e) \<le> through"
  shows "\<exists>full display.
      account_full_names_with_catalog catalog (map ent_account (gl_entries report)) = Ok full
    \<and> account_display_names_with_catalog catalog (map ent_account (gl_entries report)) full = Ok display
    \<and> parse_generated_general_ledger_csv out from_day through =
        (if gl_entries report = [] then Err NoPostingRows
         else Ok (map (read_entry display) (sorted_entries report)))"
  by (rule read_back_entries [OF assms]) blast

definition example_ledger_report :: general_ledger where
  "example_ledger_report =
     (let bank = example_account ''b'' ''B'' QB_Bank None in
      \<lparr>gl_as_of = 7,
       gl_entries = [\<lparr>ent_account = bank, ent_posting = example_posting ''t'' ''p'' ''b'' 5 7 Current\<rparr>,
                     \<lparr>ent_account = bank, ent_posting = example_posting ''t'' ''q'' ''b'' 5 (- 7) Current\<rparr>]\<rparr>)"

definition example_ledger_csv :: string where
  "example_ledger_csv =
     value_of (general_ledger_csv_with_account_catalog example_ledger_report example_metadata [])"

lemma example_ledger_csv_ok:
  "general_ledger_csv_with_account_catalog example_ledger_report example_metadata []
     = Ok example_ledger_csv"
  unfolding example_ledger_csv_def by (rule is_ok_value) code_simp

lemma example_ledger_csv_utf8: "utf8_valid example_ledger_csv"
  by (rule utf8_valid_ascii) code_simp

lemma example_ledger_readable:
  "\<forall>e \<in> set (gl_entries example_ledger_report). \<not> trim_is_empty (acc_name (ent_account e))
     \<and> day_number (post_date (ent_posting e)) \<and> 0 \<le> post_date (ent_posting e)
     \<and> post_date (ent_posting e) \<le> 7"
  by code_simp

lemma general_ledger_csv_reads_back_witness:
  "\<exists>full display.
      account_full_names_with_catalog [] (map ent_account (gl_entries example_ledger_report)) = Ok full
    \<and> account_display_names_with_catalog [] (map ent_account (gl_entries example_ledger_report)) full
        = Ok display
    \<and> parse_generated_general_ledger_csv example_ledger_csv 0 7 =
        (if gl_entries example_ledger_report = [] then Err NoPostingRows
         else Ok (map (read_entry display) (sorted_entries example_ledger_report)))"
  by (rule general_ledger_csv_reads_back [OF example_ledger_csv_ok example_ledger_csv_utf8 example_ledger_readable])

section \<open>Reconciliation\<close>

text \<open>C36: A balance read from any Trial Balance CSV is well formed: its accounts are sorted and
  distinct, none is nameless, no balance is the most negative \<open>i64\<close>, and its debits and credits
  are the sums of the positive and of the negated negative balances.\<close>

theorem parsed_balance_well_formed:
  assumes "parse_trial_balance_csv bytes = Ok r \<or> parse_quickbooks_trial_balance_csv bytes = Ok r"
  shows "native_ok r"
  using assms parse_trial_balance_ok by blast

definition example_native :: string where
  "example_native =
     '',Debit,Credit'' @ [CHR 0x0A] @ ''Bank,1.50,'' @ [CHR 0x0A] @ ''Sales,,1.50''"

lemma example_native_ok: "is_ok (parse_quickbooks_trial_balance_csv example_native)"
  by code_simp

lemma parsed_balance_well_formed_witness:
  "native_ok (value_of (parse_quickbooks_trial_balance_csv example_native))"
  by (rule parsed_balance_well_formed) (use is_ok_value [OF example_native_ok] in blast)

text \<open>C12: The reconciliation of two Trial Balances passes exactly when both hold the same balance
  for the same accounts and the native one is balanced.\<close>

theorem reconciliation_passes_exactly:
  assumes "from_balances xs = Ok r" and "from_balances ys = Ok a"
  shows "passes (reconcile_trial_balances r a) \<longleftrightarrow> nat_balances r = nat_balances a \<and> is_balanced r"
  by (rule passes_iff [OF from_balances_ok [OF assms(1)] from_balances_ok [OF assms(2)]])

definition example_reference :: "(string \<times> i64) list" where
  "example_reference = [(''a'', 5), (''b'', - 5)]"

definition example_actual :: "(string \<times> i64) list" where
  "example_actual = [(''a'', 5)]"

lemma example_balances_ok: "is_ok (from_balances example_reference)" "is_ok (from_balances example_actual)"
  by code_simp+

lemma reconciliation_passes_exactly_witness:
  "passes (reconcile_trial_balances (value_of (from_balances example_reference)) (value_of (from_balances example_actual)))
     \<longleftrightarrow> nat_balances (value_of (from_balances example_reference)) = nat_balances (value_of (from_balances example_actual))
       \<and> is_balanced (value_of (from_balances example_reference))"
  by (rule reconciliation_passes_exactly [OF is_ok_value is_ok_value]) (rule example_balances_ok)+

text \<open>C11: The reconciliation of two General Ledgers is multiset comparison of its keys: the
  matching, missing and extra counts are the sizes of the intersection and of the two differences,
  and it passes exactly when the multisets are equal.\<close>

theorem posting_multisets_compared:
  "glr_matching (reconcile_general_ledger_postings native generated)
       = int (size (native_keys native generated \<inter># generated_keys native generated))
   \<and> glr_missing (reconcile_general_ledger_postings native generated)
       = int (size (native_keys native generated - generated_keys native generated))
   \<and> glr_extra (reconcile_general_ledger_postings native generated)
       = int (size (generated_keys native generated - native_keys native generated))
   \<and> (passes_posting_multiset (reconcile_general_ledger_postings native generated)
       \<longleftrightarrow> native_keys native generated = generated_keys native generated)"
  by (simp add: reconcile_counts passes_multiset_iff)

text \<open>Resolving the account sections of a native General Ledger against the decoded chart only
  renames accounts: postings are neither dropped, added nor reordered, and each keeps its day, its
  amount, its type and its number.\<close>

theorem sections_only_renamed:
  assumes "resolve_native_account_sections_with_chart native decoded chart full display entries = Ok native'"
  shows "list_all2 same_posting native native'"
  by (rule resolve_sections_rename [OF assms])

definition example_section :: "native_posting list" where
  "example_section =
     [\<lparr>np_identity = \<lparr>gid_date = 50, gid_account = ''Banking:Bank'', gid_cents = 7\<rparr>, np_type = None, np_number = None\<rparr>]"

definition example_resolved :: "(general_ledger_error, native_posting list) outcome" where
  "example_resolved =
     resolve_native_account_sections_with_chart example_section [''Bank'']
       [example_account ''bank'' ''Bank'' QB_Bank None] [(AccountId ''bank'', ''Bank'')]
       [(AccountId ''bank'', ''Bank'')] []"

lemma example_resolved_ok: "is_ok example_resolved"
  by code_simp

lemma sections_only_renamed_witness:
  "list_all2 same_posting example_section (value_of example_resolved)"
  by (rule sections_only_renamed [OF is_ok_value [OF example_resolved_ok, unfolded example_resolved_def],
      folded example_resolved_def])

section \<open>Accounts taken for totals\<close>

text \<open>A native row for a real account whose name begins with \<open>Total\<close> and a blank is skipped as a
  total row, whatever its amount.\<close>

lemma total_prefixed_account_dropped:
  "native_row 0 1 2 [''Total Wine Sales'', '''', ''12.00''] balances = Ok balances"
proof -
  have "is_total_row (trim (cell [''Total Wine Sales'', '''', ''12.00''] 0))" by code_simp
  then show ?thesis by (simp add: native_row_def Let_def)
qed

end
