(* ===== verification/Row_Bytes.thy ===== *)
theory Row_Bytes
  imports Posting_Cents Posting_Date Text
begin

text \<open>
  What the decoders of materialized rows share: reads of a bounded row that panic outside it, the
  check of the declared length, dates and amounts read in place. The locale \<open>row_decoder\<close> is the
  contract of every such decoder: it never panics, and it accepts only rows whose declared length
  is their length. The row boundaries of a page are then determined by its bytes.
\<close>

named_theorems no_panic \<open>computations that do not panic\<close>

section \<open>Reads\<close>

text \<open>\<open>input[i]\<close>, \<open>input[i..j]\<close> and \<open>from_le_bytes\<close> of two or four bytes of the input.\<close>

definition byte_at :: "byte list \<Rightarrow> nat \<Rightarrow> ('e, u8) outcome" where
  "byte_at input i = or_panic (get_at input i)"

definition bytes_at :: "byte list \<Rightarrow> nat \<Rightarrow> nat \<Rightarrow> ('e, byte list) outcome" where
  "bytes_at input start stop = or_panic (get_range input start stop)"

definition u16_at :: "byte list \<Rightarrow> nat \<Rightarrow> ('e, u16) outcome" where
  "u16_at input offset = rbind (bytes_at input offset (offset + 2)) read_le"

definition u32_at :: "byte list \<Rightarrow> nat \<Rightarrow> ('e, u32) outcome" where
  "u32_at input offset = rbind (bytes_at input offset (offset + 4)) read_le"

definition le16 :: "byte list \<Rightarrow> nat \<Rightarrow> u16" where
  "le16 input offset = from_le_bytes (take 2 (drop offset input))"

definition le32 :: "byte list \<Rightarrow> nat \<Rightarrow> u32" where
  "le32 input offset = from_le_bytes (take 4 (drop offset input))"

lemma byte_at_eq: "byte_at input i = (if i < length input then Ok (input ! i) else Panic)"
  by (simp add: byte_at_def get_at_def or_panic_def)

lemma bytes_at_eq:
  "bytes_at input i j = (if i \<le> j \<and> j \<le> length input then Ok (take (j - i) (drop i input)) else Panic)"
  by (simp add: bytes_at_def get_range_def or_panic_def)

lemma u16_at_eq: "u16_at input i = (if i + 2 \<le> length input then Ok (le16 input i) else Panic)"
  by (simp add: u16_at_def bytes_at_eq read_le_def le16_def)

lemma u32_at_eq: "u32_at input i = (if i + 4 \<le> length input then Ok (le32 input i) else Panic)"
  by (simp add: u32_at_def bytes_at_eq read_le_def le32_def)

lemma reads_in_bounds [simp]:
  "i < length input \<Longrightarrow> byte_at input i = Ok (input ! i)"
  "i + 2 \<le> length input \<Longrightarrow> u16_at input i = Ok (le16 input i)"
  "i + 4 \<le> length input \<Longrightarrow> u32_at input i = Ok (le32 input i)"
  by (simp_all add: byte_at_eq u16_at_eq u32_at_eq)

section \<open>The declared length\<close>

definition declared_len :: "byte list \<Rightarrow> nat" where
  "declared_len input = unat (le16 input 0)"

text \<open>The first two checks of every decoder.\<close>

definition check_frame ::
    "nat \<Rightarrow> (nat \<Rightarrow> 'e) \<Rightarrow> (nat \<Rightarrow> nat \<Rightarrow> 'e) \<Rightarrow> byte list \<Rightarrow> ('e, unit) outcome" where
  "check_frame minimum too_short mismatch input =
     (if length input < minimum then Err (too_short (length input))
      else
        rbind (u16_at input 0) (\<lambda>declared.
          ensure (unat declared = length input) (mismatch (unat declared) (length input))))"

definition framed_row :: "byte list \<Rightarrow> bool" where
  "framed_row input \<longleftrightarrow> 2 \<le> length input \<and> declared_len input = length input"

lemma check_frame_Ok_iff:
  "2 \<le> minimum \<Longrightarrow> check_frame minimum too_short mismatch input = Ok u \<longleftrightarrow>
     minimum \<le> length input \<and> declared_len input = length input"
  by (auto simp: check_frame_def declared_len_def outcome_simps)

lemma check_frame_no_panic [no_panic]: "2 \<le> minimum \<Longrightarrow> check_frame minimum too_short mismatch input \<noteq> Panic"
  by (simp add: check_frame_def ensure_def)

lemma framed_row_prefix:
  assumes "framed_row x" and "framed_row y" and "x @ xs = y @ ys"
  shows "x = y"
proof -
  have "le16 x 0 = le16 (x @ xs) 0" and "le16 y 0 = le16 (y @ ys) 0"
    using assms(1,2) by (simp_all add: framed_row_def le16_def)
  then have "length x = length y"
    using assms by (simp add: framed_row_def declared_len_def)
  with assms(3) show ?thesis by simp
qed

theorem framed_rows_unique:
  assumes "list_all framed_row xs" and "list_all framed_row ys" and "concat xs = concat ys"
  shows "xs = ys"
  using assms
proof (induction xs arbitrary: ys)
  case Nil
  then show ?case by (cases ys) (auto simp: framed_row_def)
next
  case (Cons x xs)
  show ?case
  proof (cases ys)
    case Nil
    with Cons.prems show ?thesis by (auto simp: framed_row_def)
  next
    case (Cons y ys')
    with Cons.prems framed_row_prefix [of x y "concat xs" "concat ys'"] have "x = y" by simp
    with Cons.IH [of ys'] Cons.prems Cons show ?thesis by simp
  qed
qed

section \<open>Computations that do not panic\<close>

text \<open>Evaluation looks at the first computation before it looks at the rest.\<close>

lemma rbind_code [code_unfold]:
  "rbind r f = (case r of Ok a \<Rightarrow> f a | Err e \<Rightarrow> Err e | Panic \<Rightarrow> Panic)"
  by (cases r) simp_all

lemma rbind_no_panic [no_panic]:
  "r \<noteq> Panic \<Longrightarrow> (\<And>a. r = Ok a \<Longrightarrow> f a \<noteq> Panic) \<Longrightarrow> rbind r f \<noteq> Panic"
  by (cases r) simp_all

lemma atoms_no_panic [no_panic]:
  "Ok a \<noteq> Panic" "Err e \<noteq> Panic" "ensure b e \<noteq> Panic" "ok_or x e \<noteq> Panic"
  by (simp_all add: ensure_def ok_or_def split: option.split)

lemma map_err_no_panic [no_panic]: "r \<noteq> Panic \<Longrightarrow> map_err g r \<noteq> Panic"
  by (cases r) simp_all

lemma if_no_panic [no_panic]:
  "(b \<Longrightarrow> r \<noteq> Panic) \<Longrightarrow> (\<not> b \<Longrightarrow> s \<noteq> Panic) \<Longrightarrow> (if b then r else s) \<noteq> Panic"
  by simp

lemma cases_no_panic [no_panic]:
  "(\<And>x y. p = (x, y) \<Longrightarrow> f x y \<noteq> Panic) \<Longrightarrow> (case p of (x, y) \<Rightarrow> f x y) \<noteq> Panic"
  "(v = None \<Longrightarrow> r \<noteq> Panic) \<Longrightarrow> (\<And>a. v = Some a \<Longrightarrow> g a \<noteq> Panic) \<Longrightarrow>
     (case v of None \<Rightarrow> r | Some a \<Rightarrow> g a) \<noteq> Panic"
  "(xs = [] \<Longrightarrow> r \<noteq> Panic) \<Longrightarrow> (\<And>y ys. xs = y # ys \<Longrightarrow> h y ys \<noteq> Panic) \<Longrightarrow>
     (case xs of [] \<Rightarrow> r | y # ys \<Rightarrow> h y ys) \<noteq> Panic"
  "q \<noteq> Panic \<Longrightarrow> (\<And>a. q = Ok a \<Longrightarrow> h1 a \<noteq> Panic) \<Longrightarrow> (\<And>e. q = Err e \<Longrightarrow> h2 e \<noteq> Panic) \<Longrightarrow>
     (case q of Ok a \<Rightarrow> h1 a | Err e \<Rightarrow> h2 e | Panic \<Rightarrow> s) \<noteq> Panic"
  by (auto split: prod.split option.split list.split outcome.split)

lemma rfold_no_panic [no_panic]:
  "(\<And>x s. x \<in> set xs \<Longrightarrow> f x s \<noteq> Panic) \<Longrightarrow> rfold f xs s \<noteq> Panic"
proof (induction xs arbitrary: s)
  case (Cons x xs)
  then show ?case by (cases "f x s") auto
qed simp

lemma rmap_no_panic: "(\<And>x. x \<in> set xs \<Longrightarrow> f x \<noteq> Panic) \<Longrightarrow> rmap f xs \<noteq> Panic"
proof (induction xs)
  case (Cons x xs)
  then have "f x \<noteq> Panic" and "rmap f xs \<noteq> Panic" by simp_all
  then show ?case by (cases "f x"; cases "rmap f xs") simp_all
qed simp

lemma reads_no_panic [no_panic]:
  "i < length input \<Longrightarrow> byte_at input i \<noteq> Panic"
  "i + 2 \<le> length input \<Longrightarrow> u16_at input i \<noteq> Panic"
  "i + 4 \<le> length input \<Longrightarrow> u32_at input i \<noteq> Panic"
  by simp_all

lemma cents_parse_no_panic [no_panic]: "cents_parse input \<noteq> Panic"
  unfolding cents_parse_def Let_def
  by (intro no_panic cents_from_parts_no_panic)

lemma bytes_at_no_panic [no_panic]: "i \<le> j \<Longrightarrow> j \<le> length input \<Longrightarrow> bytes_at input i j \<noteq> Panic"
  by (simp add: bytes_at_eq)

section \<open>Dates in place\<close>

text \<open>\<open>MaterializedPostingDate::from_raw_bits\<close>, used only to refuse a row.\<close>

definition business_date ::
    "(i32 \<Rightarrow> int \<times> int \<times> int) \<Rightarrow> (i32 \<Rightarrow> i32) \<Rightarrow> (u32 \<Rightarrow> 'e) \<Rightarrow> u32 \<Rightarrow> ('e, unit) outcome" where
  "business_date sa_ymd sa_days invalid raw =
     rbind (map_err (\<lambda>_. invalid raw) (from_raw_bits sa_ymd sa_days raw)) (\<lambda>_. Ok ())"

lemma from_raw_minutes_no_panic: "from_raw_minutes sa_ymd sa_days r \<noteq> Panic"
  by (auto simp: from_raw_minutes_def Let_def outcome_simps validate_ymd_def days_since_sa_epoch_def
      split: prod.splits)

lemma from_raw_bits_no_panic: "from_raw_bits sa_ymd sa_days raw \<noteq> Panic"
  by (simp add: from_raw_bits_def posting_date_from_disk_bytes_def read_le_def from_raw_minutes_no_panic)

lemma business_date_no_panic [no_panic]: "business_date sa_ymd sa_days invalid raw \<noteq> Panic"
  unfolding business_date_def by (intro no_panic from_raw_bits_no_panic)

section \<open>Amounts in place\<close>

type_synonym amount = "i64 \<times> bool"

definition amount_of :: "posting_cents \<Rightarrow> amount" where
  "amount_of c = (signed_cents_value c, is_canonical_zero c)"

text \<open>The row holds these bytes at this offset.\<close>

definition holds_at :: "byte list \<Rightarrow> nat \<Rightarrow> byte list \<Rightarrow> bool" where
  "holds_at input offset token \<longleftrightarrow> get_range input offset (offset + length token) = Some token"

lemma holds_at_get_range: "get_range input i j = Some token \<Longrightarrow> holds_at input i token"
  by (auto simp: holds_at_def get_range_Some_iff)

text \<open>
  The attestation the decoders ask for: the amount is the value of a token that stands in the row
  twice, at two places that do not overlap.
\<close>

definition repeated_amount :: "byte list \<Rightarrow> amount \<Rightarrow> bool" where
  "repeated_amount input a \<longleftrightarrow>
     (\<exists>token c i j. cents_parse token = Ok c \<and> amount_of c = a \<and> i + length token \<le> j
        \<and> holds_at input i token \<and> holds_at input j token)"

lemma repeated_amountI:
  assumes "get_range input i i' = Some token" and "get_range input j j' = Some token" and "i' \<le> j"
    and "cents_parse token = Ok c" and "amount_of c = a"
  shows "repeated_amount input a"
proof -
  have "i + length token \<le> j" using assms(1,3) by (auto simp: get_range_Some_iff)
  then show ?thesis unfolding repeated_amount_def using assms holds_at_get_range by blast
qed

section \<open>The contract of a row decoder\<close>

locale row_decoder =
  fixes decode :: "byte list \<Rightarrow> ('e, 'r) outcome"
  assumes decode_no_panic: "decode input \<noteq> Panic"
    and decode_framed: "decode input = Ok r \<Longrightarrow> framed_row input"
begin

lemma rows_no_panic: "rmap decode rows \<noteq> Panic"
  by (rule rmap_no_panic) (rule decode_no_panic)

lemma rows_framed: "rmap decode rows = Ok rs \<Longrightarrow> list_all framed_row rows"
  by (induction rows arbitrary: rs) (auto simp: outcome_simps dest: decode_framed)

text \<open>Two pages with the same bytes that decode have the same rows.\<close>

lemma rows_unique:
  "rmap decode rows = Ok rs \<Longrightarrow> rmap decode rows' = Ok rs' \<Longrightarrow> concat rows = concat rows' \<Longrightarrow> rows = rows'"
  using framed_rows_unique rows_framed by blast

lemma no_longer_row: "decode x = Ok r \<Longrightarrow> decode (x @ y) = Ok s \<Longrightarrow> y = []"
  using framed_row_prefix [OF decode_framed decode_framed, of x r "x @ y" s y "[]"] by simp

end

text \<open>The two obligations, for a decoder that begins with \<open>check_frame\<close>.\<close>

lemma framed_by_check:
  "rbind (check_frame minimum too_short mismatch input) f = Ok r \<Longrightarrow> 2 \<le> minimum \<Longrightarrow> framed_row input"
  by (auto simp: rbind_Ok_iff check_frame_Ok_iff framed_row_def)

lemma frame_no_panic:
  "2 \<le> minimum \<Longrightarrow> (minimum \<le> length input \<Longrightarrow> declared_len input = length input \<Longrightarrow> f () \<noteq> Panic) \<Longrightarrow>
     rbind (check_frame minimum too_short mismatch input) f \<noteq> Panic"
  by (rule rbind_no_panic) (simp_all add: check_frame_Ok_iff check_frame_no_panic)

section \<open>Bytes as text\<close>

definition bytes_text :: "byte list \<Rightarrow> string" where
  "bytes_text bs = map (\<lambda>b. char_of (unat b)) bs"

definition ascii_bytes :: "byte list \<Rightarrow> bool" where
  "ascii_bytes bs \<longleftrightarrow> list_all (\<lambda>b. b < 0x80) bs"

text \<open>A word that is zero is an absent reference.\<close>

definition nonzero :: "u32 \<Rightarrow> u32 option" where
  "nonzero v = (if v = 0 then None else Some v)"

end
