(* ===== verification/Bill_Rows.thy ===== *)
theory Bill_Rows
  imports Row_Bytes
begin

text \<open>
  The Bill carriers: headers (\<open>crates/openqbw/src/materialized_bill_header.rs\<close>), lines
  (\<open>materialized_bill_posting.rs\<close>) and Bill-Payment-Check lines
  (\<open>materialized_bill_payment_check_posting.rs\<close>). Each decoder returns the error of the first check
  that fails, in the order of the code.
\<close>

section \<open>Bill headers\<close>

datatype bill_header_error =
    BillHeaderTooShort nat
  | BillHeaderLengthMismatch nat nat
  | BillHeaderFlags u8
  | BillHeaderRowClass u8
  | BillHeaderRowKind u8
  | BillHeaderMissingMaster

datatype bill_header_kind = OrdinaryBill | AlternateBill

record bill_header =
  bh_master :: u32
  bh_kind :: bill_header_kind

definition bill_header_kind_of :: "u8 \<Rightarrow> (bill_header_error, bill_header_kind) outcome" where
  "bill_header_kind_of b =
     (if b = 0xff then Ok OrdinaryBill else if b = 0xf7 then Ok AlternateBill else Err (BillHeaderRowKind b))"

definition bill_header_parse :: "byte list \<Rightarrow> (bill_header_error, bill_header) outcome" where
  "bill_header_parse input =
     rbind (check_frame 11 BillHeaderTooShort BillHeaderLengthMismatch input) (\<lambda>_.
     rbind (byte_at input 2) (\<lambda>flags.
     rbind (ensure (flags = 0x40) (BillHeaderFlags flags)) (\<lambda>_.
     rbind (byte_at input 3) (\<lambda>row_class.
     rbind (ensure (row_class = 0x02) (BillHeaderRowClass row_class)) (\<lambda>_.
     rbind (byte_at input 4) (\<lambda>kind.
     rbind (bill_header_kind_of kind) (\<lambda>kind.
     rbind (u32_at input 7) (\<lambda>master.
     rbind (ensure (master \<noteq> 0) BillHeaderMissingMaster) (\<lambda>_.
       Ok \<lparr>bh_master = master, bh_kind = kind\<rparr>)))))))))"

section \<open>Bill lines\<close>

datatype bill_posting_error =
    BillTooShort nat nat
  | BillLengthMismatch nat nat
  | BillFlags u8
  | BillRowClass u8
  | BillRowKind u8
  | BillTrailingSuffix
  | BillAmountOutsideSegment
  | BillZeroMarker u8
  | BillMarker u8
  | BillDigit u8
  | BillOverflow
  | BillAmbiguousTrailingAmount
  | BillMissingReference

datatype bill_transaction_kind = Bill | VendorCredit

record bill_posting =
  bp_target :: u32
  bp_master :: u32
  bp_account :: u32
  bp_date_raw :: u32
  bp_view_type :: u16
  bp_signed_cents :: i64
  bp_canonical_zero :: bool

text \<open>
  One turn of the scan over digit counts: a token that ends at the fixed boundary is a candidate if
  its count byte agrees and it decodes.
\<close>

definition trailing_candidate ::
    "byte list \<Rightarrow> nat \<Rightarrow> nat \<Rightarrow> (nat \<times> amount) list \<Rightarrow> ('e, (nat \<times> amount) list) outcome" where
  "trailing_candidate input amount_end digits candidates =
     (if amount_end < digits + 2 then Ok candidates
      else
        let start = amount_end - (digits + 2) in
        rbind (byte_at input start) (\<lambda>b.
        if b \<noteq> word_of_nat digits then Ok candidates
        else
          rbind (bytes_at input start amount_end) (\<lambda>token.
          case cents_parse token of
            Ok c \<Rightarrow> Ok (candidates @ [(start, amount_of c)])
          | Err _ \<Rightarrow> Ok candidates
          | Panic \<Rightarrow> Panic)))"

text \<open>The test that keeps a candidate repeated five bytes before itself.\<close>

definition repeated_before :: "byte list \<Rightarrow> nat \<Rightarrow> nat \<Rightarrow> bool" where
  "repeated_before input amount_end start =
     (let len = amount_end - start in
      len + 5 \<le> start
      \<and> take len (drop (start - len - 5) input) = take len (drop start input))"

definition parse_trailing_amount :: "byte list \<Rightarrow> nat \<Rightarrow> (bill_posting_error, amount) outcome" where
  "parse_trailing_amount input amount_end =
     rbind (rfold (trailing_candidate input amount_end) [0..<5] []) (\<lambda>candidates.
       case candidates of
         [] \<Rightarrow> Err BillAmountOutsideSegment
       | c # _ \<Rightarrow>
           if length (remdups (map snd candidates)) = 1 then Ok (snd c)
           else
             (case filter (\<lambda>(start, _). repeated_before input amount_end start) candidates of
                [(_, v)] \<Rightarrow> Ok v
              | _ \<Rightarrow> Err BillAmbiguousTrailingAmount))"

definition bill_posting_parse :: "byte list \<Rightarrow> (bill_posting_error, bill_posting) outcome" where
  "bill_posting_parse input =
     rbind (check_frame 41 (\<lambda>n. BillTooShort n 41) BillLengthMismatch input) (\<lambda>_.
     rbind (byte_at input 2) (\<lambda>flags.
     rbind (ensure (flags = 0x40) (BillFlags flags)) (\<lambda>_.
     rbind (byte_at input 3) (\<lambda>row_class.
     rbind (ensure (row_class = 0x02) (BillRowClass row_class)) (\<lambda>_.
     rbind (byte_at input 4) (\<lambda>kind.
     rbind (ensure (kind = 0xe4) (BillRowKind kind)) (\<lambda>_.
     rbind (ensure (drop (length input - 5) input = [0, 0, 0, 0, 0x81]) BillTrailingSuffix) (\<lambda>_.
     rbind (ensure (8 \<le> length input) BillAmountOutsideSegment) (\<lambda>_.
     rbind (parse_trailing_amount input (length input - 8)) (\<lambda>(cents, zero).
     rbind (u32_at input 0x0c) (\<lambda>target.
     rbind (u32_at input 0x10) (\<lambda>master.
     rbind (u32_at input 0x14) (\<lambda>account.
     rbind (ensure (\<not> (target = 0 \<or> master = 0 \<or> account = 0)) BillMissingReference) (\<lambda>_.
     rbind (u32_at input 0x18) (\<lambda>date_raw.
     rbind (u16_at input 0x1c) (\<lambda>view_type.
       Ok \<lparr>bp_target = target, bp_master = master, bp_account = account, bp_date_raw = date_raw,
           bp_view_type = view_type, bp_signed_cents = cents, bp_canonical_zero = zero\<rparr>))))))))))))))))"

definition bill_transaction_kind_of :: "bill_posting \<Rightarrow> bill_transaction_kind option" where
  "bill_transaction_kind_of r =
     (if bp_view_type r = 9 then Some Bill else if bp_view_type r = 12 then Some VendorCredit else None)"

section \<open>Bill-Payment-Check lines\<close>

datatype bill_payment_error =
    PaymentTooShort nat nat
  | PaymentLengthMismatch nat nat
  | PaymentFlags u8
  | PaymentRowClass u8
  | PaymentZeroReference string
  | PaymentLinkShape u32 u32
  | PaymentAmountOutsideSegment
  | PaymentAmountMarker u8
  | PaymentInvalidSharedAmount
  | PaymentTrailingOutsideSegment
  | PaymentTrailingMismatch
  | PaymentTrailingSuffix

datatype bill_payment_shape = PaymentLinked u32 | PaymentTerminal | PaymentCompactTerminal

record bill_payment =
  pay_link_prefix :: "byte list"
  pay_target :: u32
  pay_master :: u32
  pay_account :: u32
  pay_date_raw :: u32
  pay_view_type :: u16
  pay_target_type :: u32
  pay_status :: u16
  pay_link_kind :: u32
  pay_shape :: bill_payment_shape
  pay_source_account :: u32
  pay_signed_cents :: i64
  pay_canonical_zero :: bool

definition require_nonzero :: "string \<Rightarrow> u32 \<Rightarrow> (bill_payment_error, unit) outcome" where
  "require_nonzero field v = ensure (v \<noteq> 0) (PaymentZeroReference field)"

definition ascii_alphanumeric_byte :: "u8 \<Rightarrow> bool" where
  "ascii_alphanumeric_byte b \<longleftrightarrow>
     0x30 \<le> b \<and> b \<le> 0x39 \<or> 0x41 \<le> b \<and> b \<le> 0x5a \<or> 0x61 \<le> b \<and> b \<le> 0x7a"

definition is_compact_terminal :: "byte list \<Rightarrow> bool" where
  "is_compact_terminal input \<longleftrightarrow>
     get_at input 41 = Some 0x10
     \<and> (case get_range input 42 58 of Some v \<Rightarrow> list_all ascii_alphanumeric_byte v | None \<Rightarrow> False)"

text \<open>\<open>parse_amount_at\<close>: the token bytes and their value.\<close>

definition parse_amount_at :: "byte list \<Rightarrow> nat \<Rightarrow> (bill_payment_error, byte list \<times> posting_cents) outcome" where
  "parse_amount_at input offset =
     rbind (ok_or (get_at input (offset + 1)) PaymentAmountOutsideSegment) (\<lambda>marker.
     rbind (ok_or (get_at input offset) PaymentAmountOutsideSegment) (\<lambda>digits.
     rbind (ok_or (get_range input offset (offset + 2 + unat digits)) PaymentAmountOutsideSegment) (\<lambda>bytes.
     if digits \<noteq> 0 \<and> \<not> (0x3f \<le> marker AND 0x7f \<and> marker AND 0x7f \<le> 0x42)
     then Err (PaymentAmountMarker marker)
     else
       rbind (map_err (\<lambda>_. PaymentInvalidSharedAmount) (cents_parse bytes)) (\<lambda>amount.
         Ok (bytes, amount)))))"

definition payment_layout ::
    "byte list \<Rightarrow> u32 \<Rightarrow> u32 \<Rightarrow> (bill_payment_error, bill_payment_shape \<times> u32 \<times> nat \<times> byte list) outcome" where
  "payment_layout input first_link second_link =
     (if first_link \<noteq> 0 \<and> is_compact_terminal input then
        Ok (PaymentCompactTerminal, first_link, 86, [0, 0, 1, 0, 0, 0])
      else if first_link \<noteq> 0 \<and> second_link \<noteq> 0 then
        Ok (PaymentLinked first_link, second_link, 90, [0, 0, 0, 0, 0, 0])
      else if first_link = 0 \<and> second_link \<noteq> 0 then
        Ok (PaymentTerminal, second_link, 94, [0, 0, 1, 0, 0, 0])
      else Err (PaymentLinkShape first_link second_link))"

definition bill_payment_parse :: "byte list \<Rightarrow> (bill_payment_error, bill_payment) outcome" where
  "bill_payment_parse input =
     rbind (check_frame 45 (\<lambda>n. PaymentTooShort n 45) PaymentLengthMismatch input) (\<lambda>_.
     rbind (byte_at input 2) (\<lambda>flags.
     rbind (ensure (flags = 0x40) (PaymentFlags flags)) (\<lambda>_.
     rbind (byte_at input 3) (\<lambda>row_class.
     rbind (ensure (row_class = 1) (PaymentRowClass row_class)) (\<lambda>_.
     rbind (u32_at input 9) (\<lambda>target.
     rbind (u32_at input 13) (\<lambda>master.
     rbind (u32_at input 17) (\<lambda>account.
     rbind (require_nonzero ''target'' target) (\<lambda>_.
     rbind (require_nonzero ''master'' master) (\<lambda>_.
     rbind (require_nonzero ''account'' account) (\<lambda>_.
     rbind (u32_at input 37) (\<lambda>first_link.
     rbind (u32_at input 41) (\<lambda>second_link.
     rbind (payment_layout input first_link second_link) (\<lambda>(shape, source, amount_offset, suffix).
     rbind (require_nonzero ''source account'' source) (\<lambda>_.
     rbind (parse_amount_at input amount_offset) (\<lambda>(bytes, amount).
     rbind (ensure (length bytes + 6 \<le> length input) PaymentTrailingOutsideSegment) (\<lambda>_.
     let trailing_start = length input - (length bytes + 6); trailing_end = trailing_start + length bytes in
     rbind (ensure (get_range input trailing_start trailing_end = Some bytes) PaymentTrailingMismatch) (\<lambda>_.
     rbind (ensure (drop trailing_end input = suffix) PaymentTrailingSuffix) (\<lambda>_.
     rbind (bytes_at input 3 9) (\<lambda>prefix.
     rbind (u32_at input 21) (\<lambda>date_raw.
     rbind (u16_at input 25) (\<lambda>view_type.
     rbind (u32_at input 27) (\<lambda>target_type.
     rbind (u16_at input 31) (\<lambda>status.
     rbind (u32_at input 33) (\<lambda>link_kind.
       Ok \<lparr>pay_link_prefix = prefix, pay_target = target, pay_master = master, pay_account = account,
           pay_date_raw = date_raw, pay_view_type = view_type, pay_target_type = target_type,
           pay_status = status, pay_link_kind = link_kind, pay_shape = shape,
           pay_source_account = source, pay_signed_cents = signed_cents_value amount,
           pay_canonical_zero = is_canonical_zero amount\<rparr>)))))))))))))))))))))))))"

section \<open>The decoders meet the contract\<close>

lemma trailing_candidate_no_panic [no_panic]:
  "amount_end \<le> length input \<Longrightarrow> trailing_candidate input amount_end digits cs \<noteq> Panic"
  unfolding trailing_candidate_def Let_def by (intro no_panic) auto

lemma parse_trailing_amount_no_panic [no_panic]:
  "amount_end \<le> length input \<Longrightarrow> parse_trailing_amount input amount_end \<noteq> Panic"
  unfolding parse_trailing_amount_def by (intro no_panic)

lemma parse_amount_at_no_panic [no_panic]: "parse_amount_at input offset \<noteq> Panic"
  unfolding parse_amount_at_def by (intro no_panic)

lemma payment_parts_no_panic [no_panic]:
  "payment_layout input l1 l2 \<noteq> Panic" "require_nonzero field v \<noteq> Panic" "bill_header_kind_of b \<noteq> Panic"
  by (simp_all add: payment_layout_def require_nonzero_def bill_header_kind_of_def no_panic)

interpretation bill_header: row_decoder bill_header_parse
proof
  show "bill_header_parse input \<noteq> Panic" for input
    unfolding bill_header_parse_def
    by (rule frame_no_panic, simp) (intro no_panic; simp)
qed (unfold bill_header_parse_def, erule framed_by_check, simp)

interpretation bill_posting: row_decoder bill_posting_parse
proof
  show "bill_posting_parse input \<noteq> Panic" for input
    unfolding bill_posting_parse_def
    by (rule frame_no_panic, simp) (intro no_panic; simp)
qed (unfold bill_posting_parse_def, erule framed_by_check, simp)

interpretation bill_payment: row_decoder bill_payment_parse
proof
  show "bill_payment_parse input \<noteq> Panic" for input
    unfolding bill_payment_parse_def Let_def
    by (rule frame_no_panic, simp) (intro no_panic; simp)
qed (unfold bill_payment_parse_def, erule framed_by_check, simp)

end
