(* ===== verification/Check_Rows.thy ===== *)
theory Check_Rows
  imports Row_Bytes
begin

text \<open>
  The Check carriers: posting targets (\<open>crates/openqbw/src/materialized_check_posting.rs\<close>), whose
  amount must be attested either by a token that ends the row or by one of the known envelopes of
  repeated tokens, and the void companions (\<open>materialized_check_void_companion.rs\<close>).
\<close>

section \<open>Check posting targets\<close>

datatype check_shape = CheckLinked u32 | CheckTerminal

datatype check_error =
    CheckTooShort nat nat
  | CheckLengthMismatch nat nat
  | CheckFlags u8
  | CheckKind u8
  | CheckAmountOutsideSegment nat nat
  | CheckZeroMarker u8
  | CheckMarker u8
  | CheckDigit u8
  | CheckOverflow
  | CheckUnattestedEnvelope nat
  | CheckMissingSourceAccount check_shape
  | CheckMissingReference

record check_row =
  cp_target :: u32
  cp_master :: u32
  cp_account :: u32
  cp_date_raw :: u32
  cp_view_type :: u16
  cp_shape :: check_shape
  cp_source_account :: u32
  cp_edit_sequence :: u32
  cp_signed_cents :: i64
  cp_canonical_zero :: bool

text \<open>The \<open>map_err\<close> of \<open>decode_amount\<close>.\<close>

definition check_amount_error :: "nat \<Rightarrow> posting_cents_error \<Rightarrow> check_error" where
  "check_amount_error segment_len e =
     (case e of
        TokenTooShort _ \<Rightarrow> CheckAmountOutsideSegment 0 segment_len
      | DigitsOutsideToken digits _ \<Rightarrow> CheckAmountOutsideSegment digits segment_len
      | UnsupportedZeroMarker marker \<Rightarrow> CheckZeroMarker marker
      | UnsupportedMarker marker \<Rightarrow> CheckMarker marker
      | InvalidBase100Digit digit \<Rightarrow> CheckDigit digit
      | CentsOverflow \<Rightarrow> CheckOverflow)"

definition check_decode_amount :: "byte list \<Rightarrow> nat \<Rightarrow> (check_error, amount) outcome" where
  "check_decode_amount input segment_len =
     rbind (map_err (check_amount_error segment_len) (cents_parse input)) (\<lambda>c. Ok (amount_of c))"

text \<open>\<open>decode_amount(..).ok()\<close>: these calls cannot panic.\<close>

definition check_amount_opt :: "byte list \<Rightarrow> nat \<Rightarrow> amount option" where
  "check_amount_opt input segment_len =
     (case check_decode_amount input segment_len of Ok a \<Rightarrow> Some a | _ \<Rightarrow> None)"

definition bounded_amount_token :: "byte list \<Rightarrow> nat \<Rightarrow> byte list option" where
  "bounded_amount_token input offset =
     (case get_at input offset of
        None \<Rightarrow> None
      | Some digits \<Rightarrow>
          let token_len = unat digits + 2 in
          if 2 \<le> token_len \<and> token_len \<le> 6 then get_range input offset (offset + token_len) else None)"

text \<open>\<open>saw_signature\<close> and \<open>decoded\<close>, the two locals that the collectors update.\<close>

type_synonym tail_state = "bool \<times> amount list"

definition collect_triplicate_tail_amount ::
    "byte list \<Rightarrow> nat \<Rightarrow> nat option \<Rightarrow> tail_state \<Rightarrow> tail_state" where
  "collect_triplicate_tail_amount input prefix_offset required_len st =
     (case st of (saw, decoded) \<Rightarrow>
      if (case required_len of Some n \<Rightarrow> length input \<noteq> n | None \<Rightarrow> False) then st
      else
        (case bounded_amount_token input prefix_offset of
           None \<Rightarrow> st
         | Some token \<Rightarrow>
             (case check_amount_opt token (length input) of
                None \<Rightarrow> st
              | Some amount \<Rightarrow>
                  let token_len = length token in
                  if length input < token_len + 7 then (True, decoded)
                  else
                    let second_start = length input - (token_len + 7) in
                    if second_start < token_len + 5 then (True, decoded)
                    else
                      let first_start = second_start - (token_len + 5) in
                      if first_start < prefix_offset + token_len
                         \<or> get_range input first_start (first_start + token_len) \<noteq> Some token
                         \<or> get_range input second_start (second_start + token_len) \<noteq> Some token
                      then (True, decoded)
                      else (True, decoded @ [amount]))))"

definition collect_quadruplicate_tail_amount :: "byte list \<Rightarrow> nat \<Rightarrow> tail_state \<Rightarrow> tail_state" where
  "collect_quadruplicate_tail_amount input prefix_offset st =
     (case st of (saw, decoded) \<Rightarrow>
        (case bounded_amount_token input prefix_offset of
           None \<Rightarrow> st
         | Some token \<Rightarrow>
             (case check_amount_opt token (length input) of
                None \<Rightarrow> st
              | Some amount \<Rightarrow>
                  let token_len = length token in
                  if length input < token_len + 7 then (True, decoded)
                  else
                    let third_start = length input - (token_len + 7) in
                    if third_start < token_len + 5 then (True, decoded)
                    else
                      let second_start = third_start - (token_len + 5) in
                      if second_start < token_len then (True, decoded)
                      else
                        let first_start = second_start - token_len in
                        if first_start < prefix_offset + token_len
                           \<or> get_range input first_start (first_start + token_len) \<noteq> Some token
                           \<or> get_range input second_start (second_start + token_len) \<noteq> Some token
                           \<or> get_range input third_start (third_start + token_len) \<noteq> Some token
                        then (True, decoded)
                        else (True, decoded @ [amount]))))"

text \<open>One turn over the table of pair grammars: does it apply, token length, prefix offsets.\<close>

definition pair_grammar :: "byte list \<Rightarrow> bool \<times> nat \<times> nat list \<Rightarrow> tail_state \<Rightarrow> tail_state" where
  "pair_grammar input g st =
     (case g of (length_matches, token_len, prefix_offsets) \<Rightarrow>
      case st of (saw, decoded) \<Rightarrow>
      if \<not> length_matches \<or> get_at input (hd prefix_offsets) \<noteq> Some (word_of_nat (token_len - 2)) then st
      else if length input < token_len + 7 then (True, decoded)
      else
        let second_start = length input - (token_len + 7) in
        if second_start < token_len + 5 then (True, decoded)
        else
          let first_start = second_start - (token_len + 5) in
          (case (get_range input first_start (first_start + token_len),
                 get_range input second_start (second_start + token_len)) of
             (Some first, Some second) \<Rightarrow>
               if first \<noteq> second \<or> unat (first ! 0) + 2 \<noteq> token_len
                  \<or> list_ex (\<lambda>offset. get_range input offset (offset + token_len) \<noteq> Some first) prefix_offsets
               then (True, decoded)
               else
                 (case check_amount_opt first (length input) of
                    Some amount \<Rightarrow> (True, decoded @ [amount])
                  | None \<Rightarrow> (True, decoded))
           | _ \<Rightarrow> (True, decoded)))"

definition pair_grammars :: "byte list \<Rightarrow> (bool \<times> nat \<times> nat list) list" where
  "pair_grammars input =
     [(length input \<in> {209, 216, 217}, 2, [107, 126]), (True, 6, [115])]"

definition zero_carrier_215 :: "byte list \<Rightarrow> tail_state \<Rightarrow> tail_state" where
  "zero_carrier_215 input st =
     (if length input = 215
         \<and> get_range input 106 108 = Some [0, 0x81] \<and> get_range input 125 127 = Some [0, 0x81]
         \<and> get_range input 199 201 = Some [0, 0x81] \<and> get_range input 206 208 = Some [0, 0x81]
      then (True, snd st @ [(0, True)]) else st)"

datatype repeated_tail_amount = TailNotApplicable | TailDecoded amount | TailMalformed

definition tail_collected :: "byte list \<Rightarrow> tail_state" where
  "tail_collected input =
     (let st = (False, []);
          st = (if 196 \<le> length input then collect_triplicate_tail_amount input 109 None st else st);
          st = collect_quadruplicate_tail_amount input 79 st;
          st = collect_triplicate_tail_amount input 125 (Some 218) st;
          st = collect_quadruplicate_tail_amount input 83 st;
          st = fold (pair_grammar input) (pair_grammars input) st in
      zero_carrier_215 input st)"

definition decode_repeated_tail_amount :: "byte list \<Rightarrow> repeated_tail_amount" where
  "decode_repeated_tail_amount input =
     (case tail_collected input of (saw, decoded) \<Rightarrow>
        case decoded of
          [amount] \<Rightarrow> TailDecoded amount
        | [] \<Rightarrow> if saw then TailMalformed else TailNotApplicable
        | _ \<Rightarrow> TailMalformed)"

text \<open>The fixed 0x90-byte envelope: one of two copies, if the other one agrees.\<close>

definition envelope_candidate :: "byte list \<Rightarrow> nat \<Rightarrow> amount option" where
  "envelope_candidate input candidate_offset =
     (case get_at input candidate_offset of
        None \<Rightarrow> None
      | Some digits \<Rightarrow>
          let token_len = 2 + unat digits in
          (case get_range input candidate_offset (candidate_offset + token_len) of
             None \<Rightarrow> None
           | Some token \<Rightarrow>
               (case check_amount_opt token (length input) of
                  None \<Rightarrow> None
                | Some decoded \<Rightarrow>
                    let other = (if candidate_offset = 0x6d then 0x80 else 0x6d) in
                    if get_range input other (other + token_len) = Some token then Some decoded else None)))"

definition direct_is_exact :: "byte list \<Rightarrow> nat \<Rightarrow> byte list \<Rightarrow> bool" where
  "direct_is_exact input offset amount \<longleftrightarrow>
     (case amount of [] \<Rightarrow> False | digits # _ \<Rightarrow> offset + (unat digits + 2) = length input)"

definition decode_other_envelopes :: "byte list \<Rightarrow> check_error \<Rightarrow> (check_error, amount) outcome" where
  "decode_other_envelopes input primary_error =
     (case decode_repeated_tail_amount input of
        TailDecoded decoded \<Rightarrow> Ok decoded
      | TailMalformed \<Rightarrow> Err primary_error
      | TailNotApplicable \<Rightarrow>
          if length input \<noteq> 0x90 then Err primary_error
          else
            (case List.map_filter (envelope_candidate input) [0x6d, 0x80] of
               decoded # candidates \<Rightarrow>
                 if list_all (\<lambda>c. c = decoded) (decoded # candidates) then Ok decoded else Err primary_error
             | [] \<Rightarrow> Err primary_error))"

text \<open>Both arms on the shape read \<open>input.get(offset..)\<close>.\<close>

definition decode_shape_amount :: "byte list \<Rightarrow> nat \<Rightarrow> (check_error, amount) outcome" where
  "decode_shape_amount input offset =
     rbind (ok_or (get_range input offset (length input)) (CheckAmountOutsideSegment 0 (length input))) (\<lambda>amount.
       case check_decode_amount amount (length input) of
         Ok decoded \<Rightarrow>
           if direct_is_exact input offset amount then Ok decoded
           else decode_other_envelopes input (CheckUnattestedEnvelope (length input))
       | Err e \<Rightarrow> decode_other_envelopes input e
       | Panic \<Rightarrow> Panic)"

definition check_layout :: "u32 \<Rightarrow> u32 \<Rightarrow> check_shape \<times> u32 \<times> nat" where
  "check_layout next_target source_account =
     (if source_account \<noteq> 0 then (CheckLinked next_target, source_account, 0x32)
      else (CheckTerminal, next_target, 0x2e))"

definition check_posting_parse :: "byte list \<Rightarrow> (check_error, check_row) outcome" where
  "check_posting_parse input =
     rbind (check_frame 0x55 (\<lambda>n. CheckTooShort n 0x55) CheckLengthMismatch input) (\<lambda>_.
     rbind (byte_at input 2) (\<lambda>flags.
     rbind (ensure (flags = 0) (CheckFlags flags)) (\<lambda>_.
     rbind (byte_at input 3) (\<lambda>kind.
     rbind (ensure (kind = 0xe4) (CheckKind kind)) (\<lambda>_.
     rbind (u32_at input 0x22) (\<lambda>source_account.
     rbind (u32_at input 0x1e) (\<lambda>next_target.
     case check_layout next_target source_account of (shape, source, edit_offset) \<Rightarrow>
     rbind (ensure (source \<noteq> 0) (CheckMissingSourceAccount shape)) (\<lambda>_.
     rbind (u32_at input 0x0c) (\<lambda>target.
     rbind (u32_at input 0x10) (\<lambda>master.
     rbind (u32_at input 0x14) (\<lambda>account.
     rbind (ensure (\<not> (target = 0 \<or> master = 0 \<or> account = 0)) CheckMissingReference) (\<lambda>_.
     rbind (decode_shape_amount input 0x53) (\<lambda>(cents, zero).
     rbind (u32_at input 0x18) (\<lambda>date_raw.
     rbind (u16_at input 0x1c) (\<lambda>view_type.
     rbind (u32_at input edit_offset) (\<lambda>edit_sequence.
       Ok \<lparr>cp_target = target, cp_master = master, cp_account = account, cp_date_raw = date_raw,
           cp_view_type = view_type, cp_shape = shape, cp_source_account = source,
           cp_edit_sequence = edit_sequence, cp_signed_cents = cents, cp_canonical_zero = zero\<rparr>))))))))))))))))"

section \<open>Void companions\<close>

datatype void_companion_error =
    VoidLengthMismatch nat
  | VoidDeclaredMismatch nat
  | VoidFlags u8
  | VoidKind u8
  | VoidZeroReference
  | VoidZeroRowCount u8
  | VoidNonzeroPostings u32

record void_companion =
  vc_target :: u32
  vc_master :: u32
  vc_envelope_len :: nat

definition void_companion_parse :: "byte list \<Rightarrow> (void_companion_error, void_companion) outcome" where
  "void_companion_parse input =
     rbind (ensure (length input \<in> {185, 212, 220, 219, 222, 223}) (VoidLengthMismatch (length input))) (\<lambda>_.
     rbind (u16_at input 0) (\<lambda>declared.
     rbind (ensure (unat declared = length input) (VoidDeclaredMismatch (unat declared))) (\<lambda>_.
     rbind (byte_at input 2) (\<lambda>flags.
     rbind (ensure (flags = 0) (VoidFlags flags)) (\<lambda>_.
     rbind (byte_at input 3) (\<lambda>kind.
     rbind (ensure (kind = 0x64) (VoidKind kind)) (\<lambda>_.
     rbind (u32_at input 0x0c) (\<lambda>target.
     rbind (u32_at input 0x10) (\<lambda>master.
     rbind (ensure (\<not> (target = 0 \<or> master = 0)) VoidZeroReference) (\<lambda>_.
       Ok \<lparr>vc_target = target, vc_master = master, vc_envelope_len = length input\<rparr>))))))))))"

definition is_long_envelope :: "void_companion \<Rightarrow> bool" where
  "is_long_envelope c \<longleftrightarrow> vc_envelope_len c \<noteq> 185"

record void_evidence =
  canonical_zero_e4_row_count :: u8
  nonzero_posting_row_count :: u32

datatype void_classification = VoidCompanionCarrier

definition classify_void_companion ::
    "void_companion \<Rightarrow> void_evidence \<Rightarrow> (void_companion_error, void_classification) outcome" where
  "classify_void_companion carrier evidence =
     (if canonical_zero_e4_row_count evidence \<noteq> 2
      then Err (VoidZeroRowCount (canonical_zero_e4_row_count evidence))
      else if nonzero_posting_row_count evidence \<noteq> 0
      then Err (VoidNonzeroPostings (nonzero_posting_row_count evidence))
      else Ok VoidCompanionCarrier)"

section \<open>The decoders meet the contract\<close>

lemma check_decode_amount_no_panic [no_panic]: "check_decode_amount input n \<noteq> Panic"
  unfolding check_decode_amount_def by (intro no_panic)

lemma decode_other_envelopes_no_panic [no_panic]: "decode_other_envelopes input e \<noteq> Panic"
  by (simp add: decode_other_envelopes_def split: repeated_tail_amount.split list.split)

lemma decode_shape_amount_no_panic [no_panic]: "decode_shape_amount input offset \<noteq> Panic"
  unfolding decode_shape_amount_def by (intro no_panic)

lemma check_layout_offset: "check_layout next source = (shape, s, e) \<Longrightarrow> e + 4 \<le> 0x55"
  by (auto simp: check_layout_def split: if_splits)

interpretation check_posting: row_decoder check_posting_parse
proof
  show "check_posting_parse input \<noteq> Panic" for input
    unfolding check_posting_parse_def
    by (rule frame_no_panic, simp) (intro no_panic; use check_layout_offset in fastforce)
qed (unfold check_posting_parse_def, erule framed_by_check, simp)

interpretation void_companion: row_decoder void_companion_parse
proof
  show "void_companion_parse input \<noteq> Panic" for input
    unfolding void_companion_parse_def by (intro no_panic) (auto simp: ensure_def split: if_splits)
  show "framed_row input" if "void_companion_parse input = Ok r" for input r
    using that by (auto simp: void_companion_parse_def outcome_simps framed_row_def declared_len_def u16_at_eq)
qed

section \<open>Every accepted amount is attested\<close>

definition tail_attested :: "byte list \<Rightarrow> tail_state \<Rightarrow> bool" where
  "tail_attested input st \<longleftrightarrow> list_all (repeated_amount input) (snd st)"

lemma check_amount_opt_Some:
  "check_amount_opt token n = Some a \<longleftrightarrow> (\<exists>c. cents_parse token = Ok c \<and> amount_of c = a)"
  by (auto simp: check_amount_opt_def check_decode_amount_def outcome_simps split: outcome.splits)

lemma collect_triplicate_attested:
  "tail_attested input st \<Longrightarrow> tail_attested input (collect_triplicate_tail_amount input offset len st)"
  by (auto simp: collect_triplicate_tail_amount_def tail_attested_def Let_def check_amount_opt_Some
      split: prod.split option.splits)
    (rule repeated_amountI, assumption, assumption, linarith, assumption, assumption)+

lemma collect_quadruplicate_attested:
  "tail_attested input st \<Longrightarrow> tail_attested input (collect_quadruplicate_tail_amount input offset st)"
  by (auto simp: collect_quadruplicate_tail_amount_def tail_attested_def Let_def check_amount_opt_Some
      split: prod.split option.splits)
    (rule repeated_amountI, assumption, assumption, linarith, assumption, assumption)

lemma pair_grammar_attested:
  "tail_attested input st \<Longrightarrow> tail_attested input (pair_grammar input g st)"
  by (auto simp: pair_grammar_def tail_attested_def Let_def check_amount_opt_Some
      split: prod.split option.splits)
    (rule repeated_amountI, assumption, assumption, linarith, assumption, assumption)

lemma zero_carrier_attested: "tail_attested input st \<Longrightarrow> tail_attested input (zero_carrier_215 input st)"
proof -
  have "repeated_amount input (0, True)"
    if "get_range input 106 108 = Some [0, 0x81]" and "get_range input 125 127 = Some [0, 0x81]"
    by (rule repeated_amountI [OF that, where c = cents_canonical_zero])
      (simp_all add: cents_parse_def cents_canonical_zero_def amount_of_def)
  then show "tail_attested input st \<Longrightarrow> tail_attested input (zero_carrier_215 input st)"
    by (simp add: tail_attested_def zero_carrier_215_def)
qed

lemma tail_collected_attested: "tail_attested input (tail_collected input)"
proof -
  have "tail_attested input (False, [])" by (simp add: tail_attested_def)
  moreover have "tail_attested input (fold (pair_grammar input) gs st)" if "tail_attested input st" for gs st
    using that by (induction gs arbitrary: st) (simp_all add: pair_grammar_attested)
  ultimately show ?thesis
    unfolding tail_collected_def Let_def
    by (simp add: collect_triplicate_attested collect_quadruplicate_attested zero_carrier_attested)
qed

lemma decode_repeated_tail_attested:
  "decode_repeated_tail_amount input = TailDecoded a \<Longrightarrow> repeated_amount input a"
  using tail_collected_attested [of input]
  by (auto simp: decode_repeated_tail_amount_def tail_attested_def split: prod.splits list.splits if_splits)

lemma envelope_candidate_attested:
  assumes "length input = 0x90" and "offset \<in> {0x6d, 0x80}" and "envelope_candidate input offset = Some a"
  shows "repeated_amount input a"
proof -
  obtain token where t: "holds_at input 0x6d token" "holds_at input 0x80 token"
    and a: "check_amount_opt token (length input) = Some a"
    using assms(2,3)
    by (auto simp: envelope_candidate_def Let_def dest!: holds_at_get_range split: option.splits if_splits)
  from t(2) assms(1) have "0x6d + length token \<le> 0x80"
    by (simp add: holds_at_def get_range_Some_iff)
  with t a show ?thesis
    unfolding holds_at_def check_amount_opt_Some using repeated_amountI by blast
qed

lemma decode_other_envelopes_attested:
  assumes "decode_other_envelopes input e = Ok a"
  shows "repeated_amount input a"
proof (cases "decode_repeated_tail_amount input")
  case (TailDecoded b)
  with assms decode_repeated_tail_attested show ?thesis by (simp add: decode_other_envelopes_def)
next
  case TailNotApplicable
  with assms have n: "length input = 0x90" and c: "a \<in> set (List.map_filter (envelope_candidate input) [0x6d, 0x80])"
    by (auto simp: decode_other_envelopes_def split: if_splits list.splits)
  from c obtain offset where "offset \<in> {0x6d, 0x80}" and "envelope_candidate input offset = Some a"
    by (auto simp: List.map_filter_def split: if_splits)
  with n show ?thesis by (rule envelope_candidate_attested)
qed (use assms in \<open>simp add: decode_other_envelopes_def\<close>)

text \<open>The other way to attest an amount: its token ends the row.\<close>

definition final_amount :: "byte list \<Rightarrow> nat \<Rightarrow> amount \<Rightarrow> bool" where
  "final_amount input offset a \<longleftrightarrow>
     (\<exists>token c. cents_parse token = Ok c \<and> amount_of c = a \<and> token = drop offset input
        \<and> token \<noteq> [] \<and> length token = unat (token ! 0) + 2)"

lemma decode_shape_amount_attested:
  assumes "decode_shape_amount input offset = Ok a"
  shows "final_amount input offset a \<or> repeated_amount input a"
proof -
  obtain amount where amount: "get_range input offset (length input) = Some amount"
    and step: "(case check_decode_amount amount (length input) of
         Ok decoded \<Rightarrow>
           if direct_is_exact input offset amount then Ok decoded
           else decode_other_envelopes input (CheckUnattestedEnvelope (length input))
       | Err e \<Rightarrow> decode_other_envelopes input e
       | Panic \<Rightarrow> Panic) = Ok a"
    using assms by (auto simp: decode_shape_amount_def outcome_simps)
  show ?thesis
  proof (cases "direct_is_exact input offset amount \<and> check_decode_amount amount (length input) = Ok a")
    case True
    then obtain c where "cents_parse amount = Ok c" and "amount_of c = a"
      by (auto simp: check_decode_amount_def outcome_simps)
    moreover have "amount = drop offset input" using amount by (auto simp: get_range_Some_iff)
    ultimately show ?thesis
      using True unfolding final_amount_def direct_is_exact_def by (auto split: list.splits)
  next
    case False
    with step decode_other_envelopes_attested show ?thesis by (auto split: outcome.splits if_splits)
  qed
qed

lemma check_posting_attested:
  "check_posting_parse input = Ok r \<Longrightarrow>
     (let a = (cp_signed_cents r, cp_canonical_zero r) in final_amount input 0x53 a \<or> repeated_amount input a)"
  using decode_shape_amount_attested [of input "0x53"]
  by (auto simp: check_posting_parse_def outcome_simps case_prod_beta Let_def)

end
