(* ===== verification/Deposit_Rows.thy ===== *)
theory Deposit_Rows
  imports Row_Bytes
begin

text \<open>
  The Deposit carriers of \<open>crates/openqbw/src/materialized_deposit_posting.rs\<close>: source rows with
  their amount at a fixed offset, and counterpart rows whose amount is the only token that ends
  five bytes before the end of the row.
\<close>

datatype deposit_error =
    DepositMissingReference string
  | DepositAmbiguousTail nat
  | DepositTooShort nat nat
  | DepositLengthMismatch nat nat
  | DepositFlags u8
  | DepositKind u8
  | DepositAmountOutsideSegment nat nat
  | DepositZeroMarker u8
  | DepositMarker u8
  | DepositDigit u8
  | DepositOverflow
  | DepositTrailingAmountData nat nat

definition ensure_minimum :: "byte list \<Rightarrow> nat \<Rightarrow> (deposit_error, unit) outcome" where
  "ensure_minimum input minimum = ensure (minimum \<le> length input) (DepositTooShort (length input) minimum)"

definition require_reference :: "u32 \<Rightarrow> string \<Rightarrow> (deposit_error, unit) outcome" where
  "require_reference v field = ensure (v \<noteq> 0) (DepositMissingReference field)"

definition deposit_amount_error :: "nat \<Rightarrow> posting_cents_error \<Rightarrow> deposit_error" where
  "deposit_amount_error segment_len e =
     (case e of
        TokenTooShort _ \<Rightarrow> DepositAmountOutsideSegment 0 segment_len
      | DigitsOutsideToken digits _ \<Rightarrow> DepositAmountOutsideSegment digits segment_len
      | UnsupportedZeroMarker marker \<Rightarrow> DepositZeroMarker marker
      | UnsupportedMarker marker \<Rightarrow> DepositMarker marker
      | InvalidBase100Digit digit \<Rightarrow> DepositDigit digit
      | CentsOverflow \<Rightarrow> DepositOverflow)"

definition deposit_decode_amount :: "byte list \<Rightarrow> nat \<Rightarrow> (deposit_error, amount) outcome" where
  "deposit_decode_amount input amount_offset =
     (let segment_len = length input + amount_offset in
      rbind (ok_or (get_at input 0) (DepositAmountOutsideSegment 0 segment_len)) (\<lambda>digits.
      let token_len = unat digits + 2 in
      if length input < token_len then Err (DepositAmountOutsideSegment (unat digits) segment_len)
      else if token_len < length input then
        Err (DepositTrailingAmountData (amount_offset + token_len) segment_len)
      else
        rbind (map_err (deposit_amount_error segment_len) (cents_parse input)) (\<lambda>c. Ok (amount_of c))))"

section \<open>Counterpart rows\<close>

record deposit_counterpart =
  dc_master :: u32
  dc_account :: u32
  dc_date_raw :: u32
  dc_kind :: u8
  dc_signed_cents :: i64
  dc_canonical_zero :: bool

definition counterpart_account_offset :: "u8 \<Rightarrow> (deposit_error, nat) outcome" where
  "counterpart_account_offset kind =
     (if kind = 0xf0 then Ok 0x1e else if kind = 0xf1 then Ok 0x22 else Err (DepositKind kind))"

text \<open>One digit count of the \<open>filter_map\<close>.\<close>

definition counterpart_candidate :: "byte list \<Rightarrow> nat \<Rightarrow> nat \<Rightarrow> amount list \<Rightarrow> (deposit_error, amount list) outcome" where
  "counterpart_candidate input suffix_start digits candidates =
     (if suffix_start < digits + 2 then Ok candidates
      else
        let start = suffix_start - (digits + 2) in
        rbind (byte_at input start) (\<lambda>b.
        if b \<noteq> word_of_nat digits then Ok candidates
        else
          rbind (bytes_at input start suffix_start) (\<lambda>token.
          case deposit_decode_amount token start of
            Ok a \<Rightarrow> Ok (candidates @ [a])
          | Err _ \<Rightarrow> Ok candidates
          | Panic \<Rightarrow> Panic)))"

definition deposit_counterpart_parse :: "byte list \<Rightarrow> (deposit_error, deposit_counterpart) outcome" where
  "deposit_counterpart_parse input =
     rbind (check_frame 4 (\<lambda>n. DepositTooShort n 4) DepositLengthMismatch input) (\<lambda>_.
     rbind (byte_at input 2) (\<lambda>flags.
     rbind (ensure (flags = 0) (DepositFlags flags)) (\<lambda>_.
     rbind (byte_at input 3) (\<lambda>kind.
     rbind (counterpart_account_offset kind) (\<lambda>account_offset.
     rbind (ensure_minimum input (account_offset + 4 + 5 + 2)) (\<lambda>_.
     let suffix_start = length input - 5 in
     rbind (u32_at input 0x0c) (\<lambda>master.
     rbind (require_reference master ''master'') (\<lambda>_.
     rbind (u32_at input account_offset) (\<lambda>account.
     rbind (require_reference account ''account'') (\<lambda>_.
     rbind (rfold (counterpart_candidate input suffix_start) [4, 3, 2, 1, 0] []) (\<lambda>candidates.
     rbind (case candidates of
              [candidate] \<Rightarrow> Ok candidate
            | [] \<Rightarrow> Err (DepositAmountOutsideSegment 0 (length input))
            | _ \<Rightarrow> Err (DepositAmbiguousTail (length candidates))) (\<lambda>(cents, zero).
     rbind (u32_at input 0x14) (\<lambda>date_raw.
       Ok \<lparr>dc_master = master, dc_account = account, dc_date_raw = date_raw, dc_kind = kind,
           dc_signed_cents = cents, dc_canonical_zero = zero\<rparr>)))))))))))))"

section \<open>Source rows\<close>

record deposit_posting =
  dp_target :: u32
  dp_master :: u32
  dp_account :: u32
  dp_date_raw :: u32
  dp_view_type :: u16
  dp_next_target :: "u32 option"
  dp_source_account :: u32
  dp_signed_cents :: i64
  dp_canonical_zero :: bool

text \<open>Next target, source account and offset of the amount, by row kind.\<close>

definition deposit_layout :: "byte list \<Rightarrow> u8 \<Rightarrow> (deposit_error, u32 option \<times> u32 \<times> nat) outcome" where
  "deposit_layout input kind =
     (if kind = 0xe1 then
        rbind (ensure_minimum input (0x32 + 2)) (\<lambda>_.
        rbind (u32_at input 0x1a) (\<lambda>link.
        rbind (u32_at input 0x1e) (\<lambda>source.
          Ok (nonzero link, source, 0x32))))
      else if kind = 0xe0 then
        rbind (ensure_minimum input (0x2e + 2)) (\<lambda>_.
        rbind (u32_at input 0x1a) (\<lambda>source.
          Ok (None, source, 0x2e)))
      else Err (DepositKind kind))"

definition deposit_posting_parse :: "byte list \<Rightarrow> (deposit_error, deposit_posting) outcome" where
  "deposit_posting_parse input =
     rbind (check_frame 4 (\<lambda>n. DepositTooShort n 4) DepositLengthMismatch input) (\<lambda>_.
     rbind (byte_at input 2) (\<lambda>flags.
     rbind (ensure (flags = 0) (DepositFlags flags)) (\<lambda>_.
     rbind (ensure_minimum input (0x18 + 2)) (\<lambda>_.
     rbind (u32_at input 0x08) (\<lambda>target.
     rbind (require_reference target ''target'') (\<lambda>_.
     rbind (u32_at input 0x0c) (\<lambda>master.
     rbind (require_reference master ''master'') (\<lambda>_.
     rbind (u32_at input 0x10) (\<lambda>account.
     rbind (require_reference account ''account'') (\<lambda>_.
     rbind (byte_at input 3) (\<lambda>kind.
     rbind (deposit_layout input kind) (\<lambda>(next_target, source, amount_offset).
     rbind (require_reference source ''source account'') (\<lambda>_.
     rbind (case next_target of Some n \<Rightarrow> require_reference n ''next target'' | None \<Rightarrow> Ok ()) (\<lambda>_.
     rbind (bytes_at input amount_offset (length input)) (\<lambda>field.
     rbind (deposit_decode_amount field amount_offset) (\<lambda>(cents, zero).
     rbind (u32_at input 0x14) (\<lambda>date_raw.
     rbind (u16_at input 0x18) (\<lambda>view_type.
       Ok \<lparr>dp_target = target, dp_master = master, dp_account = account, dp_date_raw = date_raw,
           dp_view_type = view_type, dp_next_target = next_target, dp_source_account = source,
           dp_signed_cents = cents, dp_canonical_zero = zero\<rparr>))))))))))))))))))"

section \<open>The decoders meet the contract\<close>

lemma deposit_parts_no_panic [no_panic]:
  "ensure_minimum input n \<noteq> Panic" "require_reference v f \<noteq> Panic" "counterpart_account_offset k \<noteq> Panic"
  by (simp_all add: ensure_minimum_def require_reference_def counterpart_account_offset_def no_panic)

lemma deposit_decode_amount_no_panic [no_panic]: "deposit_decode_amount input n \<noteq> Panic"
  unfolding deposit_decode_amount_def Let_def by (intro no_panic)

lemma counterpart_candidate_no_panic [no_panic]:
  "suffix_start \<le> length input \<Longrightarrow> counterpart_candidate input suffix_start digits cs \<noteq> Panic"
  unfolding counterpart_candidate_def Let_def by (intro no_panic) auto

lemma ensure_minimum_Ok: "ensure_minimum input n = Ok u \<longleftrightarrow> n \<le> length input"
  by (simp add: ensure_minimum_def ensure_iff)

lemma counterpart_offset_Ok: "counterpart_account_offset k = Ok off \<Longrightarrow> off = 0x1e \<or> off = 0x22"
  by (auto simp: counterpart_account_offset_def split: if_splits)

lemma deposit_layout_no_panic [no_panic]: "0x1a \<le> length input \<Longrightarrow> deposit_layout input kind \<noteq> Panic"
  unfolding deposit_layout_def by (intro no_panic) (auto simp: ensure_minimum_Ok)

lemma deposit_layout_bound: "deposit_layout input kind = Ok (n, s, off) \<Longrightarrow> off \<le> length input"
  by (auto simp: deposit_layout_def outcome_simps ensure_minimum_Ok split: if_splits)

interpretation deposit_counterpart: row_decoder deposit_counterpart_parse
proof
  show "deposit_counterpart_parse input \<noteq> Panic" for input
    unfolding deposit_counterpart_parse_def Let_def
    by (rule frame_no_panic, simp) (intro no_panic; use counterpart_offset_Ok in \<open>fastforce simp: ensure_minimum_Ok\<close>)
qed (unfold deposit_counterpart_parse_def, erule framed_by_check, simp)

interpretation deposit_posting: row_decoder deposit_posting_parse
proof
  show "deposit_posting_parse input \<noteq> Panic" for input
    unfolding deposit_posting_parse_def
    by (rule frame_no_panic, simp) (intro no_panic; use deposit_layout_bound in \<open>fastforce simp: ensure_minimum_Ok\<close>)
qed (unfold deposit_posting_parse_def, erule framed_by_check, simp)

end
