(* ===== verification/Account_Row.thy ===== *)
theory Account_Row
  imports Row_Bytes
begin

text \<open>
  The Account rows of \<open>crates/openqbw/src/materialized_account.rs\<close> and the transaction masters of
  \<open>materialized_transaction_master.rs\<close>: rows with length-prefixed texts.
\<close>

section \<open>Account rows\<close>

datatype materialized_account_type =
    MA_Bank | MA_OtherCurrentAsset | MA_CreditCard | MA_OtherCurrentLiability | MA_Expense | MA_OtherIncome
  | MA_Uncalibrated u8

definition account_type_code :: "materialized_account_type \<Rightarrow> u8" where
  "account_type_code t =
     (case t of MA_Bank \<Rightarrow> 0 | MA_OtherCurrentAsset \<Rightarrow> 2 | MA_CreditCard \<Rightarrow> 6
      | MA_OtherCurrentLiability \<Rightarrow> 7 | MA_Expense \<Rightarrow> 12 | MA_OtherIncome \<Rightarrow> 13 | MA_Uncalibrated c \<Rightarrow> c)"

definition account_type_parse :: "u8 \<Rightarrow> materialized_account_type" where
  "account_type_parse code =
     (if code = 0 then MA_Bank else if code = 2 then MA_OtherCurrentAsset
      else if code = 6 then MA_CreditCard else if code = 7 then MA_OtherCurrentLiability
      else if code = 12 then MA_Expense else if code = 13 then MA_OtherIncome else MA_Uncalibrated code)"

datatype suffix_state = SuffixOmitted | SuffixParsed | SuffixOpaque

datatype account_row_error =
    AccountTooShort nat nat
  | AccountLengthMismatch nat nat
  | AccountKind u8
  | AccountNameOutsideSegment nat nat
  | AccountNameNotAscii
  | AccountTypeOutsideSegment nat nat
  | AccountTrailingOutsideSegment string nat nat
  | AccountTrailingNotAscii string

record materialized_account_row =
  ar_raw :: "byte list"
  ar_kind :: u8
  ar_record_number :: u32
  ar_created :: u32
  ar_modified :: u32
  ar_name :: string
  ar_type :: materialized_account_type
  ar_type_offset :: nat
  ar_metadata :: u32
  ar_suffix_state :: suffix_state
  ar_number :: "string option"
  ar_description :: "string option"

text \<open>ASCII bytes are valid UTF-8, so the inner \<open>from_utf8\<close> cannot fail.\<close>

definition optional_ascii_field :: "byte list \<Rightarrow> nat \<Rightarrow> nat \<Rightarrow> string option option" where
  "optional_ascii_field input start stop =
     (case get_range input start stop of
        None \<Rightarrow> None
      | Some bytes \<Rightarrow>
          if bytes = [] then Some None
          else if ascii_bytes bytes then Some (Some (bytes_text bytes)) else None)"

definition parse_adjacent_ascii_fields ::
    "byte list \<Rightarrow> nat \<Rightarrow> suffix_state \<times> string option \<times> string option" where
  "parse_adjacent_ascii_fields input first_length_offset =
     (case get_at input first_length_offset of
        None \<Rightarrow> (SuffixOmitted, None, None)
      | Some first_len \<Rightarrow>
          let first_start = first_length_offset + 1; first_end = first_start + unat first_len in
          (case optional_ascii_field input first_start first_end of
             None \<Rightarrow> (SuffixOpaque, None, None)
           | Some first \<Rightarrow>
               (case get_at input first_end of
                  None \<Rightarrow> (SuffixParsed, first, None)
                | Some second_len \<Rightarrow>
                    let second_start = first_end + 1; second_end = second_start + unat second_len in
                    (case optional_ascii_field input second_start second_end of
                       None \<Rightarrow> (SuffixOpaque, None, None)
                     | Some second \<Rightarrow> (SuffixParsed, first, second)))))"

definition account_row_parse :: "byte list \<Rightarrow> (account_row_error, materialized_account_row) outcome" where
  "account_row_parse input =
     rbind (check_frame 0x25 (\<lambda>n. AccountTooShort n 0x25) AccountLengthMismatch input) (\<lambda>_.
     rbind (byte_at input 2) (\<lambda>kind.
     rbind (ensure (kind = 0x40) (AccountKind kind)) (\<lambda>_.
     rbind (byte_at input 0x24) (\<lambda>name_len_byte.
     let name_length = unat name_len_byte; name_end = 0x25 + name_length in
     rbind (ok_or (get_range input 0x25 name_end) (AccountNameOutsideSegment name_length (length input))) (\<lambda>name_bytes.
     rbind (ensure (ascii_bytes name_bytes) AccountNameNotAscii) (\<lambda>_.
     let type_offset = 0x40 + name_length in
     rbind (ok_or (get_at input type_offset) (AccountTypeOutsideSegment type_offset (length input))) (\<lambda>type_code.
     let metadata_offset = type_offset + 1 in
     rbind (ok_or (get_range input metadata_offset (metadata_offset + 4))
              (AccountTrailingOutsideSegment ''post-type metadata'' metadata_offset (length input))) (\<lambda>metadata_bytes.
     rbind (read_le metadata_bytes) (\<lambda>metadata.
     case parse_adjacent_ascii_fields input (type_offset + 5) of (state, number, description) \<Rightarrow>
     rbind (u32_at input 0x08) (\<lambda>record_number.
     rbind (u32_at input 0x1c) (\<lambda>created.
     rbind (u32_at input 0x20) (\<lambda>modified.
       Ok \<lparr>ar_raw = input, ar_kind = kind, ar_record_number = record_number, ar_created = created,
           ar_modified = modified, ar_name = bytes_text name_bytes, ar_type = account_type_parse type_code,
           ar_type_offset = type_offset, ar_metadata = metadata, ar_suffix_state = state,
           ar_number = number, ar_description = description\<rparr>))))))))))))"

text \<open>The slices between the name and the type byte and after it; both index the raw row.\<close>

definition opaque_between_name_and_type :: "materialized_account_row \<Rightarrow> ('e, byte list) outcome" where
  "opaque_between_name_and_type r = bytes_at (ar_raw r) (0x25 + length (ar_name r)) (ar_type_offset r)"

definition opaque_trailing :: "materialized_account_row \<Rightarrow> ('e, byte list) outcome" where
  "opaque_trailing r = bytes_at (ar_raw r) (ar_type_offset r + 1) (length (ar_raw r))"

text \<open>\<open>{:X}\<close> of a number.\<close>

definition hex_upper_digit :: "nat \<Rightarrow> char" where
  "hex_upper_digit d = char_of (if d < 10 then 48 + d else 55 + d)"

fun hex_upper :: "nat \<Rightarrow> string" where
  "hex_upper n = (if n < 16 then [hex_upper_digit n] else hex_upper (n div 16) @ [hex_upper_digit (n mod 16)])"

declare hex_upper.simps [simp del]

definition format_ordinary_account_list_id :: "u32 \<Rightarrow> u32 \<Rightarrow> string" where
  "format_ordinary_account_list_id record_number created =
     hex_upper (unat (record_number OR 0x80000000)) @ ''-'' @ int_to_string (uint created)"

definition ordinary_list_id :: "materialized_account_row \<Rightarrow> string" where
  "ordinary_list_id r = format_ordinary_account_list_id (ar_record_number r) (ar_created r)"

section \<open>Transaction masters\<close>

datatype master_row_error =
    MasterTooShort nat nat
  | MasterLengthMismatch nat nat
  | MasterFlags u8
  | MasterKind u8
  | MasterFieldOutOfBounds string nat nat nat
  | MasterDocumentNotUtf8

record master_row =
  mr_declared_len :: nat
  mr_flags :: u8
  mr_kind :: u8
  mr_record_number :: u32
  mr_adjacent_number :: u32
  mr_opaque_type :: u16
  mr_opaque_token :: "byte list option"
  mr_document_reference :: "string option"
  mr_void_memo :: "string option"

definition parse_optional_bytes ::
    "byte list \<Rightarrow> nat \<Rightarrow> string \<Rightarrow> (master_row_error, byte list option) outcome" where
  "parse_optional_bytes input offset field =
     (case get_at input offset of
        None \<Rightarrow> Ok None
      | Some len \<Rightarrow>
          let start = offset + 1; stop = start + unat len in
          rbind (ok_or (get_range input start stop)
                   (MasterFieldOutOfBounds field offset (unat len) (length input))) (\<lambda>bytes.
            Ok (if bytes = [] then None else Some bytes)))"

definition parse_optional_bytes_if_bounded :: "byte list \<Rightarrow> nat \<Rightarrow> byte list option" where
  "parse_optional_bytes_if_bounded input offset =
     (case get_at input offset of
        None \<Rightarrow> None
      | Some len \<Rightarrow>
          (case get_range input (offset + 1) (offset + 1 + unat len) of
             None \<Rightarrow> None
           | Some bytes \<Rightarrow> if bytes = [] then None else Some bytes))"

definition document_text :: "byte list option \<Rightarrow> (master_row_error, string option) outcome" where
  "document_text bytes =
     (case bytes of
        None \<Rightarrow> Ok None
      | Some b \<Rightarrow> if utf8_valid (bytes_text b) then Ok (Some (bytes_text b)) else Err MasterDocumentNotUtf8)"

definition void_memo_witness :: "byte list \<Rightarrow> string option" where
  "void_memo_witness input =
     (case parse_optional_bytes_if_bounded input 0x83 of
        None \<Rightarrow> None
      | Some b \<Rightarrow>
          if utf8_valid (bytes_text b) \<and> starts_with ''VOID: '' (bytes_text b)
          then Some (bytes_text b) else None)"

definition master_row_parse :: "byte list \<Rightarrow> (master_row_error, master_row) outcome" where
  "master_row_parse input =
     rbind (check_frame 0x16 (\<lambda>n. MasterTooShort n 0x16) MasterLengthMismatch input) (\<lambda>_.
     rbind (byte_at input 2) (\<lambda>flags.
     rbind (ensure (flags = 0x40) (MasterFlags flags)) (\<lambda>_.
     rbind (byte_at input 3) (\<lambda>kind.
     rbind (ensure (kind = 0x02) (MasterKind kind)) (\<lambda>_.
     rbind (parse_optional_bytes input 0x16 ''opaque token'') (\<lambda>token.
     rbind (parse_optional_bytes input 0x37 ''document/reference'') (\<lambda>document.
     rbind (document_text document) (\<lambda>document.
     rbind (u32_at input 8) (\<lambda>record_number.
     rbind (u32_at input 12) (\<lambda>adjacent.
     rbind (u16_at input 20) (\<lambda>opaque_type.
       Ok \<lparr>mr_declared_len = length input, mr_flags = flags, mr_kind = kind, mr_record_number = record_number,
           mr_adjacent_number = adjacent, mr_opaque_type = opaque_type, mr_opaque_token = token,
           mr_document_reference = document, mr_void_memo = void_memo_witness input\<rparr>)))))))))))"

section \<open>The decoders meet the contract\<close>

lemma master_parts_no_panic [no_panic]:
  "parse_optional_bytes input offset field \<noteq> Panic" "document_text b \<noteq> Panic"
  unfolding parse_optional_bytes_def document_text_def Let_def by (intro no_panic)+

interpretation master_row: row_decoder master_row_parse
proof
  show "master_row_parse input \<noteq> Panic" for input
    unfolding master_row_parse_def
    by (rule frame_no_panic, simp) (intro no_panic; simp)
qed (unfold master_row_parse_def, erule framed_by_check, simp)

lemma read_le_u32_no_panic [no_panic]: "length bs = 4 \<Longrightarrow> (read_le bs :: ('e, u32) outcome) \<noteq> Panic"
  by (simp add: read_le_def)

interpretation account_row: row_decoder account_row_parse
proof
  show "account_row_parse input \<noteq> Panic" for input
    unfolding account_row_parse_def Let_def
    by (rule frame_no_panic, simp) (intro no_panic; auto simp: ok_or_iff dest!: length_get_range)
qed (unfold account_row_parse_def, erule framed_by_check, simp)

text \<open>The accessors of an accepted row do not panic.\<close>

lemma account_row_slices:
  assumes "account_row_parse input = Ok r"
  shows "opaque_between_name_and_type r \<noteq> Panic" and "opaque_trailing r \<noteq> Panic"
proof -
  have "ar_raw r = input" "ar_type_offset r = 0x40 + length (ar_name r)" "ar_type_offset r < length input"
    using assms
    by (auto simp: account_row_parse_def outcome_simps Let_def case_prod_beta bytes_text_def get_at_def
        dest: length_get_range split: if_splits)
  then show "opaque_between_name_and_type r \<noteq> Panic" and "opaque_trailing r \<noteq> Panic"
    by (simp_all add: opaque_between_name_and_type_def opaque_trailing_def bytes_at_eq)
qed

end
