(* ===== verification/Journal_Rows.thy ===== *)
theory Journal_Rows
  imports Row_Bytes
begin

unbundle bit_operations_syntax

text \<open>
  The General Journal carriers of \<open>crates/openqbw/src/materialized_general_journal_posting.rs\<close>, row
  by row: the controlled source and target rows, and the production grammar, whose amount is one
  bounded token near a family-specific offset with a later copy in the same row. The calendar of
  the other crate, \<open>SaDate::ymd\<close> with \<open>SaDate::days_since_sa_epoch\<close>, is the parameter \<open>cal\<close>.
\<close>

section \<open>Controlled rows\<close>

datatype journal_row_error =
    JournalTooShort nat nat
  | JournalLengthMismatch nat nat
  | JournalFlags u8
  | JournalKind u8
  | JournalSourceLayoutPrefix
  | JournalTargetLayoutMarker u8
  | JournalTerminalLinkFields u32 u32
  | JournalMissingLinkedTarget
  | JournalMissingReference string
  | JournalTrailingData nat nat
  | JournalAmountOutsideSegment nat nat
  | JournalZeroMarker u8
  | JournalMarker u8
  | JournalDigit u8
  | JournalOverflow

definition journal_header :: "byte list \<Rightarrow> nat \<Rightarrow> (journal_row_error, unit) outcome" where
  "journal_header input minimum =
     rbind (check_frame minimum (\<lambda>n. JournalTooShort n minimum) JournalLengthMismatch input) (\<lambda>_.
     rbind (byte_at input 2) (\<lambda>flags.
     rbind (ensure (flags = 0x40) (JournalFlags flags)) (\<lambda>_.
     rbind (byte_at input 3) (\<lambda>kind.
       ensure (kind = 0x01) (JournalKind kind)))))"

definition required_reference :: "byte list \<Rightarrow> nat \<Rightarrow> string \<Rightarrow> (journal_row_error, u32) outcome" where
  "required_reference input offset field =
     rbind (u32_at input offset) (\<lambda>v. if v \<noteq> 0 then Ok v else Err (JournalMissingReference field))"

definition journal_amount_error :: "nat \<Rightarrow> posting_cents_error \<Rightarrow> journal_row_error" where
  "journal_amount_error segment_len e =
     (case e of
        TokenTooShort _ \<Rightarrow> JournalAmountOutsideSegment 0 segment_len
      | DigitsOutsideToken digits _ \<Rightarrow> JournalAmountOutsideSegment digits segment_len
      | UnsupportedZeroMarker marker \<Rightarrow> JournalZeroMarker marker
      | UnsupportedMarker marker \<Rightarrow> JournalMarker marker
      | InvalidBase100Digit digit \<Rightarrow> JournalDigit digit
      | CentsOverflow \<Rightarrow> JournalOverflow)"

definition journal_decode_amount :: "byte list \<Rightarrow> nat \<Rightarrow> (journal_row_error, posting_cents) outcome" where
  "journal_decode_amount input amount_offset =
     (let segment_len = length input + amount_offset in
      rbind (ok_or (get_at input 0) (JournalAmountOutsideSegment 0 segment_len)) (\<lambda>digits.
      let token_len = unat digits + 2 in
      if token_len \<noteq> length input then Err (JournalTrailingData (amount_offset + token_len) segment_len)
      else map_err (journal_amount_error segment_len) (cents_parse input)))"

record journal_source_row =
  js_link :: u32
  js_master :: u32
  js_date_raw :: u32
  js_view_type :: u16
  js_next_target :: "u32 option"
  js_account :: u32

definition source_layout_prefix :: "byte list" where
  "source_layout_prefix = [0x60, 0x93, 0xff, 0x80, 0x40, 0x00, 0x20]"

definition journal_source_parse :: "byte list \<Rightarrow> (journal_row_error, journal_source_row) outcome" where
  "journal_source_parse input =
     rbind (journal_header input 0x21) (\<lambda>_.
     rbind (ensure (length input = 0x21) (JournalTrailingData 0x21 (length input))) (\<lambda>_.
     rbind (bytes_at input 4 11) (\<lambda>prefix.
     rbind (ensure (prefix = source_layout_prefix) JournalSourceLayoutPrefix) (\<lambda>_.
     rbind (required_reference input 0x0b ''source/link'') (\<lambda>link.
     rbind (required_reference input 0x0f ''master'') (\<lambda>master.
     rbind (required_reference input 0x1d ''account'') (\<lambda>account.
     rbind (u32_at input 0x13) (\<lambda>date_raw.
     rbind (u16_at input 0x17) (\<lambda>view_type.
     rbind (u32_at input 0x19) (\<lambda>next_target.
       Ok \<lparr>js_link = link, js_master = master, js_date_raw = date_raw, js_view_type = view_type,
           js_next_target = nonzero next_target, js_account = account\<rparr>))))))))))"

datatype journal_target_shape = LinkedTarget | TerminalTarget

record journal_target_row =
  jt_target :: u32
  jt_master :: u32
  jt_account :: u32
  jt_date_raw :: u32
  jt_view_type :: u16
  jt_next_target :: "u32 option"
  jt_shape :: journal_target_shape
  jt_signed_cents :: i64
  jt_canonical_zero :: bool

definition target_shape_of :: "u8 \<Rightarrow> (journal_row_error, journal_target_shape \<times> nat) outcome" where
  "target_shape_of marker =
     (if marker = 0x83 then Ok (LinkedTarget, 0x67)
      else if marker = 0x03 then Ok (TerminalTarget, 0x63)
      else Err (JournalTargetLayoutMarker marker))"

definition journal_target_parse :: "byte list \<Rightarrow> (journal_row_error, journal_target_row) outcome" where
  "journal_target_parse input =
     rbind (journal_header input 0x65) (\<lambda>_.
     rbind (byte_at input 5) (\<lambda>marker.
     rbind (target_shape_of marker) (\<lambda>(shape, amount_offset).
     rbind (ensure (amount_offset + 2 \<le> length input) (JournalTooShort (length input) (amount_offset + 2))) (\<lambda>_.
     rbind (bytes_at input amount_offset (length input)) (\<lambda>field.
     rbind (journal_decode_amount field amount_offset) (\<lambda>amount.
     rbind (required_reference input 0x0b ''target'') (\<lambda>target.
     rbind (required_reference input 0x0f ''master'') (\<lambda>master.
     rbind (required_reference input 0x13 ''account'') (\<lambda>account.
     rbind (u32_at input 0x1d) (\<lambda>next_target.
     rbind (ensure (\<not> (shape = LinkedTarget \<and> next_target = 0)) JournalMissingLinkedTarget) (\<lambda>_.
     rbind (u32_at input 0x21) (\<lambda>link_tail.
     rbind (ensure (\<not> (shape = TerminalTarget \<and> (next_target \<noteq> 0 \<or> link_tail \<noteq> 0)))
              (JournalTerminalLinkFields next_target link_tail)) (\<lambda>_.
     rbind (u32_at input 0x17) (\<lambda>date_raw.
     rbind (u16_at input 0x1b) (\<lambda>view_type.
       Ok \<lparr>jt_target = target, jt_master = master, jt_account = account, jt_date_raw = date_raw,
           jt_view_type = view_type, jt_next_target = nonzero next_target, jt_shape = shape,
           jt_signed_cents = signed_cents_value amount,
           jt_canonical_zero = is_canonical_zero amount\<rparr>)))))))))))))))"

section \<open>The production grammar\<close>

datatype journal_error =
    InvalidLifecycle
  | ConflictingLifecycle
  | ProductionTooShort nat nat
  | ProductionLengthMismatch nat nat
  | ProductionFlags u8
  | ProductionKind u8
  | UnsupportedFamily u8
  | UnexpectedPrefixByte u8
  | UnexpectedLinkMarker u8
  | MissingJournalReference string
  | InvalidPostingDate u32
  | MissingLinkedTarget
  | UnexpectedTerminalLink u32
  | NoBoundedAmountToken nat
  | AmbiguousAmountToken nat nat
  | MissingAmountCopy
  | CanonicalZeroPosting
  | DuplicateTarget
  | SourceTopologyMismatch
  | AuxiliaryTopologyMismatch
  | AuxiliaryHasPostingAmount
  | AuxiliaryMasterNotBalanced
  | UnrecognizedCarrier
  | UnclassifiedCarrier
  | UnbalancedMaster u32 int

type_synonym sa_calendar = "(i32 \<Rightarrow> int \<times> int \<times> int) \<times> (i32 \<Rightarrow> i32)"

definition journal_date :: "sa_calendar \<Rightarrow> u32 \<Rightarrow> (journal_error, unit) outcome" where
  "journal_date cal raw = business_date (fst cal) (snd cal) InvalidPostingDate raw"

datatype amount_position = MainPrebase | MainDirect | SpecialEnvelope

record journal_posting =
  jp_target :: u32
  jp_master :: u32
  jp_account :: u32
  jp_date_raw :: u32
  jp_view_type :: u16
  jp_next_target :: "u32 option"
  jp_family :: u8
  jp_position :: amount_position
  jp_signed_cents :: i64
  jp_lifecycle :: "bool \<times> bool"

definition validate_production_header :: "byte list \<Rightarrow> (journal_error, unit) outcome" where
  "validate_production_header input =
     rbind (check_frame 33 (\<lambda>n. ProductionTooShort n 33) ProductionLengthMismatch input) (\<lambda>_.
     rbind (byte_at input 2) (\<lambda>flags.
     rbind (ensure (flags = 0x40) (ProductionFlags flags)) (\<lambda>_.
     rbind (byte_at input 3) (\<lambda>kind.
       ensure (kind = 0x01) (ProductionKind kind)))))"

definition production_required_reference :: "byte list \<Rightarrow> nat \<Rightarrow> string \<Rightarrow> (journal_error, u32) outcome" where
  "production_required_reference input offset field =
     rbind (u32_at input offset) (\<lambda>v. if v \<noteq> 0 then Ok v else Err (MissingJournalReference field))"

definition bounded_token :: "byte list \<Rightarrow> nat \<Rightarrow> (nat \<times> posting_cents) option" where
  "bounded_token input offset =
     (case get_at input offset of
        None \<Rightarrow> None
      | Some digits \<Rightarrow>
          (case get_range input offset (offset + 2 + unat digits) of
             None \<Rightarrow> None
           | Some bytes \<Rightarrow>
               (case cents_parse bytes of Ok c \<Rightarrow> Some (2 + unat digits, c) | _ \<Rightarrow> None)))"

definition has_later_copy :: "byte list \<Rightarrow> nat \<Rightarrow> nat \<Rightarrow> bool" where
  "has_later_copy input offset len =
     (case get_range input offset (offset + len) of
        None \<Rightarrow> False
      | Some token \<Rightarrow>
          list_ex (\<lambda>later. get_range input later (later + len) = Some token) [offset + len..<length input])"

text \<open>The amount base is at least 0x63, so the subtractions of the ranges do not underflow.\<close>

definition main_prebase_range :: "u8 \<Rightarrow> bool \<Rightarrow> nat \<Rightarrow> nat list" where
  "main_prebase_range family linked base =
     (if family = 0xe0 \<or> family = 0xe4 then [base - 4..<base]
      else if family = 0xe8 then [base - 8..<base - 2]
      else [])"

definition main_direct_range :: "u8 \<Rightarrow> nat \<Rightarrow> nat list" where
  "main_direct_range family base = (if family = 0xe0 then [base..<base + 3] else [base..<base + 2])"

type_synonym candidate = "nat \<times> nat \<times> posting_cents"

definition tokens_in :: "byte list \<Rightarrow> nat list \<Rightarrow> candidate list" where
  "tokens_in input offsets =
     List.map_filter (\<lambda>offset. map_option (\<lambda>(len, c). (offset, len, c)) (bounded_token input offset)) offsets"

definition copied :: "byte list \<Rightarrow> candidate \<Rightarrow> bool" where
  "copied input t = (case t of (offset, len, _) \<Rightarrow> has_later_copy input offset len)"

definition select_prebase ::
    "byte list \<Rightarrow> u8 \<Rightarrow> bool \<Rightarrow> nat \<Rightarrow> candidate list \<Rightarrow> (journal_error, candidate option) outcome" where
  "select_prebase input family linked base candidates =
     (if length candidates = 1 then Ok (Some (candidates ! 0))
      else if length (filter (copied input) candidates) = 1 then Ok (Some (filter (copied input) candidates ! 0))
      else if length candidates = 2 \<and> family = 0xe0 \<and> linked
              \<and> fst (candidates ! 0) + 3 = base \<and> fst (candidates ! 1) + 1 = base
              \<and> (get_at input (base - 1) = Some 1 \<or> get_at input (base - 1) = Some 2)
        then Ok (Some (candidates ! 0))
      else if candidates = [] then Ok None
      else Err (AmbiguousAmountToken base (length candidates)))"

definition select_direct ::
    "byte list \<Rightarrow> u8 \<Rightarrow> nat \<Rightarrow> candidate list \<Rightarrow> (journal_error, amount_position \<times> posting_cents) outcome" where
  "select_direct input family base direct =
     (let copied_direct = filter (copied input) direct in
      if length direct = 1 \<and> copied input (direct ! 0) then Ok (MainDirect, snd (snd (direct ! 0)))
      else if length direct = 1 then Err MissingAmountCopy
      else if direct = [] then Err (NoBoundedAmountToken base)
      else if length copied_direct = 1 then Ok (MainDirect, snd (snd (copied_direct ! 0)))
      else if family = 0xe0 \<and> length copied_direct = 2
              \<and> fst (copied_direct ! 0) = base \<and> fst (copied_direct ! 1) = base + 2
        then Ok (MainDirect, snd (snd (copied_direct ! 0)))
      else Err (AmbiguousAmountToken base (length direct)))"

definition select_main_amount ::
    "byte list \<Rightarrow> u8 \<Rightarrow> bool \<Rightarrow> nat \<Rightarrow> (journal_error, amount_position \<times> posting_cents) outcome" where
  "select_main_amount input family linked base =
     rbind (select_prebase input family linked base (tokens_in input (main_prebase_range family linked base)))
       (\<lambda>selected.
        case selected of
          Some (offset, len, amount) \<Rightarrow>
            if has_later_copy input offset len then Ok (MainPrebase, amount) else Err MissingAmountCopy
        | None \<Rightarrow> select_direct input family base (tokens_in input (main_direct_range family base)))"

definition select_fixed_prebase_amount ::
    "byte list \<Rightarrow> nat \<Rightarrow> nat \<Rightarrow> (journal_error, amount_position \<times> posting_cents) outcome" where
  "select_fixed_prebase_amount input base distance =
     (if base < distance then Err (NoBoundedAmountToken base)
      else
        rbind (ok_or (bounded_token input (base - distance)) (NoBoundedAmountToken base)) (\<lambda>(len, amount).
          if has_later_copy input (base - distance) len then Ok (MainPrebase, amount)
          else Err MissingAmountCopy))"

definition select_short_e4_terminal_amount ::
    "byte list \<Rightarrow> nat \<Rightarrow> (journal_error, amount_position \<times> posting_cents) outcome" where
  "select_short_e4_terminal_amount input base =
     (if base < 27 then Err (NoBoundedAmountToken base)
      else
        let primary = base - 27; copy = base + 17 in
        rbind (ok_or (bounded_token input primary) (NoBoundedAmountToken base)) (\<lambda>(len, amount).
          if len \<noteq> 3 \<or> get_range input copy (copy + len) \<noteq> get_range input primary (primary + len)
          then Err MissingAmountCopy
          else Ok (MainPrebase, amount)))"

definition lifecycle_bit :: "byte list \<Rightarrow> nat \<Rightarrow> (journal_error, nat) outcome" where
  "lifecycle_bit input b =
     rbind (byte_at input (4 + b div 8)) (\<lambda>v.
       Ok (if v AND drop_bit (b mod 8) 0x80 \<noteq> 0 then (if b = 2 then 2 else 4) else 0))"

definition parse_posting_lifecycle :: "byte list \<Rightarrow> (journal_error, bool \<times> bool) outcome" where
  "parse_posting_lifecycle input =
     (if length input < 33 then Err InvalidLifecycle
      else
        rbind (byte_at input 4) (\<lambda>b.
        if b AND 0xe0 \<noteq> 0xe0 then Err InvalidLifecycle
        else
          rbind (rmap (lifecycle_bit input) [0..<17]) (\<lambda>widths.
          let offset = 0x13 + sum_list widths in
          (case get_range input offset (offset + 2) of
             Some [no_post, memorized] \<Rightarrow>
               if no_post \<le> 1 \<and> memorized \<le> 1 then Ok (no_post = 1, memorized = 1) else Err InvalidLifecycle
           | _ \<Rightarrow> Err InvalidLifecycle))))"

definition family_shift :: "u8 \<Rightarrow> (journal_error, nat) outcome" where
  "family_shift family =
     (if family = 0xe0 then Ok 0 else if family = 0xe4 then Ok 4 else if family = 0xe8 then Ok 8
      else Err (UnsupportedFamily family))"

definition journal_posting_parse :: "sa_calendar \<Rightarrow> byte list \<Rightarrow> (journal_error, journal_posting) outcome" where
  "journal_posting_parse cal input =
     rbind (validate_production_header input) (\<lambda>_.
     rbind (byte_at input 4) (\<lambda>family.
     rbind (family_shift family) (\<lambda>shift.
     rbind (byte_at input 5) (\<lambda>link_marker.
     rbind (byte_at input 6) (\<lambda>prefix.
     let link_class = link_marker AND 0x7f; linked = (link_marker AND 0x80 \<noteq> 0);
         short = (family = 0xe4 \<and> \<not> linked \<and> link_class = 0x13 \<and> length input = 129 \<and> prefix = 0x9f);
         prebase_variant = (family = 0xe4 \<and> link_class = 0x03) in
     rbind (ensure (prefix = 0xff \<or> short) (UnexpectedPrefixByte prefix)) (\<lambda>_.
     rbind (ensure (link_class = 0x13 \<or> family = 0xe8 \<and> link_class = 0x17 \<or> prebase_variant)
              (UnexpectedLinkMarker link_marker)) (\<lambda>_.
     rbind (production_required_reference input 0x0b ''target'') (\<lambda>target.
     rbind (production_required_reference input 0x0f ''master'') (\<lambda>master.
     rbind (production_required_reference input 0x13 ''account'') (\<lambda>account.
     rbind (u32_at input 0x17) (\<lambda>date_raw.
     rbind (journal_date cal date_raw) (\<lambda>_.
     rbind (u32_at input 0x1d) (\<lambda>next_target.
     let base = 0x63 + shift + (if linked then 4 else 0) in
     rbind (if short then select_short_e4_terminal_amount input base
            else if prebase_variant then select_fixed_prebase_amount input base 8
            else select_main_amount input family linked base) (\<lambda>(position, amount).
     rbind (ensure (\<not> is_canonical_zero amount) CanonicalZeroPosting) (\<lambda>_.
     rbind (u16_at input 0x1b) (\<lambda>view_type.
     rbind (parse_posting_lifecycle input) (\<lambda>lifecycle.
       Ok \<lparr>jp_target = target, jp_master = master, jp_account = account, jp_date_raw = date_raw,
           jp_view_type = view_type, jp_next_target = (if linked then nonzero next_target else None),
           jp_family = family, jp_position = position, jp_signed_cents = signed_cents_value amount,
           jp_lifecycle = lifecycle\<rparr>)))))))))))))))))"

section \<open>The decoders meet the contract\<close>

lemma journal_parts_no_panic [no_panic]:
  "2 \<le> minimum \<Longrightarrow> 4 \<le> minimum \<Longrightarrow> journal_header input minimum \<noteq> Panic"
  "i + 4 \<le> length input \<Longrightarrow> required_reference input i field \<noteq> Panic"
  "i + 4 \<le> length input \<Longrightarrow> production_required_reference input i field \<noteq> Panic"
  "target_shape_of marker \<noteq> Panic" "journal_decode_amount input n \<noteq> Panic" "journal_date cal raw \<noteq> Panic"
  "family_shift f \<noteq> Panic"
  unfolding journal_header_def required_reference_def production_required_reference_def target_shape_of_def
    journal_decode_amount_def journal_date_def family_shift_def Let_def
  by ((rule frame_no_panic, simp)?, (intro no_panic; simp))+

lemma journal_header_Ok:
  "journal_header input minimum = Ok u \<Longrightarrow> 2 \<le> minimum \<Longrightarrow> minimum \<le> length input \<and> framed_row input"
  by (auto simp: journal_header_def outcome_simps check_frame_Ok_iff framed_row_def)

interpretation journal_source: row_decoder journal_source_parse
proof
  show "journal_source_parse input \<noteq> Panic" for input
    unfolding journal_source_parse_def
    by (intro no_panic; auto dest: journal_header_Ok)
  show "framed_row input" if "journal_source_parse input = Ok r" for input r
    using that unfolding journal_source_parse_def rbind_Ok_iff by (auto dest: journal_header_Ok)
qed

interpretation journal_target: row_decoder journal_target_parse
proof
  show "journal_target_parse input \<noteq> Panic" for input
    unfolding journal_target_parse_def
    by (intro no_panic; auto dest: journal_header_Ok simp: ensure_iff)
  show "framed_row input" if "journal_target_parse input = Ok r" for input r
    using that unfolding journal_target_parse_def rbind_Ok_iff by (auto dest: journal_header_Ok)
qed

lemma validate_production_header_no_panic [no_panic]: "validate_production_header input \<noteq> Panic"
  unfolding validate_production_header_def by (rule frame_no_panic, simp) (intro no_panic; simp)

lemma production_header_Ok:
  "validate_production_header input = Ok u \<Longrightarrow> 33 \<le> length input \<and> framed_row input"
  by (auto simp: validate_production_header_def outcome_simps check_frame_Ok_iff framed_row_def)

lemma lifecycle_bit_no_panic: "33 \<le> length input \<Longrightarrow> b < 17 \<Longrightarrow> lifecycle_bit input b \<noteq> Panic"
  unfolding lifecycle_bit_def by (intro no_panic) simp

lemma parse_posting_lifecycle_no_panic [no_panic]: "parse_posting_lifecycle input \<noteq> Panic"
proof (cases "length input < 33")
  case False
  then have "rmap (lifecycle_bit input) [0..<17] \<noteq> Panic"
    by (intro rmap_no_panic lifecycle_bit_no_panic) auto
  with False show ?thesis
    unfolding parse_posting_lifecycle_def Let_def
    by (intro no_panic) (auto split: option.split list.split)
qed (simp add: parse_posting_lifecycle_def)

lemma selections_no_panic [no_panic]:
  "select_prebase input family linked base cs \<noteq> Panic" "select_direct input family base cs \<noteq> Panic"
  by (simp_all add: select_prebase_def select_direct_def Let_def)

lemma amounts_no_panic [no_panic]:
  "select_main_amount input family linked base \<noteq> Panic" "select_fixed_prebase_amount input base d \<noteq> Panic"
  "select_short_e4_terminal_amount input base \<noteq> Panic"
  unfolding select_main_amount_def select_fixed_prebase_amount_def select_short_e4_terminal_amount_def Let_def
  by (intro no_panic)+

lemma journal_posting_no_panic: "journal_posting_parse cal input \<noteq> Panic"
  unfolding journal_posting_parse_def Let_def
  by (intro no_panic; auto dest: production_header_Ok)

interpretation journal_posting: row_decoder "journal_posting_parse cal"
proof
  show "framed_row input" if "journal_posting_parse cal input = Ok r" for input r
    using that unfolding journal_posting_parse_def rbind_Ok_iff by (auto dest: production_header_Ok)
qed (rule journal_posting_no_panic)

section \<open>Every accepted amount has a copy\<close>

lemma bounded_token_Some:
  "bounded_token input offset = Some (len, c) \<Longrightarrow>
     \<exists>token. get_range input offset (offset + len) = Some token \<and> cents_parse token = Ok c"
  by (auto simp: bounded_token_def ac_simps split: option.splits outcome.splits)

lemma token_copied:
  assumes "bounded_token input offset = Some (len, c)" and "has_later_copy input offset len"
  shows "repeated_amount input (amount_of c)"
proof -
  obtain token where t: "get_range input offset (offset + len) = Some token" and c: "cents_parse token = Ok c"
    using bounded_token_Some [OF assms(1)] by blast
  then obtain later where "offset + len \<le> later" and "get_range input later (later + len) = Some token"
    using assms(2) by (auto simp: has_later_copy_def list_ex_iff)
  with t c show ?thesis using repeated_amountI by blast
qed

lemma tokens_in_bounded: "(offset, len, c) \<in> set (tokens_in input offsets) \<Longrightarrow> bounded_token input offset = Some (len, c)"
  by (auto simp: tokens_in_def List.map_filter_def)

lemma tokens_in_copied:
  "t \<in> set (tokens_in input offsets) \<Longrightarrow> copied input t \<Longrightarrow> repeated_amount input (amount_of (snd (snd t)))"
  by (cases t) (auto simp: copied_def intro: token_copied tokens_in_bounded)

lemma filter_nth_0:
  assumes "0 < length (filter P xs)"
  shows "filter P xs ! 0 \<in> set xs \<and> P (filter P xs ! 0)"
  using nth_mem [OF assms] by auto

lemma select_prebase_mem:
  "select_prebase input family linked base cs = Ok (Some t) \<Longrightarrow> t \<in> set cs"
  using filter_nth_0 [of "copied input" cs]
  by (auto simp del: length_greater_0_conv simp: select_prebase_def split: if_splits)

lemma select_direct_attested:
  assumes "select_direct input family base (tokens_in input offsets) = Ok (pos, amount)"
  shows "repeated_amount input (amount_of amount)"
proof -
  let ?ts = "tokens_in input offsets"
  have "length (filter (copied input) ?ts) \<in> {1, 2} \<Longrightarrow> filter (copied input) ?ts ! 0 \<in> set ?ts
      \<and> copied input (filter (copied input) ?ts ! 0)"
    by (rule filter_nth_0) auto
  moreover have "length ?ts = 1 \<Longrightarrow> ?ts ! 0 \<in> set ?ts" by (rule nth_mem) simp
  ultimately have "\<exists>t \<in> set ?ts. copied input t \<and> amount = snd (snd t)"
    using assms unfolding select_direct_def Let_def by (auto split: if_splits)
  then show ?thesis using tokens_in_copied by blast
qed

lemma select_main_attested:
  assumes "select_main_amount input family linked base = Ok (pos, amount)"
  shows "repeated_amount input (amount_of amount)"
proof -
  obtain selected where s: "select_prebase input family linked base
      (tokens_in input (main_prebase_range family linked base)) = Ok selected"
    and step: "(case selected of
          Some (offset, len, amount) \<Rightarrow>
            if has_later_copy input offset len then Ok (MainPrebase, amount) else Err MissingAmountCopy
        | None \<Rightarrow> select_direct input family base (tokens_in input (main_direct_range family base)))
      = Ok (pos, amount)"
    using assms unfolding select_main_amount_def rbind_Ok_iff by blast
  show ?thesis
  proof (cases selected)
    case None
    with step select_direct_attested show ?thesis by simp
  next
    case (Some t)
    with s select_prebase_mem have "t \<in> set (tokens_in input (main_prebase_range family linked base))" by blast
    with Some step tokens_in_copied show ?thesis by (fastforce simp: copied_def split: if_splits prod.splits)
  qed
qed

lemma select_fixed_attested:
  "select_fixed_prebase_amount input base d = Ok (pos, amount) \<Longrightarrow> repeated_amount input (amount_of amount)"
  by (auto simp: select_fixed_prebase_amount_def outcome_simps split: if_splits intro: token_copied)

lemma select_short_attested:
  assumes "select_short_e4_terminal_amount input base = Ok (pos, amount)"
  shows "repeated_amount input (amount_of amount)"
proof -
  have base: "27 \<le> base" and tok: "bounded_token input (base - 27) = Some (3, amount)"
    and copy: "get_range input (base + 17) (base + 17 + 3) = get_range input (base - 27) (base - 27 + 3)"
    using assms
    by (auto simp: select_short_e4_terminal_amount_def Let_def outcome_simps case_prod_beta split: if_splits)
  obtain token where "get_range input (base - 27) (base - 27 + 3) = Some token" and "cents_parse token = Ok amount"
    using bounded_token_Some [OF tok] by blast
  moreover have "base - 27 + 3 \<le> base + 17" by simp
  ultimately show ?thesis using repeated_amountI copy by metis
qed

lemma journal_posting_attested:
  assumes "journal_posting_parse cal input = Ok r"
  shows "repeated_amount input (jp_signed_cents r, False)"
proof -
  obtain pos amount short variant linked base family where
    selected: "(if short then select_short_e4_terminal_amount input base
      else if variant then select_fixed_prebase_amount input base 8
      else select_main_amount input family linked base) = Ok (pos, amount)"
    and "\<not> is_canonical_zero amount" and "jp_signed_cents r = signed_cents_value amount"
    using assms unfolding journal_posting_parse_def rbind_Ok_iff Let_def ensure_iff case_prod_beta
    by (metis (no_types, lifting) journal_posting.select_convs(9) outcome.inject(1) prod.collapse)
  then have "amount_of amount = (jp_signed_cents r, False)" by (simp add: amount_of_def)
  moreover have "repeated_amount input (amount_of amount)"
    using selected select_short_attested select_fixed_attested select_main_attested by (simp split: if_splits)
  ultimately show ?thesis by simp
qed

end
