(* ===== verification/Journal_Classes.thy ===== *)
theory Journal_Classes
  imports Journal_Rows Ordered_Map
begin

text \<open>
  The table-wide classification of General Journal rows
  (\<open>classify_materialized_general_journal_rows_with_header_witnesses\<close> of
  \<open>crates/openqbw/src/materialized_general_journal_posting.rs\<close>): every row of the table gets one
  disposition, or the table is refused. Balances are integers: a sum of \<open>i64\<close> amounts stays in
  \<open>i128\<close> for every table that fits in memory.
\<close>

section \<open>Other carriers\<close>

record zero_amount =
  jz_target :: u32
  jz_master :: u32
  jz_account :: u32
  jz_date_raw :: u32
  jz_view_type :: u16
  jz_family :: u8
  jz_position :: amount_position

record source_link =
  sl_target :: u32
  sl_master :: u32
  sl_account :: u32
  sl_date_raw :: u32
  sl_view_type :: u16
  sl_next_target :: "u32 option"

datatype disposition =
    PostingRow journal_posting
  | SourceOrLink source_link
  | CanonicalZeroAmount zero_amount
  | AuxiliaryLinkChain u32 u32
  | TerminalMetadataCarrier u32 u32
  | HeaderMetadataCarrier u32 u32

record header_witness =
  hw_id :: u32
  hw_date_raw :: u32
  hw_group :: u32

definition header_witness_parse :: "sa_calendar \<Rightarrow> byte list \<Rightarrow> (journal_error, header_witness) outcome" where
  "header_witness_parse cal input =
     (if length input < 23 \<or> declared_len input \<noteq> length input
         \<or> get_at input 2 \<noteq> Some 0x40 \<or> get_at input 3 \<noteq> Some 0x01
         \<or> get_range input 4 7 \<noteq> Some [0xa7, 0xfe, 0]
      then Err UnrecognizedCarrier
      else
        rbind (u32_at input 11) (\<lambda>i.
        rbind (u32_at input 15) (\<lambda>date_raw.
        rbind (u32_at input 19) (\<lambda>group.
        rbind (ensure (\<not> (i = 0 \<or> group = 0)) (MissingJournalReference ''header witness'')) (\<lambda>_.
        rbind (journal_date cal date_raw) (\<lambda>_.
          Ok \<lparr>hw_id = i, hw_date_raw = date_raw, hw_group = group\<rparr>))))))"

definition parse_main_canonical_zero ::
    "sa_calendar \<Rightarrow> byte list \<Rightarrow> (journal_error, zero_amount option) outcome" where
  "parse_main_canonical_zero cal input =
     rbind (validate_production_header input) (\<lambda>_.
     rbind (byte_at input 4) (\<lambda>family.
     if family \<noteq> 0xe0 \<and> family \<noteq> 0xe4 \<and> family \<noteq> 0xe8 then Ok None
     else
     rbind (byte_at input 6) (\<lambda>prefix.
     if prefix \<noteq> 0xff then Ok None
     else
     rbind (byte_at input 5) (\<lambda>link_marker.
     if link_marker AND 0x7f \<noteq> 0x13 then Ok None
     else
     let linked = (link_marker AND 0x80 \<noteq> 0) in
     rbind (production_required_reference input 0x0b ''target'') (\<lambda>target.
     rbind (production_required_reference input 0x0f ''master'') (\<lambda>master.
     rbind (production_required_reference input 0x13 ''account'') (\<lambda>account.
     rbind (u32_at input 0x17) (\<lambda>date_raw.
     rbind (journal_date cal date_raw) (\<lambda>_.
     let base = 0x63 + unat (family - 0xe0) + (if linked then 4 else 0) in
     rbind (select_main_amount input family linked base) (\<lambda>(pos, amount).
     if \<not> is_canonical_zero amount then Ok None
     else
     rbind (u16_at input 0x1b) (\<lambda>view_type.
       Ok (Some \<lparr>jz_target = target, jz_master = master, jz_account = account, jz_date_raw = date_raw,
                 jz_view_type = view_type, jz_family = family, jz_position = pos\<rparr>))))))))))))"

definition special_primary_offset :: "byte list \<Rightarrow> nat option" where
  "special_primary_offset input =
     (case get_range input 4 11 of
        Some (a # b # c # _) \<Rightarrow>
          if a = 0xe0 \<and> b = 0x13 \<and> c = 0x9f then Some 0x48
          else if a = 0xe0 \<and> b = 0x83 \<and> c = 0xff then Some 0x60
          else if a = 0xe0 \<and> b = 0x93 \<and> c = 0x9f then Some 0x4c
          else None
      | _ \<Rightarrow> None)"

definition parse_special_posting ::
    "sa_calendar \<Rightarrow> byte list \<Rightarrow> (journal_error, journal_posting option) outcome" where
  "parse_special_posting cal input =
     rbind (validate_production_header input) (\<lambda>_.
     case special_primary_offset input of
       None \<Rightarrow> Ok None
     | Some primary \<Rightarrow>
         (case bounded_token input primary of
            None \<Rightarrow> Ok None
          | Some (len, amount) \<Rightarrow>
              if \<not> has_later_copy input primary len then Err MissingAmountCopy
              else if is_canonical_zero amount then Err CanonicalZeroPosting
              else
                rbind (production_required_reference input 0x0b ''target'') (\<lambda>target.
                rbind (production_required_reference input 0x0f ''master'') (\<lambda>master.
                rbind (production_required_reference input 0x13 ''account'') (\<lambda>account.
                rbind (u32_at input 0x17) (\<lambda>date_raw.
                rbind (journal_date cal date_raw) (\<lambda>_.
                rbind (u16_at input 0x1b) (\<lambda>view_type.
                rbind (u32_at input 0x1d) (\<lambda>next_target.
                rbind (parse_posting_lifecycle input) (\<lambda>lifecycle.
                  Ok (Some \<lparr>jp_target = target, jp_master = master, jp_account = account,
                            jp_date_raw = date_raw, jp_view_type = view_type,
                            jp_next_target = nonzero next_target, jp_family = 0xe0,
                            jp_position = SpecialEnvelope, jp_signed_cents = signed_cents_value amount,
                            jp_lifecycle = lifecycle\<rparr>)))))))))))"

definition source_carrier :: "byte list \<Rightarrow> bool" where
  "source_carrier input \<longleftrightarrow>
     (length input = 142 \<or> length input = 143)
       \<and> get_range input 4 11 = Some [0x60, 0x93, 0xff, 0x80, 0x40, 0x00, 0x20]
   \<or> length input = 147 \<and> get_range input 4 11 = Some [0x60, 0x93, 0xff, 0xc0, 0x40, 0x80, 0x20]
   \<or> length input = 151 \<and> get_range input 4 11 = Some [0x64, 0x93, 0xff, 0xc0, 0x40, 0x80, 0x20]
   \<or> length input = 201 \<and> get_range input 4 11 = Some [0x64, 0x13, 0xff, 0x80, 0x60, 0x00, 0x20]"

definition parse_source_link :: "sa_calendar \<Rightarrow> byte list \<Rightarrow> (journal_error, source_link option) outcome" where
  "parse_source_link cal input =
     rbind (validate_production_header input) (\<lambda>_.
     if \<not> source_carrier input then Ok None
     else
     rbind (production_required_reference input 0x0b ''source target'') (\<lambda>target.
     rbind (production_required_reference input 0x0f ''source master'') (\<lambda>master.
     rbind (production_required_reference input 0x1d ''source account'') (\<lambda>account.
     rbind (u32_at input 0x19) (\<lambda>next_target.
     rbind (u32_at input 0x13) (\<lambda>date_raw.
     rbind (journal_date cal date_raw) (\<lambda>_.
     rbind (u16_at input 0x17) (\<lambda>view_type.
       Ok (Some \<lparr>sl_target = target, sl_master = master, sl_account = account, sl_date_raw = date_raw,
                 sl_view_type = view_type, sl_next_target = nonzero next_target\<rparr>)))))))))"

section \<open>First pass: row by row\<close>

definition auxiliary_terminal_prefix :: "byte list" where
  "auxiliary_terminal_prefix = [0xe0, 0x13, 0xff, 0x80, 0x60, 0x00, 0x20]"

definition auxiliary_linked_prefix :: "byte list" where
  "auxiliary_linked_prefix = [0xe0, 0x93, 0xff, 0x80, 0x60, 0x00, 0x20]"

definition auxiliary_candidate :: "byte list \<Rightarrow> bool" where
  "auxiliary_candidate row \<longleftrightarrow>
     get_range row 4 11 = Some auxiliary_terminal_prefix \<or> get_range row 4 11 = Some auxiliary_linked_prefix"

definition identify_auxiliary_candidate_indices :: "byte list list \<Rightarrow> nat list" where
  "identify_auxiliary_candidate_indices rows = filter (\<lambda>i. auxiliary_candidate (rows ! i)) [0..<length rows]"

record class_state =
  cs_result :: "disposition option list"
  cs_postings :: "(u32, journal_posting) btree"
  cs_zeroes :: "(u32, zero_amount) btree"
  cs_sources :: "(nat \<times> source_link) list"

definition push_result :: "disposition option \<Rightarrow> class_state \<Rightarrow> class_state" where
  "push_result d st = st\<lparr>cs_result := cs_result st @ [d]\<rparr>"

definition add_posting :: "journal_posting \<Rightarrow> class_state \<Rightarrow> (journal_error, class_state) outcome" where
  "add_posting p st =
     (if bt_get (cs_postings st) (jp_target p) \<noteq> None then Err DuplicateTarget
      else Ok (push_result (Some (PostingRow p)) (st\<lparr>cs_postings := bt_insert (jp_target p) p (cs_postings st)\<rparr>)))"

definition add_zero :: "zero_amount \<Rightarrow> class_state \<Rightarrow> (journal_error, class_state) outcome" where
  "add_zero z st =
     (if bt_get (cs_zeroes st) (jz_target z) \<noteq> None then Err DuplicateTarget
      else Ok (push_result (Some (CanonicalZeroAmount z)) (st\<lparr>cs_zeroes := bt_insert (jz_target z) z (cs_zeroes st)\<rparr>)))"

definition classify_row ::
    "sa_calendar \<Rightarrow> nat list \<Rightarrow> nat \<times> byte list \<Rightarrow> class_state \<Rightarrow> (journal_error, class_state) outcome" where
  "classify_row cal residual entry st =
     (case entry of (index, bytes) \<Rightarrow>
        if index \<in> set residual then Ok (push_result None st)
        else
          (case journal_posting_parse cal bytes of
             Panic \<Rightarrow> Panic
           | Ok p \<Rightarrow> add_posting p st
           | Err _ \<Rightarrow>
               rbind (parse_main_canonical_zero cal bytes) (\<lambda>zero.
               case zero of
                 Some z \<Rightarrow> add_zero z st
               | None \<Rightarrow>
                   rbind (parse_special_posting cal bytes) (\<lambda>special.
                   case special of
                     Some p \<Rightarrow> add_posting p st
                   | None \<Rightarrow>
                       rbind (parse_source_link cal bytes) (\<lambda>source.
                       case source of
                         Some s \<Rightarrow> Ok (push_result None (st\<lparr>cs_sources := cs_sources st @ [(index, s)]\<rparr>))
                       | None \<Rightarrow> Err UnrecognizedCarrier)))))"

definition class_start :: class_state where
  "class_start = \<lparr>cs_result = [], cs_postings = [], cs_zeroes = [], cs_sources = []\<rparr>"

end
