(* ===== verification/Journal_Auxiliary.thy ===== *)
theory Journal_Auxiliary
  imports Journal_Classes
begin

text \<open>
  \<open>classify_auxiliary_link_chain\<close>: the rows set aside in the first pass are accepted only as
  single metadata carriers or as closed chains of two, four or six rows of one balanced master.
  The reads inside a chain follow reads of the same row at a higher offset, so only the first pass
  over each row can panic; those first reads are the panicking ones here.
\<close>

section \<open>Groups\<close>

type_synonym group_key = "u32 \<times> u32 \<times> u16"

text \<open>The targets seen so far and the rows of each master, date and view.\<close>

definition group_row ::
    "byte list list \<Rightarrow> class_state \<Rightarrow> nat \<Rightarrow> u32 list \<times> (group_key, nat list) btree \<Rightarrow>
     (journal_error, u32 list \<times> (group_key, nat list) btree) outcome" where
  "group_row rows st index acc =
     (case acc of (targets, groups) \<Rightarrow>
      let row = rows ! index in
      rbind (production_required_reference row 0x0b ''auxiliary target'') (\<lambda>target.
      if bt_get (cs_postings st) target \<noteq> None \<or> target \<in> set targets then Err AuxiliaryTopologyMismatch
      else
        rbind (u32_at row 0x0f) (\<lambda>master.
        rbind (u32_at row 0x17) (\<lambda>date_raw.
        rbind (u16_at row 0x1b) (\<lambda>view_type.
          let k = (master, date_raw, view_type);
              members = (case bt_get groups k of Some l \<Rightarrow> l | None \<Rightarrow> []) in
          Ok (targets @ [target], bt_insert k (members @ [index]) groups))))))"

definition master_balance :: "class_state \<Rightarrow> u32 \<Rightarrow> int" where
  "master_balance st master =
     (\<Sum>p\<leftarrow>filter (\<lambda>p. jp_master p = master) (bt_values (cs_postings st)). sint (jp_signed_cents p))"

definition set_result :: "nat \<Rightarrow> disposition \<Rightarrow> disposition option list \<Rightarrow> disposition option list" where
  "set_result index d result = result[index := Some d]"

section \<open>A single metadata carrier\<close>

definition account_matches :: "class_state \<Rightarrow> u32 \<Rightarrow> u32 \<Rightarrow> u32 \<Rightarrow> nat" where
  "account_matches st master date account =
     length (filter (\<lambda>p. jp_master p = master \<and> jp_date_raw p = date \<and> jp_account p = account)
               (bt_values (cs_postings st)))
   + length (filter (\<lambda>z. jz_master z = master \<and> jz_date_raw z = date \<and> jz_account z = account)
               (bt_values (cs_zeroes st)))"

definition classify_metadata ::
    "sa_calendar \<Rightarrow> byte list list \<Rightarrow> class_state \<Rightarrow> u32 list \<Rightarrow> group_key \<Rightarrow> nat \<Rightarrow>
     (journal_error, disposition) outcome" where
  "classify_metadata cal rows st targets k index =
     (case k of (master, date, view) \<Rightarrow>
      let row = rows ! index in
      rbind (validate_production_header row) (\<lambda>_.
      rbind (ensure (get_range row 4 11 = Some auxiliary_terminal_prefix) AuxiliaryTopologyMismatch) (\<lambda>_.
      rbind (production_required_reference row 0x0b ''metadata target'') (\<lambda>target.
      rbind (production_required_reference row 0x0f ''metadata master'') (\<lambda>row_master.
      rbind (production_required_reference row 0x13 ''metadata account'') (\<lambda>_.
      rbind (production_required_reference row 0x1d ''metadata external account'') (\<lambda>external_account.
      rbind (u32_at row 0x17) (\<lambda>date_raw.
      rbind (journal_date cal date_raw) (\<lambda>_.
      rbind (u16_at row 0x1b) (\<lambda>row_view.
      rbind (ensure (\<not> (row_master \<noteq> master \<or> date_raw \<noteq> date \<or> row_view \<noteq> view
                \<or> external_account \<in> set targets
                \<or> list_ex (\<lambda>offset. bounded_token row offset \<noteq> None) [0..<length row - 1]))
              AuxiliaryTopologyMismatch) (\<lambda>_.
      rbind (ensure (account_matches st master date external_account = 1) AuxiliaryTopologyMismatch) (\<lambda>_.
      rbind (ensure (master_balance st master = 0) AuxiliaryMasterNotBalanced) (\<lambda>_.
        Ok (TerminalMetadataCarrier master target))))))))))))))"

section \<open>A chain\<close>

record chain_state =
  ch_linked :: nat
  ch_terminal :: nat
  ch_terminal_target :: "u32 option"
  ch_outgoing :: "(u32, u32) btree"
  ch_incoming :: "(u32, nat) btree"

text \<open>The links of one row.\<close>

definition chain_links :: "bool \<Rightarrow> u32 \<Rightarrow> u32 \<Rightarrow> chain_state \<Rightarrow> (journal_error, chain_state) outcome" where
  "chain_links is_linked target next_target st =
     (if is_linked then
        (if bt_get (ch_outgoing st) target \<noteq> None then Err AuxiliaryTopologyMismatch
         else
           (case bt_get (ch_incoming st) next_target of
              None \<Rightarrow> Err AuxiliaryTopologyMismatch
            | Some n \<Rightarrow>
                if 1 < n + 1 then Err AuxiliaryTopologyMismatch
                else Ok (st\<lparr>ch_linked := ch_linked st + 1,
                           ch_outgoing := bt_insert target next_target (ch_outgoing st),
                           ch_incoming := bt_insert next_target (n + 1) (ch_incoming st)\<rparr>)))
      else if ch_terminal_target st \<noteq> None then Err AuxiliaryTopologyMismatch
      else Ok (st\<lparr>ch_terminal := ch_terminal st + 1, ch_terminal_target := Some target\<rparr>))"

text \<open>The negative monetary evidence: no posting amount, and at most a number that happens to lie there.\<close>

definition chain_collision_ok :: "byte list \<Rightarrow> nat \<Rightarrow> nat \<Rightarrow> bool" where
  "chain_collision_ok row base members =
     (let offset = base + 21 in
      case (if offset \<le> length row then bounded_token (drop offset row) 0 else None) of
        Some (len, c) \<Rightarrow>
          \<not> is_canonical_zero c \<and> signed_cents_value c \<noteq> 0 \<and> \<not> has_later_copy row offset len
      | None \<Rightarrow>
          members < 6 \<and> \<not> list_ex (\<lambda>o'. bounded_token row o' \<noteq> None) [33..<length row - 1])"

definition chain_row ::
    "sa_calendar \<Rightarrow> byte list list \<Rightarrow> u32 list \<Rightarrow> nat list \<Rightarrow> group_key \<Rightarrow> nat \<Rightarrow> chain_state \<Rightarrow>
     (journal_error, chain_state) outcome" where
  "chain_row cal rows targets indices k index st =
     (case k of (master, date, view) \<Rightarrow>
      let row = rows ! index; group_targets = map (\<lambda>i. le32 (rows ! i) 0x0b) indices in
      rbind (u32_at row 0x0f) (\<lambda>row_master.
      rbind (u32_at row 0x17) (\<lambda>row_date.
      rbind (u16_at row 0x1b) (\<lambda>row_view.
      rbind (u32_at row 0x13) (\<lambda>account.
      rbind (ensure (\<not> (row_master \<noteq> master \<or> row_date \<noteq> date \<or> row_view \<noteq> view \<or> account = 0))
              AuxiliaryTopologyMismatch) (\<lambda>_.
      rbind (byte_at row 5) (\<lambda>marker.
      let is_linked = (marker AND 0x80 \<noteq> 0) in
      rbind (u32_at row 0x1d) (\<lambda>next_target.
      rbind (ensure (\<not> (is_linked \<and> next_target \<notin> set group_targets
                \<or> \<not> is_linked \<and> (next_target = 0 \<or> next_target \<in> set targets)))
              AuxiliaryTopologyMismatch) (\<lambda>_.
      rbind (u32_at row 0x0b) (\<lambda>target.
      rbind (chain_links is_linked target next_target st) (\<lambda>st.
      rbind (byte_at row 4) (\<lambda>family.
      let base = 0x63 + unat (family - 0xe0) + (if is_linked then 4 else 0) in
      rbind (case select_main_amount row family is_linked base of
               Ok _ \<Rightarrow> Ok True
             | Panic \<Rightarrow> Panic
             | Err _ \<Rightarrow> rbind (parse_special_posting cal row) (\<lambda>special. Ok (special \<noteq> None))) (\<lambda>has_amount.
      rbind (ensure (\<not> has_amount) AuxiliaryHasPostingAmount) (\<lambda>_.
      rbind (ensure (chain_collision_ok row base (length indices)) AuxiliaryTopologyMismatch) (\<lambda>_.
        Ok st)))))))))))))))"

text \<open>The walk from the only head to the terminal row; a row met twice refuses the chain.\<close>

function chain_walk :: "(u32, u32) btree \<Rightarrow> u32 \<Rightarrow> u32 list \<Rightarrow> u32 \<Rightarrow> (journal_error, u32 list) outcome" where
  "chain_walk outgoing terminal visited current =
     (if current \<in> set visited then Err AuxiliaryTopologyMismatch
      else if current = terminal then Ok (visited @ [current])
      else
        (case bt_get outgoing current of
           None \<Rightarrow> Err AuxiliaryTopologyMismatch
         | Some n \<Rightarrow> chain_walk outgoing terminal (visited @ [current]) n))"
  by pat_completeness auto
termination
proof (relation "measure (\<lambda>(outgoing, terminal, visited, current). card (set (bt_keys outgoing) - set visited))", goal_cases)
  case (2 outgoing terminal visited current n)
  then have "current \<in> set (bt_keys outgoing) - set visited"
    by (auto simp: bt_keys_def dest!: bt_get_SomeD intro!: image_eqI [of _ fst "(current, n)"])
  then have "set (bt_keys outgoing) - set (visited @ [current]) \<subset> set (bt_keys outgoing) - set visited"
    by auto
  then have "card (set (bt_keys outgoing) - set (visited @ [current]))
      < card (set (bt_keys outgoing) - set visited)"
    by (intro psubset_card_mono) simp_all
  then show ?case by simp
qed simp

declare chain_walk.simps [simp del]

definition external_resolved ::
    "byte list list \<Rightarrow> class_state \<Rightarrow> nat list \<Rightarrow> u32 \<Rightarrow> u32 \<Rightarrow> u32 \<Rightarrow> bool" where
  "external_resolved rows st indices master date external \<longleftrightarrow>
     (case bt_get (cs_postings st) external of
        Some p \<Rightarrow> jp_master p = master \<and> jp_date_raw p = date | None \<Rightarrow> False)
   \<or> (case bt_get (cs_zeroes st) external of
        Some z \<Rightarrow> jz_master z = master \<and> jz_date_raw z = date | None \<Rightarrow> False)
   \<or> list_ex (\<lambda>(_, s). sl_target s = external \<and> sl_master s = master \<and> sl_date_raw s = date) (cs_sources st)
   \<or> external = master
   \<or> list_ex (\<lambda>i. le32 (rows ! i) 0x13 = external) indices
   \<or> list_ex (\<lambda>p. jp_master p = master \<and> jp_date_raw p = date \<and> jp_account p = external)
       (bt_values (cs_postings st))
   \<or> list_ex (\<lambda>z. jz_master z = master \<and> jz_date_raw z = date \<and> jz_account z = external)
       (bt_values (cs_zeroes st))"

definition classify_chain ::
    "sa_calendar \<Rightarrow> byte list list \<Rightarrow> class_state \<Rightarrow> u32 list \<Rightarrow> group_key \<Rightarrow> nat list \<Rightarrow>
     (journal_error, unit) outcome" where
  "classify_chain cal rows st targets k indices =
     (case k of (master, date, view) \<Rightarrow>
      let group_targets = map (\<lambda>i. le32 (rows ! i) 0x0b) indices;
          start = \<lparr>ch_linked = 0, ch_terminal = 0, ch_terminal_target = None, ch_outgoing = [],
                   ch_incoming = fold (\<lambda>t m. bt_insert t 0 m) group_targets []\<rparr> in
      rbind (ensure (length indices \<in> {2, 4, 6}) AuxiliaryTopologyMismatch) (\<lambda>_.
      rbind (ensure (length (remdups group_targets) = length indices) AuxiliaryTopologyMismatch) (\<lambda>_.
      rbind (rfold (chain_row cal rows targets indices k) indices start) (\<lambda>ch.
      rbind (ensure (ch_linked ch + 1 = length indices \<and> ch_terminal ch = 1) AuxiliaryTopologyMismatch) (\<lambda>_.
      rbind (case filter (\<lambda>(_, n). n = 0) (ch_incoming ch) of
               [(head, _)] \<Rightarrow> Ok head | _ \<Rightarrow> Err AuxiliaryTopologyMismatch) (\<lambda>head.
      rbind (ok_or (ch_terminal_target ch) AuxiliaryTopologyMismatch) (\<lambda>terminal_target.
      rbind (chain_walk (ch_outgoing ch) terminal_target [] head) (\<lambda>visited.
      rbind (ensure (length visited = length indices) AuxiliaryTopologyMismatch) (\<lambda>_.
      rbind (ok_or (find (\<lambda>i. le32 (rows ! i) 0x0b = terminal_target) indices) AuxiliaryTopologyMismatch)
        (\<lambda>terminal_index.
      let external = le32 (rows ! terminal_index) 0x1d in
      rbind (ensure (external_resolved rows st indices master date external) AuxiliaryTopologyMismatch) (\<lambda>_.
        ensure (master_balance st master = 0) AuxiliaryMasterNotBalanced)))))))))))"

section \<open>All groups\<close>

definition classify_group ::
    "sa_calendar \<Rightarrow> byte list list \<Rightarrow> class_state \<Rightarrow> u32 list \<Rightarrow> group_key \<times> nat list \<Rightarrow>
     disposition option list \<Rightarrow> (journal_error, disposition option list) outcome" where
  "classify_group cal rows st targets g result =
     (case g of (k, indices) \<Rightarrow>
      if length indices = 1 then
        rbind (classify_metadata cal rows st targets k (indices ! 0)) (\<lambda>d.
          Ok (set_result (indices ! 0) d result))
      else
        rbind (classify_chain cal rows st targets k indices) (\<lambda>_.
          Ok (fold (\<lambda>i. set_result i (AuxiliaryLinkChain (fst k) (le32 (rows ! i) 0x0b))) indices result)))"

definition classify_auxiliary_link_chain ::
    "sa_calendar \<Rightarrow> byte list list \<Rightarrow> class_state \<Rightarrow> nat list \<Rightarrow> (journal_error, disposition option list) outcome" where
  "classify_auxiliary_link_chain cal rows st residual =
     (if residual = [] then Ok (cs_result st)
      else
        rbind (rfold (group_row rows st) residual ([], [])) (\<lambda>(targets, groups).
        rbind (ensure (length targets = length residual) AuxiliaryTopologyMismatch) (\<lambda>_.
          rfold (classify_group cal rows st targets) groups (cs_result st))))"

end
