(* ===== verification/Journal_Classification.thy ===== *)
theory Journal_Classification
  imports Journal_Auxiliary
begin

text \<open>
  The rest of \<open>classify_materialized_general_journal_rows_with_header_witnesses\<close>: the transaction
  of every accepted auxiliary chain, the walk of every source link to its destination, the header
  metadata carriers that only a witness explains, and the agreement of the lifecycles of a master.
\<close>

section \<open>The nodes of the graph\<close>

definition auxiliary_core ::
    "sa_calendar \<Rightarrow> byte list list \<Rightarrow> class_state \<Rightarrow> disposition option list \<Rightarrow> nat \<Rightarrow>
     (u32, u32 \<times> u32) btree \<times> u32 list \<Rightarrow> (journal_error, (u32, u32 \<times> u32) btree \<times> u32 list) outcome" where
  "auxiliary_core cal rows st result index acc =
     (case acc of (cores, targets) \<Rightarrow>
      let row = rows ! index in
      rbind (production_required_reference row 0x0b ''auxiliary target'') (\<lambda>target.
      rbind (production_required_reference row 0x0f ''auxiliary master'') (\<lambda>master.
      rbind (u32_at row 0x17) (\<lambda>date_raw.
      rbind (journal_date cal date_raw) (\<lambda>_.
      rbind (ensure (\<not> (bt_get (cs_postings st) target \<noteq> None \<or> bt_get (cs_zeroes st) target \<noteq> None
                \<or> target \<in> set targets)) DuplicateTarget) (\<lambda>_.
        Ok (case result ! index of
              Some (AuxiliaryLinkChain _ _) \<Rightarrow> bt_insert target (master, date_raw) cores
            | _ \<Rightarrow> cores, targets @ [target])))))))"

definition source_node ::
    "class_state \<Rightarrow> u32 list \<Rightarrow> nat \<times> source_link \<Rightarrow> (u32, source_link) btree \<Rightarrow>
     (journal_error, (u32, source_link) btree) outcome" where
  "source_node st residual_targets entry nodes =
     (case entry of (_, s) \<Rightarrow>
        let target = sl_target s in
        if bt_get (cs_postings st) target \<noteq> None \<or> bt_get (cs_zeroes st) target \<noteq> None
           \<or> target \<in> set residual_targets \<or> bt_get nodes target \<noteq> None
        then Err DuplicateTarget
        else Ok (bt_insert target s nodes))"

section \<open>The walk of a source link\<close>

definition has_unique_terminal_source_destination :: "class_state \<Rightarrow> source_link \<Rightarrow> bool" where
  "has_unique_terminal_source_destination st s \<longleftrightarrow>
     length (filter (\<lambda>p. jp_master p = sl_master s \<and> jp_date_raw p = sl_date_raw s
                        \<and> jp_account p = sl_account s) (bt_values (cs_postings st))) = 1"

text \<open>The transaction of a destination: a posting, a canonical zero, or a chain.\<close>

definition destination :: "class_state \<Rightarrow> (u32, u32 \<times> u32) btree \<Rightarrow> u32 \<Rightarrow> (u32 \<times> u32) option" where
  "destination st cores target =
     (case bt_get (cs_postings st) target of
        Some p \<Rightarrow> Some (jp_master p, jp_date_raw p)
      | None \<Rightarrow>
          (case bt_get (cs_zeroes st) target of
             Some z \<Rightarrow> Some (jz_master z, jz_date_raw z)
           | None \<Rightarrow> bt_get cores target))"

text \<open>
  The loop of \<open>ordinary_topology_succeeds\<close>, which the main traversal repeats with an error for
  every \<open>false\<close>. It visits at most one node more than there are source links.
\<close>

function source_walk ::
    "class_state \<Rightarrow> (u32, u32 \<times> u32) btree \<Rightarrow> (u32, source_link) btree \<Rightarrow> source_link \<Rightarrow> u32 list \<Rightarrow> u32 \<Rightarrow>
     bool" where
  "source_walk st cores nodes s visited next_target =
     (if next_target \<in> set visited then False
      else
        (case destination st cores next_target of
           Some t \<Rightarrow> t = (sl_master s, sl_date_raw s)
         | None \<Rightarrow>
             if length nodes < length visited + 1 then False
             else
               (case bt_get nodes next_target of
                  None \<Rightarrow> False
                | Some n \<Rightarrow>
                    if sl_master n \<noteq> sl_master s \<or> sl_date_raw n \<noteq> sl_date_raw s then False
                    else
                      (case sl_next_target n of
                         None \<Rightarrow> has_unique_terminal_source_destination st n
                       | Some t \<Rightarrow> source_walk st cores nodes s (visited @ [next_target]) t))))"
  by pat_completeness auto
termination
  by (relation "measure (\<lambda>(st, cores, nodes, s, visited, t). Suc (length nodes) - length visited)") auto

declare source_walk.simps [simp del]

definition source_resolves ::
    "class_state \<Rightarrow> (u32, u32 \<times> u32) btree \<Rightarrow> (u32, source_link) btree \<Rightarrow> source_link \<Rightarrow> bool" where
  "source_resolves st cores nodes s =
     (case sl_next_target s of
        None \<Rightarrow> has_unique_terminal_source_destination st s
      | Some t \<Rightarrow> source_walk st cores nodes s [] t)"

section \<open>Header metadata\<close>

definition is_header_metadata_family :: "byte list \<Rightarrow> bool" where
  "is_header_metadata_family row \<longleftrightarrow>
     length row = 151 \<and> get_range row 4 11 = Some [0x64, 0x93, 0xff, 0xc0, 0x40, 0x80, 0x20]
   \<or> length row = 201 \<and> get_range row 4 11 = Some [0x64, 0x13, 0xff, 0x80, 0x60, 0x00, 0x20]"

definition witness_matches :: "source_link \<Rightarrow> header_witness \<Rightarrow> bool" where
  "witness_matches s w \<longleftrightarrow> hw_date_raw w = sl_date_raw s \<and> Some (hw_group w) = sl_next_target s"

definition master_postings :: "class_state \<Rightarrow> u32 \<Rightarrow> journal_posting list" where
  "master_postings st master = filter (\<lambda>p. jp_master p = master) (bt_values (cs_postings st))"

definition header_metadata ::
    "class_state \<Rightarrow> header_witness list \<Rightarrow> source_link \<Rightarrow> (journal_error, disposition) outcome" where
  "header_metadata st witnesses s =
     rbind (if sl_master s = - 1 then Err SourceTopologyMismatch else Ok (sl_master s + 1)) (\<lambda>expected_id.
       let matching = filter (witness_matches s) witnesses;
           expected_id_count = length (filter (\<lambda>w. hw_id w = expected_id) witnesses);
           postings = master_postings st (sl_master s);
           all_same_date = (postings \<noteq> [] \<and> list_all (\<lambda>p. jp_date_raw p = sl_date_raw s) postings);
           balanced = ((\<Sum>p\<leftarrow>postings. sint (jp_signed_cents p)) = 0) in
       if length matching \<noteq> 1 \<or> hw_id (matching ! 0) \<noteq> expected_id \<or> expected_id_count \<noteq> 1
          \<or> \<not> all_same_date \<or> \<not> balanced
       then Err SourceTopologyMismatch
       else rbind (or_panic (sl_next_target s)) (\<lambda>group. Ok (HeaderMetadataCarrier (sl_master s) group)))"

definition classify_source ::
    "byte list list \<Rightarrow> class_state \<Rightarrow> (u32, u32 \<times> u32) btree \<Rightarrow> (u32, source_link) btree \<Rightarrow>
     header_witness list \<Rightarrow> nat \<times> source_link \<Rightarrow> disposition option list \<Rightarrow>
     (journal_error, disposition option list) outcome" where
  "classify_source rows st cores nodes witnesses entry result =
     (case entry of (index, s) \<Rightarrow>
        if is_header_metadata_family (rows ! index) \<and> witnesses \<noteq> [] \<and> \<not> source_resolves st cores nodes s
        then rbind (header_metadata st witnesses s) (\<lambda>d. Ok (set_result index d result))
        else if \<not> source_resolves st cores nodes s then Err SourceTopologyMismatch
        else Ok (set_result index (SourceOrLink s) result))"

section \<open>The table\<close>

definition check_lifecycle ::
    "journal_posting \<Rightarrow> (u32, bool \<times> bool) btree \<Rightarrow> (journal_error, (u32, bool \<times> bool) btree) outcome" where
  "check_lifecycle p seen =
     (if (case bt_get seen (jp_master p) of Some prior \<Rightarrow> prior \<noteq> jp_lifecycle p | None \<Rightarrow> False)
      then Err ConflictingLifecycle
      else Ok (bt_insert (jp_master p) (jp_lifecycle p) seen))"

definition classify_with_header_witnesses ::
    "sa_calendar \<Rightarrow> byte list list \<Rightarrow> header_witness list \<Rightarrow> (journal_error, disposition list) outcome" where
  "classify_with_header_witnesses cal rows witnesses =
     (let residual = identify_auxiliary_candidate_indices rows in
      rbind (rfold (classify_row cal residual) (enumerate 0 rows) class_start) (\<lambda>st.
      rbind (classify_auxiliary_link_chain cal rows st residual) (\<lambda>result.
      rbind (rfold (auxiliary_core cal rows st result) residual ([], [])) (\<lambda>(cores, residual_targets).
      rbind (rfold (source_node st residual_targets) (cs_sources st) []) (\<lambda>nodes.
      rbind (rfold (classify_source rows st cores nodes witnesses) (cs_sources st) result) (\<lambda>result.
      rbind (rfold check_lifecycle (bt_values (cs_postings st)) []) (\<lambda>_.
        ok_or (those result) UnclassifiedCarrier)))))))"

definition classify_journal_rows ::
    "sa_calendar \<Rightarrow> byte list list \<Rightarrow> (journal_error, disposition list) outcome" where
  "classify_journal_rows cal rows = classify_with_header_witnesses cal rows []"

definition validate_master_balances :: "journal_posting list \<Rightarrow> (journal_error, unit) outcome" where
  "validate_master_balances rows =
     (case find (\<lambda>(_, balance). balance \<noteq> 0)
             (fold (\<lambda>p. bt_add (jp_master p) (sint (jp_signed_cents p))) rows []) of
        Some (master, balance) \<Rightarrow> Err (UnbalancedMaster master balance)
      | None \<Rightarrow> Ok ())"

end
