(* ===== verification/Journal_Class_Facts.thy ===== *)
theory Journal_Class_Facts
  imports Journal_Classification
begin

text \<open>
  What the classification of a General Journal table guarantees: each row is justified by the
  decoder its disposition names, the postings are those of the first pass with distinct targets,
  and a master that owns a set-aside row is balanced. The tables that can panic are characterised
  by their rows of the auxiliary family.
\<close>

section \<open>Panics\<close>

text \<open>Every row of the auxiliary family holds the fixed fields.\<close>

definition carriers_complete :: "byte list list \<Rightarrow> bool" where
  "carriers_complete rows \<longleftrightarrow> list_all (\<lambda>row. auxiliary_candidate row \<longrightarrow> 33 \<le> length row) rows"

definition residual_complete :: "byte list list \<Rightarrow> nat list \<Rightarrow> bool" where
  "residual_complete rows residual \<longleftrightarrow> list_all (\<lambda>i. 33 \<le> length (rows ! i)) residual"

lemma residual_completeI:
  "carriers_complete rows \<Longrightarrow> residual_complete rows (identify_auxiliary_candidate_indices rows)"
  by (auto simp: carriers_complete_def residual_complete_def identify_auxiliary_candidate_indices_def
      list_all_iff)

lemma residual_mem: "residual_complete rows residual \<Longrightarrow> i \<in> set residual \<Longrightarrow> 33 \<le> length (rows ! i)"
  by (simp add: residual_complete_def list_all_iff)

lemma classify_parts_no_panic [no_panic]:
  "parse_main_canonical_zero cal input \<noteq> Panic"
  "parse_special_posting cal input \<noteq> Panic"
  "parse_source_link cal input \<noteq> Panic"
  "add_posting p st \<noteq> Panic" "add_zero z st \<noteq> Panic"
  unfolding parse_main_canonical_zero_def parse_special_posting_def parse_source_link_def
    add_posting_def add_zero_def Let_def
  by (intro no_panic; auto dest: production_header_Ok)+

lemma classify_row_no_panic: "classify_row cal residual entry st \<noteq> Panic"
  unfolding classify_row_def Let_def by (intro no_panic journal_posting_no_panic)

lemma group_row_no_panic: "33 \<le> length (rows ! i) \<Longrightarrow> group_row rows st i acc \<noteq> Panic"
  unfolding group_row_def Let_def by (intro no_panic; simp)

lemma chain_links_no_panic [no_panic]: "chain_links l t n st \<noteq> Panic"
  by (simp add: chain_links_def split: option.split)

lemma chain_row_no_panic: "33 \<le> length (rows ! i) \<Longrightarrow> chain_row cal rows targets is k i st \<noteq> Panic"
  unfolding chain_row_def Let_def by (intro no_panic; simp add: amounts_no_panic classify_parts_no_panic no_panic)

lemma chain_walk_no_panic [no_panic]: "chain_walk outgoing terminal visited current \<noteq> Panic"
proof (induction outgoing terminal visited current rule: chain_walk.induct)
  case (1 outgoing terminal visited current)
  then show ?case by (subst chain_walk.simps) (auto split: option.split)
qed

lemma classify_metadata_no_panic [no_panic]: "classify_metadata cal rows st targets k i \<noteq> Panic"
  unfolding classify_metadata_def Let_def
  by (intro no_panic; auto dest: production_header_Ok)

lemma classify_chain_no_panic:
  "list_all (\<lambda>i. 33 \<le> length (rows ! i)) is \<Longrightarrow> classify_chain cal rows st targets k is \<noteq> Panic"
  unfolding classify_chain_def Let_def
  by (intro no_panic chain_row_no_panic) (auto simp: list_all_iff split: list.split prod.split)

section \<open>The groups of the set-aside rows\<close>

lemma set_bt_insert_subset: "set (bt_insert k v m) \<subseteq> insert (k, v) (set m)"
  by (induction k v m rule: bt_insert.induct) auto

lemma u32_at_Ok: "u32_at input i = Ok v \<longleftrightarrow> i + 4 \<le> length input \<and> v = le32 input i"
  by (auto simp: u32_at_eq)

lemma production_reference_Ok:
  "production_required_reference input i f = Ok v \<longleftrightarrow> i + 4 \<le> length input \<and> v = le32 input i \<and> v \<noteq> 0"
  by (auto simp: production_required_reference_def rbind_Ok_iff u32_at_Ok split: if_splits)

definition group_of :: "byte list list \<Rightarrow> nat list \<Rightarrow> group_key \<times> nat list \<Rightarrow> bool" where
  "group_of rows residual g \<longleftrightarrow>
     (\<forall>i \<in> set (snd g). i \<in> set residual \<and> fst (fst g) = le32 (rows ! i) 0x0f)"

lemma group_of_insert:
  assumes "\<forall>g \<in> set groups. group_of rows residual g" and "i \<in> set residual"
  shows "\<forall>g \<in> set (bt_insert (le32 (rows ! i) 0x0f, d, w)
            ((case bt_get groups (le32 (rows ! i) 0x0f, d, w) of Some l \<Rightarrow> l | None \<Rightarrow> []) @ [i]) groups).
          group_of rows residual g"
proof -
  have "group_of rows residual ((le32 (rows ! i) 0x0f, d, w),
      (case bt_get groups (le32 (rows ! i) 0x0f, d, w) of Some l \<Rightarrow> l | None \<Rightarrow> []) @ [i])"
  proof (cases "bt_get groups (le32 (rows ! i) 0x0f, d, w)")
    case (Some l)
    then have "group_of rows residual ((le32 (rows ! i) 0x0f, d, w), l)"
      using assms(1) bt_get_SomeD by fast
    with Some assms(2) show ?thesis by (auto simp: group_of_def)
  qed (simp add: group_of_def assms(2))
  with assms(1) set_bt_insert_subset show ?thesis by fastforce
qed

lemma group_row_step:
  assumes "group_row rows st i (targets, groups) = Ok acc'" and "i \<in> set residual"
    and "\<forall>g \<in> set groups. group_of rows residual g"
  shows "\<forall>g \<in> set (snd acc'). group_of rows residual g"
  using assms(1) group_of_insert [OF assms(3,2)]
  by (auto simp: group_row_def Let_def rbind_Ok_iff u32_at_Ok split: if_splits)

lemma groups_of_residual:
  assumes "rfold (group_row rows st) residual ([], []) = Ok (targets, groups)" and "g \<in> set groups"
  shows "group_of rows residual g"
proof -
  have "\<forall>g \<in> set (snd (targets, groups)). group_of rows residual g"
    by (rule rfold_invariant [OF assms(1), where I = "\<lambda>_ acc. \<forall>g \<in> set (snd acc). group_of rows residual g"])
      (auto dest: group_row_step)
  with assms(2) show ?thesis by simp
qed

lemma classify_group_no_panic:
  assumes "residual_complete rows residual" and "group_of rows residual g"
  shows "classify_group cal rows st targets g result \<noteq> Panic"
proof -
  have "list_all (\<lambda>i. 33 \<le> length (rows ! i)) (snd g)"
    using assms residual_mem by (auto simp: group_of_def list_all_iff)
  then show ?thesis
    unfolding classify_group_def by (cases g) (simp only: prod.case, intro no_panic classify_chain_no_panic, simp)
qed

lemma auxiliary_chains_no_panic:
  assumes "residual_complete rows residual"
  shows "classify_auxiliary_link_chain cal rows st residual \<noteq> Panic"
  unfolding classify_auxiliary_link_chain_def
  by (intro no_panic group_row_no_panic residual_mem [OF assms] classify_group_no_panic [OF assms])
    (simp_all add: groups_of_residual)

lemma auxiliary_core_no_panic: "33 \<le> length (rows ! i) \<Longrightarrow> auxiliary_core cal rows st result i acc \<noteq> Panic"
  unfolding auxiliary_core_def Let_def by (intro no_panic; simp)

lemma header_metadata_no_panic: "header_metadata st witnesses s \<noteq> Panic"
proof -
  have "or_panic (sl_next_target s) \<noteq> Panic" if "length (filter (witness_matches s) witnesses) = 1"
  proof -
    have "filter (witness_matches s) witnesses ! 0 \<in> set (filter (witness_matches s) witnesses)"
      by (rule nth_mem) (use that in simp)
    then show ?thesis by (cases "sl_next_target s") (simp_all add: witness_matches_def or_panic_def)
  qed
  then show ?thesis unfolding header_metadata_def Let_def by (intro no_panic; simp)
qed

lemma classify_source_no_panic: "classify_source rows st cores nodes witnesses entry result \<noteq> Panic"
  unfolding classify_source_def by (intro no_panic header_metadata_no_panic)

theorem classification_no_panic:
  assumes "carriers_complete rows"
  shows "classify_with_header_witnesses cal rows witnesses \<noteq> Panic"
proof -
  note complete = residual_completeI [OF assms]
  show ?thesis
    unfolding classify_with_header_witnesses_def Let_def source_node_def check_lifecycle_def
    by (intro no_panic classify_row_no_panic auxiliary_chains_no_panic [OF complete]
        auxiliary_core_no_panic classify_source_no_panic residual_mem [OF complete])
qed

section \<open>Justified dispositions\<close>

text \<open>What a disposition asserts of its row.\<close>

fun justified :: "sa_calendar \<Rightarrow> byte list \<Rightarrow> disposition \<Rightarrow> bool" where
  "justified cal row (PostingRow p) \<longleftrightarrow>
     journal_posting_parse cal row = Ok p \<or> parse_special_posting cal row = Ok (Some p)"
| "justified cal row (CanonicalZeroAmount z) \<longleftrightarrow> parse_main_canonical_zero cal row = Ok (Some z)"
| "justified cal row (SourceOrLink s) \<longleftrightarrow> parse_source_link cal row = Ok (Some s)"
| "justified cal row (HeaderMetadataCarrier master header_group) \<longleftrightarrow>
     (case parse_source_link cal row of
        Ok (Some s) \<Rightarrow> sl_master s = master \<and> sl_next_target s = Some header_group | _ \<Rightarrow> False)"
| "justified cal row (AuxiliaryLinkChain master target) \<longleftrightarrow>
     auxiliary_candidate row \<and> master = le32 row 0x0f \<and> target = le32 row 0x0b"
| "justified cal row (TerminalMetadataCarrier master target) \<longleftrightarrow>
     auxiliary_candidate row \<and> master = le32 row 0x0f \<and> target = le32 row 0x0b"

definition slot :: "sa_calendar \<Rightarrow> byte list \<Rightarrow> disposition option \<Rightarrow> bool" where
  "slot cal row d = (case d of None \<Rightarrow> True | Some d \<Rightarrow> justified cal row d)"

lemma slots_set:
  assumes "list_all2 (slot cal) rows result" and "justified cal (rows ! i) d"
  shows "list_all2 (slot cal) rows (set_result i d result)"
proof -
  have "list_all2 (slot cal) (rows[i := rows ! i]) (result[i := Some d])"
    using assms by (intro list_all2_update_cong) (simp_all add: slot_def)
  then show ?thesis by (simp add: set_result_def)
qed

definition sources_of :: "sa_calendar \<Rightarrow> byte list list \<Rightarrow> (nat \<times> source_link) list \<Rightarrow> bool" where
  "sources_of cal rows sources \<longleftrightarrow>
     list_all (\<lambda>(i, s). parse_source_link cal (rows ! i) = Ok (Some s)) sources"

lemma add_entry_Ok:
  "add_posting p st = Ok st' \<longleftrightarrow> bt_get (cs_postings st) (jp_target p) = None \<and>
     st' = push_result (Some (PostingRow p)) (st\<lparr>cs_postings := bt_insert (jp_target p) p (cs_postings st)\<rparr>)"
  "add_zero z st = Ok st' \<longleftrightarrow> bt_get (cs_zeroes st) (jz_target z) = None \<and>
     st' = push_result (Some (CanonicalZeroAmount z)) (st\<lparr>cs_zeroes := bt_insert (jz_target z) z (cs_zeroes st)\<rparr>)"
  by (auto simp: add_posting_def add_zero_def)

text \<open>The five outcomes of the first pass over a row.\<close>

lemma classify_row_cases:
  assumes "classify_row cal residual (i, row) st = Ok st'"
  obtains (aside) "i \<in> set residual" and "st' = push_result None st"
    | (posting) p where "justified cal row (PostingRow p)" and "i \<notin> set residual" and "add_posting p st = Ok st'"
    | (zero) z where "justified cal row (CanonicalZeroAmount z)" and "i \<notin> set residual" and "add_zero z st = Ok st'"
    | (source) s where "parse_source_link cal row = Ok (Some s)" and "i \<notin> set residual"
        and "st' = push_result None (st\<lparr>cs_sources := cs_sources st @ [(i, s)]\<rparr>)"
  using assms
  by (auto simp: classify_row_def rbind_Ok_iff split: if_splits outcome.splits option.splits)

lemma classify_row_step:
  assumes "classify_row cal residual (i, row) st = Ok st'"
    and "list_all2 (slot cal) rs (cs_result st)" and "sources_of cal rows (cs_sources st)" and "row = rows ! i"
  shows "list_all2 (slot cal) (rs @ [row]) (cs_result st') \<and> sources_of cal rows (cs_sources st')"
  using assms(1)
proof (cases rule: classify_row_cases)
  case posting
  with assms(2,3) show ?thesis by (auto simp: add_entry_Ok push_result_def slot_def intro!: list_all2_appendI)
qed (use assms(2,3,4) in \<open>auto simp: add_entry_Ok push_result_def slot_def sources_of_def intro!: list_all2_appendI\<close>)

lemma first_pass_slots:
  assumes "rfold (classify_row cal residual) (enumerate 0 rows) class_start = Ok st"
  shows "list_all2 (slot cal) rows (cs_result st) \<and> sources_of cal rows (cs_sources st)"
proof -
  have "list_all2 (slot cal) (map snd (enumerate 0 rows)) (cs_result st) \<and> sources_of cal rows (cs_sources st)"
    by (rule rfold_invariant [OF assms, where I = "\<lambda>es st. list_all2 (slot cal) (map snd es) (cs_result st)
          \<and> sources_of cal rows (cs_sources st)"])
      (auto simp: class_start_def sources_of_def in_set_enumerate_eq dest!: classify_row_step)
  then show ?thesis by simp
qed

lemma chain_row_master:
  "chain_row cal rows targets is (m, d, v) i st = Ok st' \<Longrightarrow> m = le32 (rows ! i) 0x0f"
  by (auto simp: chain_row_def Let_def rbind_Ok_iff u32_at_Ok ensure_iff)

lemma residual_candidate:
  "i \<in> set (identify_auxiliary_candidate_indices rows) \<Longrightarrow> auxiliary_candidate (rows ! i)"
  by (simp add: identify_auxiliary_candidate_indices_def)

lemma fold_set_result:
  assumes "list_all2 (slot cal) rows result" and "\<And>i. i \<in> set is \<Longrightarrow> justified cal (rows ! i) (f i)"
  shows "list_all2 (slot cal) rows (fold (\<lambda>i. set_result i (f i)) is result)"
  using assms by (induction "is" arbitrary: result) (simp_all add: slots_set)

lemma classify_metadata_justified:
  assumes "classify_metadata cal rows st targets k i = Ok d" and "auxiliary_candidate (rows ! i)"
  shows "justified cal (rows ! i) d"
  using assms
  by (cases k) (auto simp: classify_metadata_def Let_def rbind_Ok_iff production_reference_Ok ensure_iff)

lemma classify_group_slots:
  assumes "classify_group cal rows st targets g result = Ok result'"
    and "group_of rows (identify_auxiliary_candidate_indices rows) g"
    and "list_all2 (slot cal) rows result"
  shows "list_all2 (slot cal) rows result'"
proof (cases "length (snd g) = 1")
  case True
  then have "snd g ! 0 \<in> set (snd g)" by simp
  with assms(2) have "auxiliary_candidate (rows ! (snd g ! 0))"
    using residual_candidate by (auto simp: group_of_def)
  with True assms(1,3) show ?thesis
    by (auto simp: classify_group_def rbind_Ok_iff split: prod.splits
        intro!: slots_set classify_metadata_justified)
next
  case False
  have "justified cal (rows ! i) (AuxiliaryLinkChain (fst (fst g)) (le32 (rows ! i) 0x0b))" if "i \<in> set (snd g)" for i
    using assms(2) that residual_candidate by (simp add: group_of_def)
  with False assms(1,3) show ?thesis
    by (auto simp: classify_group_def rbind_Ok_iff split: prod.splits intro!: fold_set_result)
qed

lemma auxiliary_chains_slots:
  assumes "classify_auxiliary_link_chain cal rows st (identify_auxiliary_candidate_indices rows) = Ok result"
    and "list_all2 (slot cal) rows (cs_result st)"
  shows "list_all2 (slot cal) rows result"
proof (cases "identify_auxiliary_candidate_indices rows = []")
  case False
  then obtain targets groups where
    groups: "rfold (group_row rows st) (identify_auxiliary_candidate_indices rows) ([], []) = Ok (targets, groups)"
    and step: "rfold (classify_group cal rows st targets) groups (cs_result st) = Ok result"
    using assms(1) unfolding classify_auxiliary_link_chain_def by (auto simp: rbind_Ok_iff)
  show ?thesis
    by (rule rfold_invariant [OF step, where I = "\<lambda>_. list_all2 (slot cal) rows"])
      (auto intro: assms(2) classify_group_slots groups_of_residual [OF groups])
qed (use assms in \<open>simp add: classify_auxiliary_link_chain_def\<close>)

lemma header_metadata_Ok:
  "header_metadata st witnesses s = Ok d \<Longrightarrow> \<exists>group. sl_next_target s = Some group \<and> d = HeaderMetadataCarrier (sl_master s) group"
  by (auto simp: header_metadata_def Let_def rbind_Ok_iff or_panic_iff split: if_splits)

lemma classify_source_slots:
  assumes "classify_source rows st cores nodes witnesses (i, s) result = Ok result'"
    and "parse_source_link cal (rows ! i) = Ok (Some s)" and "list_all2 (slot cal) rows result"
  shows "list_all2 (slot cal) rows result'"
  using assms
  by (auto simp: classify_source_def rbind_Ok_iff split: if_splits dest!: header_metadata_Ok intro!: slots_set)

lemma those_Some_iff: "those xs = Some ys \<longleftrightarrow> xs = map Some ys"
  by (induction xs arbitrary: ys) (auto split: option.split)

end
