(* ===== verification/Journal_Class_Properties.thy ===== *)
theory Journal_Class_Properties
  imports Journal_Class_Facts "HOL-Library.Multiset"
begin

text \<open>
  The postings of a classified table: they are the postings of the first pass, no two have the same
  target, those of one master agree on the lifecycle, and they balance for every master that owns a
  set-aside row. At the end,
  the bounded walk of source links is the unbounded one.
\<close>

section \<open>The postings of a result\<close>

definition posting_rows :: "disposition option \<Rightarrow> journal_posting list" where
  "posting_rows d = (case d of Some (PostingRow p) \<Rightarrow> [p] | _ \<Rightarrow> [])"

definition postings_of :: "disposition list \<Rightarrow> journal_posting list" where
  "postings_of ds = concat (map (\<lambda>d. posting_rows (Some d)) ds)"

definition posting_sum :: "journal_posting list \<Rightarrow> u32 \<Rightarrow> int" where
  "posting_sum ps master = (\<Sum>p\<leftarrow>filter (\<lambda>p. jp_master p = master) ps. sint (jp_signed_cents p))"

text \<open>The master of a row that is set aside without an amount.\<close>

fun carried_master :: "disposition \<Rightarrow> u32 option" where
  "carried_master (AuxiliaryLinkChain master _) = Some master"
| "carried_master (TerminalMetadataCarrier master _) = Some master"
| "carried_master (HeaderMetadataCarrier master _) = Some master"
| "carried_master _ = None"

lemma posting_sum_mset:
  assumes "mset ps = mset qs"
  shows "posting_sum ps m = posting_sum qs m"
proof -
  have "posting_sum xs m = (\<Sum>p\<in>#filter_mset (\<lambda>p. jp_master p = m) (mset xs). sint (jp_signed_cents p))" for xs
    by (simp add: posting_sum_def flip: mset_filter sum_mset_sum_list mset_map)
  with assms show ?thesis by simp
qed

lemma postings_in_set:
  assumes "posting_rows (Some d) = []" and "i < length result \<Longrightarrow> posting_rows (result ! i) = []"
  shows "concat (map posting_rows (set_result i d result)) = concat (map posting_rows result)"
proof (cases "i < length result")
  case True
  then show ?thesis
    using assms unfolding set_result_def
    by (subst (2) id_take_nth_drop [OF True]) (simp add: upd_conv_take_nth_drop)
qed (simp add: set_result_def list_update_beyond)

section \<open>The first pass\<close>

text \<open>
  The map of postings holds the postings of the result under their targets; the rows still open are
  those set aside and the source links.
\<close>

definition bookkeeping :: "nat list \<Rightarrow> class_state \<Rightarrow> bool" where
  "bookkeeping residual st \<longleftrightarrow>
     bt_ok (cs_postings st) \<and> (\<forall>(k, p) \<in> set (cs_postings st). k = jp_target p)
   \<and> mset (bt_values (cs_postings st)) = mset (concat (map posting_rows (cs_result st)))
   \<and> (\<forall>i \<in> set residual \<union> fst ` set (cs_sources st). i < length (cs_result st) \<longrightarrow> cs_result st ! i = None)
   \<and> (\<forall>i \<in> fst ` set (cs_sources st). i < length (cs_result st))
   \<and> (\<forall>d \<in> set (cs_result st). pred_option (\<lambda>d. carried_master d = None) d)"

lemma mset_bt_insert: "bt_get m k = None \<Longrightarrow> mset (bt_insert k v m) = add_mset (k, v) (mset m)"
  by (induction k v m rule: bt_insert.induct) (auto simp: bt_get_def split: if_splits)

lemma bookkeeping_push:
  assumes "bookkeeping residual st" and "posting_rows d = []" and "pred_option (\<lambda>d. carried_master d = None) d"
    and "length (cs_result st) \<in> set residual \<Longrightarrow> d = None"
  shows "bookkeeping residual (push_result d st)"
  using assms unfolding bookkeeping_def push_result_def
  by (auto simp: nth_append less_Suc_eq)

lemma bookkeeping_posting:
  assumes "bookkeeping residual st" and "add_posting p st = Ok st'" and "length (cs_result st) \<notin> set residual"
  shows "bookkeeping residual st'"
proof -
  have none: "bt_get (cs_postings st) (jp_target p) = None"
    and st': "st' = push_result (Some (PostingRow p))
        (st\<lparr>cs_postings := bt_insert (jp_target p) p (cs_postings st)\<rparr>)"
    using assms(2) by (simp_all add: add_entry_Ok)
  have "mset (bt_values (bt_insert (jp_target p) p (cs_postings st)))
      = add_mset p (mset (bt_values (cs_postings st)))"
    unfolding bt_values_def mset_map mset_bt_insert [OF none] by simp
  moreover have "\<forall>(k, q) \<in> set (bt_insert (jp_target p) p (cs_postings st)). k = jp_target q"
    using assms(1) set_bt_insert_subset by (fastforce simp: bookkeeping_def)
  ultimately show ?thesis
    using assms(1,3) unfolding bookkeeping_def st' push_result_def
    by (auto simp: nth_append less_Suc_eq posting_rows_def intro: bt_ok_insert)
qed

lemma bookkeeping_zero:
  assumes "bookkeeping residual st" and "add_zero z st = Ok st'" and "length (cs_result st) \<notin> set residual"
  shows "bookkeeping residual st'"
proof -
  have "bookkeeping residual (st\<lparr>cs_zeroes := bt_insert (jz_target z) z (cs_zeroes st)\<rparr>)"
    using assms(1) by (simp add: bookkeeping_def)
  with assms(2,3) show ?thesis
    by (auto simp: add_entry_Ok posting_rows_def intro!: bookkeeping_push)
qed

lemma bookkeeping_source:
  assumes "bookkeeping residual st" and "length (cs_result st) \<notin> set residual"
  shows "bookkeeping residual (push_result None (st\<lparr>cs_sources := cs_sources st @ [(length (cs_result st), s)]\<rparr>))"
  using assms unfolding bookkeeping_def push_result_def
  by (auto simp: nth_append less_Suc_eq posting_rows_def)

lemma bookkeeping_step:
  assumes "classify_row cal residual (length (cs_result st), row) st = Ok st'" and "bookkeeping residual st"
  shows "bookkeeping residual st' \<and> length (cs_result st') = Suc (length (cs_result st))"
  using assms(1)
proof (cases rule: classify_row_cases)
  case aside
  with assms(2) show ?thesis by (simp add: bookkeeping_push posting_rows_def) (simp add: push_result_def)
next
  case (posting p)
  with bookkeeping_posting [OF assms(2)] show ?thesis by (auto simp: add_entry_Ok push_result_def)
next
  case (zero z)
  with bookkeeping_zero [OF assms(2)] show ?thesis by (auto simp: add_entry_Ok push_result_def)
next
  case (source s)
  with bookkeeping_source [OF assms(2)] show ?thesis by (simp add: push_result_def)
qed

lemma first_pass_bookkeeping:
  "rfold (classify_row cal residual) (enumerate (length (cs_result st)) rs) st = Ok st' \<Longrightarrow>
     bookkeeping residual st \<Longrightarrow> bookkeeping residual st'"
proof (induction rs arbitrary: st)
  case (Cons r rs)
  then obtain st1 where step: "classify_row cal residual (length (cs_result st), r) st = Ok st1"
    and rest: "rfold (classify_row cal residual) (enumerate (Suc (length (cs_result st))) rs) st1 = Ok st'"
    by (auto simp: rbind_Ok_iff)
  from bookkeeping_step [OF step Cons.prems(2)] Cons.IH [of st1] rest show ?case by simp
qed simp

section \<open>After the first pass\<close>

text \<open>Only open rows are filled, with dispositions that are no postings, so the postings stay.\<close>

definition filling :: "class_state \<Rightarrow> nat set \<Rightarrow> disposition option list \<Rightarrow> bool" where
  "filling st I result \<longleftrightarrow>
     concat (map posting_rows result) = concat (map posting_rows (cs_result st))
   \<and> (\<forall>i \<in> I. i < length result \<longrightarrow> posting_rows (result ! i) = [])
   \<and> (\<forall>d \<in> set result. pred_option (\<lambda>d. pred_option (\<lambda>m. master_balance st m = 0) (carried_master d)) d)"

lemma filling_start:
  "bookkeeping residual st \<Longrightarrow> filling st (set residual \<union> fst ` set (cs_sources st)) (cs_result st)"
  unfolding filling_def bookkeeping_def by (auto simp: posting_rows_def pred_option_def)

lemma filling_set:
  assumes "filling st I result" and "i \<in> I" and "posting_rows (Some d) = []"
    and "pred_option (\<lambda>m. master_balance st m = 0) (carried_master d)"
  shows "filling st I (set_result i d result)"
proof -
  have "concat (map posting_rows (set_result i d result)) = concat (map posting_rows result)"
    using assms by (intro postings_in_set) (auto simp: filling_def)
  moreover have "posting_rows (set_result i d result ! j) = []" if "j \<in> I" and "j < length result" for j
    using assms that by (cases "i = j") (simp_all add: set_result_def filling_def)
  ultimately show ?thesis
    using assms set_update_subset_insert [of result i "Some d"]
    unfolding filling_def by (auto simp: set_result_def)
qed

lemma fold_filling:
  assumes "filling st I result" and "set is \<subseteq> I" and "master_balance st m = 0"
  shows "filling st I (fold (\<lambda>i. set_result i (AuxiliaryLinkChain m (f i))) is result)"
  using assms
proof (induction "is" arbitrary: result)
  case (Cons i "is")
  then have "filling st I (set_result i (AuxiliaryLinkChain m (f i)) result)"
    by (intro filling_set) (simp_all add: posting_rows_def)
  with Cons show ?case by simp
qed simp

lemma classify_metadata_balanced:
  "classify_metadata cal rows st targets (m, dt, v) i = Ok d \<Longrightarrow>
     \<exists>t. d = TerminalMetadataCarrier m t \<and> master_balance st m = 0"
  by (auto simp: classify_metadata_def Let_def rbind_Ok_iff ensure_iff)

lemma classify_chain_balanced:
  "classify_chain cal rows st targets (m, dt, v) is = Ok u \<Longrightarrow> master_balance st m = 0"
  unfolding classify_chain_def Let_def prod.case rbind_Ok_iff by (auto simp: ensure_iff)

lemma classify_group_filling:
  assumes "classify_group cal rows st targets g result = Ok result'" and "group_of rows residual g"
    and "set residual \<subseteq> I" and "filling st I result"
  shows "filling st I result'"
proof -
  obtain m dt v "is" where g: "g = ((m, dt, v), is)" by (cases g) auto
  have I: "set is \<subseteq> I" using assms(2,3) by (auto simp: group_of_def g)
  show ?thesis
  proof (cases "length is = 1")
    case True
    then have "is ! 0 \<in> I" using I nth_mem [of 0 "is"] by auto
    with True assms(1,4) show ?thesis
      by (auto simp: classify_group_def g rbind_Ok_iff posting_rows_def dest!: classify_metadata_balanced
          intro!: filling_set)
  next
    case False
    with assms(1,4) I show ?thesis
      by (auto simp: classify_group_def g rbind_Ok_iff dest!: classify_chain_balanced intro!: fold_filling)
  qed
qed

lemma auxiliary_chains_filling:
  assumes "classify_auxiliary_link_chain cal rows st residual = Ok result" and "set residual \<subseteq> I"
    and "filling st I (cs_result st)"
  shows "filling st I result"
proof (cases "residual = []")
  case False
  then obtain targets groups where
    groups: "rfold (group_row rows st) residual ([], []) = Ok (targets, groups)"
    and step: "rfold (classify_group cal rows st targets) groups (cs_result st) = Ok result"
    using assms(1) unfolding classify_auxiliary_link_chain_def by (auto simp: rbind_Ok_iff)
  show ?thesis
    by (rule rfold_invariant [OF step, where I = "\<lambda>_. filling st I"])
      (auto intro: assms(3) classify_group_filling [OF _ _ assms(2)] groups_of_residual [OF groups])
qed (use assms in \<open>simp add: classify_auxiliary_link_chain_def\<close>)

lemma header_metadata_balanced:
  "header_metadata st witnesses s = Ok d \<Longrightarrow>
     \<exists>g. d = HeaderMetadataCarrier (sl_master s) g \<and> master_balance st (sl_master s) = 0"
  by (auto simp: header_metadata_def master_postings_def master_balance_def Let_def rbind_Ok_iff split: if_splits)

lemma classify_source_filling:
  assumes "classify_source rows st cores nodes witnesses (i, s) result = Ok result'" and "i \<in> I"
    and "filling st I result"
  shows "filling st I result'"
  using assms
  by (auto simp: classify_source_def rbind_Ok_iff posting_rows_def split: if_splits
      dest!: header_metadata_balanced intro!: filling_set)

section \<open>Lifecycles\<close>

lemma check_lifecycle_step:
  assumes "check_lifecycle x s = Ok s'" and "\<forall>p \<in> set ys. bt_get s (jp_master p) = Some (jp_lifecycle p)"
    and "p \<in> set (ys @ [x])"
  shows "bt_get s' (jp_master p) = Some (jp_lifecycle p)"
proof -
  have prior: "l = jp_lifecycle x" if "bt_get s (jp_master x) = Some l" for l
    using assms(1) that by (simp add: check_lifecycle_def split: if_splits)
  have s': "s' = bt_insert (jp_master x) (jp_lifecycle x) s"
    using assms(1) by (simp add: check_lifecycle_def split: if_splits)
  show ?thesis
  proof (cases "jp_master p = jp_master x \<and> p \<in> set ys")
    case True
    with assms(2) prior have "jp_lifecycle p = jp_lifecycle x" by metis
    with True show ?thesis by (simp add: s' bt_get_insert)
  qed (use assms(2,3) in \<open>auto simp: s' bt_get_insert\<close>)
qed

lemma lifecycles_agree:
  assumes "rfold check_lifecycle ps [] = Ok seen" and "p \<in> set ps" and "q \<in> set ps" and "jp_master p = jp_master q"
  shows "jp_lifecycle p = jp_lifecycle q"
proof -
  have "\<forall>p \<in> set ps. bt_get seen (jp_master p) = Some (jp_lifecycle p)"
    by (rule rfold_invariant [OF assms(1), where I = "\<lambda>ps seen. \<forall>p \<in> set ps. bt_get seen (jp_master p) = Some (jp_lifecycle p)"])
      (simp, use check_lifecycle_step in blast)
  with assms(2-4) show ?thesis by (metis option.inject)
qed

section \<open>The classification\<close>

text \<open>What a successful classification went through.\<close>

lemma classification_Ok:
  assumes "classify_with_header_witnesses cal rows witnesses = Ok ds"
  obtains st result where
    "rfold (classify_row cal (identify_auxiliary_candidate_indices rows)) (enumerate 0 rows) class_start = Ok st"
    and "classify_auxiliary_link_chain cal rows st (identify_auxiliary_candidate_indices rows) = Ok result"
    and "\<exists>cores nodes. rfold (classify_source rows st cores nodes witnesses) (cs_sources st) result = Ok (map Some ds)"
    and "\<exists>seen. rfold check_lifecycle (bt_values (cs_postings st)) [] = Ok seen"
  using assms unfolding classify_with_header_witnesses_def Let_def
  by (auto simp: rbind_Ok_iff ok_or_iff those_Some_iff)

theorem classification_justified:
  assumes "classify_with_header_witnesses cal rows witnesses = Ok ds"
  shows "list_all2 (justified cal) rows ds"
proof -
  from assms show ?thesis
  proof (rule classification_Ok, elim exE)
    fix st result cores nodes seen
    assume first: "rfold (classify_row cal (identify_auxiliary_candidate_indices rows)) (enumerate 0 rows) class_start = Ok st"
      and chains: "classify_auxiliary_link_chain cal rows st (identify_auxiliary_candidate_indices rows) = Ok result"
      and walk: "rfold (classify_source rows st cores nodes witnesses) (cs_sources st) result = Ok (map Some ds)"
    note slots = first_pass_slots [OF first]
    have "list_all2 (slot cal) rows (map Some ds)"
      by (rule rfold_invariant [OF walk, where I = "\<lambda>_. list_all2 (slot cal) rows"])
        (use slots auxiliary_chains_slots [OF chains] in
          \<open>auto simp: sources_of_def list_all_iff intro: classify_source_slots\<close>)
    then show ?thesis by (simp add: list_all2_map2 slot_def)
  qed
qed

theorem classification_postings:
  assumes "classify_with_header_witnesses cal rows witnesses = Ok ds"
  shows "distinct (map jp_target (postings_of ds))"
    and "list_all (\<lambda>d. pred_option (\<lambda>m. posting_sum (postings_of ds) m = 0) (carried_master d)) ds"
    and "\<forall>p \<in> set (postings_of ds). \<forall>q \<in> set (postings_of ds).
           jp_master p = jp_master q \<longrightarrow> jp_lifecycle p = jp_lifecycle q"
proof -
  obtain st result cores nodes seen where
    first: "rfold (classify_row cal (identify_auxiliary_candidate_indices rows)) (enumerate 0 rows) class_start = Ok st"
    and chains: "classify_auxiliary_link_chain cal rows st (identify_auxiliary_candidate_indices rows) = Ok result"
    and walk: "rfold (classify_source rows st cores nodes witnesses) (cs_sources st) result = Ok (map Some ds)"
    and lifecycles: "rfold check_lifecycle (bt_values (cs_postings st)) [] = Ok seen"
    by (rule classification_Ok [OF assms]) blast
  define I where "I = set (identify_auxiliary_candidate_indices rows) \<union> fst ` set (cs_sources st)"
  have start: "bookkeeping (identify_auxiliary_candidate_indices rows) class_start"
    by (simp add: bookkeeping_def class_start_def bt_values_def)
  have book: "bookkeeping (identify_auxiliary_candidate_indices rows) st"
    by (rule first_pass_bookkeeping [OF _ start, where cal = cal and rs = rows])
      (use first in \<open>simp add: class_start_def\<close>)
  have "filling st I result"
    by (rule auxiliary_chains_filling [OF chains]) (use filling_start [OF book] in \<open>auto simp: I_def\<close>)
  moreover have "filling st I s'" if "x \<in> set (cs_sources st)"
    and "classify_source rows st cores nodes witnesses x s = Ok s'" and "filling st I s" for x s s'
  proof -
    obtain i l where x: "x = (i, l)" by (cases x)
    with that(1) have "i \<in> I" by (force simp: I_def)
    with that(2,3) show ?thesis by (auto simp: x intro: classify_source_filling)
  qed
  ultimately have filled: "filling st I (map Some ds)"
    by (intro rfold_invariant [OF walk, where I = "\<lambda>_. filling st I"]) blast+
  have ps: "mset (bt_values (cs_postings st)) = mset (postings_of ds)"
    using filled book by (simp add: filling_def bookkeeping_def postings_of_def comp_def)
  have keys: "map jp_target (bt_values (cs_postings st)) = map fst (cs_postings st)"
    using book by (auto simp: bookkeeping_def bt_values_def)
  have "distinct (map jp_target (bt_values (cs_postings st)))"
    unfolding keys using book by (intro bt_ok_distinct) (simp add: bookkeeping_def)
  then show "distinct (map jp_target (postings_of ds))"
    using ps by (metis mset_map mset_eq_imp_distinct_iff)
  have "master_balance st m = posting_sum (postings_of ds) m" for m
    unfolding posting_sum_mset [OF ps, symmetric] by (simp add: master_balance_def posting_sum_def)
  then show "list_all (\<lambda>d. pred_option (\<lambda>m. posting_sum (postings_of ds) m = 0) (carried_master d)) ds"
    using filled by (simp add: filling_def list_all_iff)
  show "\<forall>p \<in> set (postings_of ds). \<forall>q \<in> set (postings_of ds).
           jp_master p = jp_master q \<longrightarrow> jp_lifecycle p = jp_lifecycle q"
    using lifecycles_agree [OF lifecycles] mset_eq_setD [OF ps] by blast
qed

section \<open>Leading somewhere\<close>

definition same_transaction :: "source_link \<Rightarrow> source_link \<Rightarrow> bool" where
  "same_transaction s n \<longleftrightarrow> sl_master n = sl_master s \<and> sl_date_raw n = sl_date_raw s"

text \<open>The target leads to a destination through this many links.\<close>

inductive leads ::
    "class_state \<Rightarrow> (u32, u32 \<times> u32) btree \<Rightarrow> (u32, source_link) btree \<Rightarrow> source_link \<Rightarrow> nat \<Rightarrow> u32 \<Rightarrow> bool"
  for st cores nodes s where
  arrive: "destination st cores t = Some (sl_master s, sl_date_raw s) \<Longrightarrow> leads st cores nodes s 0 t"
| terminal: "destination st cores t = None \<Longrightarrow> bt_get nodes t = Some n \<Longrightarrow> same_transaction s n \<Longrightarrow>
    sl_next_target n = None \<Longrightarrow> has_unique_terminal_source_destination st n \<Longrightarrow> leads st cores nodes s 0 t"
| link: "destination st cores t = None \<Longrightarrow> bt_get nodes t = Some n \<Longrightarrow> same_transaction s n \<Longrightarrow>
    sl_next_target n = Some u \<Longrightarrow> leads st cores nodes s k u \<Longrightarrow> leads st cores nodes s (Suc k) t"

lemma leads_unique: "leads st cores nodes s k t \<Longrightarrow> leads st cores nodes s m t \<Longrightarrow> m = k"
proof (induction k t arbitrary: m rule: leads.induct)
  case (arrive t)
  from arrive(2,1) show ?case by cases simp_all
next
  case (terminal t n)
  from terminal(6) show ?case by cases (use terminal(1-5) in simp_all)
next
  case (link t n u k)
  from link.prems show ?case by cases (use link.hyps(1-4) link.IH [of "m - 1"] in simp_all)
qed

lemma walk_leads: "source_walk st cores nodes s visited t \<Longrightarrow> \<exists>k. leads st cores nodes s k t"
proof (induction st cores nodes s visited t rule: source_walk.induct)
  case (1 st cores nodes s visited t)
  from "1.prems" have walk: "t \<notin> set visited"
    "(case destination st cores t of
        Some d \<Rightarrow> d = (sl_master s, sl_date_raw s)
      | None \<Rightarrow> \<not> length nodes < length visited + 1 \<and>
          (case bt_get nodes t of
             None \<Rightarrow> False
           | Some n \<Rightarrow> same_transaction s n \<and>
               (case sl_next_target n of
                  None \<Rightarrow> has_unique_terminal_source_destination st n
                | Some u \<Rightarrow> source_walk st cores nodes s (visited @ [t]) u)))"
    by (subst (asm) source_walk.simps, auto simp: same_transaction_def split: if_splits option.splits)+
  show ?case
  proof (cases "destination st cores t")
    case (Some d)
    with walk show ?thesis by (auto intro: leads.arrive)
  next
    case None
    with walk obtain n where n: "bt_get nodes t = Some n" "same_transaction s n"
      and rest: "\<not> length nodes < length visited + 1"
        "(case sl_next_target n of
            None \<Rightarrow> has_unique_terminal_source_destination st n
          | Some u \<Rightarrow> source_walk st cores nodes s (visited @ [t]) u)"
      by (auto split: option.splits)
    show ?thesis
    proof (cases "sl_next_target n")
      case (Some u)
      with "1.IH" [OF walk(1) None rest(1) n(1)] n(2) rest(2)
      show ?thesis by (auto simp: same_transaction_def intro: leads.link [OF None n Some])
    qed (use rest leads.terminal [OF None n] in auto)
  qed
qed

lemma bt_get_Some_key: "bt_get m k = Some v \<Longrightarrow> k \<in> set (bt_keys m)"
  by (force simp: bt_keys_def dest: bt_get_SomeD)

lemma visited_bound:
  assumes "distinct vs" and "set vs \<subseteq> set (bt_keys m)"
  shows "length vs \<le> length m"
proof -
  have "length vs = card (set vs)" using assms(1) by (simp add: distinct_card)
  also have "\<dots> \<le> card (set (bt_keys m))" using assms(2) by (simp add: card_mono)
  also have "\<dots> \<le> length m" using card_length [of "bt_keys m"] by (simp add: bt_keys_def)
  finally show ?thesis .
qed

lemma leads_walk:
  assumes "leads st cores nodes s k t" and "\<forall>v \<in> set visited. \<exists>m > k. leads st cores nodes s m v"
    and "distinct visited" and "set visited \<subseteq> set (bt_keys nodes)"
  shows "source_walk st cores nodes s visited t"
  using assms
proof (induction k t arbitrary: visited rule: leads.induct)
  case (arrive t)
  then have "t \<notin> set visited" using leads_unique leads.arrive by (metis less_irrefl)
  with arrive show ?case by (subst source_walk.simps) simp
next
  case (terminal t n)
  then have "t \<notin> set visited" using leads_unique leads.terminal by (metis less_irrefl)
  moreover have "length (visited @ [t]) \<le> length nodes"
    using terminal calculation by (intro visited_bound) (auto simp: bt_get_Some_key)
  ultimately show ?case using terminal by (subst source_walk.simps) (simp add: same_transaction_def)
next
  case (link t n u k)
  then have new: "t \<notin> set visited" using leads_unique leads.link by (metis less_irrefl)
  have key: "t \<in> set (bt_keys nodes)" using link.hyps(2) by (rule bt_get_Some_key)
  have "length (visited @ [t]) \<le> length nodes"
    using link.prems new key by (intro visited_bound) auto
  moreover have "source_walk st cores nodes s (visited @ [t]) u"
  proof (rule link.IH)
    show "\<forall>v \<in> set (visited @ [t]). \<exists>m > k. leads st cores nodes s m v"
      using link.prems(1) leads.link [OF link.hyps] by (auto intro: less_trans [OF lessI])
  qed (use link.prems new key in auto)
  ultimately show ?case using link.hyps new by (subst source_walk.simps) (simp add: same_transaction_def)
qed

theorem source_walk_leads: "source_walk st cores nodes s [] t \<longleftrightarrow> (\<exists>k. leads st cores nodes s k t)"
  using walk_leads leads_walk [where visited = "[]"] by auto

section \<open>The balance gate\<close>

lemma balances_tally:
  "fold (\<lambda>p. bt_add (jp_master p) (sint (jp_signed_cents p))) rows [] = bt_tally jp_master (\<lambda>p. sint (jp_signed_cents p)) rows"
  by (simp add: bt_tally_def)

lemma balance_entry:
  "(m, b) \<in> set (bt_tally jp_master (\<lambda>p. sint (jp_signed_cents p)) rows)
     \<longleftrightarrow> m \<in> jp_master ` set rows \<and> b = posting_sum rows m"
  by (simp add: bt_tally_entries posting_sum_def)

lemma find_SomeD: "find P xs = Some x \<Longrightarrow> x \<in> set xs \<and> P x"
  by (auto simp: find_Some_iff)

theorem validate_master_balances_Ok:
  "validate_master_balances rows = Ok () \<longleftrightarrow> list_all (\<lambda>p. posting_sum rows (jp_master p) = 0) rows"
proof -
  have "validate_master_balances rows = Ok () \<longleftrightarrow>
      (\<forall>(m, b) \<in> set (bt_tally jp_master (\<lambda>p. sint (jp_signed_cents p)) rows). b = 0)"
    by (force simp: validate_master_balances_def balances_tally find_None_iff dest: find_SomeD split: option.splits)
  also have "\<dots> \<longleftrightarrow> list_all (\<lambda>p. posting_sum rows (jp_master p) = 0) rows"
    by (auto simp: Ball_def split_paired_All balance_entry list_all_iff)
  finally show ?thesis .
qed

end
