(* ===== verification/Row_Properties.thy ===== *)
theory Row_Properties
  imports Bill_Rows Deposit_Rows Check_Rows Account_Row Journal_Class_Properties
begin

text \<open>
  The properties of the row decoders and of the General Journal classification, with the table
  the witnesses use: two postings of one master, a chain of two set-aside rows and a source link.
\<close>

section \<open>Example table\<close>

definition epoch_calendar :: sa_calendar where
  "epoch_calendar = (\<lambda>_. (1600, 2, 29), \<lambda>_. 0)"

definition row_start :: "byte \<Rightarrow> byte list \<Rightarrow> byte list" where
  "row_start len prefix = [len, 0, 0x40, 1] @ prefix"

definition reference :: "byte \<Rightarrow> byte list" where
  "reference n = [n, 0, 0, 0]"

definition posting_bytes :: "byte \<Rightarrow> byte \<Rightarrow> byte \<Rightarrow> byte list" where
  "posting_bytes target account marker =
     row_start 105 [0xe0, 0x13, 0xff, 0, 0, 0, 0] @ reference target @ reference 10 @ reference account
       @ replicate 76 0 @ [1, marker, 12, 1, marker, 12]"

definition chain_bytes :: "byte \<Rightarrow> byte \<Rightarrow> byte \<Rightarrow> byte list" where
  "chain_bytes marker target following =
     row_start 33 [0xe0, marker, 0xff, 0x80, 0x60, 0, 0x20] @ reference target @ reference 10 @ reference 3
       @ replicate 6 0 @ reference following"

definition source_bytes :: "byte \<Rightarrow> byte \<Rightarrow> byte list" where
  "source_bytes target following =
     row_start 142 [0x60, 0x93, 0xff, 0x80, 0x40, 0, 0x20] @ reference target @ reference 10
       @ replicate 6 0 @ reference following @ reference 3 @ replicate 109 0"

definition example_table :: "byte list list" where
  "example_table =
     [posting_bytes 1 3 0xbf, posting_bytes 2 4 0x3f, chain_bytes 0x93 5 6, chain_bytes 0x13 6 10,
      source_bytes 7 1]"

text \<open>An auxiliary row whose target field is cut off.\<close>

definition short_carrier :: "byte list" where
  "short_carrier = row_start 11 [0xe0, 0x13, 0xff, 0x80, 0x60, 0, 0x20]"

section \<open>Row decoders\<close>

definition accepted :: "('e, 'r) outcome \<Rightarrow> bool" where
  "accepted r = (case r of Ok _ \<Rightarrow> True | _ \<Rightarrow> False)"

definition decodable :: "sa_calendar \<Rightarrow> byte list \<Rightarrow> bool" where
  "decodable cal row \<longleftrightarrow>
     accepted (bill_header_parse row) \<or> accepted (bill_posting_parse row) \<or> accepted (bill_payment_parse row)
   \<or> accepted (check_posting_parse row) \<or> accepted (void_companion_parse row)
   \<or> accepted (deposit_counterpart_parse row) \<or> accepted (deposit_posting_parse row)
   \<or> accepted (account_row_parse row) \<or> accepted (master_row_parse row)
   \<or> accepted (journal_source_parse row) \<or> accepted (journal_target_parse row)
   \<or> accepted (journal_posting_parse cal row)"

lemma acceptedD: "accepted r \<Longrightarrow> \<exists>x. r = Ok x"
  by (simp add: accepted_def split: outcome.splits)

lemma decodable_framed: "decodable cal row \<Longrightarrow> framed_row row"
  unfolding decodable_def
  by (elim disjE; drule acceptedD; elim exE)
    (erule bill_header.decode_framed bill_posting.decode_framed bill_payment.decode_framed
        check_posting.decode_framed void_companion.decode_framed deposit_counterpart.decode_framed
        deposit_posting.decode_framed account_row.decode_framed master_row.decode_framed
        journal_source.decode_framed journal_target.decode_framed journal_posting.decode_framed)+

lemma all_decodable_framed: "list_all (decodable cal) rows \<Longrightarrow> list_all framed_row rows"
  by (erule list.pred_mono_strong) (rule decodable_framed)

text \<open>C20: No decoder of a materialized row panics, whatever the bytes are. (The slice and index
  expressions of the code are panicking reads in the model.)\<close>

theorem row_decoders_never_panic:
  "bill_header_parse row \<noteq> Panic \<and> bill_posting_parse row \<noteq> Panic \<and> bill_payment_parse row \<noteq> Panic
   \<and> check_posting_parse row \<noteq> Panic \<and> void_companion_parse row \<noteq> Panic
   \<and> deposit_counterpart_parse row \<noteq> Panic \<and> deposit_posting_parse row \<noteq> Panic
   \<and> account_row_parse row \<noteq> Panic \<and> master_row_parse row \<noteq> Panic
   \<and> journal_source_parse row \<noteq> Panic \<and> journal_target_parse row \<noteq> Panic
   \<and> journal_posting_parse cal row \<noteq> Panic"
  by (intro conjI bill_header.decode_no_panic bill_posting.decode_no_panic bill_payment.decode_no_panic
      check_posting.decode_no_panic void_companion.decode_no_panic deposit_counterpart.decode_no_panic
      deposit_posting.decode_no_panic account_row.decode_no_panic master_row.decode_no_panic
      journal_source.decode_no_panic journal_target.decode_no_panic journal_posting.decode_no_panic)

text \<open>The boundaries of rows that decode, each by any of the decoders, are determined by the
  bytes: two sequences of such rows with the same concatenation are equal.\<close>

theorem row_boundaries_unique:
  assumes "list_all (decodable cal) rows" and "list_all (decodable cal) rows'" and "concat rows = concat rows'"
  shows "rows = rows'"
  using all_decodable_framed [OF assms(1)] all_decodable_framed [OF assms(2)] assms(3)
  by (rule framed_rows_unique)

theorem row_boundaries_unique_witness:
  "[posting_bytes 1 3 0xbf, posting_bytes 2 4 0x3f] = take 2 example_table"
proof (rule row_boundaries_unique [where cal = epoch_calendar])
  have "accepted (journal_posting_parse epoch_calendar (posting_bytes 1 3 0xbf))"
    and "accepted (journal_posting_parse epoch_calendar (posting_bytes 2 4 0x3f))"
    by code_simp+
  then show "list_all (decodable epoch_calendar) [posting_bytes 1 3 0xbf, posting_bytes 2 4 0x3f]"
    and "list_all (decodable epoch_calendar) (take 2 example_table)"
    by (simp_all add: decodable_def example_table_def)
qed (simp add: example_table_def)

text \<open>C19: An accepted amount is attested. The amount of a check posting is the value of a token that
  ends the row, or of a token that stands in the row twice without overlap; the amount of a General
  Journal posting is the value of a nonzero token that stands in the row twice.\<close>

theorem posting_amounts_attested:
  "(case check_posting_parse row of
      Ok r \<Rightarrow> final_amount row 0x53 (cp_signed_cents r, cp_canonical_zero r)
               \<or> repeated_amount row (cp_signed_cents r, cp_canonical_zero r)
    | _ \<Rightarrow> True)
   \<and> (case journal_posting_parse cal row of
        Ok r \<Rightarrow> repeated_amount row (jp_signed_cents r, False) | _ \<Rightarrow> True)"
  using check_posting_attested [of row] journal_posting_attested [of cal row]
  by (cases "check_posting_parse row"; cases "journal_posting_parse cal row") (simp_all add: Let_def)

section \<open>The General Journal table\<close>

text \<open>C17: A classified General Journal table gives every row one disposition that its own decoder
  justifies. No two postings have the same target; the postings of one master agree on the lifecycle
  flags; and every master that owns a row set aside without an amount is balanced.\<close>

theorem journal_classification_sound:
  assumes "classify_with_header_witnesses cal rows witnesses = Ok ds"
  shows "list_all2 (justified cal) rows ds
       \<and> distinct (map jp_target (postings_of ds))
       \<and> list_all (\<lambda>p. list_all (\<lambda>q. jp_master p \<noteq> jp_master q \<or> jp_lifecycle p = jp_lifecycle q) (postings_of ds))
           (postings_of ds)
       \<and> list_all (\<lambda>d. pred_option (\<lambda>m. posting_sum (postings_of ds) m = 0) (carried_master d)) ds"
proof (intro conjI)
  show "list_all (\<lambda>p. list_all (\<lambda>q. jp_master p \<noteq> jp_master q \<or> jp_lifecycle p = jp_lifecycle q) (postings_of ds))
           (postings_of ds)"
    unfolding list_all_iff using classification_postings(3) [OF assms] by blast
qed (rule classification_justified [OF assms] classification_postings [OF assms])+

theorem journal_classification_sound_witness:
  "case classify_with_header_witnesses epoch_calendar example_table [] of
     Ok ds \<Rightarrow> list_all2 (justified epoch_calendar) example_table ds
       \<and> posting_sum (postings_of ds) 10 = 0 \<and> length (postings_of ds) = 2
   | _ \<Rightarrow> False"
proof -
  have "case classify_with_header_witnesses epoch_calendar example_table [] of
     Ok ds \<Rightarrow> carried_master (ds ! 2) = Some 10 \<and> length ds = 5 \<and> length (postings_of ds) = 2
   | _ \<Rightarrow> False" by code_simp
  then obtain ds where ds: "classify_with_header_witnesses epoch_calendar example_table [] = Ok ds"
    and chain: "carried_master (ds ! 2) = Some 10" "length ds = 5" "length (postings_of ds) = 2"
    by (auto split: outcome.splits)
  note sound = journal_classification_sound [OF ds]
  then have "pred_option (\<lambda>m. posting_sum (postings_of ds) m = 0) (carried_master (ds ! 2))"
    using chain(2) by (simp add: list_all_length)
  with sound chain show ?thesis by (simp add: ds)
qed

text \<open>C38: The classification panics on no table whose rows of the auxiliary family hold the fixed
  fields (33 bytes), whatever their other bytes are.\<close>

theorem journal_classification_no_panic:
  assumes "carriers_complete rows"
  shows "classify_with_header_witnesses cal rows witnesses \<noteq> Panic"
  using assms by (rule classification_no_panic)

theorem journal_classification_no_panic_witness:
  "classify_with_header_witnesses epoch_calendar (replicate 3 [1, 2] @ example_table) [] \<noteq> Panic"
  by (rule journal_classification_no_panic) code_simp

text \<open>C39: The classification panics on a table that is one auxiliary row shorter than 15 bytes: the
  target is read before any length is checked.\<close>

theorem journal_short_carrier_panics:
  assumes "auxiliary_candidate row" and "length row < 15"
  shows "classify_with_header_witnesses cal [row] witnesses = Panic"
  using assms
  by (simp add: classify_with_header_witnesses_def Let_def identify_auxiliary_candidate_indices_def
      classify_row_def class_start_def classify_auxiliary_link_chain_def group_row_def
      production_required_reference_def u32_at_eq)

theorem journal_short_carrier_panics_witness:
  "classify_with_header_witnesses epoch_calendar [short_carrier] [] = Panic"
  by (rule journal_short_carrier_panics) code_simp+

text \<open>C18: The bounded walk of a source link succeeds exactly when its target leads, through finitely
  many source links of the same master and date, to a posting, canonical zero or chain of that
  transaction, or to a last link with exactly one matching posting. The set of visited targets and the
  bound on their number refuse nothing else.\<close>

theorem journal_source_walk_exact:
  "source_walk st cores nodes s [] t \<longleftrightarrow> (\<exists>k. leads st cores nodes s k t)"
  by (rule source_walk_leads)

text \<open>The balance gate accepts exactly the postings whose every master sums to zero.\<close>

theorem journal_balance_gate:
  "validate_master_balances rows = Ok () \<longleftrightarrow> list_all (\<lambda>p. posting_sum rows (jp_master p) = 0) rows"
  by (rule validate_master_balances_Ok)

end
