(* ===== verification/Row_Schema.thy ===== *)
theory Row_Schema
  imports Prelude
begin

text \<open>
  Typed row schemas and rows decoded up to a known column, as the schema adapters use them. The
  types come from another crate (\<open>opensqlany\<close>): they have the variants and fields this program
  names, and one further constructor for the rest, about which only equality is known. The lookups
  are those of \<open>crates/openqbw/src/partial_row.rs\<close>.
\<close>

section \<open>Values, columns and layouts\<close>

datatype sql_value =
    SqlNull
  | SqlInteger i64
  | SqlUnsigned u64
  | SqlBoolean bool
  | SqlDate i32
  | SqlBytes "u8 list"
  | SqlNumeric u8 "u8 list"
  | SqlOther nat

datatype column_type =
    ColSmallInt | ColInteger | ColInteger2 | ColUInt64 | ColInt64 | ColUInt32 | ColDate | ColDateTime
  | ColChar | ColChar2 | ColText | ColText2 | ColBoolean | ColNumeric | ColEnum

datatype boolean_tail_layout =
    BooleanInlineBytes | BooleanInlineRunsMsb | BooleanInlineRunsLsb | BooleanBytes | BooleanPackedMsb | BooleanLayoutOther nat
datatype numeric_layout = EnterpriseMaterializedRaw | NumericLayoutOther nat
datatype enum_layout = EnumUnsupported | EnumFixedWidthUnsigned | EnumLayoutOther nat
datatype variable_overflow_layout = OverflowUnsupported | OverflowPointer nat | OverflowLayoutOther nat
datatype variable_length_layout = LengthU8 | LengthU16Le | LengthDeclaredWidth nat | LengthLayoutOther nat
datatype null_bitmap_layout = NullMsbPresent | NullLsbPresent | NullMsbNull | NullLsbNull | NullBitmapLayoutOther nat
datatype null_bitmap_coverage = NullNullableColumns | NullAllColumns | NullBitmapCoverageOther nat
datatype row_prefix_layout = NoRowPrefix | OneByteCarrier | TwoByteCarrier | ThreeByteCarrier | RowPrefixLayoutOther nat

record column_def =
  cd_id :: u32
  cd_name :: string
  cd_type :: column_type
  cd_width :: u16
  cd_nullable :: bool

record row_schema =
  sch_columns :: "column_def list"
  sch_boolean_tail :: boolean_tail_layout
  sch_numeric :: numeric_layout
  sch_enum :: enum_layout
  sch_overflow :: variable_overflow_layout
  sch_length :: variable_length_layout
  sch_null_layout :: null_bitmap_layout
  sch_null_coverage :: null_bitmap_coverage
  sch_prefix :: row_prefix_layout

record row_value =
  rv_index :: nat
  rv_column :: u32
  rv_value :: sql_value

record partial_row =
  pr_declared_size :: nat
  pr_flags :: u16
  pr_through :: u32
  pr_prefix :: "row_value list"
  pr_booleans :: "row_value list"
  pr_opaque :: nat

record decoded_row =
  dr_declared_size :: nat
  dr_consumed_size :: nat
  dr_values :: "sql_value list"

text \<open>\<open>decode_row_prefix_and_boolean_tail\<close> of the other crate; only success and its row are used.\<close>

type_synonym prefix_decoder = "u8 list \<Rightarrow> row_schema \<Rightarrow> u32 \<Rightarrow> partial_row option"

section \<open>Lookups in a partial row\<close>

datatype partial_lookup_error =
    AmbiguousColumnName string
  | SchemaProvenanceMismatch string nat nat

definition value_by_column_id :: "row_value list \<Rightarrow> u32 \<Rightarrow> sql_value option" where
  "value_by_column_id values column_id = map_option rv_value (find (\<lambda>v. rv_column v = column_id) values)"

definition prefix_value_by_column_id :: "partial_row \<Rightarrow> u32 \<Rightarrow> sql_value option" where
  "prefix_value_by_column_id row column_id = value_by_column_id (pr_prefix row) column_id"

definition boolean_value_by_column_id :: "partial_row \<Rightarrow> u32 \<Rightarrow> sql_value option" where
  "boolean_value_by_column_id row column_id = value_by_column_id (pr_booleans row) column_id"

definition value_by_name ::
    "row_schema \<Rightarrow> partial_row \<Rightarrow> string \<Rightarrow> bool \<Rightarrow> (partial_lookup_error, sql_value option) outcome" where
  "value_by_name schema row name boolean =
     (case filter (\<lambda>(_, column). cd_name column = name) (enumerate 0 (sch_columns schema)) of
        [] \<Rightarrow> Ok None
      | _ # _ # _ \<Rightarrow> Err (AmbiguousColumnName name)
      | [(column_index, column)] \<Rightarrow>
          (case find (\<lambda>v. rv_column v = cd_id column) (if boolean then pr_booleans row else pr_prefix row) of
             None \<Rightarrow> Ok None
           | Some v \<Rightarrow>
               if rv_index v \<noteq> column_index
               then Err (SchemaProvenanceMismatch name column_index (rv_index v))
               else Ok (Some (rv_value v))))"

definition prefix_value_by_column_name ::
    "row_schema \<Rightarrow> partial_row \<Rightarrow> string \<Rightarrow> (partial_lookup_error, sql_value option) outcome" where
  "prefix_value_by_column_name schema row name = value_by_name schema row name False"

definition boolean_value_by_column_name ::
    "row_schema \<Rightarrow> partial_row \<Rightarrow> string \<Rightarrow> (partial_lookup_error, sql_value option) outcome" where
  "boolean_value_by_column_name schema row name = value_by_name schema row name True"

lemma find_SomeD_mem: "find P xs = Some x \<Longrightarrow> x \<in> set xs \<and> P x"
  by (induction xs) (auto split: if_splits)

lemma filter_singleton_index:
  assumes "filter (\<lambda>(_, c). P c) (enumerate n cs) = [(i, c)]"
  shows "n \<le> i \<and> i < n + length cs \<and> cs ! (i - n) = c \<and> P c \<and> filter P cs = [c]"
  using assms
proof (induction cs arbitrary: n)
  case (Cons x cs)
  show ?case
  proof (cases "P x")
    case True
    with Cons.prems have "filter (\<lambda>(_, c). P c) (enumerate (Suc n) cs) = []" and *: "i = n" "c = x"
      by auto
    moreover have "map snd (filter (\<lambda>(_, c). P c) (enumerate m cs)) = filter P cs" for m
      by (induction cs arbitrary: m) auto
    ultimately have "filter P cs = []" by (metis list.map_disc_iff)
    with True * show ?thesis by simp
  next
    case False
    with Cons.prems have "Suc n \<le> i \<and> i < Suc n + length cs \<and> cs ! (i - Suc n) = c \<and> P c \<and> filter P cs = [c]"
      by (intro Cons.IH) simp
    moreover from this have "i - n = Suc (i - Suc n)" by (simp add: Suc_diff_Suc)
    ultimately show ?thesis using False by simp
  qed
qed simp

text \<open>A value is returned only from the position the schema gives the unique column of that name.\<close>

lemma value_by_name_Some:
  assumes "value_by_name schema row name boolean = Ok (Some v)"
  obtains rv column where "rv \<in> set (if boolean then pr_booleans row else pr_prefix row)"
    and "rv_value rv = v" and "rv_index rv < length (sch_columns schema)"
    and "sch_columns schema ! rv_index rv = column" and "cd_name column = name"
    and "rv_column rv = cd_id column" and "filter (\<lambda>c. cd_name c = name) (sch_columns schema) = [column]"
proof -
  obtain i c rv where f: "filter (\<lambda>(_, column). cd_name column = name) (enumerate 0 (sch_columns schema)) = [(i, c)]"
    and rv: "find (\<lambda>v. rv_column v = cd_id c) (if boolean then pr_booleans row else pr_prefix row) = Some rv"
    and "rv_index rv = i" and "rv_value rv = v"
    using assms by (auto simp: value_by_name_def split: list.splits option.splits if_split_asm prod.splits)
  show thesis
    by (rule that [of rv c]) (use filter_singleton_index [OF f] find_SomeD_mem [OF rv] \<open>rv_index rv = i\<close> \<open>rv_value rv = v\<close> in simp_all)
qed

lemma value_by_name_no_panic: "value_by_name schema row name boolean \<noteq> Panic"
  by (auto simp: value_by_name_def split: list.split option.split)

end
