(* ===== verification/Posting_Adapter.thy ===== *)
theory Posting_Adapter
  imports Prelude Row_Schema Bill_Rows Check_Rows Journal_Rows
begin

text \<open>
  The bridge from decoded rows to posting fields, \<open>crates/openqbw/src/schema_posting_adapter.rs\<close>:
  dedicated Bill, Check and General Journal rows, and rows decoded by a schema, completely or up to
  a prefix. Columns are found by their exact catalog names.
\<close>

section \<open>Physical tables\<close>

text \<open>
  The physical table identities of \<open>crates/openqbw/src/enterprise24_accounting_table.rs\<close>: the
  accounts, and for each transaction family its headers and its lines.
\<close>

datatype accounting_table =
    AccountInternal | AccountUser | BillPaymentCheckHeader | BillPaymentCheckLine | BillHeader | BillLine
  | CheckHeader | CheckLine | DepositHeader | DepositLine | GeneralJournalHeader | GeneralJournalLine

fun table_id_of :: "accounting_table \<Rightarrow> u32" where
  "table_id_of AccountInternal = 3025"
| "table_id_of AccountUser = 3026"
| "table_id_of BillPaymentCheckHeader = 3038"
| "table_id_of BillPaymentCheckLine = 3039"
| "table_id_of BillHeader = 3040"
| "table_id_of BillLine = 3042"
| "table_id_of CheckHeader = 3045"
| "table_id_of CheckLine = 3047"
| "table_id_of DepositHeader = 3068"
| "table_id_of DepositLine = 3069"
| "table_id_of GeneralJournalHeader = 3076"
| "table_id_of GeneralJournalLine = 3078"

definition is_posting_table :: "accounting_table \<Rightarrow> bool" where
  "is_posting_table t \<longleftrightarrow> t \<in> {BillPaymentCheckLine, BillLine, CheckLine, DepositLine, GeneralJournalLine}"

definition is_transaction_header_table :: "accounting_table \<Rightarrow> bool" where
  "is_transaction_header_table t \<longleftrightarrow>
     t \<in> {BillPaymentCheckHeader, BillHeader, CheckHeader, DepositHeader, GeneralJournalHeader}"

datatype unsupported_table = UnsupportedTable u32

definition accounting_table_try_from :: "u32 \<Rightarrow> (unsupported_table, accounting_table) outcome" where
  "accounting_table_try_from n =
     (if n = 3025 then Ok AccountInternal
      else if n = 3026 then Ok AccountUser
      else if n = 3038 then Ok BillPaymentCheckHeader
      else if n = 3039 then Ok BillPaymentCheckLine
      else if n = 3040 then Ok BillHeader
      else if n = 3042 then Ok BillLine
      else if n = 3045 then Ok CheckHeader
      else if n = 3047 then Ok CheckLine
      else if n = 3068 then Ok DepositHeader
      else if n = 3069 then Ok DepositLine
      else if n = 3076 then Ok GeneralJournalHeader
      else if n = 3078 then Ok GeneralJournalLine
      else Err (UnsupportedTable n))"

text \<open>The conversion from a table number is the inverse of the number of a table.\<close>

lemma accounting_table_try_from_id [simp]: "accounting_table_try_from (table_id_of t) = Ok t"
  by (cases t) (simp_all add: accounting_table_try_from_def)

lemma accounting_table_try_from_Ok_iff: "accounting_table_try_from n = Ok t \<longleftrightarrow> n = table_id_of t"
proof
  assume "accounting_table_try_from n = Ok t"
  then show "n = table_id_of t"
    by (auto simp: accounting_table_try_from_def split: if_split_asm)
qed simp

lemma table_id_of_inj [simp]: "table_id_of s = table_id_of t \<longleftrightarrow> s = t"
  by (metis accounting_table_try_from_id outcome.inject(1))

lemma posting_tables_not_headers: "is_posting_table t \<Longrightarrow> \<not> is_transaction_header_table t"
  by (auto simp: is_posting_table_def is_transaction_header_table_def)

section \<open>Adapted postings\<close>

datatype posting_transaction_type =
    TypeBillPaymentCheck | TypeBill | TypeVendorCredit | TypeCheck | TypeDeposit | TypeGeneralJournal

fun transaction_type_label :: "posting_transaction_type \<Rightarrow> string" where
  "transaction_type_label TypeBillPaymentCheck = ''Bill Pmt-Check''"
| "transaction_type_label TypeBill = ''Bill''"
| "transaction_type_label TypeVendorCredit = ''Credit''"
| "transaction_type_label TypeCheck = ''Check''"
| "transaction_type_label TypeDeposit = ''Deposit''"
| "transaction_type_label TypeGeneralJournal = ''General Journal''"

fun fixed_for_table :: "accounting_table \<Rightarrow> posting_transaction_type option" where
  "fixed_for_table BillPaymentCheckLine = Some TypeBillPaymentCheck"
| "fixed_for_table CheckLine = Some TypeCheck"
| "fixed_for_table DepositLine = Some TypeDeposit"
| "fixed_for_table GeneralJournalLine = Some TypeGeneralJournal"
| "fixed_for_table _ = None"

fun from_bill_kind :: "bill_transaction_kind \<Rightarrow> posting_transaction_type" where
  "from_bill_kind Bill = TypeBill"
| "from_bill_kind VendorCredit = TypeVendorCredit"

record enterprise_posting =
  ep_table :: accounting_table
  ep_type :: posting_transaction_type
  ep_target :: u64
  ep_transaction :: u64
  ep_account :: u64
  ep_date :: int
  ep_cents :: i64
  ep_is_source :: "bool option"
  ep_is_split :: "bool option"

datatype row_exclusion =
    RowNoPost u64 u64
  | RowMemorized u64 u64
  | RowZeroVoided u64 u64
  | RowZeroAmount u64 u64 u64 int posting_transaction_type
  | RowSourceOrLink u64 u64

datatype adaptation = AdaptedPosting enterprise_posting | AdaptedExclusion row_exclusion

datatype adapter_error =
    PartialSchemaProvenance string
  | PartialValueUnavailable string
  | NotPostingTable accounting_table
  | SchemaValueCountMismatch nat nat
  | RowNotExactlyDecoded nat nat
  | UnexpectedNumericLayout
  | MissingColumn string
  | AmbiguousColumn string
  | UnexpectedColumnType string string column_type
  | UnexpectedValueType string string
  | NegativeIdentifier string
  | ZeroIdentifier string
  | AdapterDate string i32
  | AdapterAmount string
  | TypeNeedsDedicatedDecoder accounting_table
  | UnknownBillView u16

section \<open>Dedicated rows\<close>

text \<open>\<open>MaterializedPostingDate::from_raw_bits(raw).accounting_date()\<close> with the error of the adapters.\<close>

definition adapted_date :: "sa_calendar \<Rightarrow> u32 \<Rightarrow> (adapter_error, int) outcome" where
  "adapted_date cal raw =
     rbind (map_err (\<lambda>_. AdapterDate ''transaction_date'' raw) (from_raw_bits (fst cal) (snd cal) raw))
       (\<lambda>date. Ok (sint (pd_accounting_date date)))"

definition adapt_bill_row :: "sa_calendar \<Rightarrow> bill_posting \<Rightarrow> (adapter_error, adaptation) outcome" where
  "adapt_bill_row cal row =
     rbind (adapted_date cal (bp_date_raw row)) (\<lambda>date.
     rbind (ok_or (map_option from_bill_kind (bill_transaction_kind_of row)) (UnknownBillView (bp_view_type row)))
       (\<lambda>ty.
       if bp_canonical_zero row
       then Ok (AdaptedExclusion (RowZeroAmount (ucast (bp_target row)) (ucast (bp_master row))
                  (ucast (bp_account row)) date ty))
       else Ok (AdaptedPosting
              \<lparr>ep_table = BillLine, ep_type = ty, ep_target = ucast (bp_target row),
               ep_transaction = ucast (bp_master row), ep_account = ucast (bp_account row), ep_date = date,
               ep_cents = bp_signed_cents row, ep_is_source = None, ep_is_split = None\<rparr>)))"

definition adapt_journal_row :: "sa_calendar \<Rightarrow> journal_posting \<Rightarrow> (adapter_error, adaptation) outcome" where
  "adapt_journal_row cal row =
     (if fst (jp_lifecycle row)
      then Ok (AdaptedExclusion (RowNoPost (ucast (jp_target row)) (ucast (jp_master row))))
      else if snd (jp_lifecycle row)
      then Ok (AdaptedExclusion (RowMemorized (ucast (jp_target row)) (ucast (jp_master row))))
      else
        rbind (adapted_date cal (jp_date_raw row)) (\<lambda>date.
        if jp_signed_cents row = 0 then Err (AdapterAmount ''amount_amt'')
        else Ok (AdaptedPosting
               \<lparr>ep_table = GeneralJournalLine, ep_type = TypeGeneralJournal, ep_target = ucast (jp_target row),
                ep_transaction = ucast (jp_master row), ep_account = ucast (jp_account row), ep_date = date,
                ep_cents = jp_signed_cents row, ep_is_source = None, ep_is_split = None\<rparr>)))"

definition adapt_check_row :: "sa_calendar \<Rightarrow> check_row \<Rightarrow> (adapter_error, adaptation) outcome" where
  "adapt_check_row cal row =
     rbind (adapted_date cal (cp_date_raw row)) (\<lambda>date.
       if cp_canonical_zero row
       then Ok (AdaptedExclusion (RowZeroAmount (ucast (cp_target row)) (ucast (cp_master row))
                  (ucast (cp_account row)) date TypeCheck))
       else Ok (AdaptedPosting
              \<lparr>ep_table = CheckLine, ep_type = TypeCheck, ep_target = ucast (cp_target row),
               ep_transaction = ucast (cp_master row), ep_account = ucast (cp_account row), ep_date = date,
               ep_cents = cp_signed_cents row, ep_is_source = None, ep_is_split = None\<rparr>))"

section \<open>Reading one value\<close>

definition id_value :: "string \<Rightarrow> column_type \<Rightarrow> sql_value \<Rightarrow> (adapter_error, u64) outcome" where
  "id_value name ty v =
     (if ty \<notin> {ColInteger, ColInteger2, ColUInt32, ColUInt64, ColInt64}
      then Err (UnexpectedColumnType name ''integer identifier'' ty)
      else
        rbind (case v of
                 SqlInteger i \<Rightarrow> if sint i < 0 then Err (NegativeIdentifier name) else Ok i
               | SqlUnsigned u \<Rightarrow> Ok u
               | _ \<Rightarrow> Err (UnexpectedValueType name ''integer identifier''))
          (\<lambda>n. if n = 0 then Err (ZeroIdentifier name) else Ok n))"

definition date_value :: "sa_calendar \<Rightarrow> string \<Rightarrow> column_type \<Rightarrow> sql_value \<Rightarrow> (adapter_error, int) outcome" where
  "date_value cal name ty v =
     (if ty \<noteq> ColDate then Err (UnexpectedColumnType name ''date'' ty)
      else case v of
        SqlDate raw_minutes \<Rightarrow>
          rbind (map_err (\<lambda>_. AdapterDate name raw_minutes) (from_raw_minutes (fst cal) (snd cal) raw_minutes))
            (\<lambda>date. Ok (sint (pd_accounting_date date)))
      | _ \<Rightarrow> Err (UnexpectedValueType name ''date''))"

definition amount_value ::
    "row_schema \<Rightarrow> string \<Rightarrow> column_type \<Rightarrow> sql_value \<Rightarrow> (adapter_error, amount) outcome" where
  "amount_value schema name ty v =
     (if ty \<noteq> ColNumeric then Err (UnexpectedColumnType name ''numeric amount'' ty)
      else if sch_numeric schema \<noteq> EnterpriseMaterializedRaw then Err UnexpectedNumericLayout
      else case v of
        SqlNumeric marker digits \<Rightarrow>
          rbind (map_err (\<lambda>_. AdapterAmount name) (cents_from_enterprise_token marker digits))
            (\<lambda>c. Ok (amount_of c))
      | _ \<Rightarrow> Err (UnexpectedValueType name ''Enterprise numeric amount''))"

definition numeric_null_value :: "string \<Rightarrow> column_type \<Rightarrow> sql_value \<Rightarrow> (adapter_error, bool) outcome" where
  "numeric_null_value name ty v =
     (if ty \<noteq> ColNumeric then Err (UnexpectedColumnType name ''numeric amount'' ty) else Ok (v = SqlNull))"

definition bool_value :: "string \<Rightarrow> column_type \<Rightarrow> sql_value \<Rightarrow> (adapter_error, bool) outcome" where
  "bool_value name ty v =
     (if ty \<noteq> ColBoolean then Err (UnexpectedColumnType name ''boolean'' ty)
      else case v of SqlBoolean b \<Rightarrow> Ok b | _ \<Rightarrow> Err (UnexpectedValueType name ''boolean''))"

section \<open>Finding a column\<close>

type_synonym found_column = "string \<times> column_def \<times> sql_value"

text \<open>In a complete row: the pair of a column and the value at its position.\<close>

definition accepted_names :: "string list \<Rightarrow> string" where
  "accepted_names names = join_with '' or '' names"

definition named_step ::
    "string list \<Rightarrow> column_def \<times> sql_value \<Rightarrow> found_column option \<Rightarrow> (adapter_error, found_column option) outcome" where
  "named_step names cv found =
     (case cv of (column, v) \<Rightarrow>
        if cd_name column \<in> set names then
          if found \<noteq> None then Err (AmbiguousColumn (accepted_names names))
          else Ok (Some (cd_name column, column, v))
        else Ok found)"

definition named_column ::
    "row_schema \<Rightarrow> decoded_row \<Rightarrow> string list \<Rightarrow> (adapter_error, found_column option) outcome" where
  "named_column schema row names =
     rfold (named_step names) (zip (sch_columns schema) (dr_values row)) None"

definition required_column ::
    "row_schema \<Rightarrow> decoded_row \<Rightarrow> string list \<Rightarrow> (adapter_error, found_column) outcome" where
  "required_column schema row names =
     rbind (named_column schema row names) (\<lambda>c. ok_or c (MissingColumn (accepted_names names)))"

text \<open>In a partial row: first the flag that the name was seen, then the value found.\<close>

definition partial_named_step ::
    "row_schema \<Rightarrow> partial_row \<Rightarrow> string list \<Rightarrow> column_def \<Rightarrow> bool \<times> found_column option \<Rightarrow>
     (adapter_error, bool \<times> found_column option) outcome" where
  "partial_named_step schema row names column st =
     (case st of (matched, found) \<Rightarrow>
        if cd_name column \<in> set names then
          if matched then Err (AmbiguousColumn (accepted_names names))
          else
            rbind (map_err (\<lambda>_. PartialSchemaProvenance (cd_name column))
                     (if cd_type column = ColBoolean
                      then boolean_value_by_column_name schema row (cd_name column)
                      else prefix_value_by_column_name schema row (cd_name column))) (\<lambda>v.
              Ok (True, case v of Some v \<Rightarrow> Some (cd_name column, column, v) | None \<Rightarrow> found))
        else Ok (matched, found))"

definition partial_named_column ::
    "row_schema \<Rightarrow> partial_row \<Rightarrow> string list \<Rightarrow> (adapter_error, found_column option) outcome" where
  "partial_named_column schema row names =
     rbind (rfold (partial_named_step schema row names) (sch_columns schema) (False, None)) (\<lambda>(_, found). Ok found)"

definition partial_required_column ::
    "row_schema \<Rightarrow> partial_row \<Rightarrow> string list \<Rightarrow> (adapter_error, found_column) outcome" where
  "partial_required_column schema row names =
     rbind (partial_named_column schema row names)
       (\<lambda>c. ok_or c (PartialValueUnavailable (accepted_names names)))"

section \<open>Reading one column\<close>

definition required_id :: "row_schema \<Rightarrow> decoded_row \<Rightarrow> string list \<Rightarrow> (adapter_error, u64) outcome" where
  "required_id schema row names =
     rbind (required_column schema row names) (\<lambda>(name, column, v). id_value name (cd_type column) v)"

definition required_date ::
    "sa_calendar \<Rightarrow> row_schema \<Rightarrow> decoded_row \<Rightarrow> string list \<Rightarrow> (adapter_error, int) outcome" where
  "required_date cal schema row names =
     rbind (required_column schema row names) (\<lambda>(name, column, v). date_value cal name (cd_type column) v)"

definition required_amount ::
    "row_schema \<Rightarrow> decoded_row \<Rightarrow> string list \<Rightarrow> (adapter_error, amount) outcome" where
  "required_amount schema row names =
     rbind (required_column schema row names) (\<lambda>(name, column, v). amount_value schema name (cd_type column) v)"

definition amount_is_sql_null :: "row_schema \<Rightarrow> decoded_row \<Rightarrow> string list \<Rightarrow> (adapter_error, bool) outcome" where
  "amount_is_sql_null schema row names =
     rbind (required_column schema row names) (\<lambda>(name, column, v). numeric_null_value name (cd_type column) v)"

definition required_bool :: "row_schema \<Rightarrow> decoded_row \<Rightarrow> string list \<Rightarrow> (adapter_error, bool) outcome" where
  "required_bool schema row names =
     rbind (required_column schema row names) (\<lambda>(name, column, v). bool_value name (cd_type column) v)"

definition optional_bool ::
    "row_schema \<Rightarrow> decoded_row \<Rightarrow> string list \<Rightarrow> (adapter_error, bool option) outcome" where
  "optional_bool schema row names =
     rbind (named_column schema row names) (\<lambda>c.
       case c of
         Some (name, column, v) \<Rightarrow> rbind (bool_value name (cd_type column) v) (\<lambda>b. Ok (Some b))
       | None \<Rightarrow> Ok None)"

definition partial_required_id ::
    "row_schema \<Rightarrow> partial_row \<Rightarrow> string list \<Rightarrow> (adapter_error, u64) outcome" where
  "partial_required_id schema row names =
     rbind (partial_required_column schema row names) (\<lambda>(name, column, v). id_value name (cd_type column) v)"

definition partial_required_date ::
    "sa_calendar \<Rightarrow> row_schema \<Rightarrow> partial_row \<Rightarrow> string list \<Rightarrow> (adapter_error, int) outcome" where
  "partial_required_date cal schema row names =
     rbind (partial_required_column schema row names) (\<lambda>(name, column, v). date_value cal name (cd_type column) v)"

definition partial_required_amount ::
    "row_schema \<Rightarrow> partial_row \<Rightarrow> string list \<Rightarrow> (adapter_error, amount) outcome" where
  "partial_required_amount schema row names =
     rbind (partial_required_column schema row names)
       (\<lambda>(name, column, v). amount_value schema name (cd_type column) v)"

definition partial_amount_is_sql_null ::
    "row_schema \<Rightarrow> partial_row \<Rightarrow> string list \<Rightarrow> (adapter_error, bool) outcome" where
  "partial_amount_is_sql_null schema row names =
     rbind (partial_required_column schema row names)
       (\<lambda>(name, column, v). numeric_null_value name (cd_type column) v)"

definition partial_required_bool ::
    "row_schema \<Rightarrow> partial_row \<Rightarrow> string list \<Rightarrow> (adapter_error, bool) outcome" where
  "partial_required_bool schema row names =
     rbind (partial_required_column schema row names) (\<lambda>(name, column, v). bool_value name (cd_type column) v)"

definition partial_optional_bool ::
    "row_schema \<Rightarrow> partial_row \<Rightarrow> string list \<Rightarrow> (adapter_error, bool option) outcome" where
  "partial_optional_bool schema row names =
     rbind (partial_named_column schema row names) (\<lambda>c.
       case c of
         Some (name, column, v) \<Rightarrow> rbind (bool_value name (cd_type column) v) (\<lambda>b. Ok (Some b))
       | None \<Rightarrow> Ok None)"

section \<open>Schema-decoded rows\<close>

record column_layout =
  cl_target :: "string list"
  cl_transaction :: "string list"
  cl_account :: "string list"
  cl_date :: "string list"
  cl_amount :: "string list"
  cl_no_post :: "string list"
  cl_memorized :: "string list"
  cl_source :: "string list"
  cl_split :: "string list"

definition core_layout :: column_layout where
  "core_layout =
     \<lparr>cl_target = [''target_id''], cl_transaction = [''transaction_id''], cl_account = [''account_id''],
      cl_date = [''transaction_date''], cl_amount = [''amount_amt''], cl_no_post = [''is_no_post_bool''],
      cl_memorized = [''is_memorized_transaction_bool''], cl_source = [''is_source_bool''],
      cl_split = [''is_split_bool'']\<rparr>"

definition layout_for_table :: "accounting_table \<Rightarrow> (adapter_error, column_layout) outcome" where
  "layout_for_table table =
     (if \<not> is_posting_table table then Err (NotPostingTable table)
      else case table of
        BillPaymentCheckLine \<Rightarrow> Ok core_layout
      | BillLine \<Rightarrow> Ok core_layout
      | CheckLine \<Rightarrow> Ok core_layout
      | DepositLine \<Rightarrow> Ok core_layout
      | GeneralJournalLine \<Rightarrow> Ok core_layout
      | _ \<Rightarrow> Panic)"

definition adapt_enterprise_posting_row ::
    "sa_calendar \<Rightarrow> accounting_table \<Rightarrow> row_schema \<Rightarrow> decoded_row \<Rightarrow> (adapter_error, adaptation) outcome" where
  "adapt_enterprise_posting_row cal table schema row =
     rbind (layout_for_table table) (\<lambda>layout.
     rbind (ensure (length (sch_columns schema) = length (dr_values row))
              (SchemaValueCountMismatch (length (sch_columns schema)) (length (dr_values row)))) (\<lambda>_.
     rbind (ensure (dr_declared_size row = dr_consumed_size row)
              (RowNotExactlyDecoded (dr_declared_size row) (dr_consumed_size row))) (\<lambda>_.
     rbind (required_id schema row (cl_target layout)) (\<lambda>target.
     rbind (required_id schema row (cl_transaction layout)) (\<lambda>transaction.
     rbind (required_bool schema row (cl_no_post layout)) (\<lambda>no_post.
     if no_post then Ok (AdaptedExclusion (RowNoPost target transaction))
     else rbind (required_bool schema row (cl_memorized layout)) (\<lambda>memorized.
     if memorized then Ok (AdaptedExclusion (RowMemorized target transaction))
     else rbind (optional_bool schema row (cl_source layout)) (\<lambda>source.
     rbind (if source = Some True then amount_is_sql_null schema row (cl_amount layout) else Ok False) (\<lambda>link.
     if link then Ok (AdaptedExclusion (RowSourceOrLink target transaction))
     else rbind (required_id schema row (cl_account layout)) (\<lambda>account.
     rbind (required_date cal schema row (cl_date layout)) (\<lambda>date.
     rbind (ok_or (fixed_for_table table) (TypeNeedsDedicatedDecoder table)) (\<lambda>ty.
     rbind (optional_bool schema row (cl_split layout)) (\<lambda>split.
     rbind (required_amount schema row (cl_amount layout)) (\<lambda>(cents, zero).
     if zero then Ok (AdaptedExclusion (RowZeroAmount target transaction account date ty))
     else Ok (AdaptedPosting
            \<lparr>ep_table = table, ep_type = ty, ep_target = target, ep_transaction = transaction,
             ep_account = account, ep_date = date, ep_cents = cents, ep_is_source = source,
             ep_is_split = split\<rparr>)))))))))))))))"

definition adapt_enterprise_posting_row_partial ::
    "sa_calendar \<Rightarrow> accounting_table \<Rightarrow> row_schema \<Rightarrow> partial_row \<Rightarrow> (adapter_error, adaptation) outcome" where
  "adapt_enterprise_posting_row_partial cal table schema row =
     rbind (layout_for_table table) (\<lambda>layout.
     rbind (partial_required_id schema row (cl_target layout)) (\<lambda>target.
     rbind (partial_required_id schema row (cl_transaction layout)) (\<lambda>transaction.
     rbind (partial_required_bool schema row (cl_no_post layout)) (\<lambda>no_post.
     if no_post then Ok (AdaptedExclusion (RowNoPost target transaction))
     else rbind (partial_required_bool schema row (cl_memorized layout)) (\<lambda>memorized.
     if memorized then Ok (AdaptedExclusion (RowMemorized target transaction))
     else rbind (partial_optional_bool schema row (cl_source layout)) (\<lambda>source.
     rbind (if source = Some True then partial_amount_is_sql_null schema row (cl_amount layout) else Ok False) (\<lambda>link.
     if link then Ok (AdaptedExclusion (RowSourceOrLink target transaction))
     else rbind (ok_or (fixed_for_table table) (TypeNeedsDedicatedDecoder table)) (\<lambda>ty.
     rbind (partial_required_id schema row (cl_account layout)) (\<lambda>account.
     rbind (partial_required_date cal schema row (cl_date layout)) (\<lambda>date.
     rbind (partial_optional_bool schema row (cl_split layout)) (\<lambda>split.
     rbind (partial_required_amount schema row (cl_amount layout)) (\<lambda>(cents, zero).
     if zero then Ok (AdaptedExclusion (RowZeroAmount target transaction account date ty))
     else Ok (AdaptedPosting
            \<lparr>ep_table = table, ep_type = ty, ep_target = target, ep_transaction = transaction,
             ep_account = account, ep_date = date, ep_cents = cents, ep_is_source = source,
             ep_is_split = split\<rparr>)))))))))))))"

end
