(* ===== verification/Adapter_Facts.thy ===== *)
theory Adapter_Facts
  imports Posting_Adapter
begin

text \<open>
  The two schema-driven adapters agree: what the adapter of partial rows accepts is what the adapter
  of complete rows makes of any complete row that the partial row is a part of.
\<close>

section \<open>Column searches are filters\<close>

lemma named_column_Ok:
  "named_column schema row names = Ok found \<longleftrightarrow>
     (case filter (\<lambda>cv. cd_name (fst cv) \<in> set names) (zip (sch_columns schema) (dr_values row)) of
        [] \<Rightarrow> found = None
      | [cv] \<Rightarrow> found = Some (cd_name (fst cv), fst cv, snd cv)
      | _ \<Rightarrow> False)"
proof -
  have some: "rfold (named_step names) cvs (Some x) = Ok found \<longleftrightarrow>
      filter (\<lambda>cv. cd_name (fst cv) \<in> set names) cvs = [] \<and> found = Some x" for cvs x
    by (induction cvs) (auto simp: named_step_def outcome_simps split: prod.splits)
  have "rfold (named_step names) cvs None = Ok found \<longleftrightarrow>
      (case filter (\<lambda>cv. cd_name (fst cv) \<in> set names) cvs of
         [] \<Rightarrow> found = None | [cv] \<Rightarrow> found = Some (cd_name (fst cv), fst cv, snd cv) | _ \<Rightarrow> False)" for cvs
  proof (induction cvs)
    case (Cons cv cvs)
    have "rfold (named_step names) (cv # cvs) None =
        rfold (named_step names) cvs (if cd_name (fst cv) \<in> set names then Some (cd_name (fst cv), fst cv, snd cv) else None)"
      by (cases cv) (simp add: named_step_def)
    with Cons show ?case
      by (cases "cd_name (fst cv) \<in> set names") (auto simp: some split: list.splits)
  qed auto
  then show ?thesis by (simp add: named_column_def)
qed

lemma partial_named_column_Ok:
  "partial_named_column schema row names = Ok found \<longleftrightarrow>
     (case filter (\<lambda>c. cd_name c \<in> set names) (sch_columns schema) of
        [] \<Rightarrow> found = None
      | [c] \<Rightarrow> (\<exists>v. value_by_name schema row (cd_name c) (cd_type c = ColBoolean) = Ok v
                 \<and> found = map_option (\<lambda>v. (cd_name c, c, v)) v)
      | _ \<Rightarrow> False)"
proof -
  let ?f = "\<lambda>c. cd_name c \<in> set names"
  have seen: "rfold (partial_named_step schema row names) cs (True, x) = Ok st \<longleftrightarrow>
      filter ?f cs = [] \<and> st = (True, x)" for cs x st
    by (induction cs) (auto simp: partial_named_step_def)
  have one: "map_err e (if cd_type c = ColBoolean then boolean_value_by_column_name schema row (cd_name c)
        else prefix_value_by_column_name schema row (cd_name c)) = Ok v
      \<longleftrightarrow> value_by_name schema row (cd_name c) (cd_type c = ColBoolean) = Ok v" for e :: "_ \<Rightarrow> adapter_error" and c v
    by (cases "cd_type c = ColBoolean")
      (simp_all add: boolean_value_by_column_name_def prefix_value_by_column_name_def outcome_simps)
  have "(\<exists>m. rfold (partial_named_step schema row names) cs (False, None) = Ok (m, found)) \<longleftrightarrow>
     (case filter ?f cs of
        [] \<Rightarrow> found = None
      | [c] \<Rightarrow> (\<exists>v. value_by_name schema row (cd_name c) (cd_type c = ColBoolean) = Ok v
                 \<and> found = map_option (\<lambda>v. (cd_name c, c, v)) v)
      | _ \<Rightarrow> False)" for cs
  proof (induction cs)
    case (Cons c cs)
    show ?case
    proof (cases "?f c")
      case True
      then have "(\<exists>m. rfold (partial_named_step schema row names) (c # cs) (False, None) = Ok (m, found)) \<longleftrightarrow>
          (\<exists>v. value_by_name schema row (cd_name c) (cd_type c = ColBoolean) = Ok v
            \<and> filter ?f cs = [] \<and> found = map_option (\<lambda>v. (cd_name c, c, v)) v)"
      proof -
        have step: "partial_named_step schema row names c (False, None) = Ok st \<longleftrightarrow>
            (\<exists>v. value_by_name schema row (cd_name c) (cd_type c = ColBoolean) = Ok v
              \<and> st = (True, map_option (\<lambda>v. (cd_name c, c, v)) v))" for st
          using True unfolding partial_named_step_def by (auto simp: rbind_Ok_iff one split: option.splits)
        have "(\<exists>m. rfold (partial_named_step schema row names) (c # cs) (False, None) = Ok (m, found)) \<longleftrightarrow>
            (\<exists>v m. value_by_name schema row (cd_name c) (cd_type c = ColBoolean) = Ok v
              \<and> rfold (partial_named_step schema row names) cs (True, map_option (\<lambda>v. (cd_name c, c, v)) v) = Ok (m, found))"
          by (simp only: rfold.simps rbind_Ok_iff step) auto
        then show ?thesis unfolding seen by auto
      qed
      with True show ?thesis by (auto split: list.splits)
    next
      case False
      with Cons show ?thesis by (simp add: partial_named_step_def)
    qed
  qed auto
  then show ?thesis by (auto simp: partial_named_column_def outcome_simps)
qed

section \<open>A partial row that is part of a complete row\<close>

text \<open>
  Every value the partial row holds is the value of the complete row at its position, and the two
  optional flags, where the schema has them, are among the decoded values.
\<close>

definition part_of :: "row_schema \<Rightarrow> partial_row \<Rightarrow> decoded_row \<Rightarrow> bool" where
  "part_of schema part full \<longleftrightarrow>
     length (dr_values full) = length (sch_columns schema)
     \<and> dr_declared_size full = dr_consumed_size full
     \<and> list_all (\<lambda>rv. rv_index rv < length (dr_values full) \<longrightarrow> dr_values full ! rv_index rv = rv_value rv)
         (pr_prefix part @ pr_booleans part)
     \<and> list_all (\<lambda>c. cd_name c \<in> {''is_source_bool'', ''is_split_bool''} \<longrightarrow>
           value_by_name schema part (cd_name c) (cd_type c = ColBoolean) \<noteq> Ok None) (sch_columns schema)"

lemma filter_zip_unique:
  assumes "filter P cs = [c]" and "length vs = length cs" and "i < length cs" and "cs ! i = c"
  shows "filter (\<lambda>cv. P (fst cv)) (zip cs vs) = [(c, vs ! i)]"
  using assms
proof (induction cs arbitrary: vs i)
  case (Cons x cs)
  then obtain v ws where vs: "vs = v # ws" by (cases vs) auto
  show ?case
  proof (cases "P x")
    case True
    with Cons.prems(1) have x: "x = c" and none: "filter P cs = []" by auto
    have "i = 0"
    proof (rule ccontr)
      assume "i \<noteq> 0"
      with Cons.prems(3,4) have "c \<in> set cs" by (cases i) auto
      moreover have "P c" using True x by simp
      ultimately show False using none by (auto simp: filter_empty_conv)
    qed
    moreover have "filter (\<lambda>cv. P (fst cv)) (zip cs ws) = []"
      using none by (auto simp: filter_empty_conv dest: set_zip_leftD)
    ultimately show ?thesis using True x vs by simp
  next
    case False
    have "c \<in> set (filter P (x # cs))" unfolding Cons.prems(1) by simp
    then have "P c" unfolding set_filter by simp
    then obtain j where j: "i = Suc j" using False Cons.prems(4) by (cases i) auto
    then show ?thesis using Cons.IH [of ws j] Cons.prems False vs by simp
  qed
qed simp

lemma named_of_partial:
  assumes part: "part_of schema part full" and "partial_named_column schema part names = Ok (Some found)"
  shows "named_column schema full names = Ok (Some found)"
proof -
  let ?P = "\<lambda>c. cd_name c \<in> set names"
  obtain c v where f: "filter ?P (sch_columns schema) = [c]"
    and v: "value_by_name schema part (cd_name c) (cd_type c = ColBoolean) = Ok (Some v)"
    and found: "found = (cd_name c, c, v)"
    using assms(2) by (auto simp: partial_named_column_Ok map_option_case split: list.splits option.splits)
  obtain rv column where rv: "rv \<in> set (if cd_type c = ColBoolean then pr_booleans part else pr_prefix part)"
    "rv_value rv = v" "rv_index rv < length (sch_columns schema)" "sch_columns schema ! rv_index rv = column"
    "cd_name column = cd_name c"
    using value_by_name_Some [OF v] by metis
  have "c \<in> set (filter ?P (sch_columns schema))" unfolding f by simp
  then have "?P c" by simp
  with rv have "column \<in> set (filter ?P (sch_columns schema))" by auto
  with f have "column = c" by simp
  moreover have len: "length (dr_values full) = length (sch_columns schema)" using part by (simp add: part_of_def)
  moreover have "dr_values full ! rv_index rv = v"
    using part rv len by (auto simp: part_of_def list_all_iff split: if_splits)
  ultimately have "filter (\<lambda>cv. ?P (fst cv)) (zip (sch_columns schema) (dr_values full)) = [(c, v)]"
    using filter_zip_unique [OF f, of "dr_values full" "rv_index rv"] rv by simp
  then show ?thesis by (simp add: named_column_Ok found)
qed

lemma named_none_of_partial:
  assumes part: "part_of schema part full" and "partial_named_column schema part [name] = Ok None"
    and name: "name \<in> {''is_source_bool'', ''is_split_bool''}"
  shows "named_column schema full [name] = Ok None"
proof -
  have "filter (\<lambda>c. cd_name c \<in> set [name]) (sch_columns schema) = []"
  proof (rule ccontr)
    assume "filter (\<lambda>c. cd_name c \<in> set [name]) (sch_columns schema) \<noteq> []"
    then obtain c where f: "filter (\<lambda>c. cd_name c \<in> set [name]) (sch_columns schema) = [c]"
      and none: "value_by_name schema part (cd_name c) (cd_type c = ColBoolean) = Ok None"
      using assms(2) by (auto simp: partial_named_column_Ok split: list.splits)
    have "c \<in> set (filter (\<lambda>c. cd_name c \<in> set [name]) (sch_columns schema))" unfolding f by simp
    with part name none show False by (auto simp: part_of_def list_all_iff)
  qed
  then have "filter (\<lambda>cv. cd_name (fst cv) \<in> set [name]) (zip (sch_columns schema) (dr_values full)) = []"
    by (auto simp: filter_empty_conv dest: set_zip_leftD)
  then show ?thesis unfolding named_column_Ok by simp
qed

section \<open>Reading a column of both rows\<close>

lemma required_of_partial:
  assumes "part_of schema part full" and "partial_required_column schema part names = Ok found"
  shows "required_column schema full names = Ok found"
  using assms named_of_partial [OF assms(1)] unfolding partial_required_column_def required_column_def
  by (auto simp: outcome_simps)

lemma reads_of_partial:
  assumes "part_of schema part full"
  shows "partial_required_id schema part names = Ok n \<Longrightarrow> required_id schema full names = Ok n"
    and "partial_required_date cal schema part names = Ok d \<Longrightarrow> required_date cal schema full names = Ok d"
    and "partial_required_amount schema part names = Ok a \<Longrightarrow> required_amount schema full names = Ok a"
    and "partial_amount_is_sql_null schema part names = Ok b \<Longrightarrow> amount_is_sql_null schema full names = Ok b"
    and "partial_required_bool schema part names = Ok b \<Longrightarrow> required_bool schema full names = Ok b"
  unfolding partial_required_id_def required_id_def partial_required_date_def required_date_def
    partial_required_amount_def required_amount_def partial_amount_is_sql_null_def amount_is_sql_null_def
    partial_required_bool_def required_bool_def rbind_Ok_iff
  using required_of_partial [OF assms] by blast+

lemma optional_of_partial:
  assumes "part_of schema part full" and "partial_optional_bool schema part [name] = Ok b"
    and "name \<in> {''is_source_bool'', ''is_split_bool''}"
  shows "optional_bool schema full [name] = Ok b"
proof -
  obtain found where f: "partial_named_column schema part [name] = Ok found"
    and b: "(case found of Some (name, column, v) \<Rightarrow> rbind (bool_value name (cd_type column) v) (\<lambda>b. Ok (Some b))
       | None \<Rightarrow> Ok None) = Ok b"
    using assms(2) unfolding partial_optional_bool_def rbind_Ok_iff by blast
  have "named_column schema full [name] = Ok found"
    using f named_of_partial [OF assms(1)] named_none_of_partial [OF assms(1) _ assms(3)] by (cases found) auto
  with b show ?thesis by (simp add: optional_bool_def)
qed

text \<open>One computation approves another when its successes are successes of the other.\<close>

definition approves :: "('e, 'a) outcome \<Rightarrow> ('e, 'a) outcome \<Rightarrow> bool" where
  "approves p q \<longleftrightarrow> (\<forall>a. p = Ok a \<longrightarrow> q = Ok a)"

lemma approves_refl: "approves p p"
  by (simp add: approves_def)

lemma approves_rbind: "approves p q \<Longrightarrow> (\<And>x. p = Ok x \<Longrightarrow> approves (f x) (g x)) \<Longrightarrow> approves (rbind p f) (rbind q g)"
  by (auto simp: approves_def rbind_Ok_iff)

lemma approves_skip: "q = Ok u \<Longrightarrow> approves p (f u) \<Longrightarrow> approves p (rbind q f)"
  by simp

lemma approves_if: "(b \<Longrightarrow> approves p q) \<Longrightarrow> (\<not> b \<Longrightarrow> approves p' q') \<Longrightarrow> approves (if b then p else p') (if b then q else q')"
  by simp

text \<open>The fixed transaction type is asked for earlier of a partial row.\<close>

lemma approves_later:
  assumes "approves a a'" and "approves d d'" and "\<And>t x y. approves (f t x y) (f' t x y)"
  shows "approves (rbind t (\<lambda>t. rbind a (\<lambda>x. rbind d (f t x)))) (rbind a' (\<lambda>x. rbind d' (\<lambda>y. rbind t (\<lambda>t. f' t x y))))"
  using assms by (auto simp: approves_def rbind_Ok_iff)

lemma partial_adapter_agrees:
  assumes "part_of schema part full" and "adapt_enterprise_posting_row_partial cal table schema part = Ok a"
  shows "adapt_enterprise_posting_row cal table schema full = Ok a"
proof -
  obtain layout where layout: "layout_for_table table = Ok layout"
    using assms(2) by (auto simp: adapt_enterprise_posting_row_partial_def outcome_simps)
  then have flags: "cl_source layout = [''is_source_bool'']" "cl_split layout = [''is_split_bool'']"
    by (auto simp: layout_for_table_def core_layout_def split: if_splits accounting_table.splits)
  have reads: "approves (partial_required_id schema part names) (required_id schema full names)"
    "approves (partial_required_date cal schema part names) (required_date cal schema full names)"
    "approves (partial_required_amount schema part names) (required_amount schema full names)"
    "approves (partial_amount_is_sql_null schema part names) (amount_is_sql_null schema full names)"
    "approves (partial_required_bool schema part names) (required_bool schema full names)"
    "approves (partial_optional_bool schema part (cl_source layout)) (optional_bool schema full (cl_source layout))"
    "approves (partial_optional_bool schema part (cl_split layout)) (optional_bool schema full (cl_split layout))" for names
    using reads_of_partial [OF assms(1)] optional_of_partial [OF assms(1)] by (simp_all add: approves_def flags)
  have same: "length (sch_columns schema) = length (dr_values full)" "dr_declared_size full = dr_consumed_size full"
    using assms(1) by (simp_all add: part_of_def)
  have "approves (adapt_enterprise_posting_row_partial cal table schema part) (adapt_enterprise_posting_row cal table schema full)"
    unfolding adapt_enterprise_posting_row_partial_def adapt_enterprise_posting_row_def layout rbind.simps same ensure_def if_True
      simp_thms
    by (intro approves_later approves_rbind approves_if reads approves_refl)
  with assms(2) show ?thesis by (simp add: approves_def)
qed

end
