(* ===== verification/Header_Transform.thy ===== *)
theory Header_Transform
  imports Row_Bytes
begin

text \<open>
  The recovery of a page transform from the known page key,
  \<open>crates/openqbw/src/enterprise_page_materializer.rs\<close>: the cycle probes of the 256 odd strides, the
  congruence solver for the seed increment, and the candidate transforms of a raw sector. A probe is
  walked by fuel: 512 steps close the cycle of every odd stride. The solver is shown to find exactly
  the increments an exhaustive search over all odd bytes would find.
\<close>

section \<open>Cycle probes\<close>

record cycle_probe =
  probe_step :: nat
  probe_source :: "nat list"
  probe_rank :: "nat list"

definition sector_len :: nat where
  "sector_len = 512"

text \<open>The inner \<open>loop\<close>: the state is the two arrays; None stands for a walk that does not close.\<close>

fun probe_walk :: "nat \<Rightarrow> nat \<Rightarrow> nat \<Rightarrow> nat \<Rightarrow> nat list \<times> nat list \<Rightarrow> (nat list \<times> nat list) option" where
  "probe_walk 0 step current ordinal st = None"
| "probe_walk (Suc fuel) step current ordinal st =
     (let next_pos = (current + step) mod sector_len;
          st' = (if current < 4 then ((fst st)[current := next_pos], (snd st)[current := ordinal]) else st) in
      if next_pos = 0 then Some st'
      else probe_walk fuel step next_pos (Suc ordinal) st')"

definition cycle_probe_of :: "nat \<Rightarrow> cycle_probe option" where
  "cycle_probe_of step =
     map_option (\<lambda>(source, rank). \<lparr>probe_step = step, probe_source = source, probe_rank = rank\<rparr>)
       (probe_walk sector_len step 0 0 (replicate 4 0, replicate 4 0))"

definition header_cycle_probes :: "cycle_probe list" where
  "header_cycle_probes = List.map_filter cycle_probe_of (filter odd [1..<sector_len])"

section \<open>Solving for the increment\<close>

definition inverse_odd_mod_256 :: "u8 \<Rightarrow> u8" where
  "inverse_odd_mod_256 v = ((\<lambda>inverse. inverse * (2 - v * inverse)) ^^ 3) 1"

fun trailing_zeros :: "nat \<Rightarrow> nat" where
  "trailing_zeros n = (if n = 0 \<or> odd n then 0 else Suc (trailing_zeros (n div 2)))"

declare trailing_zeros.simps [simp del]

definition rank_byte :: "cycle_probe \<Rightarrow> nat \<Rightarrow> u8" where
  "rank_byte probe i = word_of_nat (probe_rank probe ! i)"

definition raw_source :: "cycle_probe \<Rightarrow> byte list \<Rightarrow> nat \<Rightarrow> u8" where
  "raw_source probe raw i = raw ! (probe_source probe ! i)"

definition odd_bytes :: "u8 list" where
  "odd_bytes = map word_of_nat (filter odd [1..<256])"

text \<open>The congruence \<open>multiplier * x = target\<close> on bytes: all odd solutions.\<close>

definition solve_odd :: "u8 \<Rightarrow> u8 \<Rightarrow> u8 list" where
  "solve_odd multiplier target =
     (let divisor = 2 ^ trailing_zeros (unat multiplier) in
      if unat target mod divisor \<noteq> 0 then []
      else
        let modulus = 256 div divisor;
            inverse = unat (inverse_odd_mod_256 (word_of_nat (unat multiplier div divisor)));
            base = (unat target div divisor * inverse) mod modulus in
        filter (\<lambda>increment. odd (unat increment))
          (map (\<lambda>ordinal. word_of_nat (base + ordinal * modulus)) [0..<divisor]))"

definition constrained_odd_increments :: "cycle_probe \<Rightarrow> byte list \<Rightarrow> u8 list \<Rightarrow> u8 \<Rightarrow> u8 list" where
  "constrained_odd_increments probe raw expected seed =
     (case filter (\<lambda>i. rank_byte probe i \<noteq> 0) [1..<4] of
        [] \<Rightarrow> odd_bytes
      | ks \<Rightarrow>
          let index = arg_min_list (\<lambda>i. trailing_zeros (unat (rank_byte probe i))) ks in
          solve_odd (rank_byte probe index) (expected ! index - raw_source probe raw index - seed))"

section \<open>Candidates\<close>

text \<open>Stride, increment and seed, ordered as the derived order of the struct.\<close>

type_synonym header_transform = "nat \<times> u8 \<times> u8"

definition header_matches :: "cycle_probe \<Rightarrow> byte list \<Rightarrow> u8 list \<Rightarrow> u8 \<Rightarrow> u8 \<Rightarrow> bool" where
  "header_matches probe raw expected seed increment \<longleftrightarrow>
     list_all (\<lambda>i. raw_source probe raw i + seed + rank_byte probe i * increment = expected ! i) [0..<4]"

definition probe_candidates :: "byte list \<Rightarrow> u8 list \<Rightarrow> cycle_probe \<Rightarrow> header_transform list" where
  "probe_candidates raw expected probe =
     (let seed = expected ! 0 - raw_source probe raw 0 in
      map (\<lambda>increment. (probe_step probe, increment, seed))
        (filter (header_matches probe raw expected seed) (constrained_odd_increments probe raw expected seed)))"

definition recover_header_candidates :: "byte list \<Rightarrow> u32 \<Rightarrow> header_transform list" where
  "recover_header_candidates raw page_key =
     remdups_adj (sort (concat (map (probe_candidates raw (to_le_bytes page_key)) header_cycle_probes)))"

section \<open>The walk closes\<close>

lemma odd_mult_512: "odd step \<Longrightarrow> 512 dvd k * step \<longleftrightarrow> 512 dvd (k :: nat)"
proof -
  assume "odd step"
  then have "coprime (2 ^ 9 :: nat) step" unfolding coprime_power_left_iff by simp
  moreover have "(512 :: nat) = 2 ^ 9" by simp
  ultimately show "512 dvd k * step \<longleftrightarrow> 512 dvd k" by (simp only: coprime_dvd_mult_left_iff)
qed

text \<open>The position after \<open>k\<close> steps, and the arrays once those positions were visited.\<close>

definition cycle_pos :: "nat \<Rightarrow> nat \<Rightarrow> nat" where
  "cycle_pos step k = (k * step) mod 512"

lemma cycle_pos_Suc: "(cycle_pos step k + step) mod 512 = cycle_pos step (Suc k)"
  by (simp add: cycle_pos_def mod_simps add.commute)

lemma cycle_pos_0_iff: "odd step \<Longrightarrow> cycle_pos step k = 0 \<longleftrightarrow> 512 dvd k"
  unfolding cycle_pos_def mod_eq_0_iff_dvd by (rule odd_mult_512)

lemma cycle_pos_inj:
  assumes "odd step" and "j < 512" and "k < 512" and "cycle_pos step j = cycle_pos step k"
  shows "j = k"
proof -
  have *: "j = k" if "j \<le> k" and "k < 512" and "cycle_pos step j = cycle_pos step k" for j k
  proof -
    have "512 dvd k * step - j * step"
      using that(3) mod_eq_dvd_iff_nat [OF mult_le_mono1 [OF that(1), of step], of 512]
      by (simp add: cycle_pos_def)
    then have "512 dvd (k - j) * step" by (simp add: diff_mult_distrib)
    then have "512 dvd k - j" using odd_mult_512 assms(1) by blast
    with that show ?thesis by (cases "k - j = 0") (auto dest: dvd_imp_le)
  qed
  show ?thesis using * [of j k] * [of k j] assms by (cases "j \<le> k") auto
qed

definition walked :: "nat \<Rightarrow> nat \<Rightarrow> nat list \<times> nat list \<Rightarrow> bool" where
  "walked step k st \<longleftrightarrow> length (fst st) = 4 \<and> length (snd st) = 4
     \<and> (\<forall>j<k. cycle_pos step j < 4 \<longrightarrow>
          fst st ! cycle_pos step j = cycle_pos step (Suc j) \<and> snd st ! cycle_pos step j = j)"

lemma walked_step:
  assumes "odd step" and "k < 512" and "walked step k st"
  shows "walked step (Suc k)
     (if cycle_pos step k < 4
      then ((fst st)[cycle_pos step k := cycle_pos step (Suc k)], (snd st)[cycle_pos step k := k]) else st)"
proof -
  have neq: "cycle_pos step j \<noteq> cycle_pos step k" if "j < k" for j
    using cycle_pos_inj [OF assms(1), of j k] assms(2) that by auto
  have old: "fst st ! cycle_pos step j = cycle_pos step (Suc j) \<and> snd st ! cycle_pos step j = j"
    if "j < k" and "cycle_pos step j < 4" for j
    using assms(3) that unfolding walked_def by blast
  have len: "length (fst st) = 4" "length (snd st) = 4" using assms(3) by (simp_all add: walked_def)
  show ?thesis
    unfolding walked_def
  proof (intro conjI allI impI; (elim less_SucE)?)
    fix j assume "j < k" and "cycle_pos step j < 4"
    with old [of j] neq [of j]
    show "fst (if cycle_pos step k < 4
        then ((fst st)[cycle_pos step k := cycle_pos step (Suc k)], (snd st)[cycle_pos step k := k]) else st)
        ! cycle_pos step j = cycle_pos step (Suc j)"
      and "snd (if cycle_pos step k < 4
        then ((fst st)[cycle_pos step k := cycle_pos step (Suc k)], (snd st)[cycle_pos step k := k]) else st)
        ! cycle_pos step j = j"
      by (simp_all add: eq_commute)
  qed (simp_all add: len)
qed

lemma probe_walk_closes:
  assumes "odd step" and "walked step k st" and "k + fuel = 512" and "0 < fuel"
  shows "\<exists>st'. probe_walk fuel step (cycle_pos step k) k st = Some st' \<and> walked step 512 st'"
  using assms(2-)
proof (induction fuel arbitrary: k st)
  case (Suc fuel)
  let ?st = "if cycle_pos step k < 4
      then ((fst st)[cycle_pos step k := cycle_pos step (Suc k)], (snd st)[cycle_pos step k := k]) else st"
  have w: "walked step (Suc k) ?st" using walked_step [OF assms(1), of k st] Suc.prems by simp
  have z: "cycle_pos step (Suc k) = 0 \<longleftrightarrow> fuel = 0"
    using Suc.prems by (auto simp: cycle_pos_0_iff [OF assms(1)] dest: dvd_imp_le)
  show ?case
  proof (cases "fuel = 0")
    case True
    with w z Suc.prems show ?thesis by (auto simp: Let_def sector_len_def cycle_pos_Suc)
  next
    case False
    with z Suc.IH [OF w] Suc.prems show ?thesis by (simp add: Let_def sector_len_def cycle_pos_Suc)
  qed
qed simp

text \<open>The number of the step that visits position \<open>i\<close>.\<close>

lemma cycle_covers:
  assumes "odd step" and "i < 512"
  shows "\<exists>j<512. cycle_pos step j = i"
proof -
  have "inj_on (cycle_pos step) {..<512}" using cycle_pos_inj [OF assms(1)] by (auto intro: inj_onI)
  moreover have "cycle_pos step ` {..<512} \<subseteq> {..<512}" by (auto simp: cycle_pos_def)
  ultimately have "cycle_pos step ` {..<512} = {..<512}" by (intro endo_inj_surj) simp_all
  with assms(2) have "i \<in> cycle_pos step ` {..<512}" by simp
  then show ?thesis by auto
qed

definition cycle_rank :: "nat \<Rightarrow> nat \<Rightarrow> nat" where
  "cycle_rank step i = the (find (\<lambda>j. cycle_pos step j = i) [0..<512])"

lemma cycle_rank_eq: "odd step \<Longrightarrow> j < 512 \<Longrightarrow> cycle_pos step j = i \<Longrightarrow> cycle_rank step i = j"
proof -
  assume *: "odd step" "j < 512" "cycle_pos step j = i"
  then obtain m where m: "find (\<lambda>j. cycle_pos step j = i) [0..<512] = Some m"
    by (cases "find (\<lambda>j. cycle_pos step j = i) [0..<512]") (auto simp: find_None_iff)
  then have "m < 512" and "cycle_pos step m = i" by (auto simp: find_Some_iff)
  with m * cycle_pos_inj show ?thesis by (simp add: cycle_rank_def)
qed

lemma cycle_probe_of_odd:
  assumes "odd step" and "step < 512"
  shows "cycle_probe_of step = Some \<lparr>probe_step = step, probe_source = map (\<lambda>i. (i + step) mod 512) [0..<4],
           probe_rank = map (cycle_rank step) [0..<4]\<rparr>"
proof -
  have "walked step 0 (replicate 4 0, replicate 4 0)" by (simp add: walked_def)
  from probe_walk_closes [OF assms(1) this, of 512]
  obtain source rank where w: "probe_walk 512 step 0 0 (replicate 4 0, replicate 4 0) = Some (source, rank)"
    and walked: "walked step 512 (source, rank)" by (auto simp: cycle_pos_def)
  have i: "source ! i = (i + step) mod 512 \<and> rank ! i = cycle_rank step i" if "i < 4" for i
  proof -
    have "i < 512" using that by simp
    from cycle_covers [OF assms(1) this] obtain j where j: "j < 512" "cycle_pos step j = i" by blast
    with walked that have "source ! i = cycle_pos step (Suc j)" and "rank ! i = j" by (auto simp: walked_def)
    with j cycle_rank_eq [OF assms(1) j] show ?thesis by (simp flip: cycle_pos_Suc)
  qed
  have "source = map (\<lambda>i. (i + step) mod 512) [0..<4]" and "rank = map (cycle_rank step) [0..<4]"
    using walked i by (auto intro!: nth_equalityI simp: walked_def)
  with w show ?thesis by (simp add: cycle_probe_of_def sector_len_def)
qed

section \<open>The solver is exact\<close>

lemma inverse_odd_mod_256:
  assumes "odd (unat v)"
  shows "v * inverse_odd_mod_256 v = 1"
proof -
  have step: "1 - v * ((\<lambda>x. x * (2 - v * x)) ^^ n) 1 = (1 - v) ^ (2 ^ n)" for n
  proof (induction n)
    case (Suc n)
    define x where "x = ((\<lambda>x. x * (2 - v * x)) ^^ n) 1"
    have "1 - v * (x * (2 - v * x)) = (1 - v * x) * (1 - v * x)" by (simp add: algebra_simps)
    with Suc show ?case by (simp add: x_def [symmetric] power_add [symmetric] mult_2)
  qed simp
  obtain k where "unat v = Suc (2 * k)" using assms by (auto elim: oddE)
  moreover have "v = word_of_nat (unat v)" by simp
  ultimately have "v = word_of_nat (Suc (2 * k))" by simp
  then have "v = 1 + 2 * word_of_nat k" by simp
  then have "1 - v = 2 * (- word_of_nat k)" by simp
  then have "(1 - v) ^ 8 = 256 * word_of_nat k ^ 8" by (simp add: power_mult_distrib)
  also have "(256 :: u8) = 0" by simp
  finally have "(1 - v) ^ 8 = 0" by simp
  moreover have "1 - v * inverse_odd_mod_256 v = (1 - v) ^ 8"
    unfolding inverse_odd_mod_256_def using step [of 3] by simp
  ultimately show ?thesis by simp
qed

lemma unat_eq_iff_byte: "n < 256 \<Longrightarrow> unat (x :: u8) = n \<longleftrightarrow> x = word_of_nat n"
  by (auto simp: unat_of_nat)

text \<open>A divisor of 256 with its power of two, and the odd rest.\<close>

lemma trailing_zeros_split:
  assumes "0 < n"
  shows "2 ^ trailing_zeros n dvd n" and "odd (n div 2 ^ trailing_zeros n)"
proof -
  have "\<exists>m. n = 2 ^ trailing_zeros n * m \<and> odd m"
    using assms
  proof (induction n rule: trailing_zeros.induct)
    case (1 n)
    show ?case
    proof (cases "odd n")
      case True
      then show ?thesis by (subst trailing_zeros.simps) auto
    next
      case False
      with 1(2) have "0 < n div 2" by (auto elim: evenE)
      with False 1 obtain m where "n div 2 = 2 ^ trailing_zeros (n div 2) * m" and "odd m" by auto
      with False 1(2) show ?thesis
        by (subst trailing_zeros.simps) (auto elim!: evenE intro!: exI [of _ m])
    qed
  qed
  then obtain m where m: "n = 2 ^ trailing_zeros n * m" "odd m" by blast
  show "2 ^ trailing_zeros n dvd n" by (subst (2) m(1)) simp
  have "n div 2 ^ trailing_zeros n = m" by (subst (1) m(1)) simp
  with m(2) show "odd (n div 2 ^ trailing_zeros n)" by simp
qed

lemma trailing_zeros_byte:
  assumes "m \<noteq> (0 :: u8)"
  shows "trailing_zeros (unat m) < 8"
proof (rule ccontr)
  assume "\<not> trailing_zeros (unat m) < 8"
  then have "(2 :: nat) ^ 8 dvd 2 ^ trailing_zeros (unat m)" by (intro le_imp_power_dvd) simp
  moreover have "0 < unat m" using assms by (simp add: unat_gt_0)
  ultimately have "256 dvd unat m" using trailing_zeros_split(1) [of "unat m"] by (auto intro: dvd_trans)
  with \<open>0 < unat m\<close> have "256 \<le> unat m" by (auto dest: dvd_imp_le)
  then show False using unat_byte_less [of m] by simp
qed

lemma unit_congruence:
  fixes m i x t M :: nat
  assumes "(m * i) mod M = 1 mod M"
  shows "(m * x) mod M = t mod M \<longleftrightarrow> x mod M = (t * i) mod M"
proof
  assume *: "(m * x) mod M = t mod M"
  have "x mod M = (1 mod M * x) mod M" by (simp only: mod_mult_left_eq mult_1)
  also have "\<dots> = (m * i * x) mod M" by (simp only: assms [symmetric] mod_mult_left_eq)
  also have "\<dots> = (m * x mod M * i) mod M" by (simp only: mod_mult_left_eq mult.assoc mult.commute [of i])
  also have "\<dots> = (t * i) mod M" by (simp only: * mod_mult_left_eq)
  finally show "x mod M = (t * i) mod M" .
next
  assume *: "x mod M = (t * i) mod M"
  have "(m * x) mod M = (m * (x mod M)) mod M" by (simp only: mod_mult_right_eq)
  also have "\<dots> = (m * i * t) mod M" by (simp only: * mod_mult_right_eq mult.assoc mult.commute [of t])
  also have "\<dots> = (1 mod M * t) mod M" by (simp only: assms [symmetric] mod_mult_left_eq)
  finally show "(m * x) mod M = t mod M" by (simp only: mod_mult_left_eq mult_1)
qed

lemma residues_below:
  fixes X M d :: nat
  assumes "0 < M" and "X < d * M" and "b < M"
  shows "X mod M = b \<longleftrightarrow> (\<exists>k<d. X = b + k * M)"
proof
  assume "X mod M = b"
  moreover have "X div M < d" using assms by (simp add: less_mult_imp_div_less)
  ultimately show "\<exists>k<d. X = b + k * M" by (metis add.commute div_mult_mod_eq)
qed (use assms in auto)

lemma byte_product_iff: "(m :: u8) * x = t \<longleftrightarrow> (unat m * unat x) mod 256 = unat t"
  by (simp add: word_unat_eq_iff unat_mult_lem unat_word_ariths)

lemma solve_odd_iff:
  assumes "m \<noteq> 0"
  shows "x \<in> set (solve_odd m t) \<longleftrightarrow> odd (unat x) \<and> m * x = t"
proof -
  define d M m' where "d = (2 :: nat) ^ trailing_zeros (unat m)" and "M = 256 div d" and "m' = unat m div d"
  have "0 < unat m" using assms by (simp add: unat_gt_0)
  from trailing_zeros_split [OF this] have m: "unat m = d * m'" and "odd m'"
    by (simp_all add: d_def m'_def)
  have "d dvd 2 ^ 8" unfolding d_def using trailing_zeros_byte [OF assms] by (intro le_imp_power_dvd) simp
  then have dM: "d * M = 256" and "0 < d" by (auto simp: M_def d_def)
  then have "M dvd 256" by (metis dvd_triv_right)
  then have "0 < M" by (cases M) auto
  have "m' < 256" using le_less_trans [OF div_le_dividend [of "unat m" d] unat_byte_less] by (simp add: m'_def)
  then have w: "unat (word_of_nat m' :: u8) = m'" by (simp add: unat_of_nat)
  define i where "i = unat (inverse_odd_mod_256 (word_of_nat m'))"
  have "(m' * i) mod 256 = 1"
    using inverse_odd_mod_256 [of "word_of_nat m'"] \<open>odd m'\<close> w by (simp add: byte_product_iff i_def)
  then have unit: "(m' * i) mod M = 1 mod M" using mod_mod_cancel [OF \<open>M dvd 256\<close>, of "m' * i"] by simp
  define T base where "T = unat t" and "base = (T div d * i) mod M"
  have X: "unat x < d * M" using unat_byte_less [of x] dM by simp
  have "T < d * M" using unat_byte_less [of t] dM by (simp add: T_def)
  then have "T div d < M" by (simp add: less_mult_imp_div_less mult.commute)
  have "(d * m' * unat x) mod (d * M) = d * ((m' * unat x) mod M)" by (simp only: mult_mod_right mult.assoc)
  then have "m * x = t \<longleftrightarrow> d * ((m' * unat x) mod M) = T" by (simp add: byte_product_iff m dM T_def)
  also have "\<dots> \<longleftrightarrow> d dvd T \<and> (m' * unat x) mod M = T div d"
    using \<open>0 < d\<close> by (metis dvd_mult_div_cancel dvd_triv_left nonzero_mult_div_cancel_left less_not_refl)
  also have "\<dots> \<longleftrightarrow> d dvd T \<and> unat x mod M = base"
    using unit_congruence [OF unit, of "unat x" "T div d"] \<open>T div d < M\<close> by (simp add: base_def)
  also have "\<dots> \<longleftrightarrow> d dvd T \<and> (\<exists>k<d. unat x = base + k * M)"
    using residues_below [OF \<open>0 < M\<close> X, of base] \<open>0 < M\<close> by (simp add: base_def)
  finally have eq: "m * x = t \<longleftrightarrow> d dvd T \<and> (\<exists>k<d. unat x = base + k * M)" .
  have "base + k * M < 256" if "k < d" for k
  proof -
    have "base < M" using \<open>0 < M\<close> by (simp add: base_def)
    moreover have "Suc k * M \<le> d * M" using that by (intro mult_le_mono1) simp
    ultimately show ?thesis using dM by simp
  qed
  then have "unat x = base + k * M \<longleftrightarrow> x = word_of_nat (base + k * M)" if "k < d" for k
    using that by (intro unat_eq_iff_byte) blast
  with eq have "m * x = t \<longleftrightarrow> d dvd T \<and> (\<exists>k<d. x = word_of_nat (base + k * M))" by metis
  moreover have "solve_odd m t = (if T mod d \<noteq> 0 then []
      else filter (\<lambda>increment. odd (unat increment)) (map (\<lambda>k. word_of_nat (base + k * M)) [0..<d]))"
    unfolding solve_odd_def Let_def d_def M_def m'_def i_def T_def base_def ..
  ultimately show ?thesis
    by (cases "T mod d = 0") (simp_all only: if_True if_False simp_thms set_filter set_map set_upt mem_Collect_eq
      image_iff Bex_def atLeastLessThan_iff zero_le list.set empty_iff dvd_eq_mod_eq_0 [of d], blast+)
qed

section \<open>The candidates are those of an exhaustive search\<close>

definition odd_byte :: "u8 \<Rightarrow> bool" where
  "odd_byte b \<longleftrightarrow> odd (unat b)"

lemma odd_bytes_iff: "b \<in> set odd_bytes \<longleftrightarrow> odd_byte b"
proof
  assume "odd_byte b"
  then have "unat b \<in> set (filter odd [1..<256])" using unat_byte_less [of b] odd_pos [of "unat b"] by (auto simp: odd_byte_def Suc_le_eq)
  then have "word_of_nat (unat b) \<in> set odd_bytes" unfolding odd_bytes_def by (simp only: set_map) (rule imageI)
  then show "b \<in> set odd_bytes" by simp
qed (auto simp: odd_bytes_def odd_byte_def unat_of_nat)

text \<open>The equation of the probed byte \<open>i\<close>.\<close>

lemma constrained_odd_increments_sound:
  assumes "b \<in> set (constrained_odd_increments probe raw expected seed)"
  shows "odd_byte b"
proof (cases "filter (\<lambda>i. rank_byte probe i \<noteq> 0) [1..<4]")
  case Nil
  with assms show ?thesis by (simp add: constrained_odd_increments_def odd_bytes_iff)
next
  case (Cons k ks)
  define index where "index = arg_min_list (\<lambda>i. trailing_zeros (unat (rank_byte probe i))) (k # ks)"
  have "index \<in> set (k # ks)" unfolding index_def by (rule arg_min_list_in) simp
  then have "rank_byte probe index \<noteq> 0" unfolding Cons [symmetric] by simp
  moreover have "constrained_odd_increments probe raw expected seed =
      solve_odd (rank_byte probe index) (expected ! index - raw_source probe raw index - seed)"
    unfolding constrained_odd_increments_def Cons index_def by (simp add: Let_def)
  ultimately show ?thesis using assms by (simp add: solve_odd_iff odd_byte_def)
qed

lemma constrained_odd_increments_complete:
  assumes "odd_byte b" and "header_matches probe raw expected seed b"
  shows "b \<in> set (constrained_odd_increments probe raw expected seed)"
proof (cases "filter (\<lambda>i. rank_byte probe i \<noteq> 0) [1..<4]")
  case Nil
  with assms show ?thesis by (simp add: constrained_odd_increments_def odd_bytes_iff)
next
  case (Cons k ks)
  define index where "index = arg_min_list (\<lambda>i. trailing_zeros (unat (rank_byte probe i))) (k # ks)"
  have "index \<in> set (k # ks)" unfolding index_def by (rule arg_min_list_in) simp
  then have nz: "rank_byte probe index \<noteq> 0" and "index < 4" unfolding Cons [symmetric] by simp_all
  with assms(2) have "raw_source probe raw index + seed + rank_byte probe index * b = expected ! index"
    by (auto simp: header_matches_def list_all_iff)
  then have "rank_byte probe index * b = expected ! index - raw_source probe raw index - seed"
    by (simp add: algebra_simps)
  moreover have "constrained_odd_increments probe raw expected seed =
      solve_odd (rank_byte probe index) (expected ! index - raw_source probe raw index - seed)"
    unfolding constrained_odd_increments_def Cons index_def by (simp add: Let_def)
  ultimately show ?thesis using nz assms(1) by (simp add: solve_odd_iff odd_byte_def)
qed

text \<open>
  The transform a stride, an increment and a seed describe: the four key bytes are read at the
  positions after the first four, and each is the raw byte plus the seed plus its rank times the
  increment.
\<close>

definition reproduces_key :: "byte list \<Rightarrow> u32 \<Rightarrow> header_transform \<Rightarrow> bool" where
  "reproduces_key raw page_key h \<longleftrightarrow>
     (case h of (step, increment, seed) \<Rightarrow>
        odd step \<and> step < 512 \<and> odd_byte increment
        \<and> (\<forall>i<4. raw ! ((i + step) mod 512) + seed + word_of_nat (cycle_rank step i) * increment
                = to_le_bytes page_key ! i))"

lemma cycle_rank_0: "odd step \<Longrightarrow> cycle_rank step 0 = 0"
  by (rule cycle_rank_eq) (simp_all add: cycle_pos_def)

lemma header_cycle_probes_iff:
  "probe \<in> set header_cycle_probes \<longleftrightarrow>
     (\<exists>step. odd step \<and> step < 512 \<and>
        probe = \<lparr>probe_step = step, probe_source = map (\<lambda>i. (i + step) mod 512) [0..<4],
                 probe_rank = map (cycle_rank step) [0..<4]\<rparr>)"
proof -
  have "probe \<in> set header_cycle_probes \<longleftrightarrow> (\<exists>step. odd step \<and> step < 512 \<and> cycle_probe_of step = Some probe)"
    by (auto simp: header_cycle_probes_def map_filter_def sector_len_def odd_pos image_iff Suc_le_eq
        intro: exI [of _ "the _"]) (metis atLeastLessThan_iff odd_pos One_nat_def Suc_le_eq option.sel option.distinct(1))+
  then show ?thesis using cycle_probe_of_odd by (metis option.inject)
qed

lemma recover_header_candidates_iff:
  "h \<in> set (recover_header_candidates raw page_key) \<longleftrightarrow> reproduces_key raw page_key h"
proof -
  obtain step inc seed where h: "h = (step, inc, seed)" by (cases h) auto
  let ?probe = "\<lparr>probe_step = step, probe_source = map (\<lambda>i. (i + step) mod 512) [0..<4],
                 probe_rank = map (cycle_rank step) [0..<4]\<rparr>"
  let ?key = "to_le_bytes page_key"
  have "h \<in> set (recover_header_candidates raw page_key) \<longleftrightarrow>
      (\<exists>probe\<in>set header_cycle_probes. h \<in> set (probe_candidates raw ?key probe))"
    by (simp add: recover_header_candidates_def)
  also have "\<dots> \<longleftrightarrow> odd step \<and> step < 512 \<and> h \<in> set (probe_candidates raw ?key ?probe)"
    unfolding header_cycle_probes_iff Bex_def by (auto simp: h probe_candidates_def Let_def)
  also have "h \<in> set (probe_candidates raw ?key ?probe) \<longleftrightarrow>
      seed = ?key ! 0 - raw_source ?probe raw 0 \<and> odd_byte inc \<and> header_matches ?probe raw ?key seed inc"
    using constrained_odd_increments_sound [of inc ?probe raw ?key seed]
      constrained_odd_increments_complete [of inc ?probe raw ?key seed]
    by (auto simp: probe_candidates_def Let_def h)
  also have "header_matches ?probe raw ?key seed inc \<longleftrightarrow>
      (\<forall>i<4. raw ! ((i + step) mod 512) + seed + word_of_nat (cycle_rank step i) * inc = ?key ! i)"
    by (auto simp: header_matches_def list_all_iff raw_source_def rank_byte_def)
  finally have "h \<in> set (recover_header_candidates raw page_key) \<longleftrightarrow> odd step \<and> step < 512 \<and>
      seed = ?key ! 0 - raw_source ?probe raw 0 \<and> odd_byte inc \<and>
      (\<forall>i<4. raw ! ((i + step) mod 512) + seed + word_of_nat (cycle_rank step i) * inc = ?key ! i)" .
  moreover have "seed = ?key ! 0 - raw_source ?probe raw 0"
    if "odd step" and "step < 512"
      and "\<forall>i<4. raw ! ((i + step) mod 512) + seed + word_of_nat (cycle_rank step i) * inc = ?key ! i"
  proof -
    have "raw ! ((0 + step) mod 512) + seed + word_of_nat (cycle_rank step 0) * inc = ?key ! 0"
      using that(3) by (rule allE [of _ 0]) simp
    with that(1,2) show ?thesis by (simp add: raw_source_def cycle_rank_0 algebra_simps)
  qed
  ultimately show ?thesis unfolding h reproduces_key_def by auto
qed

end
