(* ===== verification/Page_Materializer.thy ===== *)
theory Page_Materializer
  imports Header_Transform Ordered_Map
begin

text \<open>
  Materialized table pages: \<open>crates/openqbw/src/enterprise_page_materializer.rs\<close> from the recovered
  header transforms to checked pages and file-wide keys, and \<open>materialized_table_id.rs\<close>. Two
  functions of another crate are parameters: \<open>parse_page\<close>, the parser of a materialized page (the
  key and the record directory it finds), and \<open>permute\<close>, the permutation of one sector, given its
  bytes, the length of its untouched tail and the signed key.
\<close>

section \<open>Pages\<close>

text \<open>A directory entry: the offset and the bytes of a record, or a slot that holds none.\<close>

record table_page =
  tp_key :: u32
  tp_slots :: "(nat \<times> byte list) option list"

record enterprise_page =
  em_bytes :: "byte list"
  em_view :: table_page

type_synonym page_parser = "byte list \<Rightarrow> table_page option"
type_synonym sector_permutation = "byte list \<Rightarrow> nat \<Rightarrow> i32 \<Rightarrow> byte list option"

definition page_len :: nat where
  "page_len = 4096"

datatype materialization_error =
    InvalidRawPageLength nat
  | PageNumberOutOfRange u64
  | NoHeaderCandidate
  | AmbiguousHeaderCandidates nat
  | SectorTransform
  | NotMaterializedTablePage
  | AmbiguousMaterializedPages nat
  | InsufficientKeyWitnesses nat nat
  | ConflictingKeyWitnesses nat

datatype table_id_error = InvalidMaterializedTablePage | ZeroTableId

definition materialized_table_id :: "page_parser \<Rightarrow> byte list \<Rightarrow> (table_id_error, u32) outcome" where
  "materialized_table_id parse_page bytes =
     (if parse_page bytes = None then Err InvalidMaterializedTablePage
      else rbind (u32_at bytes 0x18) (\<lambda>table_id.
        if table_id = 0 then Err ZeroTableId else Ok table_id))"

section \<open>Transform keys\<close>

record transform_key =
  tk_high_word :: u16
  tk_negative :: bool
  tk_adjacent :: bool
  tk_witnesses :: nat

definition from_high_word :: "u16 \<Rightarrow> transform_key" where
  "from_high_word h = \<lparr>tk_high_word = h, tk_negative = False, tk_adjacent = False, tk_witnesses = 0\<rparr>"

definition from_negative_high_word :: "u16 \<Rightarrow> transform_key" where
  "from_negative_high_word h = \<lparr>tk_high_word = h, tk_negative = True, tk_adjacent = False, tk_witnesses = 0\<rparr>"

definition with_adjacent_high_word :: "transform_key \<Rightarrow> transform_key" where
  "with_adjacent_high_word k = k\<lparr>tk_high_word := and (tk_high_word k) (not 1), tk_adjacent := True\<rparr>"

text \<open>Two byte-one candidates and two strides; \<open>before_or\<close> and the high word are nine-bit numbers.\<close>

definition key_parts :: "u8 \<Rightarrow> u8 \<Rightarrow> nat \<Rightarrow> u32" where
  "key_parts byte_one low before_or =
     (let high_word = (before_or + 512 - unat low) mod 512 in
      word_of_nat (high_word * 65536 + unat byte_one * 256 + unat low))"

definition key_magnitudes :: "u8 \<Rightarrow> u8 \<Rightarrow> nat \<Rightarrow> u32 list" where
  "key_magnitudes increment low stride =
     concat (map (\<lambda>byte_one. map (key_parts byte_one low) [stride, (stride + 511) mod 512])
       [and increment (not 1), increment])"

definition positive_signed_key_candidates :: "header_transform \<Rightarrow> u32 list" where
  "positive_signed_key_candidates h =
     (case h of (step, increment, seed) \<Rightarrow>
        fold (\<lambda>candidate found. if candidate \<in> set found then found else found @ [candidate])
          (key_magnitudes increment seed step) [])"

definition signed_key_candidates :: "header_transform \<Rightarrow> u32 list" where
  "signed_key_candidates h =
     (case h of (step, increment, seed) \<Rightarrow>
        let low = increment - seed; stride = (512 - step) mod 512 in
        remdups_adj (sort (positive_signed_key_candidates h
          @ map uminus (filter (\<lambda>magnitude. magnitude \<noteq> 0) (key_magnitudes increment low stride)))))"

text \<open>\<open>(key.unsigned_abs() >> 16) as u16\<close> and the sign of the key as an \<open>i32\<close>.\<close>

definition key_high_word :: "u32 \<Rightarrow> u16" where
  "key_high_word key = word_of_nat (nat \<bar>sint key\<bar> div 65536)"

definition key_negative :: "u32 \<Rightarrow> bool" where
  "key_negative key \<longleftrightarrow> sint key < 0"

definition signed_key_candidates_for_context :: "header_transform \<Rightarrow> transform_key \<Rightarrow> u32 list" where
  "signed_key_candidates_for_context h k =
     filter (\<lambda>candidate. key_negative candidate = tk_negative k
        \<and> (key_high_word candidate = tk_high_word k
           \<or> tk_adjacent k \<and> key_high_word candidate = xor (tk_high_word k) 1))
       (signed_key_candidates h)"

section \<open>Transforming a page\<close>

text \<open>Writing bytes at an offset.\<close>

definition splice :: "nat \<Rightarrow> byte list \<Rightarrow> byte list \<Rightarrow> byte list" where
  "splice offset bytes page = take offset page @ bytes @ drop (offset + length bytes) page"

definition slice_of :: "byte list \<Rightarrow> nat \<Rightarrow> nat \<Rightarrow> byte list" where
  "slice_of page start stop = take (stop - start) (drop start page)"

definition transform_sector ::
    "sector_permutation \<Rightarrow> u32 \<Rightarrow> nat \<Rightarrow> byte list \<Rightarrow> (materialization_error, byte list) outcome" where
  "transform_sector permute signed_key_start sector page =
     (let start = sector * sector_len; tail = (if sector + 1 = 8 then 16 else 0) in
      rbind (ok_or (permute (slice_of page start (start + sector_len)) tail
                     (signed_key_start - word_of_nat sector)) SectorTransform)
        (\<lambda>bytes. Ok (splice start bytes page)))"

definition transform_page ::
    "sector_permutation \<Rightarrow> u32 \<Rightarrow> byte list \<Rightarrow> (materialization_error, byte list) outcome" where
  "transform_page permute signed_key_start page =
     rfold (transform_sector permute signed_key_start) [0..<8] page"

definition relocate_header_trailer :: "byte list \<Rightarrow> byte list" where
  "relocate_header_trailer page =
     (let trailer = slice_of page 0xff0 0xffc; header_06 = slice_of page 0x06 0x0c;
          header_0c = slice_of page 0x0c 0x10; header_12 = slice_of page 0x12 0x14 in
      splice 0xff8 header_0c (splice 0xff2 header_06 (splice 0xff0 header_12
        (splice 0x12 (slice_of trailer 0 2) (splice 0x0c (slice_of trailer 8 12)
          (splice 0x06 (slice_of trailer 2 8) page))))))"

section \<open>Materialization\<close>

definition checked_page_key :: "byte list \<Rightarrow> u64 \<Rightarrow> (materialization_error, u32) outcome" where
  "checked_page_key raw_page page_number =
     (if length raw_page \<noteq> page_len then Err (InvalidRawPageLength (length raw_page))
      else if 2 ^ 32 \<le> unat page_number then Err (PageNumberOutOfRange page_number)
      else Ok (ucast page_number))"

definition exactly_one_header_transform ::
    "byte list \<Rightarrow> u32 \<Rightarrow> (materialization_error, header_transform) outcome" where
  "exactly_one_header_transform raw_page page_key =
     (case recover_header_candidates (take sector_len raw_page) page_key of
        [] \<Rightarrow> Err NoHeaderCandidate
      | [h] \<Rightarrow> Ok h
      | hs \<Rightarrow> Err (AmbiguousHeaderCandidates (length hs)))"

text \<open>The distinct candidates are a \<open>BTreeSet\<close> of page images; each is kept with its parsed view.\<close>

definition materialize_step ::
    "page_parser \<Rightarrow> sector_permutation \<Rightarrow> byte list \<Rightarrow> u32 \<Rightarrow> u32 \<Rightarrow> (byte list, table_page) btree \<Rightarrow>
     (materialization_error, (byte list, table_page) btree) outcome" where
  "materialize_step parse_page permute raw_page page_key signed_key pages =
     rbind (transform_page permute signed_key raw_page) (\<lambda>transformed.
     let candidate = relocate_header_trailer transformed in
     case parse_page candidate of
       None \<Rightarrow> Ok pages
     | Some view \<Rightarrow> Ok (if tp_key view = page_key then bt_insert candidate view pages else pages))"

definition materialized_pages_with_signed_keys ::
    "page_parser \<Rightarrow> sector_permutation \<Rightarrow> byte list \<Rightarrow> u32 \<Rightarrow> u32 list \<Rightarrow>
     (materialization_error, enterprise_page list) outcome" where
  "materialized_pages_with_signed_keys parse_page permute raw_page page_key signed_keys =
     rbind (rfold (materialize_step parse_page permute raw_page page_key) signed_keys []) (\<lambda>pages.
       if pages = [] then Err NotMaterializedTablePage
       else Ok (map (\<lambda>(bytes, view). \<lparr>em_bytes = bytes, em_view = view\<rparr>) pages))"

definition materialize_with_signed_keys ::
    "page_parser \<Rightarrow> sector_permutation \<Rightarrow> byte list \<Rightarrow> u32 \<Rightarrow> u32 list \<Rightarrow>
     (materialization_error, enterprise_page) outcome" where
  "materialize_with_signed_keys parse_page permute raw_page page_key signed_keys =
     rbind (materialized_pages_with_signed_keys parse_page permute raw_page page_key signed_keys) (\<lambda>pages.
       case pages of
         [page] \<Rightarrow> Ok page
       | _ \<Rightarrow> Err (AmbiguousMaterializedPages (length pages)))"

definition materialize_enterprise_table_page ::
    "page_parser \<Rightarrow> sector_permutation \<Rightarrow> byte list \<Rightarrow> u64 \<Rightarrow> (materialization_error, enterprise_page) outcome" where
  "materialize_enterprise_table_page parse_page permute raw_page page_number =
     rbind (checked_page_key raw_page page_number) (\<lambda>page_key.
     rbind (exactly_one_header_transform raw_page page_key) (\<lambda>header.
       materialize_with_signed_keys parse_page permute raw_page page_key (signed_key_candidates header)))"

definition materialize_enterprise_table_page_with_key ::
    "page_parser \<Rightarrow> sector_permutation \<Rightarrow> byte list \<Rightarrow> u64 \<Rightarrow> transform_key \<Rightarrow>
     (materialization_error, enterprise_page) outcome" where
  "materialize_enterprise_table_page_with_key parse_page permute raw_page page_number key =
     rbind (checked_page_key raw_page page_number) (\<lambda>page_key.
     rbind (exactly_one_header_transform raw_page page_key) (\<lambda>header.
       materialize_with_signed_keys parse_page permute raw_page page_key
         (signed_key_candidates_for_context header key)))"

definition materialize_candidates_with_key ::
    "page_parser \<Rightarrow> sector_permutation \<Rightarrow> byte list \<Rightarrow> u64 \<Rightarrow> transform_key \<Rightarrow>
     (materialization_error, enterprise_page list) outcome" where
  "materialize_candidates_with_key parse_page permute raw_page page_number key =
     rbind (checked_page_key raw_page page_number) (\<lambda>page_key.
     let headers = recover_header_candidates (take sector_len raw_page) page_key in
     if headers = [] then Err NoHeaderCandidate
     else materialized_pages_with_signed_keys parse_page permute raw_page page_key
            (concat (map (\<lambda>h. signed_key_candidates_for_context h key) headers)))"

section \<open>Resolution by a decoder\<close>

datatype candidate_resolution_error = NoCandidateDecoded nat | DivergentDecodedCandidates nat

definition resolution_step ::
    "(enterprise_page \<Rightarrow> 't option) \<Rightarrow> enterprise_page \<Rightarrow> 't option \<times> nat \<Rightarrow>
     (candidate_resolution_error, 't option \<times> nat) outcome" where
  "resolution_step decode candidate st =
     (case st of (selected, decoded_count) \<Rightarrow>
        case decode candidate of
          None \<Rightarrow> Ok st
        | Some v \<Rightarrow>
            (case selected of
               Some existing \<Rightarrow>
                 if existing \<noteq> v then Err (DivergentDecodedCandidates (decoded_count + 1))
                 else Ok (selected, decoded_count + 1)
             | None \<Rightarrow> Ok (Some v, decoded_count + 1)))"

definition resolve_table_page_candidates ::
    "enterprise_page list \<Rightarrow> (enterprise_page \<Rightarrow> 't option) \<Rightarrow> (candidate_resolution_error, 't) outcome" where
  "resolve_table_page_candidates candidates decode =
     rbind (rfold (resolution_step decode) candidates (None, 0)) (\<lambda>(selected, _).
       ok_or selected (NoCandidateDecoded (length candidates)))"

section \<open>Key discovery\<close>

definition valid_key_contexts ::
    "page_parser \<Rightarrow> sector_permutation \<Rightarrow> byte list \<Rightarrow> u32 \<Rightarrow> header_transform \<Rightarrow> (u16 \<times> bool) list" where
  "valid_key_contexts parse_page permute raw_page page_key header =
     fold (\<lambda>signed_key contexts.
         case materialize_with_signed_keys parse_page permute raw_page page_key [signed_key] of
           Ok _ \<Rightarrow> insort_insert (key_high_word signed_key, key_negative signed_key) contexts
         | _ \<Rightarrow> contexts)
       (signed_key_candidates header) []"

text \<open>The context a page alone decides, if its header and its key are unique.\<close>

definition decisive_context ::
    "page_parser \<Rightarrow> sector_permutation \<Rightarrow> byte list \<Rightarrow> u32 \<Rightarrow> (u16 \<times> bool) option" where
  "decisive_context parse_page permute raw_page page_key =
     (case recover_header_candidates (take sector_len raw_page) page_key of
        [header] \<Rightarrow>
          (case valid_key_contexts parse_page permute raw_page page_key header of
             [context] \<Rightarrow> Some context
           | _ \<Rightarrow> None)
      | _ \<Rightarrow> None)"

definition discovery_step ::
    "page_parser \<Rightarrow> sector_permutation \<Rightarrow> u64 \<times> byte list \<Rightarrow> u32 list \<times> (u16 \<times> bool) list \<Rightarrow>
     (materialization_error, u32 list \<times> (u16 \<times> bool) list) outcome" where
  "discovery_step parse_page permute page st =
     (case page of (page_number, raw_page) \<Rightarrow> case st of (witnesses, high_words) \<Rightarrow>
        rbind (checked_page_key raw_page page_number) (\<lambda>page_key.
          Ok (case decisive_context parse_page permute raw_page page_key of
                None \<Rightarrow> (witnesses, high_words)
              | Some context \<Rightarrow> (insort_insert page_key witnesses, insort_insert context high_words))))"

definition discover_transform_key ::
    "page_parser \<Rightarrow> sector_permutation \<Rightarrow> (u64 \<times> byte list) list \<Rightarrow>
     (materialization_error, transform_key) outcome" where
  "discover_transform_key parse_page permute raw_pages =
     rbind (rfold (discovery_step parse_page permute) raw_pages ([], [])) (\<lambda>(witnesses, high_words).
       if 1 < length high_words then Err (ConflictingKeyWitnesses (length high_words))
       else if length witnesses < 3 then Err (InsufficientKeyWitnesses (length witnesses) 3)
       else rbind (or_panic (get_at high_words 0)) (\<lambda>(high_word, negative).
         Ok \<lparr>tk_high_word = high_word, tk_negative = negative, tk_adjacent = False,
             tk_witnesses = length witnesses\<rparr>))"

definition candidate_step ::
    "page_parser \<Rightarrow> sector_permutation \<Rightarrow> u64 \<times> byte list \<Rightarrow> (u16 \<times> bool, u32 list) btree \<Rightarrow>
     (materialization_error, (u16 \<times> bool, u32 list) btree) outcome" where
  "candidate_step parse_page permute page witnesses =
     (case page of (page_number, raw_page) \<Rightarrow>
        rbind (checked_page_key raw_page page_number) (\<lambda>page_key.
          Ok (case decisive_context parse_page permute raw_page page_key of
                None \<Rightarrow> witnesses
              | Some context \<Rightarrow>
                  bt_insert context
                    (insort_insert page_key (case bt_get witnesses context of Some ks \<Rightarrow> ks | None \<Rightarrow> []))
                    witnesses)))"

definition discover_transform_key_candidates ::
    "page_parser \<Rightarrow> sector_permutation \<Rightarrow> (u64 \<times> byte list) list \<Rightarrow>
     (materialization_error, transform_key list) outcome" where
  "discover_transform_key_candidates parse_page permute raw_pages =
     rbind (rfold (candidate_step parse_page permute) raw_pages []) (\<lambda>witnesses.
       let candidates = map (\<lambda>((high_word, negative), page_keys).
             \<lparr>tk_high_word = high_word, tk_negative = negative, tk_adjacent = False,
              tk_witnesses = length page_keys\<rparr>) witnesses in
       if candidates = [] then Err (InsufficientKeyWitnesses 0 1) else Ok candidates)"

end
