(* ===== verification/Page_Facts.thy ===== *)
theory Page_Facts
  imports Page_Materializer
begin

text \<open>
  What materialization guarantees: the relocation of header and trailer is an exchange, every
  candidate page carries the key of its page number, the singular forms choose only among one
  candidate, and the key discovery rests on distinct decisive pages that agree.
\<close>

section \<open>The relocation is an exchange\<close>

lemma length_splice: "offset + length bytes \<le> length page \<Longrightarrow> length (splice offset bytes page) = length page"
  by (simp add: splice_def)

lemma nth_splice:
  "offset + length bytes \<le> length page \<Longrightarrow> i < length page \<Longrightarrow>
     splice offset bytes page ! i = (if offset \<le> i \<and> i < offset + length bytes then bytes ! (i - offset) else page ! i)"
  by (auto simp: splice_def nth_append not_less)

lemma length_slice_of: "stop \<le> length page \<Longrightarrow> length (slice_of page start stop) = stop - start"
  by (simp add: slice_of_def)

lemma nth_slice_of: "stop \<le> length page \<Longrightarrow> i < stop - start \<Longrightarrow> slice_of page start stop ! i = page ! (start + i)"
  by (simp add: slice_of_def)

text \<open>Where the byte at a position comes from.\<close>

definition relocated_from :: "nat \<Rightarrow> nat" where
  "relocated_from i =
     (if 0x06 \<le> i \<and> i < 0x0c then 0xfec + i
      else if 0x0c \<le> i \<and> i < 0x10 then 0xfec + i
      else if 0x12 \<le> i \<and> i < 0x14 then 0xfde + i
      else if 0xff0 \<le> i \<and> i < 0xff2 then i - 0xfde
      else if 0xff2 \<le> i \<and> i < 0xffc then i - 0xfec
      else i)"

lemma relocation_cases:
  obtains "i < 0x06" | "0x06 \<le> i" "i < 0x0c" | "0x0c \<le> i" "i < 0x10" | "0x10 \<le> i" "i < 0x12"
    | "0x12 \<le> i" "i < 0x14" | "0x14 \<le> i" "i < 0xff0" | "0xff0 \<le> i" "i < 0xff2"
    | "0xff2 \<le> i" "i < 0xff8" | "0xff8 \<le> i" "i < 0xffc" | "0xffc \<le> (i :: nat)"
  by linarith

lemma relocated_from_involution: "relocated_from (relocated_from i) = i"
  by (cases i rule: relocation_cases) (simp_all add: relocated_from_def, presburger+)

lemma length_relocate: "length page = page_len \<Longrightarrow> length (relocate_header_trailer page) = page_len"
  by (simp add: relocate_header_trailer_def Let_def length_splice length_slice_of page_len_def)

lemma nth_relocate:
  assumes "length page = page_len" and "i < page_len"
  shows "relocate_header_trailer page ! i = page ! relocated_from i"
  using assms
  by (cases i rule: relocation_cases) (simp_all add: relocate_header_trailer_def Let_def length_splice
      length_slice_of nth_splice nth_slice_of page_len_def relocated_from_def)

lemma relocate_involution:
  assumes "length page = page_len"
  shows "relocate_header_trailer (relocate_header_trailer page) = page"
proof (rule nth_equalityI)
  fix i assume "i < length (relocate_header_trailer (relocate_header_trailer page))"
  then have "i < page_len" using assms by (simp add: length_relocate)
  then have "relocated_from i < page_len" by (auto simp: relocated_from_def page_len_def)
  with \<open>i < page_len\<close> assms show "relocate_header_trailer (relocate_header_trailer page) ! i = page ! i"
    by (simp add: nth_relocate length_relocate relocated_from_involution)
qed (use assms in \<open>simp add: length_relocate\<close>)

section \<open>Candidate pages\<close>

text \<open>The image a key gives: a page that parses and names its own page number.\<close>

definition candidate_image ::
    "page_parser \<Rightarrow> sector_permutation \<Rightarrow> byte list \<Rightarrow> u32 \<Rightarrow> u32 list \<Rightarrow> enterprise_page \<Rightarrow> bool" where
  "candidate_image parse_page permute raw_page page_key signed_keys page \<longleftrightarrow>
     (\<exists>signed_key transformed. signed_key \<in> set signed_keys
        \<and> transform_page permute signed_key raw_page = Ok transformed
        \<and> em_bytes page = relocate_header_trailer transformed
        \<and> parse_page (em_bytes page) = Some (em_view page) \<and> tp_key (em_view page) = page_key)"

lemma transform_page_functional:
  "transform_page permute k raw = Ok a \<Longrightarrow> transform_page permute k raw = Ok b \<Longrightarrow> a = b"
  by simp

text \<open>The tree after the keys: exactly the images of the keys, by their bytes.\<close>

definition images_of ::
    "page_parser \<Rightarrow> sector_permutation \<Rightarrow> byte list \<Rightarrow> u32 \<Rightarrow> u32 list \<Rightarrow> (byte list \<times> table_page) set" where
  "images_of parse_page permute raw_page page_key signed_keys =
     {(b, v). candidate_image parse_page permute raw_page page_key signed_keys \<lparr>em_bytes = b, em_view = v\<rparr>}"

lemma images_of_Cons:
  "images_of parse_page permute raw k (s # ss) = images_of parse_page permute raw k [s] \<union> images_of parse_page permute raw k ss"
  by (auto simp: images_of_def candidate_image_def)

lemma materialize_step_images:
  assumes "materialize_step parse_page permute raw k s m = Ok m'" and "bt_ok m"
    and "\<forall>(b, v) \<in> set m. parse_page b = Some v"
  shows "bt_ok m' \<and> (\<forall>(b, v) \<in> set m'. parse_page b = Some v)
    \<and> set m' = set m \<union> images_of parse_page permute raw k [s]"
proof -
  obtain t where t: "transform_page permute s raw = Ok t" using assms(1)
    by (auto simp: materialize_step_def outcome_simps)
  let ?c = "relocate_header_trailer t"
  have img: "images_of parse_page permute raw k [s] = {(b, v). b = ?c \<and> parse_page ?c = Some v \<and> tp_key v = k}"
    using t by (auto simp: images_of_def candidate_image_def)
  show ?thesis
  proof (cases "parse_page ?c")
    case None
    with assms t img show ?thesis by (auto simp: materialize_step_def)
  next
    case (Some v)
    show ?thesis
    proof (cases "tp_key v = k")
      case True
      have m': "m' = bt_insert ?c v m" using assms(1) t Some True by (simp add: materialize_step_def)
      have ok: "bt_ok m'" unfolding m' by (rule bt_ok_insert [OF assms(2)])
      have u: "bt_get m ?c = Some w \<Longrightarrow> w = v" for w using assms(3) Some by (auto dest!: bt_get_SomeD)
      have g: "bt_get m' = (bt_get m)(?c \<mapsto> v)" unfolding m' by (rule bt_get_insert)
      have "(b, w) \<in> set m' \<longleftrightarrow> (b, w) \<in> set m \<or> b = ?c \<and> w = v" for b w
        using assms(3) Some
        using u by (auto simp: bt_get_iff [OF ok] g bt_get_iff [OF assms(2)] split: if_splits)
      then have "set m' = set m \<union> {(?c, v)}" by auto
      with ok assms(3) Some True img show ?thesis by auto
    next
      case False
      with assms t Some img show ?thesis by (auto simp: materialize_step_def)
    qed
  qed
qed

lemma materialize_fold_images:
  assumes "rfold (materialize_step parse_page permute raw k) ss m = Ok m'" and "bt_ok m"
    and "\<forall>(b, v) \<in> set m. parse_page b = Some v"
  shows "bt_ok m' \<and> set m' = set m \<union> images_of parse_page permute raw k ss"
  using assms
proof (induction ss arbitrary: m)
  case Nil
  then show ?case by (simp add: images_of_def candidate_image_def)
next
  case (Cons s ss)
  then obtain m1 where m1: "materialize_step parse_page permute raw k s m = Ok m1"
    and rest: "rfold (materialize_step parse_page permute raw k) ss m1 = Ok m'"
    by (auto simp: outcome_simps)
  from materialize_step_images [OF m1 Cons.prems(2,3)] Cons.IH [OF rest]
  show ?case by (subst images_of_Cons) auto
qed

text \<open>The candidates of a page are exactly the images, each once, in the order of their bytes.\<close>

lemma materialized_pages_iff:
  assumes "materialized_pages_with_signed_keys parse_page permute raw k ss = Ok pages"
  shows "set pages = {p. candidate_image parse_page permute raw k ss p}"
    and "sorted_wrt (<) (map em_bytes pages)" and "pages \<noteq> []"
proof -
  obtain m where m: "rfold (materialize_step parse_page permute raw k) ss [] = Ok m" and "m \<noteq> []"
    and pages: "pages = map (\<lambda>(bytes, view). \<lparr>em_bytes = bytes, em_view = view\<rparr>) m"
    using assms by (auto simp: materialized_pages_with_signed_keys_def outcome_simps split: if_splits)
  from materialize_fold_images [OF m] have ok: "bt_ok m" and set: "set m = images_of parse_page permute raw k ss"
    by simp_all
  have "p \<in> set pages \<longleftrightarrow> candidate_image parse_page permute raw k ss p" for p
    by (cases p) (force simp: pages set images_of_def image_iff)
  then show "set pages = {p. candidate_image parse_page permute raw k ss p}" by auto
  have "map em_bytes pages = map fst m" by (auto simp: pages)
  then show "sorted_wrt (<) (map em_bytes pages)" using ok by (simp add: bt_ok_def)
  show "pages \<noteq> []" using \<open>m \<noteq> []\<close> pages by simp
qed

lemma materialize_no_panic: "materialized_pages_with_signed_keys parse_page permute raw k ss \<noteq> Panic"
  unfolding materialized_pages_with_signed_keys_def materialize_step_def transform_page_def transform_sector_def Let_def
  by (intro no_panic) 

lemma transform_page_no_panic [no_panic]: "transform_page permute s page \<noteq> Panic"
  unfolding transform_page_def transform_sector_def Let_def by (intro no_panic)

text \<open>The singular form succeeds only on the unique candidate of the plural form.\<close>

lemma materialize_singular:
  assumes "materialize_enterprise_table_page_with_key parse_page permute raw n key = Ok page"
  shows "materialize_candidates_with_key parse_page permute raw n key = Ok [page]"
proof -
  obtain k h where k: "checked_page_key raw n = Ok k" and h: "exactly_one_header_transform raw k = Ok h"
    and p: "materialize_with_signed_keys parse_page permute raw k (signed_key_candidates_for_context h key) = Ok page"
    using assms by (auto simp: materialize_enterprise_table_page_with_key_def outcome_simps)
  have "recover_header_candidates (take sector_len raw) k = [h]"
    using h by (auto simp: exactly_one_header_transform_def split: list.splits)
  moreover have "materialized_pages_with_signed_keys parse_page permute raw k (signed_key_candidates_for_context h key) = Ok [page]"
  proof -
    obtain pages where "materialized_pages_with_signed_keys parse_page permute raw k
        (signed_key_candidates_for_context h key) = Ok pages"
      and "(case pages of [page] \<Rightarrow> Ok page | _ \<Rightarrow> Err (AmbiguousMaterializedPages (length pages))) = Ok page"
      using p by (auto simp: materialize_with_signed_keys_def rbind_Ok_iff)
    then show ?thesis by (cases pages rule: remdups_adj.cases) auto
  qed
  ultimately show ?thesis using k by (simp add: materialize_candidates_with_key_def)
qed

section \<open>Resolution\<close>

lemma resolution_fold:
  "rfold (resolution_step decode) cs (Some v, n) = Ok st \<Longrightarrow>
     fst st = Some v \<and> (\<forall>c\<in>set cs. decode c = None \<or> decode c = Some v)"
proof (induction cs arbitrary: n)
  case (Cons c cs)
  then show ?case by (cases "decode c") (auto simp: resolution_step_def split: if_splits)
qed auto

lemma resolution_fold_complete:
  "\<forall>c\<in>set cs. decode c = None \<or> decode c = Some v \<Longrightarrow>
     \<exists>m. rfold (resolution_step decode) cs (Some v, n) = Ok (Some v, m)"
proof (induction cs arbitrary: n)
  case (Cons c cs)
  then show ?case by (cases "decode c") (auto simp: resolution_step_def)
qed auto

lemma resolve_candidates_iff:
  "resolve_table_page_candidates cs decode = Ok v \<longleftrightarrow>
     (\<exists>c\<in>set cs. decode c = Some v) \<and> (\<forall>c\<in>set cs. decode c = None \<or> decode c = Some v)"
proof -
  have "rbind (rfold (resolution_step decode) cs (None, n)) (\<lambda>(sel, _). ok_or sel e) = Ok v \<longleftrightarrow>
     (\<exists>c\<in>set cs. decode c = Some v) \<and> (\<forall>c\<in>set cs. decode c = None \<or> decode c = Some v)" for n e
  proof (induction cs arbitrary: n)
    case (Cons c cs)
    show ?case
    proof (cases "decode c")
      case None
      with Cons show ?thesis by (simp add: resolution_step_def)
    next
      case (Some w)
      have "rfold (resolution_step decode) (c # cs) (None, n) = rfold (resolution_step decode) cs (Some w, n + 1)"
        using Some by (simp add: resolution_step_def)
      then show ?thesis
        using Some resolution_fold [of decode cs w "n + 1"] resolution_fold_complete [of cs decode w "n + 1"]
        by (fastforce simp: rbind_Ok_iff ok_or_iff)
    qed
  qed (simp add: ok_or_iff)
  then show ?thesis by (simp add: resolve_table_page_candidates_def)
qed

section \<open>Key discovery\<close>

text \<open>The decisive pages: the key of the page and the context it decides.\<close>

definition decisive_pages ::
    "page_parser \<Rightarrow> sector_permutation \<Rightarrow> (u64 \<times> byte list) list \<Rightarrow> (u32 \<times> (u16 \<times> bool)) set" where
  "decisive_pages parse_page permute raw_pages =
     {(k, c). \<exists>(n, raw) \<in> set raw_pages. checked_page_key raw n = Ok k \<and> decisive_context parse_page permute raw k = Some c}"

lemma decisive_pages_Cons:
  "checked_page_key raw n = Ok k \<Longrightarrow> decisive_pages parse_page permute ((n, raw) # ps) =
     (case decisive_context parse_page permute raw k of None \<Rightarrow> {} | Some c \<Rightarrow> {(k, c)})
     \<union> decisive_pages parse_page permute ps"
  by (auto simp: decisive_pages_def split: option.split)

definition sorted_set :: "'a::linorder list \<Rightarrow> 'a set \<Rightarrow> bool" where
  "sorted_set xs A \<longleftrightarrow> sorted xs \<and> distinct xs \<and> set xs = A"

lemma sorted_set_insert: "sorted_set xs A \<Longrightarrow> sorted_set (insort_insert x xs) (insert x A)"
  by (simp add: sorted_set_def sorted_insort_insert distinct_insort_insert set_insort_insert)

lemma sorted_set_length: "sorted_set xs A \<Longrightarrow> length xs = card A"
  by (auto simp: sorted_set_def distinct_card)

lemma discovery_fold:
  assumes "rfold (discovery_step parse_page permute) ps (ws, hs) = Ok (ws', hs')"
    and "sorted_set ws A" and "sorted_set hs B"
  shows "sorted_set ws' (A \<union> fst ` decisive_pages parse_page permute ps)
    \<and> sorted_set hs' (B \<union> snd ` decisive_pages parse_page permute ps)"
  using assms
proof (induction ps arbitrary: ws hs A B)
  case Nil
  then show ?case by (simp add: decisive_pages_def)
next
  case (Cons p ps)
  obtain n raw where p: "p = (n, raw)" by (cases p) auto
  obtain k where k: "checked_page_key raw n = Ok k" using Cons.prems(1)
    by (auto simp: p discovery_step_def outcome_simps)
  show ?case
  proof (cases "decisive_context parse_page permute raw k")
    case None
    with Cons k show ?thesis by (simp add: p discovery_step_def decisive_pages_Cons)
  next
    case (Some c)
    have "rfold (discovery_step parse_page permute) ps (insort_insert k ws, insort_insert c hs) = Ok (ws', hs')"
      using Cons.prems(1) k Some by (simp add: p discovery_step_def [of _ _ "(n, raw)"])
    from Cons.IH [OF this sorted_set_insert [OF Cons.prems(2)] sorted_set_insert [OF Cons.prems(3)]]
    show ?thesis using k Some by (simp add: p decisive_pages_Cons)
  qed
qed

text \<open>The strict discovery: at least three distinct decisive pages, all of one context.\<close>

lemma discover_transform_key_Ok:
  assumes "discover_transform_key parse_page permute ps = Ok key"
  shows "snd ` decisive_pages parse_page permute ps = {(tk_high_word key, tk_negative key)}"
    and "tk_witnesses key = card (fst ` decisive_pages parse_page permute ps)"
    and "3 \<le> tk_witnesses key" and "\<not> tk_adjacent key"
proof -
  let ?D = "decisive_pages parse_page permute ps"
  obtain ws hs where f: "rfold (discovery_step parse_page permute) ps ([], []) = Ok (ws, hs)"
    and len: "length hs \<le> 1" "3 \<le> length ws" and h: "get_at hs 0 = Some (tk_high_word key, tk_negative key)"
    and w: "tk_witnesses key = length ws" and a: "\<not> tk_adjacent key"
    using assms by (auto simp: discover_transform_key_def outcome_simps split: if_splits)
  have s: "sorted_set ws (fst ` ?D)" "sorted_set hs (snd ` ?D)"
    using discovery_fold [OF f, of "{}" "{}"] by (simp_all add: sorted_set_def)
  from len(1) h have "hs = [(tk_high_word key, tk_negative key)]"
    by (cases hs) (auto simp: get_at_def)
  with s(2) show "snd ` ?D = {(tk_high_word key, tk_negative key)}" by (simp add: sorted_set_def)
  show "tk_witnesses key = card (fst ` ?D)" using w sorted_set_length [OF s(1)] by simp
  show "3 \<le> tk_witnesses key" using w len by simp
  show "\<not> tk_adjacent key" by (rule a)
qed

text \<open>The table of contexts: for each, the keys of the decisive pages that decide it.\<close>

fun tallied :: "'k::linorder set \<Rightarrow> 'k list option \<Rightarrow> bool" where
  "tallied K None = (K = {})"
| "tallied K (Some ks) = (sorted_set ks K \<and> ks \<noteq> [])"

definition tallies :: "('c::linorder, 'k::linorder list) btree \<Rightarrow> ('k \<times> 'c) set \<Rightarrow> bool" where
  "tallies m A \<longleftrightarrow> bt_ok m \<and> (\<forall>c. tallied {k. (k, c) \<in> A} (bt_get m c))"

lemma tallies_cases:
  assumes "tallies m A"
  shows "bt_get m c = None \<Longrightarrow> {k. (k, c) \<in> A} = {}"
    and "bt_get m c = Some ks \<Longrightarrow> sorted_set ks {k. (k, c) \<in> A} \<and> ks \<noteq> []"
proof -
  have "tallied {k. (k, c) \<in> A} (bt_get m c)" using assms unfolding tallies_def by blast
  then show "bt_get m c = None \<Longrightarrow> {k. (k, c) \<in> A} = {}"
    and "bt_get m c = Some ks \<Longrightarrow> sorted_set ks {k. (k, c) \<in> A} \<and> ks \<noteq> []" by simp_all
qed

lemma distinct_set_singleton: "distinct xs \<Longrightarrow> set xs = {x} \<Longrightarrow> xs = [x]"
  by (cases xs; cases "tl xs") auto

lemma tallies_insert:
  assumes "tallies m A"
  shows "tallies (bt_insert c (insort_insert k (case bt_get m c of Some ks \<Rightarrow> ks | None \<Rightarrow> [])) m) (insert (k, c) A)"
proof -
  let ?ks = "case bt_get m c of Some ks \<Rightarrow> ks | None \<Rightarrow> []"
  have "sorted_set ?ks {k. (k, c) \<in> A}"
    using tallies_cases [OF assms, of c] by (cases "bt_get m c") (simp_all add: sorted_set_def)
  then have "sorted_set (insort_insert k ?ks) (insert k {k. (k, c) \<in> A})" by (rule sorted_set_insert)
  moreover have "insort_insert k ?ks \<noteq> []" by (metis insertI1 empty_iff empty_set set_insort_insert)
  moreover have "{l. (l, c) \<in> insert (k, c) A} = insert k {k. (k, c) \<in> A}" by auto
  moreover have "{l. (l, d) \<in> insert (k, c) A} = {l. (l, d) \<in> A}" if "d \<noteq> c" for d using that by auto
  moreover have "tallied {k. (k, d) \<in> A} (bt_get m d)" for d using assms unfolding tallies_def by blast
  moreover have "bt_ok m" using assms by (simp add: tallies_def)
  ultimately show ?thesis unfolding tallies_def bt_get_insert by (simp add: bt_ok_insert)
qed

lemma candidate_fold:
  assumes "rfold (candidate_step parse_page permute) ps m = Ok m'" and "tallies m A"
  shows "tallies m' (A \<union> decisive_pages parse_page permute ps)"
  using assms
proof (induction ps arbitrary: m A)
  case Nil
  then show ?case by (simp add: decisive_pages_def)
next
  case (Cons p ps)
  obtain n raw where p: "p = (n, raw)" by (cases p) auto
  obtain k where k: "checked_page_key raw n = Ok k" using Cons.prems(1)
    by (auto simp: p candidate_step_def outcome_simps)
  show ?case
  proof (cases "decisive_context parse_page permute raw k")
    case None
    with Cons k show ?thesis by (simp add: p candidate_step_def decisive_pages_Cons)
  next
    case (Some c)
    let ?m = "bt_insert c (insort_insert k (case bt_get m c of Some ks \<Rightarrow> ks | None \<Rightarrow> [])) m"
    have "rfold (candidate_step parse_page permute) ps ?m = Ok m'"
      using Cons.prems(1) k Some by (simp add: p candidate_step_def [of _ _ "(n, raw)"])
    from Cons.IH [OF this tallies_insert [OF Cons.prems(2)]]
    show ?thesis using k Some by (simp add: p decisive_pages_Cons)
  qed
qed

text \<open>The candidate-preserving discovery: one key for each context that a decisive page decides.\<close>

lemma discover_candidates_Ok:
  assumes "discover_transform_key_candidates parse_page permute ps = Ok keys"
  shows "(\<lambda>key. (tk_high_word key, tk_negative key)) ` set keys = snd ` decisive_pages parse_page permute ps"
    and "key \<in> set keys \<Longrightarrow> tk_witnesses key
           = card {k. (k, tk_high_word key, tk_negative key) \<in> decisive_pages parse_page permute ps}"
    and "key \<in> set keys \<Longrightarrow> 0 < tk_witnesses key"
    and "distinct (map (\<lambda>key. (tk_high_word key, tk_negative key)) keys)"
proof -
  let ?D = "decisive_pages parse_page permute ps"
  obtain m where f: "rfold (candidate_step parse_page permute) ps [] = Ok m"
    and keys: "keys = map (\<lambda>((high_word, negative), page_keys).
             \<lparr>tk_high_word = high_word, tk_negative = negative, tk_adjacent = False,
              tk_witnesses = length page_keys\<rparr>) m"
    using assms by (auto simp: discover_transform_key_candidates_def outcome_simps Let_def split: if_splits)
  have "tallies m ?D" using candidate_fold [OF f, of "{}"] by (simp add: tallies_def)
  then have ok: "bt_ok m" by (simp add: tallies_def)
  note none = tallies_cases(1) [OF \<open>tallies m ?D\<close>] and some = tallies_cases(2) [OF \<open>tallies m ?D\<close>]
  have key: "\<exists>ks. bt_get m (tk_high_word key, tk_negative key) = Some ks \<and> tk_witnesses key = length ks"
    if mem: "key \<in> set keys" for key
  proof -
    obtain h n ks where "((h, n), ks) \<in> set m" and "key = \<lparr>tk_high_word = h, tk_negative = n,
        tk_adjacent = False, tk_witnesses = length ks\<rparr>" using mem by (auto simp: keys)
    then show ?thesis by (simp add: bt_get_iff [OF ok])
  qed
  show "tk_witnesses key = card {k. (k, tk_high_word key, tk_negative key) \<in> ?D}" if "key \<in> set keys"
    using key [OF that] some [of "(tk_high_word key, tk_negative key)"] by (auto dest: sorted_set_length)
  show "0 < tk_witnesses key" if "key \<in> set keys"
    using key [OF that] some [of "(tk_high_word key, tk_negative key)"] by auto
  have ctx: "map (\<lambda>key. (tk_high_word key, tk_negative key)) keys = map fst m"
    by (auto simp: keys split: prod.split)
  then show "distinct (map (\<lambda>key. (tk_high_word key, tk_negative key)) keys)"
    using bt_ok_distinct [OF ok] by simp
  have "c \<in> fst ` set m \<longleftrightarrow> c \<in> snd ` ?D" for c
  proof
    assume "c \<in> fst ` set m"
    then obtain ks where "bt_get m c = Some ks" using bt_get_None_iff by (metis not_Some_eq)
    with some have "set ks = {k. (k, c) \<in> ?D}" and "ks \<noteq> []" by (auto simp: sorted_set_def)
    then obtain k where "(k, c) \<in> ?D" by (cases ks) auto
    then show "c \<in> snd ` ?D" by force
  next
    assume "c \<in> snd ` ?D"
    with none show "c \<in> fst ` set m" by (fastforce simp: bt_get_None_iff)
  qed
  then have "fst ` set m = snd ` ?D" by (rule set_eqI)
  with arg_cong [OF ctx, of set] show "(\<lambda>key. (tk_high_word key, tk_negative key)) ` set keys = snd ` ?D"
    by (simp only: set_map)
qed

text \<open>Where the strict discovery succeeds it finds the only candidate, with the same evidence.\<close>

lemma discover_strict_unique:
  assumes "discover_transform_key parse_page permute ps = Ok key"
    and "discover_transform_key_candidates parse_page permute ps = Ok keys"
  shows "keys = [key]"
proof -
  let ?D = "decisive_pages parse_page permute ps"
  let ?ctx = "\<lambda>key. (tk_high_word key, tk_negative key)"
  note strict = discover_transform_key_Ok [OF assms(1)] and cand = discover_candidates_Ok [OF assms(2)]
  have "set (map ?ctx keys) = {?ctx key}" using strict(1) cand(1) by simp
  with cand(4) have "map ?ctx keys = [?ctx key]"
    by (intro distinct_set_singleton)
  then obtain k where keys: "keys = [k]" and k: "?ctx k = ?ctx key" by auto
  have "(l, c) \<in> ?D \<Longrightarrow> c = ?ctx key" for l c using strict(1) by force
  then have "{l. (l, ?ctx key) \<in> ?D} = fst ` ?D" by force
  then have "tk_witnesses k = tk_witnesses key" using cand(2) [of k] keys k strict(2) by simp
  moreover have "\<not> tk_adjacent k" using assms(2) keys
    by (auto simp: discover_transform_key_candidates_def outcome_simps Let_def split: if_splits prod.splits)
  ultimately show ?thesis using keys k strict(4) by simp
qed

end
