(* ===== verification/Table_Scan.thy ===== *)
theory Table_Scan
  imports Page_Facts
begin

text \<open>
  The one-pass inventory of a page store, \<open>crates/openqbw/src/enterprise_table_scan.rs\<close>: every page
  is grouped under the one table its candidates agree on, kept as a conflict, or counted as skipped
  with a reason. A page store is the list of its page numbers and raw pages.
\<close>

section \<open>The inventory\<close>

datatype skip_reason =
    SkipNoHeader | SkipAmbiguousHeader | SkipNotMaterialized | SkipRawLength | SkipPageNumber
  | SkipSectorTransform | SkipTableId

text \<open>The derived order of the reasons is the order of their declaration.\<close>

fun skip_rank :: "skip_reason \<Rightarrow> nat" where
  "skip_rank SkipNoHeader = 0"
| "skip_rank SkipAmbiguousHeader = 1"
| "skip_rank SkipNotMaterialized = 2"
| "skip_rank SkipRawLength = 3"
| "skip_rank SkipPageNumber = 4"
| "skip_rank SkipSectorTransform = 5"
| "skip_rank SkipTableId = 6"

lemma skip_rank_inject: "skip_rank r = skip_rank s \<Longrightarrow> r = s"
  by (cases r; cases s) simp_all

instantiation skip_reason :: linorder
begin

definition less_eq_skip_reason :: "skip_reason \<Rightarrow> skip_reason \<Rightarrow> bool" where
  "less_eq_skip_reason r s \<longleftrightarrow> skip_rank r \<le> skip_rank s"

definition less_skip_reason :: "skip_reason \<Rightarrow> skip_reason \<Rightarrow> bool" where
  "less_skip_reason r s \<longleftrightarrow> skip_rank r < skip_rank s"

instance
  by standard (auto simp: less_eq_skip_reason_def less_skip_reason_def intro: skip_rank_inject)

end

record directory_counts =
  dc_candidate :: nat
  dc_accessible :: nat
  dc_missing :: nat

record candidate_group =
  cg_page :: u64
  cg_candidates :: "enterprise_page list"
  cg_counts :: "directory_counts list"

record table_id_conflict =
  ic_page :: u64
  ic_ids :: "u32 list"
  ic_candidates :: "enterprise_page list"

record store_census =
  sc_raw_pages :: nat
  sc_candidate_pages :: nat
  sc_accessible :: nat
  sc_missing :: nat
  sc_conflict_pages :: nat
  sc_skips :: "(skip_reason, int) btree"

record store_scan =
  ss_groups :: "(u32, candidate_group list) btree"
  ss_conflicts :: "table_id_conflict list"
  ss_census :: store_census

definition directory_counts_of :: "nat \<times> enterprise_page \<Rightarrow> directory_counts" where
  "directory_counts_of ic =
     (case ic of (candidate_index, candidate) \<Rightarrow>
        let slots = tp_slots (em_view candidate) in
        \<lparr>dc_candidate = candidate_index, dc_accessible = length (filter (\<lambda>s. s \<noteq> None) slots),
         dc_missing = length (filter (\<lambda>s. s = None) slots)\<rparr>)"

fun classify_materialization_error :: "materialization_error \<Rightarrow> skip_reason" where
  "classify_materialization_error NoHeaderCandidate = SkipNoHeader"
| "classify_materialization_error (AmbiguousHeaderCandidates _) = SkipAmbiguousHeader"
| "classify_materialization_error NotMaterializedTablePage = SkipNotMaterialized"
| "classify_materialization_error (InvalidRawPageLength _) = SkipRawLength"
| "classify_materialization_error (PageNumberOutOfRange _) = SkipPageNumber"
| "classify_materialization_error SectorTransform = SkipSectorTransform"
| "classify_materialization_error (AmbiguousMaterializedPages _) = SkipNotMaterialized"
| "classify_materialization_error (InsufficientKeyWitnesses _ _) = SkipNotMaterialized"
| "classify_materialization_error (ConflictingKeyWitnesses _) = SkipNotMaterialized"

definition increment_store_skip :: "skip_reason \<Rightarrow> store_scan \<Rightarrow> store_scan" where
  "increment_store_skip reason s =
     s\<lparr>ss_census := (ss_census s)\<lparr>sc_skips := bt_add reason 1 (sc_skips (ss_census s))\<rparr>\<rparr>"

text \<open>The identities of all candidates, if each is usable.\<close>

definition candidate_table_ids :: "page_parser \<Rightarrow> enterprise_page list \<Rightarrow> u32 list option" where
  "candidate_table_ids parse_page candidates =
     those (map (\<lambda>c. case materialized_table_id parse_page (em_bytes c) of Ok n \<Rightarrow> Some n | _ \<Rightarrow> None) candidates)"

definition keep_group :: "u64 \<Rightarrow> u32 \<Rightarrow> enterprise_page list \<Rightarrow> store_scan \<Rightarrow> store_scan" where
  "keep_group page_number table_id candidates s =
     (let counts = map directory_counts_of (enumerate 0 candidates); census = ss_census s;
          group = \<lparr>cg_page = page_number, cg_candidates = candidates, cg_counts = counts\<rparr> in
      s\<lparr>ss_groups := bt_insert table_id
          ((case bt_get (ss_groups s) table_id of Some gs \<Rightarrow> gs | None \<Rightarrow> []) @ [group]) (ss_groups s),
        ss_census := census
          \<lparr>sc_candidate_pages := sc_candidate_pages census + length candidates,
           sc_accessible := sc_accessible census + sum_list (map dc_accessible counts),
           sc_missing := sc_missing census + sum_list (map dc_missing counts)\<rparr>\<rparr>)"

text \<open>
  What becomes of a page: a group of its table, a conflict with the distinct identities, or a skip.
  The materialization does not panic (\<open>materialize_candidates_no_panic\<close>).
\<close>

datatype page_class =
    ClassTable u32 "enterprise_page list"
  | ClassConflict "u32 list" "enterprise_page list"
  | ClassSkip skip_reason

definition page_class_of ::
    "page_parser \<Rightarrow> sector_permutation \<Rightarrow> transform_key \<Rightarrow> u64 \<times> byte list \<Rightarrow> page_class" where
  "page_class_of parse_page permute key page =
     (case page of (page_number, raw_page) \<Rightarrow>
        case materialize_candidates_with_key parse_page permute raw_page page_number key of
          Err e \<Rightarrow> ClassSkip (classify_materialization_error e)
        | Panic \<Rightarrow> ClassConflict [] []
        | Ok candidates \<Rightarrow>
            (case candidate_table_ids parse_page candidates of
               None \<Rightarrow> ClassSkip SkipTableId
             | Some ids \<Rightarrow>
                 (case remdups_adj (sort ids) of
                    [table_id] \<Rightarrow> ClassTable table_id candidates
                  | ids \<Rightarrow> ClassConflict ids candidates)))"

definition keep_conflict :: "u64 \<Rightarrow> u32 list \<Rightarrow> enterprise_page list \<Rightarrow> store_scan \<Rightarrow> store_scan" where
  "keep_conflict page_number ids candidates s =
     s\<lparr>ss_census := (ss_census s)\<lparr>sc_conflict_pages := sc_conflict_pages (ss_census s) + 1\<rparr>,
       ss_conflicts := ss_conflicts s @ [\<lparr>ic_page = page_number, ic_ids = ids, ic_candidates = candidates\<rparr>]\<rparr>"

definition count_raw_page :: "store_scan \<Rightarrow> store_scan" where
  "count_raw_page s = s\<lparr>ss_census := (ss_census s)\<lparr>sc_raw_pages := sc_raw_pages (ss_census s) + 1\<rparr>\<rparr>"

definition scan_page_step ::
    "page_parser \<Rightarrow> sector_permutation \<Rightarrow> transform_key \<Rightarrow> u64 \<times> byte list \<Rightarrow> store_scan \<Rightarrow> store_scan" where
  "scan_page_step parse_page permute key page s =
     (case page_class_of parse_page permute key page of
        ClassTable table_id candidates \<Rightarrow> keep_group (fst page) table_id candidates (count_raw_page s)
      | ClassConflict ids candidates \<Rightarrow> keep_conflict (fst page) ids candidates (count_raw_page s)
      | ClassSkip reason \<Rightarrow> increment_store_skip reason (count_raw_page s))"

definition store_scan_start :: store_scan where
  "store_scan_start =
     \<lparr>ss_groups = [], ss_conflicts = [],
      ss_census = \<lparr>sc_raw_pages = 0, sc_candidate_pages = 0, sc_accessible = 0, sc_missing = 0,
                   sc_conflict_pages = 0, sc_skips = []\<rparr>\<rparr>"

definition scan_table_store ::
    "page_parser \<Rightarrow> sector_permutation \<Rightarrow> transform_key \<Rightarrow> (u64 \<times> byte list) list \<Rightarrow> store_scan" where
  "scan_table_store parse_page permute key store =
     fold (scan_page_step parse_page permute key) store store_scan_start"

section \<open>The view of one table\<close>

record table_census =
  tc_raw_pages :: nat
  tc_target_groups :: nat
  tc_target_pages :: nat
  tc_accessible :: nat
  tc_missing :: nat
  tc_unambiguous_accessible :: nat
  tc_unambiguous_missing :: nat
  tc_non_target_pages :: nat
  tc_conflict_pages :: nat
  tc_skips :: "(skip_reason, int) btree"

record table_scan =
  ts_target :: u32
  ts_groups :: "candidate_group list"
  ts_conflicts :: "table_id_conflict list"
  ts_census :: table_census

datatype table_scan_error = ZeroTargetTableId

definition count_group :: "u32 \<Rightarrow> u32 \<Rightarrow> candidate_group \<Rightarrow> table_census \<Rightarrow> table_census" where
  "count_group target table_id g c =
     (if table_id \<noteq> target
      then c\<lparr>tc_non_target_pages := tc_non_target_pages c + length (cg_candidates g)\<rparr>
      else
        let c = c\<lparr>tc_target_groups := tc_target_groups c + 1,
                  tc_target_pages := tc_target_pages c + length (cg_candidates g),
                  tc_accessible := tc_accessible c + sum_list (map dc_accessible (cg_counts g)),
                  tc_missing := tc_missing c + sum_list (map dc_missing (cg_counts g))\<rparr> in
        (case cg_counts g of
           [d] \<Rightarrow> c\<lparr>tc_unambiguous_accessible := tc_unambiguous_accessible c + dc_accessible d,
                    tc_unambiguous_missing := tc_unambiguous_missing c + dc_missing d\<rparr>
         | _ \<Rightarrow> c))"

definition for_table :: "store_scan \<Rightarrow> u32 \<Rightarrow> (table_scan_error, table_scan) outcome" where
  "for_table s target =
     (if target = 0 then Err ZeroTargetTableId
      else
        Ok \<lparr>ts_target = target,
            ts_groups = (case bt_get (ss_groups s) target of Some gs \<Rightarrow> gs | None \<Rightarrow> []),
            ts_conflicts = ss_conflicts s,
            ts_census =
              fold (\<lambda>(table_id, gs). fold (count_group target table_id) gs) (ss_groups s)
                \<lparr>tc_raw_pages = sc_raw_pages (ss_census s), tc_target_groups = 0, tc_target_pages = 0,
                 tc_accessible = 0, tc_missing = 0, tc_unambiguous_accessible = 0, tc_unambiguous_missing = 0,
                 tc_non_target_pages = 0, tc_conflict_pages = sc_conflict_pages (ss_census s),
                 tc_skips = sc_skips (ss_census s)\<rparr>\<rparr>)"

definition scan_table_pages ::
    "page_parser \<Rightarrow> sector_permutation \<Rightarrow> (u64 \<times> byte list) list \<Rightarrow> transform_key \<Rightarrow> u32 \<Rightarrow>
     (table_scan_error, table_scan) outcome" where
  "scan_table_pages parse_page permute store key target =
     for_table (scan_table_store parse_page permute key store) target"

definition resolve_candidate_group ::
    "candidate_group \<Rightarrow> (enterprise_page \<Rightarrow> 't option) \<Rightarrow> (candidate_resolution_error, 't) outcome" where
  "resolve_candidate_group g decode = resolve_table_page_candidates (cg_candidates g) decode"

section \<open>Every page is accounted for\<close>

lemma materialize_candidates_no_panic: "materialize_candidates_with_key parse_page permute raw n key \<noteq> Panic"
  unfolding materialize_candidates_with_key_def checked_page_key_def Let_def
  by (intro no_panic materialize_no_panic)

definition groups_at :: "store_scan \<Rightarrow> u32 \<Rightarrow> candidate_group list" where
  "groups_at s t = (case bt_get (ss_groups s) t of Some gs \<Rightarrow> gs | None \<Rightarrow> [])"

text \<open>The pages of a store that belong to a table, with their candidates.\<close>

definition table_pages ::
    "page_parser \<Rightarrow> sector_permutation \<Rightarrow> transform_key \<Rightarrow> (u64 \<times> byte list) list \<Rightarrow> u32 \<Rightarrow>
     (u64 \<times> enterprise_page list) list" where
  "table_pages parse_page permute key store t =
     List.map_filter (\<lambda>p. case page_class_of parse_page permute key p of
         ClassTable u candidates \<Rightarrow> if u = t then Some (fst p, candidates) else None | _ \<Rightarrow> None) store"

definition group_of :: "u64 \<times> enterprise_page list \<Rightarrow> candidate_group" where
  "group_of p = \<lparr>cg_page = fst p, cg_candidates = snd p, cg_counts = map directory_counts_of (enumerate 0 (snd p))\<rparr>"

lemma groups_at_step:
  "groups_at (scan_page_step parse_page permute key p s) t =
     groups_at s t @ map group_of (table_pages parse_page permute key [p] t)"
  by (cases "page_class_of parse_page permute key p")
    (simp_all add: scan_page_step_def groups_at_def table_pages_def map_filter_simps keep_group_def
      keep_conflict_def increment_store_skip_def count_raw_page_def bt_get_insert group_of_def Let_def)

lemma table_pages_Cons:
  "table_pages parse_page permute key (p # ps) t
     = table_pages parse_page permute key [p] t @ table_pages parse_page permute key ps t"
  by (simp add: table_pages_def map_filter_simps split: option.split)

lemma groups_at_fold:
  "groups_at (fold (scan_page_step parse_page permute key) ps s) t =
     groups_at s t @ map group_of (table_pages parse_page permute key ps t)"
proof (induction ps arbitrary: s)
  case Nil
  then show ?case by (simp add: table_pages_def map_filter_simps)
next
  case (Cons p ps)
  show ?case by (subst table_pages_Cons) (simp add: Cons groups_at_step)
qed

text \<open>The groups of a table are exactly the pages that belong to it, in the order of the store.\<close>

lemma scan_groups:
  "groups_at (scan_table_store parse_page permute key store) t
     = map group_of (table_pages parse_page permute key store t)"
  by (simp add: scan_table_store_def groups_at_fold) (simp add: store_scan_start_def groups_at_def)

text \<open>The census is balanced: each raw page is in one group, one conflict, or one count of skips.\<close>

definition balanced_census :: "store_scan \<Rightarrow> bool" where
  "balanced_census s \<longleftrightarrow>
     int (sc_raw_pages (ss_census s)) =
       int (sum_list (map (length \<circ> snd) (ss_groups s))) + int (length (ss_conflicts s))
       + sum_list (map snd (sc_skips (ss_census s)))
     \<and> sc_conflict_pages (ss_census s) = length (ss_conflicts s)
     \<and> bt_ok (ss_groups s) \<and> bt_ok (sc_skips (ss_census s))"

lemma sum_values_insert:
  "bt_ok m \<Longrightarrow> sum_list (map (f \<circ> snd) (bt_insert k v m)) + (case bt_get m k of Some w \<Rightarrow> f w | None \<Rightarrow> 0)
     = sum_list (map (f \<circ> snd) m) + (f v :: 'a::comm_monoid_add)"
proof (induction k v m rule: bt_insert.induct)
  case (2 k v l w m)
  have "bt_get m k = None" if "k < l"
    using 2(2) that by (auto simp: bt_ok_def bt_get_None_iff)
  with 2 show ?case by (auto simp: bt_get_def bt_ok_def ac_simps split: option.splits)
qed (simp add: bt_get_def)

lemma balanced_step:
  assumes "balanced_census s"
  shows "balanced_census (scan_page_step parse_page permute key p s)"
proof (cases "page_class_of parse_page permute key p")
  case (ClassTable t candidates)
  let ?gs = "(case bt_get (ss_groups s) t of Some gs \<Rightarrow> gs | None \<Rightarrow> [])"
  have "sum_list (map (length \<circ> snd) (bt_insert t (?gs @ [g]) (ss_groups s)))
      = sum_list (map (length \<circ> snd) (ss_groups s)) + 1" for g
    using sum_values_insert [of "ss_groups s" length t "?gs @ [g]"] assms
    by (simp add: balanced_census_def split: option.splits)
  with assms ClassTable show ?thesis
    by (simp add: balanced_census_def scan_page_step_def keep_group_def count_raw_page_def Let_def bt_ok_insert)
next
  case (ClassConflict ids candidates)
  with assms show ?thesis
    by (simp add: balanced_census_def scan_page_step_def keep_conflict_def count_raw_page_def)
next
  case (ClassSkip r)
  have "sum_list (map snd (bt_add r 1 (sc_skips (ss_census s)))) = sum_list (map snd (sc_skips (ss_census s))) + 1"
    using sum_values_insert [of "sc_skips (ss_census s)" "\<lambda>x. x" r
        "(case bt_get (sc_skips (ss_census s)) r of None \<Rightarrow> 0 | Some y \<Rightarrow> y) + 1"] assms
    by (simp add: balanced_census_def bt_add_def comp_def split: option.splits)
  with assms ClassSkip show ?thesis
    by (simp add: balanced_census_def scan_page_step_def increment_store_skip_def count_raw_page_def
        bt_add_def bt_ok_insert)
qed

lemma scan_balanced:
  "balanced_census (scan_table_store parse_page permute key store)"
  "sc_raw_pages (ss_census (scan_table_store parse_page permute key store)) = length store"
proof -
  have "balanced_census s \<Longrightarrow> balanced_census (fold (scan_page_step parse_page permute key) ps s)" for ps s
    by (induction ps arbitrary: s) (simp_all add: balanced_step)
  then show "balanced_census (scan_table_store parse_page permute key store)"
    by (simp add: scan_table_store_def balanced_census_def store_scan_start_def)
  have "sc_raw_pages (ss_census (scan_page_step parse_page permute key p s)) = sc_raw_pages (ss_census s) + 1" for p s
    by (cases "page_class_of parse_page permute key p")
      (simp_all add: scan_page_step_def keep_group_def keep_conflict_def increment_store_skip_def count_raw_page_def Let_def)
  then have "sc_raw_pages (ss_census (fold (scan_page_step parse_page permute key) ps s))
      = sc_raw_pages (ss_census s) + length ps" for ps s
    by (induction ps arbitrary: s) simp_all
  then show "sc_raw_pages (ss_census (scan_table_store parse_page permute key store)) = length store"
    by (simp add: scan_table_store_def store_scan_start_def)
qed

text \<open>A kept group: every candidate of the page names the table, and carries the key of the page.\<close>

lemma those_Some_map: "those (map f xs) = Some ys \<longleftrightarrow> list_all2 (\<lambda>x y. f x = Some y) xs ys"
  by (induction xs arbitrary: ys) (auto simp: list_all2_Cons1 split: option.splits)

lemma remdups_adj_singleton_sort: "remdups_adj (sort xs) = [x] \<Longrightarrow> set xs = {x}"
  by (metis remdups_adj_set set_sort list.set(1,2))

lemma checked_page_key_exact: "checked_page_key raw n = Ok k \<Longrightarrow> unat k = unat n"
  by (auto simp: checked_page_key_def unsigned_ucast_eq take_bit_nat_eq_self not_le split: if_splits)

lemma in_map_filter_iff: "y \<in> set (List.map_filter f xs) \<longleftrightarrow> (\<exists>x\<in>set xs. f x = Some y)"
  by (induction xs) (auto simp: map_filter_simps split: option.split)

lemma table_page_candidates:
  assumes "(n, candidates) \<in> set (table_pages parse_page permute key store t)" and "c \<in> set candidates"
  shows "materialized_table_id parse_page (em_bytes c) = Ok t" and "parse_page (em_bytes c) = Some (em_view c)"
    and "unat (tp_key (em_view c)) = unat n" and "\<exists>raw. (n, raw) \<in> set store"
proof -
  obtain raw where mem: "(n, raw) \<in> set store"
    and cls: "page_class_of parse_page permute key (n, raw) = ClassTable t candidates"
  proof -
    from assms(1) obtain p where "p \<in> set store" and "(case page_class_of parse_page permute key p of
        ClassTable u cs \<Rightarrow> if u = t then Some (fst p, cs) else None | _ \<Rightarrow> None) = Some (n, candidates)"
      unfolding table_pages_def in_map_filter_iff by blast
    then show thesis using that [of "snd p"]
      by (cases "page_class_of parse_page permute key p") (auto split: if_splits)
  qed
  obtain ids where ok: "materialize_candidates_with_key parse_page permute raw n key = Ok candidates"
    and ids: "candidate_table_ids parse_page candidates = Some ids" and one: "remdups_adj (sort ids) = [t]"
    using cls by (auto simp: page_class_of_def split: outcome.splits option.splits list.splits)
  from ids have "list_all2 (\<lambda>c i. materialized_table_id parse_page (em_bytes c) = Ok i) candidates ids"
    unfolding candidate_table_ids_def those_Some_map
    by (rule list_all2_mono) (auto split: outcome.splits)
  with assms(2) remdups_adj_singleton_sort [OF one] show "materialized_table_id parse_page (em_bytes c) = Ok t"
    by (auto simp: list_all2_conv_all_nth in_set_conv_nth) (metis nth_mem singletonD)
  obtain k ss where k: "checked_page_key raw n = Ok k"
    and p: "materialized_pages_with_signed_keys parse_page permute raw k ss = Ok candidates"
    using ok by (auto simp: materialize_candidates_with_key_def outcome_simps Let_def split: if_splits)
  from materialized_pages_iff(1) [OF p] assms(2)
  have "candidate_image parse_page permute raw k ss c" by auto
  then show "parse_page (em_bytes c) = Some (em_view c)" and "unat (tp_key (em_view c)) = unat n"
    using checked_page_key_exact [OF k] by (auto simp: candidate_image_def)
  show "\<exists>raw. (n, raw) \<in> set store" using mem by blast
qed

end
