(* ===== verification/Catalog_Pages.thy ===== *)
theory Catalog_Pages
  imports Page_Facts
begin

text \<open>
  What the two catalog collectors (\<open>crates/openqbw/src/syscolumn.rs\<close> and \<open>systable.rs\<close>) share: the
  choice of the carrier pages by their table identity, the census of one candidate page, and the
  totals over the pages. The parser of a record and of its fixed prefix are arguments.
\<close>

section \<open>Carrier pages\<close>

record skipped_pages =
  sk_no_header :: nat
  sk_ambiguous :: nat
  sk_not_type4 :: nat
  sk_other :: nat

definition no_skips :: skipped_pages where
  "no_skips = \<lparr>sk_no_header = 0, sk_ambiguous = 0, sk_not_type4 = 0, sk_other = 0\<rparr>"

definition record_catalog_skip :: "materialization_error \<Rightarrow> skipped_pages \<Rightarrow> skipped_pages" where
  "record_catalog_skip error s =
     (case error of
        NoHeaderCandidate \<Rightarrow> s\<lparr>sk_no_header := sk_no_header s + 1\<rparr>
      | AmbiguousHeaderCandidates _ \<Rightarrow> s\<lparr>sk_ambiguous := sk_ambiguous s + 1\<rparr>
      | NotMaterializedTablePage \<Rightarrow> s\<lparr>sk_not_type4 := sk_not_type4 s + 1\<rparr>
      | _ \<Rightarrow> s\<lparr>sk_other := sk_other s + 1\<rparr>)"

text \<open>
  Whether the candidates of a page are the carrier: none of them, all of them, or an ambiguity.
\<close>

definition carrier_choice :: "page_parser \<Rightarrow> u32 \<Rightarrow> enterprise_page list \<Rightarrow> (unit, bool) outcome" where
  "carrier_choice parse_page carrier candidates =
     (let ids = List.map_filter
            (\<lambda>c. case materialized_table_id parse_page (em_bytes c) of Ok n \<Rightarrow> Some n | _ \<Rightarrow> None) candidates;
          carriers = length (filter (\<lambda>n. n = carrier) ids) in
      if carriers = 0 then Ok False
      else if carriers \<noteq> length candidates \<or> length ids \<noteq> length candidates then Err ()
      else Ok True)"

section \<open>The census of a page\<close>

record ('k, 'r) carrier_page =
  cpg_rows :: "'r list"
  cpg_slots :: nat
  cpg_missing :: nat
  cpg_unparsed :: nat
  cpg_prefixes :: "('k, int) btree"
  cpg_self_length :: nat
  cpg_short :: nat
  cpg_without :: nat

text \<open>A record parser: bytes and offset; an error is a record it does not accept.\<close>

type_synonym 'r record_parser = "byte list \<Rightarrow> nat \<Rightarrow> (unit, 'r) outcome"

definition unparsed_record ::
    "nat \<Rightarrow> (byte list \<Rightarrow> 'k::linorder option) \<Rightarrow> byte list \<Rightarrow> ('k, 'r) carrier_page \<Rightarrow> ('k, 'r) carrier_page" where
  "unparsed_record prefix_len prefix_of bytes p =
     (let p = p\<lparr>cpg_unparsed := cpg_unparsed p + 1\<rparr> in
      if length bytes < prefix_len then p\<lparr>cpg_short := cpg_short p + 1\<rparr>
      else case prefix_of bytes of
        Some k \<Rightarrow> p\<lparr>cpg_prefixes := bt_add k 1 (cpg_prefixes p), cpg_self_length := cpg_self_length p + 1\<rparr>
      | None \<Rightarrow> p\<lparr>cpg_without := cpg_without p + 1\<rparr>)"

definition carrier_slot ::
    "nat \<Rightarrow> (byte list \<Rightarrow> 'k::linorder option) \<Rightarrow> 'r record_parser \<Rightarrow> (nat \<times> byte list) option \<Rightarrow>
     ('k, 'r) carrier_page \<Rightarrow> ('e, ('k, 'r) carrier_page) outcome" where
  "carrier_slot prefix_len prefix_of parse slot p =
     (case slot of
        None \<Rightarrow> Ok (p\<lparr>cpg_missing := cpg_missing p + 1\<rparr>)
      | Some (offset, bytes) \<Rightarrow>
          (case parse bytes offset of
             Ok r \<Rightarrow> Ok (p\<lparr>cpg_rows := cpg_rows p @ [r]\<rparr>)
           | Err _ \<Rightarrow> Ok (unparsed_record prefix_len prefix_of bytes p)
           | Panic \<Rightarrow> Panic))"

definition carrier_page_of ::
    "nat \<Rightarrow> (byte list \<Rightarrow> 'k::linorder option) \<Rightarrow> 'r record_parser \<Rightarrow> enterprise_page \<Rightarrow>
     ('e, ('k, 'r) carrier_page) outcome" where
  "carrier_page_of prefix_len prefix_of parse candidate =
     (let slots = tp_slots (em_view candidate) in
      rfold (carrier_slot prefix_len prefix_of parse) slots
        \<lparr>cpg_rows = [], cpg_slots = length slots, cpg_missing = 0, cpg_unparsed = 0, cpg_prefixes = [],
         cpg_self_length = 0, cpg_short = 0, cpg_without = 0\<rparr>)"

text \<open>The counts two candidates must agree on.\<close>

definition same_counts :: "('k, 'r) carrier_page \<Rightarrow> ('k, 'r) carrier_page \<Rightarrow> bool" where
  "same_counts p q \<longleftrightarrow>
     cpg_slots p = cpg_slots q \<and> cpg_missing p = cpg_missing q \<and> cpg_unparsed p = cpg_unparsed q
     \<and> cpg_prefixes p = cpg_prefixes q \<and> cpg_self_length p = cpg_self_length q
     \<and> cpg_short p = cpg_short q \<and> cpg_without p = cpg_without q"

text \<open>\<open>windows(2).any(..)\<close> of a disagreement, negated.\<close>

fun all_windows :: "('a \<Rightarrow> 'a \<Rightarrow> bool) \<Rightarrow> 'a list \<Rightarrow> bool" where
  "all_windows P (x # y # xs) = (P x y \<and> all_windows P (y # xs))"
| "all_windows P _ = True"

section \<open>Totals\<close>

record 'k carrier_totals =
  ct_pages :: nat
  ct_slots :: nat
  ct_missing :: nat
  ct_parsed :: nat
  ct_unparsed :: nat
  ct_prefixes :: "('k, int) btree"
  ct_self_length :: nat
  ct_short :: nat
  ct_without :: nat
  ct_skipped :: skipped_pages

definition no_totals :: "'k carrier_totals" where
  "no_totals =
     \<lparr>ct_pages = 0, ct_slots = 0, ct_missing = 0, ct_parsed = 0, ct_unparsed = 0, ct_prefixes = [],
      ct_self_length = 0, ct_short = 0, ct_without = 0, ct_skipped = no_skips\<rparr>"

definition add_carrier_page ::
    "('k::linorder, 'r) carrier_page \<Rightarrow> 'k carrier_totals \<Rightarrow> 'k carrier_totals" where
  "add_carrier_page p t =
     t\<lparr>ct_pages := ct_pages t + 1, ct_slots := ct_slots t + cpg_slots p,
       ct_missing := ct_missing t + cpg_missing p, ct_parsed := ct_parsed t + length (cpg_rows p),
       ct_unparsed := ct_unparsed t + cpg_unparsed p,
       ct_prefixes := fold (\<lambda>(k, n). bt_add k n) (cpg_prefixes p) (ct_prefixes t),
       ct_self_length := ct_self_length t + cpg_self_length p, ct_short := ct_short t + cpg_short p,
       ct_without := ct_without t + cpg_without p\<rparr>"

section \<open>Every slot is classified\<close>

definition classified_page :: "('k::linorder, 'r) carrier_page \<Rightarrow> nat \<Rightarrow> bool" where
  "classified_page p n \<longleftrightarrow>
     n = cpg_missing p + length (cpg_rows p) + cpg_unparsed p
     \<and> cpg_unparsed p = cpg_self_length p + cpg_short p + cpg_without p
     \<and> bt_ok (cpg_prefixes p) \<and> (\<forall>(k, c) \<in> set (cpg_prefixes p). 0 < c)"

lemma bt_add_positive:
  assumes "bt_ok m" and "\<forall>(k, c) \<in> set m. 0 < c" and "0 < n"
  shows "bt_ok (bt_add k n m) \<and> (\<forall>(k, c) \<in> set (bt_add k n m). 0 < c)"
proof -
  have ok: "bt_ok (bt_add k n m)" unfolding bt_add_def by (rule bt_ok_insert [OF assms(1)])
  have "0 < c" if "bt_get (bt_add k n m) l = Some c" for l c
    using that assms(2,3) by (auto simp: bt_add_def bt_get_insert bt_get_iff [OF assms(1)] dest!: bt_get_SomeD
      split: if_splits option.splits)
  with ok show ?thesis by (auto simp: bt_get_iff)
qed

lemma carrier_slot_classified:
  assumes "carrier_slot prefix_len prefix_of parse slot p = Ok q" and "classified_page p n"
  shows "classified_page q (Suc n) \<and> cpg_slots q = cpg_slots p"
proof (cases slot)
  case None
  with assms show ?thesis by (auto simp: carrier_slot_def classified_page_def)
next
  case (Some s)
  obtain offset bytes where s: "s = (offset, bytes)" by (cases s) auto
  show ?thesis
  proof (cases "parse bytes offset")
    case (Ok r)
    with assms Some s show ?thesis by (auto simp: carrier_slot_def classified_page_def)
  next
    case (Err u)
    have "bt_ok (cpg_prefixes p)" and "\<forall>(k, c) \<in> set (cpg_prefixes p). 0 < c"
      using assms(2) by (simp_all add: classified_page_def)
    note * = bt_add_positive [OF this zero_less_one]
    have q: "q = unparsed_record prefix_len prefix_of bytes p" using assms(1) Some s Err
      by (simp add: carrier_slot_def)
    show ?thesis
      using assms(2) * unfolding q by (auto simp: unparsed_record_def Let_def classified_page_def split: option.split)
  next
    case Panic
    with assms Some s show ?thesis by (simp add: carrier_slot_def)
  qed
qed

lemma carrier_page_classified:
  assumes "carrier_page_of prefix_len prefix_of parse c = Ok p"
  shows "classified_page p (cpg_slots p)" and "cpg_slots p = length (tp_slots (em_view c))"
proof -
  let ?slots = "tp_slots (em_view c)"
  let ?p = "\<lparr>cpg_rows = [], cpg_slots = length ?slots, cpg_missing = 0, cpg_unparsed = 0, cpg_prefixes = [],
         cpg_self_length = 0, cpg_short = 0, cpg_without = 0\<rparr>"
  note f = assms(1) [unfolded carrier_page_of_def Let_def]
  have "classified_page p (length ?slots) \<and> cpg_slots p = length ?slots"
  proof (rule rfold_invariant [OF f, where I = "\<lambda>ys p. classified_page p (length ys) \<and> cpg_slots p = length ?slots"])
    show "classified_page ?p (length []) \<and> cpg_slots ?p = length ?slots" by (simp add: classified_page_def)
  qed (use carrier_slot_classified in fastforce)
  then show "classified_page p (cpg_slots p)" and "cpg_slots p = length ?slots" by simp_all
qed

text \<open>Every row of a page is an accepted record of one of its slots.\<close>

lemma carrier_page_rows:
  assumes "carrier_page_of prefix_len prefix_of parse c = Ok p" and "r \<in> set (cpg_rows p)"
  shows "\<exists>offset bytes. Some (offset, bytes) \<in> set (tp_slots (em_view c)) \<and> parse bytes offset = Ok r"
proof -
  let ?slots = "tp_slots (em_view c)"
  let ?p = "\<lparr>cpg_rows = [], cpg_slots = length ?slots, cpg_missing = 0, cpg_unparsed = 0, cpg_prefixes = [],
         cpg_self_length = 0, cpg_short = 0, cpg_without = 0\<rparr>"
  note f = assms(1) [unfolded carrier_page_of_def Let_def]
  let ?I = "\<lambda>ys p. \<forall>r\<in>set (cpg_rows p). \<exists>offset bytes. Some (offset, bytes) \<in> set ?slots \<and> parse bytes offset = Ok r"
  have "?I ?slots p"
  proof (rule rfold_invariant [OF f, where I = ?I])
    fix ys slot q q'
    assume "?I ys q" and "slot \<in> set ?slots" and "carrier_slot prefix_len prefix_of parse slot q = Ok q'"
    then show "?I (ys @ [slot]) q'"
      by (auto simp: carrier_slot_def unparsed_record_def Let_def split: option.splits outcome.splits if_splits) blast+
  qed simp
  with assms(2) show ?thesis by blast
qed

definition classified_totals :: "'k::linorder carrier_totals \<Rightarrow> bool" where
  "classified_totals t \<longleftrightarrow>
     ct_slots t = ct_missing t + ct_parsed t + ct_unparsed t
     \<and> ct_unparsed t = ct_self_length t + ct_short t + ct_without t
     \<and> bt_ok (ct_prefixes t) \<and> (\<forall>(k, c) \<in> set (ct_prefixes t). 0 < c)"

lemma fold_bt_add_positive:
  "bt_ok m \<Longrightarrow> \<forall>(k, c) \<in> set m. 0 < c \<Longrightarrow> \<forall>(k, c) \<in> set xs. 0 < c \<Longrightarrow>
     bt_ok (fold (\<lambda>(k, n). bt_add k n) xs m) \<and> (\<forall>(k, c) \<in> set (fold (\<lambda>(k, n). bt_add k n) xs m). 0 < c)"
proof (induction xs arbitrary: m)
  case (Cons x xs)
  obtain k n where x: "x = (k, n)" by (cases x)
  with Cons.prems have "bt_ok (bt_add k n m) \<and> (\<forall>(k, c) \<in> set (bt_add k n m). 0 < c)"
    by (intro bt_add_positive) auto
  with Cons.IH [of "bt_add k n m"] Cons.prems x show ?case by simp
qed simp

lemma add_carrier_classified:
  assumes "classified_totals t" and "classified_page p (cpg_slots p)"
  shows "classified_totals (add_carrier_page p t)"
proof -
  have "bt_ok (fold (\<lambda>(k, n). bt_add k n) (cpg_prefixes p) (ct_prefixes t))
      \<and> (\<forall>(k, c) \<in> set (fold (\<lambda>(k, n). bt_add k n) (cpg_prefixes p) (ct_prefixes t)). 0 < c)"
    using assms by (intro fold_bt_add_positive) (simp_all add: classified_totals_def classified_page_def)
  with assms show ?thesis by (simp add: add_carrier_page_def classified_totals_def classified_page_def)
qed

lemma no_totals_classified: "classified_totals no_totals"
  by (simp add: classified_totals_def no_totals_def)

lemma carrier_page_no_panic:
  "(\<And>bytes offset. parse bytes offset \<noteq> Panic) \<Longrightarrow> carrier_page_of prefix_len prefix_of parse c \<noteq> Panic"
  unfolding carrier_page_of_def Let_def carrier_slot_def
  by (intro no_panic) (auto split: outcome.splits)

text \<open>The rows a slot of a page gives, and the rows of a page.\<close>

definition accepted_rows :: "'r record_parser \<Rightarrow> (nat \<times> byte list) option list \<Rightarrow> 'r list" where
  "accepted_rows parse slots =
     List.map_filter (\<lambda>slot. case slot of
         None \<Rightarrow> None
       | Some (offset, bytes) \<Rightarrow> (case parse bytes offset of Ok r \<Rightarrow> Some r | _ \<Rightarrow> None)) slots"

lemma accepted_rows_simps [simp]:
  "accepted_rows parse [] = []"
  "accepted_rows parse (xs @ ys) = accepted_rows parse xs @ accepted_rows parse ys"
  by (simp_all add: accepted_rows_def List.map_filter_def)

lemma carrier_page_rows_eq:
  assumes "carrier_page_of prefix_len prefix_of parse c = Ok p"
  shows "cpg_rows p = accepted_rows parse (tp_slots (em_view c))"
proof -
  note f = assms(1) [unfolded carrier_page_of_def Let_def]
  show ?thesis
  proof (rule rfold_invariant [OF f, where I = "\<lambda>ys p. cpg_rows p = accepted_rows parse ys"])
    fix ys slot q q'
    assume "cpg_rows q = accepted_rows parse ys" and "carrier_slot prefix_len prefix_of parse slot q = Ok q'"
    then show "cpg_rows q' = accepted_rows parse (ys @ [slot])"
      by (auto simp: carrier_slot_def unparsed_record_def Let_def accepted_rows_def List.map_filter_def
          split: option.splits outcome.splits if_splits)
  qed simp
qed

section \<open>Maps keyed by a projection\<close>

definition keyed :: "('v \<Rightarrow> 'k::linorder) \<Rightarrow> ('k, 'v) btree \<Rightarrow> bool" where
  "keyed f m \<longleftrightarrow> bt_ok m \<and> (\<forall>(k, v) \<in> set m. k = f v)"

lemma keyed_Nil [simp]: "keyed f []"
  by (simp add: keyed_def)

lemma keyed_keys: "keyed f m \<Longrightarrow> fst ` set m = f ` set (bt_values m)"
  unfolding keyed_def bt_values_def by (force simp: image_iff)

lemma keyed_get: "keyed f m \<Longrightarrow> bt_get m k = Some v \<Longrightarrow> v \<in> set (bt_values m) \<and> f v = k"
  unfolding keyed_def bt_values_def using bt_get_SomeD [of m k v] by force

lemma keyed_insert:
  assumes "keyed f m"
  shows "keyed f (bt_insert (f v) v m)"
    and "bt_get m (f v) = None \<Longrightarrow> set (bt_values (bt_insert (f v) v m)) = insert v (set (bt_values m))"
proof -
  have m: "bt_ok m" "\<And>k w. bt_get m k = Some w \<Longrightarrow> k = f w"
    using assms bt_get_SomeD [of m] by (fastforce simp: keyed_def)+
  have mem: "p \<in> set (bt_insert (f v) v m) \<longleftrightarrow>
      p = (f v, v) \<or> p \<in> set m \<and> fst p \<noteq> f v" for p
    using m(1) by (cases p) (auto simp: bt_get_iff bt_ok_insert bt_get_insert)
  with assms show "keyed f (bt_insert (f v) v m)" by (auto simp: keyed_def bt_ok_insert)
  assume "bt_get m (f v) = None"
  then have "set (bt_insert (f v) v m) = insert (f v, v) (set m)"
    using mem by (auto simp: bt_get_None_iff) (metis fst_conv image_eqI)
  then show "set (bt_values (bt_insert (f v) v m)) = insert v (set (bt_values m))" by (simp add: bt_values_def)
qed

lemma keyed_fold:
  assumes "keyed f m"
  shows "keyed f (fold (\<lambda>v. bt_insert (f v) v) vs m)
    \<and> f ` set (bt_values (fold (\<lambda>v. bt_insert (f v) v) vs m)) = f ` set vs \<union> f ` set (bt_values m)"
  using assms
proof (induction vs arbitrary: m)
  case (Cons v vs)
  have "f ` set (bt_values (bt_insert (f v) v m)) = insert (f v) (f ` set (bt_values m))"
    using keyed_insert(1) [OF Cons.prems] Cons.prems by (simp flip: keyed_keys add: set_bt_insert_keys)
  with Cons.IH [OF keyed_insert(1) [OF Cons.prems]] show ?case by simp
qed simp

lemma keyed_sorted: "keyed f m \<Longrightarrow> sorted_wrt (<) (map f (bt_values m))"
proof -
  assume "keyed f m"
  then have "map f (bt_values m) = map fst m" by (auto simp: keyed_def bt_values_def)
  with \<open>keyed f m\<close> show ?thesis by (simp add: keyed_def bt_ok_def)
qed

section \<open>Retaining rows\<close>

text \<open>
  A row whose key is new is inserted; a row whose key is known must mean the same as the known row.
\<close>

definition retain_row ::
    "('r \<Rightarrow> 'k::linorder) \<Rightarrow> ('r \<Rightarrow> 'm) \<Rightarrow> ('r \<Rightarrow> 'e) \<Rightarrow> 'r \<Rightarrow> ('k, 'r) btree \<Rightarrow> ('e, ('k, 'r) btree) outcome" where
  "retain_row key meaning conflict row rows =
     (case bt_get rows (key row) of
        Some existing \<Rightarrow> if meaning existing \<noteq> meaning row then Err (conflict row) else Ok rows
      | None \<Rightarrow> Ok (bt_insert (key row) row rows))"

lemma retain_row_Ok:
  assumes "retain_row key meaning conflict row rows = Ok rows'" and "keyed key rows"
  shows "keyed key rows' \<and> meaning ` set (bt_values rows') = insert (meaning row) (meaning ` set (bt_values rows))
    \<and> set (bt_values rows') \<subseteq> insert row (set (bt_values rows))"
proof (cases "bt_get rows (key row)")
  case None
  with assms have r: "rows' = bt_insert (key row) row rows" by (simp add: retain_row_def)
  show ?thesis using None assms(2) unfolding r by (simp add: keyed_insert)
next
  case (Some c)
  with assms have "rows' = rows" and "meaning c = meaning row"
    by (auto simp: retain_row_def split: if_splits)
  moreover have "c \<in> set (bt_values rows)" using keyed_get [OF assms(2) Some] by simp
  ultimately show ?thesis using assms(2) by (metis image_eqI insert_absorb subset_insertI)
qed

lemma retain_rows_Ok:
  assumes "rfold (retain_row key meaning conflict) cs rows = Ok rows'" and "keyed key rows"
  shows "keyed key rows' \<and> meaning ` set (bt_values rows') = meaning ` set cs \<union> meaning ` set (bt_values rows)
    \<and> set (bt_values rows') \<subseteq> set cs \<union> set (bt_values rows)"
proof (rule rfold_invariant [OF assms(1),
      where I = "\<lambda>cs r. keyed key r \<and> meaning ` set (bt_values r) = meaning ` set cs \<union> meaning ` set (bt_values rows)
        \<and> set (bt_values r) \<subseteq> set cs \<union> set (bt_values rows)"])
  fix ys x s s'
  assume I: "keyed key s \<and> meaning ` set (bt_values s) = meaning ` set ys \<union> meaning ` set (bt_values rows)
        \<and> set (bt_values s) \<subseteq> set ys \<union> set (bt_values rows)"
    and "retain_row key meaning conflict x s = Ok s'"
  from retain_row_Ok [OF this(2)] I
  show "keyed key s' \<and> meaning ` set (bt_values s') = meaning ` set (ys @ [x]) \<union> meaning ` set (bt_values rows)
        \<and> set (bt_values s') \<subseteq> set (ys @ [x]) \<union> set (bt_values rows)" by auto
qed (use assms(2) in simp)

lemma retain_row_no_panic: "retain_row key meaning conflict row rows \<noteq> Panic"
  by (simp add: retain_row_def split: option.split)

end
