(* ===== verification/Sys_Column.thy ===== *)
theory Sys_Column
  imports Catalog_Pages
begin

text \<open>
  The column catalog, \<open>crates/openqbw/src/syscolumn.rs\<close>: the self-length-delimited rows, their parser
  on a page body and on a materialized record, and the collection of the materialized catalog with
  its completeness gates. The functions that return an \<open>Option\<close> have the unit as their error.
\<close>

section \<open>Rows\<close>

record sys_column =
  col_name :: string
  col_table :: u32
  col_ordinal :: u32
  col_domain :: u16
  col_marker :: u8
  col_nulls :: u8
  col_width :: u32
  col_scale :: u16
  col_object :: u64
  col_identity :: i64
  col_post_name :: "byte list"
  col_row_length :: u32
  col_row_flags :: u8
  col_page :: u64
  col_trailer :: "u8 option"
  col_row_offset :: nat
  col_tag_offset :: nat

definition syscolumn_tag :: "byte list" where
  "syscolumn_tag = [0x01, 0x52, 0x00, 0x01, 0x00, 0x00, 0x00, 0x00]"

text \<open>\<open>is_ascii_alphanumeric\<close>, \<open>is_ascii_alphabetic\<close> and the underscore, on bytes.\<close>

definition name_head :: "u8 \<Rightarrow> bool" where
  "name_head b \<longleftrightarrow> 65 \<le> b \<and> b \<le> 90 \<or> 97 \<le> b \<and> b \<le> 122 \<or> b = 95"

definition name_tail :: "u8 \<Rightarrow> bool" where
  "name_tail b \<longleftrightarrow> name_head b \<or> 48 \<le> b \<and> b \<le> 57"

text \<open>A read of eight bytes, \<open>from_le_bytes(row[i..i + 8])\<close>.\<close>

definition u64_at :: "byte list \<Rightarrow> nat \<Rightarrow> ('e, u64) outcome" where
  "u64_at input offset = rbind (bytes_at input offset (offset + 8)) read_le"

definition parse_row_at :: "byte list \<Rightarrow> nat \<Rightarrow> u64 \<Rightarrow> (unit, sys_column) outcome" where
  "parse_row_at page row_offset pn =
     rbind (ok_or (get_range page row_offset (row_offset + 4)) ()) (\<lambda>length_bytes.
     rbind (read_le length_bytes) (\<lambda>row_header :: u32.
     let row_len = unat (row_header AND 0x00ffffff); row_flags = ucast (drop_bit 24 row_header) :: u8 in
     rbind (ensure (47 \<le> row_len \<and> row_len \<le> 0xff0 \<and> row_offset + row_len \<le> length page) ()) (\<lambda>_.
     rbind (bytes_at page row_offset (row_offset + row_len)) (\<lambda>row.
     rbind (ok_or (get_at row 38) ()) (\<lambda>name_byte.
     let name_len = unat name_byte; name_end = 39 + name_len; tag_start = row_len - 8 in
     rbind (ensure (1 \<le> name_len \<and> name_len \<le> 128) ()) (\<lambda>_.
     rbind (ensure (name_end \<le> tag_start) ()) (\<lambda>_.
     rbind (bytes_at row 39 name_end) (\<lambda>name_bytes.
     rbind (bytes_at row tag_start row_len) (\<lambda>tag.
     rbind (ensure (list_all name_tail name_bytes \<and> (case name_bytes of b # _ \<Rightarrow> name_head b | [] \<Rightarrow> False)
                     \<and> tag = syscolumn_tag) ()) (\<lambda>_.
     rbind (byte_at row 14) (\<lambda>marker.
     rbind (byte_at row 15) (\<lambda>nulls.
     rbind (ensure (marker = 1 \<and> (nulls = 78 \<or> nulls = 89)) ()) (\<lambda>_.
     rbind (u32_at row 4) (\<lambda>table.
     rbind (u32_at row 8) (\<lambda>ordinal.
     rbind (u16_at row 12) (\<lambda>domain.
     rbind (u32_at row 16) (\<lambda>width.
     rbind (u16_at row 20) (\<lambda>scale.
     rbind (u64_at row 22) (\<lambda>object.
     rbind (u64_at row 30) (\<lambda>identity.
     rbind (bytes_at row name_end tag_start) (\<lambda>post_name.
       Ok \<lparr>col_name = bytes_text name_bytes, col_table = table, col_ordinal = ordinal, col_domain = domain,
           col_marker = marker, col_nulls = nulls, col_width = width, col_scale = scale, col_object = object,
           col_identity = identity, col_post_name = post_name, col_row_length = word_of_nat row_len,
           col_row_flags = row_flags, col_page = pn, col_trailer = None, col_row_offset = row_offset,
           col_tag_offset = row_offset + row_len - 8\<rparr>)))))))))))))))))))))"

text \<open>A materialized record: its own length and the length of the row agree with the record.\<close>

definition parse_materialized_syscolumn_record :: "u64 \<Rightarrow> byte list \<Rightarrow> nat \<Rightarrow> (unit, sys_column) outcome" where
  "parse_materialized_syscolumn_record page_number record_bytes record_offset =
     rbind (ok_or (get_range record_bytes 0 2) ()) (\<lambda>length_bytes.
     rbind (read_le length_bytes) (\<lambda>declared :: u16.
     rbind (ensure (unat declared = length record_bytes) ()) (\<lambda>_.
     rbind (parse_row_at record_bytes 0 page_number) (\<lambda>column.
     rbind (ensure (unat (col_row_length column) = length record_bytes) ()) (\<lambda>_.
     rbind (ensure (record_offset + col_tag_offset column < 2 ^ 64) ()) (\<lambda>_.
       Ok (column\<lparr>col_row_offset := record_offset, col_tag_offset := record_offset + col_tag_offset column\<rparr>)))))))"

definition self_length_bounded_syscolumn_fixed_prefix :: "byte list \<Rightarrow> (u32 \<times> u32) option" where
  "self_length_bounded_syscolumn_fixed_prefix bytes =
     (if length bytes < 12 \<or> unat (le32 bytes 0 AND 0x00ffffff) \<noteq> length bytes then None
      else Some (le32 bytes 4, le32 bytes 8))"

definition scan_materialized_syscolumn_records :: "table_page \<Rightarrow> u64 \<Rightarrow> sys_column list" where
  "scan_materialized_syscolumn_records page page_number =
     List.map_filter (\<lambda>slot. case slot of
         None \<Rightarrow> None
       | Some (offset, bytes) \<Rightarrow>
           (case parse_materialized_syscolumn_record page_number bytes offset of Ok c \<Rightarrow> Some c | _ \<Rightarrow> None))
       (tp_slots page)"

definition parse_rows_in_body :: "byte list \<Rightarrow> u64 \<Rightarrow> sys_column list" where
  "parse_rows_in_body body pn =
     (if length body < 47 then []
      else List.map_filter (\<lambda>row_offset. case parse_row_at body row_offset pn of Ok c \<Rightarrow> Some c | _ \<Rightarrow> None)
             [0..<length body - 47 + 1])"

definition scan_syscolumn_page :: "byte list \<Rightarrow> u64 \<Rightarrow> sys_column list" where
  "scan_syscolumn_page plain pn =
     map (\<lambda>c. c\<lparr>col_trailer := get_at plain (0xff0 + 2)\<rparr>) (parse_rows_in_body (take 0xff0 plain) pn)"

section \<open>The materialized catalog\<close>

text \<open>
  \<open>SysColumnSemanticKey\<close> with its derived order: everything but the physical place. The two signed
  fields are compared as integers.
\<close>

type_synonym semantic_key =
  "string \<times> u32 \<times> u32 \<times> u16 \<times> u8 \<times> u8 \<times> u32 \<times> int \<times> u64 \<times> int \<times> byte list \<times> u32 \<times> u8"

definition semantic_key_of :: "sys_column \<Rightarrow> semantic_key" where
  "semantic_key_of c =
     (col_name c, col_table c, col_ordinal c, col_domain c, col_marker c, col_nulls c, col_width c,
      sint (col_scale c), col_object c, sint (col_identity c), col_post_name c, col_row_length c, col_row_flags c)"

datatype syscolumn_error =
    WrongCarrierTableId u32 u32
  | CarrierPageCountMismatch u32 nat
  | CarrierPageCountOverflow
  | CarrierRowCountMismatch u64 nat
  | CarrierDuplicateRows nat nat
  | ZeroExpectedTargetColumnCount u32
  | TargetCountMismatch u32 u32 nat
  | TargetOrdinalMismatch u32 u32 u32
  | UnparsedColumnRecords nat
  | DivergentColumnCandidates u64
  | AmbiguousColumnCarrier u64
  | ConflictingColumnRow u32 u32 string

type_synonym column_key = "u32 \<times> u32 \<times> string"

record syscolumn_collection =
  cc_columns :: "sys_column list"
  cc_totals :: "(u32 \<times> u32) carrier_totals"

definition column_key_of :: "sys_column \<Rightarrow> column_key" where
  "column_key_of c = (col_table c, col_ordinal c, col_name c)"

definition semantic_rows :: "sys_column list \<Rightarrow> (semantic_key, sys_column) btree" where
  "semantic_rows rows = fold (\<lambda>r m. bt_insert (semantic_key_of r) r m) rows []"

definition retain_column ::
    "sys_column \<Rightarrow> (column_key, sys_column) btree \<Rightarrow> (syscolumn_error, (column_key, sys_column) btree) outcome" where
  "retain_column =
     retain_row column_key_of semantic_key_of
       (\<lambda>row. ConflictingColumnRow (col_table row) (col_ordinal row) (col_name row))"

type_synonym column_state = "(column_key, sys_column) btree \<times> (u32 \<times> u32) carrier_totals"

definition collect_column_page ::
    "page_parser \<Rightarrow> sector_permutation \<Rightarrow> transform_key \<Rightarrow> u64 \<times> byte list \<Rightarrow> column_state \<Rightarrow>
     (syscolumn_error, column_state) outcome" where
  "collect_column_page parse_page permute key page st =
     (case page of (page_number, raw_page) \<Rightarrow> case st of (rows, totals) \<Rightarrow>
        case materialize_candidates_with_key parse_page permute raw_page page_number key of
          Err e \<Rightarrow> Ok (rows, totals\<lparr>ct_skipped := record_catalog_skip e (ct_skipped totals)\<rparr>)
        | Panic \<Rightarrow> Panic
        | Ok candidates \<Rightarrow>
            rbind (map_err (\<lambda>_. AmbiguousColumnCarrier page_number) (carrier_choice parse_page 2 candidates)) (\<lambda>carrier.
            if \<not> carrier then Ok st
            else
              rbind (rmap (carrier_page_of 12 self_length_bounded_syscolumn_fixed_prefix
                            (parse_materialized_syscolumn_record page_number)) candidates) (\<lambda>decoded.
              case decoded of
                [] \<Rightarrow> Ok st
              | first # _ \<Rightarrow>
                  let semantic = map (\<lambda>p. semantic_rows (cpg_rows p)) decoded in
                  if \<not> all_windows (\<lambda>x y. bt_keys x = bt_keys y) semantic \<or> \<not> all_windows same_counts decoded
                  then Err (DivergentColumnCandidates page_number)
                  else
                    rbind (rfold retain_column (bt_values (semantic_rows (cpg_rows first))) rows) (\<lambda>rows.
                      Ok (rows, add_carrier_page first totals)))))"

definition collect_materialized_syscolumns ::
    "page_parser \<Rightarrow> sector_permutation \<Rightarrow> transform_key \<Rightarrow> (u64 \<times> byte list) list \<Rightarrow>
     (syscolumn_error, syscolumn_collection) outcome" where
  "collect_materialized_syscolumns parse_page permute key store =
     rbind (rfold (collect_column_page parse_page permute key) store ([], no_totals)) (\<lambda>(rows, totals).
       Ok \<lparr>cc_columns = bt_values rows, cc_totals = totals\<rparr>)"

definition require_no_unparsed_column_records :: "syscolumn_collection \<Rightarrow> (syscolumn_error, unit) outcome" where
  "require_no_unparsed_column_records c =
     ensure (ct_unparsed (cc_totals c) = 0) (UnparsedColumnRecords (ct_unparsed (cc_totals c)))"

text \<open>The ordinals 1, 2, 3, ...; the offset fits because the number of columns is a \<open>u32\<close>.\<close>

definition check_ordinal :: "(u32 \<Rightarrow> u32 \<Rightarrow> 'e) \<Rightarrow> nat \<times> sys_column \<Rightarrow> ('e, unit) outcome" where
  "check_ordinal mismatch ic =
     (case ic of (offset, column) \<Rightarrow>
        rbind (or_panic (if offset + 1 < 2 ^ 32 then Some (word_of_nat (offset + 1)) else None)) (\<lambda>expected.
          ensure (col_ordinal column = expected) (mismatch expected (col_ordinal column))))"

definition complete_materialized_schema_columns ::
    "syscolumn_collection \<Rightarrow> u32 \<Rightarrow> u32 \<Rightarrow> (syscolumn_error, sys_column list) outcome" where
  "complete_materialized_schema_columns c table_id expected_count =
     (if expected_count = 0 then Err (ZeroExpectedTargetColumnCount table_id)
      else
        let columns = sort_key (\<lambda>c. (col_ordinal c, col_name c)) (filter (\<lambda>c. col_table c = table_id) (cc_columns c)) in
        if length columns \<noteq> unat expected_count
        then Err (TargetCountMismatch table_id expected_count (length columns))
        else
          rbind (rfold (\<lambda>ic _. check_ordinal (TargetOrdinalMismatch table_id) ic) (enumerate 0 columns) ())
            (\<lambda>_. Ok columns))"

section \<open>What the parsers accept\<close>

lemma u64_at_no_panic [no_panic]: "i + 8 \<le> length input \<Longrightarrow> u64_at input i \<noteq> Panic"
  by (simp add: u64_at_def bytes_at_eq read_le_def)

lemma read_le_no_panic [no_panic]: "8 * length bs = LENGTH('a) \<Longrightarrow> (read_le bs :: ('e, 'a::len word) outcome) \<noteq> Panic"
  by (simp add: read_le_def)

lemma parse_row_at_no_panic [no_panic]: "parse_row_at page row_offset pn \<noteq> Panic"
  unfolding parse_row_at_def Let_def
  by (intro no_panic) (auto simp: outcome_simps get_range_Some_iff get_at_def bytes_at_eq split: if_splits)

lemma parse_materialized_syscolumn_no_panic: "parse_materialized_syscolumn_record n bytes offset \<noteq> Panic"
  unfolding parse_materialized_syscolumn_record_def
  by (intro no_panic) (auto simp: outcome_simps get_range_Some_iff)

end
