(* ===== verification/Column_Facts.thy ===== *)
theory Column_Facts
  imports Sys_Column
begin

text \<open>
  The column rows and the collected column catalog: the parser accepts exactly the encodings of
  well-formed rows, the collection has one row for each key and classifies every slot, and a
  completed schema is the whole table in order.
\<close>

section \<open>The encoding of a row\<close>

lemma header_fields:
  "unat (h AND 0x00ffffff :: u32) = unat h mod 2 ^ 24"
  "unat (ucast (drop_bit 24 h) :: u8) = unat h div 2 ^ 24"
proof -
  have "(0x00ffffff :: u32) = mask 24" by (simp add: mask_eq_exp_minus_1)
  then have "h AND 0x00ffffff = take_bit 24 h" by (simp add: take_bit_eq_mask)
  then show "unat (h AND 0x00ffffff) = unat h mod 2 ^ 24" 
    by (simp only: unsigned_take_bit_eq) (simp only: take_bit_eq_mod)
  have "unat h div 2 ^ 24 < 2 ^ 8" using unsigned_less [of h] by (simp add: div_less_iff_less_mult)
  then show "unat (ucast (drop_bit 24 h) :: u8) = unat h div 2 ^ 24"
    by (simp only: unsigned_ucast_eq unsigned_drop_bit_eq) (simp add: drop_bit_eq_div take_bit_nat_eq_self)
qed

definition row_header :: "nat \<Rightarrow> u8 \<Rightarrow> u32" where
  "row_header n flags = word_of_nat (n + unat flags * 2 ^ 24)"

lemma row_header_fields:
  assumes "n < 2 ^ 24"
  shows "unat (row_header n flags AND 0x00ffffff) = n" and "ucast (drop_bit 24 (row_header n flags)) = flags"
proof -
  have "n + unat flags * 2 ^ 24 < 2 ^ 32" using assms unat_byte_less [of flags] by simp
  then have h: "unat (row_header n flags) = n + unat flags * 2 ^ 24"
    unfolding row_header_def unat_of_nat by (intro mod_less) simp
  show "unat (row_header n flags AND 0x00ffffff) = n" using assms by (simp add: header_fields h)
  have "unat (ucast (drop_bit 24 (row_header n flags)) :: u8) = unat flags" using assms
    unfolding header_fields h by (simp add: div_mult_self3)
  then show "ucast (drop_bit 24 (row_header n flags)) = flags" by (rule unsigned_word_eqI)
qed

lemma row_header_of: "row_header (unat (h AND 0x00ffffff)) (ucast (drop_bit 24 h)) = h"
  unfolding row_header_def header_fields by (simp add: mod_mult_div_eq mult.commute)

definition column_bytes :: "sys_column \<Rightarrow> byte list" where
  "column_bytes c =
     to_le_bytes (row_header (unat (col_row_length c)) (col_row_flags c)) @ to_le_bytes (col_table c)
     @ to_le_bytes (col_ordinal c) @ to_le_bytes (col_domain c) @ [col_marker c, col_nulls c]
     @ to_le_bytes (col_width c) @ to_le_bytes (col_scale c) @ to_le_bytes (col_object c)
     @ to_le_bytes (col_identity c) @ [word_of_nat (length (col_name c))] @ map (\<lambda>x. word_of_nat (of_char x)) (col_name c)
     @ col_post_name c @ syscolumn_tag"

definition wf_column :: "sys_column \<Rightarrow> bool" where
  "wf_column c \<longleftrightarrow>
     unat (col_row_length c) = 47 + length (col_name c) + length (col_post_name c)
     \<and> unat (col_row_length c) \<le> 0xff0 \<and> length (col_name c) \<le> 128
     \<and> (\<exists>b bs. map (\<lambda>x. word_of_nat (of_char x)) (col_name c) = b # bs \<and> name_head b \<and> list_all name_tail (b # bs))
     \<and> col_marker c = 1 \<and> (col_nulls c = 78 \<or> col_nulls c = 89)"

lemma length_column_bytes: "wf_column c \<Longrightarrow> length (column_bytes c) = unat (col_row_length c)"
  by (simp add: column_bytes_def wf_column_def syscolumn_tag_def)

text \<open>The place of a row, which its encoding does not hold.\<close>

definition placed :: "nat \<Rightarrow> u64 \<Rightarrow> sys_column \<Rightarrow> bool" where
  "placed row_offset pn c \<longleftrightarrow>
     col_page c = pn \<and> col_trailer c = None \<and> col_row_offset c = row_offset
     \<and> col_tag_offset c = row_offset + unat (col_row_length c) - 8"

lemma name_bytes_text: "map (\<lambda>x. word_of_nat (of_char x)) (bytes_text bs) = (bs :: byte list)"
  by (induction bs) (simp_all add: bytes_text_def unat_byte_less)

lemma bytes_text_name: "bytes_text (map (\<lambda>x. word_of_nat (of_char x)) s) = s"
  by (induction s) (simp_all add: bytes_text_def unat_of_nat)

lemma split_at: "drop i row = take n (drop i row) @ drop (i + n) row"
  by (metis append_take_drop_id drop_drop add.commute)

lemma le_bytes_of_slices:
  "i + 2 \<le> length row \<Longrightarrow> to_le_bytes (le16 row i) = take 2 (drop i row)"
  "i + 4 \<le> length row \<Longrightarrow> to_le_bytes (le32 row i) = take 4 (drop i row)"
  "i + 8 \<le> length row \<Longrightarrow> to_le_bytes (from_le_bytes (take 8 (drop i row)) :: u64) = take 8 (drop i row)"
  unfolding le16_def le32_def by (rule to_from_le_bytes; simp)+

lemma u64_at_Ok: "u64_at row i = Ok v \<longleftrightarrow> i + 8 \<le> length row \<and> v = from_le_bytes (take 8 (drop i row))"
  by (auto simp: u64_at_def bytes_at_eq read_le_def outcome_simps)

lemma read_le_Ok: "read_le bs = Ok (v :: 'a::len word) \<longleftrightarrow> 8 * length bs = LENGTH('a) \<and> v = from_le_bytes bs"
  by (auto simp: read_le_def)

lemma byte_at_Ok: "byte_at input i = Ok b \<longleftrightarrow> i < length input \<and> b = input ! i"
  by (auto simp: byte_at_eq)

lemma uints_at_Ok:
  "u16_at input i = Ok v \<longleftrightarrow> i + 2 \<le> length input \<and> v = le16 input i"
  "u32_at input i = Ok w \<longleftrightarrow> i + 4 \<le> length input \<and> w = le32 input i"
  by (auto simp: u16_at_eq u32_at_eq)

lemma bytes_at_Ok: "bytes_at input i j = Ok bs \<longleftrightarrow> get_range input i j = Some bs"
  by (simp add: bytes_at_def outcome_simps)

lemma starts_with_iff: "(case bs of b # _ \<Rightarrow> P b | [] \<Rightarrow> False) \<longleftrightarrow> (\<exists>b rest. bs = b # rest \<and> P b)"
  by (cases bs) auto

lemmas read_Ok_iffs = rbind_Ok_iff ensure_iff ok_or_iff read_le_Ok byte_at_Ok uints_at_Ok u64_at_Ok bytes_at_Ok

text \<open>The fields of an accepted row, read at their places.\<close>

lemma parse_row_at_fields:
  assumes "parse_row_at page row_offset pn = Ok c"
  obtains row name_bytes where
    "get_range page row_offset (row_offset + length row) = Some row"
    and "length row = unat (le32 row 0 AND 0x00ffffff)" and "47 \<le> length row" and "length row \<le> 0xff0"
    and "get_range row 39 (39 + length name_bytes) = Some name_bytes" and "row ! 38 = word_of_nat (length name_bytes)"
    and "length name_bytes \<le> 128" and "39 + length name_bytes \<le> length row - 8"
    and "get_range row (length row - 8) (length row) = Some syscolumn_tag"
    and "list_all name_tail name_bytes" and "\<exists>b bs. name_bytes = b # bs \<and> name_head b"
    and "row ! 14 = 1" and "row ! 15 = 78 \<or> row ! 15 = 89"
    and "c = \<lparr>col_name = bytes_text name_bytes, col_table = le32 row 4, col_ordinal = le32 row 8,
           col_domain = le16 row 12, col_marker = row ! 14, col_nulls = row ! 15, col_width = le32 row 16,
           col_scale = le16 row 20, col_object = from_le_bytes (take 8 (drop 22 row)),
           col_identity = from_le_bytes (take 8 (drop 30 row)),
           col_post_name = take (length row - 8 - (39 + length name_bytes)) (drop (39 + length name_bytes) row),
           col_row_length = word_of_nat (length row), col_row_flags = ucast (drop_bit 24 (le32 row 0)),
           col_page = pn, col_trailer = None, col_row_offset = row_offset,
           col_tag_offset = row_offset + length row - 8\<rparr>"
proof -
  obtain lb hdr row nl name_bytes tag table ordinal domain width scale object identity post where
    lb: "get_range page row_offset (row_offset + 4) = Some lb" and hdr: "hdr = (from_le_bytes lb :: u32)"
    and L: "47 \<le> unat (hdr AND 0x00ffffff)" "unat (hdr AND 0x00ffffff) \<le> 0xff0"
    and row: "get_range page row_offset (row_offset + unat (hdr AND 0x00ffffff)) = Some row"
    and nl: "get_at row 38 = Some nl" "1 \<le> unat nl" "unat nl \<le> 128"
      "39 + unat nl \<le> unat (hdr AND 0x00ffffff) - 8"
    and name: "get_range row 39 (39 + unat nl) = Some name_bytes"
    and tag: "get_range row (unat (hdr AND 0x00ffffff) - 8) (unat (hdr AND 0x00ffffff)) = Some tag"
    and chk: "list_all name_tail name_bytes" "\<exists>b bs. name_bytes = b # bs \<and> name_head b" "tag = syscolumn_tag"
    and mk: "row ! 14 = 1" "row ! 15 = 78 \<or> row ! 15 = 89"
    and fields: "table = le32 row 4" "ordinal = le32 row 8" "domain = le16 row 12" "width = le32 row 16"
      "scale = le16 row 20" "object = from_le_bytes (take 8 (drop 22 row))"
      "identity = from_le_bytes (take 8 (drop 30 row))"
    and post: "get_range row (39 + unat nl) (unat (hdr AND 0x00ffffff) - 8) = Some post"
    and c: "c = \<lparr>col_name = bytes_text name_bytes, col_table = table, col_ordinal = ordinal,
           col_domain = domain, col_marker = row ! 14, col_nulls = row ! 15, col_width = width,
           col_scale = scale, col_object = object, col_identity = identity, col_post_name = post,
           col_row_length = word_of_nat (unat (hdr AND 0x00ffffff)), col_row_flags = ucast (drop_bit 24 hdr),
           col_page = pn, col_trailer = None, col_row_offset = row_offset,
           col_tag_offset = row_offset + unat (hdr AND 0x00ffffff) - 8\<rparr>"
    using assms unfolding parse_row_at_def Let_def read_Ok_iffs starts_with_iff by blast
  define L where "L = unat (hdr AND 0x00ffffff)"
  show thesis
  proof (rule that [of row name_bytes])
    have len: "length row = L" using row by (auto simp: get_range_Some_iff L_def)
    have "take 4 row = lb" using row lb L by (auto simp: get_range_Some_iff)
    then have h: "le32 row 0 = hdr" by (simp add: le32_def hdr)
    have nn: "length name_bytes = unat nl" using name by (auto simp: get_range_Some_iff)
    show "get_range page row_offset (row_offset + length row) = Some row" using row len by (simp add: L_def)
    show "length row = unat (le32 row 0 AND 0x00ffffff)" using len h by (simp add: L_def)
    show "row ! 38 = word_of_nat (length name_bytes)" using nl(1) nn by (auto simp: get_at_def split: if_splits)
    show "c = \<lparr>col_name = bytes_text name_bytes, col_table = le32 row 4, col_ordinal = le32 row 8,
           col_domain = le16 row 12, col_marker = row ! 14, col_nulls = row ! 15, col_width = le32 row 16,
           col_scale = le16 row 20, col_object = from_le_bytes (take 8 (drop 22 row)),
           col_identity = from_le_bytes (take 8 (drop 30 row)),
           col_post_name = take (length row - 8 - (39 + length name_bytes)) (drop (39 + length name_bytes) row),
           col_row_length = word_of_nat (length row), col_row_flags = ucast (drop_bit 24 (le32 row 0)),
           col_page = pn, col_trailer = None, col_row_offset = row_offset,
           col_tag_offset = row_offset + length row - 8\<rparr>"
      using c post len nn h fields by (simp add: get_range_Some_iff L_def)
    show "get_range row 39 (39 + length name_bytes) = Some name_bytes" using name nn by simp
    show "get_range row (length row - 8) (length row) = Some syscolumn_tag" using tag chk(3) len by (simp add: L_def)
    show "47 \<le> length row" "length row \<le> 0xff0" "39 + length name_bytes \<le> length row - 8" "length name_bytes \<le> 128"
      using L nl nn len by (simp_all add: L_def)
  qed (fact chk mk)+
qed

lemma row_parts:
  assumes "47 \<le> length (row :: byte list)"
  shows "row = take 4 row @ take 4 (drop 4 row) @ take 4 (drop 8 row) @ take 2 (drop 12 row) @ [row ! 14, row ! 15]
     @ take 4 (drop 16 row) @ take 2 (drop 20 row) @ take 8 (drop 22 row) @ take 8 (drop 30 row) @ [row ! 38]
     @ drop 39 row"
proof -
  have one: "drop i row = row ! i # drop (Suc i) row" if "i < 47" for i
    using that assms by (simp add: Cons_nth_drop_Suc)
  have "row = take 4 row @ drop 4 row" by simp
  also have "drop 4 row = take 4 (drop 4 row) @ drop 8 row" using split_at [of 4 row 4] by simp
  also have "drop 8 row = take 4 (drop 8 row) @ drop 12 row" using split_at [of 8 row 4] by simp
  also have "drop 12 row = take 2 (drop 12 row) @ drop 14 row" using split_at [of 12 row 2] by simp
  also have "drop 14 row = [row ! 14, row ! 15] @ drop 16 row" using one [of 14] one [of 15] by simp
  also have "drop 16 row = take 4 (drop 16 row) @ drop 20 row" using split_at [of 16 row 4] by simp
  also have "drop 20 row = take 2 (drop 20 row) @ drop 22 row" using split_at [of 20 row 2] by simp
  also have "drop 22 row = take 8 (drop 22 row) @ drop 30 row" using split_at [of 22 row 8] by simp
  also have "drop 30 row = take 8 (drop 30 row) @ drop 38 row" using split_at [of 30 row 8] by simp
  also have "drop 38 row = [row ! 38] @ drop 39 row" using one [of 38] by simp
  finally show ?thesis by (simp only: append_assoc)
qed

lemma parse_row_at_Ok:
  assumes "parse_row_at page row_offset pn = Ok c"
  shows "wf_column c" and "placed row_offset pn c"
    and "get_range page row_offset (row_offset + unat (col_row_length c)) = Some (column_bytes c)"
proof -
  obtain row nb where page: "get_range page row_offset (row_offset + length row) = Some row"
    and len: "length row = unat (le32 row 0 AND 0x00ffffff)" "47 \<le> length row" "length row \<le> 0xff0"
    and nb: "get_range row 39 (39 + length nb) = Some nb" "row ! 38 = word_of_nat (length nb)"
      "length nb \<le> 128" "39 + length nb \<le> length row - 8"
    and tag: "get_range row (length row - 8) (length row) = Some syscolumn_tag"
    and chk: "list_all name_tail nb" "\<exists>b bs. nb = b # bs \<and> name_head b"
    and mk: "row ! 14 = 1" "row ! 15 = 78 \<or> row ! 15 = 89"
    and c: "c = \<lparr>col_name = bytes_text nb, col_table = le32 row 4, col_ordinal = le32 row 8,
           col_domain = le16 row 12, col_marker = row ! 14, col_nulls = row ! 15, col_width = le32 row 16,
           col_scale = le16 row 20, col_object = from_le_bytes (take 8 (drop 22 row)),
           col_identity = from_le_bytes (take 8 (drop 30 row)),
           col_post_name = take (length row - 8 - (39 + length nb)) (drop (39 + length nb) row),
           col_row_length = word_of_nat (length row), col_row_flags = ucast (drop_bit 24 (le32 row 0)),
           col_page = pn, col_trailer = None, col_row_offset = row_offset,
           col_tag_offset = row_offset + length row - 8\<rparr>"
    using parse_row_at_fields [OF assms] by metis
  have rl: "unat (word_of_nat (length row) :: u32) = length row" using len(3) by (simp add: unat_of_nat)
  have nl: "length (bytes_text nb) = length nb" by (simp add: bytes_text_def)
  have "0 < length nb" using chk(2) by auto
  show "wf_column c"
    unfolding wf_column_def c
    using nb(3,4) len chk mk \<open>0 < length nb\<close> by (simp add: rl nl name_bytes_text) auto
  show "placed row_offset pn c" by (simp add: placed_def c rl)
  let ?post = "take (length row - 8 - (39 + length nb)) (drop (39 + length nb) row)"
  have "drop 39 row = nb @ drop (39 + length nb) row"
    using nb(1) split_at [of 39 row "length nb"] by (simp add: get_range_Some_iff)
  also have "drop (39 + length nb) row = ?post @ drop (length row - 8) row"
    using split_at [of "39 + length nb" row "length row - 8 - (39 + length nb)"] nb(4) by simp
  also have "drop (length row - 8) row = syscolumn_tag" using tag len by (simp add: get_range_Some_iff)
  finally have tail: "drop 39 row = nb @ ?post @ syscolumn_tag" .
  have hdr: "row_header (length row) (ucast (drop_bit 24 (le32 row 0))) = le32 row 0"
    unfolding len(1) by (rule row_header_of)
  have z: "take 4 (drop 0 row) = take 4 row" by simp
  have slices: "to_le_bytes (le32 row 0) = take 4 row" "to_le_bytes (le32 row 4) = take 4 (drop 4 row)"
    "to_le_bytes (le32 row 8) = take 4 (drop 8 row)" "to_le_bytes (le16 row 12) = take 2 (drop 12 row)"
    "to_le_bytes (le32 row 16) = take 4 (drop 16 row)" "to_le_bytes (le16 row 20) = take 2 (drop 20 row)"
    "to_le_bytes (from_le_bytes (take 8 (drop 22 row)) :: u64) = take 8 (drop 22 row)"
    "to_le_bytes (from_le_bytes (take 8 (drop 30 row)) :: u64) = take 8 (drop 30 row)"
    using le_bytes_of_slices(2) [of 0 row] le_bytes_of_slices(2) [of 4 row] le_bytes_of_slices(2) [of 8 row]
      le_bytes_of_slices(1) [of 12 row] le_bytes_of_slices(2) [of 16 row] le_bytes_of_slices(1) [of 20 row]
      le_bytes_of_slices(3) [of 22 row] le_bytes_of_slices(3) [of 30 row] len(2) z
    by simp_all
  have "column_bytes c = take 4 row @ take 4 (drop 4 row) @ take 4 (drop 8 row) @ take 2 (drop 12 row)
     @ [row ! 14, row ! 15] @ take 4 (drop 16 row) @ take 2 (drop 20 row) @ take 8 (drop 22 row)
     @ take 8 (drop 30 row) @ [row ! 38] @ drop 39 row"
    unfolding column_bytes_def c tail nb(2)
    by (simp only: sys_column.simps rl hdr slices nl name_bytes_text)
  also have "\<dots> = row" by (rule row_parts [OF len(2), symmetric])
  finally have "column_bytes c = row" .
  with page show "get_range page row_offset (row_offset + unat (col_row_length c)) = Some (column_bytes c)"
    by (simp add: c rl)
qed

lemma column_bytes_reads:
  assumes "wf_column c"
  defines "row \<equiv> column_bytes c"
  shows "le32 row 0 = row_header (unat (col_row_length c)) (col_row_flags c)"
    and "le32 row 4 = col_table c" and "le32 row 8 = col_ordinal c" and "le16 row 12 = col_domain c"
    and "row ! 14 = col_marker c" and "row ! 15 = col_nulls c"
    and "le32 row 16 = col_width c" and "le16 row 20 = col_scale c"
    and "from_le_bytes (take 8 (drop 22 row)) = col_object c"
    and "from_le_bytes (take 8 (drop 30 row)) = col_identity c"
    and "row ! 38 = word_of_nat (length (col_name c))"
    and "drop 39 row = map (\<lambda>x. word_of_nat (of_char x)) (col_name c) @ col_post_name c @ syscolumn_tag"
  unfolding row_def column_bytes_def
  by (simp_all add: le32_def le16_def nth_append from_to_le_bytes)

lemma parse_row_at_intro:
  assumes lb: "get_range page row_offset (row_offset + 4) = Some lb" "length lb = 4" "from_le_bytes lb = hdr"
    and n: "unat (hdr AND 0x00ffffff :: u32) = n" "47 \<le> n" "n \<le> 0xff0"
    and row: "get_range page row_offset (row_offset + n) = Some row" "length row = n"
    and nb: "get_at row 38 = Some nbyte" "unat nbyte = k" "1 \<le> k" "k \<le> 128" "39 + k \<le> n - 8"
      "get_range row 39 (39 + k) = Some name" "list_all name_tail name" "name = b # bs" "name_head b"
    and tag: "get_range row (n - 8) n = Some syscolumn_tag" and post: "get_range row (39 + k) (n - 8) = Some post"
    and mk: "row ! 14 = 1" "row ! 15 = 78 \<or> row ! 15 = 89"
  shows "parse_row_at page row_offset pn = Ok \<lparr>col_name = bytes_text name, col_table = le32 row 4,
      col_ordinal = le32 row 8, col_domain = le16 row 12, col_marker = row ! 14, col_nulls = row ! 15,
      col_width = le32 row 16, col_scale = le16 row 20, col_object = from_le_bytes (take 8 (drop 22 row)),
      col_identity = from_le_bytes (take 8 (drop 30 row)), col_post_name = post,
      col_row_length = word_of_nat n, col_row_flags = ucast (drop_bit 24 hdr), col_page = pn, col_trailer = None,
      col_row_offset = row_offset, col_tag_offset = row_offset + n - 8\<rparr>"
proof -
  have w: "hdr AND 0x00ffffff = word_of_nat n" unfolding n(1) [symmetric] by simp
  have "row_offset + n \<le> length page" using row by (auto simp: get_range_Some_iff)
  moreover have "(u64_at row 22 :: (unit, u64) outcome) = Ok (from_le_bytes (take 8 (drop 22 row)))"
    "(u64_at row 30 :: (unit, u64) outcome) = Ok (from_le_bytes (take 8 (drop 30 row)))"
    using n row by (simp_all add: u64_at_Ok)
  ultimately show ?thesis
    unfolding parse_row_at_def Let_def
    using lb n row nb tag post mk by (simp add: read_le_def ensure_def ok_or_def bytes_at_def or_panic_def)
      (simp only: w)
qed

lemma parse_row_at_column_bytes:
  assumes wf: "wf_column c" and pl: "placed row_offset pn c"
    and slice: "get_range page row_offset (row_offset + unat (col_row_length c)) = Some (column_bytes c)"
  shows "parse_row_at page row_offset pn = Ok c"
proof -
  let ?row = "column_bytes c" and ?n = "unat (col_row_length c)" and ?k = "length (col_name c)"
  let ?name = "map (\<lambda>x. word_of_nat (of_char x)) (col_name c) :: byte list"
  have n: "?n = 47 + ?k + length (col_post_name c)" "?n \<le> 0xff0" "?k \<le> 128"
    using wf by (simp_all add: wf_column_def)
  have name: "\<exists>b bs. ?name = b # bs \<and> name_head b" "list_all name_tail ?name" "0 < ?k"
    using wf by (auto simp: wf_column_def)
  have mk: "col_marker c = 1" "col_nulls c = 78 \<or> col_nulls c = 89" using wf by (simp_all add: wf_column_def)
  note reads = column_bytes_reads [OF wf]
  have len: "length ?row = ?n" by (rule length_column_bytes [OF wf])
  have page: "row_offset + ?n \<le> length page" "take ?n (drop row_offset page) = ?row"
    using slice by (auto simp: get_range_Some_iff)
  have hd: "from_le_bytes (take 4 (drop row_offset page)) = row_header ?n (col_row_flags c)"
  proof -
    have "take 4 (drop row_offset page) = take 4 ?row" using page n by (simp flip: page(2) add: min_def)
    then show ?thesis using reads(1) by (simp add: le32_def)
  qed
  have hdr: "unat (row_header ?n (col_row_flags c) AND 0x00ffffff) = ?n"
    "ucast (drop_bit 24 (row_header ?n (col_row_flags c))) = col_row_flags c"
    using n(2) by (simp_all add: row_header_fields)
  have k: "unat (word_of_nat ?k :: u8) = ?k" using n(3) by (simp add: unat_of_nat)
  have k38: "get_at ?row 38 = Some (word_of_nat ?k)" using reads(11) len n by (simp add: get_at_def)
  have parts: "get_range ?row 39 (39 + ?k) = Some ?name"
    "get_range ?row (39 + ?k) (?n - 8) = Some (col_post_name c)"
    "get_range ?row (?n - 8) ?n = Some syscolumn_tag"
  proof -
    have d: "drop (39 + i) ?row = drop i (?name @ col_post_name c @ syscolumn_tag)" for i
      using reads(12) by (metis drop_drop add.commute)
    show "get_range ?row 39 (39 + ?k) = Some ?name" using d [of 0] len n by (simp add: get_range_Some_iff)
    show "get_range ?row (39 + ?k) (?n - 8) = Some (col_post_name c)"
      using d [of ?k] len n by (simp add: get_range_Some_iff)
    have "?n - 8 = 39 + (?k + length (col_post_name c))" using n by simp
    then show "get_range ?row (?n - 8) ?n = Some syscolumn_tag"
      using d [of "?k + length (col_post_name c)"] len n by (simp add: get_range_Some_iff syscolumn_tag_def)
  qed
  have "parse_row_at page row_offset pn = Ok \<lparr>col_name = bytes_text ?name, col_table = le32 ?row 4,
      col_ordinal = le32 ?row 8, col_domain = le16 ?row 12, col_marker = ?row ! 14, col_nulls = ?row ! 15,
      col_width = le32 ?row 16, col_scale = le16 ?row 20, col_object = from_le_bytes (take 8 (drop 22 ?row)),
      col_identity = from_le_bytes (take 8 (drop 30 ?row)), col_post_name = col_post_name c,
      col_row_length = word_of_nat ?n, col_row_flags = col_row_flags c, col_page = pn, col_trailer = None,
      col_row_offset = row_offset, col_tag_offset = row_offset + ?n - 8\<rparr>"
  proof -
    have "get_range page row_offset (row_offset + 4) = Some (take 4 (drop row_offset page))"
      using page n by (simp add: get_range_Some_iff)
    moreover have "length (take 4 (drop row_offset page)) = 4" using page n by simp
    moreover obtain b bs where "?name = b # bs" "name_head b" using name(1) by metis
    ultimately show ?thesis
      using parse_row_at_intro [OF _ _ hd hdr(1) _ n(2) slice len k38 k _ n(3) _ parts(1) name(2) _ _ parts(3) parts(2)]
        n name(3) reads(5,6) mk hdr(2) by simp
  qed
  also have "\<dots> = Ok c"
    using pl by (simp add: placed_def reads bytes_text_name)
  finally show ?thesis .
qed

section \<open>The collected catalog\<close>

text \<open>What the rows say.\<close>

abbreviation meanings :: "sys_column list \<Rightarrow> semantic_key set" where
  "meanings rows \<equiv> semantic_key_of ` set rows"

lemma semantic_rows_meanings: "meanings (bt_values (semantic_rows cs)) = meanings cs"
  using keyed_fold [of semantic_key_of "[]" cs] by (simp add: semantic_rows_def bt_values_def)

text \<open>
  The column rows of a page under a key: the accepted records of its first candidate, when its
  candidates are the carrier. This is the scan of the source for one materialized page.
\<close>

lemma scan_is_accepted_rows:
  "scan_materialized_syscolumn_records page n
     = accepted_rows (\<lambda>bytes offset. parse_materialized_syscolumn_record n bytes offset) (tp_slots page)"
  by (simp add: scan_materialized_syscolumn_records_def accepted_rows_def)

definition page_columns ::
    "page_parser \<Rightarrow> sector_permutation \<Rightarrow> transform_key \<Rightarrow> u64 \<times> byte list \<Rightarrow> sys_column list" where
  "page_columns parse_page permute key page =
     (case materialize_candidates_with_key parse_page permute (snd page) (fst page) key of
        Ok (first # rest) \<Rightarrow>
          (case carrier_choice parse_page 2 (first # rest) of
             Ok True \<Rightarrow> scan_materialized_syscolumn_records (em_view first) (fst page)
           | _ \<Rightarrow> [])
      | _ \<Rightarrow> [])"

lemma collect_column_page_Ok:
  assumes "collect_column_page parse_page permute key page (rows, totals) = Ok (rows', totals')"
    and "keyed column_key_of rows" and "classified_totals totals"
  shows "keyed column_key_of rows' \<and> classified_totals totals'
    \<and> meanings (bt_values rows') = meanings (page_columns parse_page permute key page) \<union> meanings (bt_values rows)"
proof -
  obtain n raw where page: "page = (n, raw)" by (cases page)
  note f = assms(1) [unfolded collect_column_page_def page prod.case]
  show ?thesis
  proof (cases "materialize_candidates_with_key parse_page permute raw n key")
    case (Err e)
    with f assms(2,3) show ?thesis by (auto simp: page page_columns_def classified_totals_def)
  next
    case Panic
    with f show ?thesis by simp
  next
    case (Ok candidates)
    show ?thesis
    proof (cases "carrier_choice parse_page 2 candidates")
      case (Ok carrier)
      note m = \<open>materialize_candidates_with_key _ _ _ _ _ = Ok candidates\<close> Ok
      show ?thesis
      proof (cases "carrier \<and> candidates \<noteq> []")
        case False
        then have "rows' = rows \<and> totals' = totals" using f m by (cases carrier) (auto simp: outcome_simps)
        moreover have "page_columns parse_page permute key page = []"
          using False m by (cases candidates) (auto simp: page page_columns_def)
        ultimately show ?thesis using assms(2,3) by simp
      next
        case True
        then obtain c cs where c: "candidates = c # cs" by (cases candidates) auto
        obtain first rest where first: "carrier_page_of 12 self_length_bounded_syscolumn_fixed_prefix
              (parse_materialized_syscolumn_record n) c = (Ok first :: (syscolumn_error, _) outcome)"
          and r: "rfold retain_column (bt_values (semantic_rows (cpg_rows first))) rows = Ok rows'"
          and t: "totals' = add_carrier_page first totals"
          using f m True c by (auto simp: outcome_simps Let_def split: if_splits)
        have "cpg_rows first = page_columns parse_page permute key page"
          using carrier_page_rows_eq [OF first] m True c
          by (simp add: page page_columns_def scan_is_accepted_rows)
        moreover have "classified_totals totals'"
          unfolding t using assms(3) carrier_page_classified(1) [OF first] by (rule add_carrier_classified)
        ultimately show ?thesis
          using retain_rows_Ok [OF r [unfolded retain_column_def] assms(2)] by (simp add: semantic_rows_meanings)
      qed
    qed (use f Ok in simp_all)
  qed
qed

lemma collected_syscolumns:
  assumes "collect_materialized_syscolumns parse_page permute key store = Ok c"
  shows "sorted_wrt (<) (map column_key_of (cc_columns c))" and "classified_totals (cc_totals c)"
    and "meanings (cc_columns c) = (\<Union>page\<in>set store. meanings (page_columns parse_page permute key page))"
proof -
  obtain rows totals where
    f: "rfold (collect_column_page parse_page permute key) store ([], no_totals) = Ok (rows, totals)"
    and c: "c = \<lparr>cc_columns = bt_values rows, cc_totals = totals\<rparr>"
    using assms by (auto simp: collect_materialized_syscolumns_def outcome_simps)
  let ?I = "\<lambda>ps st. keyed column_key_of (fst st) \<and> classified_totals (snd st)
    \<and> meanings (bt_values (fst st)) = (\<Union>page\<in>set ps. meanings (page_columns parse_page permute key page))"
  have "?I store (rows, totals)"
  proof (rule rfold_invariant [OF f, where I = ?I])
    fix ps page st st'
    assume "?I ps st" and "collect_column_page parse_page permute key page st = Ok st'"
    then show "?I (ps @ [page]) st'"
      using collect_column_page_Ok [of parse_page permute key page "fst st" "snd st" "fst st'" "snd st'"] by auto
  qed (simp add: no_totals_classified bt_values_def)
  then show "sorted_wrt (<) (map column_key_of (cc_columns c))" and "classified_totals (cc_totals c)"
    and "meanings (cc_columns c) = (\<Union>page\<in>set store. meanings (page_columns parse_page permute key page))"
    by (simp_all add: c keyed_sorted)
qed

section \<open>Completed schemas\<close>

lemma check_ordinals_Ok:
  assumes "i + length cs < 2 ^ 32"
  shows "rfold (\<lambda>ic _. check_ordinal mismatch ic) (enumerate i cs) () = Ok u
    \<longleftrightarrow> map (\<lambda>c. unat (col_ordinal c)) cs = [Suc i..<Suc (i + length cs)]"
  using assms
proof (induction cs arbitrary: i)
  case (Cons c cs)
  have w: "unat (word_of_nat (Suc i) :: u32) = Suc i" using Cons.prems by (simp only: unat_of_nat) simp
  have "col_ordinal c = word_of_nat (Suc i) \<longleftrightarrow> unat (col_ordinal c) = Suc i"
    by (simp only: word_unat_eq_iff w)
  moreover have "[Suc i..<Suc (i + length (c # cs))] = Suc i # [Suc (Suc i)..<Suc (Suc i + length cs)]"
    by (subst upt_conv_Cons) (simp_all only: list.size add_Suc add_Suc_right, simp_all)
  ultimately show ?case using Cons.IH [of "Suc i"] Cons.prems
    by (simp add: check_ordinal_def outcome_simps del: upt_Suc)
qed simp

lemma complete_columns_Ok:
  "complete_materialized_schema_columns c t n = Ok cs \<longleftrightarrow>
     0 < n \<and> mset cs = mset (filter (\<lambda>x. col_table x = t) (cc_columns c))
     \<and> map (\<lambda>x. unat (col_ordinal x)) cs = [1..<Suc (unat n)]"
proof -
  let ?key = "\<lambda>x. (col_ordinal x, col_name x)" and ?of = "filter (\<lambda>x. col_table x = t) (cc_columns c)"
  define ordered where "ordered = sort_key ?key ?of"
  have s: "mset ordered = mset ?of" by (simp add: ordered_def)
  have lt: "unat n < 2 ^ 32" using unsigned_less [of n] by simp
  have same: "ordered = cs" if "mset cs = mset ?of" and "map (\<lambda>x. unat (col_ordinal x)) cs = [1..<Suc (unat n)]"
  proof -
    have "distinct (map (\<lambda>x. unat (col_ordinal x)) cs)" unfolding that(2) by simp
    then have "inj_on (\<lambda>x. unat (col_ordinal x)) (set cs)" by (rule distinct_map [THEN iffD1, THEN conjunct2])
    then have inj: "inj_on ?key (set ?of)"
      using mset_eq_setD [OF that(1)] by (auto simp: inj_on_def)
    have "sorted_wrt (<) (map (\<lambda>x. unat (col_ordinal x)) cs)" unfolding that(2) by (rule sorted_wrt_upt)
    then have "sorted_wrt (\<lambda>x y. ?key x \<le> ?key y) cs"
      unfolding sorted_wrt_map by (rule sorted_wrt_mono_rel [rotated]) (simp add: word_less_nat_alt less_prod_simp)
    then have "sorted (map ?key cs)" by (simp add: sorted_wrt_map)
    from sort_key_inj_key_eq [OF that(1) [symmetric] inj this] show ?thesis by (simp add: ordered_def)
  qed
  show ?thesis
  proof (cases "0 < n \<and> length ordered = unat n")
    case True
    have "0 + length ordered < 2 ^ 32" using True lt by simp
    note check = check_ordinals_Ok [OF this, of "TargetOrdinalMismatch t"]
    have "complete_materialized_schema_columns c t n = Ok cs \<longleftrightarrow>
        cs = ordered \<and> map (\<lambda>x. unat (col_ordinal x)) ordered = [1..<Suc (unat n)]"
      using True check by (auto simp: complete_materialized_schema_columns_def Let_def outcome_simps simp flip: ordered_def)
    with True s same show ?thesis by auto
  next
    case False
    have "length cs = unat n" if "map (\<lambda>x. unat (col_ordinal x)) cs = [1..<Suc (unat n)]"
      using that by (metis length_map length_upt diff_Suc_1 One_nat_def)
    moreover have "length cs = length ordered" if "mset cs = mset ?of" using that s by (metis size_mset)
    moreover have "complete_materialized_schema_columns c t n \<noteq> Ok cs"
      using False by (auto simp: complete_materialized_schema_columns_def Let_def word_neq_0_conv simp flip: ordered_def)
    ultimately show ?thesis using False by auto
  qed
qed

end
