(* ===== verification/Sys_Table.thy ===== *)
theory Sys_Table
  imports Sys_Column
begin

text \<open>
  The table catalog: the long-value locators of \<open>crates/openqbw/src/long_value_ref.rs\<close>, and the rows,
  their scan, the collection of the materialized catalog and its gates of
  \<open>crates/openqbw/src/systable.rs\<close>. The attestation of the column catalog against the table catalog,
  of \<open>syscolumn.rs\<close>, is here too.
\<close>

section \<open>Long-value locators\<close>

record long_value_ref =
  lv_marker :: u16
  lv_payload_len :: u32
  lv_target_page :: u32
  lv_reserved :: u16
  lv_selector :: u16

datatype long_value_ref_error =
    LocatorWrongLength nat nat
  | UnsupportedMarker u16
  | ZeroPayloadLength
  | TargetPageOutOfRange u32 u64

definition parse_long_value_ref :: "byte list \<Rightarrow> u64 \<Rightarrow> (long_value_ref_error, long_value_ref) outcome" where
  "parse_long_value_ref bytes page_count =
     rbind (ensure (length bytes = 14) (LocatorWrongLength 14 (length bytes))) (\<lambda>_.
     rbind (u16_at bytes 0) (\<lambda>marker.
     rbind (ensure (marker = 0x0080) (UnsupportedMarker marker)) (\<lambda>_.
     rbind (u32_at bytes 2) (\<lambda>payload_len.
     rbind (ensure (payload_len \<noteq> 0) ZeroPayloadLength) (\<lambda>_.
     rbind (u32_at bytes 6) (\<lambda>target_page.
     rbind (ensure (\<not> (target_page = 0 \<or> page_count \<le> ucast target_page))
                   (TargetPageOutOfRange target_page page_count)) (\<lambda>_.
     rbind (u16_at bytes 10) (\<lambda>reserved.
     rbind (u16_at bytes 12) (\<lambda>selector.
       Ok \<lparr>lv_marker = marker, lv_payload_len = payload_len, lv_target_page = target_page,
           lv_reserved = reserved, lv_selector = selector\<rparr>)))))))))"

text \<open>A locator after the name of a row, not dereferenced: the largest bound on its target.\<close>

definition parse_post_name_ref :: "byte list \<Rightarrow> nat \<Rightarrow> ('e, long_value_ref option) outcome" where
  "parse_post_name_ref post_name offset =
     (case get_range post_name offset (offset + 14) of
        None \<Rightarrow> Ok None
      | Some bytes \<Rightarrow>
          (case parse_long_value_ref bytes (- 1) of
             Ok r \<Rightarrow> Ok (Some r) | Err _ \<Rightarrow> Ok None | Panic \<Rightarrow> Panic))"

section \<open>Rows\<close>

record sys_table =
  tb_id :: u32
  tb_object :: u64
  tb_row_length :: u32
  tb_row_flags :: u8
  tb_dbspace :: u16
  tb_row_count :: u64
  tb_creator :: u32
  tb_table_pages :: u32
  tb_ext_pages :: u32
  tb_commit_action :: u32
  tb_share_type :: u32
  tb_last_modified :: u64
  tb_name :: string
  tb_type :: u8
  tb_replicate :: u8
  tb_server_type :: u8
  tb_layout_byte :: u8
  tb_tab_page_list :: "long_value_ref option"
  tb_ext_page_list :: "long_value_ref option"
  tb_magic :: "byte list"
  tb_col_count :: "u8 option"
  tb_data_root_page :: "u32 option"
  tb_last_page :: "u32 option"
  tb_data_root_raw :: "u32 option"
  tb_last_page_raw :: "u32 option"
  tb_page :: u64
  tb_row_offset :: nat
  tb_tag_offset :: nat
  tb_truncated :: "u8 option"

text \<open>
  The row whose tag is at a position; an error is a position the scan steps over. The reads that the
  source expects to be in bounds are panics otherwise. The error \<open>()\<close> stands for \<open>continue\<close>.
\<close>

definition systable_row_at :: "byte list \<Rightarrow> nat \<Rightarrow> u64 \<Rightarrow> nat \<Rightarrow> (unit, sys_table) outcome" where
  "systable_row_at body stop pn pos =
     rbind (bytes_at body pos (pos + 4)) (\<lambda>share.
     rbind (ensure (share = [0x05, 0x00, 0x00, 0x00]) ()) (\<lambda>_.
     rbind (byte_at body (pos + 20)) (\<lambda>name_byte.
     let name_len = unat name_byte; name_start = pos + 21; name_end = name_start + name_len in
     rbind (ensure (4 \<le> name_len \<and> name_len \<le> 64) ()) (\<lambda>_.
     rbind (ensure (name_end \<le> stop) ()) (\<lambda>_.
     rbind (bytes_at body name_start name_end) (\<lambda>name_bytes.
     rbind (ensure (list_all (\<lambda>b. 32 \<le> b \<and> b < 127) name_bytes) ()) (\<lambda>_.
     rbind (ensure (34 \<le> pos) ()) (\<lambda>_.
     let row_start = pos - 34 in
     rbind (u32_at body row_start) (\<lambda>row_header.
     let row_length = row_header AND 0x00ffffff; row_flags = ucast (drop_bit 24 row_header) :: u8;
         row_end = row_start + unat row_length in
     rbind (ensure (\<not> (unat row_length < 34 + 21 + name_len + 4 \<or> stop < row_end \<or> row_end < name_end)) ()) (\<lambda>_.
     rbind (u32_at body (row_start + 4)) (\<lambda>table_id.
     rbind (u16_at body (row_start + 8)) (\<lambda>dbspace.
     rbind (u64_at body (row_start + 10)) (\<lambda>row_count.
     rbind (u32_at body (row_start + 18)) (\<lambda>creator.
     rbind (u32_at body (row_start + 22)) (\<lambda>table_pages.
     rbind (u32_at body (row_start + 26)) (\<lambda>ext_pages.
     rbind (u32_at body (row_start + 30)) (\<lambda>commit_action.
     rbind (u32_at body pos) (\<lambda>share_type.
     rbind (u64_at body (pos + 4)) (\<lambda>object.
     rbind (u64_at body (pos + 12)) (\<lambda>last_modified.
     rbind (bytes_at body (pos + 12) (pos + 16)) (\<lambda>magic.
     rbind (bytes_at body name_end row_end) (\<lambda>post_name.
     rbind (byte_at post_name 0) (\<lambda>table_type.
     rbind (byte_at post_name 1) (\<lambda>replicate.
     rbind (byte_at post_name 2) (\<lambda>server_type.
     rbind (byte_at post_name 3) (\<lambda>layout_byte.
     rbind (parse_post_name_ref post_name 4) (\<lambda>tab_page_list.
     rbind (parse_post_name_ref post_name (4 + 14)) (\<lambda>ext_page_list.
       Ok \<lparr>tb_id = table_id, tb_object = object, tb_row_length = row_length, tb_row_flags = row_flags,
           tb_dbspace = dbspace, tb_row_count = row_count, tb_creator = creator,
           tb_table_pages = table_pages, tb_ext_pages = ext_pages, tb_commit_action = commit_action,
           tb_share_type = share_type, tb_last_modified = last_modified, tb_name = bytes_text name_bytes,
           tb_type = table_type, tb_replicate = replicate, tb_server_type = server_type,
           tb_layout_byte = layout_byte, tb_tab_page_list = tab_page_list, tb_ext_page_list = ext_page_list,
           tb_magic = magic, tb_col_count = None, tb_data_root_page = None, tb_last_page = None,
           tb_data_root_raw = None, tb_last_page_raw = None, tb_page = pn, tb_row_offset = row_start,
           tb_tag_offset = pos, tb_truncated = None\<rparr>))))))))))))))))))))))))))))"

text \<open>After a row the scan goes on behind it, so it never reads a byte of a row twice as a tag.\<close>

definition row_stop :: "sys_table \<Rightarrow> nat" where
  "row_stop e = tb_row_offset e + unat (tb_row_length e)"

lemma systable_row_at_progress: "systable_row_at body stop pn pos = Ok e \<Longrightarrow> pos < row_stop e \<and> row_stop e \<le> stop"
  by (auto simp: systable_row_at_def Let_def outcome_simps row_stop_def)

function scan_rows_from :: "byte list \<Rightarrow> nat \<Rightarrow> u64 \<Rightarrow> nat \<Rightarrow> (unit, sys_table list) outcome" where
  "scan_rows_from body stop pn pos =
     (if stop < 21 \<or> stop - 21 < pos then Ok []
      else case systable_row_at body stop pn pos of
        Ok e \<Rightarrow> rbind (scan_rows_from body stop pn (row_stop e)) (\<lambda>es. Ok (e # es))
      | Err _ \<Rightarrow> scan_rows_from body stop pn (pos + 1)
      | Panic \<Rightarrow> Panic)"
  by pat_completeness auto
termination
  by (relation "measure (\<lambda>(body, stop, pn, pos). Suc stop - pos)")
    (auto dest!: systable_row_at_progress)

declare scan_rows_from.simps [simp del]

definition scan_systable_page :: "byte list \<Rightarrow> u64 \<Rightarrow> (unit, sys_table list) outcome" where
  "scan_systable_page body pn =
     (if length body < 21 then Ok [] else scan_rows_from body (min (length body) 0xff0) pn 0)"

definition parse_materialized_systable_record :: "u64 \<Rightarrow> byte list \<Rightarrow> nat \<Rightarrow> (unit, sys_table) outcome" where
  "parse_materialized_systable_record page_number record_bytes record_offset =
     rbind (scan_systable_page record_bytes page_number) (\<lambda>entries.
       (case filter (\<lambda>e. tb_row_offset e = 0 \<and> unat (tb_row_length e) = length record_bytes) entries of
          [entry] \<Rightarrow>
            if record_offset + tb_tag_offset entry < 2 ^ 64
            then Ok (entry\<lparr>tb_row_offset := record_offset, tb_tag_offset := record_offset + tb_tag_offset entry\<rparr>)
            else Err ()
        | _ \<Rightarrow> Err ()))"

definition self_length_bounded_systable_fixed_prefix_table_id :: "byte list \<Rightarrow> u32 option" where
  "self_length_bounded_systable_fixed_prefix_table_id bytes =
     (if length bytes < 34 \<or> unat (le32 bytes 0 AND 0x00ffffff) \<noteq> length bytes then None
      else Some (le32 bytes 4))"

definition scan_materialized_systable_records :: "table_page \<Rightarrow> u64 \<Rightarrow> sys_table list" where
  "scan_materialized_systable_records page page_number =
     accepted_rows (parse_materialized_systable_record page_number) (tp_slots page)"

section \<open>The materialized catalog\<close>

text \<open>Everything but the physical place; two rows with the same meaning are the same catalog entry.\<close>

definition table_meaning :: "sys_table \<Rightarrow> sys_table" where
  "table_meaning e = e\<lparr>tb_page := 0, tb_row_offset := 0, tb_tag_offset := 0\<rparr>"

datatype systable_error =
    UnparsedCarrierRecords nat
  | AmbiguousCarrierIdentity u64
  | DivergentTableCandidates u64
  | ConflictingTable u32
  | UnknownTableId u32
  | RequiredTableMayConflict u32 int
  | UnidentifiedUnparsedCarrierRecords nat

record systable_collection =
  tc_tables :: "sys_table list"
  tc_totals :: "u32 carrier_totals"

definition retain_table ::
    "sys_table \<Rightarrow> (u32, sys_table) btree \<Rightarrow> (systable_error, (u32, sys_table) btree) outcome" where
  "retain_table = retain_row tb_id table_meaning (\<lambda>entry. ConflictingTable (tb_id entry))"

definition semantic_tables :: "sys_table list \<Rightarrow> (systable_error, (u32, sys_table) btree) outcome" where
  "semantic_tables entries = rfold retain_table entries []"

definition same_tables :: "(u32, sys_table) btree \<Rightarrow> (u32, sys_table) btree \<Rightarrow> bool" where
  "same_tables m m' \<longleftrightarrow>
     length m = length m'
     \<and> list_all (\<lambda>(k, e). case bt_get m' k of Some other \<Rightarrow> table_meaning e = table_meaning other | None \<Rightarrow> False) m"

type_synonym table_state = "(u32, sys_table) btree \<times> u32 carrier_totals"

definition collect_table_page ::
    "page_parser \<Rightarrow> sector_permutation \<Rightarrow> transform_key \<Rightarrow> u64 \<times> byte list \<Rightarrow> table_state \<Rightarrow>
     (systable_error, table_state) outcome" where
  "collect_table_page parse_page permute key page st =
     (case page of (page_number, raw_page) \<Rightarrow> case st of (tables, totals) \<Rightarrow>
        case materialize_candidates_with_key parse_page permute raw_page page_number key of
          Err e \<Rightarrow> Ok (tables, totals\<lparr>ct_skipped := record_catalog_skip e (ct_skipped totals)\<rparr>)
        | Panic \<Rightarrow> Panic
        | Ok candidates \<Rightarrow>
            rbind (map_err (\<lambda>_. AmbiguousCarrierIdentity page_number) (carrier_choice parse_page 1 candidates)) (\<lambda>carrier.
            if \<not> carrier then Ok st
            else
              rbind (rmap (carrier_page_of 34 self_length_bounded_systable_fixed_prefix_table_id
                            (parse_materialized_systable_record page_number)) candidates) (\<lambda>decoded.
              rbind (rmap (\<lambda>p. semantic_tables (cpg_rows p)) decoded) (\<lambda>semantic.
              if \<not> all_windows same_tables semantic \<or> \<not> all_windows same_counts decoded
              then Err (DivergentTableCandidates page_number)
              else
                case (decoded, semantic) of
                  (first # _, entries # _) \<Rightarrow>
                    rbind (rfold retain_table (bt_values entries) tables) (\<lambda>tables.
                      Ok (tables, add_carrier_page first totals))
                | _ \<Rightarrow> Panic))))"

definition collect_materialized_systables ::
    "page_parser \<Rightarrow> sector_permutation \<Rightarrow> transform_key \<Rightarrow> (u64 \<times> byte list) list \<Rightarrow>
     (systable_error, systable_collection) outcome" where
  "collect_materialized_systables parse_page permute key store =
     rbind (rfold (collect_table_page parse_page permute key) store ([], no_totals)) (\<lambda>(tables, totals).
       Ok \<lparr>tc_tables = bt_values tables, tc_totals = totals\<rparr>)"

section \<open>The gates of the catalog\<close>

definition require_no_unparsed_carrier_records :: "systable_collection \<Rightarrow> (systable_error, unit) outcome" where
  "require_no_unparsed_carrier_records c =
     ensure (ct_unparsed (tc_totals c) = 0) (UnparsedCarrierRecords (ct_unparsed (tc_totals c)))"

text \<open>The tables are strictly ordered by their id, so the binary search finds the only entry of an id.\<close>

definition catalog_table :: "systable_collection \<Rightarrow> u32 \<Rightarrow> sys_table option" where
  "catalog_table c table_id = find (\<lambda>e. tb_id e = table_id) (tc_tables c)"

record table_expectation =
  le_table :: u32
  le_row_count :: u64
  le_table_pages :: u32
  le_ext_pages :: u32

definition logical_expectation :: "systable_collection \<Rightarrow> u32 \<Rightarrow> (systable_error, table_expectation) outcome" where
  "logical_expectation c table_id =
     rbind (ok_or (catalog_table c table_id) (UnknownTableId table_id)) (\<lambda>e.
       Ok \<lparr>le_table = tb_id e, le_row_count = tb_row_count e, le_table_pages = tb_table_pages e,
           le_ext_pages = tb_ext_pages e\<rparr>)"

definition require_unambiguous_tables ::
    "systable_collection \<Rightarrow> u32 list \<Rightarrow> (systable_error, table_expectation list) outcome" where
  "require_unambiguous_tables c table_ids =
     (let required = remdups_adj (sort table_ids) in
      rbind (rfold (\<lambda>table_id _. rbind (ok_or (catalog_table c table_id) (UnknownTableId table_id)) (\<lambda>_. Ok ())) required ()) (\<lambda>_.
      rbind (ensure (ct_without (tc_totals c) = 0) (UnidentifiedUnparsedCarrierRecords (ct_without (tc_totals c)))) (\<lambda>_.
      rbind (rfold (\<lambda>table_id _.
               (case bt_get (ct_prefixes (tc_totals c)) table_id of
                  Some n \<Rightarrow> Err (RequiredTableMayConflict table_id n)
                | None \<Rightarrow> Ok ())) required ()) (\<lambda>_.
      rmap (logical_expectation c) required))))"

text \<open>\<open>attest_against_materialized_systable\<close> of \<open>syscolumn.rs\<close>.\<close>

record column_attestation =
  ca_row_count :: u64
  ca_page_count :: u32

definition attest_against_materialized_systable ::
    "syscolumn_collection \<Rightarrow> sys_table \<Rightarrow> (syscolumn_error, column_attestation) outcome" where
  "attest_against_materialized_systable c systable =
     (let totals = cc_totals c; pages = unat (tb_table_pages systable) + unat (tb_ext_pages systable) in
      rbind (ensure (tb_id systable = 2) (WrongCarrierTableId 2 (tb_id systable))) (\<lambda>_.
      rbind (ensure (pages < 2 ^ 32) CarrierPageCountOverflow) (\<lambda>_.
      rbind (ensure (ct_pages totals = pages) (CarrierPageCountMismatch (word_of_nat pages) (ct_pages totals))) (\<lambda>_.
      rbind (ensure (ct_parsed totals = unat (tb_row_count systable))
                    (CarrierRowCountMismatch (tb_row_count systable) (ct_parsed totals))) (\<lambda>_.
      rbind (ensure (length (cc_columns c) = ct_parsed totals)
                    (CarrierDuplicateRows (ct_parsed totals) (length (cc_columns c)))) (\<lambda>_.
        Ok \<lparr>ca_row_count = tb_row_count systable, ca_page_count = word_of_nat pages\<rparr>))))))"

section \<open>The conflict-free catalog of the legacy scan\<close>

text \<open>
  Two rows of the legacy catalog have the same identity when they agree in everything but their
  place, which is \<open>table_meaning\<close> again. Every group of rows with one id, or one name, that does not
  agree is rejected as a whole.
\<close>

definition group_indexes :: "(sys_table \<Rightarrow> 'k::linorder) \<Rightarrow> sys_table list \<Rightarrow> ('k, nat list) btree" where
  "group_indexes key entries =
     fold (\<lambda>(i, e) m. bt_insert (key e) ((case bt_get m (key e) of None \<Rightarrow> [] | Some is \<Rightarrow> is) @ [i]) m)
       (enumerate 0 entries) []"

definition reject_group :: "sys_table list \<Rightarrow> nat list \<Rightarrow> bool list \<Rightarrow> bool list" where
  "reject_group entries indexes rejected =
     (if list_all (\<lambda>i. table_meaning (entries ! hd indexes) = table_meaning (entries ! i)) indexes then rejected
      else fold (\<lambda>i r. r[i := True]) indexes rejected)"

definition collect_conflict_free :: "sys_table list \<Rightarrow> sys_table list" where
  "collect_conflict_free entries =
     (let rejected = fold (reject_group entries)
            (bt_values (group_indexes tb_id entries) @ bt_values (group_indexes tb_name entries))
            (replicate (length entries) False);
          kept = List.map_filter (\<lambda>(i, e). if rejected ! i then None else Some e) (enumerate 0 entries) in
      bt_values (fold (\<lambda>e. bt_insert (tb_id e, tb_name e) e) kept []))"

section \<open>Diagnostics\<close>

record post_name_diagnostics =
  pd_rows :: nat
  pd_tab_refs :: nat
  pd_ext_refs :: nat
  pd_types :: "(u8, int) btree"
  pd_replicates :: "(u8, int) btree"
  pd_servers :: "(u8, int) btree"
  pd_layouts :: "(u8, int) btree"

definition add_post_name :: "sys_table \<Rightarrow> post_name_diagnostics \<Rightarrow> post_name_diagnostics" where
  "add_post_name e d =
     \<lparr>pd_rows = pd_rows d + 1,
      pd_tab_refs = pd_tab_refs d + (if tb_tab_page_list e = None then 0 else 1),
      pd_ext_refs = pd_ext_refs d + (if tb_ext_page_list e = None then 0 else 1),
      pd_types = bt_add (tb_type e) 1 (pd_types d), pd_replicates = bt_add (tb_replicate e) 1 (pd_replicates d),
      pd_servers = bt_add (tb_server_type e) 1 (pd_servers d),
      pd_layouts = bt_add (tb_layout_byte e) 1 (pd_layouts d)\<rparr>"

definition aggregate_post_name_diagnostics :: "sys_table list \<Rightarrow> post_name_diagnostics" where
  "aggregate_post_name_diagnostics entries =
     fold add_post_name entries
       \<lparr>pd_rows = 0, pd_tab_refs = 0, pd_ext_refs = 0, pd_types = [], pd_replicates = [], pd_servers = [], pd_layouts = []\<rparr>"

end
