(* ===== verification/Table_Facts.thy ===== *)
theory Table_Facts
  imports Sys_Table Column_Facts Table_Scan
begin

text \<open>
  The table rows and the collected table catalog: the scan of a record accepts exactly the row that
  fills it, the collection has one entry for each table id, and the gate of the required tables
  returns expectations that no accessible record of a carrier page can contradict; the catalog without
  conflicts has the meanings of the rows that nothing contradicts.
\<close>

section \<open>Locators\<close>

lemma parse_long_value_ref_Ok:
  "parse_long_value_ref bytes page_count = Ok r \<longleftrightarrow>
     length bytes = 14 \<and> le16 bytes 0 = 0x80 \<and> le32 bytes 2 \<noteq> 0
     \<and> 0 < unat (le32 bytes 6) \<and> unat (le32 bytes 6) < unat page_count
     \<and> r = \<lparr>lv_marker = 0x80, lv_payload_len = le32 bytes 2, lv_target_page = le32 bytes 6,
            lv_reserved = le16 bytes 10, lv_selector = le16 bytes 12\<rparr>"
proof -
  have "unat w < 2 ^ 32" for w :: u32 using unsigned_less [of w] by simp
  then have "unat w < 2 ^ 64" for w :: u32 by (rule less_trans) simp
  then have "unat (ucast w :: u64) = unat w" for w :: u32
    by (simp only: unsigned_ucast_eq) (simp add: take_bit_nat_eq_self)
  then have "page_count \<le> ucast w \<longleftrightarrow> unat page_count \<le> unat w" for w :: u32
    by (simp add: word_le_nat_alt)
  moreover have "w \<noteq> 0 \<longleftrightarrow> 0 < unat w" for w :: u32 by (simp add: unat_gt_0)
  ultimately show ?thesis
    by (auto simp: parse_long_value_ref_def outcome_simps read_Ok_iffs not_le)
qed

lemma parse_long_value_ref_no_panic [no_panic]: "parse_long_value_ref bytes page_count \<noteq> Panic"
  unfolding parse_long_value_ref_def by (intro no_panic) (auto simp: outcome_simps)

lemma parse_post_name_ref_no_panic [no_panic]: "parse_post_name_ref post_name offset \<noteq> Panic"
  unfolding parse_post_name_ref_def
  by (auto split: option.split outcome.split simp: parse_long_value_ref_no_panic)

section \<open>The scan of a record\<close>

lemma systable_row_at_no_panic:
  "pos + 21 \<le> stop \<Longrightarrow> stop \<le> length body \<Longrightarrow> systable_row_at body stop pn pos \<noteq> Panic"
  unfolding systable_row_at_def Let_def
  by (intro no_panic) (auto simp: outcome_simps bytes_at_eq byte_at_eq split: if_splits)

lemma scan_rows_no_panic: "stop \<le> length body \<Longrightarrow> scan_rows_from body stop pn pos \<noteq> Panic"
proof (induction body stop pn pos rule: scan_rows_from.induct)
  case (1 body stop pn pos)
  show ?case
  proof (cases "stop < 21 \<or> stop - 21 < pos")
    case False
    then have "pos + 21 \<le> stop" by linarith
    from systable_row_at_no_panic [OF this 1(3)] 1 False show ?thesis
      by (subst scan_rows_from.simps) (auto simp: outcome_simps rbind_Panic_iff split: outcome.splits)
  qed (subst scan_rows_from.simps, simp)
qed

lemma parse_materialized_systable_no_panic [no_panic]: "parse_materialized_systable_record n bytes offset \<noteq> Panic"
  unfolding parse_materialized_systable_record_def scan_systable_page_def
  by (intro no_panic) (auto simp: scan_rows_no_panic split: list.split)

text \<open>
  No tag is read before the prefix of a row, so the scan of a record reaches its position 34; a row
  that starts the record and fills it ends the scan.
\<close>

lemma scan_rows_reach:
  assumes "stop \<le> length body" and "55 \<le> stop"
  shows "k \<le> 34 \<Longrightarrow> scan_rows_from body stop pn (34 - k) = scan_rows_from body stop pn 34"
proof (induction k)
  case (Suc k)
  have "(34 - Suc k) + 21 \<le> stop" using assms(2) by simp
  then have "systable_row_at body stop pn (34 - Suc k) \<noteq> Panic"
    using systable_row_at_no_panic assms(1) by blast
  moreover have "systable_row_at body stop pn (34 - Suc k) \<noteq> Ok e" for e
    using Suc.prems by (auto simp: systable_row_at_def Let_def outcome_simps)
  ultimately obtain u where "systable_row_at body stop pn (34 - Suc k) = Err u"
    by (cases "systable_row_at body stop pn (34 - Suc k)") auto
  moreover have "\<not> (stop < 21 \<or> stop - 21 < 34 - Suc k)" using assms(2) by simp
  ultimately have "scan_rows_from body stop pn (34 - Suc k) = scan_rows_from body stop pn (34 - Suc k + 1)"
    by (subst scan_rows_from.simps) (simp only: if_False outcome.case)
  also have "34 - Suc k + 1 = 34 - k" using Suc.prems by simp
  finally show ?case using Suc by simp
qed simp

lemma scan_rows_starts:
  "scan_rows_from body stop pn pos = Ok es \<Longrightarrow> e \<in> set es \<Longrightarrow>
     \<exists>p. pos \<le> p \<and> systable_row_at body stop pn p = Ok e \<and> tb_row_offset e = p - 34 \<and> 34 \<le> p
       \<and> tb_tag_offset e = p"
proof (induction body stop pn pos arbitrary: es rule: scan_rows_from.induct)
  case (1 body stop pn pos)
  show ?case
  proof (cases "stop < 21 \<or> stop - 21 < pos")
    case True
    with 1(3,4) show ?thesis by (subst (asm) scan_rows_from.simps) simp
  next
    case False
    show ?thesis
    proof (cases "systable_row_at body stop pn pos")
      case (Ok a)
      then obtain rest where rest: "scan_rows_from body stop pn (row_stop a) = Ok rest" and es: "es = a # rest"
        using 1(3) False by (subst (asm) scan_rows_from.simps) (auto simp: outcome_simps)
      have "tb_row_offset a = pos - 34 \<and> 34 \<le> pos \<and> tb_tag_offset a = pos"
        using Ok by (auto simp: systable_row_at_def Let_def outcome_simps)
      moreover have "pos < row_stop a" using systable_row_at_progress [OF Ok] by simp
      ultimately show ?thesis using 1(1) [OF False Ok rest] 1(4) Ok es by fastforce
    next
      case (Err u)
      with 1(3) False have "scan_rows_from body stop pn (pos + 1) = Ok es"
        by (subst (asm) scan_rows_from.simps) simp
      from 1(2) [OF False Err this 1(4)] show ?thesis by fastforce
    next
      case Panic
      with 1(3) False show ?thesis by (subst (asm) scan_rows_from.simps) simp
    qed
  qed
qed

lemma parse_materialized_systable_Ok:
  "parse_materialized_systable_record n bytes offset = Ok e \<longleftrightarrow>
     offset + 34 < 2 ^ 64 \<and>
     (\<exists>row. systable_row_at bytes (length bytes) n 34 = Ok row \<and> unat (tb_row_length row) = length bytes
        \<and> length bytes \<le> 0xff0 \<and> e = row\<lparr>tb_row_offset := offset, tb_tag_offset := offset + 34\<rparr>)"
    (is "?parse \<longleftrightarrow> offset + 34 < 2 ^ 64 \<and> (\<exists>row. ?row row)")
proof
  let ?stop = "min (length bytes) 0xff0"
  let ?fills = "\<lambda>e. tb_row_offset e = 0 \<and> unat (tb_row_length e) = length bytes"
  {
    assume ?parse
    then obtain es where es: "scan_systable_page bytes n = Ok es"
      and c: "(case filter ?fills es of
          [entry] \<Rightarrow>
            if offset + tb_tag_offset entry < 2 ^ 64
            then Ok (entry\<lparr>tb_row_offset := offset, tb_tag_offset := offset + tb_tag_offset entry\<rparr>) else Err ()
        | _ \<Rightarrow> Err ()) = Ok e"
      unfolding parse_materialized_systable_record_def rbind_Ok_iff by blast
    obtain row where row: "filter ?fills es = [row]" using c by (cases "filter ?fills es" rule: remdups_adj.cases) auto
    then have e: "e = row\<lparr>tb_row_offset := offset, tb_tag_offset := offset + tb_tag_offset row\<rparr>"
      and lt: "offset + tb_tag_offset row < 2 ^ 64"
      using c by (simp_all split: if_splits)
    have mem: "row \<in> set es" and f: "?fills row" using row by (auto simp: filter_eq_Cons_iff)
    have "scan_rows_from bytes ?stop n 0 = Ok es"
      using es mem by (auto simp: scan_systable_page_def split: if_splits)
    then obtain p where p: "systable_row_at bytes ?stop n p = Ok row" "tb_row_offset row = p - 34" "34 \<le> p"
        "tb_tag_offset row = p"
      using scan_rows_starts mem by blast
    with f have p34: "p = 34" by simp
    have "row_stop row \<le> ?stop" using systable_row_at_progress [OF p(1)] by simp
    then have len: "length bytes \<le> 0xff0" using f by (simp add: row_stop_def)
    with p p34 f e lt show "offset + 34 < 2 ^ 64 \<and> (\<exists>row. ?row row)" by (auto simp: min_absorb1)
  next
    assume "offset + 34 < 2 ^ 64 \<and> (\<exists>row. ?row row)"
    then obtain row where r: "?row row" and lt: "offset + 34 < 2 ^ 64" by blast
    have row: "systable_row_at bytes (length bytes) n 34 = Ok row" using r by simp
    have off: "tb_row_offset row = 0" "tb_tag_offset row = 34"
      using row by (auto simp: systable_row_at_def Let_def outcome_simps)
    have big: "55 \<le> length bytes" using row by (auto simp: systable_row_at_def Let_def outcome_simps)
    have stop: "row_stop row = length bytes" using r off by (simp add: row_stop_def)
    have at_end: "scan_rows_from bytes (length bytes) n (length bytes) = Ok []"
      using big by (subst scan_rows_from.simps) (simp add: not_less, linarith?)
    have "scan_rows_from bytes (length bytes) n 34 = Ok [row]"
      using big by (subst scan_rows_from.simps) (simp add: row stop at_end)
    then have "scan_systable_page bytes n = Ok [row]"
      using scan_rows_reach [of "length bytes" bytes 34 n] r big by (simp add: scan_systable_page_def min_absorb1)
    then show ?parse
      using r lt off by (simp add: parse_materialized_systable_record_def)
  }
qed

section \<open>The collected catalog\<close>

lemma accepted_rows_iff:
  "r \<in> set (accepted_rows parse slots) \<longleftrightarrow> (\<exists>offset bytes. Some (offset, bytes) \<in> set slots \<and> parse bytes offset = Ok r)"
  by (induction slots) (auto simp: accepted_rows_def List.map_filter_simps split: option.splits outcome.splits)

text \<open>The rows of a page: the accepted records of its first candidate, when its candidates are the carrier.\<close>

definition page_candidate ::
    "u32 \<Rightarrow> page_parser \<Rightarrow> sector_permutation \<Rightarrow> transform_key \<Rightarrow> u64 \<times> byte list \<Rightarrow> enterprise_page option" where
  "page_candidate carrier parse_page permute key page =
     (case materialize_candidates_with_key parse_page permute (snd page) (fst page) key of
        Ok (first # rest) \<Rightarrow>
          (case carrier_choice parse_page carrier (first # rest) of Ok True \<Rightarrow> Some first | _ \<Rightarrow> None)
      | _ \<Rightarrow> None)"

definition page_tables ::
    "page_parser \<Rightarrow> sector_permutation \<Rightarrow> transform_key \<Rightarrow> u64 \<times> byte list \<Rightarrow> sys_table list" where
  "page_tables parse_page permute key page =
     (case page_candidate 1 parse_page permute key page of
        Some c \<Rightarrow> Sys_Table.scan_materialized_systable_records (em_view c) (fst page)
      | None \<Rightarrow> [])"

text \<open>The identities of the records that are not accepted, where their prefix gives one.\<close>

definition unnamed_record :: "(byte list \<Rightarrow> 'k option) \<Rightarrow> nat \<Rightarrow> 'r record_parser \<Rightarrow> (nat \<times> byte list) option \<Rightarrow> bool" where
  "unnamed_record prefix_of prefix_len parse slot \<longleftrightarrow>
     (\<exists>offset bytes u. slot = Some (offset, bytes) \<and> parse bytes offset = Err u
        \<and> prefix_len \<le> length bytes \<and> prefix_of bytes = None)"

definition named_record :: "(byte list \<Rightarrow> 'k option) \<Rightarrow> nat \<Rightarrow> 'r record_parser \<Rightarrow> 'k \<Rightarrow> (nat \<times> byte list) option \<Rightarrow> bool" where
  "named_record prefix_of prefix_len parse k slot \<longleftrightarrow>
     (\<exists>offset bytes u. slot = Some (offset, bytes) \<and> parse bytes offset = Err u
        \<and> prefix_len \<le> length bytes \<and> prefix_of bytes = Some k)"

lemma bt_add_keys: "bt_get (bt_add k n m) l = None \<longleftrightarrow> l \<noteq> k \<and> bt_get m l = None"
  by (simp add: bt_add_def bt_get_insert)

lemma fold_bt_add_keys:
  "bt_get (fold (\<lambda>(k, n). bt_add k n) xs m) l = None \<longleftrightarrow> l \<notin> fst ` set xs \<and> bt_get m l = None"
  by (induction xs arbitrary: m) (auto simp: bt_add_keys)

lemma carrier_page_unparsed:
  assumes "carrier_page_of prefix_len prefix_of parse c = Ok p"
  shows "cpg_without p = 0 \<longleftrightarrow> (\<forall>slot\<in>set (tp_slots (em_view c)). \<not> unnamed_record prefix_of prefix_len parse slot)"
    and "bt_get (cpg_prefixes p) k = None \<longleftrightarrow>
      (\<forall>slot\<in>set (tp_slots (em_view c)). \<not> named_record prefix_of prefix_len parse k slot)"
proof -
  note f = assms(1) [unfolded carrier_page_of_def Let_def]
  let ?I = "\<lambda>ys p. (cpg_without p = 0 \<longleftrightarrow> (\<forall>slot\<in>set ys. \<not> unnamed_record prefix_of prefix_len parse slot))
    \<and> (bt_get (cpg_prefixes p) k = None \<longleftrightarrow> (\<forall>slot\<in>set ys. \<not> named_record prefix_of prefix_len parse k slot))"
  have "?I (tp_slots (em_view c)) p"
  proof (rule rfold_invariant [OF f, where I = ?I])
    fix ys slot q q'
    assume I: "?I ys q" and s: "carrier_slot prefix_len prefix_of parse slot q = Ok q'"
    show "?I (ys @ [slot]) q'"
    proof (cases slot)
      case None
      with I s show ?thesis by (auto simp: carrier_slot_def unnamed_record_def named_record_def)
    next
      case (Some ob)
      obtain offset bytes where ob: "ob = (offset, bytes)" by (cases ob)
      show ?thesis
      proof (cases "parse bytes offset")
        case (Ok r)
        with I s Some ob show ?thesis by (auto simp: carrier_slot_def unnamed_record_def named_record_def)
      next
        case (Err u)
        then have q: "q' = unparsed_record prefix_len prefix_of bytes q"
          using s Some ob by (simp add: carrier_slot_def)
        have "unnamed_record prefix_of prefix_len parse slot \<longleftrightarrow> prefix_len \<le> length bytes \<and> prefix_of bytes = None"
          "named_record prefix_of prefix_len parse k slot \<longleftrightarrow> prefix_len \<le> length bytes \<and> prefix_of bytes = Some k"
          using Err Some ob by (simp_all add: unnamed_record_def named_record_def)
        with I show ?thesis
          unfolding q by (auto simp: unparsed_record_def Let_def bt_add_keys split: option.splits)
      next
        case Panic
        with s Some ob show ?thesis by (simp add: carrier_slot_def)
      qed
    qed
  qed simp
  then show "cpg_without p = 0 \<longleftrightarrow> (\<forall>slot\<in>set (tp_slots (em_view c)). \<not> unnamed_record prefix_of prefix_len parse slot)"
    and "bt_get (cpg_prefixes p) k = None \<longleftrightarrow>
      (\<forall>slot\<in>set (tp_slots (em_view c)). \<not> named_record prefix_of prefix_len parse k slot)" by simp_all
qed

text \<open>What a page of the store contributes.\<close>

abbreviation table_slots where
  "table_slots parse_page permute key page \<equiv>
     (case page_candidate 1 parse_page permute key page of Some c \<Rightarrow> set (tp_slots (em_view c)) | None \<Rightarrow> {})"

abbreviation unnamed_table where
  "unnamed_table page \<equiv>
     unnamed_record self_length_bounded_systable_fixed_prefix_table_id 34 (parse_materialized_systable_record (fst page))"

abbreviation named_table where
  "named_table page \<equiv>
     named_record self_length_bounded_systable_fixed_prefix_table_id 34 (parse_materialized_systable_record (fst page))"

definition table_state_after ::
    "page_parser \<Rightarrow> sector_permutation \<Rightarrow> transform_key \<Rightarrow> (u64 \<times> byte list) set \<Rightarrow> table_state \<Rightarrow> bool" where
  "table_state_after parse_page permute key pages st \<longleftrightarrow>
     keyed tb_id (fst st) \<and> classified_totals (snd st)
     \<and> table_meaning ` set (bt_values (fst st)) = (\<Union>page\<in>pages. table_meaning ` set (page_tables parse_page permute key page))
     \<and> (ct_without (snd st) = 0 \<longleftrightarrow>
          (\<forall>page\<in>pages. \<forall>slot\<in>table_slots parse_page permute key page. \<not> unnamed_table page slot))
     \<and> (\<forall>k. bt_get (ct_prefixes (snd st)) k = None \<longleftrightarrow>
          (\<forall>page\<in>pages. \<forall>slot\<in>table_slots parse_page permute key page. \<not> named_table page k slot))"

lemma table_state_prefixes:
  "table_state_after parse_page permute key pages (tables, totals) \<Longrightarrow> bt_get (ct_prefixes totals) k = None \<Longrightarrow>
     \<forall>page\<in>pages. \<forall>slot\<in>table_slots parse_page permute key page. \<not> named_table page k slot"
  unfolding table_state_after_def snd_conv by (elim conjE allE [of _ k]) (simp only: simp_thms)

lemma skipped_table_page:
  assumes "page_candidate 1 parse_page permute key page = None" and "table_state_after parse_page permute key pages (tables, totals)"
  shows "table_state_after parse_page permute key (insert page pages) (tables, totals)"
    and "table_state_after parse_page permute key (insert page pages) (tables, totals\<lparr>ct_skipped := skips\<rparr>)"
  using assms by (simp_all add: table_state_after_def page_tables_def classified_totals_def)

lemma semantic_tables_Ok:
  "semantic_tables entries = Ok m \<Longrightarrow> table_meaning ` set (bt_values m) = table_meaning ` set entries"
  unfolding semantic_tables_def retain_table_def by (drule retain_rows_Ok) (simp_all add: bt_values_def)

lemma collect_table_page_Ok:
  assumes "collect_table_page parse_page permute key page (tables, totals) = Ok st"
    and "table_state_after parse_page permute key pages (tables, totals)"
  shows "table_state_after parse_page permute key (insert page pages) st"
proof -
  obtain n raw where page: "page = (n, raw)" by (cases page)
  note f = assms(1) [unfolded collect_table_page_def page prod.case]
  note skipped = skipped_table_page [OF _ assms(2)]
  show ?thesis
  proof (cases "materialize_candidates_with_key parse_page permute raw n key")
    case (Err e)
    with f have "st = (tables, totals\<lparr>ct_skipped := record_catalog_skip e (ct_skipped totals)\<rparr>)" by simp
    with Err skipped(2) show ?thesis by (simp add: page page_candidate_def)
  next
    case Panic
    with f show ?thesis by simp
  next
    case (Ok candidates)
    note m = this
    obtain carrier where cc: "carrier_choice parse_page 1 candidates = Ok carrier"
      using f m by (cases "carrier_choice parse_page 1 candidates") auto
    show ?thesis
    proof (cases "carrier \<and> candidates \<noteq> []")
      case False
      then have none: "page_candidate 1 parse_page permute key page = None"
        using m cc by (cases candidates) (auto simp: page page_candidate_def)
      moreover have "st = (tables, totals)" using False f m cc by (cases carrier) (auto simp: outcome_simps)
      ultimately show ?thesis using skipped(1) by simp
    next
      case True
      then obtain c cs where c: "candidates = c # cs" by (cases candidates) auto
      have cand: "page_candidate 1 parse_page permute key page = Some c"
        using m cc True c by (simp add: page page_candidate_def)
      obtain first entries tables' where
        first: "carrier_page_of 34 self_length_bounded_systable_fixed_prefix_table_id
            (parse_materialized_systable_record n) c = (Ok first :: (systable_error, _) outcome)"
        and entries: "semantic_tables (cpg_rows first) = Ok entries"
        and r: "rfold retain_table (bt_values entries) tables = Ok tables'"
        and st: "st = (tables', add_carrier_page first totals)"
        using f m cc True c by (auto simp: outcome_simps split: if_splits)
      have "cpg_rows first = page_tables parse_page permute key page"
        using carrier_page_rows_eq [OF first] cand
        by (simp add: page page_tables_def Sys_Table.scan_materialized_systable_records_def)
      with semantic_tables_Ok [OF entries] retain_rows_Ok [OF r [unfolded retain_table_def]] assms(2)
      have tabs: "keyed tb_id tables'" "table_meaning ` set (bt_values tables')
          = table_meaning ` set (page_tables parse_page permute key page) \<union> table_meaning ` set (bt_values tables)"
        by (simp_all add: table_state_after_def)
      have tot: "classified_totals (add_carrier_page first totals)"
        using assms(2) carrier_page_classified(1) [OF first] by (simp add: table_state_after_def add_carrier_classified)
      have prefixes: "bt_get (ct_prefixes (add_carrier_page first totals)) k = None \<longleftrightarrow>
          bt_get (cpg_prefixes first) k = None \<and> bt_get (ct_prefixes totals) k = None" for k
        by (simp add: add_carrier_page_def fold_bt_add_keys) (simp add: bt_get_None_iff)
      have without: "ct_without (add_carrier_page first totals) = 0 \<longleftrightarrow> cpg_without first = 0 \<and> ct_without totals = 0"
        by (auto simp: add_carrier_page_def)
      have slots: "table_slots parse_page permute key page = set (tp_slots (em_view c))" and n: "fst page = n"
        using cand by (simp_all add: page)
      show ?thesis
        using tabs tot assms(2)
        unfolding st table_state_after_def fst_conv snd_conv prefixes without carrier_page_unparsed [OF first]
        by (simp only: ball_simps(7) UN_insert slots n simp_thms)
    qed
  qed
qed

lemma collected_systables:
  assumes "collect_materialized_systables parse_page permute key store = Ok c"
  shows "\<exists>tables. c = \<lparr>tc_tables = bt_values tables, tc_totals = tc_totals c\<rparr>
    \<and> table_state_after parse_page permute key (set store) (tables, tc_totals c)"
proof -
  obtain tables totals where
    f: "rfold (collect_table_page parse_page permute key) store ([], no_totals) = Ok (tables, totals)"
    and c: "c = \<lparr>tc_tables = bt_values tables, tc_totals = totals\<rparr>"
    using assms by (auto simp: collect_materialized_systables_def outcome_simps)
  let ?I = "\<lambda>ps st. table_state_after parse_page permute key (set ps) st"
  have "?I store (tables, totals)"
  proof (rule rfold_invariant [OF f, where I = ?I])
    fix ps page st st'
    assume "?I ps st" and "collect_table_page parse_page permute key page st = Ok st'"
    then show "?I (ps @ [page]) st'"
      using collect_table_page_Ok [of parse_page permute key page "fst st" "snd st" st' "set ps"] by simp
  next
    show "?I [] ([], no_totals)"
      by (simp add: table_state_after_def no_totals_classified bt_values_def) (simp add: no_totals_def)
  qed
  then show ?thesis by (auto simp: c)
qed

section \<open>The gate of the required tables\<close>

lemma rfold_unit_Ok: "rfold (\<lambda>x _. f x) xs () = Ok u \<longleftrightarrow> (\<forall>x\<in>set xs. f x = Ok ())"
  by (induction xs) (auto simp: outcome_simps)

lemma required_tables:
  assumes "require_unambiguous_tables c ids = Ok xs"
  shows "map le_table xs = remdups_adj (sort ids)"
    and "ct_without (tc_totals c) = 0" and "t \<in> set ids \<Longrightarrow> bt_get (ct_prefixes (tc_totals c)) t = None"
    and "x \<in> set xs \<Longrightarrow> \<exists>e \<in> set (tc_tables c). tb_id e = le_table x \<and> tb_row_count e = le_row_count x
      \<and> tb_table_pages e = le_table_pages x \<and> tb_ext_pages e = le_ext_pages x"
proof -
  have xs: "rmap (logical_expectation c) (remdups_adj (sort ids)) = Ok xs"
    and gates: "ct_without (tc_totals c) = 0"
      "\<forall>t\<in>set ids. (case bt_get (ct_prefixes (tc_totals c)) t of
          Some n \<Rightarrow> Err (RequiredTableMayConflict t n) | None \<Rightarrow> Ok ()) = Ok ()"
    using assms by (auto simp: require_unambiguous_tables_def Let_def outcome_simps rfold_unit_Ok)
  have one: "le_table y = t \<and> (\<exists>e \<in> set (tc_tables c). tb_id e = le_table y \<and> tb_row_count e = le_row_count y
      \<and> tb_table_pages e = le_table_pages y \<and> tb_ext_pages e = le_ext_pages y)"
    if "logical_expectation c t = Ok y" for t y
    using that by (auto simp: logical_expectation_def outcome_simps catalog_table_def find_Some_iff)
  from xs have all2: "list_all2 (\<lambda>t y. logical_expectation c t = Ok y) (remdups_adj (sort ids)) xs"
    by (simp add: rmap_Ok_iff)
  then show "map le_table xs = remdups_adj (sort ids)"
    using one by (induction rule: list_all2_induct) auto
  show "ct_without (tc_totals c) = 0" by (rule gates)
  show "t \<in> set ids \<Longrightarrow> bt_get (ct_prefixes (tc_totals c)) t = None"
    using gates(2) by (auto split: option.splits)
  show "x \<in> set xs \<Longrightarrow> \<exists>e \<in> set (tc_tables c). tb_id e = le_table x \<and> tb_row_count e = le_row_count x
      \<and> tb_table_pages e = le_table_pages x \<and> tb_ext_pages e = le_ext_pages x"
  proof -
    assume "x \<in> set xs"
    then obtain t where "logical_expectation c t = Ok x" using all2 by (auto simp: list_all2_conv_all_nth in_set_conv_nth)
    from one [OF this] show ?thesis by blast
  qed
qed

lemma required_tables_uncontradicted:
  assumes "collect_materialized_systables parse_page permute key store = Ok c"
    and "require_unambiguous_tables c ids = Ok xs"
    and "page \<in> set store" and "page_candidate 1 parse_page permute key page = Some candidate"
    and "Some (offset, bytes) \<in> set (tp_slots (em_view candidate))" and "34 \<le> length bytes"
  shows "(\<exists>row. parse_materialized_systable_record (fst page) bytes offset = Ok row
        \<and> table_meaning row \<in> table_meaning ` set (tc_tables c))
    \<or> (\<exists>t. self_length_bounded_systable_fixed_prefix_table_id bytes = Some t \<and> t \<notin> set ids)"
proof -
  obtain tables where c: "c = \<lparr>tc_tables = bt_values tables, tc_totals = tc_totals c\<rparr>"
    and st: "table_state_after parse_page permute key (set store) (tables, tc_totals c)"
    using collected_systables [OF assms(1)] by blast
  show ?thesis
  proof (cases "parse_materialized_systable_record (fst page) bytes offset")
    case (Ok row)
    then have "row \<in> set (page_tables parse_page permute key page)"
      using assms(4,5)
      by (auto simp: page_tables_def Sys_Table.scan_materialized_systable_records_def accepted_rows_iff)
    with st assms(3) have "table_meaning row \<in> table_meaning ` set (bt_values tables)"
      by (auto simp: table_state_after_def)
    with Ok c show ?thesis by (metis systable_collection.select_convs(1))
  next
    case (Err u)
    have "\<not> unnamed_table page (Some (offset, bytes))"
      using st assms(3-5) required_tables(2) [OF assms(2)] by (auto simp: table_state_after_def)
    then obtain t where t: "self_length_bounded_systable_fixed_prefix_table_id bytes = Some t"
      using Err assms(6) by (auto simp: unnamed_record_def)
    then have named: "named_table page t (Some (offset, bytes))" using Err assms(6) by (auto simp: named_record_def)
    have slot: "Some (offset, bytes) \<in> table_slots parse_page permute key page" using assms(4,5) by simp
    have "bt_get (ct_prefixes (tc_totals c)) t \<noteq> None"
    proof
      assume "bt_get (ct_prefixes (tc_totals c)) t = None"
      from bspec [OF bspec [OF table_state_prefixes [OF st this] assms(3)] slot] named show False by contradiction
    qed
    then have "t \<notin> set ids" using required_tables(3) [OF assms(2), of t] by auto
    with t show ?thesis by simp
  next
    case Panic
    then show ?thesis by (simp add: parse_materialized_systable_no_panic)
  qed
qed

section \<open>The conflict-free catalog\<close>

text \<open>
  It holds exactly the meanings of the rows that agree with every row of the same id or the same name,
  each once, in the order of the ids.
\<close>

lemma group_indexes_get:
  "bt_get (group_indexes key entries) k =
     (let is = filter (\<lambda>i. key (entries ! i) = k) [0..<length entries] in if is = [] then None else Some is)"
proof (induction entries arbitrary: k rule: rev_induct)
  case (snoc e entries)
  have same: "filter (\<lambda>i. key ((entries @ [e]) ! i) = k) [0..<length entries]
      = filter (\<lambda>i. key (entries ! i) = k) [0..<length entries]" for k
    by (rule filter_cong) (simp_all add: nth_append)
  show ?case
    using snoc unfolding group_indexes_def
    by (simp add: enumerate_append_eq bt_get_insert Let_def same split: option.splits if_splits)
qed (simp add: group_indexes_def)

lemma bt_ok_fold_update: "bt_ok m \<Longrightarrow> bt_ok (fold (\<lambda>x m. bt_insert (f x) (g x m) m) xs m)"
  by (induction xs arbitrary: m) (simp_all add: bt_ok_insert)

lemma group_indexes_values:
  "set (bt_values (group_indexes key entries)) =
     {filter (\<lambda>i. key (entries ! i) = key (entries ! j)) [0..<length entries] | j. j < length entries}"
proof -
  have ok: "bt_ok (group_indexes key entries)"
    unfolding group_indexes_def case_prod_beta by (rule bt_ok_fold_update) simp
  have "is \<in> set (bt_values (group_indexes key entries)) \<longleftrightarrow> (\<exists>k. bt_get (group_indexes key entries) k = Some is)" for "is"
    using bt_get_iff [OF ok] by (force simp: bt_values_def)
  also have "(\<exists>k. bt_get (group_indexes key entries) k = Some is) \<longleftrightarrow>
      (\<exists>j<length entries. is = filter (\<lambda>i. key (entries ! i) = key (entries ! j)) [0..<length entries])" for "is"
  proof
    assume "\<exists>k. bt_get (group_indexes key entries) k = Some is"
    then obtain k where k: "is = filter (\<lambda>i. key (entries ! i) = k) [0..<length entries]" "is \<noteq> []"
      by (auto simp: group_indexes_get Let_def split: if_splits)
    then obtain j where "j < length entries" "key (entries ! j) = k" by (auto simp: filter_empty_conv)
    with k show "\<exists>j<length entries. is = filter (\<lambda>i. key (entries ! i) = key (entries ! j)) [0..<length entries]" by auto
  next
    assume "\<exists>j<length entries. is = filter (\<lambda>i. key (entries ! i) = key (entries ! j)) [0..<length entries]"
    then obtain j where j: "j < length entries"
      and "is": "is = filter (\<lambda>i. key (entries ! i) = key (entries ! j)) [0..<length entries]" by blast
    then have "j \<in> set is" by simp
    then have "is \<noteq> []" by auto
    with "is" have "bt_get (group_indexes key entries) (key (entries ! j)) = Some is" by (simp add: group_indexes_get Let_def)
    then show "\<exists>k. bt_get (group_indexes key entries) k = Some is" by blast
  qed
  finally show ?thesis by blast
qed

lemma reject_groups:
  assumes "length r = length entries" and "i < length entries"
  shows "fold (reject_group entries) gs r ! i \<longleftrightarrow>
     r ! i \<or> (\<exists>g\<in>set gs. i \<in> set g \<and> \<not> list_all (\<lambda>j. table_meaning (entries ! hd g) = table_meaning (entries ! j)) g)"
  using assms(1)
proof (induction gs arbitrary: r)
  case (Cons g gs)
  have mark: "length (fold (\<lambda>i r. r[i := True]) js r) = length r
      \<and> (i < length r \<longrightarrow> fold (\<lambda>i r. r[i := True]) js r ! i = (r ! i \<or> i \<in> set js))" for js i and r :: "bool list"
  proof (induction js arbitrary: r)
    case (Cons j js)
    from Cons.IH [of "r[j := True]"] show ?case by (cases "j = i") auto
  qed simp
  have "length (reject_group entries g r) = length entries" using Cons.prems mark [where r = r and js = g] by (simp add: reject_group_def)
  from Cons.IH [OF this] show ?case
    using mark [where r = r and i = i and js = g] Cons.prems assms(2) by (auto simp: reject_group_def)
qed simp

text \<open>A row is kept when no row with its id or its name says something else.\<close>

definition unconflicted :: "sys_table list \<Rightarrow> sys_table \<Rightarrow> bool" where
  "unconflicted entries e \<longleftrightarrow>
     (\<forall>f\<in>set entries. tb_id f = tb_id e \<or> tb_name f = tb_name e \<longrightarrow> table_meaning f = table_meaning e)"

lemma group_agrees:
  assumes "i < length entries" and that: "g = filter (\<lambda>j. key (entries ! j) = key (entries ! i)) [0..<length entries]"
  shows "list_all (\<lambda>j. table_meaning (entries ! hd g) = table_meaning (entries ! j)) g \<longleftrightarrow>
      (\<forall>f\<in>set entries. key f = key (entries ! i) \<longrightarrow> table_meaning f = table_meaning (entries ! i))"
proof -
  have i: "i \<in> set g" using assms that by simp
  then have hd: "hd g \<in> set g" by (cases g) auto
  have "(\<forall>j\<in>set g. table_meaning (entries ! hd g) = table_meaning (entries ! j)) \<longleftrightarrow>
      (\<forall>j\<in>set g. table_meaning (entries ! j) = table_meaning (entries ! i))"
    using i hd by metis
  also have "\<dots> \<longleftrightarrow> (\<forall>f\<in>set entries. key f = key (entries ! i) \<longrightarrow> table_meaning f = table_meaning (entries ! i))"
    unfolding that all_set_conv_all_nth [of entries] by auto
  finally show ?thesis by (simp add: list_all_iff)
qed

lemma kept_rows:
  assumes "i < length entries"
  shows "fold (reject_group entries)
            (bt_values (group_indexes tb_id entries) @ bt_values (group_indexes tb_name entries))
            (replicate (length entries) False) ! i \<longleftrightarrow> \<not> unconflicted entries (entries ! i)"
proof -
  let ?bad = "\<lambda>g. \<not> list_all (\<lambda>j. table_meaning (entries ! hd g) = table_meaning (entries ! j)) g"
  let ?g = "\<lambda>key j. filter (\<lambda>i. key (entries ! i) = key (entries ! j)) [0..<length entries]"
  have groups: "(\<exists>g\<in>set (bt_values (group_indexes key entries)). i \<in> set g \<and> ?bad g) \<longleftrightarrow> ?bad (?g key i)"
    for key :: "sys_table \<Rightarrow> 'k::linorder"
  proof -
    have "?g key j = ?g key i" if "i \<in> set (?g key j)" for j using that by simp
    then show ?thesis unfolding group_indexes_values using assms by fastforce
  qed
  have "length (replicate (length entries) False) = length entries" by simp
  note r = reject_groups [OF this assms, of "bt_values (group_indexes tb_id entries) @ bt_values (group_indexes tb_name entries)",
      unfolded set_append bex_Un groups group_agrees [OF assms refl]]
  show ?thesis
    unfolding r unconflicted_def using assms by auto
qed

lemma fold_insert_values: "set (bt_values (fold (\<lambda>v. bt_insert (f v) v) vs m)) \<subseteq> set vs \<union> set (bt_values m)"
proof (induction vs arbitrary: m)
  case (Cons v vs)
  have "set (bt_insert k w m) \<subseteq> insert (k, w) (set m)" for k and w :: 'a
    by (induction k w m rule: bt_insert.induct) auto
  then have "set (bt_values (bt_insert (f v) v m)) \<subseteq> insert v (set (bt_values m))"
    by (fastforce simp: bt_values_def)
  with Cons.IH [of "bt_insert (f v) v m"] show ?case by auto
qed simp

lemma collect_conflict_free_rows:
  "sorted_wrt (<) (map (\<lambda>e. (tb_id e, tb_name e)) (collect_conflict_free entries))"
  "set (collect_conflict_free entries) \<subseteq> {e \<in> set entries. unconflicted entries e}"
  "table_meaning ` set (collect_conflict_free entries) = table_meaning ` {e \<in> set entries. unconflicted entries e}"
proof -
  define kept where "kept = List.map_filter
    (\<lambda>(i, e). if fold (reject_group entries)
            (bt_values (group_indexes tb_id entries) @ bt_values (group_indexes tb_name entries))
            (replicate (length entries) False) ! i then None else Some e) (enumerate 0 entries)"
  let ?key = "\<lambda>e. (tb_id e, tb_name e)"
  define m where "m = fold (\<lambda>e. bt_insert (?key e) e) kept []"
  have free: "collect_conflict_free entries = bt_values m"
    by (simp add: collect_conflict_free_def Let_def kept_def m_def)
  have kept: "set kept = {e \<in> set entries. unconflicted entries e}"
  proof -
    let ?rejected = "fold (reject_group entries)
            (bt_values (group_indexes tb_id entries) @ bt_values (group_indexes tb_name entries))
            (replicate (length entries) False)"
    have "e \<in> set kept \<longleftrightarrow> (\<exists>i<length entries. e = entries ! i \<and> \<not> ?rejected ! i)" for e
      unfolding kept_def in_map_filter_iff Bex_def split_paired_Ex in_set_enumerate_eq by (auto split: if_splits)
    then have "e \<in> set kept \<longleftrightarrow> (\<exists>i<length entries. e = entries ! i \<and> unconflicted entries (entries ! i))" for e
      using kept_rows [of _ entries] by auto
    then show ?thesis by (auto simp: in_set_conv_nth)
  qed
  have m: "keyed ?key m" "?key ` set (bt_values m) = ?key ` set kept"
    using keyed_fold [of ?key "[]" kept] by (simp_all add: m_def bt_values_def)
  have sub: "set (bt_values m) \<subseteq> set kept" using fold_insert_values [of ?key kept "[]"] by (simp add: m_def bt_values_def)
  have same: "table_meaning e = table_meaning f" if "e \<in> set kept" "f \<in> set kept" "?key e = ?key f" for e f
  proof -
    have "unconflicted entries f" and "e \<in> set entries" using that(1,2) by (simp_all add: kept)
    with that(3) show ?thesis by (simp add: unconflicted_def)
  qed
  have "table_meaning e \<in> table_meaning ` set (bt_values m)" if "e \<in> set kept" for e
  proof -
    have "?key e \<in> ?key ` set (bt_values m)" using m(2) that by blast
    then obtain f where f: "?key e = ?key f" "f \<in> set (bt_values m)" by (rule imageE)
    from same [OF that subsetD [OF sub f(2)] f(1)] f(2) show ?thesis by (rule image_eqI)
  qed
  then have "table_meaning ` set kept \<subseteq> table_meaning ` set (bt_values m)" by (rule image_subsetI)
  then show "table_meaning ` set (collect_conflict_free entries) = table_meaning ` {e \<in> set entries. unconflicted entries e}"
    unfolding free kept [symmetric] by (rule subset_antisym [OF image_mono [OF sub]])
  show "set (collect_conflict_free entries) \<subseteq> {e \<in> set entries. unconflicted entries e}" using sub kept free by simp
  show "sorted_wrt (<) (map ?key (collect_conflict_free entries))" unfolding free using m(1) by (rule keyed_sorted)
qed

end
