(* ===== verification/Index_Catalog.thy ===== *)
theory Index_Catalog
  imports Sys_Table Column_Facts
begin

text \<open>
  The index catalog and the two diagnostics over it: the rows of \<open>SYSINDEX\<close>
  (\<open>crates/openqbw/src/sysindex.rs\<close>), the attribution of a page to the table whose root lies nearest
  below it (\<open>page_attribution.rs\<close>), their comparison, and the candidate pages of each table
  (\<open>index_root_map.rs\<close>). The pages from which rows are read are decoded by the key recovery, which is
  not modelled, so the catalogs enter as lists.
\<close>

unbundle bit_operations_syntax

section \<open>Rows of the index catalog\<close>

record sys_index =
  ix_owner :: u64
  ix_row_length :: u32
  ix_row_flags :: u8
  ix_candidate :: u32
  ix_name :: string
  ix_page :: u64
  ix_row_offset :: nat
  ix_preamble :: nat

definition is_foreign_key :: "sys_index \<Rightarrow> bool" where
  "is_foreign_key e \<longleftrightarrow> take 5 (ix_name e) = ''fkey_''"

definition is_printable_ascii :: "u8 \<Rightarrow> bool" where
  "is_printable_ascii b \<longleftrightarrow> 0x20 \<le> b \<and> b < 0x7f"

text \<open>One turn of the scan: \<open>None\<close> is a \<open>continue\<close> at the next position.\<close>

definition index_row_at :: "byte list \<Rightarrow> nat \<Rightarrow> u64 \<Rightarrow> nat \<Rightarrow> (unit, sys_index option) outcome" where
  "index_row_at body stop pn pos =
     rbind (bytes_at body (pos + 2) (pos + 4)) (\<lambda>creator.
     if creator \<noteq> [0x01, 0x46] then Ok None
     else
       rbind (bytes_at body (pos + 8) (pos + 12)) (\<lambda>gap.
       if gap \<noteq> [0, 0, 0, 0] then Ok None
       else
         rbind (u32_at body (pos + 4)) (\<lambda>candidate.
         rbind (u64_at body (pos + 12)) (\<lambda>owner.
         if candidate = 0 \<or> owner = 0 then Ok None
         else
           rbind (byte_at body (pos + 20)) (\<lambda>name_len.
           let name_start = pos + 21; name_end = name_start + unat name_len in
           if \<not> (1 \<le> unat name_len \<and> unat name_len \<le> 128) \<or> stop < name_end \<or> pos < 5 then Ok None
           else
             let row_start = pos - 5 in
             rbind (u32_at body row_start) (\<lambda>row_header.
             let row_length = row_header AND 0x00ffffff; row_end = row_start + unat row_length in
             if unat row_length < 27 \<or> stop < row_end \<or> name_end \<noteq> row_end then Ok None
             else
               rbind (bytes_at body name_start name_end) (\<lambda>name_bytes.
               if \<not> list_all is_printable_ascii name_bytes then Ok None
               else
                 Ok (Some \<lparr>ix_owner = owner, ix_row_length = row_length, ix_row_flags = ucast (drop_bit 24 row_header),
                            ix_candidate = candidate, ix_name = bytes_text name_bytes, ix_page = pn,
                            ix_row_offset = row_start, ix_preamble = pos\<rparr>))))))))"

definition index_row_stop :: "sys_index \<Rightarrow> nat" where
  "index_row_stop e = ix_preamble e + 21 + length (ix_name e)"

lemma index_row_position: "index_row_at body stop pn pos = Ok (Some e) \<Longrightarrow> ix_preamble e = pos"
  by (auto simp: index_row_at_def Let_def rbind_Ok_iff split: if_splits)

function index_rows_from :: "byte list \<Rightarrow> nat \<Rightarrow> u64 \<Rightarrow> nat \<Rightarrow> (unit, sys_index list) outcome" where
  "index_rows_from body stop pn pos =
     (if stop < pos + 22 then Ok []
      else
        rbind (index_row_at body stop pn pos) (\<lambda>row.
        case row of
          None \<Rightarrow> index_rows_from body stop pn (pos + 1)
        | Some e \<Rightarrow> rbind (index_rows_from body stop pn (index_row_stop e)) (\<lambda>es. Ok (e # es))))"
  by pat_completeness auto

termination
  by (relation "measure (\<lambda>(_, stop, _, pos). stop - pos)")
    (auto simp: index_row_stop_def dest!: index_row_position)

declare index_rows_from.simps [simp del]

definition scan_index_page :: "byte list \<Rightarrow> u64 \<Rightarrow> (unit, sys_index list) outcome" where
  "scan_index_page body pn =
     (let stop = min (length body) 0xff0 in if stop < 22 then Ok [] else index_rows_from body stop pn 0)"

lemma u64_at_read: "i + 8 \<le> length row \<Longrightarrow> u64_at row i = Ok (from_le_bytes (take 8 (drop i row)))"
  by (simp add: u64_at_Ok)

lemma index_row_at_total:
  assumes "stop \<le> length body" and "pos + 22 \<le> stop"
  shows "\<exists>row. index_row_at body stop pn pos = Ok row"
  using assms
  by (simp add: index_row_at_def Let_def bytes_at_eq byte_at_eq u32_at_eq u64_at_read)

lemma index_rows_from_total: "stop \<le> length body \<Longrightarrow> index_rows_from body stop pn pos \<noteq> Panic"
proof (induction body stop pn pos rule: index_rows_from.induct)
  case (1 body stop pn pos)
  show ?case
  proof (cases "stop < pos + 22")
    case False
    then obtain row where row: "index_row_at body stop pn pos = Ok row"
      using index_row_at_total [of stop body pos pn] 1(3) by auto
    with 1 False show ?thesis
      by (subst index_rows_from.simps) (auto simp: rbind_Panic_iff split: option.split)
  qed (simp add: index_rows_from.simps)
qed

lemma scan_index_page_total: "scan_index_page body pn \<noteq> Panic"
  by (simp add: scan_index_page_def Let_def index_rows_from_total)

text \<open>\<open>collect_unique\<close>, on the rows of the decoded pages: the first sighting of a key is kept.\<close>

definition index_key :: "sys_index \<Rightarrow> u64 \<times> u32 \<times> string" where
  "index_key e = (ix_owner e, ix_candidate e, ix_name e)"

definition unique_indexes :: "sys_index list \<Rightarrow> sys_index list" where
  "unique_indexes entries =
     bt_values (fold (\<lambda>e m. case bt_get m (index_key e) of Some _ \<Rightarrow> m | None \<Rightarrow> bt_insert (index_key e) e m) entries [])"

section \<open>The position heuristic\<close>

datatype attribution_gap = NoCatalogRows | AllRootsZeroed

record page_attribution =
  pa_by_root :: "sys_table list"
  pa_gap :: "attribution_gap option"

definition root_key :: "sys_table \<Rightarrow> u32" where
  "root_key e = (case tb_data_root_page e of Some p \<Rightarrow> p | None \<Rightarrow> 0)"

definition attribution_from_catalog :: "sys_table list \<Rightarrow> page_attribution" where
  "attribution_from_catalog catalog =
     (let by_root = filter (\<lambda>e. case tb_data_root_page e of Some p \<Rightarrow> 0 < p | None \<Rightarrow> False) catalog in
      \<lparr>pa_by_root = sort_key root_key by_root,
       pa_gap = (if by_root \<noteq> [] then None else if catalog = [] then Some NoCatalogRows else Some AllRootsZeroed)\<rparr>)"

text \<open>\<open>partition_point\<close> of a sorted slice is the number of leading elements that satisfy the test.\<close>

definition attribute_page :: "page_attribution \<Rightarrow> u64 \<Rightarrow> sys_table option" where
  "attribute_page attribution page_number =
     (if 2 ^ 32 \<le> unat page_number then None
      else
        let key = ucast page_number; idx = length (takeWhile (\<lambda>e. root_key e \<le> key) (pa_by_root attribution)) in
        if idx = 0 then None
        else
          let e = pa_by_root attribution ! (idx - 1) in
          case (tb_last_page e, tb_data_root_page e) of
            (Some final_page, Some root) \<Rightarrow> if root \<le> final_page \<and> final_page < key then None else Some e
          | _ \<Rightarrow> Some e)"

definition group_pages :: "page_attribution \<Rightarrow> u64 list \<Rightarrow> (string, u64 list) btree" where
  "group_pages attribution pages =
     fold (\<lambda>pn m.
         let key = (case attribute_page attribution pn of Some e \<Rightarrow> tb_name e | None \<Rightarrow> []) in
         bt_insert key ((case bt_get m key of Some ps \<Rightarrow> ps | None \<Rightarrow> []) @ [pn]) m) pages []"

section \<open>Comparing the two\<close>

datatype audit_outcome = Agree | Disagree | Missing | OrphanIndex | AmbiguousOwner

definition classify_audit :: "string option \<Rightarrow> string option \<Rightarrow> audit_outcome" where
  "classify_audit sysindex_name pos_name =
     (case sysindex_name of
        None \<Rightarrow> OrphanIndex
      | Some a \<Rightarrow> (case pos_name of None \<Rightarrow> Missing | Some b \<Rightarrow> if a = b then Agree else Disagree))"

record cross_validation =
  cv_total :: nat
  cv_distinct :: nat
  cv_agree :: nat
  cv_disagree :: nat
  cv_missing :: nat
  cv_orphan :: nat
  cv_ambiguous :: nat
  cv_samples :: "(u32 \<times> string \<times> string \<times> u32 \<times> string) list"

text \<open>The sorted distinct tables of every owner.\<close>

definition tables_by_owner :: "sys_table list \<Rightarrow> (u64, (u32 \<times> string) list) btree" where
  "tables_by_owner tables =
     fold (\<lambda>t m. bt_insert (tb_object t)
         (insort_insert (tb_id t, tb_name t) (case bt_get m (tb_object t) of Some s \<Rightarrow> s | None \<Rightarrow> [])) m) tables []"

definition audit_index ::
    "page_attribution \<Rightarrow> (u64, (u32 \<times> string) list) btree \<Rightarrow> sys_index \<Rightarrow>
     (u32 \<times> u32) list \<times> cross_validation \<Rightarrow> (u32 \<times> u32) list \<times> cross_validation" where
  "audit_index attribution owners e st =
     (case st of (seen, stats) \<Rightarrow>
        case bt_get owners (ix_owner e) of
          None \<Rightarrow> (seen, stats\<lparr>cv_orphan := cv_orphan stats + 1\<rparr>)
        | Some [(table_id, table_name)] \<Rightarrow>
            if (table_id, ix_candidate e) \<in> set seen then (seen, stats)
            else
              let stats = stats\<lparr>cv_distinct := cv_distinct stats + 1\<rparr>;
                  pos_name = map_option tb_name (attribute_page attribution (ucast (ix_candidate e))) in
              (insort_insert (table_id, ix_candidate e) seen,
               case classify_audit (Some table_name) pos_name of
                 Agree \<Rightarrow> stats\<lparr>cv_agree := cv_agree stats + 1\<rparr>
               | Disagree \<Rightarrow>
                   let stats = stats\<lparr>cv_disagree := cv_disagree stats + 1\<rparr> in
                   if length (cv_samples stats) < 16
                   then stats\<lparr>cv_samples := cv_samples stats
                          @ [(table_id, table_name, case pos_name of Some n \<Rightarrow> n | None \<Rightarrow> ''<none>'', ix_candidate e, ix_name e)]\<rparr>
                   else stats
               | Missing \<Rightarrow> stats\<lparr>cv_missing := cv_missing stats + 1\<rparr>
               | OrphanIndex \<Rightarrow> stats\<lparr>cv_orphan := cv_orphan stats + 1\<rparr>
               | AmbiguousOwner \<Rightarrow> stats\<lparr>cv_ambiguous := cv_ambiguous stats + 1\<rparr>)
        | Some _ \<Rightarrow> (seen, stats\<lparr>cv_ambiguous := cv_ambiguous stats + 1\<rparr>))"

definition cross_validate :: "sys_index list \<Rightarrow> page_attribution \<Rightarrow> sys_table list \<Rightarrow> cross_validation" where
  "cross_validate entries attribution tables =
     snd (fold (audit_index attribution (tables_by_owner tables)) entries
       ([], \<lparr>cv_total = length entries, cv_distinct = 0, cv_agree = 0, cv_disagree = 0, cv_missing = 0, cv_orphan = 0,
             cv_ambiguous = 0, cv_samples = []\<rparr>))"

section \<open>The candidate pages of every table\<close>

record index_root =
  ir_page :: u32
  ir_names :: "string list"

record table_index_roots =
  tx_table :: u32
  tx_name :: string
  tx_roots :: "index_root list"

record index_root_map =
  im_tables :: "(u32 \<times> string, table_index_roots) btree"
  im_orphans :: "sys_index list"
  im_invalid :: "sys_index list"
  im_ambiguous :: "(u64 \<times> (u32 \<times> string) list) list"

type_synonym root_names = "((u32 \<times> string) \<times> u32, string list) btree"

definition unique_owners :: "(u64, (u32 \<times> string) list) btree \<Rightarrow> (u64, u32 \<times> string) btree" where
  "unique_owners owners = List.map_filter (\<lambda>(owner, ts). case ts of [t] \<Rightarrow> Some (owner, t) | _ \<Rightarrow> None) owners"

definition map_index ::
    "(u32 \<Rightarrow> bool) \<Rightarrow> (u64, u32 \<times> string) btree \<Rightarrow> sys_index \<Rightarrow>
     (u64 \<times> u32 \<times> string) list \<times> root_names \<times> index_root_map \<Rightarrow>
     (u64 \<times> u32 \<times> string) list \<times> root_names \<times> index_root_map" where
  "map_index is_extent_page owners e st =
     (case st of (seen, roots, m) \<Rightarrow>
        if index_key e \<in> set seen then st
        else
          (insort_insert (index_key e) seen,
           case bt_get owners (ix_owner e) of
             None \<Rightarrow> (roots, m\<lparr>im_orphans := im_orphans m @ [e]\<rparr>)
           | Some table \<Rightarrow>
               if \<not> is_extent_page (ix_candidate e) then (roots, m\<lparr>im_invalid := im_invalid m @ [e]\<rparr>)
               else
                 (bt_insert (table, ix_candidate e)
                    (insort_insert (ix_name e) (case bt_get roots (table, ix_candidate e) of Some s \<Rightarrow> s | None \<Rightarrow> [])) roots,
                  m)))"

definition add_root :: "((u32 \<times> string) \<times> u32) \<times> string list \<Rightarrow> (u32 \<times> string, table_index_roots) btree \<Rightarrow>
    (u32 \<times> string, table_index_roots) btree" where
  "add_root entry m =
     (case entry of ((table, page), names) \<Rightarrow>
        let roots = (case bt_get m table of Some t \<Rightarrow> t
                     | None \<Rightarrow> \<lparr>tx_table = fst table, tx_name = snd table, tx_roots = []\<rparr>) in
        bt_insert table (roots\<lparr>tx_roots := tx_roots roots @ [\<lparr>ir_page = page, ir_names = names\<rparr>]\<rparr>) m)"

definition index_roots_from_catalogs :: "sys_table list \<Rightarrow> sys_index list \<Rightarrow> (u32 \<Rightarrow> bool) \<Rightarrow> index_root_map" where
  "index_roots_from_catalogs tables indexes is_extent_page =
     (let owners = tables_by_owner tables;
          ambiguous = filter (\<lambda>(_, ts). length ts \<noteq> 1) owners in
      case fold (map_index is_extent_page (unique_owners owners)) indexes
             ([], [], \<lparr>im_tables = [], im_orphans = [], im_invalid = [], im_ambiguous = ambiguous\<rparr>) of
        (_, roots, m) \<Rightarrow> m\<lparr>im_tables := fold add_root roots []\<rparr>)"

definition table_roots :: "index_root_map \<Rightarrow> u32 \<Rightarrow> string \<Rightarrow> table_index_roots option" where
  "table_roots m table_id table_name = bt_get (im_tables m) (table_id, table_name)"

section \<open>Which candidates a table has\<close>

definition owned_by :: "sys_table list \<Rightarrow> u64 \<Rightarrow> u32 \<times> string \<Rightarrow> bool" where
  "owned_by tables owner table \<longleftrightarrow> {(tb_id t, tb_name t) |t. t \<in> set tables \<and> tb_object t = owner} = {table}"

lemma tables_by_owner_tallies: "tallies (tables_by_owner tables) ((\<lambda>t. ((tb_id t, tb_name t), tb_object t)) ` set tables)"
proof -
  have "tallies (fold (\<lambda>t m. bt_insert (tb_object t)
      (insort_insert (tb_id t, tb_name t) (case bt_get m (tb_object t) of Some s \<Rightarrow> s | None \<Rightarrow> [])) m) ts m)
      (A \<union> (\<lambda>t. ((tb_id t, tb_name t), tb_object t)) ` set ts)" if "tallies m A" for ts m A
    using that
  proof (induction ts arbitrary: m A)
    case (Cons t ts)
    have "insert ((tb_id t, tb_name t), tb_object t) A \<union> (\<lambda>t. ((tb_id t, tb_name t), tb_object t)) ` set ts
        = A \<union> (\<lambda>t. ((tb_id t, tb_name t), tb_object t)) ` set (t # ts)" by auto
    with Cons.IH [OF tallies_insert [OF Cons.prems, of "tb_object t" "(tb_id t, tb_name t)"]] show ?case by simp
  qed simp
  from this [of "[]" "{}" tables] show ?thesis by (simp add: tables_by_owner_def tallies_def)
qed

lemma map_of_select:
  assumes "distinct (map fst m)"
  shows "map_of (List.map_filter (\<lambda>(k, v). map_option (Pair k) (f v)) m) k = Option.bind (map_of m k) f"
  using assms
proof (induction m)
  case (Cons kv m)
  obtain l v where kv: "kv = (l, v)" by (cases kv)
  have "map_of m k = None" if "l = k" using Cons.prems that by (auto simp: kv map_of_eq_None_iff)
  with Cons show ?case by (cases "f v") (auto simp: kv map_filter_simps)
qed (simp add: map_filter_simps)

lemma unique_owners_get: "bt_get (unique_owners (tables_by_owner tables)) owner = Some table \<longleftrightarrow> owned_by tables owner table"
proof -
  let ?m = "tables_by_owner tables"
  note t = tables_by_owner_tallies [of tables]
  have set: "{k. (k, owner) \<in> (\<lambda>t. ((tb_id t, tb_name t), tb_object t)) ` set tables}
      = {(tb_id t, tb_name t) |t. t \<in> set tables \<and> tb_object t = owner}" by auto
  have eq: "unique_owners ?m = List.map_filter (\<lambda>(k, v). map_option (Pair k) (case v of [t] \<Rightarrow> Some t | _ \<Rightarrow> None)) ?m"
    unfolding unique_owners_def by (rule arg_cong [where f = "\<lambda>f. List.map_filter f ?m"]) (auto split: list.split)
  have "bt_ok ?m" using t by (simp add: tallies_def)
  then have get: "bt_get (unique_owners ?m) owner = Option.bind (bt_get ?m owner) (\<lambda>v. case v of [t] \<Rightarrow> Some t | _ \<Rightarrow> None)"
    unfolding eq bt_get_def by (intro map_of_select) (rule bt_ok_distinct)
  show ?thesis
  proof (cases "bt_get ?m owner")
    case None
    then show ?thesis using tallies_cases(1) [OF t None] unfolding set get by (auto simp: owned_by_def)
  next
    case (Some ts)
    have ts: "sorted_set ts {(tb_id t, tb_name t) |t. t \<in> set tables \<and> tb_object t = owner}"
      using tallies_cases(2) [OF t Some] unfolding set by blast
    then have "ts = [table] \<longleftrightarrow> owned_by tables owner table"
      unfolding owned_by_def sorted_set_def using distinct_set_singleton by (metis list.set(1,2) empty_set)
    then show ?thesis by (auto simp: get Some split: list.splits)
  qed
qed

text \<open>What the loop over the rows has done after a prefix of them.\<close>

definition rooted_names ::
    "(u64 \<Rightarrow> (u32 \<times> string) option) \<Rightarrow> (u32 \<Rightarrow> bool) \<Rightarrow> sys_index list \<Rightarrow> (string \<times> (u32 \<times> string) \<times> u32) set" where
  "rooted_names owner_of is_extent_page es =
     {(ix_name e, table, ix_candidate e) |e table. e \<in> set es \<and> owner_of (ix_owner e) = Some table \<and> is_extent_page (ix_candidate e)}"

definition mapped_so_far ::
    "(u64 \<Rightarrow> (u32 \<times> string) option) \<Rightarrow> (u32 \<Rightarrow> bool) \<Rightarrow> sys_index list \<Rightarrow>
     (u64 \<times> u32 \<times> string) list \<times> root_names \<times> index_root_map \<Rightarrow> bool" where
  "mapped_so_far owner_of is_extent_page es st \<longleftrightarrow>
     (case st of (seen, roots, m) \<Rightarrow>
        set seen = index_key ` set es \<and> tallies roots (rooted_names owner_of is_extent_page es)
        \<and> index_key ` set (im_orphans m) = index_key ` {e \<in> set es. owner_of (ix_owner e) = None}
        \<and> index_key ` set (im_invalid m)
            = index_key ` {e \<in> set es. owner_of (ix_owner e) \<noteq> None \<and> \<not> is_extent_page (ix_candidate e)})"

lemma map_index_step:
  assumes "mapped_so_far (bt_get owners) is_extent_page es st"
  shows "mapped_so_far (bt_get owners) is_extent_page (es @ [e]) (map_index is_extent_page owners e st)"
proof -
  obtain seen roots m where st: "st = (seen, roots, m)" by (cases st) auto
  note I = assms [unfolded mapped_so_far_def st prod.case]
  show ?thesis
  proof (cases "index_key e \<in> set seen")
    case True
    then obtain f where f: "f \<in> set es" and "index_key f = index_key e" using I by auto
    then have same: "ix_owner f = ix_owner e" "ix_candidate f = ix_candidate e" "ix_name f = ix_name e"
      by (simp_all add: index_key_def)
    have "rooted_names (bt_get owners) is_extent_page (es @ [e]) = rooted_names (bt_get owners) is_extent_page es"
      using f same by (auto simp: rooted_names_def) metis+
    moreover have "index_key ` {g \<in> set (es @ [e]). P (ix_owner g) (ix_candidate g)}
        = index_key ` {g \<in> set es. P (ix_owner g) (ix_candidate g)}" for P
      using f same \<open>index_key f = index_key e\<close> by (auto simp: image_iff) metis
    note this [of "\<lambda>owner _. bt_get owners owner = None"] this [of "\<lambda>owner c. bt_get owners owner \<noteq> None \<and> \<not> is_extent_page c"]
    ultimately show ?thesis using I True by (auto simp: mapped_so_far_def map_index_def st)
  next
    case False
    have roots: "rooted_names (bt_get owners) is_extent_page (es @ [e]) =
        (case bt_get owners (ix_owner e) of
           Some table \<Rightarrow> if is_extent_page (ix_candidate e)
             then insert (ix_name e, table, ix_candidate e) (rooted_names (bt_get owners) is_extent_page es)
             else rooted_names (bt_get owners) is_extent_page es
         | None \<Rightarrow> rooted_names (bt_get owners) is_extent_page es)"
      by (auto simp: rooted_names_def split: option.split)
    have more: "{g \<in> set (es @ [e]). P g} = (if P e then insert e {g \<in> set es. P g} else {g \<in> set es. P g})" for P
      by auto
    show ?thesis
      unfolding mapped_so_far_def map_index_def st prod.case more roots using I False
      by (auto simp: set_insort_insert tallies_insert split: option.split)
  qed
qed

lemma map_indexes:
  assumes "mapped_so_far (bt_get owners) is_extent_page es st"
  shows "mapped_so_far (bt_get owners) is_extent_page (es @ xs) (fold (map_index is_extent_page owners) xs st)"
  using assms
proof (induction xs arbitrary: es st)
  case (Cons x xs)
  from Cons.IH [OF map_index_step [OF Cons.prems, of x]] show ?case by simp
qed simp

definition root_entries :: "(u32 \<times> string, table_index_roots) btree \<Rightarrow> (((u32 \<times> string) \<times> u32) \<times> string list) set" where
  "root_entries m =
     {((table, page), names). case bt_get m table of
        Some t \<Rightarrow> \<lparr>ir_page = page, ir_names = names\<rparr> \<in> set (tx_roots t) | None \<Rightarrow> False}"

lemma root_entries_add: "root_entries (add_root entry m) = insert entry (root_entries m)"
proof -
  obtain table page names where entry: "entry = ((table, page), names)" by (cases entry) auto
  show ?thesis
    by (cases "bt_get m table") (auto simp: root_entries_def add_root_def entry bt_get_insert Let_def split: if_splits option.splits)
qed

lemma root_entries_fold: "root_entries (fold add_root roots m) = set roots \<union> root_entries m"
  by (induction roots arbitrary: m) (auto simp: root_entries_add)

lemma index_roots_exact:
  fixes tables :: "sys_table list" and indexes :: "sys_index list" and is_extent_page :: "u32 \<Rightarrow> bool"
  defines "m \<equiv> index_roots_from_catalogs tables indexes is_extent_page"
  shows "{(table, ir_page root, n) |table t root n. bt_get (im_tables m) table = Some t \<and> root \<in> set (tx_roots t)
           \<and> n \<in> set (ir_names root)}
      = {(table, ix_candidate e, ix_name e) |table e. e \<in> set indexes \<and> owned_by tables (ix_owner e) table
           \<and> is_extent_page (ix_candidate e)}"
    and "index_key ` set (im_orphans m) = index_key ` {e \<in> set indexes. \<not> (\<exists>table. owned_by tables (ix_owner e) table)}"
    and "index_key ` set (im_invalid m)
      = index_key ` {e \<in> set indexes. (\<exists>table. owned_by tables (ix_owner e) table) \<and> \<not> is_extent_page (ix_candidate e)}"
proof -
  let ?owners = "unique_owners (tables_by_owner tables)"
  let ?start = "([], [], \<lparr>im_tables = [], im_orphans = [], im_invalid = [],
      im_ambiguous = filter (\<lambda>(_, ts). length ts \<noteq> 1) (tables_by_owner tables)\<rparr>)"
  obtain seen roots m' where run: "fold (map_index is_extent_page ?owners) indexes ?start = (seen, roots, m')"
    by (cases "fold (map_index is_extent_page ?owners) indexes ?start") auto
  have "mapped_so_far (bt_get ?owners) is_extent_page [] ?start"
    by (auto simp: mapped_so_far_def rooted_names_def tallies_def)
  from map_indexes [OF this, of indexes]
  have I: "mapped_so_far (bt_get ?owners) is_extent_page indexes (seen, roots, m')" by (simp only: run append_Nil)
  have m: "m = m'\<lparr>im_tables := fold add_root roots []\<rparr>" unfolding m_def index_roots_from_catalogs_def Let_def run prod.case ..
  have none: "bt_get ?owners owner = None \<longleftrightarrow> \<not> (\<exists>table. owned_by tables owner table)" for owner
    using unique_owners_get [of tables owner] by (metis option.exhaust option.distinct(1))
  show "index_key ` set (im_orphans m) = index_key ` {e \<in> set indexes. \<not> (\<exists>table. owned_by tables (ix_owner e) table)}"
    and "index_key ` set (im_invalid m)
      = index_key ` {e \<in> set indexes. (\<exists>table. owned_by tables (ix_owner e) table) \<and> \<not> is_extent_page (ix_candidate e)}"
    using I by (simp_all add: m mapped_so_far_def none)
  have t: "tallies roots (rooted_names (bt_get ?owners) is_extent_page indexes)" using I by (simp add: mapped_so_far_def)
  then have "bt_ok roots" by (simp add: tallies_def)
  have names: "(\<exists>ns. (tp, ns) \<in> set roots \<and> n \<in> set ns) \<longleftrightarrow> (n, tp) \<in> rooted_names (bt_get ?owners) is_extent_page indexes" for tp n
    using tallies_cases [OF t, of tp] bt_get_iff [OF \<open>bt_ok roots\<close>, of tp]
    by (cases "bt_get roots tp") (auto simp: sorted_set_def)
  have entries: "root_entries (im_tables m) = set roots" by (simp add: m root_entries_fold) (auto simp: root_entries_def)
  have mem: "((table, page), ns) \<in> set roots \<longleftrightarrow> (case bt_get (im_tables m) table of
      Some t \<Rightarrow> \<lparr>ir_page = page, ir_names = ns\<rparr> \<in> set (tx_roots t) | None \<Rightarrow> False)" for table page ns
    unfolding entries [symmetric] root_entries_def by simp
  have field: "(\<exists>root \<in> set roots. ir_page root = page \<and> n \<in> set (ir_names root))
      \<longleftrightarrow> (\<exists>ns. \<lparr>ir_page = page, ir_names = ns\<rparr> \<in> set roots \<and> n \<in> set ns)" for roots page n
    by (metis index_root.surjective old.unit.exhaust index_root.select_convs(1,2))
  have found: "(\<exists>t. bt_get (im_tables m) table = Some t \<and> (\<exists>root \<in> set (tx_roots t). ir_page root = page \<and> n \<in> set (ir_names root)))
      \<longleftrightarrow> (n, table, page) \<in> rooted_names (bt_get ?owners) is_extent_page indexes" for table page n
    unfolding names [symmetric] mem field by (auto split: option.splits)
  have rooted: "(n, table, page) \<in> rooted_names (bt_get ?owners) is_extent_page indexes
      \<longleftrightarrow> (\<exists>e \<in> set indexes. ix_name e = n \<and> ix_candidate e = page \<and> owned_by tables (ix_owner e) table \<and> is_extent_page page)"
    for table page n
    unfolding rooted_names_def unique_owners_get by (cases table) auto
  show "{(table, ir_page root, n) |table t root n. bt_get (im_tables m) table = Some t \<and> root \<in> set (tx_roots t)
           \<and> n \<in> set (ir_names root)}
      = {(table, ix_candidate e, ix_name e) |table e. e \<in> set indexes \<and> owned_by tables (ix_owner e) table
           \<and> is_extent_page (ix_candidate e)}" (is "?L = ?R")
  proof (intro set_eqI)
    fix x :: "(u32 \<times> string) \<times> u32 \<times> string"
    obtain ident name page n where x: "x = ((ident, name), page, n)" by (cases x) auto
    have "x \<in> ?L \<longleftrightarrow> (\<exists>t. bt_get (im_tables m) (ident, name) = Some t
        \<and> (\<exists>root \<in> set (tx_roots t). ir_page root = page \<and> n \<in> set (ir_names root)))"
      unfolding x by auto
    also have "\<dots> \<longleftrightarrow> x \<in> ?R" unfolding found rooted x by auto
    finally show "x \<in> ?L \<longleftrightarrow> x \<in> ?R" .
  qed
qed

section \<open>The page a table is attributed\<close>

definition nearest_root :: "sys_table list \<Rightarrow> u64 \<Rightarrow> sys_table \<Rightarrow> bool" where
  "nearest_root catalog page e \<longleftrightarrow>
     e \<in> set catalog \<and> 0 < root_key e \<and> unat (root_key e) \<le> unat page \<and> unat page < 2 ^ 32
     \<and> list_all (\<lambda>other. unat (root_key other) \<le> unat page \<longrightarrow> root_key other \<le> root_key e) catalog
     \<and> (case tb_last_page e of Some n \<Rightarrow> root_key e \<le> n \<longrightarrow> unat page \<le> unat n | None \<Rightarrow> True)"

lemma last_leading:
  assumes "sorted (map f xs)" and "0 < length (takeWhile (\<lambda>x. f x \<le> k) xs)"
  shows "xs ! (length (takeWhile (\<lambda>x. f x \<le> k) xs) - 1) \<in> set xs"
    and "f (xs ! (length (takeWhile (\<lambda>x. f x \<le> k) xs) - 1)) \<le> k"
    and "y \<in> set xs \<Longrightarrow> f y \<le> k \<Longrightarrow> f y \<le> f (xs ! (length (takeWhile (\<lambda>x. f x \<le> k) xs) - 1))"
proof -
  let ?ys = "takeWhile (\<lambda>x. f x \<le> k) xs"
  let ?i = "length ?ys - 1"
  have i: "?i < length ?ys" using assms(2) by simp
  then have at: "xs ! ?i = ?ys ! ?i" by (rule takeWhile_nth [symmetric])
  have "?ys ! ?i \<in> set ?ys" using i by (rule nth_mem)
  then show "xs ! ?i \<in> set xs" and "f (xs ! ?i) \<le> k" unfolding at by (auto dest: set_takeWhileD)
  show "f y \<le> f (xs ! ?i)" if "y \<in> set xs" and "f y \<le> k"
  proof -
    obtain j where j: "j < length xs" "xs ! j = y" using \<open>y \<in> set xs\<close> by (auto simp: in_set_conv_nth)
    have len: "length ?ys \<le> length xs" by (rule length_takeWhile_le)
    have "j \<le> ?i"
    proof (rule ccontr)
      assume "\<not> j \<le> ?i"
      then have "length ?ys \<le> j" by simp
      then have "length ?ys < length xs" and "f (xs ! length ?ys) \<le> f y"
        using j assms(1) by (auto simp: sorted_iff_nth_mono)
      then show False using nth_length_takeWhile [of "\<lambda>x. f x \<le> k" xs] \<open>f y \<le> k\<close> by auto
    qed
    then show ?thesis using j i len assms(1) by (auto simp: sorted_iff_nth_mono)
  qed
qed

lemma attribute_page_nearest:
  assumes "attribute_page (attribution_from_catalog catalog) page = Some e"
  shows "nearest_root catalog page e"
proof -
  let ?roots = "filter (\<lambda>e. case tb_data_root_page e of Some p \<Rightarrow> 0 < p | None \<Rightarrow> False) catalog"
  let ?key = "ucast page :: u32"
  let ?n = "length (takeWhile (\<lambda>e. root_key e \<le> ?key) (sort_key root_key ?roots))"
  have page: "unat page < 2 ^ 32" and n: "0 < ?n"
    and chosen: "(let e = sort_key root_key ?roots ! (?n - 1) in
      case (tb_last_page e, tb_data_root_page e) of
        (Some final_page, Some root) \<Rightarrow> if root \<le> final_page \<and> final_page < ?key then None else Some e
      | _ \<Rightarrow> Some e) = Some e"
    using assms by (auto simp: attribute_page_def attribution_from_catalog_def Let_def split: if_split_asm)
  have e: "e = sort_key root_key ?roots ! (?n - 1)"
    using chosen by (simp add: Let_def split: if_splits option.splits)
  have key: "unat ?key = unat page" using page by (simp add: unsigned_ucast_eq take_bit_nat_eq_self)
  have sorted: "sorted (map root_key (sort_key root_key ?roots))" by simp
  note last = last_leading [OF sorted n, folded e]
  have "e \<in> set ?roots" using last(1) by simp
  then obtain r where r: "tb_data_root_page e = Some r" by (auto split: option.splits)
  have trim: "case tb_last_page e of Some n \<Rightarrow> root_key e \<le> n \<longrightarrow> ?key \<le> n | None \<Rightarrow> True"
    using chosen unfolding e [symmetric] by (auto simp: r root_key_def split: option.splits if_splits)
  have root: "e \<in> set catalog" "0 < root_key e" using last(1) by (auto simp: root_key_def split: option.splits)
  have "root_key other \<le> root_key e" if "other \<in> set catalog" "unat (root_key other) \<le> unat page" for other
  proof (cases "other \<in> set ?roots")
    case True
    then show ?thesis using last(3) [of other] that(2) by (simp add: word_le_nat_alt key)
  next
    case False
    then have "root_key other = 0" using that(1) by (auto simp: root_key_def word_gt_0 split: option.splits)
    then show ?thesis by simp
  qed
  then show ?thesis
    using root last(2) page trim by (auto simp: nearest_root_def list_all_iff word_le_nat_alt key split: option.splits)
qed

section \<open>The comparison counts every row once\<close>

definition audit_balanced :: "nat \<Rightarrow> (u32 \<times> u32) list \<times> cross_validation \<Rightarrow> bool" where
  "audit_balanced n st \<longleftrightarrow>
     (case st of (seen, stats) \<Rightarrow>
        distinct seen \<and> cv_distinct stats = length seen
        \<and> cv_agree stats + cv_disagree stats + cv_missing stats = cv_distinct stats
        \<and> cv_orphan stats + cv_ambiguous stats + cv_distinct stats \<le> n
        \<and> length (cv_samples stats) = min 16 (cv_disagree stats))"

lemma audit_index_balanced:
  assumes "audit_balanced n st"
  shows "audit_balanced (Suc n) (audit_index attribution owners e st)"
proof -
  obtain seen stats where st: "st = (seen, stats)" by (cases st)
  show ?thesis
    using assms
    by (auto simp: st audit_balanced_def audit_index_def Let_def classify_audit_def distinct_insort_insert
      insort_insert_insort length_insort distinct_insort split: option.split list.split)
qed

lemma cross_validate_balanced:
  "cv_total (cross_validate entries attribution tables) = length entries
   \<and> (\<exists>seen. audit_balanced (length entries) (seen, cross_validate entries attribution tables))"
proof -
  have total: "cv_total (snd (audit_index attribution owners e st)) = cv_total (snd st)" for owners e st
    by (cases st) (auto simp: audit_index_def Let_def classify_audit_def split: option.split list.split)
  have totals: "cv_total (snd (fold (audit_index attribution owners) es st)) = cv_total (snd st)" for owners es st
    by (induction es arbitrary: st) (simp_all add: total)
  have "audit_balanced (n + length es) (fold (audit_index attribution owners) es st)" if "audit_balanced n st" for n owners es st
    using that
  proof (induction es arbitrary: n st)
    case (Cons e es)
    from Cons.IH [OF audit_index_balanced [OF Cons.prems]] show ?case by simp
  qed simp
  from this [of 0]
  have run: "audit_balanced (length entries) (fold (audit_index attribution (tables_by_owner tables)) entries ([], c))"
    if "audit_balanced 0 ([], c)" for c using that by fastforce
  let ?start = "\<lparr>cv_total = length entries, cv_distinct = 0, cv_agree = 0, cv_disagree = 0, cv_missing = 0, cv_orphan = 0,
      cv_ambiguous = 0, cv_samples = []\<rparr>"
  have "audit_balanced (length entries) (fold (audit_index attribution (tables_by_owner tables)) entries ([], ?start))"
    by (rule run) (simp add: audit_balanced_def)
  then show ?thesis unfolding cross_validate_def totals by (metis prod.collapse cross_validation.select_convs(1) snd_conv)
qed

end
