(* ===== verification/Example_Store.thy ===== *)
theory Example_Store
  imports Table_Scan Table_Facts
begin

text \<open>
  A page store on which the hypotheses of the page and catalog properties hold: one raw page, the
  sector permutation that leaves a sector as it is, and a page parser that finds a given directory in
  every page. The first sector of the raw page is one that key 0 gives with step 1, increment 1 and
  seed 0, so the page has a header candidate; the table identity is the byte at 0x18.
\<close>

definition example_raw :: "u8 \<Rightarrow> byte list" where
  "example_raw t = [0, 0, 255, 254, 253] @ replicate 19 0 @ [t, 0, 0, 0] @ replicate 4068 0"

definition example_permute :: sector_permutation where
  "example_permute bytes tail key = Some bytes"

definition example_parser :: "(nat \<times> byte list) option list \<Rightarrow> page_parser" where
  "example_parser slots bytes = Some \<lparr>tp_key = 0, tp_slots = slots\<rparr>"

definition example_key :: transform_key where
  "example_key = from_high_word 0"

definition example_page :: "u8 \<Rightarrow> (nat \<times> byte list) option list \<Rightarrow> enterprise_page" where
  "example_page t slots =
     \<lparr>em_bytes = relocate_header_trailer (example_raw t), em_view = \<lparr>tp_key = 0, tp_slots = slots\<rparr>\<rparr>"

lemma length_example_raw: "length (example_raw t) = page_len"
  by (simp add: example_raw_def page_len_def)

text \<open>The identity on sectors leaves the page as it is.\<close>

lemma transform_example:
  assumes "length page = page_len"
  shows "transform_page example_permute key page = Ok page"
proof -
  have same: "transform_sector example_permute key s page = Ok page" if "s < 8" for s
  proof -
    have "s * 512 + 512 \<le> length page" using that assms by (simp add: page_len_def)
    then have "splice (s * 512) (slice_of page (s * 512) (s * 512 + 512)) page = page"
      using split_at [of "s * 512" page 512] append_take_drop_id [of "s * 512" page]
      by (simp add: splice_def slice_of_def min_def)
    then show ?thesis by (simp add: transform_sector_def example_permute_def Let_def sector_len_def ok_or_def)
  qed
  have "set ss \<subseteq> {..<8} \<Longrightarrow> rfold (transform_sector example_permute key) ss page = Ok page" for ss
    by (induction ss) (simp_all add: same)
  then show ?thesis unfolding transform_page_def by (simp add: subset_iff)
qed

lemma example_header: "(1, 1, 0) \<in> set (recover_header_candidates (take sector_len (example_raw t)) 0)"
proof -
  have "cycle_rank 1 i = i" if "i < 4" for i
    using that by (intro cycle_rank_eq) (simp_all add: cycle_pos_def)
  moreover have "to_le_bytes (0 :: u32) = [0, 0, 0, 0]" by code_simp
  moreover have "i = 0 \<or> i = 1 \<or> i = 2 \<or> i = 3" if "i < 4" for i :: nat using that by linarith
  ultimately show ?thesis
    unfolding recover_header_candidates_iff reproduces_key_def
    by (fastforce simp: odd_byte_def example_raw_def sector_len_def)
qed

lemma example_signed_key: "0 \<in> set (signed_key_candidates_for_context (1, 1, 0) example_key)"
proof -
  have mem: "x \<in> set (fold (\<lambda>c found. if c \<in> set found then found else found @ [c]) xs ys)
      \<longleftrightarrow> x \<in> set xs \<or> x \<in> set ys" for x :: u32 and xs ys
    by (induction xs arbitrary: ys) auto
  have "key_parts 0 0 0 = 0" by (simp add: key_parts_def)
  moreover have "key_parts 0 0 0 \<in> set (key_magnitudes 1 0 1)" by (simp add: key_magnitudes_def)
  ultimately have "0 \<in> set (signed_key_candidates (1, 1, 0))"
    by (simp add: signed_key_candidates_def positive_signed_key_candidates_def mem Let_def)
  then show ?thesis
    by (simp add: signed_key_candidates_for_context_def example_key_def from_high_word_def key_negative_def key_high_word_def)
qed

lemma example_candidates:
  "materialize_candidates_with_key (example_parser slots) example_permute (example_raw t) 0 example_key
     = Ok [example_page t slots]"
proof -
  let ?hs = "recover_header_candidates (take sector_len (example_raw t)) 0"
  let ?keys = "concat (map (\<lambda>h. signed_key_candidates_for_context h example_key) ?hs)"
  have keys: "0 \<in> set ?keys" using example_header example_signed_key by auto
  have step: "materialize_step (example_parser slots) example_permute (example_raw t) 0 k m
      = Ok (bt_insert (relocate_header_trailer (example_raw t)) \<lparr>tp_key = 0, tp_slots = slots\<rparr> m)" for k m
    by (simp add: materialize_step_def transform_example length_example_raw example_parser_def)
  have same: "bt_insert b v [(b, v)] = [(b, v)]" for b :: "byte list" and v :: table_page by simp
  have "rfold (materialize_step (example_parser slots) example_permute (example_raw t) 0) ks
        [(relocate_header_trailer (example_raw t), \<lparr>tp_key = 0, tp_slots = slots\<rparr>)]
      = Ok [(relocate_header_trailer (example_raw t), \<lparr>tp_key = 0, tp_slots = slots\<rparr>)]" for ks
    by (induction ks) (simp_all add: step same)
  then have "rfold (materialize_step (example_parser slots) example_permute (example_raw t) 0) ?keys []
      = Ok [(relocate_header_trailer (example_raw t), \<lparr>tp_key = 0, tp_slots = slots\<rparr>)]"
    using keys by (cases ?keys) (simp_all add: step)
  moreover have "?hs \<noteq> []" using example_header [of t] by (metis empty_iff empty_set)
  moreover have "checked_page_key (example_raw t) 0 = Ok 0"
    by (simp add: checked_page_key_def length_example_raw)
  ultimately show ?thesis
    by (simp add: materialize_candidates_with_key_def Let_def materialized_pages_with_signed_keys_def
        example_page_def)
qed

lemma example_table_id:
  assumes "t \<noteq> 0"
  shows "materialized_table_id (example_parser slots) (em_bytes (example_page t slots)) = Ok (ucast t)"
proof -
  let ?page = "relocate_header_trailer (example_raw t)"
  have "?page ! (24 + i) = example_raw t ! (24 + i)" if "i < 4" for i
    using that by (subst nth_relocate) (simp_all add: length_example_raw page_len_def relocated_from_def)
  from this [of 0] this [of 1] this [of 2] this [of 3]
  have "?page ! 24 = example_raw t ! 24" "?page ! 25 = example_raw t ! 25" "?page ! 26 = example_raw t ! 26"
    "?page ! 27 = example_raw t ! 27" by simp_all
  moreover have "example_raw t ! 24 = t" "example_raw t ! 25 = 0" "example_raw t ! 26 = 0" "example_raw t ! 27 = 0"
    by (simp_all add: example_raw_def nth_append)
  ultimately have b: "?page ! 24 = t" "?page ! 25 = 0" "?page ! 26 = 0" "?page ! 27 = 0" by simp_all
  have len: "length ?page = 4096" by (simp add: length_relocate length_example_raw page_len_def)
  have four: "take 4 xs = [xs ! 0, xs ! 1, xs ! 2, xs ! 3]" if "4 \<le> length xs" for xs :: "byte list"
    using that by (auto simp: numeral_eq_Suc Suc_le_length_iff)
  have "take 4 (drop 24 ?page) = [?page ! 24, ?page ! 25, ?page ! 26, ?page ! 27]"
    using four [of "drop 24 ?page"] len by simp
  then have "le32 ?page 24 = ucast t" unfolding le32_def by (simp add: b from_le_bytes_def)
  moreover have "unat (ucast t :: u32) = unat t"
    using unat_byte_less [of t] by (simp only: unsigned_ucast_eq) (simp add: take_bit_nat_eq_self)
  then have "(ucast t :: u32) \<noteq> 0" using assms by (metis unat_0 unat_eq_zero)
  ultimately show ?thesis using len by (simp add: materialized_table_id_def example_parser_def example_page_def)
qed

lemma example_carrier:
  assumes "t \<noteq> 0"
  shows "carrier_choice (example_parser slots) (ucast t) [example_page t slots] = Ok True"
  using example_table_id [OF assms, of slots] by (simp add: carrier_choice_def Let_def List.map_filter_simps)

end
