(* ===== verification/Schema_Adapter.thy ===== *)
theory Schema_Adapter
  imports Row_Schema Sys_Table Column_Facts Table_Facts
begin

text \<open>
  From catalog columns to typed row schemas, \<open>crates/openqbw/src/schema_adapter.rs\<close>, and the
  versioned allowlist of catalog schemas, \<open>enterprise24_schema_manifest.rs\<close>. The map from domain
  numbers to column types, \<open>ColumnType::from_domain_id\<close> of another crate, is the parameter \<open>domain_type\<close>.
\<close>

section \<open>Schemas of complete tables\<close>

record coverage_attestation =
  cov_table :: u32
  cov_count :: u32

record storage_attestation =
  sto_uncompressed :: bool
  sto_boolean_tail :: boolean_tail_layout
  sto_numeric :: numeric_layout
  sto_enum :: enum_layout
  sto_overflow :: variable_overflow_layout
  sto_length :: variable_length_layout
  sto_null_layout :: null_bitmap_layout
  sto_null_coverage :: null_bitmap_coverage
  sto_prefix :: row_prefix_layout

record default_envelope =
  env_column :: u32
  env_flags :: u8
  env_bytes :: "byte list"

datatype schema_error =
    SchemaZeroTableId
  | SchemaZeroColumnCount
  | CompressionNotProven u32
  | CoverageCountMismatch u32 u32 nat
  | WrongTable u32 u32 u32
  | DuplicateOrdinal u32 u32
  | NonContiguousOrdinal u32 u32 u32
  | InvalidCatalogMetadata u32 u32
  | CatalogDefaultNotAttested u32 u32 u8 nat
  | EmptyColumnName u32 u32
  | UnknownDomain u32 u32 u16
  | EnumDomainUnsupported u32 u32
  | WidthOutOfBounds u32 u32 u32
  | InvalidWidth u32 u32 u32 u16

definition coverage_attestation_new :: "u32 \<Rightarrow> u32 \<Rightarrow> (schema_error, coverage_attestation) outcome" where
  "coverage_attestation_new table_id column_count =
     (if table_id = 0 then Err SchemaZeroTableId
      else if column_count = 0 then Err SchemaZeroColumnCount
      else Ok \<lparr>cov_table = table_id, cov_count = column_count\<rparr>)"

definition valid_width :: "column_type \<Rightarrow> nat \<Rightarrow> int \<Rightarrow> bool" where
  "valid_width ty width scale =
     (case ty of
        ColSmallInt \<Rightarrow> width = 2
      | ColInteger \<Rightarrow> width \<in> {1, 2, 4, 8}
      | ColInteger2 \<Rightarrow> width \<in> {1, 2, 4, 8}
      | ColUInt64 \<Rightarrow> width = 8
      | ColInt64 \<Rightarrow> width = 8
      | ColUInt32 \<Rightarrow> width = 4
      | ColDate \<Rightarrow> width = 4
      | ColDateTime \<Rightarrow> width = 8
      | ColNumeric \<Rightarrow> width \<noteq> 0 \<and> 0 \<le> scale \<and> scale \<le> int width
      | ColEnum \<Rightarrow> width \<in> {1, 2, 4, 8}
      | _ \<Rightarrow> True)"

definition validate_width :: "sys_column \<Rightarrow> column_type \<Rightarrow> u32 \<Rightarrow> (schema_error, u16) outcome" where
  "validate_width column ty table_id =
     (let width = unat (col_width column) in
      if 2 ^ 16 \<le> width then Err (WidthOutOfBounds table_id (col_ordinal column) (col_width column))
      else if \<not> valid_width ty width (sint (col_scale column))
      then Err (InvalidWidth table_id (col_ordinal column) (col_width column) (col_domain column))
      else Ok (word_of_nat width))"

definition has_default :: "sys_column \<Rightarrow> bool" where
  "has_default column \<longleftrightarrow> col_row_flags column \<noteq> 0 \<or> col_post_name column \<noteq> []"

definition default_attested :: "default_envelope list \<Rightarrow> sys_column \<Rightarrow> bool" where
  "default_attested envelopes column \<longleftrightarrow>
     list_ex (\<lambda>e. env_column e = col_ordinal column \<and> env_flags e = col_row_flags column
        \<and> env_bytes e = col_post_name column) envelopes"

definition adapt_column ::
    "(u16 \<Rightarrow> column_type option) \<Rightarrow> coverage_attestation \<Rightarrow> storage_attestation \<Rightarrow> default_envelope list \<Rightarrow>
     nat \<times> sys_column \<Rightarrow> column_def list \<Rightarrow> (schema_error, column_def list) outcome" where
  "adapt_column domain_type coverage storage defaults ic definitions =
     (case ic of (offset, column) \<Rightarrow>
        let table_id = cov_table coverage; column_id = col_ordinal column in
        rbind (ensure (col_table column = table_id) (WrongTable table_id (col_table column) column_id)) (\<lambda>_.
        rbind (or_panic (if offset + 1 < 2 ^ 32 then Some (word_of_nat (offset + 1)) else None)) (\<lambda>expected_id.
        rbind (if column_id = expected_id then Ok ()
               else
                 rbind (if 0 < offset
                        then rbind (or_panic (if definitions = [] then None else Some (last definitions)))
                               (\<lambda>d. Ok (column_id = cd_id d))
                        else Ok False) (\<lambda>duplicate.
                 if duplicate then Err (DuplicateOrdinal table_id column_id)
                 else Err (NonContiguousOrdinal table_id expected_id column_id))) (\<lambda>_.
        rbind (ensure (col_marker column = 1 \<and> (col_nulls column = 78 \<or> col_nulls column = 89))
                 (InvalidCatalogMetadata table_id column_id)) (\<lambda>_.
        rbind (ensure (has_default column \<longrightarrow> default_attested defaults column)
                 (CatalogDefaultNotAttested table_id column_id (col_row_flags column) (length (col_post_name column)))) (\<lambda>_.
        rbind (ensure (col_name column \<noteq> []) (EmptyColumnName table_id column_id)) (\<lambda>_.
        rbind (ok_or (domain_type (col_domain column)) (UnknownDomain table_id column_id (col_domain column))) (\<lambda>ty.
        rbind (ensure (\<not> (ty = ColEnum \<and> sto_enum storage = EnumUnsupported)) (EnumDomainUnsupported table_id column_id)) (\<lambda>_.
        rbind (validate_width column ty table_id) (\<lambda>width.
          Ok (definitions @ [\<lparr>cd_id = column_id, cd_name = col_name column, cd_type = ty, cd_width = width,
                               cd_nullable = (col_nulls column = 89)\<rparr>])))))))))))"

definition adapt_complete_schema ::
    "(u16 \<Rightarrow> column_type option) \<Rightarrow> sys_column list \<Rightarrow> coverage_attestation \<Rightarrow> storage_attestation \<Rightarrow>
     default_envelope list \<Rightarrow> (schema_error, row_schema) outcome" where
  "adapt_complete_schema domain_type columns coverage storage defaults =
     rbind (ensure (sto_uncompressed storage) (CompressionNotProven (cov_table coverage))) (\<lambda>_.
     rbind (ensure (length columns = unat (cov_count coverage))
              (CoverageCountMismatch (cov_table coverage) (cov_count coverage) (length columns))) (\<lambda>_.
     rbind (rfold (adapt_column domain_type coverage storage defaults) (enumerate 0 (sort_key col_ordinal columns)) [])
       (\<lambda>definitions.
       Ok \<lparr>sch_columns = definitions, sch_boolean_tail = sto_boolean_tail storage, sch_numeric = sto_numeric storage,
           sch_enum = sto_enum storage, sch_overflow = sto_overflow storage, sch_length = sto_length storage,
           sch_null_layout = sto_null_layout storage, sch_null_coverage = sto_null_coverage storage,
           sch_prefix = sto_prefix storage\<rparr>)))"

section \<open>The schema manifest\<close>

record table_manifest =
  mf_table :: u32
  mf_count :: u32
  mf_fingerprint :: u64

definition r21_schema_manifest :: "table_manifest list" where
  "r21_schema_manifest =
     map (\<lambda>(t, n, h). \<lparr>mf_table = t, mf_count = n, mf_fingerprint = h\<rparr>)
       [(3025, 29, 0xfe250d5c12c30811), (3026, 36, 0x364f2259d208de18), (3038, 35, 0x0294bd799d0ecb5b),
        (3039, 52, 0x3b68deaf59e0ab4c), (3040, 37, 0x0456a78695fe5ed2), (3042, 86, 0xb6625a05e4b4e63c),
        (3045, 42, 0x2f8524f05ab8c7b3), (3047, 90, 0x104939a5ea2cc3ec), (3068, 31, 0x3d26e0408c679b6d),
        (3069, 52, 0x362c519d1ec14079), (3076, 32, 0x23788b47385ab4a3), (3078, 67, 0x531ecaaed5f2ce08)]"

datatype manifest_error =
    TableNotInManifest u32
  | ManifestColumnCount u32 u32 nat
  | ManifestOrdinal u32 u32 u32
  | ManifestFingerprint u32 u64 u64

text \<open>FNV-1: multiply, then exclusive or.\<close>

definition fnv_byte :: "u8 \<Rightarrow> u64 \<Rightarrow> u64" where
  "fnv_byte b state = xor (state * 0x100000001b3) (ucast b)"

definition fingerprint_bytes :: "sys_column \<Rightarrow> byte list" where
  "fingerprint_bytes column =
     to_le_bytes (col_ordinal column) @ map (\<lambda>x. word_of_nat (of_char x)) (col_name column)
     @ to_le_bytes (col_domain column) @ to_le_bytes (col_width column) @ to_le_bytes (col_scale column)
     @ [col_nulls column, col_marker column, col_row_flags column] @ col_post_name column"

definition schema_fingerprint :: "sys_column list \<Rightarrow> u64" where
  "schema_fingerprint columns =
     fold (\<lambda>column state. fold fnv_byte (fingerprint_bytes column) state) columns 0xcbf29ce484222325"

definition validate_manifest_table :: "sys_column list \<Rightarrow> table_manifest \<Rightarrow> (manifest_error, unit) outcome" where
  "validate_manifest_table columns expected =
     (let table_columns = sort_key (\<lambda>c. (col_ordinal c, col_name c)) (filter (\<lambda>c. col_table c = mf_table expected) columns);
          actual = schema_fingerprint table_columns in
      rbind (ensure (length table_columns = unat (mf_count expected))
               (ManifestColumnCount (mf_table expected) (mf_count expected) (length table_columns))) (\<lambda>_.
      rbind (rfold (\<lambda>ic _. check_ordinal (ManifestOrdinal (mf_table expected)) ic) (enumerate 0 table_columns) ()) (\<lambda>_.
        ensure (actual = mf_fingerprint expected)
          (ManifestFingerprint (mf_table expected) (mf_fingerprint expected) actual))))"

definition validate_schema_manifest :: "sys_column list \<Rightarrow> table_manifest list \<Rightarrow> (manifest_error, unit) outcome" where
  "validate_schema_manifest columns manifest =
     rfold (\<lambda>expected _. validate_manifest_table columns expected) manifest ()"

definition validate_r21_schema_manifest :: "sys_column list \<Rightarrow> (manifest_error, unit) outcome" where
  "validate_r21_schema_manifest columns = validate_schema_manifest columns r21_schema_manifest"

text \<open>A validated catalog is its columns.\<close>

definition attest_r21_catalog :: "sys_column list \<Rightarrow> (manifest_error, sys_column list) outcome" where
  "attest_r21_catalog columns = rbind (validate_r21_schema_manifest columns) (\<lambda>_. Ok columns)"

definition default_envelopes_for_manifest ::
    "sys_column list \<Rightarrow> table_manifest list \<Rightarrow> u32 \<Rightarrow> (manifest_error, default_envelope list) outcome" where
  "default_envelopes_for_manifest columns manifest table_id =
     (if \<not> list_ex (\<lambda>e. mf_table e = table_id) manifest then Err (TableNotInManifest table_id)
      else Ok (map (\<lambda>c. \<lparr>env_column = col_ordinal c, env_flags = col_row_flags c, env_bytes = col_post_name c\<rparr>)
                 (filter (\<lambda>c. col_table c = table_id \<and> has_default c) columns)))"

definition catalog_default_envelopes :: "sys_column list \<Rightarrow> u32 \<Rightarrow> (manifest_error, default_envelope list) outcome" where
  "catalog_default_envelopes columns table_id = default_envelopes_for_manifest columns r21_schema_manifest table_id"

section \<open>What an adapted schema says\<close>

definition adapted_from ::
    "(u16 \<Rightarrow> column_type option) \<Rightarrow> u32 \<Rightarrow> storage_attestation \<Rightarrow> default_envelope list \<Rightarrow> sys_column \<Rightarrow> column_def \<Rightarrow> bool" where
  "adapted_from domain_type table_id storage defaults column d \<longleftrightarrow>
     col_table column = table_id \<and> cd_id d = col_ordinal column \<and> cd_name d = col_name column \<and> cd_name d \<noteq> []
     \<and> domain_type (col_domain column) = Some (cd_type d) \<and> unat (cd_width d) = unat (col_width column)
     \<and> valid_width (cd_type d) (unat (cd_width d)) (sint (col_scale column))
     \<and> col_marker column = 1 \<and> col_nulls column = (if cd_nullable d then 89 else 78)
     \<and> (has_default column \<longrightarrow> default_attested defaults column)
     \<and> \<not> (cd_type d = ColEnum \<and> sto_enum storage = EnumUnsupported)"

lemma validate_width_Ok:
  "validate_width column ty table_id = Ok w \<longleftrightarrow>
     unat w = unat (col_width column) \<and> valid_width ty (unat w) (sint (col_scale column))"
proof -
  have small: "unat w < 2 ^ 16" for w :: u16 using unsigned_less [of w] by simp
  have of: "unat (word_of_nat n :: u16) = n" if "n < 2 ^ 16" for n using that by (simp add: unat_of_nat)
  show ?thesis
    using small [of w] of [of "unat (col_width column)"]
    by (auto simp: validate_width_def Let_def word_unat_eq_iff not_le)
qed

lemma adapt_column_Ok:
  "adapt_column domain_type coverage storage defaults (offset, column) definitions = Ok definitions' \<longleftrightarrow>
     offset + 1 < 2 ^ 32 \<and> unat (col_ordinal column) = offset + 1
     \<and> (\<exists>d. definitions' = definitions @ [d] \<and> adapted_from domain_type (cov_table coverage) storage defaults column d)"
proof -
  have ord: "offset + 1 < 2 ^ 32 \<Longrightarrow> w = word_of_nat (offset + 1) \<longleftrightarrow> unat w = offset + 1" for w :: u32
    by (simp only: word_unat_eq_iff unat_of_nat) simp
  have nulls: "(n = 78 \<or> n = 89) \<and> b = (n = 89) \<longleftrightarrow> n = (if b then 89 else 78)" for n :: u8 and b by auto
  show ?thesis
  proof (cases "offset + 1 < 2 ^ 32 \<and> unat (col_ordinal column) = offset + 1")
    case True
    then have eq: "col_ordinal column = word_of_nat (offset + 1)" using ord by blast
    have "adapt_column domain_type coverage storage defaults (offset, column) definitions = Ok definitions' \<longleftrightarrow>
        col_table column = cov_table coverage \<and> col_marker column = 1 \<and> (col_nulls column = 78 \<or> col_nulls column = 89)
        \<and> (has_default column \<longrightarrow> default_attested defaults column) \<and> col_name column \<noteq> []
        \<and> (\<exists>ty w. domain_type (col_domain column) = Some ty \<and> \<not> (ty = ColEnum \<and> sto_enum storage = EnumUnsupported)
            \<and> unat w = unat (col_width column) \<and> valid_width ty (unat w) (sint (col_scale column))
            \<and> definitions' = definitions @ [\<lparr>cd_id = col_ordinal column, cd_name = col_name column, cd_type = ty,
                 cd_width = w, cd_nullable = (col_nulls column = 89)\<rparr>])"
      using True eq unfolding adapt_column_def Let_def prod.case
      by (auto simp: rbind_Ok_iff ensure_iff ok_or_iff or_panic_def validate_width_Ok)
    also have "\<dots> \<longleftrightarrow> (\<exists>d. definitions' = definitions @ [d]
        \<and> adapted_from domain_type (cov_table coverage) storage defaults column d)"
      (is "?L \<longleftrightarrow> ?R")
    proof
      assume ?L
      then show ?R unfolding adapted_from_def by force
    next
      assume ?R
      then obtain d where d: "definitions' = definitions @ [d]"
        and a: "adapted_from domain_type (cov_table coverage) storage defaults column d" by blast
      have "d = \<lparr>cd_id = col_ordinal column, cd_name = col_name column, cd_type = cd_type d, cd_width = cd_width d,
          cd_nullable = (col_nulls column = 89)\<rparr>"
        using a by (intro column_def.equality) (auto simp: adapted_from_def)
      with a d show ?L
        unfolding adapted_from_def
        by (intro conjI exI [of _ "cd_type d"] exI [of _ "cd_width d"]) (auto split: if_splits)
    qed
    finally show ?thesis using True by simp
  next
    case False
    then have "offset + 1 < 2 ^ 32 \<Longrightarrow> col_ordinal column \<noteq> word_of_nat (offset + 1)" using ord by blast
    with False show ?thesis
      by (auto simp: adapt_column_def Let_def rbind_Ok_iff ensure_iff or_panic_def split: if_splits)
  qed
qed

lemma adapt_columns_Ok:
  assumes "i + length cs < 2 ^ 32"
  shows "rfold (adapt_column domain_type coverage storage defaults) (enumerate i cs) ds = Ok ds' \<longleftrightarrow>
     map (\<lambda>c. unat (col_ordinal c)) cs = [Suc i..<Suc (i + length cs)]
     \<and> (\<exists>es. ds' = ds @ es \<and> list_all2 (adapted_from domain_type (cov_table coverage) storage defaults) cs es)"
  using assms
proof (induction cs arbitrary: i ds)
  case (Cons c cs)
  have upt: "[Suc i..<Suc (Suc (i + length cs))] = Suc i # [Suc (Suc i)..<Suc (Suc (i + length cs))]"
    by (simp add: upt_conv_Cons del: upt_Suc)
  show ?case using Cons.IH [of "Suc i"] Cons.prems
    by (auto simp: rbind_Ok_iff adapt_column_Ok upt list_all2_Cons1 simp del: upt_Suc)
qed auto

lemma adapt_complete_schema_Ok:
  "adapt_complete_schema domain_type columns coverage storage defaults = Ok schema \<longleftrightarrow>
     sto_uncompressed storage \<and> length columns = unat (cov_count coverage)
     \<and> map (\<lambda>c. unat (col_ordinal c)) (sort_key col_ordinal columns) = [1..<Suc (length columns)]
     \<and> (\<exists>ds. list_all2 (adapted_from domain_type (cov_table coverage) storage defaults) (sort_key col_ordinal columns) ds
         \<and> schema = \<lparr>sch_columns = ds, sch_boolean_tail = sto_boolean_tail storage, sch_numeric = sto_numeric storage,
           sch_enum = sto_enum storage, sch_overflow = sto_overflow storage, sch_length = sto_length storage,
           sch_null_layout = sto_null_layout storage, sch_null_coverage = sto_null_coverage storage,
           sch_prefix = sto_prefix storage\<rparr>)"
proof -
  have "unat (cov_count coverage) < 2 ^ 32" using unsigned_less [of "cov_count coverage"] by simp
  then show ?thesis
    using adapt_columns_Ok [of 0 "sort_key col_ordinal columns"]
    by (auto simp: adapt_complete_schema_def rbind_Ok_iff ensure_iff simp del: upt_Suc)
qed

lemma default_envelopes_attest:
  assumes "catalog_default_envelopes columns table_id = Ok envelopes"
    and "c \<in> set columns" and "col_table c = table_id" and "has_default c"
  shows "default_attested envelopes c"
  using assms
  by (force simp: catalog_default_envelopes_def default_envelopes_for_manifest_def default_attested_def list_ex_iff
    split: if_splits)

definition manifest_columns :: "sys_column list \<Rightarrow> table_manifest \<Rightarrow> sys_column list" where
  "manifest_columns columns expected =
     sort_key (\<lambda>c. (col_ordinal c, col_name c)) (filter (\<lambda>c. col_table c = mf_table expected) columns)"

definition manifest_holds :: "sys_column list \<Rightarrow> table_manifest \<Rightarrow> bool" where
  "manifest_holds columns expected \<longleftrightarrow>
     map (\<lambda>c. unat (col_ordinal c)) (manifest_columns columns expected) = [1..<Suc (unat (mf_count expected))]
     \<and> schema_fingerprint (manifest_columns columns expected) = mf_fingerprint expected"

lemma validate_manifest_table_Ok: "validate_manifest_table columns expected = Ok u \<longleftrightarrow> manifest_holds columns expected"
proof -
  let ?cs = "manifest_columns columns expected"
  have "unat (mf_count expected) < 2 ^ 32" using unsigned_less [of "mf_count expected"] by simp
  then have o: "length ?cs = unat (mf_count expected) \<Longrightarrow>
      rfold (\<lambda>ic _. check_ordinal (ManifestOrdinal (mf_table expected)) ic) (enumerate 0 ?cs) () = Ok v
      \<longleftrightarrow> map (\<lambda>c. unat (col_ordinal c)) ?cs = [1..<Suc (unat (mf_count expected))]" for v
    using check_ordinals_Ok [of 0 ?cs] by (simp del: upt_Suc)
  moreover have "map (\<lambda>c. unat (col_ordinal c)) ?cs = [1..<Suc (unat (mf_count expected))]
      \<Longrightarrow> length ?cs = unat (mf_count expected)"
    by (drule arg_cong [where f = length]) simp
  ultimately show ?thesis
    unfolding manifest_holds_def validate_manifest_table_def Let_def manifest_columns_def [symmetric]
    by (auto simp: rbind_Ok_iff ensure_iff simp del: upt_Suc)
qed

lemma validate_r21_schema_manifest_Ok:
  "validate_r21_schema_manifest columns = Ok u \<longleftrightarrow> list_all (manifest_holds columns) r21_schema_manifest"
  by (simp add: validate_r21_schema_manifest_def validate_schema_manifest_def rfold_unit_Ok
    validate_manifest_table_Ok list_all_iff)

end
