(* ===== verification/Key_Resolution.thy ===== *)
theory Key_Resolution
  imports Schema_Adapter Table_Scan Table_Facts Page_Facts
begin

text \<open>
  Which transform key a store has, \<open>crates/openqbw/src/enterprise24_transform_key.rs\<close>: a candidate
  of the structural discovery is kept only if the catalog it opens reproduces the schema manifest and
  the page inventory of the accounting tables, and never because it has more witnesses.
\<close>

section \<open>Attesting one candidate\<close>

record key_attestation =
  ka_key :: transform_key
  ka_tables :: systable_collection
  ka_columns :: syscolumn_collection

datatype resolution_error =
    StructuralDiscoveryFailed
  | NoSemanticCandidate nat
  | AmbiguousSemanticCandidates nat

datatype attestation_profile = Strict | PageFloorRelaxed

text \<open>The \<open>TableScan\<close> rejection has no branch below, because the inventory of a store never fails.\<close>

datatype candidate_rejection =
    SysTableCollection | RequiredTables | RequiredTableAmbiguity | MissingSysColumnTable | SysColumnCollection
  | SysColumnRequiredConflict | SysColumnUnboundedCarrier | SysColumnDuplicateRows | SysColumnCrossAttestation
  | SysColumnPageFloorNotRelaxed | SchemaManifest | TableScanRejected | RequiredTableIdConflict
  | MissingManifestTable | PageCountOverflow | AccountingPageFloor

definition required_table_ids :: "u32 list" where
  "required_table_ids = map mf_table r21_schema_manifest @ [1, 2]"

definition attest_required_tables :: "systable_collection \<Rightarrow> u32 list \<Rightarrow> (candidate_rejection, unit) outcome" where
  "attest_required_tables tables ids =
     map_err (\<lambda>_. RequiredTableAmbiguity) (rbind (require_unambiguous_tables tables ids) (\<lambda>_. Ok ()))"

definition attest_supported_syscolumn_conflicts :: "syscolumn_collection \<Rightarrow> (candidate_rejection, unit) outcome" where
  "attest_supported_syscolumn_conflicts c =
     rbind (ensure (ct_without (cc_totals c) = 0) SysColumnUnboundedCarrier) (\<lambda>_.
     rbind (ensure (length (cc_columns c) = ct_parsed (cc_totals c)) SysColumnDuplicateRows) (\<lambda>_.
     rfold (\<lambda>manifest _.
         ensure (\<not> list_ex (\<lambda>(t, n). t = mf_table manifest \<and> 1 \<le> n \<and> n \<le> mf_count manifest)
                    (bt_keys (ct_prefixes (cc_totals c))))
           SysColumnRequiredConflict) r21_schema_manifest ()))"

definition attest_syscolumn_page_profile :: "attestation_profile \<Rightarrow> nat \<Rightarrow> nat \<Rightarrow> (candidate_rejection, unit) outcome" where
  "attest_syscolumn_page_profile profile actual expected =
     (case profile of
        Strict \<Rightarrow> if actual < expected then Err SysColumnCrossAttestation else Ok ()
      | PageFloorRelaxed \<Rightarrow> if expected \<le> actual then Err SysColumnPageFloorNotRelaxed else Ok ())"

text \<open>\<open>checked_add\<close> of the two page counts of a table.\<close>

definition declared_pages :: "sys_table \<Rightarrow> u32 option" where
  "declared_pages t =
     (if unat (tb_table_pages t) + unat (tb_ext_pages t) < 2 ^ 32 then Some (tb_table_pages t + tb_ext_pages t) else None)"

definition attest_page_floor ::
    "systable_collection \<Rightarrow> store_scan \<Rightarrow> table_manifest \<Rightarrow> (candidate_rejection, unit) outcome" where
  "attest_page_floor tables scan manifest =
     rbind (ok_or (catalog_table tables (mf_table manifest)) MissingManifestTable) (\<lambda>table.
     rbind (ok_or (declared_pages table) PageCountOverflow) (\<lambda>expected.
       ensure (unat expected \<le> length (groups_at scan (mf_table manifest))) AccountingPageFloor))"

definition attest_candidate ::
    "page_parser \<Rightarrow> sector_permutation \<Rightarrow> (u64 \<times> byte list) list \<Rightarrow> attestation_profile \<Rightarrow> transform_key \<Rightarrow>
     (candidate_rejection, key_attestation) outcome" where
  "attest_candidate parse_page permute store profile key =
     rbind (map_err (\<lambda>_. SysTableCollection) (collect_materialized_systables parse_page permute key store)) (\<lambda>tables.
     rbind (ensure (filter (\<lambda>t. catalog_table tables t = None) required_table_ids = []) RequiredTables) (\<lambda>_.
     rbind (attest_required_tables tables required_table_ids) (\<lambda>_.
     rbind (ok_or (catalog_table tables 2) MissingSysColumnTable) (\<lambda>syscolumn_table.
     rbind (map_err (\<lambda>_. SysColumnCollection) (collect_materialized_syscolumns parse_page permute key store)) (\<lambda>columns.
     rbind (attest_supported_syscolumn_conflicts columns) (\<lambda>_.
     rbind (ok_or (declared_pages syscolumn_table) PageCountOverflow) (\<lambda>expected.
     rbind (attest_syscolumn_page_profile profile (ct_pages (cc_totals columns)) (unat expected)) (\<lambda>_.
     rbind (map_err (\<lambda>_. SchemaManifest) (attest_r21_catalog (cc_columns columns))) (\<lambda>_.
       let scan = scan_table_store parse_page permute key store in
       rbind (ensure (\<not> list_ex (\<lambda>c. list_ex (\<lambda>t. t \<in> set required_table_ids) (ic_ids c)) (ss_conflicts scan))
                RequiredTableIdConflict) (\<lambda>_.
       rbind (rfold (\<lambda>manifest _. attest_page_floor tables scan manifest) r21_schema_manifest ()) (\<lambda>_.
         Ok \<lparr>ka_key = key, ka_tables = tables, ka_columns = columns\<rparr>)))))))))))"

section \<open>Resolving a store\<close>

text \<open>\<open>filter_map(|key| attest_candidate(..).ok())\<close>.\<close>

definition attested_candidates ::
    "page_parser \<Rightarrow> sector_permutation \<Rightarrow> (u64 \<times> byte list) list \<Rightarrow> attestation_profile \<Rightarrow> transform_key list \<Rightarrow>
     (resolution_error, key_attestation list) outcome" where
  "attested_candidates parse_page permute store profile keys =
     rfold (\<lambda>key kept.
         (case attest_candidate parse_page permute store profile key of
            Ok a \<Rightarrow> Ok (kept @ [a]) | Err _ \<Rightarrow> Ok kept | Panic \<Rightarrow> Panic)) keys []"

definition require_unique_semantic_candidate :: "nat \<Rightarrow> 'a list \<Rightarrow> (resolution_error, 'a) outcome" where
  "require_unique_semantic_candidate structural candidates =
     (case candidates of
        [] \<Rightarrow> Err (NoSemanticCandidate structural)
      | [a] \<Rightarrow> Ok a
      | _ \<Rightarrow> Err (AmbiguousSemanticCandidates (length candidates)))"

definition discover_r21_transform_key ::
    "page_parser \<Rightarrow> sector_permutation \<Rightarrow> (u64 \<times> byte list) list \<Rightarrow> (resolution_error, key_attestation) outcome" where
  "discover_r21_transform_key parse_page permute store =
     rbind (map_err (\<lambda>_. StructuralDiscoveryFailed) (discover_transform_key_candidates parse_page permute store)) (\<lambda>keys.
     rbind (attested_candidates parse_page permute store Strict keys)
       (require_unique_semantic_candidate (length keys)))"

definition adjacent_context_is_eligible :: "transform_key \<Rightarrow> transform_key list \<Rightarrow> candidate_rejection option \<Rightarrow> bool" where
  "adjacent_context_is_eligible key witnessed rejection \<longleftrightarrow>
     rejection = Some AccountingPageFloor
     \<and> list_ex (\<lambda>other. tk_negative other = tk_negative key \<and> tk_high_word other = xor (tk_high_word key) 1) witnessed"

definition adjacent_step ::
    "page_parser \<Rightarrow> sector_permutation \<Rightarrow> (u64 \<times> byte list) list \<Rightarrow> transform_key list \<Rightarrow> transform_key \<Rightarrow>
     (u16 \<times> bool) list \<times> key_attestation list \<Rightarrow> (resolution_error, (u16 \<times> bool) list \<times> key_attestation list) outcome" where
  "adjacent_step parse_page permute store witnessed key st =
     (case st of (seen, candidates) \<Rightarrow>
        rbind (case attest_candidate parse_page permute store PageFloorRelaxed key of
                 Ok _ \<Rightarrow> Ok None | Err e \<Rightarrow> Ok (Some e) | Panic \<Rightarrow> Panic) (\<lambda>rejection.
        if \<not> adjacent_context_is_eligible key witnessed rejection then Ok (seen, candidates)
        else
          let pair = with_adjacent_high_word key; context = (tk_high_word pair, tk_negative pair) in
          if context \<in> set seen then Ok (seen, candidates)
          else
            (case (case attest_candidate parse_page permute store Strict pair of
                     Err _ \<Rightarrow> attest_candidate parse_page permute store PageFloorRelaxed pair
                   | r \<Rightarrow> r) of
               Ok a \<Rightarrow> Ok (insort_insert context seen, candidates @ [a])
             | Err _ \<Rightarrow> Ok (insort_insert context seen, candidates)
             | Panic \<Rightarrow> Panic)))"

definition discover_r21_accounting_key_candidates ::
    "page_parser \<Rightarrow> sector_permutation \<Rightarrow> (u64 \<times> byte list) list \<Rightarrow> (resolution_error, key_attestation list) outcome" where
  "discover_r21_accounting_key_candidates parse_page permute store =
     rbind (map_err (\<lambda>_. StructuralDiscoveryFailed) (discover_transform_key_candidates parse_page permute store)) (\<lambda>keys.
     rbind (attested_candidates parse_page permute store PageFloorRelaxed keys) (\<lambda>relaxed.
     rbind (if relaxed = []
            then rbind (rfold (adjacent_step parse_page permute store keys) keys ([], [])) (\<lambda>(_, candidates). Ok candidates)
            else Ok relaxed) (\<lambda>candidates.
       if candidates = [] then Err (NoSemanticCandidate (length keys)) else Ok candidates)))"

section \<open>What an attested key has\<close>

definition uncontradicted_tables :: "systable_collection \<Rightarrow> bool" where
  "uncontradicted_tables tables \<longleftrightarrow>
     ct_without (tc_totals tables) = 0
     \<and> list_all (\<lambda>t. catalog_table tables t \<noteq> None \<and> bt_get (ct_prefixes (tc_totals tables)) t = None) required_table_ids"

definition uncontradicted_columns :: "syscolumn_collection \<Rightarrow> bool" where
  "uncontradicted_columns columns \<longleftrightarrow>
     ct_without (cc_totals columns) = 0 \<and> length (cc_columns columns) = ct_parsed (cc_totals columns)
     \<and> list_all (\<lambda>manifest. list_all (\<lambda>n. bt_get (ct_prefixes (cc_totals columns)) (mf_table manifest, word_of_nat n) = None)
            [1..<Suc (unat (mf_count manifest))]) r21_schema_manifest"

definition pages_present :: "systable_collection \<Rightarrow> store_scan \<Rightarrow> table_manifest \<Rightarrow> bool" where
  "pages_present tables scan manifest \<longleftrightarrow>
     (case catalog_table tables (mf_table manifest) of
        None \<Rightarrow> False
      | Some t \<Rightarrow> unat (tb_table_pages t) + unat (tb_ext_pages t) < 2 ^ 32
          \<and> unat (tb_table_pages t) + unat (tb_ext_pages t) \<le> length (groups_at scan (mf_table manifest)))"

definition profile_pages :: "attestation_profile \<Rightarrow> systable_collection \<Rightarrow> syscolumn_collection \<Rightarrow> bool" where
  "profile_pages profile tables columns \<longleftrightarrow>
     (case catalog_table tables 2 of
        None \<Rightarrow> False
      | Some t \<Rightarrow> unat (tb_table_pages t) + unat (tb_ext_pages t) < 2 ^ 32
          \<and> (unat (tb_table_pages t) + unat (tb_ext_pages t) \<le> ct_pages (cc_totals columns) \<longleftrightarrow> profile = Strict))"

definition conflict_free_ids :: "store_scan \<Rightarrow> bool" where
  "conflict_free_ids scan \<longleftrightarrow> list_all (\<lambda>c. list_all (\<lambda>t. t \<notin> set required_table_ids) (ic_ids c)) (ss_conflicts scan)"

definition attested ::
    "page_parser \<Rightarrow> sector_permutation \<Rightarrow> (u64 \<times> byte list) list \<Rightarrow> attestation_profile \<Rightarrow> key_attestation \<Rightarrow> bool" where
  "attested parse_page permute store profile a \<longleftrightarrow>
     collect_materialized_systables parse_page permute (ka_key a) store = Ok (ka_tables a)
     \<and> collect_materialized_syscolumns parse_page permute (ka_key a) store = Ok (ka_columns a)
     \<and> uncontradicted_tables (ka_tables a) \<and> uncontradicted_columns (ka_columns a)
     \<and> profile_pages profile (ka_tables a) (ka_columns a)
     \<and> list_all (manifest_holds (cc_columns (ka_columns a))) r21_schema_manifest
     \<and> conflict_free_ids (scan_table_store parse_page permute (ka_key a) store)
     \<and> list_all (pages_present (ka_tables a) (scan_table_store parse_page permute (ka_key a) store)) r21_schema_manifest"

lemma declared_pages_iff:
  "declared_pages t = Some n \<longleftrightarrow>
     unat (tb_table_pages t) + unat (tb_ext_pages t) < 2 ^ 32 \<and> unat n = unat (tb_table_pages t) + unat (tb_ext_pages t)"
proof -
  have "unat (tb_table_pages t) + unat (tb_ext_pages t) < 2 ^ 32 \<Longrightarrow>
      unat (tb_table_pages t + tb_ext_pages t) = unat (tb_table_pages t) + unat (tb_ext_pages t)"
    by (simp add: unat_word_ariths)
  then show ?thesis by (auto simp: declared_pages_def word_unat_eq_iff)
qed

lemma declared_pages_ex:
  "(\<exists>n. declared_pages t = Some n \<and> P (unat n)) \<longleftrightarrow>
     unat (tb_table_pages t) + unat (tb_ext_pages t) < 2 ^ 32 \<and> P (unat (tb_table_pages t) + unat (tb_ext_pages t))"
proof (cases "declared_pages t")
  case None
  then show ?thesis by (auto simp: declared_pages_def split: if_splits)
next
  case (Some n)
  with declared_pages_iff [of t n] show ?thesis by auto
qed

lemma attest_page_floor_Ok: "attest_page_floor tables scan manifest = Ok u \<longleftrightarrow> pages_present tables scan manifest"
  unfolding attest_page_floor_def pages_present_def rbind_Ok_iff ok_or_iff ensure_iff
    declared_pages_ex [of _ "\<lambda>n. n \<le> length (groups_at scan (mf_table manifest))"]
  by (auto split: option.split)

lemma required_tables_iff:
  "(filter (\<lambda>t. catalog_table tables t = None) required_table_ids = []
     \<and> attest_required_tables tables required_table_ids = Ok u) \<longleftrightarrow> uncontradicted_tables tables"
proof -
  have "(\<exists>xs. rmap (logical_expectation tables) ts = Ok xs) \<longleftrightarrow> (\<forall>t\<in>set ts. catalog_table tables t \<noteq> None)" for ts
    by (induction ts) (auto simp: rbind_Ok_iff logical_expectation_def ok_or_iff)
  then show ?thesis
    unfolding attest_required_tables_def require_unambiguous_tables_def Let_def map_err_iff rbind_Ok_iff rfold_unit_Ok
      ensure_iff uncontradicted_tables_def
    by (auto simp: rbind_Ok_iff ok_or_iff filter_empty_conv list_all_iff split: option.splits)
qed

lemma supported_columns_iff: "attest_supported_syscolumn_conflicts c = Ok u \<longleftrightarrow> uncontradicted_columns c"
proof -
  have keys: "list_ex (\<lambda>(t, n). t = mf_table m \<and> 1 \<le> n \<and> n \<le> mf_count m) (bt_keys p)
      \<longleftrightarrow> (\<exists>n\<in>set [1..<Suc (unat (mf_count m))]. bt_get p (mf_table m, word_of_nat n) \<noteq> None)"
    for m and p :: "(u32 \<times> u32, int) btree"
  proof
    assume "list_ex (\<lambda>(t, n). t = mf_table m \<and> 1 \<le> n \<and> n \<le> mf_count m) (bt_keys p)"
    then obtain n where n: "(mf_table m, n) \<in> set (bt_keys p)" "1 \<le> n" "n \<le> mf_count m"
      by (auto simp: list_ex_iff)
    then have "unat n \<in> set [1..<Suc (unat (mf_count m))]"
      by (simp add: word_le_nat_alt less_Suc_eq_le del: upt_Suc)
    moreover have "bt_get p (mf_table m, word_of_nat (unat n)) \<noteq> None"
      using n(1) by (simp add: bt_get_None_iff bt_keys_def)
    ultimately show "\<exists>n\<in>set [1..<Suc (unat (mf_count m))]. bt_get p (mf_table m, word_of_nat n) \<noteq> None" by blast
  next
    assume "\<exists>n\<in>set [1..<Suc (unat (mf_count m))]. bt_get p (mf_table m, word_of_nat n) \<noteq> None"
    then obtain n where n: "1 \<le> n" "n \<le> unat (mf_count m)" and get: "bt_get p (mf_table m, word_of_nat n) \<noteq> None" by auto
    have "unat (mf_count m) < 2 ^ 32" using unsigned_less [of "mf_count m"] by simp
    with n have "unat (word_of_nat n :: u32) = n" by (simp add: unat_of_nat)
    with n have "1 \<le> (word_of_nat n :: u32)" "(word_of_nat n :: u32) \<le> mf_count m" by (simp_all add: word_le_nat_alt)
    with get show "list_ex (\<lambda>(t, n). t = mf_table m \<and> 1 \<le> n \<and> n \<le> mf_count m) (bt_keys p)"
      unfolding list_ex_iff
      by (intro bexI [of _ "(mf_table m, word_of_nat n)"]) (simp_all add: bt_get_None_iff bt_keys_def)
  qed
  then show ?thesis
    unfolding attest_supported_syscolumn_conflicts_def rbind_Ok_iff ensure_iff rfold_unit_Ok uncontradicted_columns_def
      keys list_all_iff
    by (auto simp del: upt_Suc)
qed

lemma attest_candidate_Ok:
  "attest_candidate parse_page permute store profile key = Ok a \<longleftrightarrow>
     ka_key a = key \<and> attested parse_page permute store profile a"
proof -
  have profile: "attest_syscolumn_page_profile profile actual expected = Ok u \<longleftrightarrow> (expected \<le> actual \<longleftrightarrow> profile = Strict)"
    for actual expected u by (cases profile) (auto simp: attest_syscolumn_page_profile_def)
  have conflicts: "\<not> list_ex (\<lambda>c. list_ex (\<lambda>t. t \<in> set required_table_ids) (ic_ids c)) (ss_conflicts scan)
      \<longleftrightarrow> conflict_free_ids scan" for scan
    by (auto simp: conflict_free_ids_def list_ex_iff list_all_iff)
  have manifest: "attest_r21_catalog cs = Ok cs' \<longleftrightarrow> cs' = cs \<and> list_all (manifest_holds cs) r21_schema_manifest" for cs cs'
    by (auto simp: attest_r21_catalog_def rbind_Ok_iff validate_r21_schema_manifest_Ok)
  have floors: "rfold (\<lambda>manifest _. attest_page_floor tables scan manifest) r21_schema_manifest () = Ok u
      \<longleftrightarrow> list_all (pages_present tables scan) r21_schema_manifest" for tables scan u
    by (simp add: rfold_unit_Ok attest_page_floor_Ok list_all_iff)
  have pages: "(\<exists>t. catalog_table tables 2 = Some t \<and> (\<exists>n. declared_pages t = Some n
        \<and> (unat n \<le> ct_pages (cc_totals columns) \<longleftrightarrow> profile = Strict))) \<longleftrightarrow> profile_pages profile tables columns"
    for tables columns
    unfolding profile_pages_def
      declared_pages_ex [of _ "\<lambda>n. n \<le> ct_pages (cc_totals columns) \<longleftrightarrow> profile = Strict"]
    by (auto split: option.split)
  have "attest_candidate parse_page permute store profile key = Ok a \<longleftrightarrow>
      (\<exists>tables columns. collect_materialized_systables parse_page permute key store = Ok tables
        \<and> (filter (\<lambda>t. catalog_table tables t = None) required_table_ids = []
           \<and> attest_required_tables tables required_table_ids = Ok ())
        \<and> collect_materialized_syscolumns parse_page permute key store = Ok columns
        \<and> attest_supported_syscolumn_conflicts columns = Ok ()
        \<and> (\<exists>t. catalog_table tables 2 = Some t \<and> (\<exists>n. declared_pages t = Some n
        \<and> (unat n \<le> ct_pages (cc_totals columns) \<longleftrightarrow> profile = Strict)))
        \<and> list_all (manifest_holds (cc_columns columns)) r21_schema_manifest
        \<and> conflict_free_ids (scan_table_store parse_page permute key store)
        \<and> list_all (pages_present tables (scan_table_store parse_page permute key store)) r21_schema_manifest
        \<and> a = \<lparr>ka_key = key, ka_tables = tables, ka_columns = columns\<rparr>)"
    unfolding attest_candidate_def Let_def rbind_Ok_iff map_err_iff ensure_iff ok_or_iff profile conflicts manifest floors
    by auto
  also have "\<dots> \<longleftrightarrow> ka_key a = key \<and> attested parse_page permute store profile a"
    unfolding required_tables_iff supported_columns_iff pages attested_def by (cases a) auto
  finally show ?thesis .
qed

section \<open>The collections do not panic\<close>

lemma carrier_choice_nonempty: "carrier_choice parse_page carrier candidates = Ok True \<Longrightarrow> candidates \<noteq> []"
  by (auto simp: carrier_choice_def Let_def map_filter_simps split: if_splits)

lemma collect_table_page_no_panic: "collect_table_page parse_page permute key page st \<noteq> Panic"
proof -
  obtain n raw tables totals where page: "page = (n, raw)" and st: "st = (tables, totals)" by (cases page, cases st)
  show ?thesis
  proof (cases "materialize_candidates_with_key parse_page permute raw n key")
    case (Ok candidates)
    have decoded: "rmap (carrier_page_of 34 self_length_bounded_systable_fixed_prefix_table_id
        (parse_materialized_systable_record n)) candidates \<noteq> Panic" (is "?d \<noteq> Panic")
      by (intro rmap_no_panic carrier_page_no_panic parse_materialized_systable_no_panic)
    have semantic: "rmap (\<lambda>p. semantic_tables (cpg_rows p)) ps \<noteq> Panic" for ps
      unfolding semantic_tables_def retain_table_def
      by (intro rmap_no_panic rfold_no_panic retain_row_no_panic)
    have choice: "carrier_choice parse_page 1 candidates \<noteq> Panic" by (simp add: carrier_choice_def Let_def)
    have retain: "rfold retain_table vs m \<noteq> Panic" for vs m
      unfolding retain_table_def by (intro rfold_no_panic retain_row_no_panic)
    have first: "xs \<noteq> []" if "carrier_choice parse_page 1 candidates = Ok True" "?d = Ok xs" for xs
      using carrier_choice_nonempty [OF that(1)] that(2) by (cases candidates) (auto simp: rbind_Ok_iff)
    have same: "xs = []" if "rmap (\<lambda>p. semantic_tables (cpg_rows p)) xs = Ok []" for xs
      using that by (cases xs) (auto simp: rbind_Ok_iff)
    show ?thesis
      unfolding collect_table_page_def page st prod.case Ok outcome.case
      by (intro no_panic choice decoded semantic retain) (auto simp del: rmap.simps simp: map_err_iff dest: first same)
  qed (simp_all add: collect_table_page_def page st materialize_candidates_no_panic)
qed

lemma collect_column_page_no_panic: "collect_column_page parse_page permute key page st \<noteq> Panic"
proof -
  obtain n raw rows totals where page: "page = (n, raw)" and st: "st = (rows, totals)" by (cases page, cases st)
  show ?thesis
  proof (cases "materialize_candidates_with_key parse_page permute raw n key")
    case (Ok candidates)
    have decoded: "rmap (carrier_page_of 12 self_length_bounded_syscolumn_fixed_prefix
        (parse_materialized_syscolumn_record n)) candidates \<noteq> Panic"
      by (intro rmap_no_panic carrier_page_no_panic parse_materialized_syscolumn_no_panic)
    have choice: "carrier_choice parse_page 2 candidates \<noteq> Panic" by (simp add: carrier_choice_def Let_def)
    have retain: "rfold retain_column vs m \<noteq> Panic" for vs m
      unfolding retain_column_def by (intro rfold_no_panic retain_row_no_panic)
    show ?thesis
      unfolding collect_column_page_def page st prod.case Ok outcome.case Let_def
      by (intro no_panic choice decoded retain)
  qed (simp_all add: collect_column_page_def page st materialize_candidates_no_panic)
qed

lemma collections_no_panic:
  "collect_materialized_systables parse_page permute key store \<noteq> Panic"
  "collect_materialized_syscolumns parse_page permute key store \<noteq> Panic"
  unfolding collect_materialized_systables_def collect_materialized_syscolumns_def
  by (intro rbind_no_panic rfold_no_panic collect_table_page_no_panic collect_column_page_no_panic; auto)+

lemma attest_candidate_no_panic: "attest_candidate parse_page permute store profile key \<noteq> Panic"
proof -
  have columns: "attest_supported_syscolumn_conflicts c \<noteq> Panic" for c
    unfolding attest_supported_syscolumn_conflicts_def by (intro no_panic)
  have profile: "attest_syscolumn_page_profile profile a b \<noteq> Panic" for a b
    by (cases profile) (simp_all add: attest_syscolumn_page_profile_def)
  have ordinals: "rfold (\<lambda>ic _. check_ordinal mismatch ic) (enumerate 0 cs) () \<noteq> Panic"
    if "length cs = unat (n :: u32)" for mismatch :: "u32 \<Rightarrow> u32 \<Rightarrow> manifest_error" and cs n
  proof (rule rfold_no_panic)
    fix ic u assume ic: "ic \<in> set (enumerate 0 cs)"
    obtain i c where "ic = (i, c)" by (rule prod.exhaust)
    moreover from this ic have "i < length cs" by (simp add: in_set_enumerate_eq)
    moreover have "unat n < 2 ^ 32" using unsigned_less [of n] by simp
    ultimately show "check_ordinal mismatch ic \<noteq> Panic"
      using that by (simp add: check_ordinal_def rbind_Panic_iff or_panic_iff ensure_iff)
  qed
  have manifest: "attest_r21_catalog cs \<noteq> Panic" for cs
    unfolding attest_r21_catalog_def validate_r21_schema_manifest_def validate_schema_manifest_def
      validate_manifest_table_def Let_def
    by (intro no_panic ordinals) (simp add: ensure_iff)
  have tables: "attest_required_tables c ids \<noteq> Panic" for c ids
    unfolding attest_required_tables_def require_unambiguous_tables_def logical_expectation_def Let_def
    by (intro no_panic rmap_no_panic)
  show ?thesis
    unfolding attest_candidate_def attest_page_floor_def Let_def
    by (intro no_panic collections_no_panic columns profile manifest tables)
qed

section \<open>The unique key\<close>

definition attestation_of ::
    "page_parser \<Rightarrow> sector_permutation \<Rightarrow> (u64 \<times> byte list) list \<Rightarrow> attestation_profile \<Rightarrow> transform_key \<Rightarrow>
     key_attestation option" where
  "attestation_of parse_page permute store profile key =
     (case attest_candidate parse_page permute store profile key of Ok a \<Rightarrow> Some a | _ \<Rightarrow> None)"

lemma attestation_of_Some:
  "attestation_of parse_page permute store profile key = Some a \<longleftrightarrow>
     ka_key a = key \<and> attested parse_page permute store profile a"
  by (auto simp: attestation_of_def attest_candidate_Ok [symmetric] split: outcome.split)

lemma attested_candidates_eq:
  "attested_candidates parse_page permute store profile keys
     = Ok (List.map_filter (attestation_of parse_page permute store profile) keys)"
proof -
  have "rfold (\<lambda>key kept. (case attest_candidate parse_page permute store profile key of
            Ok a \<Rightarrow> Ok (kept @ [a]) | Err _ \<Rightarrow> Ok kept | Panic \<Rightarrow> Panic)) keys kept
      = (Ok (kept @ List.map_filter (attestation_of parse_page permute store profile) keys)
          :: (resolution_error, key_attestation list) outcome)" for kept
  proof (induction keys arbitrary: kept)
    case (Cons key keys)
    then show ?case using attest_candidate_no_panic [of parse_page permute store profile key]
      by (cases "attest_candidate parse_page permute store profile key")
        (simp_all add: map_filter_simps attestation_of_def)
  qed (simp add: map_filter_simps)
  then show ?thesis by (simp add: attested_candidates_def)
qed

lemma map_filter_set: "set (List.map_filter f xs) = {y. \<exists>x\<in>set xs. f x = Some y}"
  by (auto simp: in_map_filter_iff)

lemma distinct_attestations:
  assumes "distinct keys"
  shows "distinct (List.map_filter (attestation_of parse_page permute store profile) keys)"
  using assms
proof (induction keys)
  case (Cons key keys)
  then show ?case
    by (auto simp: map_filter_simps map_filter_set attestation_of_Some split: option.split)
qed (simp add: map_filter_simps)

text \<open>The attestations of the witnessed candidates.\<close>

definition attested_keys ::
    "page_parser \<Rightarrow> sector_permutation \<Rightarrow> (u64 \<times> byte list) list \<Rightarrow> attestation_profile \<Rightarrow> transform_key list \<Rightarrow>
     key_attestation set" where
  "attested_keys parse_page permute store profile keys =
     {a. ka_key a \<in> set keys \<and> attested parse_page permute store profile a}"

lemma attested_keys_eq:
  "set (List.map_filter (attestation_of parse_page permute store profile) keys)
     = attested_keys parse_page permute store profile keys"
  by (auto simp: map_filter_set attested_keys_def attestation_of_Some)

lemma discover_keys_distinct:
  assumes "discover_transform_key_candidates parse_page permute store = Ok keys"
  shows "distinct keys"
  using discover_candidates_Ok(4) [OF assms] by (simp add: distinct_map)

lemma discover_r21_transform_key_Ok:
  "discover_r21_transform_key parse_page permute store = Ok a \<longleftrightarrow>
     (\<exists>keys. discover_transform_key_candidates parse_page permute store = Ok keys
        \<and> attested_keys parse_page permute store Strict keys = {a})"
proof -
  have one: "require_unique_semantic_candidate n (xs :: key_attestation list) = Ok a \<longleftrightarrow> xs = [a]" for n xs
    by (auto simp: require_unique_semantic_candidate_def split: list.splits)
  have "List.map_filter (attestation_of parse_page permute store Strict) keys = [a]
      \<longleftrightarrow> attested_keys parse_page permute store Strict keys = {a}"
    if "discover_transform_key_candidates parse_page permute store = Ok keys" for keys
    using distinct_set_singleton [OF distinct_attestations [OF discover_keys_distinct [OF that]], of parse_page permute store Strict a]
      attested_keys_eq [of parse_page permute store Strict keys] by auto
  then show ?thesis
    by (auto simp: discover_r21_transform_key_def rbind_Ok_iff map_err_iff attested_candidates_eq one)
qed

lemma profiles_exclusive:
  "attested parse_page permute store Strict a \<Longrightarrow> \<not> attested parse_page permute store PageFloorRelaxed a"
  by (auto simp: attested_def profile_pages_def split: option.splits)

end
