(* ===== verification/Account_Adapter.thy ===== *)
theory Account_Adapter
  imports Schema_Adapter Account_Row Account_Types Accounting Row_Schema
begin

text \<open>
  The adapter from Account rows to normalized accounts, \<open>crates/openqbw/src/schema_account_adapter.rs\<close>.
  The exact row decoder and the number of a column type (\<open>column_type as u16\<close>), both of another crate,
  are the parameters \<open>decode_exact\<close> and \<open>domain_number\<close>.
\<close>

section \<open>Schema\<close>

datatype account_adapter_error =
    PartialPrefixTooShort u32 u32
  | PhysicalSelectionCount nat nat
  | SelectedIdentityCount nat nat
  | ReferenceIdentityMismatch
  | WrongColumnCount nat
  | UnexpectedAccountColumn u32 u32 u16
  | AccountDecode
  | AccountSchema schema_error
  | AccountIdentity account_row_error
  | MissingAccountValue u32
  | RequiredAccountValueIsNull u32
  | WrongAccountValueKind u32
  | AccountTextNotUtf8 u32
  | AccountIdOutOfRange i64
  | IdentityDoesNotMatchId u32 u32
  | IdentityNameDoesNotMatch
  | IdentityTypeDoesNotMatch "i64 option" i64
  | ParentOutOfRange i64
  | ParentIdentityUnavailable u32
  | BusinessTypeUnresolved "i64 option"
  | AccountAccounting accounting_error

definition resolve_account_type18 :: "i64 \<Rightarrow> account_type option" where
  "resolve_account_type18 raw =
     (if 0 \<le> sint raw \<and> sint raw < 256
      then case map_materialized_account_type_code (ucast raw) of
             Ok q \<Rightarrow> Some (trial_balance_type q) | _ \<Rightarrow> None
      else None)"

text \<open>Ordinal, index, name, domain, width, nullable.\<close>

definition account_columns :: "(u32 \<times> nat \<times> string \<times> u16 \<times> u16 \<times> bool) list" where
  "account_columns =
     [(1, 0, ''account_id'', 2, 4, False), (6, 5, ''name'', 9, 32, True), (7, 6, ''is_hidden_bool'', 24, 1, False),
      (8, 7, ''is_deleted_bool'', 24, 1, False), (9, 8, ''is_delete_pending_bool'', 24, 1, False),
      (12, 11, ''parent_id'', 2, 4, True), (18, 17, ''type'', 1, 2, True), (22, 21, ''account_num'', 9, 8, True),
      (24, 23, ''description'', 9, 201, True), (35, 34, ''account_type'', 1, 2, True),
      (36, 35, ''currency_id'', 2, 4, True)]"

definition validate_account_row_schema ::
    "(column_type \<Rightarrow> u16) \<Rightarrow> row_schema \<Rightarrow> (account_adapter_error, unit) outcome" where
  "validate_account_row_schema domain_number schema =
     rbind (ensure (length (sch_columns schema) = 36) (WrongColumnCount (length (sch_columns schema)))) (\<lambda>_.
     rfold (\<lambda>(ordinal, index, name, domain, width, nullable) _.
         rbind (or_panic (get_at (sch_columns schema) index)) (\<lambda>column.
           ensure (cd_id column = ordinal \<and> cd_name column = name \<and> domain_number (cd_type column) = domain
                   \<and> cd_width column = width \<and> cd_nullable column = nullable)
             (UnexpectedAccountColumn ordinal (cd_id column) (domain_number (cd_type column)))))
       account_columns ())"

definition adapt_complete_account_schema ::
    "(u16 \<Rightarrow> column_type option) \<Rightarrow> (column_type \<Rightarrow> u16) \<Rightarrow> sys_column list \<Rightarrow> storage_attestation \<Rightarrow>
     default_envelope list \<Rightarrow> (account_adapter_error, row_schema) outcome" where
  "adapt_complete_account_schema domain_type domain_number columns storage defaults =
     rbind (case coverage_attestation_new 3026 36 of Ok c \<Rightarrow> Ok c | _ \<Rightarrow> Panic) (\<lambda>coverage.
     rbind (map_err AccountSchema (adapt_complete_schema domain_type columns coverage storage defaults)) (\<lambda>schema.
     rbind (validate_account_row_schema domain_number schema) (\<lambda>_. Ok schema)))"

section \<open>Lifecycle\<close>

datatype account_disposition = AccountIncluded | AccountDeleted | AccountDeletePending | AccountInternal

record account_lifecycle =
  al_hidden :: bool
  al_disposition :: account_disposition

definition lifecycle_from_flags :: "bool \<Rightarrow> bool \<Rightarrow> bool \<Rightarrow> bool \<Rightarrow> account_lifecycle" where
  "lifecycle_from_flags hidden deleted delete_pending internal =
     \<lparr>al_hidden = hidden,
      al_disposition = (if deleted then AccountDeleted else if delete_pending then AccountDeletePending
                        else if internal then AccountInternal else AccountIncluded)\<rparr>"

definition lifecycle_is_included :: "account_lifecycle \<Rightarrow> bool" where
  "lifecycle_is_included l \<longleftrightarrow> al_disposition l = AccountIncluded"

definition lifecycle_activity :: "account_lifecycle \<Rightarrow> account_activity" where
  "lifecycle_activity l = (if al_hidden l then Inactive else Active)"

record schema_account_row =
  sa_account :: account
  sa_lifecycle :: account_lifecycle
  sa_type_raw :: "i64 option"
  sa_account_type_raw :: "i64 option"
  sa_currency_raw :: "i64 option"
  sa_description :: "string option"
  sa_suffix_matches :: "bool option"

record selection_audit =
  au_physical_rows :: nat
  au_selected_rows :: nat
  au_unique_selected :: nat
  au_unique_active :: nat

text \<open>\<open>collect::<BTreeSet<_>>()\<close>; the reference set is such a list as well.\<close>

definition id_set :: "account_id list \<Rightarrow> account_id list" where
  "id_set ids = remdups_adj (sort ids)"

definition audit_account_selection ::
    "schema_account_row option list \<Rightarrow> nat \<Rightarrow> account_id list \<Rightarrow> (account_adapter_error, selection_audit) outcome" where
  "audit_account_selection rows expected_physical_rows reference_ids =
     rbind (ensure (length rows = expected_physical_rows) (PhysicalSelectionCount (length rows) expected_physical_rows)) (\<lambda>_.
     let flat = List.map_filter id rows;
         selected = id_set (map (\<lambda>r. acc_id (sa_account r)) flat);
         active = id_set (map (\<lambda>r. acc_id (sa_account r)) (filter (\<lambda>r. acc_activity (sa_account r) = Active) flat)) in
     rbind (ensure (length active = length reference_ids) (SelectedIdentityCount (length active) (length reference_ids))) (\<lambda>_.
     rbind (ensure (active = reference_ids) ReferenceIdentityMismatch) (\<lambda>_.
       Ok \<lparr>au_physical_rows = length rows, au_selected_rows = length flat, au_unique_selected = length selected,
           au_unique_active = length active\<rparr>)))"

section \<open>Reading one value\<close>

definition account_integer :: "u32 \<Rightarrow> sql_value \<Rightarrow> (account_adapter_error, i64 option) outcome" where
  "account_integer ordinal v =
     (case v of SqlInteger i \<Rightarrow> Ok (Some i) | SqlNull \<Rightarrow> Ok None | _ \<Rightarrow> Err (WrongAccountValueKind ordinal))"

definition account_needed_integer :: "u32 \<Rightarrow> sql_value \<Rightarrow> (account_adapter_error, i64) outcome" where
  "account_needed_integer ordinal v =
     (case v of SqlInteger i \<Rightarrow> Ok i | SqlNull \<Rightarrow> Err (RequiredAccountValueIsNull ordinal)
      | _ \<Rightarrow> Err (WrongAccountValueKind ordinal))"

definition account_needed_bool :: "u32 \<Rightarrow> sql_value \<Rightarrow> (account_adapter_error, bool) outcome" where
  "account_needed_bool ordinal v =
     (case v of SqlBoolean b \<Rightarrow> Ok b | SqlNull \<Rightarrow> Err (RequiredAccountValueIsNull ordinal)
      | _ \<Rightarrow> Err (WrongAccountValueKind ordinal))"

definition account_text :: "u32 \<Rightarrow> sql_value \<Rightarrow> (account_adapter_error, string option) outcome" where
  "account_text ordinal v =
     (case v of
        SqlBytes bs \<Rightarrow> if utf8_valid (bytes_text bs) then Ok (Some (bytes_text bs)) else Err (AccountTextNotUtf8 ordinal)
      | SqlNull \<Rightarrow> Ok None
      | _ \<Rightarrow> Err (WrongAccountValueKind ordinal))"

definition account_needed_text :: "u32 \<Rightarrow> sql_value \<Rightarrow> (account_adapter_error, string) outcome" where
  "account_needed_text ordinal v =
     rbind (account_text ordinal v) (\<lambda>t.
       case t of
         Some s \<Rightarrow> if trim_is_empty s then Err (RequiredAccountValueIsNull ordinal) else Ok s
       | None \<Rightarrow> Err (RequiredAccountValueIsNull ordinal))"

definition partial_account_value :: "partial_row \<Rightarrow> u32 \<Rightarrow> (account_adapter_error, sql_value) outcome" where
  "partial_account_value row ordinal =
     ok_or (case prefix_value_by_column_id row ordinal of
              Some v \<Rightarrow> Some v | None \<Rightarrow> boolean_value_by_column_id row ordinal)
       (MissingAccountValue ordinal)"

definition exact_account_value :: "decoded_row \<Rightarrow> nat \<Rightarrow> u32 \<Rightarrow> (account_adapter_error, sql_value) outcome" where
  "exact_account_value row index ordinal = ok_or (get_at (dr_values row) index) (MissingAccountValue ordinal)"

section \<open>One Account row\<close>

definition u32_of_i64 :: "i64 \<Rightarrow> u32 option" where
  "u32_of_i64 v = (if 0 \<le> sint v \<and> sint v < 2 ^ 32 then Some (ucast v) else None)"

definition checked_account_id :: "materialized_account_row \<Rightarrow> i64 \<Rightarrow> (account_adapter_error, unit) outcome" where
  "checked_account_id identity raw =
     rbind (ok_or (u32_of_i64 raw) (AccountIdOutOfRange raw)) (\<lambda>ident.
       ensure (ar_record_number identity = ident) (IdentityDoesNotMatchId ident (ar_record_number identity)))"

definition resolved_parent ::
    "(u32 \<Rightarrow> account_id option) \<Rightarrow> i64 option \<Rightarrow> (account_adapter_error, account_id option) outcome" where
  "resolved_parent parent_identity raw =
     (case raw of
        None \<Rightarrow> Ok None
      | Some v \<Rightarrow>
          if v = 0 then Ok None
          else
            rbind (ok_or (u32_of_i64 v) (ParentOutOfRange v)) (\<lambda>record_number.
            rbind (ok_or (parent_identity record_number) (ParentIdentityUnavailable record_number)) (\<lambda>p.
              Ok (Some p))))"

definition resolved_type ::
    "materialized_account_row \<Rightarrow> (i64 \<Rightarrow> account_type option) \<Rightarrow> i64 option \<Rightarrow> (account_adapter_error, account_type) outcome" where
  "resolved_type identity business_type type_raw =
     rbind (ok_or (case type_raw of Some raw \<Rightarrow> business_type raw | None \<Rightarrow> None) (BusinessTypeUnresolved type_raw)) (\<lambda>ty.
     let materialized = ucast (account_type_code (ar_type identity)) in
     rbind (ensure (type_raw = Some materialized) (IdentityTypeDoesNotMatch type_raw materialized)) (\<lambda>_. Ok ty))"

definition normalized_account ::
    "materialized_account_row \<Rightarrow> account_lifecycle \<Rightarrow> string \<Rightarrow> account_type \<Rightarrow> i64 option \<Rightarrow> string option \<Rightarrow>
     account_id option \<Rightarrow> (account_adapter_error, account) outcome" where
  "normalized_account identity lifecycle name ty type_raw number parent =
     rbind (map_err AccountAccounting (account_id_new (ordinary_list_id identity))) (\<lambda>ident.
     rbind (map_err AccountAccounting (account_new ident name ty (\<not> al_hidden lifecycle))) (\<lambda>account.
     rbind (map_err (\<lambda>_. BusinessTypeUnresolved type_raw)
              (map_materialized_account_type_code (account_type_code (ar_type identity)))) (\<lambda>q.
       map_err AccountAccounting
         (with_hierarchy number parent
            (with_quickbooks_classification q (with_activity (lifecycle_activity lifecycle) account))))))"

definition decode_schema_account_row_partial ::
    "(column_type \<Rightarrow> u16) \<Rightarrow> partial_row \<Rightarrow> row_schema \<Rightarrow> materialized_account_row \<Rightarrow> bool \<Rightarrow>
     (u32 \<Rightarrow> account_id option) \<Rightarrow> (i64 \<Rightarrow> account_type option) \<Rightarrow>
     (account_adapter_error, schema_account_row option) outcome" where
  "decode_schema_account_row_partial domain_number row schema identity internal parent_identity business_type =
     (let integer = (\<lambda>n. rbind (partial_account_value row n) (account_integer n));
          bool = (\<lambda>n. rbind (partial_account_value row n) (account_needed_bool n));
          text = (\<lambda>n. rbind (partial_account_value row n) (account_text n)) in
      rbind (validate_account_row_schema domain_number schema) (\<lambda>_.
      rbind (ensure (24 \<le> pr_through row) (PartialPrefixTooShort (pr_through row) 24)) (\<lambda>_.
      rbind (rbind (partial_account_value row 1) (account_needed_integer 1)) (\<lambda>raw_id.
      rbind (checked_account_id identity raw_id) (\<lambda>_.
      rbind (bool 7) (\<lambda>hidden.
      rbind (bool 8) (\<lambda>deleted.
      rbind (bool 9) (\<lambda>delete_pending.
      let lifecycle = lifecycle_from_flags hidden deleted delete_pending internal in
      if \<not> lifecycle_is_included lifecycle then Ok None
      else
        rbind (rbind (partial_account_value row 6) (account_needed_text 6)) (\<lambda>name.
        rbind (ensure (ar_name identity = name) IdentityNameDoesNotMatch) (\<lambda>_.
        rbind (text 22) (\<lambda>number.
        rbind (text 24) (\<lambda>description.
        let suffix = (if ar_suffix_state identity = SuffixParsed
                      then Some (ar_number identity = number \<and> ar_description identity = description) else None) in
        rbind (rbind (integer 12) (resolved_parent parent_identity)) (\<lambda>parent.
        rbind (integer 18) (\<lambda>type_raw.
        rbind (resolved_type identity business_type type_raw) (\<lambda>ty.
        rbind (normalized_account identity lifecycle name ty type_raw number parent) (\<lambda>account.
          Ok (Some \<lparr>sa_account = account, sa_lifecycle = lifecycle, sa_type_raw = type_raw, sa_account_type_raw = None,
                    sa_currency_raw = None, sa_description = description, sa_suffix_matches = suffix\<rparr>)))))))))))))))))"

definition decode_account_values ::
    "decoded_row \<Rightarrow> materialized_account_row \<Rightarrow> bool \<Rightarrow> (u32 \<Rightarrow> account_id option) \<Rightarrow>
     (i64 \<Rightarrow> account_type option) \<Rightarrow> (account_adapter_error, schema_account_row option) outcome" where
  "decode_account_values row identity internal parent_identity business_type =
     (let integer = (\<lambda>i n. rbind (exact_account_value row i n) (account_integer n));
          bool = (\<lambda>i n. rbind (exact_account_value row i n) (account_needed_bool n));
          text = (\<lambda>i n. rbind (exact_account_value row i n) (account_text n)) in
      rbind (rbind (exact_account_value row 0 1) (account_needed_integer 1)) (\<lambda>raw_id.
      rbind (checked_account_id identity raw_id) (\<lambda>_.
      rbind (bool 6 7) (\<lambda>hidden.
      rbind (bool 7 8) (\<lambda>deleted.
      rbind (bool 8 9) (\<lambda>delete_pending.
      let lifecycle = lifecycle_from_flags hidden deleted delete_pending internal in
      if \<not> lifecycle_is_included lifecycle then Ok None
      else
        rbind (rbind (exact_account_value row 5 6) (account_needed_text 6)) (\<lambda>name.
        rbind (text 21 22) (\<lambda>number.
        rbind (text 23 24) (\<lambda>description.
        rbind (rbind (integer 11 12) (resolved_parent parent_identity)) (\<lambda>parent.
        rbind (integer 17 18) (\<lambda>type_raw.
        rbind (resolved_type identity business_type type_raw) (\<lambda>ty.
        rbind (normalized_account identity lifecycle name ty type_raw number parent) (\<lambda>account.
        rbind (integer 34 35) (\<lambda>account_type_raw.
        rbind (integer 35 36) (\<lambda>currency_raw.
          Ok (Some \<lparr>sa_account = account, sa_lifecycle = lifecycle, sa_type_raw = type_raw,
                    sa_account_type_raw = account_type_raw, sa_currency_raw = currency_raw,
                    sa_description = description, sa_suffix_matches = None\<rparr>))))))))))))))))"

definition decode_schema_account_row_exact ::
    "(column_type \<Rightarrow> u16) \<Rightarrow> (byte list \<Rightarrow> row_schema \<Rightarrow> decoded_row option) \<Rightarrow> byte list \<Rightarrow> row_schema \<Rightarrow> bool \<Rightarrow>
     (u32 \<Rightarrow> account_id option) \<Rightarrow> (i64 \<Rightarrow> account_type option) \<Rightarrow>
     (account_adapter_error, schema_account_row option) outcome" where
  "decode_schema_account_row_exact domain_number decode_exact bytes schema internal parent_identity business_type =
     rbind (validate_account_row_schema domain_number schema) (\<lambda>_.
     rbind (ok_or (decode_exact bytes schema) AccountDecode) (\<lambda>row.
     rbind (map_err AccountIdentity (account_row_parse bytes)) (\<lambda>identity.
       decode_account_values row identity internal parent_identity business_type)))"

section \<open>What an accepted Account row is bound to\<close>

lemma resolve_account_type18_iff:
  "resolve_account_type18 raw = Some t \<longleftrightarrow> (\<exists>q. raw = ucast (materialized_code q) \<and> t = trial_balance_type q)"
proof
  assume r: "resolve_account_type18 raw = Some t"
  then obtain q where small: "0 \<le> sint raw" "sint raw < 256" and q: "map_materialized_account_type_code (ucast raw) = Ok q"
    and t: "t = trial_balance_type q"
    by (auto simp: resolve_account_type18_def split: if_splits outcome.splits)
  have "(ucast raw :: u8) = materialized_code q"
    using q by (cases q) (auto simp: map_materialized_account_type_code_def split: if_splits)
  moreover have "ucast (ucast raw :: u8) = raw"
  proof -
    have "uint raw = sint raw" using small by (simp add: uint_sint take_bit_eq_mod)
    then have "unat raw < 256" using small by (simp only: unat_eq_nat_uint)
    then have "unat (ucast raw :: u8) = unat raw"
      by (simp only: unsigned_ucast_eq) (simp add: take_bit_nat_eq_self)
    moreover from this have "unat (ucast raw :: u8) < 2 ^ 64" using \<open>unat raw < 256\<close> by simp
    ultimately show ?thesis
      by (simp only: word_unat_eq_iff unsigned_ucast_eq [of "ucast raw :: u8"]) (simp add: take_bit_nat_eq_self)
  qed
  ultimately show "\<exists>q. raw = ucast (materialized_code q) \<and> t = trial_balance_type q" using t by metis
next
  assume "\<exists>q. raw = ucast (materialized_code q) \<and> t = trial_balance_type q"
  then obtain q where "raw = ucast (materialized_code q)" and "t = trial_balance_type q" by blast
  then show "resolve_account_type18 raw = Some t"
    by (cases q) (simp_all add: resolve_account_type18_def map_materialized_account_type_code_def)
qed

definition bound_account ::
    "materialized_account_row \<Rightarrow> (i64 \<Rightarrow> account_type option) \<Rightarrow> schema_account_row \<Rightarrow> bool" where
  "bound_account identity business_type r \<longleftrightarrow>
     (let a = sa_account r; code = account_type_code (ar_type identity) in
      acc_id a = AccountId (ordinary_list_id identity)
      \<and> \<not> trim_is_empty (acc_name a)
      \<and> sa_type_raw r = Some (ucast code) \<and> business_type (ucast code) = Some (acc_type a)
      \<and> (case acc_classification a of Some q \<Rightarrow> materialized_code q = code | None \<Rightarrow> False)
      \<and> al_disposition (sa_lifecycle r) = AccountIncluded
      \<and> activity_synced a \<and> acc_active a = (\<not> al_hidden (sa_lifecycle r)))"

lemma normalized_account_Ok:
  assumes "normalized_account identity lifecycle name ty type_raw number parent = Ok a"
    and "resolved_type identity business_type type_raw = Ok ty" and "lifecycle_is_included lifecycle"
  shows "bound_account identity business_type
      \<lparr>sa_account = a, sa_lifecycle = lifecycle, sa_type_raw = type_raw, sa_account_type_raw = x, sa_currency_raw = y,
       sa_description = d, sa_suffix_matches = m\<rparr>" and "acc_name a = name"
    and "acc_number a = number" and "acc_parent a = parent"
proof -
  have code: "materialized_code q = c" if "map_materialized_account_type_code c = Ok q" for q c
    using that by (cases q) (auto simp: map_materialized_account_type_code_def split: if_splits)
  obtain ident base q where i: "account_id_new (ordinary_list_id identity) = Ok ident"
    and b: "account_new ident name ty (\<not> al_hidden lifecycle) = Ok base"
    and q: "map_materialized_account_type_code (account_type_code (ar_type identity)) = Ok q"
    and h: "with_hierarchy number parent
            (with_quickbooks_classification q (with_activity (lifecycle_activity lifecycle) base)) = Ok a"
    using assms(1) by (auto simp: normalized_account_def outcome_simps)
  have t: "type_raw = Some (ucast (account_type_code (ar_type identity)))"
    "business_type (ucast (account_type_code (ar_type identity))) = Some ty"
    using assms(2) by (auto simp: resolved_type_def outcome_simps Let_def split: option.splits)
  show "bound_account identity business_type
      \<lparr>sa_account = a, sa_lifecycle = lifecycle, sa_type_raw = type_raw, sa_account_type_raw = x, sa_currency_raw = y,
       sa_description = d, sa_suffix_matches = m\<rparr>"
    using i b h t code [OF q] assms(3)
    by (auto simp: bound_account_def Let_def account_id_new_def account_new_def with_hierarchy_def with_activity_def
      with_quickbooks_classification_def lifecycle_activity_def lifecycle_is_included_def activity_synced_def
      split: if_splits)
  show "acc_name a = name" "acc_number a = number" "acc_parent a = parent"
    using b h by (auto simp: account_new_def with_hierarchy_def with_activity_def
      with_quickbooks_classification_def split: if_splits)
qed

text \<open>The columns of the row that an account stands for.\<close>

definition text_column :: "(account_adapter_error, sql_value) outcome \<Rightarrow> string option \<Rightarrow> bool" where
  "text_column column t \<longleftrightarrow>
     (case t of None \<Rightarrow> column = Ok SqlNull | Some s \<Rightarrow> (\<exists>bs. column = Ok (SqlBytes bs) \<and> bytes_text bs = s))"

definition parent_column ::
    "(account_adapter_error, sql_value) outcome \<Rightarrow> (u32 \<Rightarrow> account_id option) \<Rightarrow> account_id option \<Rightarrow> bool" where
  "parent_column column parent_identity parent \<longleftrightarrow>
     (case parent of
        None \<Rightarrow> column = Ok SqlNull \<or> column = Ok (SqlInteger 0)
      | Some p \<Rightarrow> (\<exists>n. n \<noteq> 0 \<and> column = Ok (SqlInteger (ucast n)) \<and> parent_identity n = Some p))"

definition row_columns ::
    "partial_row \<Rightarrow> materialized_account_row \<Rightarrow> (u32 \<Rightarrow> account_id option) \<Rightarrow> schema_account_row \<Rightarrow> bool" where
  "row_columns row identity parent_identity r \<longleftrightarrow>
     (let a = sa_account r; column = partial_account_value row in
      column 1 = Ok (SqlInteger (ucast (ar_record_number identity)))
      \<and> text_column (column 6) (Some (acc_name a))
      \<and> column 7 = Ok (SqlBoolean (\<not> acc_active a))
      \<and> column 8 = Ok (SqlBoolean False) \<and> column 9 = Ok (SqlBoolean False)
      \<and> parent_column (column 12) parent_identity (acc_parent a)
      \<and> column 18 = Ok (SqlInteger (ucast (account_type_code (ar_type identity))))
      \<and> text_column (column 22) (acc_number a) \<and> text_column (column 24) (sa_description r))"

lemma u32_of_i64_iff: "u32_of_i64 v = Some n \<longleftrightarrow> v = ucast n"
proof
  assume "u32_of_i64 v = Some n"
  then have small: "0 \<le> sint v" "sint v < 2 ^ 32" and n: "n = ucast v"
    by (auto simp: u32_of_i64_def split: if_splits)
  have "uint v = sint v" using small by (simp add: uint_sint take_bit_eq_mod)
  then have "uint (ucast v :: u32) = uint v" using small by (simp add: unsigned_ucast_eq take_bit_int_eq_self)
  then show "v = ucast n"
    unfolding n by (metis ucast_eq word_of_int_uint)
next
  assume v: "v = ucast n"
  have range: "0 \<le> uint n" "uint n < 2 ^ 32" using uint_lt2p [of n] by simp_all
  have low: "- (2 ^ 63) \<le> uint n" by (rule order_trans [OF _ range(1)]) simp
  then have "sint v = uint n"
    using range by (simp add: v sint_uint unsigned_ucast_eq take_bit_int_eq_self signed_take_bit_int_eq_self_iff low [simplified])
  moreover have "(ucast v :: u32) = n" unfolding v by (simp add: ucast_up_ucast_id is_up)
  ultimately show "u32_of_i64 v = Some n" using range by (simp add: u32_of_i64_def)
qed

lemma account_text_column: "account_text ordinal v = Ok t \<Longrightarrow> text_column (Ok v) t"
  by (cases v) (auto simp: account_text_def text_column_def split: if_splits)

lemma account_needed_text_column: "account_needed_text ordinal v = Ok t \<Longrightarrow> text_column (Ok v) (Some t)"
  by (auto simp: account_needed_text_def rbind_Ok_iff split: if_splits option.splits intro: account_text_column)

lemma account_bool_column: "account_needed_bool ordinal v = Ok b \<Longrightarrow> v = SqlBoolean b"
  by (cases v) (auto simp: account_needed_bool_def)

lemma account_id_column:
  "account_needed_integer ordinal v = Ok raw \<Longrightarrow> checked_account_id identity raw = Ok () \<Longrightarrow>
   v = SqlInteger (ucast (ar_record_number identity))"
  by (cases v) (auto simp: account_needed_integer_def checked_account_id_def rbind_Ok_iff ensure_iff ok_or_iff u32_of_i64_iff)

lemma account_parent_column:
  assumes "account_integer ordinal v = Ok raw" and "resolved_parent parent_identity raw = Ok p"
  shows "parent_column (Ok v) parent_identity p"
proof (cases v)
  case (SqlInteger i)
  have "n \<noteq> 0" if "(ucast n :: i64) \<noteq> 0" for n :: u32 using that by auto
  then show ?thesis
    using assms SqlInteger
    by (fastforce simp: account_integer_def resolved_parent_def parent_column_def rbind_Ok_iff ok_or_iff u32_of_i64_iff
      split: if_splits)
qed (use assms in \<open>auto simp: account_integer_def resolved_parent_def parent_column_def\<close>)

lemma account_type_column:
  "account_integer ordinal v = Ok raw \<Longrightarrow> resolved_type identity business_type raw = Ok ty \<Longrightarrow>
   v = SqlInteger (ucast (account_type_code (ar_type identity)))"
  by (cases v) (auto simp: account_integer_def resolved_type_def rbind_Ok_iff ok_or_iff ensure_iff Let_def)

lemma partial_account_columns:
  assumes "decode_schema_account_row_partial domain_number row schema identity internal parent_identity business_type = Ok (Some r)"
  shows "row_columns row identity parent_identity r"
proof -
  let ?column = "partial_account_value row" and ?lifecycle = "\<lambda>h d p. lifecycle_from_flags h d p internal"
  obtain v1 v6 v7 v8 v9 v12 v18 v22 v24 raw_id hidden deleted pending name number parent parent_raw type_raw ty account
      description suffix where
    columns: "?column 1 = Ok v1" "?column 6 = Ok v6" "?column 7 = Ok v7" "?column 8 = Ok v8" "?column 9 = Ok v9"
      "?column 12 = Ok v12" "?column 18 = Ok v18" "?column 22 = Ok v22" "?column 24 = Ok v24"
    and ident: "account_needed_integer 1 v1 = Ok raw_id" "checked_account_id identity raw_id = Ok ()"
    and flags: "account_needed_bool 7 v7 = Ok hidden" "account_needed_bool 8 v8 = Ok deleted"
      "account_needed_bool 9 v9 = Ok pending"
    and included: "lifecycle_is_included (?lifecycle hidden deleted pending)"
    and name: "account_needed_text 6 v6 = Ok name"
    and texts: "account_text 22 v22 = Ok number" "account_text 24 v24 = Ok description"
    and parent: "account_integer 12 v12 = Ok parent_raw" "resolved_parent parent_identity parent_raw = Ok parent"
    and type: "account_integer 18 v18 = Ok type_raw" "resolved_type identity business_type type_raw = Ok ty"
    and account: "normalized_account identity (?lifecycle hidden deleted pending) name ty type_raw number parent = Ok account"
    and r: "r = \<lparr>sa_account = account, sa_lifecycle = ?lifecycle hidden deleted pending, sa_type_raw = type_raw,
      sa_account_type_raw = None, sa_currency_raw = None, sa_description = description, sa_suffix_matches = suffix\<rparr>"
    using assms unfolding decode_schema_account_row_partial_def Let_def
    by atomize_elim (clarsimp simp: rbind_Ok_iff ensure_iff split: if_split_asm, blast)
  note normal = normalized_account_Ok [OF account type(2) included]
  have "\<not> deleted \<and> \<not> pending"
    using included by (auto simp: lifecycle_is_included_def lifecycle_from_flags_def split: if_splits)
  moreover have "hidden = (\<not> acc_active account)"
    using normal(1) by (auto simp: bound_account_def Let_def lifecycle_from_flags_def)
  ultimately show ?thesis
    using account_id_column [OF ident] flags [THEN account_bool_column] account_needed_text_column [OF name]
      texts [THEN account_text_column] account_parent_column [OF parent] account_type_column [OF type] normal(2-4)
    by (simp add: row_columns_def Let_def r columns)
qed

lemma partial_account_bound:
  assumes "decode_schema_account_row_partial domain_number row schema identity internal parent_identity business_type = Ok (Some r)"
  shows "bound_account identity business_type r" and "acc_name (sa_account r) = ar_name identity" and "\<not> internal"
  using assms
  by (auto simp: decode_schema_account_row_partial_def Let_def rbind_Ok_iff ensure_iff normalized_account_Ok
    lifecycle_is_included_def lifecycle_from_flags_def split: if_splits)

lemma exact_account_bound:
  assumes "decode_account_values row identity internal parent_identity business_type = Ok (Some r)"
  shows "bound_account identity business_type r" and "\<not> internal"
  using assms
  by (auto simp: decode_account_values_def Let_def rbind_Ok_iff ensure_iff normalized_account_Ok
    lifecycle_is_included_def lifecycle_from_flags_def split: if_splits)

section \<open>The partial adapter refines the exact one\<close>

definition account_prefix_of :: "partial_row \<Rightarrow> decoded_row \<Rightarrow> bool" where
  "account_prefix_of row full \<longleftrightarrow>
     partial_account_value row 1 = exact_account_value full 0 1 \<and> partial_account_value row 6 = exact_account_value full 5 6
     \<and> partial_account_value row 7 = exact_account_value full 6 7 \<and> partial_account_value row 8 = exact_account_value full 7 8
     \<and> partial_account_value row 9 = exact_account_value full 8 9 \<and> partial_account_value row 12 = exact_account_value full 11 12
     \<and> partial_account_value row 18 = exact_account_value full 17 18
     \<and> partial_account_value row 22 = exact_account_value full 21 22
     \<and> partial_account_value row 24 = exact_account_value full 23 24"

lemma partial_account_refines:
  assumes "account_prefix_of row full"
    and "decode_schema_account_row_partial domain_number row schema identity internal parent_identity business_type = Ok result"
    and "rbind (exact_account_value full 34 35) (account_integer 35) = Ok account_type_raw"
    and "rbind (exact_account_value full 35 36) (account_integer 36) = Ok currency_raw"
  shows "decode_account_values full identity internal parent_identity business_type
    = Ok (map_option (\<lambda>r. r\<lparr>sa_account_type_raw := account_type_raw, sa_currency_raw := currency_raw,
                             sa_suffix_matches := None\<rparr>) result)"
proof -
  note prefix = assms(1)[unfolded account_prefix_of_def]
  obtain v w where v: "exact_account_value full 34 35 = Ok v" "account_integer 35 v = Ok account_type_raw"
    and w: "exact_account_value full 35 36 = Ok w" "account_integer 36 w = Ok currency_raw"
    using assms(3,4) by (auto simp: rbind_Ok_iff)
  show ?thesis
    using assms(2)
    by (auto simp: decode_schema_account_row_partial_def decode_account_values_def Let_def prefix rbind_Ok_iff ensure_iff
      v w split: if_splits)
qed

section \<open>The audit\<close>

lemma distinct_remdups_adj_sorted: "sorted xs \<Longrightarrow> distinct (remdups_adj xs)"
  by (induction xs rule: remdups_adj.induct) (auto simp: order.antisym)

lemma id_set_set: "set (id_set ids) = set ids" and id_set_sorted: "sorted_wrt (<) (id_set ids)"
  by (simp_all add: id_set_def strict_sorted_iff distinct_remdups_adj_sorted)

lemma audit_account_selection_Ok:
  assumes "sorted_wrt (<) reference_ids"
  shows "audit_account_selection rows expected reference_ids = Ok audit \<longleftrightarrow>
    length rows = expected
    \<and> {acc_id (sa_account r) |r. Some r \<in> set rows \<and> acc_activity (sa_account r) = Active} = set reference_ids
    \<and> audit = \<lparr>au_physical_rows = length rows, au_selected_rows = length (filter (\<lambda>r. r \<noteq> None) rows),
        au_unique_selected = card {acc_id (sa_account r) |r. Some r \<in> set rows},
        au_unique_active = length reference_ids\<rparr>"
proof -
  have flat: "set (List.map_filter id rows) = {r. Some r \<in> set rows}" by (force simp: map_filter_def)
  have len: "length (List.map_filter id rows) = length (filter (\<lambda>r. r \<noteq> None) rows)"
    by (induction rows) (auto simp: map_filter_simps split: option.split)
  have eq: "id_set xs = reference_ids \<longleftrightarrow> set xs = set reference_ids" for xs
    using strict_sorted_equal [OF id_set_sorted [of xs] assms] id_set_set [of xs] by auto
  have card: "length (id_set xs) = card (set xs)" for xs
    using distinct_card [of "id_set xs"] id_set_sorted [of xs] by (simp add: strict_sorted_iff id_set_set)
  have active: "set (map (\<lambda>r. acc_id (sa_account r)) (filter (\<lambda>r. acc_activity (sa_account r) = Active) (List.map_filter id rows)))
      = {acc_id (sa_account r) |r. Some r \<in> set rows \<and> acc_activity (sa_account r) = Active}"
    by (auto simp: flat)
  have all: "set (map (\<lambda>r. acc_id (sa_account r)) (List.map_filter id rows)) = {acc_id (sa_account r) |r. Some r \<in> set rows}"
    by (auto simp: flat)
  show ?thesis
    unfolding audit_account_selection_def Let_def rbind_Ok_iff ensure_iff eq active card all len
    using distinct_card [of reference_ids] assms by (auto simp: strict_sorted_iff)
qed

end
