(* ===== verification/Pipeline_Tables.thy ===== *)
theory Pipeline_Tables
  imports Schema_Adapter Table_Scan Posting_Adapter Journal_Classification Bill_Rows Check_Rows
begin

text \<open>
  The collectors of \<open>crates/openqbw/src/enterprise24_accounting_pipeline.rs\<close>: the policies of the
  tables, the consensus of candidate directories and rows, and the rows of each table with their
  coverage. Two functions of the \<open>opensqlany\<close> crate are parameters: \<open>decode\<close>, the decoder of a
  prefix of a row, and \<open>segment\<close>, the parser of a row segment.
\<close>

section \<open>Policies\<close>

datatype policy_status = PolicyPartial | PolicyLayoutPending | PolicyUnsupported

record table_policy =
  po_table :: accounting_table
  po_version :: string
  po_through :: "u32 option"
  po_status :: policy_status
  po_storage :: "storage_attestation option"

definition storage_layout ::
    "variable_overflow_layout \<Rightarrow> variable_length_layout \<Rightarrow> row_prefix_layout \<Rightarrow> storage_attestation" where
  "storage_layout overflow len prefix =
     \<lparr>sto_uncompressed = True, sto_boolean_tail = BooleanInlineBytes, sto_numeric = EnterpriseMaterializedRaw,
      sto_enum = EnumUnsupported, sto_overflow = overflow, sto_length = len, sto_null_layout = NullMsbPresent,
      sto_null_coverage = NullNullableColumns, sto_prefix = prefix\<rparr>"

definition prefix_two_declared :: storage_attestation where
  "prefix_two_declared = storage_layout (OverflowPointer 16) (LengthDeclaredWidth 4096) TwoByteCarrier"

definition prefix_two_u8 :: storage_attestation where
  "prefix_two_u8 = storage_layout OverflowUnsupported LengthU8 TwoByteCarrier"

definition prefix_one_u8 :: storage_attestation where
  "prefix_one_u8 = storage_layout OverflowUnsupported LengthU8 OneByteCarrier"

definition check_prefix_one_declared :: storage_attestation where
  "check_prefix_one_declared = storage_layout (OverflowPointer 16) (LengthDeclaredWidth 4096) OneByteCarrier"

definition r21_policies :: "table_policy list" where
  "r21_policies =
     [\<lparr>po_table = AccountUser, po_version = ''enterprise24-r21-account-prefix-v1'', po_through = Some 24,
       po_status = PolicyPartial, po_storage = Some prefix_two_declared\<rparr>,
      \<lparr>po_table = BillPaymentCheckLine, po_version = ''enterprise24-r21-bill-payment-check-prefix-v1'', po_through = Some 33,
       po_status = PolicyPartial, po_storage = Some prefix_two_declared\<rparr>,
      \<lparr>po_table = BillLine, po_version = ''enterprise24-r21-bill-lifecycle-prefix-v3'', po_through = Some 34,
       po_status = PolicyPartial, po_storage = Some prefix_two_u8\<rparr>,
      \<lparr>po_table = CheckLine, po_version = ''enterprise24-r21-check-e4-prefix-v2'', po_through = Some 33,
       po_status = PolicyPartial, po_storage = Some check_prefix_one_declared\<rparr>,
      \<lparr>po_table = DepositLine, po_version = ''enterprise24-r21-deposit-prefix-v2'', po_through = Some 28,
       po_status = PolicyPartial, po_storage = Some prefix_one_u8\<rparr>,
      \<lparr>po_table = GeneralJournalLine, po_version = ''enterprise24-r21-general-journal-materialized-v1'', po_through = None,
       po_status = PolicyPartial, po_storage = None\<rparr>]"

definition r21_policy :: "accounting_table \<Rightarrow> table_policy option" where
  "r21_policy table = find (\<lambda>p. po_table p = table) r21_policies"

definition policy_schema_matches :: "table_policy \<Rightarrow> row_schema \<Rightarrow> bool" where
  "policy_schema_matches policy schema \<longleftrightarrow>
     (case po_storage policy of
        None \<Rightarrow> False
      | Some storage \<Rightarrow>
          sto_uncompressed storage \<and> sch_boolean_tail schema = sto_boolean_tail storage
          \<and> sch_numeric schema = sto_numeric storage \<and> sch_enum schema = sto_enum storage
          \<and> sch_overflow schema = sto_overflow storage \<and> sch_length schema = sto_length storage
          \<and> sch_null_layout schema = sto_null_layout storage \<and> sch_null_coverage schema = sto_null_coverage storage
          \<and> sch_prefix schema = sto_prefix storage)"

section \<open>Records and their coverage\<close>

record record_candidate =
  rc_bytes :: "byte list"
  rc_partial :: partial_row

record partial_record =
  pd_page :: u64
  pd_record :: u16
  pd_bytes :: "byte list"
  pd_partial :: partial_row

definition resolve_record_candidates :: "record_candidate list \<Rightarrow> record_candidate option" where
  "resolve_record_candidates candidates =
     (case candidates of
        [] \<Rightarrow> None
      | first # rest \<Rightarrow> if list_all (\<lambda>c. rc_partial c = rc_partial first) rest then Some first else None)"

text \<open>The counters are naturals; what they are compared with is a \<open>u64\<close>.\<close>

record table_coverage =
  tv_table :: u32
  tv_groups :: nat
  tv_expected_records :: "u64 option"
  tv_expected_pages :: "u32 option"
  tv_expected_external :: "u32 option"
  tv_resolved :: nat
  tv_unresolved :: nat
  tv_missing :: nat
  tv_disagreements :: nat
  tv_failures :: nat
  tv_artifacts :: nat
  tv_logical_carriers :: nat
  tv_aliases :: nat
  tv_external_text :: nat
  tv_empty_surplus :: nat
  tv_unsupported :: bool
  tv_layout_pending :: bool

text \<open>An equation between \<open>u64\<close> sums that a \<open>checked_add\<close> guards is one between naturals below \<open>2^64\<close>.\<close>

definition coverage_complete :: "table_coverage \<Rightarrow> bool" where
  "coverage_complete c \<longleftrightarrow>
     \<not> tv_unsupported c \<and> \<not> tv_layout_pending c \<and> tv_unresolved c = 0 \<and> tv_failures c = 0 \<and> tv_disagreements c = 0
     \<and> (case tv_expected_records c of
          Some expected \<Rightarrow> tv_resolved c + tv_logical_carriers c = unat expected | None \<Rightarrow> False)
     \<and> (tv_logical_carriers c = 0 \<or> tv_table c = table_id_of BillLine)
     \<and> (tv_empty_surplus c = 0
        \<or> tv_table c = table_id_of GeneralJournalLine \<and> tv_empty_surplus c = 1 \<and> 0 < tv_resolved c)
     \<and> (case tv_expected_pages c of
          None \<Rightarrow> True
        | Some primary \<Rightarrow>
            unat primary + (case tv_expected_external c of Some n \<Rightarrow> unat n | None \<Rightarrow> 0) + tv_empty_surplus c = tv_groups c)"

record coverage_expectation =
  xp_records :: u64
  xp_pages :: u32
  xp_external :: u32

definition expectation_of :: "sys_table \<Rightarrow> coverage_expectation" where
  "expectation_of t = \<lparr>xp_records = tb_row_count t, xp_pages = tb_table_pages t, xp_external = tb_ext_pages t\<rparr>"

record table_rows =
  tr_policy :: table_policy
  tr_records :: "partial_record list"
  tr_coverage :: table_coverage

datatype pipeline_error =
    ScanTableMismatch u32 u32
  | PolicyStorageMismatch u32
  | PolicyRequiresDedicatedCollector u32
  | HeaderWitnessConsensusFailed
  | HeaderWitnessParseFailed
  | BillHeaderWitnessResolutionFailed

definition coverage_start :: "u32 \<Rightarrow> table_scan \<Rightarrow> coverage_expectation \<Rightarrow> table_coverage" where
  "coverage_start table scan expectation =
     \<lparr>tv_table = table, tv_groups = length (ts_groups scan), tv_expected_records = Some (xp_records expectation),
      tv_expected_pages = Some (xp_pages expectation), tv_expected_external = Some (xp_external expectation),
      tv_resolved = 0, tv_unresolved = 0, tv_missing = 0, tv_disagreements = 0, tv_failures = 0, tv_artifacts = 0,
      tv_logical_carriers = 0, tv_aliases = 0, tv_external_text = 0, tv_empty_surplus = 0,
      tv_unsupported = False, tv_layout_pending = False\<rparr>"

definition unresolved :: "table_coverage \<Rightarrow> table_coverage" where
  "unresolved c = c\<lparr>tv_unresolved := tv_unresolved c + 1\<rparr>"

definition failed_unresolved :: "table_coverage \<Rightarrow> table_coverage" where
  "failed_unresolved c = c\<lparr>tv_failures := tv_failures c + 1, tv_unresolved := tv_unresolved c + 1\<rparr>"

definition resolved :: "table_coverage \<Rightarrow> table_coverage" where
  "resolved c = c\<lparr>tv_resolved := tv_resolved c + 1\<rparr>"

section \<open>The directory of a page group\<close>

record directory_consensus =
  dy_common :: "u16 list"
  dy_empty :: "u16 list"
  dy_disagreements :: nat

definition directory_slot ::
    "nat \<Rightarrow> (nat \<Rightarrow> u16 \<Rightarrow> bool) \<Rightarrow> u16 \<Rightarrow> directory_consensus \<Rightarrow> directory_consensus" where
  "directory_slot n present record_id d =
     (let present_count = length (filter (\<lambda>i. present i record_id) [0..<n]) in
      if present_count = n then d\<lparr>dy_common := dy_common d @ [record_id]\<rparr>
      else if present_count = 0 then d\<lparr>dy_empty := dy_empty d @ [record_id]\<rparr>
      else d\<lparr>dy_disagreements := dy_disagreements d + 1\<rparr>)"

definition candidate_directory_consensus :: "u16 list \<Rightarrow> (nat \<Rightarrow> u16 \<Rightarrow> bool) \<Rightarrow> directory_consensus" where
  "candidate_directory_consensus record_counts present =
     (case record_counts of
        [] \<Rightarrow> \<lparr>dy_common = [], dy_empty = [], dy_disagreements = 0\<rparr>
      | first # rest \<Rightarrow>
          let minimum = fold min rest first; maximum = fold max rest first in
          fold (directory_slot (length record_counts) present) (map word_of_nat [0..<unat minimum])
            \<lparr>dy_common = [], dy_empty = [], dy_disagreements = unat (maximum - minimum)\<rparr>)"

text \<open>A page has at most \<open>u16::MAX\<close> directory slots; \<open>record(id)\<close> fails outside them and on an empty one.\<close>

definition record_count :: "enterprise_page \<Rightarrow> u16" where
  "record_count page = word_of_nat (length (tp_slots (em_view page)))"

definition page_record :: "enterprise_page \<Rightarrow> u16 \<Rightarrow> byte list option" where
  "page_record page record_id =
     (case get_at (tp_slots (em_view page)) (unat record_id) of Some (Some (_, bytes)) \<Rightarrow> Some bytes | _ \<Rightarrow> None)"

definition group_directory :: "enterprise_page list \<Rightarrow> directory_consensus" where
  "group_directory candidates =
     candidate_directory_consensus (map record_count candidates)
       (\<lambda>i record_id. case get_at candidates i of Some page \<Rightarrow> page_record page record_id \<noteq> None | None \<Rightarrow> False)"

definition candidate_bytes :: "enterprise_page list \<Rightarrow> u16 \<Rightarrow> ('e, byte list list) outcome" where
  "candidate_bytes candidates record_id = rmap (\<lambda>page. or_panic (page_record page record_id)) candidates"

definition directory_coverage :: "directory_consensus \<Rightarrow> table_coverage \<Rightarrow> table_coverage" where
  "directory_coverage d c =
     c\<lparr>tv_missing := tv_missing c + length (dy_empty d), tv_disagreements := tv_disagreements c + dy_disagreements d\<rparr>"

section \<open>Rows by a typed prefix\<close>

definition prefix_candidates :: "prefix_decoder \<Rightarrow> row_schema \<Rightarrow> u32 \<Rightarrow> byte list list \<Rightarrow> record_candidate list" where
  "prefix_candidates decode schema through bytes =
     List.map_filter (\<lambda>b. map_option (\<lambda>p. \<lparr>rc_bytes = b, rc_partial = p\<rparr>) (decode b schema through)) bytes"

type_synonym collected = "partial_record list \<times> table_coverage"

definition keep_record :: "u64 \<Rightarrow> u16 \<Rightarrow> record_candidate \<Rightarrow> collected \<Rightarrow> collected" where
  "keep_record page record_id c st =
     (fst st @ [\<lparr>pd_page = page, pd_record = record_id, pd_bytes = rc_bytes c, pd_partial = rc_partial c\<rparr>],
      resolved (snd st))"

definition collect_prefix_record ::
    "prefix_decoder \<Rightarrow> row_schema \<Rightarrow> u32 \<Rightarrow> candidate_group \<Rightarrow> u16 \<Rightarrow> collected \<Rightarrow> ('e, collected) outcome" where
  "collect_prefix_record decode schema through grp record_id st =
     rbind (candidate_bytes (cg_candidates grp) record_id) (\<lambda>bytes.
       let decoded = prefix_candidates decode schema through bytes;
           any_failure = list_ex (\<lambda>b. decode b schema through = None) bytes;
           coverage = (if any_failure then (snd st)\<lparr>tv_failures := tv_failures (snd st) + 1\<rparr> else snd st) in
       if any_failure \<or> length decoded \<noteq> length (cg_candidates grp) then Ok (fst st, unresolved coverage)
       else case resolve_record_candidates decoded of
         None \<Rightarrow> Ok (fst st, unresolved coverage)
       | Some first \<Rightarrow> Ok (keep_record (cg_page grp) record_id first (fst st, coverage)))"

definition collect_group ::
    "(candidate_group \<Rightarrow> u16 \<Rightarrow> 's \<Rightarrow> ('e, 's) outcome) \<Rightarrow> (directory_consensus \<Rightarrow> 's \<Rightarrow> 's) \<Rightarrow>
     candidate_group \<Rightarrow> 's \<Rightarrow> ('e, 's) outcome" where
  "collect_group one tally grp st =
     (let d = group_directory (cg_candidates grp) in rfold (one grp) (dy_common d) (tally d st))"

definition count_directory :: "directory_consensus \<Rightarrow> 'r \<times> table_coverage \<Rightarrow> 'r \<times> table_coverage" where
  "count_directory d st = (fst st, directory_coverage d (snd st))"

section \<open>Continuations\<close>

record row_segment =
  sg_declared_len :: nat
  sg_flags :: u8
  sg_payload :: "byte list"
  sg_next_target :: "(u32 \<times> u16) option"

type_synonym segment_parser = "byte list \<Rightarrow> row_segment option"
type_synonym record_location = "u64 \<times> u16"

definition forwarding_locator :: "segment_parser \<Rightarrow> byte list \<Rightarrow> record_location option" where
  "forwarding_locator segment bytes =
     (case segment bytes of
        None \<Rightarrow> None
      | Some s \<Rightarrow>
          if length bytes \<noteq> 9 \<or> sg_declared_len s \<noteq> length bytes \<or> sg_flags s \<noteq> 0x44 then None
          else case sg_next_target s of
            None \<Rightarrow> None
          | Some (resolver_key, record_id) \<Rightarrow> if resolver_key \<noteq> 0 then Some (ucast resolver_key, record_id) else None)"

definition consensus_forwarding_locator :: "segment_parser \<Rightarrow> byte list list \<Rightarrow> record_location option" where
  "consensus_forwarding_locator segment candidates =
     (case candidates of
        [] \<Rightarrow> None
      | bytes # _ \<Rightarrow>
          (case forwarding_locator segment bytes of
             None \<Rightarrow> None
           | Some first \<Rightarrow>
               if list_all (\<lambda>b. forwarding_locator segment b = Some first) candidates then Some first else None))"

text \<open>The two sets of the loop are locations already seen as a source and as a destination.\<close>

definition retained_records :: "partial_record list \<Rightarrow> (record_location, byte list) btree option" where
  "retained_records records =
     fold (\<lambda>r m. case m of
             None \<Rightarrow> None
           | Some m \<Rightarrow>
               (case bt_get m (pd_page r, pd_record r) of
                  Some _ \<Rightarrow> None
                | None \<Rightarrow> Some (bt_insert (pd_page r, pd_record r) (pd_bytes r) m)))
       records (Some [])"

fun aliases_valid ::
    "segment_parser \<Rightarrow> (byte list \<Rightarrow> bool) \<Rightarrow> (record_location, byte list) btree \<Rightarrow> record_location list \<Rightarrow>
     record_location list \<Rightarrow> (record_location \<times> record_location) list \<Rightarrow> bool" where
  "aliases_valid segment is_posting retained sources destinations [] = True"
| "aliases_valid segment is_posting retained sources destinations ((source, dest) # aliases) =
     (source \<noteq> dest \<and> bt_get retained source = None \<and> source \<notin> set sources \<and> dest \<notin> set destinations
      \<and> (case bt_get retained dest of
           Some bytes \<Rightarrow> forwarding_locator segment bytes = None \<and> is_posting bytes | None \<Rightarrow> False)
      \<and> aliases_valid segment is_posting retained (source # sources) (dest # destinations) aliases)"

definition validate_forwarding_aliases ::
    "segment_parser \<Rightarrow> partial_record list \<Rightarrow> (record_location \<times> record_location) list \<Rightarrow> (byte list \<Rightarrow> bool) \<Rightarrow> bool" where
  "validate_forwarding_aliases segment records aliases is_posting \<longleftrightarrow>
     aliases = []
     \<or> (case retained_records records of None \<Rightarrow> False | Some m \<Rightarrow> aliases_valid segment is_posting m [] [] aliases)"

definition ascii_graphic :: "u8 \<Rightarrow> bool" where
  "ascii_graphic b \<longleftrightarrow> 0x21 \<le> b \<and> b \<le> 0x7e"

definition ascii_whitespace :: "u8 \<Rightarrow> bool" where
  "ascii_whitespace b \<longleftrightarrow> b \<in> {0x20, 0x09, 0x0a, 0x0c, 0x0d}"

definition is_bill_external_text_payload :: "segment_parser \<Rightarrow> byte list \<Rightarrow> bool" where
  "is_bill_external_text_payload segment bytes \<longleftrightarrow>
     (case segment bytes of
        None \<Rightarrow> False
      | Some s \<Rightarrow>
          sg_declared_len s = length bytes \<and> sg_flags s = 0 \<and> list_ex ascii_graphic (sg_payload s)
          \<and> list_all (\<lambda>b. ascii_graphic b \<or> ascii_whitespace b) (sg_payload s))"

definition alias_coverage :: "bool \<Rightarrow> nat \<Rightarrow> table_coverage \<Rightarrow> table_coverage" where
  "alias_coverage valid n c =
     (if valid then c\<lparr>tv_aliases := n, tv_artifacts := tv_artifacts c + n\<rparr>
      else c\<lparr>tv_failures := tv_failures c + n, tv_unresolved := tv_unresolved c + n\<rparr>)"

text \<open>\<open>empty_physical_partial\<close>, and the literal the Check and General Journal collectors write.\<close>

definition empty_physical_partial :: "byte list \<Rightarrow> partial_row" where
  "empty_physical_partial bytes =
     \<lparr>pr_declared_size = length bytes, pr_flags = (case get_at bytes 2 of Some b \<Rightarrow> ucast b | None \<Rightarrow> 0), pr_through = 0,
      pr_prefix = [], pr_booleans = [], pr_opaque = length bytes\<rparr>"

end
