(* ===== verification/Schema_Attestation.thy ===== *)
theory Schema_Attestation
  imports Pipeline_Tables
begin

text \<open>
  How the storage layout of a table is attested,
  \<open>crates/openqbw/src/materialized_row_schema_attestation.rs\<close>: every layout of a finite list is tried
  on every row, and a layout is accepted only if it is the only one under which all rows decode. The
  decoder \<open>decode_row_exact\<close> of the \<open>opensqlany\<close> crate is the parameter \<open>decode_exact\<close>, its type map
  \<open>ColumnType::from_domain_id\<close> the parameter \<open>domain_type\<close>.
\<close>

section \<open>Coverage and results\<close>

record row_coverage =
  rwc_table :: u32
  rwc_records :: u64

record rejected_layout =
  rl_storage :: storage_attestation
  rl_unparsed :: "nat list"

record attested_schema =
  at_table :: u32
  at_columns :: u32
  at_records :: u64
  at_decoded :: u64
  at_storage :: storage_attestation
  at_schema :: row_schema

record row_expectation =
  te_table :: u32
  te_pages :: u64
  te_rows :: u64

record resolved_page =
  rp_page :: u64
  rp_rows :: "(u16 \<times> decoded_row) list"
  rp_missing :: "u16 list"
  rp_references :: "u16 list"

record resolved_table =
  rt_schema :: attested_schema
  rt_pages :: "resolved_page list"
  rt_missing :: nat
  rt_references :: nat

record rejected_table_layout =
  rj_storage :: storage_attestation
  rj_unresolved :: "u64 list"
  rj_rows :: "nat option"

datatype row_schema_error =
    RowSchemaZeroTableId
  | CoverageTableMismatch u32 u32
  | TableCoverageIdMismatch u32 u32 u32
  | TargetTableIdConflicts u32 "u64 list"
  | TablePageCoverageCountMismatch u32 u64 nat
  | EmptyTableCorpus u32
  | RowCoverageCountMismatch u32 u64 nat
  | EmptyRowCorpus u32
  | ZeroOverflowPointerWidth
  | RowSchemaAdapter schema_error
  | NoLayoutMatched u32 "rejected_layout list"
  | NoTableLayoutMatched u32 u64 "rejected_table_layout list"
  | AmbiguousLayouts u32 "storage_attestation list"
  | AmbiguousTableLayouts u32 "storage_attestation list"

definition row_coverage_new :: "u32 \<Rightarrow> u64 \<Rightarrow> (row_schema_error, row_coverage) outcome" where
  "row_coverage_new table_id records =
     (if table_id = 0 then Err RowSchemaZeroTableId else Ok \<lparr>rwc_table = table_id, rwc_records = records\<rparr>)"

definition row_expectation_new :: "u32 \<Rightarrow> u64 \<Rightarrow> u64 \<Rightarrow> (row_schema_error, row_expectation) outcome" where
  "row_expectation_new table_id page_count row_count =
     (if table_id = 0 then Err RowSchemaZeroTableId
      else Ok \<lparr>te_table = table_id, te_pages = page_count, te_rows = row_count\<rparr>)"

section \<open>The layouts that are tried\<close>

definition overflow_layouts :: "bool \<Rightarrow> u8 list \<Rightarrow> (row_schema_error, variable_overflow_layout list) outcome" where
  "overflow_layouts has_variable tested_widths =
     (if \<not> has_variable then Ok [OverflowUnsupported]
      else
        rbind (rfold (\<lambda>width unique.
                 rbind (ensure (width \<noteq> 0) ZeroOverflowPointerWidth) (\<lambda>_. Ok (insort_insert width unique)))
               tested_widths []) (\<lambda>unique.
          Ok (OverflowUnsupported # map (\<lambda>width. OverflowPointer (unat width)) unique)))"

definition some_type :: "(u16 \<Rightarrow> column_type option) \<Rightarrow> sys_column list \<Rightarrow> column_type list \<Rightarrow> bool" where
  "some_type domain_type columns types \<longleftrightarrow>
     list_ex (\<lambda>c. case domain_type (col_domain c) of Some t \<Rightarrow> t \<in> set types | None \<Rightarrow> False) columns"

definition boolean_layouts :: "bool \<Rightarrow> boolean_tail_layout list" where
  "boolean_layouts has_boolean =
     (if has_boolean
      then [BooleanInlineBytes, BooleanInlineRunsMsb, BooleanInlineRunsLsb, BooleanBytes, BooleanPackedMsb]
      else [BooleanBytes])"

definition enum_layouts :: "bool \<Rightarrow> enum_layout list" where
  "enum_layouts has_enum = (if has_enum then [EnumFixedWidthUnsigned] else [EnumUnsupported])"

definition null_bitmap_layouts :: "bool \<Rightarrow> null_bitmap_layout list" where
  "null_bitmap_layouts has_nullable =
     (if has_nullable then [NullMsbPresent, NullLsbPresent, NullMsbNull, NullLsbNull] else [NullMsbPresent])"

definition null_bitmap_coverages :: "bool \<Rightarrow> null_bitmap_coverage list" where
  "null_bitmap_coverages has_nullable =
     (if has_nullable then [NullNullableColumns, NullAllColumns] else [NullNullableColumns])"

definition row_prefix_layouts :: "row_prefix_layout list" where
  "row_prefix_layouts = [NoRowPrefix, OneByteCarrier, TwoByteCarrier, ThreeByteCarrier]"

definition variable_length_layouts :: "bool \<Rightarrow> variable_length_layout list" where
  "variable_length_layouts has_variable =
     (if has_variable
      then [LengthU8, LengthU16Le, LengthDeclaredWidth 255, LengthDeclaredWidth 256, LengthDeclaredWidth 512,
        LengthDeclaredWidth 4096]
      else [LengthU8])"

text \<open>The seven loops, the outermost first.\<close>

definition storage_of ::
    "boolean_tail_layout \<times> enum_layout \<times> variable_overflow_layout \<times> null_bitmap_layout \<times> null_bitmap_coverage
     \<times> row_prefix_layout \<times> variable_length_layout \<Rightarrow> storage_attestation" where
  "storage_of choice =
     (case choice of (boolean_tail, enum, overflow, null_layout, null_coverage, row_prefix, len) \<Rightarrow>
        \<lparr>sto_uncompressed = True, sto_boolean_tail = boolean_tail, sto_numeric = EnterpriseMaterializedRaw,
         sto_enum = enum, sto_overflow = overflow, sto_length = len, sto_null_layout = null_layout,
         sto_null_coverage = null_coverage, sto_prefix = row_prefix\<rparr>)"

definition supported_storage_layouts ::
    "(u16 \<Rightarrow> column_type option) \<Rightarrow> sys_column list \<Rightarrow> u8 list \<Rightarrow> (row_schema_error, storage_attestation list) outcome" where
  "supported_storage_layouts domain_type columns tested_widths =
     (let has_boolean = some_type domain_type columns [ColBoolean]; has_enum = some_type domain_type columns [ColEnum];
          has_variable = some_type domain_type columns [ColChar, ColChar2, ColText, ColText2];
          has_nullable = list_ex (\<lambda>c. col_nulls c = 89) columns in
      rbind (overflow_layouts has_variable tested_widths) (\<lambda>overflows.
        Ok (map storage_of
             (List.product (boolean_layouts has_boolean) (List.product (enum_layouts has_enum) (List.product overflows
               (List.product (null_bitmap_layouts has_nullable) (List.product (null_bitmap_coverages has_nullable)
                 (List.product row_prefix_layouts (variable_length_layouts has_variable))))))))))"

section \<open>A corpus of rows\<close>

type_synonym exact_decoder = "byte list \<Rightarrow> row_schema \<Rightarrow> decoded_row option"

definition unparsed_rows :: "exact_decoder \<Rightarrow> row_schema \<Rightarrow> byte list list \<Rightarrow> nat list" where
  "unparsed_rows decode_exact schema rows =
     map fst (filter (\<lambda>(_, row). decode_exact row schema = None) (enumerate 0 rows))"

definition try_layout ::
    "(u16 \<Rightarrow> column_type option) \<Rightarrow> exact_decoder \<Rightarrow> sys_column list \<Rightarrow> coverage_attestation \<Rightarrow> default_envelope list \<Rightarrow>
     byte list list \<Rightarrow> storage_attestation \<Rightarrow> (storage_attestation \<times> row_schema) list \<times> rejected_layout list \<Rightarrow>
     (row_schema_error, (storage_attestation \<times> row_schema) list \<times> rejected_layout list) outcome" where
  "try_layout domain_type decode_exact columns coverage defaults rows storage st =
     (case st of (accepted, rejected) \<Rightarrow>
        rbind (map_err RowSchemaAdapter (adapt_complete_schema domain_type columns coverage storage defaults)) (\<lambda>schema.
        let unparsed = unparsed_rows decode_exact schema rows in
        if unparsed = [] then Ok (accepted @ [(storage, schema)], rejected)
        else Ok (accepted, rejected @ [\<lparr>rl_storage = storage, rl_unparsed = unparsed\<rparr>])))"

definition attest_materialized_row_schema ::
    "(u16 \<Rightarrow> column_type option) \<Rightarrow> exact_decoder \<Rightarrow> sys_column list \<Rightarrow> coverage_attestation \<Rightarrow> default_envelope list \<Rightarrow>
     byte list list \<Rightarrow> row_coverage \<Rightarrow> u8 list \<Rightarrow> (row_schema_error, attested_schema) outcome" where
  "attest_materialized_row_schema domain_type decode_exact columns coverage defaults rows row_coverage tested_widths =
     (let table = rwc_table row_coverage in
      rbind (ensure (cov_table coverage = table) (CoverageTableMismatch (cov_table coverage) table)) (\<lambda>_.
      rbind (ensure (length rows = unat (rwc_records row_coverage))
               (RowCoverageCountMismatch table (rwc_records row_coverage) (length rows))) (\<lambda>_.
      rbind (ensure (rows \<noteq> []) (EmptyRowCorpus table)) (\<lambda>_.
      rbind (supported_storage_layouts domain_type columns tested_widths) (\<lambda>layouts.
      rbind (rfold (try_layout domain_type decode_exact columns coverage defaults rows) layouts ([], []))
        (\<lambda>(accepted, rejected).
        case accepted of
          [] \<Rightarrow> Err (NoLayoutMatched table rejected)
        | [(storage, schema)] \<Rightarrow>
            Ok \<lparr>at_table = table, at_columns = cov_count coverage, at_records = rwc_records row_coverage,
                at_decoded = word_of_nat (length rows), at_storage = storage, at_schema = schema\<rparr>
        | _ \<Rightarrow> Err (AmbiguousLayouts table (map fst accepted))))))))"

section \<open>All page groups of a table\<close>

text \<open>The list \<open>reference_record_ids\<close> is declared and returned, and no branch adds to it.\<close>

definition take_record ::
    "exact_decoder \<Rightarrow> enterprise_page \<Rightarrow> row_schema \<Rightarrow> u16 \<Rightarrow> resolved_page option \<Rightarrow> resolved_page option" where
  "take_record decode_exact candidate schema record_id st =
     (case st of
        None \<Rightarrow> None
      | Some page \<Rightarrow>
          (case page_record candidate record_id of
             None \<Rightarrow> Some (page\<lparr>rp_missing := rp_missing page @ [record_id]\<rparr>)
           | Some bytes \<Rightarrow> map_option (\<lambda>d. page\<lparr>rp_rows := rp_rows page @ [(record_id, d)]\<rparr>) (decode_exact bytes schema)))"

definition decode_candidate_page :: "exact_decoder \<Rightarrow> enterprise_page \<Rightarrow> u64 \<Rightarrow> row_schema \<Rightarrow> resolved_page option" where
  "decode_candidate_page decode_exact candidate page_number schema =
     fold (take_record decode_exact candidate schema) (map word_of_nat [0..<unat (record_count candidate)])
       (Some \<lparr>rp_page = page_number, rp_rows = [], rp_missing = [], rp_references = []\<rparr>)"

definition resolve_group_with_schema :: "exact_decoder \<Rightarrow> candidate_group \<Rightarrow> row_schema \<Rightarrow> resolved_page option" where
  "resolve_group_with_schema decode_exact grp schema =
     (case List.map_filter (\<lambda>candidate. decode_candidate_page decode_exact candidate (cg_page grp) schema) (cg_candidates grp) of
        [] \<Rightarrow> None
      | first # rest \<Rightarrow> if list_ex (\<lambda>page. page \<noteq> first) rest then None else Some first)"

type_synonym accepted_layouts = "(storage_attestation \<times> row_schema \<times> resolved_page list) list"

definition try_table_layout ::
    "(u16 \<Rightarrow> column_type option) \<Rightarrow> exact_decoder \<Rightarrow> sys_column list \<Rightarrow> coverage_attestation \<Rightarrow> default_envelope list \<Rightarrow>
     candidate_group list \<Rightarrow> u64 \<Rightarrow> storage_attestation \<Rightarrow> accepted_layouts \<times> rejected_table_layout list \<Rightarrow>
     (row_schema_error, accepted_layouts \<times> rejected_table_layout list) outcome" where
  "try_table_layout domain_type decode_exact columns coverage defaults groups expected storage st =
     (case st of (accepted, rejected) \<Rightarrow>
        rbind (map_err RowSchemaAdapter (adapt_complete_schema domain_type columns coverage storage defaults)) (\<lambda>schema.
        let resolve = (\<lambda>grp. resolve_group_with_schema decode_exact grp schema);
            unresolved = map cg_page (filter (\<lambda>grp. resolve grp = None) groups);
            pages = List.map_filter resolve groups; rows = sum_list (map (\<lambda>page. length (rp_rows page)) pages) in
        if unresolved \<noteq> []
        then Ok (accepted, rejected @ [\<lparr>rj_storage = storage, rj_unresolved = unresolved, rj_rows = None\<rparr>])
        else if rows \<noteq> unat expected
        then Ok (accepted, rejected @ [\<lparr>rj_storage = storage, rj_unresolved = [], rj_rows = Some rows\<rparr>])
        else Ok (accepted @ [(storage, schema, pages)], rejected)))"

text \<open>The ids of a conflict are sorted, so \<open>binary_search\<close> is membership.\<close>

definition attest_and_resolve_table_schema ::
    "(u16 \<Rightarrow> column_type option) \<Rightarrow> exact_decoder \<Rightarrow> sys_column list \<Rightarrow> coverage_attestation \<Rightarrow> default_envelope list \<Rightarrow>
     table_scan \<Rightarrow> row_expectation \<Rightarrow> u8 list \<Rightarrow> (row_schema_error, resolved_table) outcome" where
  "attest_and_resolve_table_schema domain_type decode_exact columns coverage defaults scan expectation tested_widths =
     (let table = ts_target scan in
      rbind (ensure (cov_table coverage = te_table expectation \<and> table = te_table expectation)
               (TableCoverageIdMismatch (cov_table coverage) table (te_table expectation))) (\<lambda>_.
      let conflicts = map ic_page (filter (\<lambda>c. table \<in> set (ic_ids c)) (ts_conflicts scan)) in
      rbind (ensure (conflicts = []) (TargetTableIdConflicts table conflicts)) (\<lambda>_.
      rbind (ensure (length (ts_groups scan) = unat (te_pages expectation))
               (TablePageCoverageCountMismatch table (te_pages expectation) (length (ts_groups scan)))) (\<lambda>_.
      rbind (ensure (ts_groups scan \<noteq> []) (EmptyTableCorpus table)) (\<lambda>_.
      rbind (supported_storage_layouts domain_type columns tested_widths) (\<lambda>layouts.
      rbind (rfold (try_table_layout domain_type decode_exact columns coverage defaults (ts_groups scan) (te_rows expectation))
              layouts ([], [])) (\<lambda>(accepted, rejected).
        case accepted of
          [] \<Rightarrow> Err (NoTableLayoutMatched table (te_rows expectation) rejected)
        | [(storage, schema, pages)] \<Rightarrow>
            Ok \<lparr>rt_schema =
                  \<lparr>at_table = table, at_columns = cov_count coverage, at_records = te_rows expectation,
                   at_decoded = te_rows expectation, at_storage = storage, at_schema = schema\<rparr>,
                rt_pages = pages, rt_missing = sum_list (map (\<lambda>page. length (rp_missing page)) pages),
                rt_references = sum_list (map (\<lambda>page. length (rp_references page)) pages)\<rparr>
        | _ \<Rightarrow> Err (AmbiguousTableLayouts table (map fst accepted)))))))))"

section \<open>A layout is accepted only when it is the only one\<close>

lemma overflow_layouts_distinct:
  assumes "overflow_layouts has_variable widths = Ok os"
  shows "distinct os"
proof -
  have "distinct us'" if "rfold (\<lambda>width unique. rbind (ensure (width \<noteq> 0) ZeroOverflowPointerWidth)
      (\<lambda>_. Ok (insort_insert width unique))) ws us = Ok us'" and "distinct us" for ws us us' :: "u8 list"
    using that
    by (induction ws arbitrary: us) (auto simp: rbind_Ok_iff ensure_iff distinct_insort_insert)
  moreover have "inj (\<lambda>width :: u8. OverflowPointer (unat width))" by (simp add: inj_def word_unat_eq_iff)
  ultimately show ?thesis
    using assms by (fastforce simp: overflow_layouts_def rbind_Ok_iff distinct_map inj_on_def split: if_splits)
qed

lemma storage_of_inj: "inj storage_of"
  by (auto simp: inj_def storage_of_def)

lemma supported_layouts_distinct:
  assumes "supported_storage_layouts domain_type columns widths = Ok layouts"
  shows "distinct layouts"
proof -
  obtain os where os: "distinct os"
    and layouts: "layouts = map storage_of
      (List.product (boolean_layouts (some_type domain_type columns [ColBoolean]))
        (List.product (enum_layouts (some_type domain_type columns [ColEnum])) (List.product os
          (List.product (null_bitmap_layouts (list_ex (\<lambda>c. col_nulls c = 89) columns))
            (List.product (null_bitmap_coverages (list_ex (\<lambda>c. col_nulls c = 89) columns))
              (List.product row_prefix_layouts
                (variable_length_layouts (some_type domain_type columns [ColChar, ColChar2, ColText, ColText2]))))))))"
    using assms by (auto simp: supported_storage_layouts_def Let_def rbind_Ok_iff dest: overflow_layouts_distinct)
  have parts: "distinct (boolean_layouts b)" "distinct (enum_layouts b)" "distinct (null_bitmap_layouts b)"
    "distinct (null_bitmap_coverages b)" "distinct row_prefix_layouts" "distinct (variable_length_layouts b)" for b
    by (simp_all add: boolean_layouts_def enum_layouts_def null_bitmap_layouts_def null_bitmap_coverages_def
      row_prefix_layouts_def variable_length_layouts_def)
  show ?thesis
    unfolding layouts using storage_of_inj
    by (auto simp: distinct_map intro!: distinct_product parts os intro: inj_on_subset)
qed

definition decodes_all :: "exact_decoder \<Rightarrow> row_schema \<Rightarrow> byte list list \<Rightarrow> bool" where
  "decodes_all decode_exact schema rows \<longleftrightarrow> list_all (\<lambda>row. decode_exact row schema \<noteq> None) rows"

lemma unparsed_none: "unparsed_rows decode_exact schema rows = [] \<longleftrightarrow> decodes_all decode_exact schema rows"
proof -
  have "(\<forall>x \<in> set (enumerate n rows). case x of (_, row) \<Rightarrow> decode_exact row schema \<noteq> None)
      \<longleftrightarrow> list_all (\<lambda>row. decode_exact row schema \<noteq> None) rows" for n
    by (induction rows arbitrary: n) simp_all
  from this [of 0] show ?thesis by (auto simp: unparsed_rows_def decodes_all_def filter_empty_conv)
qed

text \<open>Both loops keep, in order, the layouts that a test on the adapted schema accepts.\<close>

definition kept_layout ::
    "(storage_attestation \<Rightarrow> ('e, row_schema) outcome) \<Rightarrow> (row_schema \<Rightarrow> 'a option) \<Rightarrow> storage_attestation \<Rightarrow>
     (storage_attestation \<times> 'a) option" where
  "kept_layout adapt keep storage =
     (case adapt storage of Ok schema \<Rightarrow> map_option (Pair storage) (keep schema) | _ \<Rightarrow> None)"

lemma kept_layout_Some: "kept_layout adapt keep s = Some (t, a) \<longleftrightarrow> t = s \<and> (\<exists>schema. adapt s = Ok schema \<and> keep schema = Some a)"
  by (auto simp: kept_layout_def split: outcome.split)

lemma map_fst_kept: "map fst (List.map_filter (kept_layout adapt keep) layouts) = filter (\<lambda>s. kept_layout adapt keep s \<noteq> None) layouts"
  by (induction layouts) (auto simp: map_filter_simps kept_layout_def split: outcome.split option.split)

lemma only_kept:
  assumes "distinct layouts"
  shows "List.map_filter (kept_layout adapt keep) layouts = [(storage, a)] \<longleftrightarrow>
    {s \<in> set layouts. kept_layout adapt keep s \<noteq> None} = {storage} \<and> kept_layout adapt keep storage = Some (storage, a)"
proof -
  let ?kept = "List.map_filter (kept_layout adapt keep) layouts"
  have one: "map fst ?kept = [storage] \<longleftrightarrow> {s \<in> set layouts. kept_layout adapt keep s \<noteq> None} = {storage}"
  proof -
    let ?ok = "filter (\<lambda>s. kept_layout adapt keep s \<noteq> None) layouts"
    have "?ok = [storage] \<longleftrightarrow> set ?ok = {storage}"
      using distinct_set_singleton [of ?ok storage] assms by (metis distinct_filter list.set(1,2) empty_set)
    then show ?thesis unfolding map_fst_kept by simp
  qed
  have members: "x \<in> set ?kept \<longleftrightarrow> (\<exists>s \<in> set layouts. kept_layout adapt keep s = Some x)" for x
    by (force simp: map_filter_def)
  show ?thesis
  proof
    assume kept: "?kept = [(storage, a)]"
    then have "(storage, a) \<in> set ?kept" by simp
    then have "kept_layout adapt keep storage = Some (storage, a)" unfolding members by (auto simp: kept_layout_Some)
    with kept one show "{s \<in> set layouts. kept_layout adapt keep s \<noteq> None} = {storage}
        \<and> kept_layout adapt keep storage = Some (storage, a)" by simp
  next
    assume r: "{s \<in> set layouts. kept_layout adapt keep s \<noteq> None} = {storage}
        \<and> kept_layout adapt keep storage = Some (storage, a)"
    then obtain b where b: "?kept = [(storage, b)]" using one by (cases ?kept) auto
    then have "(storage, b) \<in> set ?kept" by simp
    then have "kept_layout adapt keep storage = Some (storage, b)" unfolding members by (auto simp: kept_layout_Some)
    then show "?kept = [(storage, a)]" using b r by simp
  qed
qed

lemma try_layouts:
  "rfold (try_layout domain_type decode_exact columns coverage defaults rows) layouts (kept, rejected) = Ok (kept', rejected') \<Longrightarrow>
   kept' = kept @ List.map_filter (kept_layout (\<lambda>s. adapt_complete_schema domain_type columns coverage s defaults)
     (\<lambda>schema. if decodes_all decode_exact schema rows then Some schema else None)) layouts
   \<and> (\<forall>s \<in> set layouts. \<exists>schema. adapt_complete_schema domain_type columns coverage s defaults = Ok schema)"
proof (induction layouts arbitrary: kept rejected)
  case (Cons s layouts)
  obtain kept1 rejected1 where step: "try_layout domain_type decode_exact columns coverage defaults rows s (kept, rejected)
      = Ok (kept1, rejected1)"
    and rest: "rfold (try_layout domain_type decode_exact columns coverage defaults rows) layouts (kept1, rejected1)
      = Ok (kept', rejected')"
    using Cons.prems by (auto simp: rbind_Ok_iff)
  obtain schema where "adapt_complete_schema domain_type columns coverage s defaults = Ok schema"
    and "kept1 = kept @ (if decodes_all decode_exact schema rows then [(s, schema)] else [])"
    using step by (auto simp: try_layout_def Let_def rbind_Ok_iff map_err_iff unparsed_none split: if_splits)
  with Cons.IH [OF rest] show ?case by (simp add: map_filter_simps kept_layout_def)
qed (simp add: map_filter_simps)

text \<open>
  Soundness of the attestation of a corpus: every supported layout was adapted and tried on every row, and
  the one returned is the only one under which all rows decode.
\<close>

lemma attest_materialized_row_schema_Ok:
  assumes "attest_materialized_row_schema domain_type decode_exact columns coverage defaults rows expected widths = Ok a"
  obtains layouts where "supported_storage_layouts domain_type columns widths = Ok layouts"
    and "{s \<in> set layouts. \<exists>schema. adapt_complete_schema domain_type columns coverage s defaults = Ok schema
        \<and> decodes_all decode_exact schema rows} = {at_storage a}"
    and "adapt_complete_schema domain_type columns coverage (at_storage a) defaults = Ok (at_schema a)"
    and "rows \<noteq> []" and "length rows = unat (rwc_records expected)" and "at_decoded a = at_records a"
    and "at_table a = cov_table coverage" and "at_columns a = cov_count coverage"
proof -
  let ?adapt = "\<lambda>s. adapt_complete_schema domain_type columns coverage s defaults"
  let ?keep = "\<lambda>schema. if decodes_all decode_exact schema rows then Some schema else None"
  have facts: "cov_table coverage = rwc_table expected" "length rows = unat (rwc_records expected)" "rows \<noteq> []"
    using assms by (simp_all add: attest_materialized_row_schema_def Let_def rbind_Ok_iff ensure_iff)
  then obtain layouts where layouts: "supported_storage_layouts domain_type columns widths = Ok layouts"
    using assms by (auto simp: attest_materialized_row_schema_def Let_def rbind_Ok_iff)
  then obtain kept rejected where run: "rfold (try_layout domain_type decode_exact columns coverage defaults rows) layouts ([], [])
      = Ok (kept, rejected)"
    using assms by (auto simp: attest_materialized_row_schema_def Let_def rbind_Ok_iff)
  have "kept = [(at_storage a, at_schema a)] \<and> at_table a = rwc_table expected \<and> at_columns a = cov_count coverage
      \<and> at_records a = rwc_records expected \<and> at_decoded a = word_of_nat (length rows)"
    using assms facts layouts run
    by (auto simp: attest_materialized_row_schema_def Let_def rbind_Ok_iff ensure_iff split: list.splits)
  then have kept: "kept = [(at_storage a, at_schema a)]"
    and a: "at_table a = rwc_table expected" "at_columns a = cov_count coverage" "at_records a = rwc_records expected"
      "at_decoded a = word_of_nat (length rows)" by simp_all
  note tried = try_layouts [OF run]
  have "List.map_filter (kept_layout ?adapt ?keep) layouts = [(at_storage a, at_schema a)]"
    using tried kept by simp
  then have only: "{s \<in> set layouts. kept_layout ?adapt ?keep s \<noteq> None} = {at_storage a}"
    and chosen: "kept_layout ?adapt ?keep (at_storage a) = Some (at_storage a, at_schema a)"
    unfolding only_kept [OF supported_layouts_distinct [OF layouts]] by blast+
  have "kept_layout ?adapt ?keep s \<noteq> None \<longleftrightarrow> (\<exists>schema. ?adapt s = Ok schema \<and> decodes_all decode_exact schema rows)" for s
    by (auto simp: kept_layout_def split: outcome.split)
  with only have "{s \<in> set layouts. \<exists>schema. ?adapt s = Ok schema \<and> decodes_all decode_exact schema rows} = {at_storage a}"
    by simp
  moreover have "?adapt (at_storage a) = Ok (at_schema a)" using chosen by (auto simp: kept_layout_Some split: if_splits)
  moreover have "at_decoded a = at_records a" using facts a by simp
  ultimately show thesis using that [OF layouts] facts a by simp
qed

section \<open>The rows of a resolved table\<close>

definition page_complete :: "exact_decoder \<Rightarrow> row_schema \<Rightarrow> enterprise_page \<Rightarrow> u64 \<Rightarrow> u16 list \<Rightarrow> resolved_page \<Rightarrow> bool" where
  "page_complete decode_exact schema candidate number ids page \<longleftrightarrow>
     rp_page page = number \<and> rp_references page = []
     \<and> rp_missing page = filter (\<lambda>i. page_record candidate i = None) ids
     \<and> map fst (rp_rows page) = filter (\<lambda>i. page_record candidate i \<noteq> None) ids
     \<and> list_all (\<lambda>(i, d). case page_record candidate i of Some bytes \<Rightarrow> decode_exact bytes schema = Some d | None \<Rightarrow> False)
         (rp_rows page)"

lemma decode_candidate_page_complete:
  assumes "decode_candidate_page decode_exact candidate number schema = Some page"
  shows "page_complete decode_exact schema candidate number (map word_of_nat [0..<unat (record_count candidate)]) page"
proof -
  let ?step = "take_record decode_exact candidate schema"
  have none: "fold ?step ids None = None" for ids by (induction ids) (simp_all add: take_record_def)
  have "page_complete decode_exact schema candidate number (before @ ids) page'"
    if "fold ?step ids (Some page) = Some page'" and "page_complete decode_exact schema candidate number before page"
    for ids before page page'
    using that
  proof (induction ids arbitrary: before page)
    case (Cons i ids)
    obtain page1 where step: "?step i (Some page) = Some page1" and rest: "fold ?step ids (Some page1) = Some page'"
      using Cons.prems(1) none by (cases "?step i (Some page)") auto
    have "page_complete decode_exact schema candidate number (before @ [i]) page1"
      using step Cons.prems(2) by (auto simp: take_record_def page_complete_def split: option.splits)
    from Cons.IH [OF rest this] show ?case by simp
  qed simp
  from this [of _ _ page "[]"] assms show ?thesis
    by (auto simp: decode_candidate_page_def page_complete_def)
qed

lemma resolve_group_complete:
  assumes "resolve_group_with_schema decode_exact grp schema = Some page"
  shows "\<exists>candidate \<in> set (cg_candidates grp).
    page_complete decode_exact schema candidate (cg_page grp) (map word_of_nat [0..<unat (record_count candidate)]) page"
proof -
  let ?decode = "\<lambda>candidate. decode_candidate_page decode_exact candidate (cg_page grp) schema"
  have "page \<in> set (List.map_filter ?decode (cg_candidates grp))"
    using assms by (auto simp: resolve_group_with_schema_def split: list.splits if_splits)
  then obtain candidate where "candidate \<in> set (cg_candidates grp)" and "?decode candidate = Some page"
    by (auto simp: map_filter_def)
  then show ?thesis using decode_candidate_page_complete by blast
qed

definition table_resolved :: "exact_decoder \<Rightarrow> row_schema \<Rightarrow> candidate_group list \<Rightarrow> u64 \<Rightarrow> resolved_page list \<Rightarrow> bool" where
  "table_resolved decode_exact schema groups expected pages \<longleftrightarrow>
     list_all2 (\<lambda>grp page. resolve_group_with_schema decode_exact grp schema = Some page) groups pages
     \<and> sum_list (map (\<lambda>page. length (rp_rows page)) pages) = unat expected"

definition keep_table :: "exact_decoder \<Rightarrow> candidate_group list \<Rightarrow> u64 \<Rightarrow> row_schema \<Rightarrow> (row_schema \<times> resolved_page list) option" where
  "keep_table decode_exact groups expected schema =
     (let pages = List.map_filter (\<lambda>grp. resolve_group_with_schema decode_exact grp schema) groups in
      if table_resolved decode_exact schema groups expected pages then Some (schema, pages) else None)"

lemma all_resolved:
  "filter (\<lambda>x. f x = None) xs = [] \<longleftrightarrow> list_all2 (\<lambda>x y. f x = Some y) xs (List.map_filter f xs)"
proof (induction xs)
  case (Cons x xs)
  have "length (List.map_filter f xs) \<le> length xs" by (simp add: map_filter_def)
  then show ?case
    using Cons list_all2_lengthD [of "\<lambda>x y. f x = Some y" "x # xs" "List.map_filter f xs"]
    by (cases "f x") (auto simp: map_filter_simps)
qed (simp add: map_filter_simps)

lemma keep_table_Some:
  "keep_table decode_exact groups expected schema = Some (schema', pages) \<longleftrightarrow>
     schema' = schema \<and> table_resolved decode_exact schema groups expected pages"
proof -
  have "pages = List.map_filter f groups" if "list_all2 (\<lambda>x y. f x = Some y) groups pages" for f :: "candidate_group \<Rightarrow> resolved_page option"
    using that by (induction rule: list_all2_induct) (simp_all add: map_filter_simps)
  then show ?thesis by (auto simp: keep_table_def Let_def table_resolved_def)
qed

lemma try_table_layouts:
  "rfold (try_table_layout domain_type decode_exact columns coverage defaults groups expected) layouts (kept, rejected)
     = Ok (kept', rejected') \<Longrightarrow>
   kept' = kept @ List.map_filter (kept_layout (\<lambda>s. adapt_complete_schema domain_type columns coverage s defaults)
     (keep_table decode_exact groups expected)) layouts"
proof (induction layouts arbitrary: kept rejected)
  case (Cons s layouts)
  obtain kept1 rejected1 where step: "try_table_layout domain_type decode_exact columns coverage defaults groups expected s
      (kept, rejected) = Ok (kept1, rejected1)"
    and rest: "rfold (try_table_layout domain_type decode_exact columns coverage defaults groups expected) layouts
      (kept1, rejected1) = Ok (kept', rejected')"
    using Cons.prems by (auto simp: rbind_Ok_iff)
  obtain schema where "adapt_complete_schema domain_type columns coverage s defaults = Ok schema"
    and "kept1 = kept @ (case keep_table decode_exact groups expected schema of Some a \<Rightarrow> [(s, a)] | None \<Rightarrow> [])"
    using step
    by (auto simp: try_table_layout_def Let_def rbind_Ok_iff map_err_iff keep_table_def table_resolved_def
      all_resolved [symmetric] split: if_splits)
  with Cons.IH [OF rest] show ?case by (cases "keep_table decode_exact groups expected schema") (simp_all add: map_filter_simps kept_layout_def)
qed (simp add: map_filter_simps)

text \<open>
  Soundness of the attestation of a table: the layout returned is the only one under which every page group
  of the scan resolves and the rows add up to the expected number. The count of reference artifacts is
  always zero, since rows marked as references are decoded like the others.
\<close>

lemma attest_and_resolve_table_schema_Ok:
  assumes "attest_and_resolve_table_schema domain_type decode_exact columns coverage defaults scan expectation widths = Ok r"
  obtains layouts where "supported_storage_layouts domain_type columns widths = Ok layouts"
    and "{s \<in> set layouts. \<exists>schema pages. adapt_complete_schema domain_type columns coverage s defaults = Ok schema
        \<and> table_resolved decode_exact schema (ts_groups scan) (te_rows expectation) pages} = {at_storage (rt_schema r)}"
    and "table_resolved decode_exact (at_schema (rt_schema r)) (ts_groups scan) (te_rows expectation) (rt_pages r)"
    and "length (ts_groups scan) = unat (te_pages expectation)"
    and "list_all (\<lambda>c. ts_target scan \<notin> set (ic_ids c)) (ts_conflicts scan)"
    and "rt_references r = 0"
proof -
  let ?adapt = "\<lambda>s. adapt_complete_schema domain_type columns coverage s defaults"
  let ?keep = "keep_table decode_exact (ts_groups scan) (te_rows expectation)"
  let ?attempt = "try_table_layout domain_type decode_exact columns coverage defaults (ts_groups scan) (te_rows expectation)"
  have facts: "cov_table coverage = te_table expectation" "ts_target scan = te_table expectation"
    "filter (\<lambda>c. ts_target scan \<in> set (ic_ids c)) (ts_conflicts scan) = []"
    "length (ts_groups scan) = unat (te_pages expectation)" "ts_groups scan \<noteq> []"
    using assms unfolding attest_and_resolve_table_schema_def Let_def rbind_Ok_iff ensure_iff map_is_Nil_conv by blast+
  then obtain layouts where layouts: "supported_storage_layouts domain_type columns widths = Ok layouts"
    using assms by (auto simp: attest_and_resolve_table_schema_def Let_def rbind_Ok_iff)
  then obtain kept rejected where run: "rfold ?attempt layouts ([], []) = Ok (kept, rejected)"
    using assms by (auto simp: attest_and_resolve_table_schema_def Let_def rbind_Ok_iff)
  have "kept = [(at_storage (rt_schema r), at_schema (rt_schema r), rt_pages r)]
      \<and> rt_references r = sum_list (map (\<lambda>page. length (rp_references page)) (rt_pages r))"
    using assms facts layouts run
    by (auto simp: attest_and_resolve_table_schema_def Let_def rbind_Ok_iff ensure_iff split: list.splits)
  then have kept: "kept = [(at_storage (rt_schema r), at_schema (rt_schema r), rt_pages r)]"
    and references: "rt_references r = sum_list (map (\<lambda>page. length (rp_references page)) (rt_pages r))" by simp_all
  have "List.map_filter (kept_layout ?adapt ?keep) layouts = [(at_storage (rt_schema r), at_schema (rt_schema r), rt_pages r)]"
    using try_table_layouts [OF run] kept by simp
  then have only: "{s \<in> set layouts. kept_layout ?adapt ?keep s \<noteq> None} = {at_storage (rt_schema r)}"
    and chosen: "kept_layout ?adapt ?keep (at_storage (rt_schema r))
      = Some (at_storage (rt_schema r), at_schema (rt_schema r), rt_pages r)"
    unfolding only_kept [OF supported_layouts_distinct [OF layouts]] by blast+
  have "kept_layout ?adapt ?keep s \<noteq> None \<longleftrightarrow> (\<exists>schema pages. ?adapt s = Ok schema
      \<and> table_resolved decode_exact schema (ts_groups scan) (te_rows expectation) pages)" for s
    by (auto simp: kept_layout_Some keep_table_Some)
  with only have one: "{s \<in> set layouts. \<exists>schema pages. ?adapt s = Ok schema
      \<and> table_resolved decode_exact schema (ts_groups scan) (te_rows expectation) pages} = {at_storage (rt_schema r)}" by simp
  have resolved: "table_resolved decode_exact (at_schema (rt_schema r)) (ts_groups scan) (te_rows expectation) (rt_pages r)"
    using chosen by (auto simp: kept_layout_Some keep_table_Some)
  have "rp_references page = []" if member: "page \<in> set (rt_pages r)" for page
  proof -
    have "list_all2 (\<lambda>grp page. resolve_group_with_schema decode_exact grp (at_schema (rt_schema r)) = Some page)
        (ts_groups scan) (rt_pages r)" using resolved by (simp add: table_resolved_def)
    then obtain grp where "resolve_group_with_schema decode_exact grp (at_schema (rt_schema r)) = Some page"
      using member by (auto simp: list_all2_conv_all_nth in_set_conv_nth)
    then show ?thesis using resolve_group_complete by (auto simp: page_complete_def)
  qed
  then have "rt_references r = 0" by (simp add: references sum_list_eq_0_iff)
  moreover have "list_all (\<lambda>c. ts_target scan \<notin> set (ic_ids c)) (ts_conflicts scan)"
    using facts(3) by (auto simp: filter_empty_conv list_all_iff)
  ultimately show thesis using that [OF layouts one resolved facts(4)] by simp
qed

end
