(* ===== verification/Pipeline_Collectors.thy ===== *)
theory Pipeline_Collectors
  imports Pipeline_Tables
begin

text \<open>
  The collectors of \<open>crates/openqbw/src/enterprise24_accounting_pipeline.rs\<close> for each posting table and
  for the two header tables. \<open>Pipeline_Tables\<close> has what they share.
\<close>

text \<open>A \<open>Result\<close> that the code only tests: its value or nothing.\<close>

definition attempt :: "('e, 'a) outcome \<Rightarrow> ('f, 'a option) outcome" where
  "attempt r = (case r of Ok a \<Rightarrow> Ok (Some a) | Err _ \<Rightarrow> Ok None | Panic \<Rightarrow> Panic)"

definition check_scan_table :: "table_scan \<Rightarrow> u32 \<Rightarrow> (pipeline_error, unit) outcome" where
  "check_scan_table scan table = ensure (ts_target scan = table) (ScanTableMismatch (ts_target scan) table)"

section \<open>Bill lines\<close>

type_synonym aliases = "(record_location \<times> record_location) list"
type_synonym collected_with_aliases = "(partial_record list \<times> aliases \<times> nat) \<times> table_coverage"

definition isolated_single_record_group :: "candidate_group \<Rightarrow> bool" where
  "isolated_single_record_group grp \<longleftrightarrow>
     length (cg_candidates grp) = 1 \<and> map record_count (cg_candidates grp) = [1]
     \<and> length (dy_common (group_directory (cg_candidates grp))) = 1"

text \<open>The typed prefix of a Bill row, if a schema is given: all candidates decode and agree.\<close>

definition resolved_prefix :: "prefix_decoder \<Rightarrow> row_schema \<Rightarrow> u32 \<Rightarrow> byte list list \<Rightarrow> partial_row option" where
  "resolved_prefix decode schema through bytes =
     (if list_ex (\<lambda>b. decode b schema through = None) bytes then None
      else map_option rc_partial (resolve_record_candidates (prefix_candidates decode schema through bytes)))"

definition keep_with :: "u64 \<Rightarrow> u16 \<Rightarrow> byte list \<Rightarrow> partial_row \<Rightarrow> collected_with_aliases \<Rightarrow> collected_with_aliases" where
  "keep_with page record_id bytes partial st =
     (case st of ((records, aliases, n), coverage) \<Rightarrow>
        ((records @ [\<lparr>pd_page = page, pd_record = record_id, pd_bytes = bytes, pd_partial = partial\<rparr>], aliases, n),
         resolved coverage))"

definition collect_bill_record ::
    "prefix_decoder \<Rightarrow> segment_parser \<Rightarrow> table_policy \<Rightarrow> row_schema option \<Rightarrow> candidate_group \<Rightarrow> u16 \<Rightarrow>
     collected_with_aliases \<Rightarrow> (pipeline_error, collected_with_aliases) outcome" where
  "collect_bill_record decode segment policy schema grp record_id st =
     (case st of ((records, aliases, texts), coverage) \<Rightarrow>
        rbind (candidate_bytes (cg_candidates grp) record_id) (\<lambda>candidates.
        rbind (rmap (\<lambda>b. attempt (bill_posting_parse b)) candidates) (\<lambda>parsed.
        if list_all (\<lambda>p. p \<noteq> None) parsed then
          (case (parsed, candidates) of
             (first # rest, bytes # _) \<Rightarrow>
               if \<not> list_all (\<lambda>p. p = first) rest then Ok ((records, aliases, texts), unresolved coverage)
               else
                 (case schema of
                    None \<Rightarrow> Ok (keep_with (cg_page grp) record_id bytes (empty_physical_partial bytes) st)
                  | Some schema \<Rightarrow>
                      rbind (or_panic (po_through policy)) (\<lambda>through.
                        case resolved_prefix decode schema through candidates of
                          None \<Rightarrow> Ok ((records, aliases, texts), failed_unresolved coverage)
                        | Some partial \<Rightarrow> Ok (keep_with (cg_page grp) record_id bytes partial st)))
           | _ \<Rightarrow> Panic)
        else
          (case consensus_forwarding_locator segment candidates of
             Some dest \<Rightarrow> Ok ((records, aliases @ [((cg_page grp, record_id), dest)], texts), coverage)
           | None \<Rightarrow>
               if isolated_single_record_group grp
                  \<and> (case candidates of bytes # _ \<Rightarrow> is_bill_external_text_payload segment bytes | [] \<Rightarrow> False)
               then Ok ((records, aliases, texts + 1), coverage)
               else Ok ((records, aliases, texts), failed_unresolved coverage)))))"

definition external_text_coverage :: "coverage_expectation \<Rightarrow> nat \<Rightarrow> table_coverage \<Rightarrow> table_coverage" where
  "external_text_coverage expectation texts c =
     (if texts = 0 then c
      else if texts = 1 \<and> xp_external expectation = 1
              \<and> tv_groups c = unat (xp_pages expectation) + unat (xp_external expectation)
              \<and> tv_resolved c = unat (xp_records expectation) \<and> tv_unresolved c = 0 \<and> tv_failures c = 0
              \<and> tv_disagreements c = 0
      then c\<lparr>tv_external_text := 1\<rparr>
      else c\<lparr>tv_failures := tv_failures c + texts, tv_unresolved := tv_unresolved c + texts\<rparr>)"

definition collect_bill_table_rows ::
    "prefix_decoder \<Rightarrow> segment_parser \<Rightarrow> table_scan \<Rightarrow> coverage_expectation \<Rightarrow> row_schema option \<Rightarrow>
     (pipeline_error, table_rows) outcome" where
  "collect_bill_table_rows decode segment scan expectation schema =
     rbind (or_panic (r21_policy BillLine)) (\<lambda>policy.
     let table = table_id_of (po_table policy) in
     rbind (check_scan_table scan table) (\<lambda>_.
     rbind (ensure (case schema of Some s \<Rightarrow> policy_schema_matches policy s | None \<Rightarrow> True) (PolicyStorageMismatch table)) (\<lambda>_.
     rbind (rfold (collect_group (collect_bill_record decode segment policy schema) count_directory) (ts_groups scan)
              (([], [], 0), coverage_start table scan expectation)) (\<lambda>((records, aliases, texts), coverage).
       let valid = validate_forwarding_aliases segment records aliases
                     (\<lambda>b. case bill_posting_parse b of Ok _ \<Rightarrow> True | _ \<Rightarrow> False) in
       Ok \<lparr>tr_policy = policy, tr_records = records,
           tr_coverage = external_text_coverage expectation texts (alias_coverage valid (length aliases) coverage)\<rparr>))))"

definition collect_bill_rows ::
    "prefix_decoder \<Rightarrow> segment_parser \<Rightarrow> table_scan \<Rightarrow> coverage_expectation \<Rightarrow> (pipeline_error, table_rows) outcome" where
  "collect_bill_rows decode segment scan expectation = collect_bill_table_rows decode segment scan expectation None"

definition collect_bill_rows_with_lifecycle_schema ::
    "prefix_decoder \<Rightarrow> segment_parser \<Rightarrow> table_scan \<Rightarrow> row_schema \<Rightarrow> coverage_expectation \<Rightarrow>
     (pipeline_error, table_rows) outcome" where
  "collect_bill_rows_with_lifecycle_schema decode segment scan schema expectation =
     collect_bill_table_rows decode segment scan expectation (Some schema)"

section \<open>Rows of a typed prefix\<close>

definition collect_partial_table_rows ::
    "prefix_decoder \<Rightarrow> segment_parser \<Rightarrow> table_scan \<Rightarrow> table_policy \<Rightarrow> row_schema \<Rightarrow> coverage_expectation \<Rightarrow>
     (pipeline_error, table_rows) outcome" where
  "collect_partial_table_rows decode segment scan policy schema expectation =
     (let table = table_id_of (po_table policy) in
      if po_table policy = BillLine then collect_bill_rows decode segment scan expectation
      else
        rbind (check_scan_table scan table) (\<lambda>_.
        let coverage = (coverage_start table scan expectation)
              \<lparr>tv_unsupported := (po_status policy = PolicyUnsupported),
               tv_layout_pending := (po_status policy = PolicyLayoutPending)\<rparr> in
        if po_status policy \<noteq> PolicyPartial then Ok \<lparr>tr_policy = policy, tr_records = [], tr_coverage = coverage\<rparr>
        else
          rbind (ok_or (po_through policy) (PolicyRequiresDedicatedCollector table)) (\<lambda>through.
          rbind (ensure (policy_schema_matches policy schema) (PolicyStorageMismatch table)) (\<lambda>_.
          rbind (rfold (collect_group (collect_prefix_record decode schema through) count_directory) (ts_groups scan)
                   ([], coverage)) (\<lambda>(records, coverage).
            Ok \<lparr>tr_policy = policy, tr_records = records, tr_coverage = coverage\<rparr>)))))"

section \<open>Check lines\<close>

definition split_check_candidate ::
    "prefix_decoder \<Rightarrow> row_schema \<Rightarrow> u32 \<Rightarrow> byte list \<Rightarrow> record_candidate list \<times> (byte list \<times> void_companion) list \<times> bool \<Rightarrow>
     ('e, record_candidate list \<times> (byte list \<times> void_companion) list \<times> bool) outcome" where
  "split_check_candidate decode schema through bytes st =
     (case st of (prefixes, companions, failure) \<Rightarrow>
        rbind (attempt (void_companion_parse bytes)) (\<lambda>companion.
          Ok (case companion of
                Some c \<Rightarrow> (prefixes, companions @ [(bytes, c)], failure)
              | None \<Rightarrow>
                  (case decode bytes schema through of
                     Some p \<Rightarrow> (prefixes @ [\<lparr>rc_bytes = bytes, rc_partial = p\<rparr>], companions, failure)
                   | None \<Rightarrow> (prefixes, companions, True)))))"

definition collect_check_record ::
    "prefix_decoder \<Rightarrow> row_schema \<Rightarrow> u32 \<Rightarrow> candidate_group \<Rightarrow> u16 \<Rightarrow> collected \<Rightarrow> (pipeline_error, collected) outcome" where
  "collect_check_record decode schema through grp record_id st =
     rbind (candidate_bytes (cg_candidates grp) record_id) (\<lambda>bytes.
     rbind (rfold (split_check_candidate decode schema through) bytes ([], [], False)) (\<lambda>(prefixes, companions, failure).
       if failure \<or> (prefixes \<noteq> [] \<and> companions \<noteq> [])
          \<or> length prefixes + length companions \<noteq> length (cg_candidates grp)
       then Ok (fst st, failed_unresolved (snd st))
       else case companions of
         (b, first) # rest \<Rightarrow>
           if \<not> list_all (\<lambda>(_, c). c = first) rest then Ok (fst st, unresolved (snd st))
           else
             rbind (byte_at b 2) (\<lambda>_.
               Ok (keep_record (cg_page grp) record_id \<lparr>rc_bytes = b, rc_partial = empty_physical_partial b\<rparr>
                     (fst st, (snd st)\<lparr>tv_artifacts := tv_artifacts (snd st) + 1\<rparr>)))
       | [] \<Rightarrow>
           (case resolve_record_candidates prefixes of
              None \<Rightarrow> Ok (fst st, unresolved (snd st))
            | Some first \<Rightarrow> Ok (keep_record (cg_page grp) record_id first st))))"

definition collect_check_prefix_table_rows ::
    "prefix_decoder \<Rightarrow> table_scan \<Rightarrow> row_schema \<Rightarrow> coverage_expectation \<Rightarrow> (pipeline_error, table_rows) outcome" where
  "collect_check_prefix_table_rows decode scan schema expectation =
     rbind (or_panic (r21_policy CheckLine)) (\<lambda>policy.
     let table = table_id_of (po_table policy) in
     rbind (check_scan_table scan table) (\<lambda>_.
     rbind (ensure (policy_schema_matches policy schema) (PolicyStorageMismatch table)) (\<lambda>_.
     rbind (or_panic (po_through policy)) (\<lambda>through.
     rbind (rfold (collect_group (collect_check_record decode schema through) count_directory) (ts_groups scan)
              ([], coverage_start table scan expectation)) (\<lambda>(records, coverage).
       Ok \<lparr>tr_policy = policy, tr_records = records, tr_coverage = coverage\<rparr>)))))"

section \<open>General Journal lines\<close>

definition collect_journal_record ::
    "segment_parser \<Rightarrow> candidate_group \<Rightarrow> u16 \<Rightarrow> collected_with_aliases \<Rightarrow>
     (pipeline_error, collected_with_aliases) outcome" where
  "collect_journal_record segment grp record_id st =
     (case st of ((records, aliases, zero_groups), coverage) \<Rightarrow>
        rbind (candidate_bytes (cg_candidates grp) record_id) (\<lambda>bytes.
          case bytes of
            [] \<Rightarrow> Ok ((records, aliases, zero_groups), unresolved coverage)
          | first # rest \<Rightarrow>
              if \<not> list_all (\<lambda>b. b = first) rest then Ok ((records, aliases, zero_groups), unresolved coverage)
              else case forwarding_locator segment first of
                Some dest \<Rightarrow> Ok ((records, aliases @ [((cg_page grp, record_id), dest)], zero_groups), coverage)
              | None \<Rightarrow> Ok (keep_with (cg_page grp) record_id first (empty_physical_partial first) st)))"

definition collect_journal_group ::
    "segment_parser \<Rightarrow> candidate_group \<Rightarrow> collected_with_aliases \<Rightarrow> (pipeline_error, collected_with_aliases) outcome" where
  "collect_journal_group segment grp st =
     (let counts = map record_count (cg_candidates grp);
          zero = (counts \<noteq> [] \<and> list_all (\<lambda>n. n = 0) counts) in
      collect_group (collect_journal_record segment)
        (\<lambda>d ((records, aliases, zero_groups), coverage).
           ((records, aliases, if zero then zero_groups + 1 else zero_groups), directory_coverage d coverage)) grp st)"

definition empty_surplus_coverage :: "coverage_expectation \<Rightarrow> nat \<Rightarrow> table_coverage \<Rightarrow> table_coverage" where
  "empty_surplus_coverage expectation zero_groups c =
     (if tv_groups c = unat (xp_pages expectation) + unat (xp_external expectation) + 1 \<and> 0 < zero_groups
         \<and> 0 < tv_resolved c \<and> tv_resolved c = unat (xp_records expectation) \<and> tv_unresolved c = 0
         \<and> tv_failures c = 0 \<and> tv_disagreements c = 0
      then c\<lparr>tv_empty_surplus := 1\<rparr> else c)"

definition collect_general_journal_table_rows ::
    "sa_calendar \<Rightarrow> segment_parser \<Rightarrow> table_scan \<Rightarrow> coverage_expectation \<Rightarrow> (pipeline_error, table_rows) outcome" where
  "collect_general_journal_table_rows cal segment scan expectation =
     rbind (or_panic (r21_policy GeneralJournalLine)) (\<lambda>policy.
     let table = table_id_of (po_table policy) in
     rbind (check_scan_table scan table) (\<lambda>_.
     rbind (rfold (collect_journal_group segment) (ts_groups scan) (([], [], 0), coverage_start table scan expectation))
       (\<lambda>((records, aliases, zero_groups), coverage).
       let valid = validate_forwarding_aliases segment records aliases
                     (\<lambda>b. case journal_posting_parse cal b of Ok _ \<Rightarrow> True | _ \<Rightarrow> False) in
       Ok \<lparr>tr_policy = policy, tr_records = records,
           tr_coverage = empty_surplus_coverage expectation zero_groups (alias_coverage valid (length aliases) coverage)\<rparr>)))"

section \<open>Header witnesses\<close>

definition has_header_framing :: "byte list \<Rightarrow> bool" where
  "has_header_framing bytes \<longleftrightarrow>
     23 \<le> length bytes \<and> declared_len bytes = length bytes \<and> get_at bytes 2 = Some 0x40 \<and> get_at bytes 3 = Some 0x01
     \<and> get_range bytes 4 7 = Some [0xa7, 0xfe, 0]"

definition collect_journal_header ::
    "sa_calendar \<Rightarrow> candidate_group \<Rightarrow> u16 \<Rightarrow> header_witness list \<Rightarrow> (pipeline_error, header_witness list) outcome" where
  "collect_journal_header cal grp record_id witnesses =
     rbind (candidate_bytes (cg_candidates grp) record_id) (\<lambda>bytes.
       case bytes of
         [] \<Rightarrow> Err HeaderWitnessConsensusFailed
       | first # rest \<Rightarrow>
           rbind (ensure (list_all (\<lambda>b. b = first) rest) HeaderWitnessConsensusFailed) (\<lambda>_.
           if \<not> has_header_framing first then Ok witnesses
           else
             rbind (map_err (\<lambda>_. HeaderWitnessParseFailed) (header_witness_parse cal first)) (\<lambda>w.
               Ok (witnesses @ [w]))))"

definition undisputed_group ::
    "pipeline_error \<Rightarrow> (candidate_group \<Rightarrow> u16 \<Rightarrow> 's \<Rightarrow> (pipeline_error, 's) outcome) \<Rightarrow> candidate_group \<Rightarrow> 's \<Rightarrow>
     (pipeline_error, 's) outcome" where
  "undisputed_group e one grp st =
     (let d = group_directory (cg_candidates grp) in
      rbind (ensure (dy_disagreements d = 0) e) (\<lambda>_. rfold (one grp) (dy_common d) st))"

definition collect_general_journal_header_witnesses ::
    "sa_calendar \<Rightarrow> table_scan \<Rightarrow> (pipeline_error, header_witness list) outcome" where
  "collect_general_journal_header_witnesses cal scan =
     rbind (check_scan_table scan (table_id_of GeneralJournalHeader)) (\<lambda>_.
       rfold (undisputed_group HeaderWitnessConsensusFailed (collect_journal_header cal)) (ts_groups scan) [])"

definition collect_bill_header :: "candidate_group \<Rightarrow> u16 \<Rightarrow> u32 list \<Rightarrow> (pipeline_error, u32 list) outcome" where
  "collect_bill_header grp record_id witnesses =
     rbind (candidate_bytes (cg_candidates grp) record_id) (\<lambda>bytes.
     rbind (rmap (\<lambda>b. attempt (bill_header_parse b)) bytes) (\<lambda>headers.
     rbind (ensure (list_all (\<lambda>h. h \<noteq> None) headers) BillHeaderWitnessResolutionFailed) (\<lambda>_.
       case headers of
         Some first # rest \<Rightarrow>
           rbind (ensure (list_all (\<lambda>h. h = Some first) rest \<and> bh_master first \<notin> set witnesses)
                    BillHeaderWitnessResolutionFailed) (\<lambda>_. Ok (insort_insert (bh_master first) witnesses))
       | _ \<Rightarrow> Panic)))"

definition collect_bill_header_master_witnesses :: "table_scan \<Rightarrow> (pipeline_error, u32 list) outcome" where
  "collect_bill_header_master_witnesses scan =
     rbind (check_scan_table scan (table_id_of BillHeader)) (\<lambda>_.
       rfold (undisputed_group BillHeaderWitnessResolutionFailed collect_bill_header) (ts_groups scan) [])"

end
