(* ===== verification/Pipeline_Carriers.thy ===== *)
theory Pipeline_Carriers
  imports Pipeline_Collectors Account_Adapter
begin

text \<open>
  The non-posting carriers of Bill tables (\<open>attested_bill_carrier_targets\<close> and its helpers in
  \<open>enterprise24_accounting_pipeline.rs\<close>): chains of rows of kind 64 that must end in a monetary row of a
  balanced family, and the collector that accepts them.
\<close>

section \<open>Named values of a row\<close>

text \<open>\<open>.ok()\<close>; the lookups and the row parsers it is used on do not panic.\<close>

definition ok_of :: "('e, 'a) outcome \<Rightarrow> 'a option" where
  "ok_of r = (case r of Ok a \<Rightarrow> Some a | _ \<Rightarrow> None)"

definition named_value :: "row_schema \<Rightarrow> partial_row \<Rightarrow> string \<Rightarrow> sql_value option" where
  "named_value schema partial name = (case prefix_value_by_column_name schema partial name of Ok v \<Rightarrow> v | _ \<Rightarrow> None)"

definition named_u32 :: "row_schema \<Rightarrow> partial_row \<Rightarrow> string \<Rightarrow> u32 option" where
  "named_u32 schema partial name =
     (case named_value schema partial name of
        Some (SqlInteger v) \<Rightarrow> (case u32_of_i64 v of Some w \<Rightarrow> if w \<noteq> 0 then Some w else None | None \<Rightarrow> None)
      | _ \<Rightarrow> None)"

definition named_null :: "row_schema \<Rightarrow> partial_row \<Rightarrow> string \<Rightarrow> bool" where
  "named_null schema partial name \<longleftrightarrow> named_value schema partial name = Some SqlNull"

definition named_bool :: "row_schema \<Rightarrow> partial_row \<Rightarrow> string \<Rightarrow> bool option" where
  "named_bool schema partial name =
     (case boolean_value_by_column_name schema partial name of Ok (Some (SqlBoolean b)) \<Rightarrow> Some b | _ \<Rightarrow> None)"

section \<open>Carriers and families\<close>

definition is_bill_kind64_framing :: "byte list \<Rightarrow> bool" where
  "is_bill_kind64_framing bytes \<longleftrightarrow>
     5 \<le> length bytes \<and> declared_len bytes = length bytes \<and> get_at bytes 2 = Some 0x40 \<and> get_at bytes 3 = Some 0x02
     \<and> get_at bytes 4 = Some 0x64"

definition bill_nonposting_carrier_identity :: "record_candidate \<Rightarrow> row_schema \<Rightarrow> (u32 \<times> u32 \<times> u32 \<times> u32) option" where
  "bill_nonposting_carrier_identity carrier schema =
     (let p = rc_partial carrier in
      if \<not> is_bill_kind64_framing (rc_bytes carrier) \<or> \<not> named_null schema p ''account_id''
         \<or> \<not> named_null schema p ''amount_amt'' \<or> named_bool schema p ''is_source_bool'' \<noteq> Some False
         \<or> named_bool schema p ''is_no_post_bool'' \<noteq> Some False
         \<or> named_bool schema p ''is_memorized_transaction_bool'' \<noteq> Some False
         \<or> named_bool schema p ''is_split_bool'' \<noteq> Some True \<or> named_bool schema p ''is_arap_bool'' \<noteq> Some True
      then None
      else case (named_u32 schema p ''target_id'', named_u32 schema p ''transaction_id'',
                 named_u32 schema p ''next_target_id'', named_u32 schema p ''sibling_account_id'') of
        (Some target, Some master, Some next_target, Some sibling) \<Rightarrow> Some (target, master, next_target, sibling)
      | _ \<Rightarrow> None)"

definition bill_carrier_context :: "row_schema \<Rightarrow> partial_row \<Rightarrow> (sql_value \<times> sql_value) option" where
  "bill_carrier_context schema row =
     (case (named_value schema row ''transaction_date'', named_value schema row ''transaction_view_type'') of
        (Some date, Some view) \<Rightarrow> Some (date, view) | _ \<Rightarrow> None)"

record carrier_family =
  cf_context :: "sql_value \<times> sql_value"
  cf_accounts :: "u32 list"
  cf_targets :: "u32 list"

definition family_member ::
    "row_schema \<Rightarrow> sql_value \<times> sql_value \<Rightarrow> partial_record \<Rightarrow> (u32 list \<times> u32 list \<times> int) option \<Rightarrow>
     (u32 list \<times> u32 list \<times> int) option" where
  "family_member schema context record st =
     (case st of
        None \<Rightarrow> None
      | Some (accounts, targets, balance) \<Rightarrow>
          (case ok_of (bill_posting_parse (pd_bytes record)) of
             None \<Rightarrow> None
           | Some p \<Rightarrow>
               if bp_canonical_zero p \<or> bp_target p \<in> set targets
                  \<or> bill_carrier_context schema (pd_partial record) \<noteq> Some context
               then None
               else Some (insort_insert (bp_account p) accounts, insort_insert (bp_target p) targets,
                          balance + sint (bp_signed_cents p))))"

definition attested_bill_carrier_family :: "partial_record list \<Rightarrow> row_schema \<Rightarrow> carrier_family option" where
  "attested_bill_carrier_family family schema =
     (case family of
        first # _ # _ \<Rightarrow>
          (case bill_carrier_context schema (pd_partial first) of
             None \<Rightarrow> None
           | Some context \<Rightarrow>
               (case fold (family_member schema context) family (Some ([], [], 0)) of
                  None \<Rightarrow> None
                | Some (accounts, targets, balance) \<Rightarrow>
                    if 2 \<le> length accounts \<and> balance = 0
                    then Some \<lparr>cf_context = context, cf_accounts = accounts, cf_targets = targets\<rparr> else None))
      | _ \<Rightarrow> None)"

record carrier_node =
  cn_master :: u32
  cn_next :: u32
  cn_sibling :: u32
  cn_context :: "sql_value \<times> sql_value"

datatype carrier_link = LinkMonetary | LinkCarrier u32 | LinkInvalid

definition carrier_indexes ::
    "row_schema \<Rightarrow> partial_record list \<Rightarrow> (u32, int) btree \<times> (u32, partial_record list) btree" where
  "carrier_indexes schema records =
     (fold (\<lambda>r m. case named_u32 schema (pd_partial r) ''target_id'' of Some t \<Rightarrow> bt_add t 1 m | None \<Rightarrow> m) records [],
      fold (\<lambda>r m. case named_u32 schema (pd_partial r) ''transaction_id'' of
                     Some t \<Rightarrow> bt_insert t ((case bt_get m t of Some rs \<Rightarrow> rs | None \<Rightarrow> []) @ [r]) m
                   | None \<Rightarrow> m) records [])"

definition carrier_families ::
    "row_schema \<Rightarrow> u32 list \<Rightarrow> (u32, partial_record list) btree \<Rightarrow> (u32, carrier_family) btree" where
  "carrier_families schema headers by_master =
     List.map_filter (\<lambda>(master, family).
         if master \<in> set headers then map_option (\<lambda>f. (master, f)) (attested_bill_carrier_family family schema) else None)
       by_master"

definition carrier_index ::
    "row_schema \<Rightarrow> record_candidate list \<Rightarrow> (u32, record_candidate option) btree" where
  "carrier_index schema carriers =
     fold (\<lambda>c m. case named_u32 schema (rc_partial c) ''target_id'' of
             None \<Rightarrow> m
           | Some t \<Rightarrow> bt_insert t (case bt_get m t of Some _ \<Rightarrow> None | None \<Rightarrow> Some c) m) carriers []"

definition carrier_nodes ::
    "row_schema \<Rightarrow> (u32, int) btree \<Rightarrow> (u32, record_candidate option) btree \<Rightarrow> (u32, carrier_node) btree" where
  "carrier_nodes schema record_targets indexed =
     List.map_filter (\<lambda>(target, carrier).
         case carrier of
           None \<Rightarrow> None
         | Some c \<Rightarrow>
             (case bill_nonposting_carrier_identity c schema of
                None \<Rightarrow> None
              | Some (_, master, next_target, sibling) \<Rightarrow>
                  if bt_get record_targets target \<noteq> None then None
                  else map_option (\<lambda>context.
                         (target, \<lparr>cn_master = master, cn_next = next_target, cn_sibling = sibling, cn_context = context\<rparr>))
                       (bill_carrier_context schema (rc_partial c))))
       indexed"

definition carrier_link_of ::
    "(u32, carrier_family) btree \<Rightarrow> (u32, int) btree \<Rightarrow> (u32, carrier_node) btree \<Rightarrow> carrier_node \<Rightarrow> carrier_link" where
  "carrier_link_of families record_targets nodes node =
     (case bt_get families (cn_master node) of
        None \<Rightarrow> LinkInvalid
      | Some family \<Rightarrow>
          if cf_context family = cn_context node \<and> cn_sibling node \<in> set (cf_accounts family) then
            if cn_next node \<in> set (cf_targets family) \<and> bt_get record_targets (cn_next node) = Some 1 then LinkMonetary
            else case bt_get nodes (cn_next node) of
              Some n \<Rightarrow>
                if cn_master n = cn_master node \<and> cn_sibling n = cn_sibling node \<and> cn_context n = cn_context node
                then LinkCarrier (cn_next node) else LinkInvalid
            | None \<Rightarrow> LinkInvalid
          else LinkInvalid)"

definition carrier_links ::
    "(u32, carrier_family) btree \<Rightarrow> (u32, int) btree \<Rightarrow> (u32, carrier_node) btree \<Rightarrow> (u32, carrier_link) btree" where
  "carrier_links families record_targets nodes =
     map (\<lambda>(target, node). (target, carrier_link_of families record_targets nodes node)) nodes"

section \<open>The walk over the links\<close>

text \<open>The visited set of the loop has the elements of its path. The result is the verdict and the path.\<close>

function carrier_walk ::
    "(u32, carrier_link) btree \<Rightarrow> (u32, bool) btree \<Rightarrow> u32 list \<Rightarrow> u32 \<Rightarrow> bool \<times> u32 list" where
  "carrier_walk links classified path current =
     (case bt_get classified current of
        Some known \<Rightarrow> (known, path)
      | None \<Rightarrow>
          if current \<in> set path then (False, path)
          else case bt_get links current of
            Some LinkMonetary \<Rightarrow> (True, path @ [current])
          | Some (LinkCarrier n) \<Rightarrow> carrier_walk links classified (path @ [current]) n
          | _ \<Rightarrow> (False, path @ [current]))"
  by pat_completeness auto

termination
proof (relation "measure (\<lambda>(links, _, path, _). card (set (bt_keys links) - set path))")
  fix links :: "(u32, carrier_link) btree" and classified :: "(u32, bool) btree" and path current l n
  assume "current \<notin> set path" and "bt_get links current = Some l" and "l = LinkCarrier n"
  then have "current \<in> set (bt_keys links) - set path" by (force simp: bt_keys_def bt_get_def dest: map_of_SomeD)
  then have "set (bt_keys links) - set (path @ [current]) \<subset> set (bt_keys links) - set path" by auto
  then have "card (set (bt_keys links) - set (path @ [current])) < card (set (bt_keys links) - set path)"
    by (intro psubset_card_mono) auto
  then show "((links, classified, path @ [current], n), links, classified, path, current)
      \<in> measure (\<lambda>(links, _, path, _). card (set (bt_keys links) - set path))" by simp
qed simp

declare carrier_walk.simps [simp del]

definition classify_from ::
    "(u32, carrier_link) btree \<Rightarrow> u32 \<Rightarrow> (u32, bool) btree \<Rightarrow> (u32, bool) btree" where
  "classify_from links start classified =
     (case carrier_walk links classified [] start of (valid, path) \<Rightarrow>
        fold (\<lambda>target m. bt_insert target valid m) path classified)"

definition classified_links :: "(u32, carrier_link) btree \<Rightarrow> (u32, bool) btree" where
  "classified_links links = fold (classify_from links) (bt_keys links) []"

definition accepted_targets :: "(u32, carrier_link) btree \<Rightarrow> u32 list" where
  "accepted_targets links = map fst (filter snd (classified_links links))"

definition attested_bill_carrier_targets ::
    "record_candidate list \<Rightarrow> partial_record list \<Rightarrow> row_schema \<Rightarrow> u32 list \<Rightarrow> u32 list" where
  "attested_bill_carrier_targets carriers records schema headers =
     (if carriers = [] then []
      else case carrier_indexes schema records of (record_targets, by_master) \<Rightarrow>
        accepted_targets
          (carrier_links (carrier_families schema headers by_master) record_targets
             (carrier_nodes schema record_targets (carrier_index schema carriers))))"

section \<open>The collector\<close>

type_synonym collected_carriers = "(partial_record list \<times> record_candidate list) \<times> table_coverage"

definition collect_context_record ::
    "prefix_decoder \<Rightarrow> row_schema \<Rightarrow> u32 \<Rightarrow> candidate_group \<Rightarrow> u16 \<Rightarrow> collected_carriers \<Rightarrow>
     (pipeline_error, collected_carriers) outcome" where
  "collect_context_record decode schema through grp record_id st =
     (case st of ((records, pending), coverage) \<Rightarrow>
        rbind (candidate_bytes (cg_candidates grp) record_id) (\<lambda>bytes.
        if list_ex (\<lambda>b. decode b schema through = None) bytes then Ok ((records, pending), failed_unresolved coverage)
        else
          let decoded = prefix_candidates decode schema through bytes in
          (case resolve_record_candidates decoded of
             None \<Rightarrow> Ok ((records, pending), unresolved coverage)
           | Some first \<Rightarrow>
               rbind (rmap (\<lambda>c. attempt (bill_posting_parse (rc_bytes c))) decoded) (\<lambda>parsed.
               if list_all (\<lambda>p. p \<noteq> None) parsed then
                 (case parsed of
                    [] \<Rightarrow> Panic
                  | p # ps \<Rightarrow>
                      if \<not> list_all (\<lambda>q. q = p) ps then Ok ((records, pending), unresolved coverage)
                      else Ok ((records @ [\<lparr>pd_page = cg_page grp, pd_record = record_id, pd_bytes = rc_bytes first,
                                            pd_partial = rc_partial first\<rparr>], pending), resolved coverage))
               else if is_bill_kind64_framing (rc_bytes first) then Ok ((records, pending @ [first]), coverage)
               else Ok ((records, pending), failed_unresolved coverage)))))"

definition settle_carrier ::
    "row_schema \<Rightarrow> u32 list \<Rightarrow> record_candidate \<Rightarrow> u32 list \<times> table_coverage \<Rightarrow> u32 list \<times> table_coverage" where
  "settle_carrier schema accepted carrier st =
     (case st of (seen, c) \<Rightarrow>
        (case named_u32 schema (rc_partial carrier) ''target_id'' of
           None \<Rightarrow> (seen, failed_unresolved c)
         | Some target \<Rightarrow>
             (insort_insert target seen,
              if target \<notin> set seen \<and> target \<in> set accepted
              then c\<lparr>tv_artifacts := tv_artifacts c + 1, tv_logical_carriers := tv_logical_carriers c + 1\<rparr>
              else failed_unresolved c)))"

definition collect_bill_table_rows_with_context ::
    "prefix_decoder \<Rightarrow> table_scan \<Rightarrow> row_schema \<Rightarrow> u32 list \<Rightarrow> coverage_expectation \<Rightarrow>
     (pipeline_error, table_rows) outcome" where
  "collect_bill_table_rows_with_context decode scan schema bill_header_masters expectation =
     rbind (or_panic (r21_policy BillLine)) (\<lambda>policy.
     let table = table_id_of (po_table policy) in
     rbind (check_scan_table scan table) (\<lambda>_.
     rbind (ensure (policy_schema_matches policy schema) (PolicyStorageMismatch table)) (\<lambda>_.
     rbind (or_panic (po_through policy)) (\<lambda>through.
     rbind (rfold (collect_group (collect_context_record decode schema through) count_directory) (ts_groups scan)
              (([], []), coverage_start table scan expectation)) (\<lambda>((records, pending), coverage).
       let accepted = attested_bill_carrier_targets pending records schema bill_header_masters in
       Ok \<lparr>tr_policy = policy, tr_records = records,
           tr_coverage = snd (fold (settle_carrier schema accepted) pending ([], coverage))\<rparr>)))))"

section \<open>What an accepted carrier is\<close>

inductive reaches_money :: "(u32, carrier_link) btree \<Rightarrow> u32 \<Rightarrow> bool" for links where
  reaches_now: "bt_get links t = Some LinkMonetary \<Longrightarrow> reaches_money links t"
| reaches_later: "bt_get links t = Some (LinkCarrier n) \<Longrightarrow> reaches_money links n \<Longrightarrow> reaches_money links t"

inductive_simps reaches_money_step: "reaches_money links t"

definition carrier_step :: "(u32, carrier_link) btree \<Rightarrow> (u32 \<times> u32) set" where
  "carrier_step links = {(t, n). bt_get links t = Some (LinkCarrier n)}"

lemma reaches_money_acyclic: "reaches_money links t \<Longrightarrow> (t, t) \<notin> (carrier_step links)\<^sup>+"
proof (induction rule: reaches_money.induct)
  case (reaches_now t)
  then show ?case by (auto simp: carrier_step_def dest: tranclD)
next
  case (reaches_later t n)
  show ?case
  proof
    assume "(t, t) \<in> (carrier_step links)\<^sup>+"
    then obtain m where "(t, m) \<in> carrier_step links" and "(m, t) \<in> (carrier_step links)\<^sup>*" by (auto dest: tranclD)
    then have "(n, t) \<in> (carrier_step links)\<^sup>*" and step: "(t, n) \<in> carrier_step links"
      using reaches_later(1) by (simp_all add: carrier_step_def)
    then have "(n, n) \<in> (carrier_step links)\<^sup>+" by (meson rtrancl_into_trancl1)
    with reaches_later.IH show False by contradiction
  qed
qed

text \<open>The path of a walk: each element leads to the current one, and all share its verdict.\<close>

definition leads_to :: "(u32, carrier_link) btree \<Rightarrow> u32 list \<Rightarrow> u32 \<Rightarrow> bool" where
  "leads_to links path current \<longleftrightarrow>
     (\<forall>t\<in>set path. (t, current) \<in> (carrier_step links)\<^sup>+ \<and> (reaches_money links t \<longleftrightarrow> reaches_money links current))"

definition sound_memo :: "(u32, carrier_link) btree \<Rightarrow> (u32, bool) btree \<Rightarrow> bool" where
  "sound_memo links m \<longleftrightarrow> bt_ok m \<and> (\<forall>t b. bt_get m t = Some b \<longrightarrow> b = reaches_money links t)"

lemma leads_to_next:
  assumes "leads_to links path current" and "bt_get links current = Some (LinkCarrier n)"
  shows "leads_to links (path @ [current]) n"
proof -
  have step: "(current, n) \<in> carrier_step links" using assms(2) by (simp add: carrier_step_def)
  have "reaches_money links current \<longleftrightarrow> reaches_money links n"
    using assms(2) by (subst reaches_money_step) auto
  with assms(1) step show ?thesis by (auto simp: leads_to_def intro: trancl_into_trancl)
qed

lemma carrier_walk_known: "bt_get classified current = Some known \<Longrightarrow> carrier_walk links classified path current = (known, path)"
  by (simp add: carrier_walk.simps)

lemma carrier_walk_cycle:
  "bt_get classified current = None \<Longrightarrow> current \<in> set path \<Longrightarrow> carrier_walk links classified path current = (False, path)"
  by (simp add: carrier_walk.simps)

lemma carrier_walk_next:
  "bt_get classified current = None \<Longrightarrow> current \<notin> set path \<Longrightarrow> bt_get links current = Some (LinkCarrier n) \<Longrightarrow>
   carrier_walk links classified path current = carrier_walk links classified (path @ [current]) n"
  by (subst carrier_walk.simps) simp

lemma carrier_walk_stop:
  "bt_get classified current = None \<Longrightarrow> current \<notin> set path \<Longrightarrow> (\<And>n. bt_get links current \<noteq> Some (LinkCarrier n)) \<Longrightarrow>
   carrier_walk links classified path current = (bt_get links current = Some LinkMonetary, path @ [current])"
  by (subst carrier_walk.simps) (auto split: option.split carrier_link.split)

lemma carrier_walk_sound:
  assumes "sound_memo links classified" and "leads_to links path current"
    and "carrier_walk links classified path current = (valid, path')"
  shows "(\<forall>t\<in>set path'. reaches_money links t \<longleftrightarrow> valid) \<and> set path \<subseteq> set path'
    \<and> (bt_get classified current = None \<longrightarrow> current \<in> set path')"
  using assms
proof (induction links classified path current rule: carrier_walk.induct)
  case (1 links classified path current)
  consider (known) known where "bt_get classified current = Some known"
    | (cycle) "bt_get classified current = None" "current \<in> set path"
    | (follow) n where "bt_get classified current = None" "current \<notin> set path" "bt_get links current = Some (LinkCarrier n)"
    | (stop) "bt_get classified current = None" "current \<notin> set path" "\<And>n. bt_get links current \<noteq> Some (LinkCarrier n)"
    by fastforce
  then show ?case
  proof cases
    case known
    with "1.prems" show ?thesis by (auto simp: carrier_walk_known sound_memo_def leads_to_def)
  next
    case cycle
    with "1.prems"(2) have "(current, current) \<in> (carrier_step links)\<^sup>+" by (simp add: leads_to_def)
    then have "\<not> reaches_money links current" using reaches_money_acyclic by blast
    with cycle "1.prems" show ?thesis by (auto simp: carrier_walk_cycle leads_to_def)
  next
    case (follow n)
    from "1.IH" [OF follow(1,2,3) refl "1.prems"(1) leads_to_next [OF "1.prems"(2) follow(3)]] "1.prems"(3)
    show ?thesis by (auto simp: carrier_walk_next [OF follow])
  next
    case stop
    have "reaches_money links current \<longleftrightarrow> bt_get links current = Some LinkMonetary"
      using stop(3) by (subst reaches_money_step) auto
    with stop "1.prems" show ?thesis by (auto simp: carrier_walk_stop leads_to_def)
  qed
qed

lemma classify_from_sound:
  assumes "sound_memo links classified"
  shows "sound_memo links (classify_from links start classified)"
    and "bt_get (classify_from links start classified) start \<noteq> None"
    and "bt_get classified t \<noteq> None \<Longrightarrow> bt_get (classify_from links start classified) t \<noteq> None"
proof -
  obtain valid path where w: "carrier_walk links classified [] start = (valid, path)" by fastforce
  have "leads_to links [] start" by (simp add: leads_to_def)
  note walk = carrier_walk_sound [OF assms this w]
  have ok: "bt_ok m \<Longrightarrow> bt_ok (fold (\<lambda>t. bt_insert t v) ts m)" for ts and v :: bool and m :: "(u32, bool) btree"
    by (induction ts arbitrary: m) (auto simp: bt_ok_insert)
  have get: "bt_get (fold (\<lambda>t. bt_insert t v) ts m) t = (if t \<in> set ts then Some v else bt_get m t)"
    for ts t and v :: bool and m :: "(u32, bool) btree"
    by (induction ts arbitrary: m) (auto simp: bt_get_insert)
  have eq: "classify_from links start classified = fold (\<lambda>t. bt_insert t valid) path classified"
    by (simp add: classify_from_def w)
  show "sound_memo links (classify_from links start classified)"
    using assms walk by (auto simp: sound_memo_def eq ok get)
  show "bt_get (classify_from links start classified) start \<noteq> None"
    using walk by (auto simp: eq get)
  show "bt_get classified t \<noteq> None \<Longrightarrow> bt_get (classify_from links start classified) t \<noteq> None"
    by (auto simp: eq get)
qed

lemma classified_links_sound:
  "sound_memo links (classified_links links)"
  "t \<in> set (bt_keys links) \<Longrightarrow> bt_get (classified_links links) t \<noteq> None"
proof -
  have "sound_memo links m \<Longrightarrow> sound_memo links (fold (classify_from links) ts m)
      \<and> (\<forall>t. t \<in> set ts \<or> bt_get m t \<noteq> None \<longrightarrow> bt_get (fold (classify_from links) ts m) t \<noteq> None)" for ts m
  proof (induction ts arbitrary: m)
    case (Cons u ts)
    note step = classify_from_sound [OF Cons.prems, where start = u]
    from Cons.IH [OF step(1)] step(2) step(3) show ?case by (metis fold_simps(2) set_ConsD)
  qed simp
  from this [of "[]" "bt_keys links"]
  show "sound_memo links (classified_links links)"
    and "t \<in> set (bt_keys links) \<Longrightarrow> bt_get (classified_links links) t \<noteq> None"
    by (simp_all add: classified_links_def sound_memo_def bt_ok_def bt_get_def)
qed

lemma accepted_targets_iff: "t \<in> set (accepted_targets links) \<longleftrightarrow> reaches_money links t"
proof -
  have ok: "bt_ok (classified_links links)" using classified_links_sound(1) by (simp add: sound_memo_def)
  have "t \<in> set (accepted_targets links) \<longleftrightarrow> bt_get (classified_links links) t = Some True"
    using bt_get_iff [OF ok, of t True] by (force simp: accepted_targets_def)
  moreover have "reaches_money links t \<Longrightarrow> t \<in> set (bt_keys links)"
    by (erule reaches_money.cases) (force simp: bt_keys_def bt_get_def dest: map_of_SomeD)+
  ultimately show ?thesis
    using classified_links_sound(1) [of links] classified_links_sound(2) [of t links]
    by (auto simp: sound_memo_def)
qed

end
