(* ===== verification/Pipeline_Checks.thy ===== *)
theory Pipeline_Checks
  imports Pipeline_Carriers Decoder_Contract Account_Adapter
begin

text \<open>
  From adapted rows to dispositions of the ledger contract, and the Check family of
  \<open>enterprise24_accounting_pipeline.rs\<close>: both strategies observe every row once and pass the same
  validation of complete families.
\<close>

section \<open>Normalization\<close>

datatype normalization_failure = MissingAccountIdentity | NormalizationOther

type_synonym identity_map = "(u32, account_id) btree"

definition u32_of_u64 :: "u64 \<Rightarrow> u32 option" where
  "u32_of_u64 v = (if unat v < 2 ^ 32 then Some (ucast v) else None)"

definition record_label :: "accounting_table \<Rightarrow> partial_record \<Rightarrow> string" where
  "record_label table record =
     ''enterprise24:'' @ int_to_string (uint (table_id_of table)) @ '':'' @ int_to_string (uint (pd_page record))
     @ '':'' @ int_to_string (uint (pd_record record))"

definition record_provenance ::
    "accounting_table \<Rightarrow> partial_record \<Rightarrow> string \<Rightarrow> (accounting_error, posting_provenance) outcome" where
  "record_provenance table record decoder =
     posting_provenance_new (record_label table record) (u32_of_u64 (pd_page record)) (Some (pd_record record)) decoder"

definition excluded_record ::
    "accounting_table \<Rightarrow> partial_record \<Rightarrow> string \<Rightarrow> posting_exclusion_reason \<Rightarrow> (unit, posting_disposition) outcome" where
  "excluded_record table record decoder reason =
     rbind (map_err (\<lambda>_. ()) (record_provenance table record decoder)) (\<lambda>provenance.
       Ok (Excluded \<lparr>excl_provenance = provenance, excl_reason = reason\<rparr>))"

definition known_account :: "identity_map \<Rightarrow> u64 \<Rightarrow> (normalization_failure, account_id) outcome" where
  "known_account identities account =
     rbind (ok_or (u32_of_u64 account) MissingAccountIdentity) (\<lambda>n.
       ok_or (bt_get identities n) MissingAccountIdentity)"

definition signed_amount :: "i64 \<Rightarrow> (normalization_failure, debit_credit_amount) outcome" where
  "signed_amount cents =
     rbind (if 0 < sint cents then Ok (Debit, cents)
            else rbind (ok_or (if sint cents = - (2 ^ 63) then None else Some (- cents)) NormalizationOther)
                   (\<lambda>m. Ok (Credit, m))) (\<lambda>(side, minor).
       map_err (\<lambda>_. NormalizationOther) (debit_credit_amount_new side minor))"

definition normalized_posting ::
    "accounting_table \<Rightarrow> posting_provenance \<Rightarrow> identity_map \<Rightarrow> enterprise_posting \<Rightarrow>
     (normalization_failure, posting_disposition) outcome" where
  "normalized_posting table provenance identities row =
     rbind (known_account identities (ep_account row)) (\<lambda>account.
     rbind (signed_amount (ep_cents row)) (\<lambda>amount.
     rbind (map_err (\<lambda>_. NormalizationOther)
              (transaction_id_new (''enterprise24-txn-'' @ int_to_string (uint (ep_transaction row))))) (\<lambda>txn.
     rbind (map_err (\<lambda>_. NormalizationOther)
              (posting_id_new (''enterprise24-line-'' @ int_to_string (uint (table_id_of table)) @ ''-''
                               @ int_to_string (uint (ep_target row))))) (\<lambda>line.
     rbind (map_err (\<lambda>_. NormalizationOther)
              (posting_new txn line account (ep_date row) amount Current provenance
                 (Some (transaction_type_label (ep_type row))) None)) (\<lambda>p. Ok (Posting p))))))"

definition normalized_disposition ::
    "accounting_table \<Rightarrow> partial_record \<Rightarrow> adaptation \<Rightarrow> identity_map \<Rightarrow> string \<Rightarrow>
     (normalization_failure, posting_disposition) outcome" where
  "normalized_disposition table record adaptation identities decoder =
     rbind (map_err (\<lambda>_. NormalizationOther) (record_provenance table record decoder)) (\<lambda>provenance.
       case adaptation of
         AdaptedPosting row \<Rightarrow> normalized_posting table provenance identities row
       | AdaptedExclusion exclusion \<Rightarrow>
           rbind (case exclusion of
                    RowNoPost _ _ \<Rightarrow> Ok SourceOrLinkRow
                  | RowMemorized _ _ \<Rightarrow> Ok SourceOrLinkRow
                  | RowSourceOrLink _ _ \<Rightarrow> Ok SourceOrLinkRow
                  | RowZeroVoided _ _ \<Rightarrow> Ok CanonicalZeroVoidedRow
                  | RowZeroAmount _ _ account _ _ \<Rightarrow>
                      rbind (known_account identities account) (\<lambda>_. Ok Decoder_Contract.CanonicalZeroAmount)) (\<lambda>reason.
             Ok (Excluded \<lparr>excl_provenance = provenance, excl_reason = reason\<rparr>)))"

section \<open>Named fields of a Check row\<close>

definition check_partial_value ::
    "partial_record \<Rightarrow> row_schema \<Rightarrow> string \<Rightarrow> (unit, column_def \<times> sql_value) outcome" where
  "check_partial_value record schema name =
     (case filter (\<lambda>c. cd_name c = name) (sch_columns schema) of
        [column] \<Rightarrow>
          rbind (map_err (\<lambda>_. ())
                   (if cd_type column = ColBoolean then boolean_value_by_column_name schema (pd_partial record) name
                    else prefix_value_by_column_name schema (pd_partial record) name)) (\<lambda>v.
          rbind (ok_or v ()) (\<lambda>v. Ok (column, v)))
      | _ \<Rightarrow> Err ())"

definition identifier_types :: "column_type list" where
  "identifier_types = [ColInteger, ColInteger2, ColUInt32, ColUInt64, ColInt64]"

definition check_partial_id :: "partial_record \<Rightarrow> row_schema \<Rightarrow> string \<Rightarrow> (unit, u64) outcome" where
  "check_partial_id record schema name =
     rbind (check_partial_value record schema name) (\<lambda>(column, v).
     rbind (ensure (cd_type column \<in> set identifier_types) ()) (\<lambda>_.
       case v of
         SqlInteger i \<Rightarrow> if 0 < sint i then Ok i else Err ()
       | SqlUnsigned u \<Rightarrow> if u \<noteq> 0 then Ok u else Err ()
       | _ \<Rightarrow> Err ()))"

definition check_partial_date :: "sa_calendar \<Rightarrow> partial_record \<Rightarrow> row_schema \<Rightarrow> string \<Rightarrow> (unit, int) outcome" where
  "check_partial_date cal record schema name =
     rbind (check_partial_value record schema name) (\<lambda>(column, v).
       case v of
         SqlDate raw_minutes \<Rightarrow>
           rbind (ensure (cd_type column = ColDate) ()) (\<lambda>_.
           rbind (map_err (\<lambda>_. ()) (from_raw_minutes (fst cal) (snd cal) raw_minutes)) (\<lambda>date.
             Ok (sint (pd_accounting_date date))))
       | _ \<Rightarrow> Err ())"

definition check_partial_small_int :: "partial_record \<Rightarrow> row_schema \<Rightarrow> string \<Rightarrow> (unit, int) outcome" where
  "check_partial_small_int record schema name =
     rbind (check_partial_value record schema name) (\<lambda>(column, v).
     rbind (ensure (cd_type column = ColSmallInt) ()) (\<lambda>_.
       case v of
         SqlInteger i \<Rightarrow> Ok (sint i)
       | SqlUnsigned u \<Rightarrow> if uint u < 2 ^ 63 then Ok (uint u) else Err ()
       | _ \<Rightarrow> Err ()))"

definition check_partial_bool :: "partial_record \<Rightarrow> row_schema \<Rightarrow> string \<Rightarrow> (unit, bool) outcome" where
  "check_partial_bool record schema name =
     rbind (check_partial_value record schema name) (\<lambda>(column, v).
     rbind (ensure (cd_type column = ColBoolean) ()) (\<lambda>_.
       case v of SqlBoolean b \<Rightarrow> Ok b | _ \<Rightarrow> Err ()))"

definition check_partial_is_null :: "partial_record \<Rightarrow> row_schema \<Rightarrow> string \<Rightarrow> (unit, bool) outcome" where
  "check_partial_is_null record schema name =
     rbind (check_partial_value record schema name) (\<lambda>(_, v). Ok (v = SqlNull))"

definition field_at :: "byte list \<Rightarrow> nat \<Rightarrow> u32 option" where
  "field_at bytes offset = map_option from_le_bytes (get_range bytes offset (offset + 4))"

text \<open>\<open>a? && b?\<close>: the second is read only if the first holds.\<close>

definition r_and :: "('e, bool) outcome \<Rightarrow> ('e, bool) outcome \<Rightarrow> ('e, bool) outcome" where
  "r_and a b = rbind a (\<lambda>x. if x then b else Ok False)"

definition r_not :: "('e, bool) outcome \<Rightarrow> ('e, bool) outcome" where
  "r_not a = rbind a (\<lambda>x. Ok (\<not> x))"

section \<open>Compact source rows\<close>

record compact_source =
  sl64_target :: u64
  sl64_transaction :: u64
  sl64_date :: int
  sl64_next :: u64
  sl64_sibling :: u64

definition compact_check_source_link ::
    "sa_calendar \<Rightarrow> partial_record \<Rightarrow> row_schema \<Rightarrow> (unit, compact_source option) outcome" where
  "compact_check_source_link cal record schema =
     (let bytes = pd_bytes record in
      if length bytes \<noteq> 151 \<or> declared_len bytes \<noteq> length bytes \<or> get_at bytes 2 \<noteq> Some 0 \<or> get_at bytes 3 \<noteq> Some 0x64
      then Ok None
      else
        rbind (check_partial_id record schema ''target_id'') (\<lambda>target.
        rbind (check_partial_id record schema ''transaction_id'') (\<lambda>transaction.
        rbind (check_partial_id record schema ''next_target_id'') (\<lambda>next_target.
        rbind (check_partial_id record schema ''sibling_account_id'') (\<lambda>sibling.
        rbind (check_partial_date cal record schema ''transaction_date'') (\<lambda>date.
        rbind (r_and (Ok (field_at bytes 0x0c = u32_of_u64 target))
              (r_and (Ok (field_at bytes 0x10 = u32_of_u64 transaction))
              (r_and (check_partial_is_null record schema ''account_id'')
              (r_and (check_partial_is_null record schema ''amount_amt'')
              (r_and (rbind (check_partial_small_int record schema ''transaction_view_type'') (\<lambda>n. Ok (n = 3)))
              (r_and (r_not (check_partial_bool record schema ''is_source_bool''))
              (r_and (r_not (check_partial_bool record schema ''is_no_post_bool''))
              (r_and (r_not (check_partial_bool record schema ''is_memorized_transaction_bool''))
              (r_and (check_partial_bool record schema ''is_split_bool'')
                     (Ok (target \<noteq> transaction \<and> target \<noteq> next_target))))))))))) (\<lambda>admitted.
        rbind (ensure admitted ()) (\<lambda>_.
          Ok (Some \<lparr>sl64_target = target, sl64_transaction = transaction, sl64_date = date, sl64_next = next_target,
                    sl64_sibling = sibling\<rparr>)))))))))"

section \<open>Observations of a table\<close>

definition check_adaptation_target :: "adaptation \<Rightarrow> (unit, u64) outcome" where
  "check_adaptation_target a =
     (case a of
        AdaptedPosting row \<Rightarrow> Ok (ep_target row)
      | AdaptedExclusion (RowZeroAmount target _ _ _ _) \<Rightarrow> Ok target
      | AdaptedExclusion (RowNoPost target _) \<Rightarrow> Ok target
      | AdaptedExclusion (RowMemorized target _) \<Rightarrow> Ok target
      | AdaptedExclusion (RowSourceOrLink target _) \<Rightarrow> Ok target
      | AdaptedExclusion (RowZeroVoided _ _) \<Rightarrow> Err ())"

record observed_checks =
  oc_observations :: "adaptation option list"
  oc_sources :: "(nat \<times> compact_source) list"
  oc_carriers :: "(nat, void_companion) btree"
  oc_carrier_counts :: "(u64, int) btree"
  oc_carrier_targets :: "u64 list"
  oc_targets :: "u64 list"

definition observe_check ::
    "sa_calendar \<Rightarrow> row_schema \<Rightarrow> (partial_record \<Rightarrow> (unit, adaptation) outcome) \<Rightarrow> nat \<times> partial_record \<Rightarrow>
     observed_checks \<Rightarrow> (unit, observed_checks) outcome" where
  "observe_check cal schema adapt ir st =
     (case ir of (i, record) \<Rightarrow>
        rbind (attempt (void_companion_parse (pd_bytes record))) (\<lambda>carrier.
        case carrier of
          Some c \<Rightarrow>
            let master = ucast (vc_master c); target = ucast (vc_target c) in
            rbind (ensure (target \<noteq> master \<and> target \<notin> set (oc_carrier_targets st) \<and> target \<notin> set (oc_targets st)) ()) (\<lambda>_.
              Ok (st\<lparr>oc_carrier_targets := insort_insert target (oc_carrier_targets st),
                     oc_targets := insort_insert target (oc_targets st),
                     oc_carrier_counts := bt_add master 1 (oc_carrier_counts st),
                     oc_carriers := bt_insert i c (oc_carriers st),
                     oc_observations := oc_observations st @ [None]\<rparr>))
        | None \<Rightarrow>
            if length (pd_bytes record) = 151 \<and> get_at (pd_bytes record) 3 = Some 0x64 then
              rbind (compact_check_source_link cal record schema) (\<lambda>link.
              rbind (ok_or link ()) (\<lambda>source.
              rbind (ensure (sl64_target source \<notin> set (oc_targets st)) ()) (\<lambda>_.
                Ok (st\<lparr>oc_targets := insort_insert (sl64_target source) (oc_targets st),
                       oc_sources := oc_sources st @ [(i, source)],
                       oc_observations := oc_observations st @ [None]\<rparr>))))
            else
              rbind (adapt record) (\<lambda>a.
              rbind (check_adaptation_target a) (\<lambda>target.
              rbind (ensure (target \<notin> set (oc_targets st)) ()) (\<lambda>_.
                Ok (st\<lparr>oc_targets := insort_insert target (oc_targets st),
                       oc_observations := oc_observations st @ [Some a]\<rparr>))))))"

definition retained_postings :: "adaptation option list \<Rightarrow> (u64, u64 \<times> int \<times> u64) btree" where
  "retained_postings observations =
     fold (\<lambda>a m. case a of
             Some (AdaptedPosting row) \<Rightarrow> bt_insert (ep_target row) (ep_transaction row, ep_date row, ep_account row) m
           | _ \<Rightarrow> m) observations []"

text \<open>Whether the sibling account of a source is in its family; a line on another date is an error.\<close>

definition sibling_step :: "compact_source \<Rightarrow> adaptation option \<Rightarrow> bool \<Rightarrow> (unit, bool) outcome" where
  "sibling_step source a present =
     (let seen = (\<lambda>master date account.
            if master = sl64_transaction source
            then rbind (ensure (date = sl64_date source) ()) (\<lambda>_. Ok (present \<or> account = sl64_sibling source))
            else Ok present) in
      case a of
        Some (AdaptedPosting row) \<Rightarrow> seen (ep_transaction row) (ep_date row) (ep_account row)
      | Some (AdaptedExclusion (RowZeroAmount _ transaction account date _)) \<Rightarrow> seen transaction date account
      | _ \<Rightarrow> Ok present)"

definition known_number :: "identity_map \<Rightarrow> u64 \<Rightarrow> bool" where
  "known_number identities n =
     (case u32_of_u64 n of Some w \<Rightarrow> bt_get identities w \<noteq> None | None \<Rightarrow> False)"

definition admit_source ::
    "identity_map \<Rightarrow> (u64, u64 \<times> int \<times> u64) btree \<Rightarrow> nat \<times> compact_source \<Rightarrow> u64 list \<times> adaptation option list \<Rightarrow>
     (unit, u64 list \<times> adaptation option list) outcome" where
  "admit_source identities retained is st =
     (case is of (i, source) \<Rightarrow> case st of (next_targets, observations) \<Rightarrow>
        rbind (ok_or (bt_get retained (sl64_next source)) ()) (\<lambda>(transaction, date, account).
        rbind (ensure (transaction = sl64_transaction source \<and> date = sl64_date source \<and> account \<noteq> sl64_sibling source
                       \<and> known_number identities account \<and> known_number identities (sl64_sibling source)
                       \<and> sl64_next source \<notin> set next_targets) ()) (\<lambda>_.
        rbind (rfold (sibling_step source) observations False) (\<lambda>sibling_present.
        rbind (ensure sibling_present ()) (\<lambda>_.
          Ok (insort_insert (sl64_next source) next_targets,
              observations[i := Some (AdaptedExclusion (RowSourceOrLink (sl64_target source) (sl64_transaction source)))]))))))"

record master_observation =
  mo_zero_targets :: "u64 list"
  mo_nonzero_count :: nat
  mo_nonzero_net :: int

definition master_at :: "(u64, master_observation) btree \<Rightarrow> u64 \<Rightarrow> master_observation" where
  "master_at masters m =
     (case bt_get masters m of
        Some o' \<Rightarrow> o' | None \<Rightarrow> \<lparr>mo_zero_targets = [], mo_nonzero_count = 0, mo_nonzero_net = 0\<rparr>)"

definition tally_master ::
    "adaptation option \<Rightarrow> u64 list \<times> (u64, master_observation) btree \<Rightarrow>
     (unit, u64 list \<times> (u64, master_observation) btree) outcome" where
  "tally_master a st =
     (case st of (targets, masters) \<Rightarrow>
        let monetary = (\<lambda>target masters.
              rbind (ensure (target \<notin> set targets) ()) (\<lambda>_. Ok (insort_insert target targets, masters))) in
        case a of
          None \<Rightarrow> Ok st
        | Some (AdaptedPosting row) \<Rightarrow>
            let m = master_at masters (ep_transaction row) in
            monetary (ep_target row)
              (bt_insert (ep_transaction row)
                 (m\<lparr>mo_nonzero_count := mo_nonzero_count m + 1, mo_nonzero_net := mo_nonzero_net m + sint (ep_cents row)\<rparr>)
                 masters)
        | Some (AdaptedExclusion (RowZeroAmount target transaction _ _ _)) \<Rightarrow>
            let m = master_at masters transaction in
            monetary target
              (bt_insert transaction (m\<lparr>mo_zero_targets := insort_insert target (mo_zero_targets m)\<rparr>) masters)
        | Some (AdaptedExclusion (RowZeroVoided _ _)) \<Rightarrow> Err ()
        | Some (AdaptedExclusion _) \<Rightarrow> Ok st)"

definition carrier_evidence ::
    "(u64, master_observation) btree \<Rightarrow> u64 \<Rightarrow> (u64, void_evidence) btree \<Rightarrow> (unit, (u64, void_evidence) btree) outcome" where
  "carrier_evidence masters master evidence =
     rbind (ok_or (bt_get masters master) ()) (\<lambda>m.
     rbind (ensure (length (mo_zero_targets m) = 2 \<and> mo_nonzero_count m = 0) ()) (\<lambda>_.
       Ok (bt_insert master \<lparr>canonical_zero_e4_row_count = 2, nonzero_posting_row_count = 0\<rparr> evidence)))"

definition check_companion_disposition ::
    "partial_record \<Rightarrow> void_companion \<Rightarrow> (u64, void_evidence) btree \<Rightarrow> string \<Rightarrow> (unit, posting_disposition) outcome" where
  "check_companion_disposition record carrier evidence decoder =
     (let master_evidence =
            (case bt_get evidence (ucast (vc_master carrier)) of
               Some e \<Rightarrow> e | None \<Rightarrow> \<lparr>canonical_zero_e4_row_count = 0, nonzero_posting_row_count = 0\<rparr>) in
      rbind (map_err (\<lambda>_. ()) (classify_void_companion carrier master_evidence)) (\<lambda>_.
        excluded_record CheckLine record decoder SourceOrLinkRow))"

definition check_disposition ::
    "identity_map \<Rightarrow> (nat, void_companion) btree \<Rightarrow> (u64, void_evidence) btree \<Rightarrow> string \<Rightarrow>
     nat \<times> partial_record \<times> adaptation option \<Rightarrow> (unit, posting_disposition) outcome" where
  "check_disposition identities carriers evidence decoder ira =
     (case ira of (i, record, a) \<Rightarrow>
        (case bt_get carriers i of
           Some carrier \<Rightarrow> check_companion_disposition record carrier evidence decoder
         | None \<Rightarrow>
             rbind (ok_or a ()) (\<lambda>a.
               map_err (\<lambda>_. ()) (normalized_disposition CheckLine record a identities decoder))))"

definition prepare_check_dispositions ::
    "sa_calendar \<Rightarrow> table_rows \<Rightarrow> row_schema \<Rightarrow> identity_map \<Rightarrow> (partial_record \<Rightarrow> (unit, adaptation) outcome) \<Rightarrow>
     (unit, posting_disposition list) outcome" where
  "prepare_check_dispositions cal rows schema identities adapt =
     rbind (rfold (observe_check cal schema adapt) (enumerate 0 (tr_records rows))
              \<lparr>oc_observations = [], oc_sources = [], oc_carriers = [], oc_carrier_counts = [], oc_carrier_targets = [],
               oc_targets = []\<rparr>) (\<lambda>st.
     rbind (rfold (admit_source identities (retained_postings (oc_observations st))) (oc_sources st)
              ([], oc_observations st)) (\<lambda>(_, observations).
     rbind (rfold tally_master observations ([], [])) (\<lambda>(targets, masters).
     rbind (ensure (\<not> list_ex (\<lambda>t. t \<in> set (oc_carrier_targets st)) targets
                    \<and> list_all (\<lambda>(_, n). n = 1) (oc_carrier_counts st)
                    \<and> list_all (\<lambda>(_, m). mo_nonzero_net m = 0) masters) ()) (\<lambda>_.
     rbind (rfold (carrier_evidence masters) (bt_keys (oc_carrier_counts st)) []) (\<lambda>evidence.
       rmap (check_disposition identities (oc_carriers st) evidence (po_version (tr_policy rows)))
         (enumerate 0 (zip (tr_records rows) observations)))))))"

section \<open>The two strategies\<close>

definition adapt_check_observation ::
    "sa_calendar \<Rightarrow> row_schema \<Rightarrow> partial_record \<Rightarrow> (unit, adaptation) outcome" where
  "adapt_check_observation cal schema record =
     (case check_posting_parse (pd_bytes record) of
        Ok row \<Rightarrow> map_err (\<lambda>_. ()) (adapt_check_row cal row)
      | Err (CheckUnattestedEnvelope _) \<Rightarrow>
          rbind (map_err (\<lambda>_. ()) (adapt_enterprise_posting_row_partial cal CheckLine schema (pd_partial record))) (\<lambda>a.
            case a of
              AdaptedExclusion (RowZeroAmount target transaction account date ty) \<Rightarrow>
                let bytes = pd_bytes record in
                rbind (ensure (0x55 \<le> length bytes \<and> declared_len bytes = length bytes \<and> get_at bytes 2 = Some 0
                               \<and> get_at bytes 3 = Some 0xe4 \<and> get_range bytes 0x53 0x55 = Some [0, 0x81]) ()) (\<lambda>_.
                rbind (ensure (field_at bytes 0x0c = u32_of_u64 target \<and> field_at bytes 0x10 = u32_of_u64 transaction
                               \<and> field_at bytes 0x14 = u32_of_u64 account) ()) (\<lambda>_.
                rbind (ok_or (field_at bytes 0x18) ()) (\<lambda>raw_date.
                rbind (map_err (\<lambda>_. ()) (from_raw_bits (fst cal) (snd cal) raw_date)) (\<lambda>physical.
                rbind (ensure (sint (pd_accounting_date physical) = date \<and> ty = TypeCheck) ()) (\<lambda>_.
                rbind (ok_or (field_at bytes 0x22) ()) (\<lambda>source.
                rbind (if source = 0 then rbind (ok_or (field_at bytes 0x1e) ()) (\<lambda>n. ensure (n \<noteq> 0) ()) else Ok ()) (\<lambda>_.
                  Ok a)))))))
            | _ \<Rightarrow> Err ())
      | Err _ \<Rightarrow> Err ()
      | Panic \<Rightarrow> Panic)"

definition try_materialized_check_dispositions ::
    "sa_calendar \<Rightarrow> table_rows \<Rightarrow> row_schema \<Rightarrow> identity_map \<Rightarrow> (unit, posting_disposition list) outcome" where
  "try_materialized_check_dispositions cal rows schema identities =
     prepare_check_dispositions cal rows schema identities (adapt_check_observation cal schema)"

definition try_partial_check_dispositions ::
    "sa_calendar \<Rightarrow> table_rows \<Rightarrow> row_schema \<Rightarrow> identity_map \<Rightarrow> (unit, posting_disposition list) outcome" where
  "try_partial_check_dispositions cal rows schema identities =
     prepare_check_dispositions cal rows schema identities
       (\<lambda>record. map_err (\<lambda>_. ()) (adapt_enterprise_posting_row_partial cal CheckLine schema (pd_partial record)))"

end
