(* ===== verification/Pipeline_Families.thy ===== *)
theory Pipeline_Families
  imports Pipeline_Checks
begin

text \<open>
  What \<open>enterprise24_accounting_pipeline.rs\<close> demands of complete Deposit and Bill families before any
  of their rows is normalized: the two header topologies of deposits, balances of transactions, and
  the zero families.
\<close>

section \<open>Fields of a Deposit row\<close>

definition deposit_partial_value :: "partial_record \<Rightarrow> row_schema \<Rightarrow> string \<Rightarrow> (unit, sql_value) outcome" where
  "deposit_partial_value record schema name =
     rbind (map_err (\<lambda>_. ()) (prefix_value_by_column_name schema (pd_partial record) name)) (\<lambda>v. ok_or v ())"

definition deposit_partial_id :: "partial_record \<Rightarrow> row_schema \<Rightarrow> string \<Rightarrow> (unit, u64) outcome" where
  "deposit_partial_id record schema name =
     rbind (ok_or (find (\<lambda>c. cd_name c = name) (sch_columns schema)) ()) (\<lambda>column.
     rbind (ensure (cd_type column \<in> set identifier_types) ()) (\<lambda>_.
     rbind (deposit_partial_value record schema name) (\<lambda>v.
       case v of
         SqlUnsigned u \<Rightarrow> if u \<noteq> 0 then Ok u else Err ()
       | SqlInteger i \<Rightarrow> if 0 < sint i then Ok i else Err ()
       | _ \<Rightarrow> Err ())))"

definition deposit_partial_bool :: "partial_record \<Rightarrow> row_schema \<Rightarrow> string \<Rightarrow> (unit, bool) outcome" where
  "deposit_partial_bool record schema name =
     rbind (map_err (\<lambda>_. ()) (boolean_value_by_column_name schema (pd_partial record) name)) (\<lambda>v.
     rbind (ok_or v ()) (\<lambda>v. case v of SqlBoolean b \<Rightarrow> Ok b | _ \<Rightarrow> Err ()))"

definition deposit_partial_is_null :: "partial_record \<Rightarrow> row_schema \<Rightarrow> string \<Rightarrow> (unit, bool) outcome" where
  "deposit_partial_is_null record schema name = rbind (deposit_partial_value record schema name) (\<lambda>v. Ok (v = SqlNull))"

section \<open>Headers\<close>

definition deposit_header_envelope :: "byte list \<Rightarrow> u8 option" where
  "deposit_header_envelope bytes =
     (case bytes of
        _ # _ # flags # kind # _ \<Rightarrow>
          if declared_len bytes = length bytes \<and> flags = 0 \<and> (kind = 0x70 \<or> kind = 0x71) then Some kind else None
      | _ \<Rightarrow> None)"

definition deposit_header_fields_match :: "partial_record \<Rightarrow> row_schema \<Rightarrow> bool \<Rightarrow> (unit, bool) outcome" where
  "deposit_header_fields_match record schema expected_split =
     r_and (deposit_partial_is_null record schema ''account_id'')
     (r_and (deposit_partial_is_null record schema ''amount_amt'')
     (r_and (r_not (deposit_partial_bool record schema ''is_source_bool''))
     (r_and (r_not (deposit_partial_bool record schema ''is_no_post_bool''))
     (r_and (r_not (deposit_partial_bool record schema ''is_memorized_transaction_bool''))
       (rbind (deposit_partial_bool record schema ''is_split_bool'') (\<lambda>b. Ok (b = expected_split)))))))"

text \<open>Rows carry their index, which stands for the identity of the reference (\<open>ptr::eq\<close>).\<close>

type_synonym indexed_record = "nat \<times> partial_record"

definition group_deposits ::
    "row_schema \<Rightarrow> indexed_record \<Rightarrow> u64 list \<times> (u64, indexed_record list) btree \<Rightarrow>
     (unit, u64 list \<times> (u64, indexed_record list) btree) outcome" where
  "group_deposits schema ir st =
     (case st of (targets, groups) \<Rightarrow>
        rbind (deposit_partial_id (snd ir) schema ''target_id'') (\<lambda>target.
        rbind (ensure (target \<notin> set targets) ()) (\<lambda>_.
        rbind (deposit_partial_id (snd ir) schema ''transaction_id'') (\<lambda>transaction.
          Ok (insort_insert target targets,
              bt_insert transaction ((case bt_get groups transaction of Some g \<Rightarrow> g | None \<Rightarrow> []) @ [ir]) groups)))))"

definition adapted_sibling ::
    "sa_calendar \<Rightarrow> row_schema \<Rightarrow> indexed_record \<Rightarrow> (unit, partial_record \<times> enterprise_posting) outcome" where
  "adapted_sibling cal schema ir =
     rbind (map_err (\<lambda>_. ()) (adapt_enterprise_posting_row_partial cal DepositLine schema (pd_partial (snd ir)))) (\<lambda>a.
       case a of AdaptedPosting p \<Rightarrow> Ok (snd ir, p) | _ \<Rightarrow> Err ())"

definition header_70_topology ::
    "sa_calendar \<Rightarrow> row_schema \<Rightarrow> nat \<Rightarrow> indexed_record list \<Rightarrow> (unit, unit) outcome" where
  "header_70_topology cal schema header grp =
     rbind (ensure (length grp = 4) ()) (\<lambda>_.
     rbind (rmap (adapted_sibling cal schema) (filter (\<lambda>ir. fst ir \<noteq> header) grp)) (\<lambda>adapted.
       ensure (length (filter (\<lambda>(r, p). get_at (pd_bytes r) 3 = Some 0xe1 \<and> ep_is_source p = Some True
                  \<and> ep_is_split p = Some True) adapted) = 1
               \<and> length (filter (\<lambda>(r, p). get_at (pd_bytes r) 3 = Some 0xf1 \<and> ep_is_source p = Some False
                  \<and> ep_is_split p = Some True) adapted) = 2
               \<and> sum_list (map (\<lambda>(_, p). sint (ep_cents p)) adapted) = 0) ()))"

definition is_source_or_link :: "(adapter_error, adaptation) outcome \<Rightarrow> bool" where
  "is_source_or_link r = (case r of Ok (AdaptedExclusion (RowSourceOrLink _ _)) \<Rightarrow> True | _ \<Rightarrow> False)"

definition header_71_topology ::
    "sa_calendar \<Rightarrow> row_schema \<Rightarrow> nat \<Rightarrow> indexed_record list \<Rightarrow> (unit, unit) outcome" where
  "header_71_topology cal schema header grp =
     rbind (ensure (length grp = 2) ()) (\<lambda>_.
     rbind (ok_or (find (\<lambda>ir. fst ir \<noteq> header) grp) ()) (\<lambda>(_, sibling).
     rbind (r_and (Ok (get_at (pd_bytes sibling) 3 = Some 0xe1))
           (r_and (deposit_partial_bool sibling schema ''is_source_bool'')
           (r_and (r_not (deposit_partial_bool sibling schema ''is_split_bool''))
           (r_and (deposit_partial_is_null sibling schema ''amount_amt'')
           (r_and (r_not (deposit_partial_is_null sibling schema ''account_id''))
              (Ok (is_source_or_link (adapt_enterprise_posting_row_partial cal DepositLine schema (pd_partial sibling))))))))) (\<lambda>b.
       ensure b ())))"

definition header_of_group ::
    "sa_calendar \<Rightarrow> row_schema \<Rightarrow> indexed_record list \<Rightarrow> (u64 \<times> u16) list \<Rightarrow> (unit, (u64 \<times> u16) list) outcome" where
  "header_of_group cal schema grp headers =
     (case filter (\<lambda>ir. deposit_header_envelope (pd_bytes (snd ir)) \<noteq> None) grp of
        [] \<Rightarrow> Ok headers
      | [(header, record)] \<Rightarrow>
          rbind (ok_or (deposit_header_envelope (pd_bytes record)) ()) (\<lambda>kind.
          rbind (if kind = 0x70 then Ok True else if kind = 0x71 then Ok False else Err ()) (\<lambda>expected_split.
          rbind (deposit_header_fields_match record schema expected_split) (\<lambda>fields_match.
          rbind (ensure fields_match ()) (\<lambda>_.
          rbind (if kind = 0x70 \<and> length (pd_bytes record) = 108 then header_70_topology cal schema header grp
                 else if kind = 0x71 \<and> length (pd_bytes record) = 112 then header_71_topology cal schema header grp
                 else Err ()) (\<lambda>_.
            Ok (insort_insert (pd_page record, pd_record record) headers))))))
      | _ \<Rightarrow> Err ())"

definition deposit_nonposting_header_record_ids ::
    "sa_calendar \<Rightarrow> partial_record list \<Rightarrow> row_schema \<Rightarrow> (unit, (u64 \<times> u16) list) outcome" where
  "deposit_nonposting_header_record_ids cal rows schema =
     rbind (rfold (group_deposits schema) (enumerate 0 rows) ([], [])) (\<lambda>(_, groups).
       rfold (header_of_group cal schema) (bt_values groups) [])"

datatype deposit_validation_error = DepositAdaptation | DepositUnbalanced

definition skip_headers :: "(u64 \<times> u16) list \<Rightarrow> partial_record \<Rightarrow> bool" where
  "skip_headers headers record \<longleftrightarrow> (pd_page record, pd_record record) \<in> set headers"

definition tally_deposit ::
    "sa_calendar \<Rightarrow> row_schema \<Rightarrow> (u64 \<times> u16) list \<Rightarrow> partial_record \<Rightarrow> (u64, int) btree \<Rightarrow>
     (deposit_validation_error, (u64, int) btree) outcome" where
  "tally_deposit cal schema headers record balances =
     (if skip_headers headers record then Ok balances
      else
        rbind (map_err (\<lambda>_. DepositAdaptation)
                 (adapt_enterprise_posting_row_partial cal DepositLine schema (pd_partial record))) (\<lambda>a.
          Ok (case a of
                AdaptedPosting p \<Rightarrow> bt_add (ep_transaction p) (sint (ep_cents p)) balances
              | AdaptedExclusion _ \<Rightarrow> balances)))"

definition validate_deposit_master_balances ::
    "sa_calendar \<Rightarrow> partial_record list \<Rightarrow> row_schema \<Rightarrow> (u64 \<times> u16) list \<Rightarrow> (deposit_validation_error, unit) outcome" where
  "validate_deposit_master_balances cal rows schema headers =
     rbind (rfold (tally_deposit cal schema headers) rows []) (\<lambda>balances.
       ensure (list_all (\<lambda>b. b = 0) (bt_values balances)) DepositUnbalanced)"

definition deposit_nonposting_header_disposition :: "partial_record \<Rightarrow> string \<Rightarrow> (unit, posting_disposition) outcome" where
  "deposit_nonposting_header_disposition record decoder = excluded_record DepositLine record decoder SourceOrLinkRow"

section \<open>Bill families\<close>

definition bill_lifecycle_step ::
    "row_schema \<Rightarrow> partial_record \<Rightarrow> (u32, bool \<times> bool) btree \<Rightarrow> (unit, (u32, bool \<times> bool) btree) outcome" where
  "bill_lifecycle_step schema record states =
     rbind (map_err (\<lambda>_. ()) (bill_posting_parse (pd_bytes record))) (\<lambda>row.
     rbind (ok_or (named_bool schema (pd_partial record) ''is_no_post_bool'') ()) (\<lambda>no_post.
     rbind (ok_or (named_bool schema (pd_partial record) ''is_memorized_transaction_bool'') ()) (\<lambda>memorized.
     rbind (ensure (case bt_get states (bp_master row) of Some prior \<Rightarrow> prior = (no_post, memorized) | None \<Rightarrow> True) ()) (\<lambda>_.
       Ok (bt_insert (bp_master row) (no_post, memorized) states)))))"

definition bill_lifecycle_states ::
    "partial_record list \<Rightarrow> row_schema option \<Rightarrow> (unit, (u32, bool \<times> bool) btree) outcome" where
  "bill_lifecycle_states records schema =
     (if records = [] then Ok []
      else rbind (ok_or schema ()) (\<lambda>schema. rfold (bill_lifecycle_step schema) records []))"

definition group_bill ::
    "partial_record \<Rightarrow> u32 list \<times> (u32, bill_posting list) btree \<Rightarrow> (unit, u32 list \<times> (u32, bill_posting list) btree) outcome" where
  "group_bill record st =
     (case st of (targets, families) \<Rightarrow>
        rbind (map_err (\<lambda>_. ()) (bill_posting_parse (pd_bytes record))) (\<lambda>row.
        rbind (ensure (bp_target row \<notin> set targets) ()) (\<lambda>_.
          Ok (insort_insert (bp_target row) targets,
              bt_insert (bp_master row) ((case bt_get families (bp_master row) of Some f \<Rightarrow> f | None \<Rightarrow> []) @ [row]) families))))"

definition bill_date :: "sa_calendar \<Rightarrow> bill_posting \<Rightarrow> (unit, posting_date) outcome" where
  "bill_date cal row = map_err (\<lambda>_. ()) (from_raw_bits (fst cal) (snd cal) (bp_date_raw row))"

definition bill_zero_family :: "sa_calendar \<Rightarrow> bill_posting list \<Rightarrow> (unit, unit) outcome" where
  "bill_zero_family cal family =
     (case filter bp_canonical_zero family of
        [] \<Rightarrow> Ok ()
      | zero # _ \<Rightarrow>
          rbind (bill_date cal zero) (\<lambda>date.
          rbind (ok_or (bill_transaction_kind_of zero) ()) (\<lambda>kind.
          rbind (rfold (\<lambda>row net.
                     rbind (bill_date cal row) (\<lambda>d.
                     rbind (ensure (d = date \<and> bill_transaction_kind_of row = Some kind) ()) (\<lambda>_.
                       Ok (if bp_canonical_zero row then net else net + sint (bp_signed_cents row))))) family 0) (\<lambda>net.
            ensure (net = 0) ()))))"

definition validate_bill_zero_families :: "sa_calendar \<Rightarrow> partial_record list \<Rightarrow> (unit, unit) outcome" where
  "validate_bill_zero_families cal rows =
     rbind (rfold group_bill rows ([], [])) (\<lambda>(_, families).
       rfold (\<lambda>family _. bill_zero_family cal family) (bt_values families) ())"

section \<open>Zero families of prefix-decoded tables\<close>

definition tally_deposit_line ::
    "sa_calendar \<Rightarrow> row_schema \<Rightarrow> (u64 \<times> u16) list \<Rightarrow> partial_record \<Rightarrow>
     u64 list \<times> (u64, (int \<times> int \<times> bool) list) btree \<Rightarrow> (unit, u64 list \<times> (u64, (int \<times> int \<times> bool) list) btree) outcome" where
  "tally_deposit_line cal schema headers record st =
     (if skip_headers headers record then Ok st
      else
        rbind (map_err (\<lambda>_. ()) (adapt_enterprise_posting_row_partial cal DepositLine schema (pd_partial record))) (\<lambda>a.
        let push = (\<lambda>target master line.
              rbind (ensure (target \<notin> set (fst st)) ()) (\<lambda>_.
                Ok (insort_insert target (fst st),
                    bt_insert master ((case bt_get (snd st) master of Some f \<Rightarrow> f | None \<Rightarrow> []) @ [line]) (snd st)))) in
        case a of
          AdaptedPosting p \<Rightarrow> push (ep_target p) (ep_transaction p) (ep_date p, sint (ep_cents p), False)
        | AdaptedExclusion (RowZeroAmount target master _ date _) \<Rightarrow> push target master (date, 0, True)
        | AdaptedExclusion (RowZeroVoided _ _) \<Rightarrow> Err ()
        | AdaptedExclusion _ \<Rightarrow> Ok st))"

definition deposit_family_ok :: "(int \<times> int \<times> bool) list \<Rightarrow> bool" where
  "deposit_family_ok family \<longleftrightarrow>
     (if list_ex (\<lambda>(_, _, zero). zero) family
      then (case family of
              (first, _, _) # _ \<Rightarrow>
                list_all (\<lambda>(date, _, _). date = first) family \<and> sum_list (map (\<lambda>(_, amount, _). amount) family) = 0
            | [] \<Rightarrow> True)
      else True)"

definition validate_deposit_zero_families ::
    "sa_calendar \<Rightarrow> partial_record list \<Rightarrow> row_schema \<Rightarrow> (u64 \<times> u16) list \<Rightarrow> (unit, unit) outcome" where
  "validate_deposit_zero_families cal rows schema headers =
     rbind (rfold (tally_deposit_line cal schema headers) rows ([], [])) (\<lambda>(_, families).
       ensure (list_all deposit_family_ok (bt_values families)) ())"

definition tally_zero_line ::
    "sa_calendar \<Rightarrow> accounting_table \<Rightarrow> row_schema \<Rightarrow> (u64 \<times> u16) list \<Rightarrow> partial_record \<Rightarrow>
     u64 list \<times> (u64, nat \<times> nat) btree \<Rightarrow> (unit, u64 list \<times> (u64, nat \<times> nat) btree) outcome" where
  "tally_zero_line cal table schema headers record st =
     (if skip_headers headers record then Ok st
      else
        rbind (map_err (\<lambda>_. ()) (adapt_enterprise_posting_row_partial cal table schema (pd_partial record))) (\<lambda>a.
        let push = (\<lambda>target master zero.
              rbind (ensure (target \<notin> set (fst st)) ()) (\<lambda>_.
                let (zeros, nonzeros) = (case bt_get (snd st) master of Some e \<Rightarrow> e | None \<Rightarrow> (0, 0)) in
                Ok (insort_insert target (fst st),
                    bt_insert master (if zero then (zeros + 1, nonzeros) else (zeros, nonzeros + 1)) (snd st)))) in
        case a of
          AdaptedPosting p \<Rightarrow> push (ep_target p) (ep_transaction p) False
        | AdaptedExclusion (RowZeroAmount target master _ _ _) \<Rightarrow> push target master True
        | AdaptedExclusion (RowZeroVoided target master) \<Rightarrow> push target master True
        | AdaptedExclusion _ \<Rightarrow> Ok st))"

definition validate_partial_zero_families ::
    "sa_calendar \<Rightarrow> accounting_table \<Rightarrow> partial_record list \<Rightarrow> row_schema \<Rightarrow> (u64 \<times> u16) list \<Rightarrow> (unit, unit) outcome" where
  "validate_partial_zero_families cal table rows schema headers =
     (if table = DepositLine then validate_deposit_zero_families cal rows schema headers
      else
        rbind (rfold (tally_zero_line cal table schema headers) rows ([], [])) (\<lambda>(_, families).
          ensure (list_all (\<lambda>(zeros, nonzeros). zeros = 0 \<or> nonzeros = 0) (bt_values families)) ()))"

end
