(* ===== verification/Pipeline_Build.thy ===== *)
theory Pipeline_Build
  imports Pipeline_Families
begin

text \<open>
  The pipeline of \<open>crates/openqbw/src/enterprise24_accounting_pipeline.rs\<close>: coverage of every required
  table, two passes over the accounts, the dispositions of every posting table, and a ledger only when
  nothing blocked it.
\<close>

section \<open>Blockers\<close>

datatype blocker =
    BlockUnsupportedTable u32
  | BlockManifest
  | BlockSchemaStorage u32
  | BlockIncompleteCoverage u32
  | BlockDuplicateCoverage u32
  | BlockPolicyMismatch u32 u32
  | BlockDuplicateAccount u32
  | BlockAccount u64 u16
  | BlockPosting u32 u64 u16
  | BlockAccountIdentity u32 u64 u16
  | BlockUnbalancedMasters u32
  | BlockStrategyRejected u32
  | BlockLedgerContract

text \<open>The derived order: the variants in the order of the source, then their fields.\<close>

fun blocker_key :: "blocker \<Rightarrow> nat \<times> nat \<times> nat \<times> nat" where
  "blocker_key (BlockUnsupportedTable t) = (0, unat t, 0, 0)"
| "blocker_key BlockManifest = (1, 0, 0, 0)"
| "blocker_key (BlockSchemaStorage t) = (2, unat t, 0, 0)"
| "blocker_key (BlockIncompleteCoverage t) = (3, unat t, 0, 0)"
| "blocker_key (BlockDuplicateCoverage t) = (4, unat t, 0, 0)"
| "blocker_key (BlockPolicyMismatch p c) = (5, unat p, unat c, 0)"
| "blocker_key (BlockDuplicateAccount n) = (6, unat n, 0, 0)"
| "blocker_key (BlockAccount page record) = (7, unat page, unat record, 0)"
| "blocker_key (BlockPosting t page record) = (8, unat t, unat page, unat record)"
| "blocker_key (BlockAccountIdentity t page record) = (9, unat t, unat page, unat record)"
| "blocker_key (BlockUnbalancedMasters t) = (10, unat t, 0, 0)"
| "blocker_key (BlockStrategyRejected t) = (11, unat t, 0, 0)"
| "blocker_key BlockLedgerContract = (12, 0, 0, 0)"

lemma blocker_key_inj: "blocker_key a = blocker_key b \<Longrightarrow> a = b"
  by (cases a; cases b) (simp_all add: word_unat_eq_iff)

instantiation blocker :: linorder
begin
definition less_eq_blocker :: "blocker \<Rightarrow> blocker \<Rightarrow> bool" where
  "less_eq_blocker a b \<longleftrightarrow> blocker_key a \<le> blocker_key b"
definition less_blocker :: "blocker \<Rightarrow> blocker \<Rightarrow> bool" where
  "less_blocker a b \<longleftrightarrow> blocker_key a < blocker_key b"
instance
  by standard (auto simp: less_eq_blocker_def less_blocker_def intro: blocker_key_inj)
end

record pipeline_diagnostics =
  pg_tables :: "(u32, table_coverage) btree"
  pg_account_candidates :: nat
  pg_normalized_accounts :: nat
  pg_excluded_accounts :: nat
  pg_posting_candidates :: nat
  pg_normalized_postings :: nat
  pg_excluded_postings :: nat
  pg_blockers :: "blocker list"

record pipeline_result =
  px_diagnostics :: pipeline_diagnostics
  px_ledger :: "ledger option"

definition no_diagnostics :: pipeline_diagnostics where
  "no_diagnostics =
     \<lparr>pg_tables = [], pg_account_candidates = 0, pg_normalized_accounts = 0, pg_excluded_accounts = 0,
      pg_posting_candidates = 0, pg_normalized_postings = 0, pg_excluded_postings = 0, pg_blockers = []\<rparr>"

definition block :: "blocker \<Rightarrow> pipeline_diagnostics \<Rightarrow> pipeline_diagnostics" where
  "block b d = d\<lparr>pg_blockers := pg_blockers d @ [b]\<rparr>"

text \<open>\<open>sort\<close> and \<open>dedup\<close>.\<close>

definition settle_blockers :: "pipeline_diagnostics \<Rightarrow> pipeline_diagnostics" where
  "settle_blockers d = d\<lparr>pg_blockers := remdups_adj (sort (pg_blockers d))\<rparr>"

definition rejected_result :: "pipeline_diagnostics \<Rightarrow> pipeline_result" where
  "rejected_result d = \<lparr>px_diagnostics = settle_blockers (block BlockLedgerContract d), px_ledger = None\<rparr>"

section \<open>Coverage of the tables\<close>

definition add_table_coverage :: "u32 \<Rightarrow> table_coverage \<Rightarrow> pipeline_diagnostics \<Rightarrow> pipeline_diagnostics" where
  "add_table_coverage policy_table coverage d =
     (if policy_table \<noteq> tv_table coverage then block (BlockPolicyMismatch policy_table (tv_table coverage)) d
      else if bt_get (pg_tables d) (tv_table coverage) \<noteq> None then block (BlockDuplicateCoverage (tv_table coverage)) d
      else d\<lparr>pg_tables := bt_insert (tv_table coverage) coverage (pg_tables d)\<rparr>)"

definition add_rows_coverage :: "table_rows \<Rightarrow> pipeline_diagnostics \<Rightarrow> pipeline_diagnostics" where
  "add_rows_coverage rows d = add_table_coverage (table_id_of (po_table (tr_policy rows))) (tr_coverage rows) d"

definition check_policy_coverage ::
    "(u32, row_schema) btree \<Rightarrow> table_policy \<Rightarrow> pipeline_diagnostics \<Rightarrow> pipeline_diagnostics" where
  "check_policy_coverage schemas policy d =
     (let t = table_id_of (po_table policy) in
      case bt_get (pg_tables d) t of
        None \<Rightarrow> block (BlockUnsupportedTable t) d
      | Some coverage \<Rightarrow>
          let d = (if po_status policy \<noteq> PolicyPartial then block (BlockUnsupportedTable t) d
                   else if \<not> coverage_complete coverage then block (BlockIncompleteCoverage t) d else d) in
          (case (po_storage policy, bt_get schemas t) of
             (Some _, Some schema) \<Rightarrow>
               if \<not> policy_schema_matches policy schema then block (BlockSchemaStorage t) d else d
           | _ \<Rightarrow> d))"

section \<open>Accounts\<close>

definition account_identity_step ::
    "partial_record \<Rightarrow> identity_map \<times> pipeline_diagnostics \<Rightarrow> (unit, identity_map \<times> pipeline_diagnostics) outcome" where
  "account_identity_step record st =
     (case st of (identities, d) \<Rightarrow>
        let failed = (identities, block (BlockAccount (pd_page record) (pd_record record)) d) in
        rbind (attempt (account_row_parse (pd_bytes record))) (\<lambda>parsed.
        case parsed of
          None \<Rightarrow> Ok failed
        | Some identity \<Rightarrow>
            (case account_id_new (ordinary_list_id identity) of
               Ok i \<Rightarrow>
                 let n = ar_record_number identity in
                 if bt_get identities n \<noteq> None then Ok (identities, block (BlockDuplicateAccount n) d)
                 else Ok (bt_insert n i identities, d)
             | _ \<Rightarrow> Ok failed)))"

definition account_step ::
    "(column_type \<Rightarrow> u16) \<Rightarrow> row_schema \<Rightarrow> identity_map \<Rightarrow> partial_record \<Rightarrow> account list \<times> pipeline_diagnostics \<Rightarrow>
     (unit, account list \<times> pipeline_diagnostics) outcome" where
  "account_step domain_number schema identities record st =
     (case st of (accounts, d) \<Rightarrow>
        rbind (attempt (account_row_parse (pd_bytes record))) (\<lambda>parsed.
        case parsed of
          None \<Rightarrow> Ok st
        | Some identity \<Rightarrow>
            (case decode_schema_account_row_partial domain_number (pd_partial record) schema identity False
                    (bt_get identities) resolve_account_type18 of
               Ok (Some row) \<Rightarrow> Ok (accounts @ [sa_account row], d)
             | Ok None \<Rightarrow> Ok (accounts, d\<lparr>pg_excluded_accounts := pg_excluded_accounts d + 1\<rparr>)
             | Err _ \<Rightarrow> Ok (accounts, block (BlockAccount (pd_page record) (pd_record record)) d)
             | Panic \<Rightarrow> Panic)))"

section \<open>Dispositions\<close>

type_synonym pipeline_state = "posting_disposition list \<times> pipeline_diagnostics"

definition push_disposition :: "posting_disposition \<Rightarrow> pipeline_state \<Rightarrow> pipeline_state" where
  "push_disposition x st =
     (fst st @ [x],
      (case x of
         Posting _ \<Rightarrow> (snd st)\<lparr>pg_normalized_postings := pg_normalized_postings (snd st) + 1\<rparr>
       | Excluded _ \<Rightarrow> (snd st)\<lparr>pg_excluded_postings := pg_excluded_postings (snd st) + 1\<rparr>))"

definition block_st :: "blocker \<Rightarrow> pipeline_state \<Rightarrow> pipeline_state" where
  "block_st b st = (fst st, block b (snd st))"

definition count_candidates :: "nat \<Rightarrow> pipeline_state \<Rightarrow> pipeline_state" where
  "count_candidates n st = (fst st, (snd st)\<lparr>pg_posting_candidates := pg_posting_candidates (snd st) + n\<rparr>)"

definition record_failed :: "accounting_table \<Rightarrow> partial_record \<Rightarrow> blocker" where
  "record_failed table record = BlockPosting (table_id_of table) (pd_page record) (pd_record record)"

text \<open>The arms that settle one normalized disposition.\<close>

definition settle_disposition ::
    "accounting_table \<Rightarrow> partial_record \<Rightarrow> (normalization_failure, posting_disposition) outcome \<Rightarrow> pipeline_state \<Rightarrow>
     (unit, pipeline_state) outcome" where
  "settle_disposition table record r st =
     (case r of
        Ok x \<Rightarrow> Ok (push_disposition x st)
      | Err MissingAccountIdentity \<Rightarrow>
          Ok (block_st (BlockAccountIdentity (table_id_of table) (pd_page record) (pd_record record)) st)
      | Err NormalizationOther \<Rightarrow> Ok (block_st (record_failed table record) st)
      | Panic \<Rightarrow> Panic)"

text \<open>A record whose adaptation failed is a blocker; one that adapted is normalized and settled.\<close>

definition settle_adaptation ::
    "accounting_table \<Rightarrow> identity_map \<Rightarrow> string \<Rightarrow> partial_record \<Rightarrow> ('e, adaptation) outcome \<Rightarrow> pipeline_state \<Rightarrow>
     (unit, pipeline_state) outcome" where
  "settle_adaptation table identities version record r st =
     (case r of
        Ok a \<Rightarrow> settle_disposition table record (normalized_disposition table record a identities version) st
      | Err _ \<Rightarrow> Ok (block_st (record_failed table record) st)
      | Panic \<Rightarrow> Panic)"

section \<open>General Journal\<close>

definition journal_balances :: "disposition list \<Rightarrow> (u64, int) btree" where
  "journal_balances carriers =
     fold (\<lambda>c m. case c of PostingRow p \<Rightarrow> bt_add (ucast (jp_master p)) (sint (jp_signed_cents p)) m | _ \<Rightarrow> m) carriers []"

definition journal_record ::
    "sa_calendar \<Rightarrow> identity_map \<Rightarrow> string \<Rightarrow> partial_record \<times> disposition \<Rightarrow> pipeline_state \<Rightarrow>
     (unit, pipeline_state) outcome" where
  "journal_record cal identities version rc st =
     (case rc of (record, carrier) \<Rightarrow>
        let table = GeneralJournalLine; st = count_candidates 1 st in
        case carrier of
          PostingRow row \<Rightarrow>
            (case adapt_journal_row cal row of
               Ok a \<Rightarrow>
                 (case normalized_disposition table record a identities version of
                    Ok x \<Rightarrow> Ok (push_disposition x st)
                  | Err _ \<Rightarrow> Ok (block_st (record_failed table record) st)
                  | Panic \<Rightarrow> Panic)
             | Err _ \<Rightarrow> Ok (block_st (record_failed table record) st)
             | Panic \<Rightarrow> Panic)
        | _ \<Rightarrow>
            (case excluded_record table record version
                    (case carrier of Journal_Classes.CanonicalZeroAmount _ \<Rightarrow> Decoder_Contract.CanonicalZeroAmount
                     | _ \<Rightarrow> SourceOrLinkRow) of
               Ok x \<Rightarrow> Ok (push_disposition x st)
             | Err _ \<Rightarrow> Ok (block_st (record_failed table record) st)
             | Panic \<Rightarrow> Panic))"

definition journal_table ::
    "sa_calendar \<Rightarrow> identity_map \<Rightarrow> header_witness list \<Rightarrow> table_rows \<Rightarrow> pipeline_state \<Rightarrow> (unit, pipeline_state) outcome" where
  "journal_table cal identities witnesses rows st =
     (let t = table_id_of GeneralJournalLine in
      case classify_with_header_witnesses cal (map pd_bytes (tr_records rows)) witnesses of
        Panic \<Rightarrow> Panic
      | Err _ \<Rightarrow> Ok (block_st (BlockPosting t 0 0) st)
      | Ok carriers \<Rightarrow>
          if length carriers \<noteq> length (tr_records rows) then Ok (block_st (BlockPosting t 0 0) st)
          else
            let st = (if list_ex (\<lambda>b. b \<noteq> 0) (bt_values (journal_balances carriers))
                      then block_st (BlockUnbalancedMasters t) st else st) in
            rfold (journal_record cal identities (po_version (tr_policy rows))) (zip (tr_records rows) carriers) st)"

section \<open>Checks\<close>

definition check_table ::
    "sa_calendar \<Rightarrow> identity_map \<Rightarrow> (u32, row_schema) btree \<Rightarrow> table_rows \<Rightarrow> pipeline_state \<Rightarrow>
     (unit, pipeline_state) outcome" where
  "check_table cal identities schemas rows st =
     (let t = table_id_of CheckLine;
          selected = rbind (ok_or (bt_get schemas t) ()) (\<lambda>schema.
             case try_materialized_check_dispositions cal rows schema identities of
               Err _ \<Rightarrow> try_partial_check_dispositions cal rows schema identities
             | r \<Rightarrow> r);
          st = count_candidates (length (tr_records rows)) st in
      case selected of
        Ok xs \<Rightarrow> Ok (fold push_disposition xs st)
      | Err _ \<Rightarrow>
          Ok (fold (\<lambda>record. block_st (record_failed CheckLine record)) (tr_records rows)
                (block_st (BlockStrategyRejected t) st))
      | Panic \<Rightarrow> Panic)"

section \<open>Bills\<close>

definition bill_balance_step ::
    "partial_record \<Rightarrow> (u64, int) btree \<times> pipeline_state \<Rightarrow> (unit, (u64, int) btree \<times> pipeline_state) outcome" where
  "bill_balance_step record bs =
     (case bs of (balances, st) \<Rightarrow>
        rbind (attempt (bill_posting_parse (pd_bytes record))) (\<lambda>parsed.
          Ok (case parsed of
                Some row \<Rightarrow>
                  (if \<not> bp_canonical_zero row then bt_add (ucast (bp_master row)) (sint (bp_signed_cents row)) balances
                   else balances, st)
              | None \<Rightarrow> (balances, block_st (record_failed BillLine record) st))))"

definition bill_adaptation ::
    "sa_calendar \<Rightarrow> identity_map \<Rightarrow> (u32, bool \<times> bool) btree \<Rightarrow> partial_record \<Rightarrow> (unit, adaptation) outcome" where
  "bill_adaptation cal identities lifecycle record =
     rbind (map_err (\<lambda>_. ()) (bill_posting_parse (pd_bytes record))) (\<lambda>row.
     rbind (map_err (\<lambda>_. ()) (adapt_bill_row cal row)) (\<lambda>a.
     rbind (ensure (bt_get identities (bp_account row) \<noteq> None) ()) (\<lambda>_.
     rbind (ok_or (bt_get lifecycle (bp_master row)) ()) (\<lambda>(no_post, memorized).
       Ok (if no_post then AdaptedExclusion (RowNoPost (ucast (bp_target row)) (ucast (bp_master row)))
           else if memorized then AdaptedExclusion (RowMemorized (ucast (bp_target row)) (ucast (bp_master row)))
           else a)))))"

definition bill_table ::
    "sa_calendar \<Rightarrow> identity_map \<Rightarrow> (u32, row_schema) btree \<Rightarrow> table_rows \<Rightarrow> pipeline_state \<Rightarrow>
     (unit, pipeline_state) outcome" where
  "bill_table cal identities schemas rows st =
     (let t = table_id_of BillLine; records = tr_records rows in
      rbind (attempt (bill_lifecycle_states records (bt_get schemas t))) (\<lambda>states.
      case states of
        None \<Rightarrow> Ok (block_st (BlockStrategyRejected t) st)
      | Some lifecycle \<Rightarrow>
          rbind (attempt (validate_bill_zero_families cal records)) (\<lambda>valid.
          if valid = None then Ok (block_st (BlockStrategyRejected t) st)
          else
            rbind (rfold bill_balance_step records ([], st)) (\<lambda>(balances, st).
            let st = (if list_ex (\<lambda>b. b \<noteq> 0) (bt_values balances) then block_st (BlockUnbalancedMasters t) st else st) in
            rfold (\<lambda>record st.
                settle_adaptation BillLine identities (po_version (tr_policy rows)) record
                  (bill_adaptation cal identities lifecycle record) (count_candidates 1 st)) records st))))"

section \<open>Prefix-decoded tables\<close>

definition prefix_record ::
    "sa_calendar \<Rightarrow> identity_map \<Rightarrow> accounting_table \<Rightarrow> row_schema \<Rightarrow> string \<Rightarrow> partial_record \<Rightarrow> pipeline_state \<Rightarrow>
     (unit, pipeline_state) outcome" where
  "prefix_record cal identities table schema version record st =
     settle_adaptation table identities version record
       (adapt_enterprise_posting_row_partial cal table schema (pd_partial record)) (count_candidates 1 st)"

definition deposit_record ::
    "sa_calendar \<Rightarrow> identity_map \<Rightarrow> row_schema \<Rightarrow> (u64 \<times> u16) list \<Rightarrow> string \<Rightarrow> partial_record \<Rightarrow> pipeline_state \<Rightarrow>
     (unit, pipeline_state) outcome" where
  "deposit_record cal identities schema headers version record st =
     (if skip_headers headers record then
        (case deposit_nonposting_header_disposition record version of
           Ok x \<Rightarrow> Ok (push_disposition x (count_candidates 1 st))
         | Err _ \<Rightarrow> Ok (block_st (record_failed DepositLine record) (count_candidates 1 st))
         | Panic \<Rightarrow> Panic)
      else prefix_record cal identities DepositLine schema version record st)"

definition deposit_table ::
    "sa_calendar \<Rightarrow> identity_map \<Rightarrow> row_schema \<Rightarrow> table_rows \<Rightarrow> pipeline_state \<Rightarrow> (unit, pipeline_state) outcome" where
  "deposit_table cal identities schema rows st =
     (let t = table_id_of DepositLine; records = tr_records rows in
      rbind (attempt (deposit_nonposting_header_record_ids cal records schema)) (\<lambda>found.
      case found of
        None \<Rightarrow> Ok (block_st (BlockPosting t 0 0) st)
      | Some headers \<Rightarrow>
          rbind (attempt (validate_partial_zero_families cal DepositLine records schema headers)) (\<lambda>valid.
          if valid = None then Ok (block_st (BlockStrategyRejected t) st)
          else
            (case validate_deposit_master_balances cal records schema headers of
               Err DepositAdaptation \<Rightarrow> Ok (block_st (BlockPosting t 0 0) st)
             | Err DepositUnbalanced \<Rightarrow> Ok (block_st (BlockUnbalancedMasters t) st)
             | Panic \<Rightarrow> Panic
             | Ok _ \<Rightarrow>
                 rfold (deposit_record cal identities schema headers (po_version (tr_policy rows))) records st))))"

definition posting_table ::
    "sa_calendar \<Rightarrow> identity_map \<Rightarrow> (u32, row_schema) btree \<Rightarrow> header_witness list \<Rightarrow> table_rows \<Rightarrow> pipeline_state \<Rightarrow>
     (unit, pipeline_state) outcome" where
  "posting_table cal identities schemas witnesses rows st =
     (let table = po_table (tr_policy rows); t = table_id_of table; records = tr_records rows in
      if \<not> is_posting_table table \<or> po_status (tr_policy rows) = PolicyUnsupported then Ok st
      else if table = GeneralJournalLine then journal_table cal identities witnesses rows st
      else if table = CheckLine then check_table cal identities schemas rows st
      else if table = BillLine then bill_table cal identities schemas rows st
      else
        case bt_get schemas t of
          None \<Rightarrow> Ok (block_st (BlockIncompleteCoverage t) st)
        | Some schema \<Rightarrow>
            rbind (if table = BillPaymentCheckLine
                   then attempt (validate_partial_zero_families cal table records schema []) else Ok (Some ())) (\<lambda>valid.
            if valid = None then Ok (block_st (BlockStrategyRejected t) st)
            else if table = DepositLine then deposit_table cal identities schema rows st
            else rfold (prefix_record cal identities table schema (po_version (tr_policy rows))) records st))"

section \<open>The pipeline\<close>

definition hand_over ::
    "source_snapshot_id \<Rightarrow> account list \<Rightarrow> posting_disposition list \<Rightarrow> pipeline_diagnostics \<Rightarrow>
     (decoder_contract_error, ledger) outcome" where
  "hand_over snapshot accounts dispositions d =
     rbind (case complete_coverage_new (word_of_nat (pg_normalized_accounts d)) (word_of_nat (pg_normalized_accounts d)) of
              Ok c \<Rightarrow> Ok c | _ \<Rightarrow> Panic) (\<lambda>account_coverage.
     rbind (case complete_coverage_new (word_of_nat (pg_posting_candidates d)) (word_of_nat (pg_posting_candidates d)) of
              Ok c \<Rightarrow> Ok c | _ \<Rightarrow> Panic) (\<lambda>posting_coverage.
     rbind (case decoder_identity_new ''enterprise24-r21-account-pipeline-v1'' of Ok i \<Rightarrow> Ok i | _ \<Rightarrow> Panic) (\<lambda>account_decoder.
     rbind (decoded_accounts_new snapshot account_decoder accounts account_coverage) (\<lambda>decoded_accounts.
     rbind (case decoder_identity_new ''enterprise24-r21-posting-pipeline-v1'' of Ok i \<Rightarrow> Ok i | _ \<Rightarrow> Panic) (\<lambda>posting_decoder.
     rbind (decoded_postings_new snapshot posting_decoder dispositions posting_coverage) (\<lambda>decoded_postings.
       ledger_adapter_build decoded_accounts decoded_postings))))))"

definition finish_pipeline ::
    "source_snapshot_id \<Rightarrow> account list \<Rightarrow> posting_disposition list \<Rightarrow> pipeline_diagnostics \<Rightarrow>
     (unit, pipeline_result) outcome" where
  "finish_pipeline snapshot accounts dispositions d =
     (let d = settle_blockers d in
      if pg_blockers d \<noteq> [] then Ok \<lparr>px_diagnostics = d, px_ledger = None\<rparr>
      else case hand_over snapshot accounts dispositions d of
        Ok ledger \<Rightarrow> Ok \<lparr>px_diagnostics = d, px_ledger = Some ledger\<rparr>
      | Err _ \<Rightarrow> Ok (rejected_result d)
      | Panic \<Rightarrow> Panic)"

definition pipeline_coverage ::
    "sys_column list \<Rightarrow> table_rows \<Rightarrow> table_rows list \<Rightarrow> (u32, row_schema) btree \<Rightarrow> pipeline_diagnostics" where
  "pipeline_coverage columns account_rows posting_rows schemas =
     (let d = (case validate_r21_schema_manifest columns of Ok _ \<Rightarrow> no_diagnostics | _ \<Rightarrow> block BlockManifest no_diagnostics);
          d = fold add_rows_coverage (account_rows # posting_rows) d in
      fold (check_policy_coverage schemas) r21_policies d)"

definition build_pipeline_with_header_witnesses ::
    "sa_calendar \<Rightarrow> (column_type \<Rightarrow> u16) \<Rightarrow> source_snapshot_id \<Rightarrow> sys_column list \<Rightarrow> table_rows \<Rightarrow> table_rows list \<Rightarrow>
     (u32, row_schema) btree \<Rightarrow> header_witness list \<Rightarrow> (unit, pipeline_result) outcome" where
  "build_pipeline_with_header_witnesses cal domain_number snapshot columns account_rows posting_rows schemas witnesses =
     (let d = pipeline_coverage columns account_rows posting_rows schemas; t = table_id_of AccountUser in
      case bt_get schemas t of
        None \<Rightarrow> Ok \<lparr>px_diagnostics = block (BlockIncompleteCoverage t) d, px_ledger = None\<rparr>
      | Some account_schema \<Rightarrow>
          let d = d\<lparr>pg_account_candidates := length (tr_records account_rows)\<rparr> in
          rbind (rfold account_identity_step (tr_records account_rows) ([], d)) (\<lambda>(identities, d).
          rbind (rfold (account_step domain_number account_schema identities) (tr_records account_rows) ([], d)) (\<lambda>(accounts, d).
          let d = d\<lparr>pg_normalized_accounts := length accounts\<rparr> in
          rbind (rfold (posting_table cal identities schemas witnesses) posting_rows ([], d)) (\<lambda>(dispositions, d).
            finish_pipeline snapshot accounts dispositions d))))"

definition build_pipeline ::
    "sa_calendar \<Rightarrow> (column_type \<Rightarrow> u16) \<Rightarrow> source_snapshot_id \<Rightarrow> sys_column list \<Rightarrow> table_rows \<Rightarrow> table_rows list \<Rightarrow>
     (u32, row_schema) btree \<Rightarrow> (unit, pipeline_result) outcome" where
  "build_pipeline cal domain_number snapshot columns account_rows posting_rows schemas =
     build_pipeline_with_header_witnesses cal domain_number snapshot columns account_rows posting_rows schemas []"

end
