(* ===== verification/Pipeline_Balance.thy ===== *)
theory Pipeline_Balance
  imports Pipeline_Build Native_Balance_Facts Journal_Class_Properties "HOL-Library.Sublist"
begin

text \<open>
  What the pipeline keeps from one table to the next: blockers are only added, and while none is
  added every row of a posting table becomes exactly one disposition with the provenance of the row.
  In the tables that are checked for balance the postings of a transaction sum to zero.
\<close>

section \<open>Progress over rows\<close>

text \<open>A row of a posting table with the decoder label its dispositions carry.\<close>

type_synonym row_origin = "accounting_table \<times> string \<times> partial_record"

definition settled_as :: "row_origin \<Rightarrow> posting_disposition \<Rightarrow> bool" where
  "settled_as row x \<longleftrightarrow>
     (case row of (table, version, record) \<Rightarrow> record_provenance table record version = Ok (disposition_provenance x))"

definition is_normalized :: "posting_disposition \<Rightarrow> bool" where
  "is_normalized x \<longleftrightarrow> (case x of Posting _ \<Rightarrow> True | Excluded _ \<Rightarrow> False)"

definition settled_part :: "pipeline_diagnostics \<Rightarrow> (u32, table_coverage) btree \<times> nat \<times> nat \<times> nat" where
  "settled_part d = (pg_tables d, pg_account_candidates d, pg_normalized_accounts d, pg_excluded_accounts d)"

definition grows :: "pipeline_state \<Rightarrow> pipeline_state \<Rightarrow> bool" where
  "grows st st' \<longleftrightarrow>
     settled_part (snd st') = settled_part (snd st) \<and> prefix (pg_blockers (snd st)) (pg_blockers (snd st'))"

definition settles :: "row_origin list \<Rightarrow> posting_disposition list \<Rightarrow> pipeline_state \<Rightarrow> pipeline_state \<Rightarrow> bool" where
  "settles rows xs st st' \<longleftrightarrow>
     fst st' = fst st @ xs \<and> list_all2 settled_as rows xs
     \<and> pg_posting_candidates (snd st') = pg_posting_candidates (snd st) + length rows
     \<and> pg_normalized_postings (snd st') = pg_normalized_postings (snd st) + length (filter is_normalized xs)
     \<and> pg_excluded_postings (snd st') = pg_excluded_postings (snd st) + length (filter (Not \<circ> is_normalized) xs)"

definition advances ::
    "(posting_disposition list \<Rightarrow> bool) \<Rightarrow> row_origin list \<Rightarrow> pipeline_state \<Rightarrow> pipeline_state \<Rightarrow> bool" where
  "advances P rows st st' \<longleftrightarrow>
     grows st st' \<and> (pg_blockers (snd st') = pg_blockers (snd st) \<longrightarrow> (\<exists>xs. settles rows xs st st' \<and> P xs))"

lemma grows_refl [simp]: "grows st st"
  by (simp add: grows_def)

lemma grows_trans: "grows st st' \<Longrightarrow> grows st' st'' \<Longrightarrow> grows st st''"
  unfolding grows_def by (metis prefix_order.trans)

lemma grows_count [simp]: "grows st (count_candidates n st') \<longleftrightarrow> grows st st'"
  by (simp add: grows_def count_candidates_def settled_part_def)

lemma grows_push [simp]: "grows st (push_disposition x st') \<longleftrightarrow> grows st st'"
  by (simp add: grows_def push_disposition_def settled_part_def split: posting_disposition.split)

lemma grows_block: "grows st st' \<Longrightarrow> grows st (block_st b st')"
  by (simp add: grows_def block_st_def block_def settled_part_def)

lemma grows_block_more: "grows st st' \<Longrightarrow> pg_blockers (snd (block_st b st')) \<noteq> pg_blockers (snd st)"
  by (auto simp: grows_def block_st_def block_def prefix_def)

lemma advances_grows: "advances P rows st st' \<Longrightarrow> grows st st'"
  by (simp add: advances_def)

lemma advances_block: "grows st st' \<Longrightarrow> advances P rows st (block_st b st')"
  using grows_block [of st st' b] grows_block_more [of st st' b] by (simp add: advances_def)

lemma grows_no_blocker:
  "grows st st' \<Longrightarrow> grows st' st'' \<Longrightarrow> pg_blockers (snd st'') = pg_blockers (snd st) \<Longrightarrow>
   pg_blockers (snd st') = pg_blockers (snd st)"
  unfolding grows_def by (metis prefix_order.antisym)

lemma settles_refl: "settles [] [] st st"
  by (simp add: settles_def)

lemma settles_append:
  "settles rows xs st st' \<Longrightarrow> settles rows' xs' st' st'' \<Longrightarrow> settles (rows @ rows') (xs @ xs') st st''"
  by (simp add: settles_def list_all2_appendI)

lemma advances_refl: "P [] \<Longrightarrow> advances P [] st st"
  by (auto simp: advances_def intro: settles_refl)

lemma advances_append:
  assumes "advances P rows st st'" and "advances Q rows' st' st''"
    and "\<And>xs ys. P xs \<Longrightarrow> Q ys \<Longrightarrow> R (xs @ ys)"
  shows "advances R (rows @ rows') st st''"
proof -
  have g: "grows st st'" "grows st' st''" using assms by (simp_all add: advances_def)
  moreover have "\<exists>xs. settles (rows @ rows') xs st st'' \<and> R xs" if none: "pg_blockers (snd st'') = pg_blockers (snd st)"
  proof -
    have same: "pg_blockers (snd st') = pg_blockers (snd st)" using g none by (rule grows_no_blocker)
    with assms(1) obtain xs where "settles rows xs st st'" "P xs" by (auto simp: advances_def)
    moreover obtain ys where "settles rows' ys st' st''" "Q ys" using assms(2) none same by (auto simp: advances_def)
    ultimately show ?thesis using assms(3) settles_append by blast
  qed
  ultimately show ?thesis by (auto simp: advances_def intro: grows_trans)
qed

lemma advances_mono: "advances P rows st st' \<Longrightarrow> (\<And>xs. P xs \<Longrightarrow> Q xs) \<Longrightarrow> advances Q rows st st'"
  by (auto simp: advances_def)

text \<open>Rows one after the other, and what holds of the disposition of each.\<close>

lemma advances_rfold:
  assumes "\<And>x st st'. x \<in> set xs \<Longrightarrow> f x st = Ok st' \<Longrightarrow> advances (list_all2 Q [x]) [origin x] st st'"
  shows "rfold f xs st = Ok st' \<Longrightarrow> advances (list_all2 Q xs) (map origin xs) st st'"
  using assms
proof (induction xs arbitrary: st)
  case Nil
  then show ?case by (simp add: advances_refl)
next
  case (Cons x xs)
  then obtain st1 where "f x st = Ok st1" and rest: "rfold f xs st1 = Ok st'" by (auto simp: outcome_simps)
  then have "advances (list_all2 Q [x]) [origin x] st st1" using Cons.prems by simp
  moreover have "advances (list_all2 Q xs) (map origin xs) st1 st'" using Cons rest by simp
  ultimately have "advances (list_all2 Q (x # xs)) ([origin x] @ map origin xs) st st'"
    by (rule advances_append) (auto simp: list_all2_Cons1)
  then show ?case by simp
qed

lemma advances_tables:
  assumes "\<And>x st st'. x \<in> set xs \<Longrightarrow> f x st = Ok st' \<Longrightarrow> advances P (origins x) st st'"
    and "P []" and "\<And>ys zs. P ys \<Longrightarrow> P zs \<Longrightarrow> P (ys @ zs)"
  shows "rfold f xs st = Ok st' \<Longrightarrow> advances P (concat (map origins xs)) st st'"
  using assms(1)
proof (induction xs arbitrary: st)
  case Nil
  then show ?case by (simp add: advances_refl assms(2))
next
  case (Cons x xs)
  then obtain st1 where "f x st = Ok st1" and rest: "rfold f xs st1 = Ok st'" by (auto simp: outcome_simps)
  then have "advances P (origins x) st st1" using Cons.prems by simp
  moreover have "advances P (concat (map origins xs)) st1 st'" using Cons rest by simp
  ultimately show ?case by (auto intro: advances_append assms(3))
qed

lemma advances_push:
  assumes "settled_as row x" and "P [x]"
  shows "advances P [row] st (push_disposition x (count_candidates (Suc 0) st))"
proof -
  have "settles [row] [x] st (push_disposition x (count_candidates (Suc 0) st))"
    using assms(1)
    by (simp add: settles_def push_disposition_def count_candidates_def is_normalized_def split: posting_disposition.split)
  then show ?thesis using assms(2) by (auto simp: advances_def)
qed

section \<open>One disposition\<close>

lemma excluded_record_Ok:
  "excluded_record table record decoder reason = Ok x \<longleftrightarrow>
     (\<exists>p. record_provenance table record decoder = Ok p \<and> x = Excluded \<lparr>excl_provenance = p, excl_reason = reason\<rparr>)"
  by (auto simp: excluded_record_def outcome_simps)

lemma signed_amount_Ok:
  assumes "signed_amount cents = Ok amount"
  shows "signed_minor_units amount = Ok cents" and "cents \<noteq> 0"
proof -
  obtain side minor where am: "debit_credit_amount_new side minor = Ok amount"
    and sm: "if 0 < sint cents then side = Debit \<and> minor = cents
             else sint cents \<noteq> - (2 ^ 63) \<and> side = Credit \<and> minor = - cents"
    using assms by (auto simp: signed_amount_def outcome_simps split: if_splits)
  obtain w where w: "signed_minor_units amount = Ok w"
    "sint w = (case side of Debit \<Rightarrow> sint minor | Credit \<Rightarrow> - sint minor)"
    using signed_minor_units_valid [OF am] by blast
  have neg: "sint (- cents) = - sint cents" if "sint cents \<noteq> - (2 ^ 63)"
    using sint_word_of_int_range [where 'a = 64, of "- sint cents"] that i64_range [of cents] by simp
  have "sint w = sint cents" using w(2) sm neg by (auto split: if_splits)
  then show "signed_minor_units amount = Ok cents" using w(1) sint_eqI by blast
  show "cents \<noteq> 0" using am sm by (auto simp: debit_credit_amount_new_Ok_iff split: if_splits)
qed

text \<open>The ledger form of one adapted row.\<close>

definition posting_of_row :: "accounting_table \<Rightarrow> enterprise_posting \<Rightarrow> account_id \<Rightarrow> posting_provenance \<Rightarrow> posting" where
  "posting_of_row table row account provenance =
     \<lparr>post_transaction = TransactionId (''enterprise24-txn-'' @ int_to_string (uint (ep_transaction row))),
      post_id = PostingId (''enterprise24-line-'' @ int_to_string (uint (table_id_of table)) @ ''-''
                           @ int_to_string (uint (ep_target row))),
      post_account = account, post_date = ep_date row, post_signed = ep_cents row, post_state = Current,
      post_provenance = provenance, post_type = Some (transaction_type_label (ep_type row)), post_memo = None\<rparr>"

lemma normalized_posting_Ok:
  assumes "normalized_posting table provenance identities row = Ok x"
  shows "\<exists>n account. u32_of_u64 (ep_account row) = Some n \<and> bt_get identities n = Some account
    \<and> x = Posting (posting_of_row table row account provenance) \<and> ep_cents row \<noteq> 0"
proof -
  from assms obtain account amount where a: "known_account identities (ep_account row) = Ok account"
    and m: "signed_amount (ep_cents row) = Ok amount"
    and x: "x = Posting (posting_of_row table row account provenance)"
    using signed_amount_Ok(1)
    by (fastforce simp: normalized_posting_def posting_new_def posting_of_row_def transaction_id_new_def posting_id_new_def
        outcome_simps split: if_splits)
  with signed_amount_Ok(2) [OF m] show ?thesis by (auto simp: known_account_def outcome_simps)
qed

lemma posting_of_row_provenance [simp]: "post_provenance (posting_of_row table row account provenance) = provenance"
  by (simp add: posting_of_row_def)

lemma normalized_disposition_settles:
  assumes "normalized_disposition table record a identities version = Ok x"
  shows "settled_as (table, version, record) x"
proof (cases a)
  case (AdaptedPosting row)
  with assms obtain p where "record_provenance table record version = Ok p" and "normalized_posting table p identities row = Ok x"
    by (auto simp: normalized_disposition_def outcome_simps)
  then show ?thesis using normalized_posting_Ok by (fastforce simp: settled_as_def)
qed (use assms in \<open>auto simp: normalized_disposition_def settled_as_def outcome_simps\<close>)

lemma excluded_record_settles:
  "excluded_record table record version reason = Ok x \<Longrightarrow> settled_as (table, version, record) x"
  by (auto simp: excluded_record_Ok settled_as_def)

section \<open>The amount of a transaction\<close>

definition contribution :: "transaction_id \<Rightarrow> posting_disposition \<Rightarrow> int" where
  "contribution t x =
     (case x of Posting p \<Rightarrow> if post_transaction p = t then sint (post_signed p) else 0 | Excluded _ \<Rightarrow> 0)"

definition transaction_sum :: "transaction_id \<Rightarrow> posting_disposition list \<Rightarrow> int" where
  "transaction_sum t xs = sum_list (map (contribution t) xs)"

definition is_bill_payment :: "posting_disposition \<Rightarrow> bool" where
  "is_bill_payment x \<longleftrightarrow>
     (case x of Posting p \<Rightarrow> post_type p = Some (transaction_type_label TypeBillPaymentCheck) | Excluded _ \<Rightarrow> False)"

text \<open>Only the payments of bills can leave a transaction out of balance.\<close>

definition others_balance :: "posting_disposition list \<Rightarrow> bool" where
  "others_balance xs \<longleftrightarrow> (\<forall>t. transaction_sum t (filter (Not \<circ> is_bill_payment) xs) = 0)"

lemma transaction_sum_append [simp]: "transaction_sum t (xs @ ys) = transaction_sum t xs + transaction_sum t ys"
  by (simp add: transaction_sum_def)

lemma others_balance_Nil [simp]: "others_balance []"
  by (simp add: others_balance_def transaction_sum_def)

lemma others_balance_append: "others_balance xs \<Longrightarrow> others_balance ys \<Longrightarrow> others_balance (xs @ ys)"
  by (simp add: others_balance_def)

definition transaction_number :: "u64 \<Rightarrow> transaction_id" where
  "transaction_number n = TransactionId (''enterprise24-txn-'' @ int_to_string (uint n))"

lemma transaction_number_inject [simp]: "transaction_number m = transaction_number n \<longleftrightarrow> m = n"
proof
  assume "transaction_number m = transaction_number n"
  then have "int_to_string (uint m) = int_to_string (uint n)" by (simp add: transaction_number_def)
  then have "uint m = uint n" by (metis option.inject parse_int_to_string)
  then show "m = n" by (simp only: word_uint_eq_iff)
qed simp

section \<open>What a row contributes\<close>

definition row_amount :: "u64 \<Rightarrow> adaptation \<Rightarrow> int" where
  "row_amount n a =
     (case a of AdaptedPosting row \<Rightarrow> if ep_transaction row = n then sint (ep_cents row) else 0 | AdaptedExclusion _ \<Rightarrow> 0)"

text \<open>The disposition that an adapted row becomes: its posting under a known account, or an exclusion.\<close>

definition disposes :: "accounting_table \<Rightarrow> identity_map \<Rightarrow> adaptation \<Rightarrow> posting_disposition \<Rightarrow> bool" where
  "disposes table identities a x \<longleftrightarrow>
     (case a of
        AdaptedPosting row \<Rightarrow>
          (\<exists>n account provenance. u32_of_u64 (ep_account row) = Some n \<and> bt_get identities n = Some account
             \<and> x = Posting (posting_of_row table row account provenance))
      | AdaptedExclusion _ \<Rightarrow> \<not> is_normalized x)"

lemma normalized_disposition_disposes:
  "normalized_disposition table record a identities version = Ok x \<Longrightarrow> disposes table identities a x"
  by (cases a)
    (force simp: normalized_disposition_def disposes_def is_normalized_def outcome_simps dest!: normalized_posting_Ok)+

lemma contribution_excluded: "\<not> is_normalized x \<Longrightarrow> contribution t x = 0"
  by (simp add: is_normalized_def contribution_def split: posting_disposition.splits)

lemma disposes_contribution:
  assumes "disposes table identities a x"
  shows "contribution (transaction_number n) x = row_amount n a"
    and "(\<And>n. t \<noteq> transaction_number n) \<Longrightarrow> contribution t x = 0"
proof -
  have posting: "contribution t (Posting (posting_of_row table row account provenance)) =
      (if transaction_number (ep_transaction row) = t then sint (ep_cents row) else 0)" for row account provenance t
    by (simp add: contribution_def posting_of_row_def transaction_number_def)
  show "contribution (transaction_number n) x = row_amount n a"
    using assms contribution_excluded by (cases a) (auto simp: disposes_def row_amount_def posting)
  show "contribution t x = 0" if "\<And>n. t \<noteq> transaction_number n"
  proof (cases a)
    case (AdaptedPosting row)
    with assms that [of "ep_transaction row"] show ?thesis by (auto simp: disposes_def posting)
  qed (use assms contribution_excluded in \<open>auto simp: disposes_def\<close>)
qed

text \<open>A row that was set aside without an adaptation counts as an exclusion.\<close>

definition becomes ::
    "accounting_table \<Rightarrow> identity_map \<Rightarrow> adaptation option \<Rightarrow> posting_disposition \<Rightarrow> bool" where
  "becomes table identities a x \<longleftrightarrow>
     (case a of None \<Rightarrow> \<not> is_normalized x
      | Some a \<Rightarrow> disposes table identities a x
          \<and> (case a of AdaptedPosting row \<Rightarrow> (ep_type row = TypeBillPaymentCheck) = (table = BillPaymentCheckLine)
             | AdaptedExclusion _ \<Rightarrow> True))"

definition amount_at :: "u64 \<Rightarrow> adaptation option \<Rightarrow> int" where
  "amount_at n a = (case a of None \<Rightarrow> 0 | Some a \<Rightarrow> row_amount n a)"

lemma becomes_contribution:
  assumes "becomes table identities a x"
  shows "contribution (transaction_number n) x = amount_at n a"
    and "(\<And>n. t \<noteq> transaction_number n) \<Longrightarrow> contribution t x = 0"
  using assms disposes_contribution contribution_excluded
  by (auto simp: becomes_def amount_at_def split: option.splits)

lemma becomes_payment:
  assumes "becomes table identities a x"
  shows "is_bill_payment x \<longleftrightarrow> table = BillPaymentCheckLine \<and> is_normalized x"
proof (cases "\<exists>row. a = Some (AdaptedPosting row)")
  case True
  then obtain row where a: "a = Some (AdaptedPosting row)" by blast
  with assms obtain account provenance where "x = Posting (posting_of_row table row account provenance)"
    and ty: "(ep_type row = TypeBillPaymentCheck) = (table = BillPaymentCheckLine)"
    by (auto simp: becomes_def disposes_def)
  then show ?thesis
    by (cases "ep_type row") (simp_all add: is_bill_payment_def is_normalized_def posting_of_row_def)
next
  case False
  with assms have "\<not> is_normalized x"
    by (auto simp: becomes_def disposes_def split: option.splits adaptation.splits)
  then show ?thesis by (simp add: is_bill_payment_def is_normalized_def split: posting_disposition.splits)
qed

lemma others_balanceI:
  assumes "list_all2 (becomes table identities) as xs"
    and "table \<noteq> BillPaymentCheckLine \<Longrightarrow> (\<And>n. (\<Sum>a\<leftarrow>as. amount_at n a) = 0)"
  shows "others_balance xs"
proof (cases "table = BillPaymentCheckLine")
  case True
  from assms(1) have "contribution t x = 0" if "x \<in> set (filter (Not \<circ> is_bill_payment) xs)" for t x
  proof -
    have "x \<in> set xs" using that by simp
    then obtain i where i: "i < length xs" "xs ! i = x" by (meson in_set_conv_nth)
    have "becomes table identities (as ! i) x" using list_all2_nthD2 [OF assms(1) i(1)] i(2) by simp
    with that True have "\<not> is_normalized x" by (auto simp: becomes_payment)
    then show ?thesis by (rule contribution_excluded)
  qed
  then have "map (contribution t) (filter (Not \<circ> is_bill_payment) xs) = map (\<lambda>_. 0) (filter (Not \<circ> is_bill_payment) xs)" for t
    by (intro map_cong) auto
  then show ?thesis by (simp add: others_balance_def transaction_sum_def del: map_eq_conv)
next
  case False
  have none: "filter (Not \<circ> is_bill_payment) xs = xs"
    using assms(1) False
    by (force simp: filter_id_conv list_all2_conv_all_nth in_set_conv_nth becomes_payment)
  have "transaction_sum t xs = 0" for t
  proof (cases "\<exists>n. t = transaction_number n")
    case True
    then obtain n where t: "t = transaction_number n" by blast
    have "transaction_sum t xs = (\<Sum>a\<leftarrow>as. amount_at n a)"
      using assms(1) by (induction rule: list_all2_induct) (simp_all add: transaction_sum_def t becomes_contribution)
    then show ?thesis using assms(2) [OF False] by simp
  next
    case other: False
    show ?thesis
      using assms(1) by (induction rule: list_all2_induct) (use other in \<open>auto simp: transaction_sum_def becomes_contribution(2)\<close>)
  qed
  then show ?thesis by (simp add: others_balance_def none)
qed

end
