(* ===== verification/Pipeline_Masters.thy ===== *)
theory Pipeline_Masters
  imports Pipeline_Balance
begin

text \<open>
  Every posting table of the pipeline advances over its rows: unless it is blocked, each row becomes
  one disposition in order, and outside the payments of bills every transaction sums to zero.
  Bill and General Journal tables: the lifecycle of a master decides all its rows together, so leaving
  out the excluded masters keeps every transaction in balance.
\<close>

section \<open>Types of adapted rows\<close>

lemma partial_adapter_type:
  "adapt_enterprise_posting_row_partial cal table schema row = Ok (AdaptedPosting p) \<Longrightarrow>
   fixed_for_table table = Some (ep_type p)"
  by (auto simp: adapt_enterprise_posting_row_partial_def outcome_simps split: if_splits prod.splits)

lemma fixed_type_payment:
  "fixed_for_table table = Some ty \<Longrightarrow> (ty = TypeBillPaymentCheck) = (table = BillPaymentCheckLine)"
  by (cases table) auto

lemma becomes_partial:
  assumes "adapt_enterprise_posting_row_partial cal table schema row = Ok a" and "disposes table identities a x"
  shows "becomes table identities (Some a) x"
proof (cases a)
  case (AdaptedPosting p)
  with assms(1) have "fixed_for_table table = Some (ep_type p)" by (auto dest: partial_adapter_type)
  then show ?thesis using assms(2) fixed_type_payment by (simp add: becomes_def AdaptedPosting)
qed (use assms(2) in \<open>simp add: becomes_def\<close>)

lemma adapted_bill_type:
  "adapt_bill_row cal row = Ok (AdaptedPosting p) \<Longrightarrow> ep_type p \<noteq> TypeBillPaymentCheck"
  by (cases "bill_transaction_kind_of row"; cases "the (bill_transaction_kind_of row)")
    (auto simp: adapt_bill_row_def outcome_simps split: if_splits)

lemma adapted_journal_type:
  "adapt_journal_row cal row = Ok (AdaptedPosting p) \<Longrightarrow> ep_type p = TypeGeneralJournal"
  by (auto simp: adapt_journal_row_def outcome_simps split: if_splits)

lemma adapted_check_type: "adapt_check_row cal row = Ok (AdaptedPosting p) \<Longrightarrow> ep_type p = TypeCheck"
  by (auto simp: adapt_check_row_def outcome_simps split: if_splits)

section \<open>Rows settled one at a time\<close>

lemma advances_after_block:
  assumes "grows st s" and "pg_blockers (snd s) \<noteq> pg_blockers (snd st)" and "grows s st'"
  shows "advances P rows st st'"
  using assms grows_no_blocker [OF assms(1,3)] grows_trans by (auto simp: advances_def)

definition table_origins :: "accounting_table \<Rightarrow> string \<Rightarrow> partial_record list \<Rightarrow> row_origin list" where
  "table_origins table version records = map (\<lambda>record. (table, version, record)) records"

lemma settle_disposition_advances:
  assumes "settle_disposition table record (normalized_disposition table record a identities version)
      (count_candidates 1 st) = Ok st'"
  shows "advances (list_all2 (\<lambda>_. disposes table identities a) [record]) [(table, version, record)] st st'"
proof (cases "normalized_disposition table record a identities version")
  case (Ok x)
  with assms have "st' = push_disposition x (count_candidates 1 st)" by (simp add: settle_disposition_def)
  then show ?thesis
    using normalized_disposition_settles [OF Ok] normalized_disposition_disposes [OF Ok] by (auto intro: advances_push)
qed (use assms in \<open>auto simp: settle_disposition_def intro!: advances_block split: normalization_failure.splits\<close>)

lemma settle_adaptation_advances:
  assumes "settle_adaptation table identities version record r (count_candidates 1 st) = Ok st'"
  shows "advances (list_all2 (\<lambda>_ x. \<exists>a. r = Ok a \<and> disposes table identities a x) [record]) [(table, version, record)] st st'"
proof (cases r)
  case (Ok a)
  with assms settle_disposition_advances show ?thesis
    by (fastforce simp: settle_adaptation_def list_all2_Cons1 elim: advances_mono)
qed (use assms in \<open>auto simp: settle_adaptation_def intro!: advances_block\<close>)

lemma prefix_record_advances:
  assumes "prefix_record cal identities table schema version record st = Ok st'"
  shows "advances (list_all2 (\<lambda>record. becomes table identities
      (ok_of (adapt_enterprise_posting_row_partial cal table schema (pd_partial record)))) [record]) [(table, version, record)] st st'"
  using settle_adaptation_advances [OF assms [unfolded prefix_record_def]]
  by (rule advances_mono) (auto simp: list_all2_Cons1 ok_of_def intro: becomes_partial)

text \<open>From what each row becomes to what the table promises.\<close>

lemma advances_table:
  assumes "\<And>r st st'. r \<in> set rows \<Longrightarrow> f r st = Ok st' \<Longrightarrow>
      advances (list_all2 (\<lambda>r x. fine r \<and> becomes table identities (g r) x) [r]) [origin r] st st'"
    and "table \<noteq> BillPaymentCheckLine \<Longrightarrow> list_all fine rows \<Longrightarrow> (\<And>n. (\<Sum>r\<leftarrow>rows. amount_at n (g r)) = 0)"
    and "rfold f rows st = Ok st'"
  shows "advances others_balance (map origin rows) st st'"
proof -
  have "advances (list_all2 (\<lambda>r x. fine r \<and> becomes table identities (g r) x) rows) (map origin rows) st st'"
    by (rule advances_rfold [OF assms(1) assms(3)])
  then show ?thesis
  proof (rule advances_mono)
    fix xs assume all: "list_all2 (\<lambda>r x. fine r \<and> becomes table identities (g r) x) rows xs"
    then have "list_all2 (becomes table identities) (map g rows) xs"
      by (auto simp: list_all2_map1 elim: list_all2_mono)
    then show "others_balance xs"
    proof (rule others_balanceI)
      fix n assume "table \<noteq> BillPaymentCheckLine"
      moreover have "list_all fine rows" using all by (auto simp: list_all2_conv_all_nth list_all_length)
      ultimately have "(\<Sum>r\<leftarrow>rows. amount_at n (g r)) = 0" by (rule assms(2))
      then show "(\<Sum>a\<leftarrow>map g rows. amount_at n a) = 0" by (simp add: comp_def)
    qed
  qed
qed

lemma payment_table_advances:
  assumes "rfold (prefix_record cal identities BillPaymentCheckLine schema version) records st = Ok st'"
  shows "advances others_balance (table_origins BillPaymentCheckLine version records) st st'"
  unfolding table_origins_def
  by (rule advances_table [where fine = "\<lambda>_. True" and table = BillPaymentCheckLine and identities = identities and
        g = "\<lambda>r. ok_of (adapt_enterprise_posting_row_partial cal BillPaymentCheckLine schema (pd_partial r))", OF _ _ assms])
    (simp_all add: prefix_record_advances)

section \<open>Deposits\<close>

lemma tally_fold_get:
  "bt_get (bt_add k x m) k' = (if k' = k then Some ((case bt_get m k of None \<Rightarrow> 0 | Some y \<Rightarrow> y) + x) else bt_get m k')"
  by (simp add: bt_add_def bt_get_insert)

lemma bt_ok_add: "bt_ok m \<Longrightarrow> bt_ok (bt_add k x m)"
  by (simp add: bt_add_def bt_ok_insert)

definition tally_of :: "('k::linorder, int) btree \<Rightarrow> 'k \<Rightarrow> int" where
  "tally_of m k = (case bt_get m k of None \<Rightarrow> 0 | Some x \<Rightarrow> x)"

lemma tally_of_Nil [simp]: "tally_of [] k = 0"
  by (simp add: tally_of_def)

lemma tally_of_add [simp]: "tally_of (bt_add k x m) k' = tally_of m k' + (if k' = k then x else 0)"
  by (simp add: tally_of_def tally_fold_get)

lemma tally_of_zero:
  assumes "bt_ok m" and "list_all (\<lambda>b. b = 0) (bt_values m)"
  shows "tally_of m k = 0"
proof (cases "bt_get m k")
  case (Some x)
  then have "(k, x) \<in> set m" by (rule bt_get_SomeD)
  then have "x \<in> set (bt_values m)" by (force simp: bt_values_def)
  then show ?thesis using assms(2) Some by (simp add: list_all_iff tally_of_def)
qed (simp add: tally_of_def)

definition deposit_row :: "sa_calendar \<Rightarrow> row_schema \<Rightarrow> (u64 \<times> u16) list \<Rightarrow> partial_record \<Rightarrow> adaptation option" where
  "deposit_row cal schema headers record =
     (if skip_headers headers record then None
      else ok_of (adapt_enterprise_posting_row_partial cal DepositLine schema (pd_partial record)))"

lemma deposit_balances:
  assumes "validate_deposit_master_balances cal records schema headers = Ok u"
  shows "(\<Sum>record\<leftarrow>records. amount_at n (deposit_row cal schema headers record)) = 0"
proof -
  obtain balances where fold: "rfold (tally_deposit cal schema headers) records [] = Ok balances"
    and zero: "list_all (\<lambda>b. b = 0) (bt_values balances)"
    using assms by (auto simp: validate_deposit_master_balances_def outcome_simps)
  have step: "bt_ok m' \<and> tally_of m' n = tally_of m n + amount_at n (deposit_row cal schema headers r)"
    if "tally_deposit cal schema headers r m = Ok m'" and "bt_ok m" for r m m'
  proof (cases "skip_headers headers r")
    case False
    with that obtain a where a: "adapt_enterprise_posting_row_partial cal DepositLine schema (pd_partial r) = Ok a"
      and m': "m' = (case a of AdaptedPosting p \<Rightarrow> bt_add (ep_transaction p) (sint (ep_cents p)) m | AdaptedExclusion _ \<Rightarrow> m)"
      by (auto simp: tally_deposit_def outcome_simps)
    have "deposit_row cal schema headers r = Some a" using False a by (simp add: deposit_row_def ok_of_def)
    with m' that(2) show ?thesis by (cases a) (simp_all add: amount_at_def row_amount_def bt_ok_add)
  qed (use that in \<open>simp add: tally_deposit_def deposit_row_def amount_at_def\<close>)
  have "bt_ok balances \<and> tally_of balances n = (\<Sum>record\<leftarrow>records. amount_at n (deposit_row cal schema headers record))"
    by (rule rfold_invariant [OF fold, where I = "\<lambda>rs m. bt_ok m \<and> tally_of m n =
        (\<Sum>record\<leftarrow>rs. amount_at n (deposit_row cal schema headers record))"]) (simp, use step in fastforce)
  with tally_of_zero zero show ?thesis by metis
qed

lemma deposit_record_advances:
  assumes "deposit_record cal identities schema headers version record st = Ok st'"
  shows "advances (list_all2 (\<lambda>record. becomes DepositLine identities (deposit_row cal schema headers record)) [record])
    [(DepositLine, version, record)] st st'"
proof (cases "skip_headers headers record")
  case True
  show ?thesis
  proof (cases "deposit_nonposting_header_disposition record version")
    case (Ok x)
    then have "settled_as (DepositLine, version, record) x" and "\<not> is_normalized x"
      using excluded_record_settles
      by (auto simp: deposit_nonposting_header_disposition_def excluded_record_Ok is_normalized_def)
    with assms Ok True show ?thesis
      by (auto simp: deposit_record_def deposit_row_def becomes_def intro: advances_push)
  qed (use assms True in \<open>auto simp: deposit_record_def intro!: advances_block\<close>)
next
  case False
  with assms have "prefix_record cal identities DepositLine schema version record st = Ok st'" by (simp add: deposit_record_def)
  from prefix_record_advances [OF this] show ?thesis
    by (rule advances_mono) (use False in \<open>simp add: list_all2_Cons1 deposit_row_def\<close>)
qed

lemma deposit_table_cases:
  assumes "deposit_table cal identities schema rows st = Ok st'"
  shows "(\<exists>b. st' = block_st b st)
    \<or> (\<exists>headers u. validate_deposit_master_balances cal (tr_records rows) schema headers = Ok u
         \<and> rfold (deposit_record cal identities schema headers (po_version (tr_policy rows))) (tr_records rows) st = Ok st')"
proof -
  obtain found where f: "(case found of
      None \<Rightarrow> Ok (block_st (BlockPosting (table_id_of DepositLine) 0 0) st)
    | Some headers \<Rightarrow>
        rbind (attempt (validate_partial_zero_families cal DepositLine (tr_records rows) schema headers)) (\<lambda>valid.
        if valid = None then Ok (block_st (BlockStrategyRejected (table_id_of DepositLine)) st)
        else
          (case validate_deposit_master_balances cal (tr_records rows) schema headers of
             Err DepositAdaptation \<Rightarrow> Ok (block_st (BlockPosting (table_id_of DepositLine) 0 0) st)
           | Err DepositUnbalanced \<Rightarrow> Ok (block_st (BlockUnbalancedMasters (table_id_of DepositLine)) st)
           | Panic \<Rightarrow> Panic
           | Ok _ \<Rightarrow>
               rfold (deposit_record cal identities schema headers (po_version (tr_policy rows))) (tr_records rows) st))) = Ok st'"
    using assms unfolding deposit_table_def Let_def rbind_Ok_iff by blast
  show ?thesis
  proof (cases found)
    case (Some headers)
    with f obtain valid :: "unit option" where v: "(if valid = None then Ok (block_st (BlockStrategyRejected (table_id_of DepositLine)) st)
        else
          (case validate_deposit_master_balances cal (tr_records rows) schema headers of
             Err DepositAdaptation \<Rightarrow> Ok (block_st (BlockPosting (table_id_of DepositLine) 0 0) st)
           | Err DepositUnbalanced \<Rightarrow> Ok (block_st (BlockUnbalancedMasters (table_id_of DepositLine)) st)
           | Panic \<Rightarrow> Panic
           | Ok _ \<Rightarrow>
               rfold (deposit_record cal identities schema headers (po_version (tr_policy rows))) (tr_records rows) st)) = Ok st'"
      by (simp only: option.case rbind_Ok_iff) blast
    then show ?thesis
      by (cases "validate_deposit_master_balances cal (tr_records rows) schema headers")
        (auto split: if_splits deposit_validation_error.splits)
  qed (use f in auto)
qed

lemma deposit_table_advances:
  assumes "deposit_table cal identities schema rows st = Ok st'"
  shows "advances others_balance (table_origins DepositLine (po_version (tr_policy rows)) (tr_records rows)) st st'"
proof -
  consider (blocked) b where "st' = block_st b st"
    | (settled) headers u where "validate_deposit_master_balances cal (tr_records rows) schema headers = Ok u"
      and "rfold (deposit_record cal identities schema headers (po_version (tr_policy rows))) (tr_records rows) st = Ok st'"
    using assms deposit_table_cases by metis
  then show ?thesis
  proof cases
    case (settled headers u)
    show ?thesis
      unfolding table_origins_def
      by (rule advances_table [where fine = "\<lambda>_. True" and table = DepositLine and identities = identities and
            g = "deposit_row cal schema headers", OF _ _ settled(2)])
        (simp_all add: deposit_record_advances deposit_balances [OF settled(1)])
  qed (auto intro: advances_block)
qed

section \<open>Masters as transaction numbers\<close>

lemma unat_widen [simp]: "unat (ucast (w :: u32) :: u64) = unat w"
proof -
  have "unat w < 2 ^ 32" using unsigned_less [of w] by simp
  then have "unat w < 2 ^ LENGTH(64)" by simp
  then show ?thesis by (simp only: unsigned_ucast_eq take_bit_nat_eq_self)
qed

lemma widen_u32_inject [simp]: "(ucast (m :: u32) :: u64) = ucast m' \<longleftrightarrow> m = m'"
  by (metis unat_widen word_unat_eq_iff)

lemma narrow_widen [simp]: "(ucast (ucast (m :: u32) :: u64) :: u32) = m"
proof -
  have "unat m < 2 ^ LENGTH(32)" using unsigned_less [of m] by simp
  moreover have "unat (ucast (ucast m :: u64) :: u32) = take_bit LENGTH(32) (unat (ucast m :: u64))"
    by (rule unsigned_ucast_eq)
  ultimately have "unat (ucast (ucast m :: u64) :: u32) = unat m"
    by (simp only: unat_widen take_bit_nat_eq_self)
  then show ?thesis by (simp only: word_unat_eq_iff)
qed

text \<open>If one decision per master selects rows of a balanced table, the selection is balanced.\<close>

lemma selected_sum:
  assumes "\<And>r. r \<in> set rs \<Longrightarrow> f r = (if master r = n \<and> live (master r) then g r else 0)"
    and "(\<Sum>r\<leftarrow>rs. if master r = n then g r else 0) = (0 :: int)"
  shows "(\<Sum>r\<leftarrow>rs. f r) = 0"
proof -
  have "map f rs = map (\<lambda>r. if live n then (if master r = n then g r else 0) else 0) rs"
    using assms(1) by auto
  then have "(\<Sum>r\<leftarrow>rs. f r) = (if live n then \<Sum>r\<leftarrow>rs. if master r = n then g r else 0 else 0)"
    by (simp only:) simp
  with assms(2) show ?thesis by simp
qed

section \<open>Bills\<close>

definition bill_row_amount :: "partial_record \<Rightarrow> int" where
  "bill_row_amount r =
     (case ok_of (bill_posting_parse (pd_bytes r)) of
        Some row \<Rightarrow> if bp_canonical_zero row then 0 else sint (bp_signed_cents row) | None \<Rightarrow> 0)"

definition bill_row_master :: "partial_record \<Rightarrow> u64" where
  "bill_row_master r = (case ok_of (bill_posting_parse (pd_bytes r)) of Some row \<Rightarrow> ucast (bp_master row) | None \<Rightarrow> 0)"

lemma bill_balance_fold:
  assumes "rfold bill_balance_step records ([], st) = Ok (balances, st')"
  shows "grows st st'"
    and "pg_blockers (snd st') = pg_blockers (snd st) \<Longrightarrow> st' = st \<and> bt_ok balances \<and> tally_of balances n = (\<Sum>r\<leftarrow>records. if bill_row_master r = n then bill_row_amount r else 0)"
proof -
  let ?I = "\<lambda>rs (m, s). grows st s \<and> (pg_blockers (snd s) = pg_blockers (snd st) \<longrightarrow> s = st \<and> bt_ok m \<and> tally_of m n = (\<Sum>r\<leftarrow>rs. if bill_row_master r = n then bill_row_amount r else 0))"
  have "?I records (balances, st')"
  proof (rule rfold_invariant [OF assms, where I = ?I])
    show "?I [] ([], st)" by simp
  next
    fix rs r ms ms' assume I: "?I rs ms" and step: "bill_balance_step r ms = Ok ms'"
    obtain m s where ms: "ms = (m, s)" by (cases ms)
    obtain parsed where p: "(attempt (bill_posting_parse (pd_bytes r)) :: (unit, bill_posting option) outcome) = Ok parsed"
      and ms': "ms' = (case parsed of
          Some row \<Rightarrow> (if \<not> bp_canonical_zero row then bt_add (ucast (bp_master row)) (sint (bp_signed_cents row)) m else m, s)
        | None \<Rightarrow> (m, block_st (record_failed BillLine r) s))"
      using step unfolding bill_balance_step_def ms prod.case rbind_Ok_iff outcome.inject by (blast intro: sym)
    show "?I (rs @ [r]) ms'"
    proof (cases parsed)
      case None
      with I show ?thesis using grows_block [of st s] grows_block_more [of st s] by (simp add: ms ms')
    next
      case (Some row)
      then have "bill_posting_parse (pd_bytes r) = Ok row" using p by (auto simp: attempt_def split: outcome.splits)
      then show ?thesis
        using I by (auto simp: ms ms' Some bill_row_amount_def bill_row_master_def ok_of_def bt_ok_add)
    qed
  qed
  then show "grows st st'"
    and "pg_blockers (snd st') = pg_blockers (snd st) \<Longrightarrow> st' = st \<and> bt_ok balances \<and> tally_of balances n = (\<Sum>r\<leftarrow>records. if bill_row_master r = n then bill_row_amount r else 0)"
    by simp_all
qed

text \<open>A row that adapts: an exclusion if its master is not live, its own amount otherwise.\<close>

definition live_master :: "(u32, bool \<times> bool) btree \<Rightarrow> u64 \<Rightarrow> bool" where
  "live_master lifecycle n \<longleftrightarrow> (case bt_get lifecycle (ucast n) of Some (no_post, memorized) \<Rightarrow> \<not> no_post \<and> \<not> memorized | None \<Rightarrow> False)"

definition bill_row :: "sa_calendar \<Rightarrow> identity_map \<Rightarrow> (u32, bool \<times> bool) btree \<Rightarrow> partial_record \<Rightarrow> adaptation option" where
  "bill_row cal identities lifecycle r = ok_of (bill_adaptation cal identities lifecycle r)"

lemma bill_row_Some:
  assumes "bill_row cal identities lifecycle r = Some a"
  shows "amount_at n (Some a) =
      (if bill_row_master r = n \<and> live_master lifecycle (bill_row_master r) then bill_row_amount r else 0)"
    and "a = AdaptedPosting p \<Longrightarrow> ep_type p \<noteq> TypeBillPaymentCheck"
proof -
  obtain row no_post memorized b where row: "bill_posting_parse (pd_bytes r) = Ok row"
    and life: "bt_get lifecycle (bp_master row) = Some (no_post, memorized)"
    and b: "adapt_bill_row cal row = Ok b"
    and a: "a = (if no_post then AdaptedExclusion (RowNoPost (ucast (bp_target row)) (ucast (bp_master row)))
           else if memorized then AdaptedExclusion (RowMemorized (ucast (bp_target row)) (ucast (bp_master row))) else b)"
    using assms by (auto simp: bill_row_def bill_adaptation_def ok_of_def outcome_simps split: outcome.splits)
  have "amount_at n (Some b) = (if ucast (bp_master row) = n then bill_row_amount r else 0)"
    using b by (auto simp: adapt_bill_row_def outcome_simps amount_at_def row_amount_def bill_row_amount_def ok_of_def row
        split: if_splits)
  then show "amount_at n (Some a) =
      (if bill_row_master r = n \<and> live_master lifecycle (bill_row_master r) then bill_row_amount r else 0)"
    by (simp add: a bill_row_master_def ok_of_def row live_master_def life amount_at_def row_amount_def)
  show "a = AdaptedPosting p \<Longrightarrow> ep_type p \<noteq> TypeBillPaymentCheck"
    using a b adapted_bill_type by (auto split: if_splits)
qed

lemma bill_table_cases:
  assumes "bill_table cal identities schemas rows st = Ok st'"
  shows "(\<exists>b. st' = block_st b st)
    \<or> (\<exists>lifecycle balances st1. rfold bill_balance_step (tr_records rows) ([], st) = Ok (balances, st1)
         \<and> rfold (\<lambda>record st. settle_adaptation BillLine identities (po_version (tr_policy rows)) record
                  (bill_adaptation cal identities lifecycle record) (count_candidates 1 st)) (tr_records rows)
             (if list_ex (\<lambda>b. b \<noteq> 0) (bt_values balances)
              then block_st (BlockUnbalancedMasters (table_id_of BillLine)) st1 else st1) = Ok st')"
proof -
  let ?rest = "\<lambda>lifecycle (balances, st1). rfold (\<lambda>record st. settle_adaptation BillLine identities (po_version (tr_policy rows)) record
                  (bill_adaptation cal identities lifecycle record) (count_candidates 1 st)) (tr_records rows)
             (if list_ex (\<lambda>b. b \<noteq> 0) (bt_values balances)
              then block_st (BlockUnbalancedMasters (table_id_of BillLine)) st1 else st1)"
  let ?reject = "Ok (block_st (BlockStrategyRejected (table_id_of BillLine)) st)"
  obtain states where s: "(case states of None \<Rightarrow> ?reject
      | Some lifecycle \<Rightarrow> rbind (attempt (validate_bill_zero_families cal (tr_records rows))) (\<lambda>valid.
          if valid = None then ?reject else rbind (rfold bill_balance_step (tr_records rows) ([], st)) (?rest lifecycle))) = Ok st'"
    using assms unfolding bill_table_def Let_def rbind_Ok_iff by blast
  show ?thesis
  proof (cases states)
    case (Some lifecycle)
    with s obtain valid :: "unit option" where
      "(if valid = None then ?reject else rbind (rfold bill_balance_step (tr_records rows) ([], st)) (?rest lifecycle)) = Ok st'"
      by (simp only: option.case rbind_Ok_iff) blast
    then show ?thesis by (cases "valid = None") (fastforce simp: rbind_Ok_iff)+
  qed (use s in auto)
qed

lemma bill_table_advances:
  assumes "bill_table cal identities schemas rows st = Ok st'"
  shows "advances others_balance (table_origins BillLine (po_version (tr_policy rows)) (tr_records rows)) st st'"
proof -
  let ?rows = "tr_records rows" and ?v = "po_version (tr_policy rows)"
  let ?f = "\<lambda>lifecycle record st. settle_adaptation BillLine identities ?v record
      (bill_adaptation cal identities lifecycle record) (count_candidates 1 st)"
  let ?st = "\<lambda>balances st1. if list_ex (\<lambda>b. b \<noteq> 0) (bt_values balances)
      then block_st (BlockUnbalancedMasters (table_id_of BillLine)) st1 else st1"
  consider (blocked) b where "st' = block_st b st"
    | (run) lifecycle balances st1 where "rfold bill_balance_step ?rows ([], st) = Ok (balances, st1)"
      and "rfold (?f lifecycle) ?rows (?st balances st1) = Ok st'"
    using bill_table_cases [OF assms] by blast
  then show ?thesis
  proof cases
    case (run lifecycle balances st1)
    have step: "advances (list_all2 (\<lambda>r x. (\<exists>a. bill_row cal identities lifecycle r = Some a)
        \<and> becomes BillLine identities (bill_row cal identities lifecycle r) x) [r]) [(BillLine, ?v, r)] s s'"
      if "?f lifecycle r s = Ok s'" for r s s'
    proof (rule advances_mono [OF settle_adaptation_advances [OF that]])
      fix xs assume "list_all2 (\<lambda>_ x. \<exists>a. bill_adaptation cal identities lifecycle r = Ok a \<and> disposes BillLine identities a x) [r] xs"
      then obtain x a where x: "xs = [x]" and a: "bill_row cal identities lifecycle r = Some a" and "disposes BillLine identities a x"
        by (auto simp: list_all2_Cons1 bill_row_def ok_of_def)
      moreover have "becomes BillLine identities (Some a) x"
        using calculation bill_row_Some(2) [OF a] by (auto simp: becomes_def split: adaptation.split)
      ultimately show "list_all2 (\<lambda>r x. (\<exists>a. bill_row cal identities lifecycle r = Some a)
          \<and> becomes BillLine identities (bill_row cal identities lifecycle r) x) [r] xs"
        by simp
    qed
    let ?s = "?st balances st1"
    have grows: "grows st ?s"
      using bill_balance_fold(1) [OF run(1)] by (simp add: grows_block)
    show ?thesis
    proof (cases "pg_blockers (snd ?s) = pg_blockers (snd st)")
      case True
      have zero: "\<not> list_ex (\<lambda>b. b \<noteq> 0) (bt_values balances)" and same: "pg_blockers (snd st1) = pg_blockers (snd st)"
        using True grows_block_more [OF bill_balance_fold(1) [OF run(1)]] by (auto split: if_splits)
      note settled = bill_balance_fold(2) [OF run(1) same]
      have "(\<Sum>r\<leftarrow>?rows. amount_at n (bill_row cal identities lifecycle r)) = 0"
        if all: "list_all (\<lambda>r. \<exists>a. bill_row cal identities lifecycle r = Some a) ?rows" for n
      proof (rule selected_sum)
        show "amount_at n (bill_row cal identities lifecycle r) =
            (if bill_row_master r = n \<and> live_master lifecycle (bill_row_master r) then bill_row_amount r else 0)"
          if "r \<in> set ?rows" for r
          using all that bill_row_Some(1) by (fastforce simp: list_all_iff)
        have "list_all (\<lambda>b. b = 0) (bt_values balances)" using zero by (auto simp: list_ex_iff list_all_iff)
        then show "(\<Sum>r\<leftarrow>?rows. if bill_row_master r = n then bill_row_amount r else 0) = 0"
          using settled tally_of_zero by metis
      qed
      moreover have "rfold (?f lifecycle) ?rows st = Ok st'" using run(2) zero settled by simp
      ultimately show ?thesis
        unfolding table_origins_def
        by (intro advances_table [where fine = "\<lambda>r. \<exists>a. bill_row cal identities lifecycle r = Some a" and table = BillLine
              and identities = identities and g = "bill_row cal identities lifecycle" and f = "?f lifecycle"])
          (use step in auto)
    next
      case False
      have "grows ?s st'" by (rule advances_grows [OF advances_rfold [OF step run(2)]])
      with grows False show ?thesis by (rule advances_after_block)
    qed
  qed (auto intro: advances_block)
qed

section \<open>General Journal\<close>

definition journal_row :: "sa_calendar \<Rightarrow> disposition \<Rightarrow> adaptation option" where
  "journal_row cal c = (case c of PostingRow row \<Rightarrow> ok_of (adapt_journal_row cal row) | _ \<Rightarrow> None)"

definition journal_adapts :: "sa_calendar \<Rightarrow> disposition \<Rightarrow> bool" where
  "journal_adapts cal c = (case c of PostingRow row \<Rightarrow> ok_of (adapt_journal_row cal row) \<noteq> None | _ \<Rightarrow> True)"

lemma journal_record_carrier:
  assumes "\<And>row. c \<noteq> PostingRow row" and "journal_record cal identities version (r, c) st = Ok st'"
  shows "(\<exists>b. st' = block_st b (count_candidates 1 st))
    \<or> (\<exists>x reason. excluded_record GeneralJournalLine r version reason = Ok x \<and> st' = push_disposition x (count_candidates 1 st))"
  using assms by (cases c) (auto simp: journal_record_def Let_def split: outcome.splits)

lemma journal_record_advances:
  assumes "journal_record cal identities version rc st = Ok st'"
  shows "advances (list_all2 (\<lambda>rc x. journal_adapts cal (snd rc)
      \<and> becomes GeneralJournalLine identities (journal_row cal (snd rc)) x) [rc]) [(GeneralJournalLine, version, fst rc)] st st'"
proof -
  obtain r c where rc: "rc = (r, c)" by (cases rc)
  show ?thesis
  proof (cases "\<exists>row. c = PostingRow row")
    case True
    then obtain row where c: "c = PostingRow row" by blast
    show ?thesis
    proof (cases "adapt_journal_row cal row")
      case (Ok a)
      note adapted = this
      show ?thesis
      proof (cases "normalized_disposition GeneralJournalLine r a identities version")
        case (Ok x)
        with assms adapted have st': "st' = push_disposition x (count_candidates 1 st)"
          by (simp add: journal_record_def rc c)
        have "becomes GeneralJournalLine identities (Some a) x"
          using normalized_disposition_disposes [OF Ok] adapted adapted_journal_type [of cal row]
          by (cases a) (auto simp: becomes_def)
        then show ?thesis
          using normalized_disposition_settles [OF Ok] adapted
          by (simp add: st' rc c advances_push journal_adapts_def journal_row_def ok_of_def)
      qed (use assms adapted in \<open>auto simp: journal_record_def rc c intro!: advances_block\<close>)
    qed (use assms in \<open>auto simp: journal_record_def rc c intro!: advances_block\<close>)
  next
    case False
    with assms journal_record_carrier [of c cal identities version r st st'] consider
      (blocked) b where "st' = block_st b (count_candidates 1 st)"
      | (excluded) x reason where "excluded_record GeneralJournalLine r version reason = Ok x"
        and "st' = push_disposition x (count_candidates 1 st)"
      unfolding rc by blast
    then show ?thesis
    proof cases
      case (excluded x reason)
      have "settled_as (GeneralJournalLine, version, r) x" by (rule excluded_record_settles [OF excluded(1)])
      moreover have "\<not> is_normalized x" using excluded(1) by (auto simp: excluded_record_Ok is_normalized_def)
      moreover have "journal_adapts cal c" and "journal_row cal c = None"
        using False by (cases c; simp add: journal_adapts_def journal_row_def)+
      ultimately show ?thesis by (simp add: excluded(2) rc advances_push becomes_def)
    qed (auto intro!: advances_block)
  qed
qed

text \<open>One master, one lifecycle.\<close>

definition journal_amount :: "disposition \<Rightarrow> int" where
  "journal_amount c = (case c of PostingRow row \<Rightarrow> sint (jp_signed_cents row) | _ \<Rightarrow> 0)"

definition journal_master :: "disposition \<Rightarrow> u64" where
  "journal_master c = (case c of PostingRow row \<Rightarrow> ucast (jp_master row) | _ \<Rightarrow> 0)"

definition journal_live :: "disposition list \<Rightarrow> u64 \<Rightarrow> bool" where
  "journal_live cs n \<longleftrightarrow>
     (\<exists>row \<in> set (postings_of cs). ucast (jp_master row) = n \<and> jp_lifecycle row = (False, False))"

lemma postings_of_mem: "PostingRow row \<in> set cs \<Longrightarrow> row \<in> set (postings_of cs)"
  by (force simp: postings_of_def posting_rows_def)

lemma adapted_journal_amount:
  assumes "adapt_journal_row cal row = Ok a"
  shows "row_amount n a =
    (if ucast (jp_master row) = n \<and> jp_lifecycle row = (False, False) then sint (jp_signed_cents row) else 0)"
proof -
  obtain no_post memorized where life: "jp_lifecycle row = (no_post, memorized)" by fastforce
  then show ?thesis
    using assms by (cases no_post; cases memorized) (auto simp: adapt_journal_row_def outcome_simps row_amount_def split: if_splits)
qed

lemma journal_row_amount:
  assumes "classify_with_header_witnesses cal bytes witnesses = Ok cs" and "c \<in> set cs" and "journal_adapts cal c"
  shows "amount_at n (journal_row cal c) =
    (if journal_master c = n \<and> journal_live cs (journal_master c) then journal_amount c else 0)"
proof (cases "\<exists>row. c = PostingRow row")
  case True
  then obtain row where c: "c = PostingRow row" by blast
  with assms(3) obtain a where a: "adapt_journal_row cal row = Ok a"
    by (auto simp: journal_adapts_def ok_of_def split: outcome.splits)
  have row: "row \<in> set (postings_of cs)" using assms(2) c by (simp add: postings_of_mem)
  have live: "journal_live cs (ucast (jp_master row)) \<longleftrightarrow> jp_lifecycle row = (False, False)"
  proof
    assume "journal_live cs (ucast (jp_master row))"
    then obtain p where p: "p \<in> set (postings_of cs)" "jp_master p = jp_master row" and life: "jp_lifecycle p = (False, False)"
      unfolding journal_live_def widen_u32_inject by blast
    have "jp_lifecycle p = jp_lifecycle row" using classification_postings(3) [OF assms(1)] p row by blast
    with life show "jp_lifecycle row = (False, False)" by simp
  next
    assume "jp_lifecycle row = (False, False)"
    with row show "journal_live cs (ucast (jp_master row))" unfolding journal_live_def by blast
  qed
  show ?thesis
    by (simp add: c a journal_row_def ok_of_def journal_master_def journal_amount_def live amount_at_def
        adapted_journal_amount [OF a])
next
  case False
  then show ?thesis by (cases c) (simp_all add: journal_row_def journal_amount_def amount_at_def)
qed

lemma journal_balances_tally:
  "bt_ok (journal_balances cs)
   \<and> tally_of (journal_balances cs) n = (\<Sum>c\<leftarrow>cs. if journal_master c = n then journal_amount c else 0)"
proof -
  have "bt_ok m \<Longrightarrow> bt_ok (fold (\<lambda>c m. case c of PostingRow p \<Rightarrow> bt_add (ucast (jp_master p)) (sint (jp_signed_cents p)) m | _ \<Rightarrow> m) cs m)
      \<and> tally_of (fold (\<lambda>c m. case c of PostingRow p \<Rightarrow> bt_add (ucast (jp_master p)) (sint (jp_signed_cents p)) m | _ \<Rightarrow> m) cs m) n
        = tally_of m n + (\<Sum>c\<leftarrow>cs. if journal_master c = n then journal_amount c else 0)" for m
  proof (induction cs arbitrary: m)
    case (Cons c cs)
    show ?case
    proof (cases "\<exists>row. c = PostingRow row")
      case True
      then show ?thesis using Cons by (auto simp: bt_ok_add journal_master_def journal_amount_def)
    next
      case False
      then show ?thesis using Cons by (cases c) (auto simp: journal_amount_def)
    qed
  qed simp
  from this [of "[]"] show ?thesis by (simp add: journal_balances_def)
qed

lemma journal_table_advances:
  assumes "journal_table cal identities witnesses rows st = Ok st'"
  shows "advances others_balance (table_origins GeneralJournalLine (po_version (tr_policy rows)) (tr_records rows)) st st'"
proof -
  let ?rows = "tr_records rows" and ?v = "po_version (tr_policy rows)" and ?b = "BlockUnbalancedMasters (table_id_of GeneralJournalLine)"
  consider (blocked) b where "st' = block_st b st"
    | (run) cs s where "classify_with_header_witnesses cal (map pd_bytes ?rows) witnesses = Ok cs" and "length cs = length ?rows"
      and "s = (if list_ex (\<lambda>b. b \<noteq> 0) (bt_values (journal_balances cs)) then block_st ?b st else st)"
      and "rfold (journal_record cal identities ?v) (zip ?rows cs) s = Ok st'"
    using assms by (auto simp: journal_table_def Let_def split: outcome.splits if_splits)
  then show ?thesis
  proof cases
    case (run cs s)
    let ?f = "journal_record cal identities ?v"
    have origins: "table_origins GeneralJournalLine ?v ?rows = map (\<lambda>rc. (GeneralJournalLine, ?v, fst rc)) (zip ?rows cs)"
      using run(2) by (simp add: table_origins_def map_fst_zip flip: map_map [unfolded comp_def, of "\<lambda>r. (GeneralJournalLine, ?v, r)" fst])
    show ?thesis
    proof (cases "list_ex (\<lambda>b. b \<noteq> 0) (bt_values (journal_balances cs))")
      case True
      have "grows s st'" by (rule advances_grows [OF advances_rfold [OF journal_record_advances run(4)]])
      moreover have "grows st s" and "pg_blockers (snd s) \<noteq> pg_blockers (snd st)"
        using True run(3) grows_block_more [of st st] by (simp_all add: grows_block)
      ultimately show ?thesis by (intro advances_after_block)
    next
      case False
      have sums: "(\<Sum>rc\<leftarrow>zip ?rows cs. amount_at n (journal_row cal (snd rc))) = 0"
        if all: "list_all (\<lambda>rc. journal_adapts cal (snd rc)) (zip ?rows cs)" for n
      proof -
        have adapts: "\<And>c. c \<in> set cs \<Longrightarrow> journal_adapts cal c"
          using all run(2) by (auto simp: list_all_length in_set_conv_nth)
        have "list_all (\<lambda>b. b = 0) (bt_values (journal_balances cs))" using False by (auto simp: list_ex_iff list_all_iff)
        then have "(\<Sum>c\<leftarrow>cs. if journal_master c = n then journal_amount c else 0) = 0"
          using journal_balances_tally tally_of_zero by metis
        then have "(\<Sum>c\<leftarrow>cs. amount_at n (journal_row cal c)) = 0"
          by (rule selected_sum [rotated]) (rule journal_row_amount [OF run(1) _ adapts])
        then show ?thesis
          using run(2) by (simp flip: map_map [unfolded comp_def, of "\<lambda>c. amount_at n (journal_row cal c)" snd])
      qed
      have "rfold ?f (zip ?rows cs) st = Ok st'" using run(3,4) False by simp
      then show ?thesis
        unfolding origins
        by (rule advances_table [where fine = "\<lambda>rc. journal_adapts cal (snd rc)" and table = GeneralJournalLine
              and identities = identities and g = "\<lambda>rc. journal_row cal (snd rc)", rotated 2])
          (rule journal_record_advances, assumption, rule sums)
    qed
  qed (auto intro: advances_block)
qed

end
