(* ===== verification/Pipeline_Check_Facts.thy ===== *)
theory Pipeline_Check_Facts
  imports Pipeline_Masters
begin

text \<open>
  Checks: an accepted table settles every row in order, and its masters balance. Rows that were set
  aside as companions or as compact sources contribute nothing.
\<close>

section \<open>Observations\<close>

definition carriers_ok :: "observed_checks \<Rightarrow> bool" where
  "carriers_ok st \<longleftrightarrow>
     bt_ok (oc_carriers st)
     \<and> (\<forall>i c. bt_get (oc_carriers st) i = Some c \<longrightarrow> i < length (oc_observations st) \<and> oc_observations st ! i = None)"

lemma carriers_ok_push:
  assumes "carriers_ok st" and "oc_observations st' = oc_observations st @ [x]"
    and "oc_carriers st' = oc_carriers st \<or> (\<exists>c. oc_carriers st' = bt_insert (length (oc_observations st)) c (oc_carriers st) \<and> x = None)"
  shows "carriers_ok st'"
  using assms by (auto simp: carriers_ok_def bt_ok_insert bt_get_insert nth_append split: if_splits)

lemma observe_check_step:
  assumes "observe_check cal schema adapt (length (oc_observations st), r) st = Ok st'" and "carriers_ok st"
  shows "carriers_ok st' \<and> (\<exists>x. oc_observations st' = oc_observations st @ [x] \<and> (\<forall>a. x = Some a \<longrightarrow> adapt r = Ok a))"
proof -
  obtain carrier where carrier: "(attempt (void_companion_parse (pd_bytes r)) :: (unit, void_companion option) outcome) = Ok carrier"
    using assms(1) unfolding observe_check_def prod.case rbind_Ok_iff by blast
  have step: "\<exists>x. oc_observations st' = oc_observations st @ [x] \<and> (\<forall>a. x = Some a \<longrightarrow> adapt r = Ok a)
      \<and> (oc_carriers st' = oc_carriers st
         \<or> (\<exists>c. oc_carriers st' = bt_insert (length (oc_observations st)) c (oc_carriers st) \<and> x = None))"
    using assms(1) carrier
    by (cases carrier)
      (auto simp: observe_check_def Let_def outcome_simps split: if_splits)
  then show ?thesis using carriers_ok_push [OF assms(2)] by blast
qed

lemma observe_checks:
  assumes "rfold (observe_check cal schema adapt) (enumerate (length (oc_observations st)) rs) st = Ok st'" and "carriers_ok st"
  shows "carriers_ok st' \<and> (\<exists>xs. oc_observations st' = oc_observations st @ xs
    \<and> list_all2 (\<lambda>r x. \<forall>a. x = Some a \<longrightarrow> adapt r = Ok a) rs xs)"
  using assms
proof (induction rs arbitrary: st)
  case (Cons r rs)
  then obtain s where s: "observe_check cal schema adapt (length (oc_observations st), r) st = Ok s"
    and rest: "rfold (observe_check cal schema adapt) (enumerate (Suc (length (oc_observations st))) rs) s = Ok st'"
    by (auto simp: outcome_simps)
  obtain x where ok: "carriers_ok s" and x: "oc_observations s = oc_observations st @ [x]" "\<forall>a. x = Some a \<longrightarrow> adapt r = Ok a"
    using observe_check_step [OF s Cons.prems(2)] by blast
  with Cons.IH [of s] rest obtain xs where "carriers_ok st'" "oc_observations st' = oc_observations s @ xs"
    "list_all2 (\<lambda>r x. \<forall>a. x = Some a \<longrightarrow> adapt r = Ok a) rs xs" by auto
  with x show ?case by (intro conjI exI [of _ "x # xs"]) simp_all
qed simp

section \<open>Sources become links\<close>

definition same_or_link :: "adaptation option \<Rightarrow> adaptation option \<Rightarrow> bool" where
  "same_or_link x y \<longleftrightarrow> y = x \<or> (\<exists>target master. y = Some (AdaptedExclusion (RowSourceOrLink target master)))"

lemma same_or_link_refl: "list_all2 same_or_link xs xs"
  by (simp add: list_all2_refl same_or_link_def)

lemma admit_sources:
  assumes "rfold (admit_source identities retained) sources (next_targets, xs) = Ok (next_targets', ys)"
  shows "list_all2 same_or_link xs ys"
proof -
  have "(\<lambda>_ st. list_all2 same_or_link xs (snd st)) sources (next_targets', ys)"
  proof (rule rfold_invariant [OF assms])
    show "list_all2 same_or_link xs (snd (next_targets, xs))" by (simp add: same_or_link_refl)
  next
    fix zs x st st' assume all: "list_all2 same_or_link xs (snd st)" and "admit_source identities retained x st = Ok st'"
    then obtain i target master where "snd st' = (snd st)[i := Some (AdaptedExclusion (RowSourceOrLink target master))]"
      by (cases x; cases st) (auto simp: admit_source_def outcome_simps)
    moreover have "list_all2 same_or_link xs (ys[i := Some (AdaptedExclusion (RowSourceOrLink target master))])"
      if ys: "list_all2 same_or_link xs ys" for ys
    proof (rule list_all2_all_nthI)
      fix k assume "k < length xs"
      with list_all2_nthD [OF ys this] list_all2_lengthD [OF ys]
      show "same_or_link (xs ! k) (ys[i := Some (AdaptedExclusion (RowSourceOrLink target master))] ! k)"
        by (cases "k = i") (auto simp: same_or_link_def)
    qed (use list_all2_lengthD [OF ys] in simp)
    ultimately show "list_all2 same_or_link xs (snd st')" using all by simp
  qed
  then show ?thesis by simp
qed

section \<open>Masters\<close>

definition net_of :: "(u64, master_observation) btree \<Rightarrow> u64 \<Rightarrow> int" where
  "net_of masters n = (case bt_get masters n of Some m \<Rightarrow> mo_nonzero_net m | None \<Rightarrow> 0)"

lemma net_of_insert [simp]: "net_of (bt_insert k m masters) n = (if n = k then mo_nonzero_net m else net_of masters n)"
  by (simp add: net_of_def bt_get_insert)

lemma net_of_master [simp]: "mo_nonzero_net (master_at masters n) = net_of masters n"
  by (simp add: net_of_def master_at_def split: option.split)

lemma tally_master_step:
  assumes "tally_master x (targets, masters) = Ok st'" and "bt_ok masters"
  shows "bt_ok (snd st') \<and> net_of (snd st') n = net_of masters n + amount_at n x"
proof (cases x)
  case (Some a)
  with assms show ?thesis
    by (cases a; cases "case a of AdaptedExclusion e \<Rightarrow> e | AdaptedPosting _ \<Rightarrow> undefined")
      (auto simp: tally_master_def Let_def outcome_simps bt_ok_insert amount_at_def row_amount_def)
qed (use assms in \<open>auto simp: tally_master_def amount_at_def\<close>)

lemma tally_masters:
  assumes "rfold tally_master xs ([], []) = Ok (targets, masters)"
  shows "bt_ok masters" and "net_of masters n = (\<Sum>x\<leftarrow>xs. amount_at n x)"
proof -
  have "(\<lambda>xs st. bt_ok (snd st) \<and> net_of (snd st) n = (\<Sum>x\<leftarrow>xs. amount_at n x)) xs (targets, masters)"
    by (rule rfold_invariant [OF assms]) (simp add: net_of_def, use tally_master_step in fastforce)
  then show "bt_ok masters" and "net_of masters n = (\<Sum>x\<leftarrow>xs. amount_at n x)" by simp_all
qed

section \<open>Dispositions\<close>

definition check_slot :: "(nat, void_companion) btree \<Rightarrow> nat \<times> partial_record \<times> adaptation option \<Rightarrow> adaptation option" where
  "check_slot carriers ira = (if bt_get carriers (fst ira) = None then snd (snd ira) else None)"

lemma check_disposition_Ok:
  assumes "check_disposition identities carriers evidence version (i, r, y) = Ok x"
    and "\<And>row. y = Some (AdaptedPosting row) \<Longrightarrow> ep_type row \<noteq> TypeBillPaymentCheck"
  shows "settled_as (CheckLine, version, r) x" and "becomes CheckLine identities (check_slot carriers (i, r, y)) x"
proof -
  consider (carrier) c where "bt_get carriers i = Some c" and "check_companion_disposition r c evidence version = Ok x"
    | (row) a where "bt_get carriers i = None" and "y = Some a"
      and "normalized_disposition CheckLine r a identities version = Ok x"
    using assms(1) by (auto simp: check_disposition_def outcome_simps split: option.splits)
  then have "settled_as (CheckLine, version, r) x \<and> becomes CheckLine identities (check_slot carriers (i, r, y)) x"
  proof cases
    case (carrier c)
    then have x: "excluded_record CheckLine r version SourceOrLinkRow = Ok x"
      by (auto simp: check_companion_disposition_def Let_def outcome_simps)
    then have "\<not> is_normalized x" by (auto simp: excluded_record_Ok is_normalized_def)
    with carrier excluded_record_settles [OF x] show ?thesis by (simp add: check_slot_def becomes_def)
  next
    case (row a)
    then have "becomes CheckLine identities (Some a) x"
      using normalized_disposition_disposes assms(2) by (cases a) (fastforce simp: becomes_def)+
    with row show ?thesis using normalized_disposition_settles by (simp add: check_slot_def)
  qed
  then show "settled_as (CheckLine, version, r) x" and "becomes CheckLine identities (check_slot carriers (i, r, y)) x"
    by simp_all
qed

lemma prepared_checks:
  assumes "prepare_check_dispositions cal rows schema identities adapt = Ok xs"
    and type: "\<And>r row. adapt r = Ok (AdaptedPosting row) \<Longrightarrow> ep_type row \<noteq> TypeBillPaymentCheck"
  shows "list_all2 settled_as (table_origins CheckLine (po_version (tr_policy rows)) (tr_records rows)) xs"
    and "others_balance xs"
proof -
  let ?rs = "tr_records rows" and ?v = "po_version (tr_policy rows)"
  let ?start = "\<lparr>oc_observations = [], oc_sources = [], oc_carriers = [], oc_carrier_counts = [], oc_carrier_targets = [],
      oc_targets = []\<rparr>"
  obtain st next_targets ys targets masters evidence where
    observed: "rfold (observe_check cal schema adapt) (enumerate 0 ?rs) ?start = Ok st"
    and admitted: "rfold (admit_source identities (retained_postings (oc_observations st))) (oc_sources st)
        ([], oc_observations st) = Ok (next_targets, ys)"
    and tallied: "rfold tally_master ys ([], []) = Ok (targets, masters)"
    and nets: "list_all (\<lambda>(_, m). mo_nonzero_net m = 0) masters"
    and disposed: "rmap (check_disposition identities (oc_carriers st) evidence ?v) (enumerate 0 (zip ?rs ys)) = Ok xs"
    using assms(1) unfolding prepare_check_dispositions_def
    by (auto simp: rbind_Ok_iff ensure_iff simp del: enumerate_simps)
  have obs: "carriers_ok st" "list_all2 (\<lambda>r x. \<forall>a. x = Some a \<longrightarrow> adapt r = Ok a) ?rs (oc_observations st)"
    using observe_checks [of cal schema adapt ?start ?rs st] observed by (auto simp: carriers_ok_def)
  note links = admit_sources [OF admitted]
  have len: "length ys = length ?rs" using list_all2_lengthD [OF obs(2)] list_all2_lengthD [OF links] by simp
  let ?slots = "enumerate 0 (zip ?rs ys)"
  have nth: "?slots ! i = (i, ?rs ! i, ys ! i)" if "i < length ?rs" for i
    using that len by (simp add: nth_enumerate_eq)
  have typed: "ep_type row \<noteq> TypeBillPaymentCheck" if "i < length ?rs" and "ys ! i = Some (AdaptedPosting row)" for i row
    using that obs(2) links type by (force simp: list_all2_conv_all_nth same_or_link_def)
  have each: "check_disposition identities (oc_carriers st) evidence ?v (i, ?rs ! i, ys ! i) = Ok (xs ! i)"
    "length xs = length ?rs" if "i < length ?rs" for i
    using disposed nth [OF that] that len by (auto simp: rmap_Ok_iff list_all2_conv_all_nth)
  have length: "length xs = length ?rs" using disposed len by (auto simp: rmap_Ok_iff dest: list_all2_lengthD)
  show "list_all2 settled_as (table_origins CheckLine ?v ?rs) xs"
    using length check_disposition_Ok(1) [OF each(1) typed] by (auto simp: list_all2_conv_all_nth table_origins_def)
  have "list_all2 (becomes CheckLine identities) (map (check_slot (oc_carriers st)) ?slots) xs"
    using length len nth check_disposition_Ok(2) [OF each(1) typed] by (auto simp: list_all2_conv_all_nth)
  then show "others_balance xs"
  proof (rule others_balanceI)
    fix n
    have silent: "amount_at n (ys ! i) = 0" if "bt_get (oc_carriers st) i = Some c" and "i < length ?rs" for i c
    proof -
      have "oc_observations st ! i = None" using obs(1) that by (auto simp: carriers_ok_def)
      then have "ys ! i = None \<or> (\<exists>target master. ys ! i = Some (AdaptedExclusion (RowSourceOrLink target master)))"
        using links that(2) len by (metis list_all2_nthD2 same_or_link_def)
      then show ?thesis by (auto simp: amount_at_def row_amount_def)
    qed
    have slot: "amount_at n (check_slot (oc_carriers st) (i, ?rs ! i, ys ! i)) = amount_at n (ys ! i)" if "i < length ?rs" for i
    proof (cases "bt_get (oc_carriers st) i")
      case (Some c)
      with silent [OF this that] show ?thesis by (simp add: check_slot_def amount_at_def [of n None])
    qed (simp add: check_slot_def)
    have "map (amount_at n) (map (check_slot (oc_carriers st)) ?slots) = map (amount_at n) ys"
      using len nth slot by (intro nth_equalityI) simp_all
    then have "(\<Sum>a\<leftarrow>map (check_slot (oc_carriers st)) ?slots. amount_at n a) = net_of masters n"
      using tally_masters(2) [OF tallied] by (simp only:)
    also have "\<dots> = 0"
      using nets by (auto simp: net_of_def list_all_iff dest!: bt_get_SomeD split: option.split)
    finally show "(\<Sum>a\<leftarrow>map (check_slot (oc_carriers st)) ?slots. amount_at n a) = 0" .
  qed
qed

section \<open>The table\<close>

lemma zero_amount_only:
  assumes "(case a of AdaptedExclusion (RowZeroAmount t m c d ty) \<Rightarrow> f t m c d ty | _ \<Rightarrow> Err ()) = Ok b"
  shows "\<exists>t m c d ty. a = AdaptedExclusion (RowZeroAmount t m c d ty) \<and> f t m c d ty = Ok b"
proof (cases a)
  case (AdaptedExclusion e)
  with assms show ?thesis by (cases e) auto
qed (use assms in simp)

lemma adapt_check_observation_type:
  assumes "adapt_check_observation cal schema r = Ok (AdaptedPosting row)"
  shows "ep_type row \<noteq> TypeBillPaymentCheck"
proof (cases "check_posting_parse (pd_bytes r)")
  case (Ok c)
  with assms adapted_check_type show ?thesis by (fastforce simp: adapt_check_observation_def outcome_simps)
next
  case (Err e)
  with assms show ?thesis
    by (cases e) (auto simp: adapt_check_observation_def Let_def rbind_Ok_iff dest!: zero_amount_only)
qed (use assms in \<open>simp add: adapt_check_observation_def\<close>)

lemma fold_push_settles:
  assumes "list_all2 settled_as rows xs"
  shows "settles rows xs st (fold push_disposition xs (count_candidates (length rows) st))"
proof -
  have "fst (fold push_disposition xs s) = fst s @ xs
      \<and> pg_posting_candidates (snd (fold push_disposition xs s)) = pg_posting_candidates (snd s)
      \<and> pg_normalized_postings (snd (fold push_disposition xs s)) = pg_normalized_postings (snd s) + length (filter is_normalized xs)
      \<and> pg_excluded_postings (snd (fold push_disposition xs s)) =
          pg_excluded_postings (snd s) + length (filter (Not \<circ> is_normalized) xs)" for s
    by (induction xs arbitrary: s) (auto simp: push_disposition_def is_normalized_def split: posting_disposition.split)
  with assms show ?thesis by (simp add: settles_def count_candidates_def)
qed

lemma grows_fold_push [simp]: "grows st (fold push_disposition xs s) \<longleftrightarrow> grows st s"
  by (induction xs arbitrary: s) simp_all

lemma grows_fold_block: "grows st s \<Longrightarrow> grows st (fold (\<lambda>r. block_st (f r)) rs s)"
  by (induction rs arbitrary: s) (simp_all add: grows_block)

lemma check_table_advances:
  assumes "check_table cal identities schemas rows st = Ok st'"
  shows "advances others_balance (table_origins CheckLine (po_version (tr_policy rows)) (tr_records rows)) st st'"
proof -
  let ?t = "table_id_of CheckLine" and ?rows = "tr_records rows"
  let ?origins = "table_origins CheckLine (po_version (tr_policy rows)) ?rows"
  let ?st = "count_candidates (length ?rows) st"
  consider (settled) schema xs where
      "try_materialized_check_dispositions cal rows schema identities = Ok xs
       \<or> try_partial_check_dispositions cal rows schema identities = Ok xs" and "st' = fold push_disposition xs ?st"
    | (blocked) "st' = fold (\<lambda>r. block_st (record_failed CheckLine r)) ?rows (block_st (BlockStrategyRejected ?t) ?st)"
  proof (cases "bt_get schemas ?t")
    case None
    with assms that(2) show thesis by (simp add: check_table_def Let_def ok_or_def)
  next
    case (Some schema)
    then show thesis
      using assms that
      by (cases "try_materialized_check_dispositions cal rows schema identities";
          cases "try_partial_check_dispositions cal rows schema identities")
        (auto simp: check_table_def Let_def ok_or_def)
  qed
  then show ?thesis
  proof cases
    case (settled schema xs)
    have "list_all2 settled_as ?origins xs \<and> others_balance xs"
      using settled(1)
    proof
      assume "try_materialized_check_dispositions cal rows schema identities = Ok xs"
      from prepared_checks [OF this [unfolded try_materialized_check_dispositions_def] adapt_check_observation_type]
      show ?thesis by simp
    next
      assume *: "try_partial_check_dispositions cal rows schema identities = Ok xs"
      have typed: "ep_type row \<noteq> TypeBillPaymentCheck"
        if "map_err (\<lambda>_. ()) (adapt_enterprise_posting_row_partial cal CheckLine schema (pd_partial r)) = Ok (AdaptedPosting row)"
        for r row
        using that partial_adapter_type by (fastforce simp: map_err_iff)
      note prepared = prepared_checks [OF * [unfolded try_partial_check_dispositions_def]]
      show ?thesis by (intro conjI prepared) (erule typed)+
    qed
    moreover have "length ?origins = length ?rows" by (simp add: table_origins_def)
    ultimately show ?thesis using fold_push_settles [of ?origins xs st] by (auto simp: advances_def settled(2))
  next
    case blocked
    have "grows st (block_st (BlockStrategyRejected ?t) ?st)" by (simp add: grows_block)
    moreover have "pg_blockers (snd (block_st (BlockStrategyRejected ?t) ?st)) \<noteq> pg_blockers (snd st)"
      by (rule grows_block_more) simp
    moreover have "grows (block_st (BlockStrategyRejected ?t) ?st) st'" unfolding blocked by (rule grows_fold_block) simp
    ultimately show ?thesis by (rule advances_after_block)
  qed
qed

section \<open>Every posting table\<close>

definition posting_origins :: "table_rows \<Rightarrow> row_origin list" where
  "posting_origins rows =
     (if is_posting_table (po_table (tr_policy rows)) \<and> po_status (tr_policy rows) \<noteq> PolicyUnsupported
      then table_origins (po_table (tr_policy rows)) (po_version (tr_policy rows)) (tr_records rows) else [])"

lemma posting_table_advances:
  assumes "posting_table cal identities schemas witnesses rows st = Ok st'"
  shows "advances others_balance (posting_origins rows) st st'"
proof -
  let ?p = "tr_policy rows"
  let ?table = "po_table ?p" and ?v = "po_version ?p" and ?rows = "tr_records rows"
  show ?thesis
  proof (cases "is_posting_table ?table \<and> po_status ?p \<noteq> PolicyUnsupported")
    case False
    then have "posting_table cal identities schemas witnesses rows st = Ok st" by (auto simp: posting_table_def Let_def)
    with assms False show ?thesis by (auto simp: posting_origins_def intro: advances_refl)
  next
    case True
    then have origins: "posting_origins rows = table_origins ?table ?v ?rows" by (simp add: posting_origins_def)
    have cases: "?table \<in> {BillPaymentCheckLine, BillLine, CheckLine, DepositLine, GeneralJournalLine}"
      using True by (simp add: is_posting_table_def)
    consider (dedicated) "?table \<in> {GeneralJournalLine, CheckLine, BillLine}"
      | (other) "?table \<in> {BillPaymentCheckLine, DepositLine}" using cases by blast
    then show ?thesis
    proof cases
      case dedicated
      then consider "?table = GeneralJournalLine \<and> journal_table cal identities witnesses rows st = Ok st'"
        | "?table = CheckLine \<and> check_table cal identities schemas rows st = Ok st'"
        | "?table = BillLine \<and> bill_table cal identities schemas rows st = Ok st'"
        using assms True by (auto simp: posting_table_def Let_def)
      then show ?thesis
        by cases (use origins journal_table_advances check_table_advances bill_table_advances in metis)+
    next
      case other
      then have "(\<exists>b. st' = block_st b st) \<or> (\<exists>schema. ?table = DepositLine \<and> deposit_table cal identities schema rows st = Ok st')
          \<or> (\<exists>schema. ?table = BillPaymentCheckLine \<and> rfold (prefix_record cal identities ?table schema ?v) ?rows st = Ok st')"
        using assms True
        by (auto simp: posting_table_def Let_def outcome_simps split: option.splits if_splits)
      then show ?thesis
        using origins deposit_table_advances payment_table_advances advances_block [OF grows_refl] by metis
    qed
  qed
qed

end
