(* ===== verification/Pipeline_Ledger.thy ===== *)
theory Pipeline_Ledger
  imports Pipeline_Check_Facts
begin

text \<open>
  The whole pipeline: a ledger is returned only if no gate was blocked, and then every row of every
  posting table that the run does not pass over is in the hand-off exactly once. A table is passed over when
  its policy is unsupported; if its coverage says so too, as the collectors make it, no ledger is returned.
\<close>

section \<open>Coverage\<close>

definition policy_holds :: "(u32, row_schema) btree \<Rightarrow> (u32, table_coverage) btree \<Rightarrow> table_policy \<Rightarrow> bool" where
  "policy_holds schemas tables policy \<longleftrightarrow>
     (case bt_get tables (table_id_of (po_table policy)) of
        None \<Rightarrow> False
      | Some coverage \<Rightarrow>
          po_status policy = PolicyPartial \<and> coverage_complete coverage
          \<and> (po_storage policy \<noteq> None \<longrightarrow>
             (case bt_get schemas (table_id_of (po_table policy)) of
                Some schema \<Rightarrow> policy_schema_matches policy schema | None \<Rightarrow> True)))"

lemma pg_block [simp]:
  "pg_tables (block b d) = pg_tables d" "pg_blockers (block b d) = pg_blockers d @ [b]"
  by (simp_all add: block_def)

lemma check_policy_tables [simp]: "pg_tables (check_policy_coverage schemas policy d) = pg_tables d"
  by (simp add: check_policy_coverage_def Let_def split: option.split)

lemma check_policy_blockers:
  "prefix (pg_blockers d) (pg_blockers (check_policy_coverage schemas policy d))"
  "pg_blockers (check_policy_coverage schemas policy d) = [] \<Longrightarrow> policy_holds schemas (pg_tables d) policy"
  by (auto simp: check_policy_coverage_def policy_holds_def Let_def split: option.splits if_splits)

lemma check_policies:
  assumes "pg_blockers (fold (check_policy_coverage schemas) policies d) = []"
  shows "pg_blockers d = [] \<and> list_all (policy_holds schemas (pg_tables d)) policies
    \<and> pg_tables (fold (check_policy_coverage schemas) policies d) = pg_tables d"
  using assms
proof (induction policies arbitrary: d)
  case (Cons p ps)
  have "pg_blockers (check_policy_coverage schemas p d) = [] \<and> list_all (policy_holds schemas (pg_tables d)) ps
      \<and> pg_tables (fold (check_policy_coverage schemas) ps (check_policy_coverage schemas p d)) = pg_tables d"
    using Cons.IH [of "check_policy_coverage schemas p d"] Cons.prems by simp
  then show ?case using check_policy_blockers(1) [where d = d and schemas = schemas and policy = p]
      check_policy_blockers(2) [where d = d and schemas = schemas and policy = p] by auto
qed simp

definition rows_table :: "table_rows \<Rightarrow> u32" where
  "rows_table rows = table_id_of (po_table (tr_policy rows))"

text \<open>The coverage of each table is filed once, under the number its policy attests.\<close>

lemma add_rows_blockers:
  assumes "pg_blockers (fold add_rows_coverage tables d) = []" and "bt_ok (pg_tables d)"
  shows "pg_blockers d = [] \<and> distinct (map rows_table tables)
    \<and> list_all (\<lambda>rows. bt_get (pg_tables (fold add_rows_coverage tables d)) (rows_table rows) = Some (tr_coverage rows)
         \<and> tv_table (tr_coverage rows) = rows_table rows \<and> bt_get (pg_tables d) (rows_table rows) = None) tables
    \<and> (\<forall>t c. bt_get (pg_tables d) t = Some c \<longrightarrow> bt_get (pg_tables (fold add_rows_coverage tables d)) t = Some c)"
  using assms
proof (induction tables arbitrary: d)
  case (Cons rows tables)
  let ?d = "add_rows_coverage rows d"
  have ok: "bt_ok (pg_tables ?d)"
    using Cons.prems(2) by (simp add: add_rows_coverage_def add_table_coverage_def bt_ok_insert)
  have "pg_blockers (fold add_rows_coverage tables ?d) = []" using Cons.prems(1) by simp
  note IH = Cons.IH [OF this ok]
  then have "pg_blockers ?d = []" by simp
  then have d: "pg_blockers d = []" "tv_table (tr_coverage rows) = rows_table rows"
    "bt_get (pg_tables d) (rows_table rows) = None"
    "pg_tables ?d = bt_insert (rows_table rows) (tr_coverage rows) (pg_tables d)"
    by (auto simp: add_rows_coverage_def add_table_coverage_def rows_table_def split: if_splits)
  have absent: "rows_table r \<noteq> rows_table rows \<and> bt_get (pg_tables d) (rows_table r) = None" if "r \<in> set tables" for r
  proof -
    have "bt_get (pg_tables ?d) (rows_table r) = None" using IH that by (auto simp: list_all_iff)
    then show ?thesis by (simp add: d(4) bt_get_insert split: if_splits)
  qed
  have "rows_table rows \<notin> rows_table ` set tables" using absent by fastforce
  moreover have "bt_get (pg_tables ?d) t = Some c" if "bt_get (pg_tables d) t = Some c" for t c
    using that d(3,4) by (auto simp: bt_get_insert)
  moreover have "bt_get (pg_tables ?d) (rows_table rows) = Some (tr_coverage rows)" by (simp add: d(4) bt_get_insert)
  ultimately show ?case using IH absent d(1-3) by (simp add: list_all_iff)
qed simp

lemma pipeline_coverage_gates:
  assumes "pg_blockers (pipeline_coverage columns account_rows line_tables schemas) = []"
  shows "validate_r21_schema_manifest columns = Ok ()"
    and "list_all (policy_holds schemas (pg_tables (pipeline_coverage columns account_rows line_tables schemas))) r21_policies"
    and "distinct (map rows_table (account_rows # line_tables))"
    and "list_all (\<lambda>rows. bt_get (pg_tables (pipeline_coverage columns account_rows line_tables schemas)) (rows_table rows)
           = Some (tr_coverage rows) \<and> tv_table (tr_coverage rows) = rows_table rows) (account_rows # line_tables)"
proof -
  let ?d0 = "case validate_r21_schema_manifest columns of Ok _ \<Rightarrow> no_diagnostics | _ \<Rightarrow> block BlockManifest no_diagnostics"
  let ?d1 = "fold add_rows_coverage (account_rows # line_tables) ?d0"
  have eq: "pipeline_coverage columns account_rows line_tables schemas = fold (check_policy_coverage schemas) r21_policies ?d1"
    unfolding pipeline_coverage_def Let_def ..
  note policies = check_policies [OF assms [unfolded eq]]
  then have d1: "pg_blockers ?d1 = []" by blast
  have "bt_ok (pg_tables ?d0)" by (simp add: no_diagnostics_def split: outcome.split)
  note rows = add_rows_blockers [OF d1 this]
  then have d0: "pg_blockers ?d0 = []" by blast
  show "validate_r21_schema_manifest columns = Ok ()"
    using d0 by (cases "validate_r21_schema_manifest columns") simp_all
  show "list_all (policy_holds schemas (pg_tables (pipeline_coverage columns account_rows line_tables schemas))) r21_policies"
    using policies by (simp add: eq)
  show "distinct (map rows_table (account_rows # line_tables))" using rows by blast
  show "list_all (\<lambda>rows. bt_get (pg_tables (pipeline_coverage columns account_rows line_tables schemas)) (rows_table rows)
           = Some (tr_coverage rows) \<and> tv_table (tr_coverage rows) = rows_table rows) (account_rows # line_tables)"
    unfolding eq using policies rows by (auto simp: list_all_iff simp del: fold_simps)
qed

section \<open>Accounts\<close>

text \<open>Neither pass over the accounts touches the tables or the posting counters.\<close>

definition posting_counts :: "pipeline_diagnostics \<Rightarrow> nat \<times> nat \<times> nat \<times> nat" where
  "posting_counts d =
     (pg_account_candidates d, pg_posting_candidates d, pg_normalized_postings d, pg_excluded_postings d)"

definition keeps :: "pipeline_diagnostics \<Rightarrow> pipeline_diagnostics \<Rightarrow> bool" where
  "keeps d d' \<longleftrightarrow> pg_tables d' = pg_tables d \<and> posting_counts d' = posting_counts d \<and> prefix (pg_blockers d) (pg_blockers d')"

lemma keeps_refl [simp]: "keeps d d"
  by (simp add: keeps_def)

lemma keeps_trans: "keeps d d' \<Longrightarrow> keeps d' d'' \<Longrightarrow> keeps d d''"
  unfolding keeps_def by (metis prefix_order.trans)

lemma keeps_block: "keeps d (block b d)"
  by (simp add: keeps_def block_def posting_counts_def)

lemma keeps_excluded: "keeps d (d\<lparr>pg_excluded_accounts := n\<rparr>)"
  by (simp add: keeps_def posting_counts_def)

definition identified :: "identity_map \<Rightarrow> partial_record \<Rightarrow> bool" where
  "identified identities r \<longleftrightarrow>
     (\<exists>identity i. account_row_parse (pd_bytes r) = Ok identity \<and> account_id_new (ordinary_list_id identity) = Ok i
        \<and> bt_get identities (ar_record_number identity) = Some i)"

lemma account_identity_step_cases:
  assumes "account_identity_step r (identities, d) = Ok (identities', d')"
  shows "(\<exists>b. d' = block b d)
    \<or> d' = d \<and> identified identities' r \<and> (\<forall>n i. bt_get identities n = Some i \<longrightarrow> bt_get identities' n = Some i)"
proof -
  obtain parsed where p: "(attempt (account_row_parse (pd_bytes r)) :: (unit, materialized_account_row option) outcome) = Ok parsed"
    using assms unfolding account_identity_step_def prod.case Let_def rbind_Ok_iff by blast
  show ?thesis
  proof (cases parsed)
    case None
    with p assms show ?thesis by (auto simp: account_identity_step_def)
  next
    case (Some identity)
    with p have "account_row_parse (pd_bytes r) = Ok identity" by (auto simp: attempt_def split: outcome.splits)
    with Some p assms show ?thesis
      by (auto simp: account_identity_step_def Let_def identified_def bt_get_insert split: outcome.splits if_splits)
  qed
qed

lemma account_identities:
  assumes "rfold account_identity_step records ([], d) = Ok (identities, d')"
  shows "keeps d d' \<and> (pg_blockers d' = pg_blockers d \<longrightarrow> d' = d \<and> list_all (identified identities) records)"
proof -
  let ?I = "\<lambda>rs (m, s). keeps d s \<and> (pg_blockers s = pg_blockers d \<longrightarrow> s = d \<and> list_all (identified m) rs)"
  have "?I records (identities, d')"
  proof (rule rfold_invariant [OF assms, where I = ?I])
    show "?I [] ([], d)" by simp
  next
    fix rs r ms ms' assume I: "?I rs ms" and "account_identity_step r ms = Ok ms'"
    moreover obtain m s m' s' where ms: "ms = (m, s)" "ms' = (m', s')" by (cases ms; cases ms') auto
    ultimately have "account_identity_step r (m, s) = Ok (m', s')" by simp
    from account_identity_step_cases [OF this] show "?I (rs @ [r]) ms'"
    proof
      assume "\<exists>b. s' = block b s"
      then obtain b where s': "s' = block b s" by blast
      have "keeps d s'" using I keeps_block keeps_trans by (auto simp: ms s')
      moreover have "pg_blockers s' \<noteq> pg_blockers d" using I by (auto simp: ms s' keeps_def prefix_def)
      ultimately show ?thesis by (simp add: ms)
    next
      assume "s' = s \<and> identified m' r \<and> (\<forall>n i. bt_get m n = Some i \<longrightarrow> bt_get m' n = Some i)"
      with I show ?thesis by (auto simp: ms list_all_iff identified_def)
    qed
  qed
  then show ?thesis by simp
qed

lemma account_step_cases:
  assumes "account_step domain_number schema identities r (accounts, d) = Ok (accounts', d')" and "identified identities r"
  shows "(\<exists>b. d' = block b d)
    \<or> d' = d \<and> length accounts' = Suc (length accounts)
    \<or> d' = d\<lparr>pg_excluded_accounts := pg_excluded_accounts d + 1\<rparr> \<and> accounts' = accounts"
  using assms
  by (auto simp: account_step_def identified_def attempt_def split: outcome.splits option.splits)

lemma account_step_keeps:
  assumes "account_step domain_number schema identities r st = Ok st'"
  shows "keeps (snd st) (snd st')"
proof -
  obtain accounts d where st: "st = (accounts, d)" by (cases st)
  show ?thesis
  proof (cases "account_row_parse (pd_bytes r)")
    case (Ok identity)
    then show ?thesis
      using assms
      by (cases "decode_schema_account_row_partial domain_number (pd_partial r) schema identity False (bt_get identities) resolve_account_type18")
        (auto simp: account_step_def attempt_def st keeps_block keeps_excluded split: option.splits)
  qed (use assms in \<open>auto simp: account_step_def attempt_def st\<close>)
qed

lemma account_rows_keep:
  assumes "rfold (account_step domain_number schema identities) records ([], d) = Ok (accounts, d')"
  shows "keeps d d'"
proof -
  have "(\<lambda>_ st. keeps d (snd st)) records (accounts, d')"
    by (rule rfold_invariant [OF assms]) (simp, use account_step_keeps keeps_trans in blast)
  then show ?thesis by simp
qed

lemma account_rows:
  assumes "rfold (account_step domain_number schema identities) records ([], d) = Ok (accounts, d')"
    and "list_all (identified identities) records"
  shows "keeps d d' \<and> (pg_blockers d' = pg_blockers d \<longrightarrow>
    length accounts + pg_excluded_accounts d' = length records + pg_excluded_accounts d)"
proof -
  let ?I = "\<lambda>(rs :: partial_record list) (as, s). keeps d s \<and> (pg_blockers s = pg_blockers d \<longrightarrow>
      length as + pg_excluded_accounts s = length rs + pg_excluded_accounts d)"
  have "?I records (accounts, d')"
  proof (rule rfold_invariant [OF assms(1), where I = ?I])
    show "?I [] ([], d)" by simp
  next
    fix rs r ms ms' assume I: "?I rs ms" and "r \<in> set records" and step: "account_step domain_number schema identities r ms = Ok ms'"
    then have id: "identified identities r" using assms(2) by (simp add: list_all_iff)
    obtain m s m' s' where ms: "ms = (m, s)" "ms' = (m', s')" by (cases ms; cases ms') auto
    with step have "account_step domain_number schema identities r (m, s) = Ok (m', s')" by simp
    from account_step_cases [OF this id] consider (blocked) b where "s' = block b s"
      | (kept) "s' = s" "length m' = Suc (length m)"
      | (excluded) "s' = s\<lparr>pg_excluded_accounts := pg_excluded_accounts s + 1\<rparr>" "m' = m" by blast
    then show "?I (rs @ [r]) ms'"
    proof cases
      case (blocked b)
      have "keeps d s'" using I keeps_block keeps_trans by (auto simp: ms blocked)
      moreover have "pg_blockers s' \<noteq> pg_blockers d" using I by (auto simp: ms blocked keeps_def prefix_def)
      ultimately show ?thesis by (simp add: ms)
    next
      case excluded
      have "keeps d s'" using I keeps_excluded keeps_trans by (auto simp: ms excluded(1))
      with I excluded show ?thesis by (simp add: ms)
    qed (use I in \<open>simp add: ms\<close>)
  qed
  then show ?thesis by simp
qed

section \<open>Schemas of tables with rows\<close>

text \<open>A posting table that was not blocked and has rows was read with a schema, the General Journal aside.\<close>

lemma posting_table_schema:
  assumes "posting_table cal identities schemas witnesses rows st = Ok st'" and "pg_blockers (snd st') = []"
    and "is_posting_table (po_table (tr_policy rows))" and "po_status (tr_policy rows) \<noteq> PolicyUnsupported"
    and "po_table (tr_policy rows) \<noteq> GeneralJournalLine" and "tr_records rows \<noteq> []"
  shows "bt_get schemas (rows_table rows) \<noteq> None"
proof
  assume none: "bt_get schemas (rows_table rows) = None"
  have blocked: "pg_blockers (snd (fold (\<lambda>record. block_st (record_failed CheckLine record)) records st)) = []
      \<Longrightarrow> records = []" for records st
    by (induction records rule: rev_induct) (simp_all add: block_st_def)
  have no_lifecycle: "bill_lifecycle_states (tr_records rows) None = Err ()"
    using assms(6) by (simp add: bill_lifecycle_states_def ok_or_def)
  consider "po_table (tr_policy rows) = CheckLine" | "po_table (tr_policy rows) = BillLine"
    | "po_table (tr_policy rows) \<in> {BillPaymentCheckLine, DepositLine}"
    using assms(3,5) by (auto simp: is_posting_table_def)
  then show False
  proof cases
    case 1
    with none assms show ?thesis
      by (auto simp: posting_table_def check_table_def Let_def ok_or_def rows_table_def dest: blocked)
  next
    case 2
    with none assms no_lifecycle show ?thesis
      by (auto simp: posting_table_def bill_table_def Let_def rows_table_def attempt_def block_st_def)
  next
    case 3
    with none assms show ?thesis by (auto simp: posting_table_def Let_def rows_table_def block_st_def)
  qed
qed

lemma posting_tables_unblocked:
  assumes "rfold (posting_table cal identities schemas witnesses) tables st = Ok st'" and "pg_blockers (snd st') = []"
    and "rows \<in> set tables"
  shows "\<exists>s s'. posting_table cal identities schemas witnesses rows s = Ok s' \<and> pg_blockers (snd s') = []"
  using assms
proof (induction tables arbitrary: st)
  case (Cons t ts)
  obtain s where s: "posting_table cal identities schemas witnesses t st = Ok s"
    and rest: "rfold (posting_table cal identities schemas witnesses) ts s = Ok st'"
    using Cons.prems(1) by (auto simp: rbind_Ok_iff)
  have "advances others_balance (concat (map posting_origins ts)) s st'"
    by (rule advances_tables [OF posting_table_advances _ _ rest]) (simp_all add: others_balance_append)
  then have "grows s st'" by (rule advances_grows)
  then have clear: "pg_blockers (snd s) = []" using Cons.prems(2) by (auto simp: grows_def)
  show ?case
  proof (cases "rows = t")
    case True
    then show ?thesis using s clear by blast
  next
    case False
    then show ?thesis using Cons.IH [OF rest Cons.prems(2)] Cons.prems(3) by simp
  qed
qed simp

section \<open>A run that returns a ledger\<close>

definition counters :: "pipeline_diagnostics \<Rightarrow> (nat \<times> nat \<times> nat \<times> nat) \<times> nat" where
  "counters d = (posting_counts d, pg_excluded_accounts d)"

lemma counters_block [simp]: "counters (block b d) = counters d"
  by (simp add: counters_def posting_counts_def block_def)

lemma counters_tables [simp]: "counters (d\<lparr>pg_tables := m\<rparr>) = counters d"
  by (simp add: counters_def posting_counts_def)

lemma counters_fold: "(\<And>x d. counters (f x d) = counters d) \<Longrightarrow> counters (fold f xs d) = counters d"
  by (induction xs arbitrary: d) simp_all

lemma pipeline_coverage_counts:
  "posting_counts (pipeline_coverage columns account_rows line_tables schemas) = (0, 0, 0, 0)
   \<and> pg_excluded_accounts (pipeline_coverage columns account_rows line_tables schemas) = 0"
proof -
  have "counters (add_rows_coverage rows d) = counters d" for rows d
    by (simp add: add_rows_coverage_def add_table_coverage_def)
  moreover have "counters (check_policy_coverage schemas p d) = counters d" for p d
    by (simp add: check_policy_coverage_def Let_def split: option.split)
  moreover have "counters no_diagnostics = ((0, 0, 0, 0), 0)"
    by (simp add: counters_def posting_counts_def no_diagnostics_def)
  ultimately have "counters (pipeline_coverage columns account_rows line_tables schemas) = ((0, 0, 0, 0), 0)"
    unfolding pipeline_coverage_def Let_def
    by (simp add: counters_fold del: fold_simps split: outcome.split)
  then show ?thesis by (simp add: counters_def)
qed

definition postings_among :: "posting_disposition list \<Rightarrow> posting list" where
  "postings_among xs = List.map_filter (\<lambda>x. case x of Posting p \<Rightarrow> Some p | Excluded _ \<Rightarrow> None) xs"

lemma length_postings_among: "length (postings_among xs) = length (filter is_normalized xs)"
  by (induction xs) (auto simp: postings_among_def List.map_filter_simps is_normalized_def split: posting_disposition.split)

lemma hand_over_Ok:
  assumes "hand_over snapshot accounts dispositions d = Ok L"
  shows "ledger_new accounts (postings_among dispositions) Complete = Ok L"
    and "distinct (map candidate_row dispositions)"
  using assms
  by (auto simp: hand_over_def outcome_simps build_Ok_iff decoded_accounts_new_def decoded_postings_new_Ok_iff into_postings_def
      postings_among_def)

lemma finish_pipeline_ledger:
  assumes "finish_pipeline snapshot accounts dispositions d = Ok r" and "px_ledger r = Some L"
  shows "pg_blockers d = []" and "px_diagnostics r = d"
    and "hand_over snapshot accounts dispositions d = Ok L"
proof -
  let ?d = "settle_blockers d"
  have none: "pg_blockers ?d = []" and over: "hand_over snapshot accounts dispositions ?d = Ok L" and r: "px_diagnostics r = ?d"
    using assms by (auto simp: finish_pipeline_def Let_def rejected_result_def split: if_splits outcome.splits)
  have "set (pg_blockers d) = set (pg_blockers ?d)" by (simp add: settle_blockers_def)
  then have bs: "pg_blockers d = []" by (simp add: none)
  then show "pg_blockers d = []" .
  have "?d = d" using bs by (simp add: settle_blockers_def)
  with over r show "px_diagnostics r = d" and "hand_over snapshot accounts dispositions d = Ok L" by simp_all
qed

lemma advances_from_none:
  assumes "advances P rows ([], d) (xs, d')" and "pg_blockers d' = []"
  shows "settled_part d' = settled_part d" and "pg_blockers d = []" and "settles rows xs ([], d) (xs, d')" and "P xs"
proof -
  have g: "grows ([], d) (xs, d')" using assms(1) by (rule advances_grows)
  then show "settled_part d' = settled_part d" and d: "pg_blockers d = []" using assms(2) by (auto simp: grows_def)
  with assms obtain ys where "settles rows ys ([], d) (xs, d')" and "P ys" by (auto simp: advances_def)
  then show "settles rows xs ([], d) (xs, d')" and "P xs" by (auto simp: settles_def)
qed

text \<open>What the diagnostics and the ledger of a run say together.\<close>

definition accounts_for ::
    "row_origin list \<Rightarrow> sys_column list \<Rightarrow> table_rows \<Rightarrow> table_rows list \<Rightarrow> (u32, row_schema) btree \<Rightarrow> pipeline_diagnostics \<Rightarrow>
     posting_disposition list \<Rightarrow> bool" where
  "accounts_for origins columns account_rows line_tables schemas d dispositions \<longleftrightarrow>
     pg_blockers d = [] \<and> pg_tables d = pg_tables (pipeline_coverage columns account_rows line_tables schemas)
     \<and> list_all2 settled_as origins dispositions
     \<and> pg_posting_candidates d = length dispositions
     \<and> pg_normalized_postings d = length (filter is_normalized dispositions)
     \<and> pg_excluded_postings d = length (filter (Not \<circ> is_normalized) dispositions)
     \<and> pg_account_candidates d = length (tr_records account_rows)
     \<and> pg_normalized_accounts d + pg_excluded_accounts d = length (tr_records account_rows)"

lemma pipeline_run:
  assumes "build_pipeline_with_header_witnesses cal domain_number snapshot columns account_rows line_tables schemas witnesses = Ok r"
    and "px_ledger r = Some L"
  obtains accounts dispositions where
    "pg_blockers (pipeline_coverage columns account_rows line_tables schemas) = []"
    and "accounts_for (concat (map posting_origins line_tables)) columns account_rows line_tables schemas
      (px_diagnostics r) dispositions"
    and "others_balance dispositions" and "distinct (map candidate_row dispositions)"
    and "ledger_new accounts (postings_among dispositions) Complete = Ok L"
    and "length accounts = pg_normalized_accounts (px_diagnostics r)"
    and "bt_get schemas (table_id_of AccountUser) \<noteq> None"
    and "\<exists>identities. list_all (\<lambda>rows. \<exists>s s'. posting_table cal identities schemas witnesses rows s = Ok s'
           \<and> pg_blockers (snd s') = []) line_tables"
proof -
  let ?d = "pipeline_coverage columns account_rows line_tables schemas"
  let ?n = "length (tr_records account_rows)"
  note fresh = pipeline_coverage_counts [of columns account_rows line_tables schemas]
  obtain account_schema identities d1 accounts d2 dispositions d3 where
    one: "rfold account_identity_step (tr_records account_rows) ([], ?d\<lparr>pg_account_candidates := ?n\<rparr>) = Ok (identities, d1)"
    and two: "rfold (account_step domain_number account_schema identities) (tr_records account_rows) ([], d1) = Ok (accounts, d2)"
    and three: "rfold (posting_table cal identities schemas witnesses) line_tables
        ([], d2\<lparr>pg_normalized_accounts := length accounts\<rparr>) = Ok (dispositions, d3)"
    and finish: "finish_pipeline snapshot accounts dispositions d3 = Ok r"
    and account: "bt_get schemas (table_id_of AccountUser) \<noteq> None"
    using assms
    by (auto simp: build_pipeline_with_header_witnesses_def Let_def rbind_Ok_iff split: option.splits)
  note finished = finish_pipeline_ledger [OF finish assms(2)]
  have lines: "advances others_balance (concat (map posting_origins line_tables))
      ([], d2\<lparr>pg_normalized_accounts := length accounts\<rparr>) (dispositions, d3)"
    by (rule advances_tables [OF posting_table_advances _ _ three]) (simp_all add: others_balance_append)
  note posted = advances_from_none [OF lines finished(1)]
  have k2: "keeps d1 d2" by (rule account_rows_keep [OF two])
  have "pg_blockers d2 = []" using posted(2) by simp
  then have b1: "pg_blockers d1 = []" using k2 by (simp add: keeps_def)
  let ?begun = "?d\<lparr>pg_account_candidates := ?n\<rparr>"
  note ids = account_identities [OF one]
  have "pg_blockers ?begun = []" using ids b1 by (simp add: keeps_def)
  with ids b1 have d1: "d1 = ?begun" and identified: "list_all (identified identities) (tr_records account_rows)" by simp_all
  have excluded: "length accounts + pg_excluded_accounts d2 = ?n"
    using account_rows [OF two identified] b1 \<open>pg_blockers d2 = []\<close> fresh by (simp add: d1)
  have "length (concat (map posting_origins line_tables)) = length dispositions"
    using posted(3) by (auto simp: settles_def dest: list_all2_lengthD)
  then have run: "accounts_for (concat (map posting_origins line_tables)) columns account_rows line_tables schemas
      (px_diagnostics r) dispositions"
    using posted(1,3) finished(1,2) k2 fresh excluded
    by (simp add: accounts_for_def settles_def settled_part_def keeps_def posting_counts_def d1)
  have "pg_blockers ?d = []" using \<open>pg_blockers ?begun = []\<close> by simp
  moreover have "length accounts = pg_normalized_accounts (px_diagnostics r)"
    using posted(1) finished(2) by (simp add: settled_part_def)
  moreover have "list_all (\<lambda>rows. \<exists>s s'. posting_table cal identities schemas witnesses rows s = Ok s'
      \<and> pg_blockers (snd s') = []) line_tables"
    using posting_tables_unblocked [OF three] finished(1) by (simp add: list_all_iff)
  ultimately show thesis
    using that run posted(4) hand_over_Ok(2,1) [OF finished(3)] account by blast
qed

section \<open>Tables delivered as unsupported\<close>

text \<open>
  A table whose policy is unsupported is passed over. The collectors flag its coverage, and flagged
  coverage is never complete; a caller that fills in \<open>TableRows\<close> by hand can leave the flag out.
\<close>

definition unsupported_flagged :: "table_rows \<Rightarrow> bool" where
  "unsupported_flagged rows \<longleftrightarrow> (po_status (tr_policy rows) = PolicyUnsupported \<longrightarrow> tv_unsupported (tr_coverage rows))"

definition delivered_origins :: "table_rows \<Rightarrow> row_origin list" where
  "delivered_origins rows =
     (if is_posting_table (po_table (tr_policy rows))
      then table_origins (po_table (tr_policy rows)) (po_version (tr_policy rows)) (tr_records rows) else [])"

definition policy_covered :: "(u32, table_coverage) btree \<Rightarrow> table_policy \<Rightarrow> bool" where
  "policy_covered tables policy \<longleftrightarrow>
     po_status policy = PolicyPartial
     \<and> (case bt_get tables (table_id_of (po_table policy)) of Some c \<Rightarrow> coverage_complete c | None \<Rightarrow> False)"

text \<open>The schema of a policy with a layout has that layout; it may be missing only if no row needs it.\<close>

definition layout_attested :: "(u32, row_schema) btree \<Rightarrow> table_rows list \<Rightarrow> table_policy \<Rightarrow> bool" where
  "layout_attested schemas line_tables policy \<longleftrightarrow>
     (case po_storage policy of
        None \<Rightarrow> True
      | Some _ \<Rightarrow>
          (case bt_get schemas (table_id_of (po_table policy)) of
             Some schema \<Rightarrow> policy_schema_matches policy schema
           | None \<Rightarrow> is_posting_table (po_table policy)
               \<and> list_all (\<lambda>rows. po_table (tr_policy rows) = po_table policy \<longrightarrow> tr_records rows = []) line_tables))"

lemma policy_holds_covered: "policy_holds schemas tables policy \<Longrightarrow> policy_covered tables policy"
  by (simp add: policy_holds_def policy_covered_def split: option.splits)

lemma supported_tables:
  assumes "pg_blockers (pipeline_coverage columns account_rows line_tables schemas) = []"
    and "list_all unsupported_flagged line_tables" and "rows \<in> set line_tables"
    and "is_posting_table (po_table (tr_policy rows))"
  shows "po_status (tr_policy rows) \<noteq> PolicyUnsupported"
proof -
  let ?tables = "pg_tables (pipeline_coverage columns account_rows line_tables schemas)"
  have filed: "bt_get ?tables (rows_table rows) = Some (tr_coverage rows)"
    using pipeline_coverage_gates(4) [OF assms(1)] assms(3) by (simp add: list_all_iff)
  have "list_ex (\<lambda>p. po_table p = po_table (tr_policy rows)) r21_policies"
    using assms(4) by (auto simp: is_posting_table_def r21_policies_def)
  then obtain p where "p \<in> set r21_policies" "po_table p = po_table (tr_policy rows)" by (auto simp: list_ex_iff)
  then have "coverage_complete (tr_coverage rows)"
    using pipeline_coverage_gates(2) [OF assms(1)] filed by (auto simp: list_all_iff policy_holds_def rows_table_def)
  then show ?thesis
    using assms(2,3) by (auto simp: list_all_iff unsupported_flagged_def coverage_complete_def)
qed

lemma delivered_origins_posted:
  assumes "pg_blockers (pipeline_coverage columns account_rows line_tables schemas) = []"
    and "list_all unsupported_flagged line_tables"
  shows "concat (map posting_origins line_tables) = concat (map delivered_origins line_tables)"
  using supported_tables [OF assms] by (intro arg_cong [where f = concat] map_cong) (auto simp: posting_origins_def delivered_origins_def)

lemma attested_layouts:
  assumes covered: "pg_blockers (pipeline_coverage columns account_rows line_tables schemas) = []"
    and flagged: "list_all unsupported_flagged line_tables" and account: "bt_get schemas (table_id_of AccountUser) \<noteq> None"
    and posted: "list_all (\<lambda>rows. \<exists>s s'. posting_table cal identities schemas witnesses rows s = Ok s'
           \<and> pg_blockers (snd s') = []) line_tables"
  shows "list_all (layout_attested schemas line_tables) r21_policies"
proof -
  have "layout_attested schemas line_tables p" if "p \<in> set r21_policies" for p
  proof (cases "po_storage p")
    case (Some storage)
    show ?thesis
    proof (cases "bt_get schemas (table_id_of (po_table p))")
      case None
      have p: "po_table p \<noteq> GeneralJournalLine" and posting: "po_table p = AccountUser \<or> is_posting_table (po_table p)"
        using that Some by (auto simp: r21_policies_def is_posting_table_def)
      then have "is_posting_table (po_table p)" using account None by auto
      moreover have "tr_records rows = []" if "rows \<in> set line_tables" "po_table (tr_policy rows) = po_table p" for rows
      proof (rule ccontr)
        assume "tr_records rows \<noteq> []"
        moreover obtain s s' where "posting_table cal identities schemas witnesses rows s = Ok s'" "pg_blockers (snd s') = []"
          using posted \<open>rows \<in> set line_tables\<close> by (auto simp: list_all_iff)
        moreover have "po_status (tr_policy rows) \<noteq> PolicyUnsupported"
          using supported_tables [OF covered flagged] that \<open>is_posting_table (po_table p)\<close> by simp
        ultimately have "bt_get schemas (rows_table rows) \<noteq> None"
          using posting_table_schema that p \<open>is_posting_table (po_table p)\<close> by metis
        then show False using None that by (simp add: rows_table_def)
      qed
      ultimately show ?thesis by (simp add: layout_attested_def Some None list_all_iff)
    next
      case (Some schema)
      have "policy_holds schemas (pg_tables (pipeline_coverage columns account_rows line_tables schemas)) p"
        using pipeline_coverage_gates(2) [OF covered] that by (simp add: list_all_iff)
      then show ?thesis
        using Some \<open>po_storage p = Some storage\<close> by (simp add: policy_holds_def layout_attested_def split: option.splits)
    qed
  qed (simp add: layout_attested_def)
  then show ?thesis by (simp add: list_all_iff)
qed

text \<open>No collector delivers an unsupported table without the flag.\<close>

lemma policies_partial: "r21_policy table = Some p \<Longrightarrow> po_status p = PolicyPartial"
  by (auto simp: r21_policy_def r21_policies_def split: if_splits)

lemma bill_rows_flagged:
  assumes "collect_bill_table_rows decode segment scan expectation schema = Ok rows"
  shows "unsupported_flagged rows"
  using assms
  by (auto simp: collect_bill_table_rows_def Let_def rbind_Ok_iff or_panic_iff unsupported_flagged_def
      dest!: policies_partial)

lemma check_rows_flagged:
  assumes "collect_check_prefix_table_rows decode scan schema expectation = Ok rows"
  shows "unsupported_flagged rows"
  using assms
  by (auto simp: collect_check_prefix_table_rows_def Let_def rbind_Ok_iff or_panic_iff unsupported_flagged_def
      dest!: policies_partial)

lemma journal_rows_flagged:
  assumes "collect_general_journal_table_rows cal segment scan expectation = Ok rows"
  shows "unsupported_flagged rows"
  using assms
  by (auto simp: collect_general_journal_table_rows_def Let_def rbind_Ok_iff or_panic_iff unsupported_flagged_def
      dest!: policies_partial)

lemma partial_rows_flagged:
  assumes "collect_partial_table_rows decode segment scan policy schema expectation = Ok rows"
  shows "unsupported_flagged rows"
proof (cases "po_table policy = BillLine")
  case True
  then show ?thesis
    using assms by (auto simp: collect_partial_table_rows_def Let_def collect_bill_rows_def intro: bill_rows_flagged)
next
  case False
  then show ?thesis
    using assms
    by (auto simp: collect_partial_table_rows_def Let_def rbind_Ok_iff unsupported_flagged_def split: if_splits)
qed

lemmas collected_rows_flagged = partial_rows_flagged check_rows_flagged journal_rows_flagged bill_rows_flagged

end
