(* ===== verification/Example_Catalog.thy ===== *)
theory Example_Catalog
  imports Schema_Adapter
begin

text \<open>
  A catalog that the schema manifest of R21 accepts: the twelve tables with their numbers of
  columns, nameless columns in the order of their ordinals, and in the last column of each table
  default bytes that bring the FNV-1 fingerprint to the value the manifest demands.
\<close>

definition blank_column :: "u32 \<Rightarrow> int \<Rightarrow> byte list \<Rightarrow> sys_column" where
  "blank_column t ordinal extra =
     \<lparr>col_name = [], col_table = t, col_ordinal = word_of_int ordinal, col_domain = 0, col_marker = 0, col_nulls = 0,
      col_width = 0, col_scale = 0, col_object = 0, col_identity = 0, col_post_name = extra, col_row_length = 0,
      col_row_flags = 0, col_page = 0, col_trailer = None, col_row_offset = 0, col_tag_offset = 0\<rparr>"

definition blank_table :: "u32 \<times> int \<times> byte list \<Rightarrow> sys_column list" where
  "blank_table table = (case table of (t, n, extra) \<Rightarrow> map (\<lambda>i. blank_column t i []) [1..n - 1] @ [blank_column t n extra])"

definition blank_tables :: "(u32 \<times> int \<times> byte list) list" where
  "blank_tables =
     [(3025, 29, [13, 23, 5, 0, 11, 9, 4, 16, 9, 3, 57, 3, 59, 49]),
      (3026, 36, [29, 29, 0, 14, 6, 1, 12, 13, 118, 7, 4, 7, 6, 15]),
      (3038, 35, [9, 50, 121, 6, 0, 15, 10, 17, 5, 2, 8, 13, 7, 57]),
      (3039, 52, [0, 0, 17, 7, 59, 5, 18, 50, 30, 3, 57, 22, 61, 5, 1]),
      (3040, 37, [4, 12, 5, 1, 7, 7, 246, 7, 6, 6, 8, 3, 2, 24]),
      (3042, 86, [2, 25, 29, 127, 0, 55, 10, 5, 15, 5, 24, 55, 51, 117]),
      (3045, 42, [2, 4, 30, 20, 3, 14, 4, 28, 29, 59, 27, 18, 7, 6]),
      (3047, 90, [4, 2, 28, 3, 10, 31, 5, 3, 22, 50, 58, 27, 14, 31]),
      (3068, 31, [29, 3, 29, 4, 1, 24, 12, 0, 5, 57, 2, 13, 7, 26]),
      (3069, 52, [24, 13, 1, 0, 27, 3, 4, 2, 5, 25, 7, 1, 11, 9]),
      (3076, 32, [6, 126, 122, 123, 9, 249, 27, 27, 3, 12, 18, 6, 250, 56]),
      (3078, 67, [194, 7, 12, 0, 26, 7, 9, 14, 15, 7, 23, 7, 4, 1, 13])]"

definition example_catalog :: "sys_column list" where
  "example_catalog = concat (map blank_table blank_tables)"

section \<open>The fingerprint of blank columns\<close>

text \<open>The fifteen bytes of a blank column are its ordinal and zeros: a step and fourteen multiplications.\<close>

definition blank_step :: "int \<Rightarrow> int \<Rightarrow> int" where
  "blank_step ordinal state =
     take_bit 64 (take_bit 64 (xor (take_bit 64 (state * 0x100000001b3)) ordinal) * 104005896588101465)"

lemma fnv_zero: "fnv_byte 0 state = state * 0x100000001b3"
  by (simp add: fnv_byte_def)

lemma blank_ordinals: "list_all (\<lambda>i. to_le_bytes (word_of_int i :: u32) = [word_of_int i, 0, 0, 0]) [1..90]"
  by code_simp

lemma word_reduce: "(word_of_int (take_bit 64 x) :: u64) = word_of_int x"
  by transfer simp

lemma word_xor: "(word_of_int (xor x y) :: u64) = xor (word_of_int x) (word_of_int y)"
  by transfer simp

lemma word_ordinal:
  assumes "0 \<le> i" and "i < 256"
  shows "(ucast (word_of_int i :: u8) :: u64) = word_of_int i"
proof -
  have small: "uint (word_of_int i :: u8) = i" using assms by (simp add: uint_word_of_int_eq take_bit_int_eq_self)
  show ?thesis using assms by (simp only: word_uint_eq_iff unsigned_ucast_eq small) (simp add: uint_word_of_int_eq)
qed

lemma blank_step_word:
  assumes "0 \<le> i" and "i < 256"
  shows "fnv_byte (word_of_int i) (word_of_int state) * 104005896588101465 = word_of_int (blank_step i state)"
  unfolding blank_step_def fnv_byte_def word_reduce word_xor wi_hom_mult [symmetric] word_ordinal [OF assms] by simp

lemma fold_blank_column:
  assumes "i \<in> set [1..90]"
  shows "fold fnv_byte (fingerprint_bytes (blank_column t i extra)) (word_of_int state)
    = fold fnv_byte extra (word_of_int (blank_step i state))"
proof -
  have bytes: "to_le_bytes (word_of_int i :: u32) = [word_of_int i, 0, 0, 0]"
    using assms blank_ordinals by (simp only: list_all_iff)
  have zeros: "to_le_bytes (0 :: u16) = [0, 0]" "to_le_bytes (0 :: u32) = [0, 0, 0, 0]" by code_simp+
  have step: "fnv_byte (word_of_int i) (word_of_int state) * 104005896588101465 = word_of_int (blank_step i state)"
    by (rule blank_step_word) (use assms in simp_all)
  have power: "(3773962445724850281094132366628827874633425712222119911694180697464802012420099356234159405629063288025388917097143365801319288516479928531133450585016382182542495582041 :: u64) = 104005896588101465" by simp
  show ?thesis
    by (simp add: fingerprint_bytes_def blank_column_def fnv_zero mult.assoc bytes zeros) (simp only: power step)
qed

lemma fold_blank_columns:
  assumes "set is \<subseteq> set [1..90]"
  shows "fold (\<lambda>column state. fold fnv_byte (fingerprint_bytes column) state) (map (\<lambda>i. blank_column t i []) is) (word_of_int state)
    = word_of_int (fold blank_step is state)"
  using assms by (induction "is" arbitrary: state) (simp_all add: fold_blank_column)

definition blank_walk :: "int \<Rightarrow> int" where
  "blank_walk n = fold blank_step [1..n] 0xcbf29ce484222325"

lemma blank_fingerprint:
  assumes "1 \<le> n" and "n \<le> 90"
  shows "schema_fingerprint (blank_table (t, n, extra)) = fold fnv_byte extra (word_of_int (blank_walk n))"
proof -
  have state: "blank_step n (fold blank_step [1..n - 1] 0xcbf29ce484222325) = blank_walk n"
    using assms(1) upto_rec2 [of 1 n] by (simp add: blank_walk_def)
  have "fold (\<lambda>column state. fold fnv_byte (fingerprint_bytes column) state) (map (\<lambda>i. blank_column t i []) [1..n - 1])
      (word_of_int 0xcbf29ce484222325) = word_of_int (fold blank_step [1..n - 1] 0xcbf29ce484222325)"
    by (rule fold_blank_columns) (use assms in auto)
  then have "schema_fingerprint (blank_table (t, n, extra))
      = fold fnv_byte (fingerprint_bytes (blank_column t n extra)) (word_of_int (fold blank_step [1..n - 1] 0xcbf29ce484222325))"
    by (simp add: schema_fingerprint_def blank_table_def)
  also have "\<dots> = fold fnv_byte extra (word_of_int (blank_walk n))"
    unfolding state [symmetric] by (rule fold_blank_column) (use assms in simp)
  finally show ?thesis .
qed

text \<open>Where the walk over the blank columns of each table ends.\<close>

lemma blank_walk_29: "blank_walk 29 = 13188618824825843746"
  by code_simp

lemma blank_walk_31: "blank_walk 31 = 12007638814685441983"
  by code_simp

lemma blank_walk_32: "blank_walk 32 = 9876695852725039141"
  by code_simp

lemma blank_walk_35: "blank_walk 35 = 16971310281856548067"
  by code_simp

lemma blank_walk_36: "blank_walk 36 = 17564274335760117397"
  by code_simp

lemma blank_walk_37: "blank_walk 37 = 17637100631566915706"
  by code_simp

lemma blank_walk_42: "blank_walk 42 = 10356452175442709496"
  by code_simp

lemma blank_walk_52: "blank_walk 52 = 480137043460020629"
  by code_simp

lemma blank_walk_67: "blank_walk 67 = 16334980649347917379"
  by code_simp

lemma blank_walk_86: "blank_walk 86 = 17514391332027253768"
  by code_simp

lemma blank_walk_90: "blank_walk 90 = 268087165917087544"
  by code_simp

section \<open>The manifest accepts the catalog\<close>

lemma blank_table_map:
  assumes "1 \<le> n"
  shows "blank_table (t, n, extra) = map (\<lambda>i. blank_column t i (if i = n then extra else [])) [1..n]"
  using assms by (simp add: blank_table_def upto_rec2 [of 1 n])

lemma map_nat_upto: "map nat [1..int k] = [1..<Suc k]"
  by (induction k) (simp_all add: upto_rec2 nat_add_distrib)

lemma ordinal_number:
  assumes "0 \<le> i" and "i \<le> 90"
  shows "uint (word_of_int i :: u32) = i"
  using assms by (simp add: uint_word_of_int_eq take_bit_int_eq_self)

lemma ordinal_index:
  assumes "0 \<le> i" and "i \<le> 90"
  shows "unat (word_of_int i :: u32) = nat i"
  by (simp only: unat_eq_nat_uint ordinal_number [OF assms])

lemma blank_table_sorted:
  assumes "1 \<le> n" and "n \<le> 90"
  shows "sort_key (\<lambda>c. (col_ordinal c, col_name c)) (blank_table (t, n, extra)) = blank_table (t, n, extra)"
proof (rule sort_key_id_if_sorted)
  have "mono_on (set [1..n]) (\<lambda>i. (word_of_int i :: u32, [] :: string))"
    using assms by (auto simp: mono_on_def word_le_def ordinal_number)
  then have "sorted (map (\<lambda>i. (word_of_int i :: u32, [] :: string)) [1..n])"
    by (intro sorted_map_mono) simp
  then show "sorted (map (\<lambda>c. (col_ordinal c, col_name c)) (blank_table (t, n, extra)))"
    by (simp add: blank_table_map [OF assms(1)] blank_column_def comp_def)
qed

lemma blank_table_ordinals:
  assumes "1 \<le> n" and "n \<le> 90"
  shows "map (\<lambda>c. unat (col_ordinal c)) (blank_table (t, n, extra)) = [1..<Suc (nat n)]"
proof -
  have "map (\<lambda>c. unat (col_ordinal c)) (blank_table (t, n, extra)) = map nat [1..n]"
    unfolding blank_table_map [OF assms(1)] map_map comp_def
    by (rule map_cong) (use assms in \<open>simp_all add: blank_column_def ordinal_index\<close>)
  also have "\<dots> = [1..<Suc (nat n)]" using map_nat_upto [of "nat n"] assms by simp
  finally show ?thesis .
qed

lemma blank_table_of: "filter (\<lambda>c. col_table c = t) (blank_table (t', n, extra)) = (if t' = t then blank_table (t', n, extra) else [])"
  by (auto simp: blank_table_def blank_column_def)

text \<open>A table of the catalog has what its manifest entry demands.\<close>

definition entry_matches :: "u32 \<times> int \<times> byte list \<Rightarrow> table_manifest \<Rightarrow> bool" where
  "entry_matches table m \<longleftrightarrow>
     (case table of (t, n, extra) \<Rightarrow>
        filter (\<lambda>c. col_table c = t) example_catalog = blank_table table \<and> 1 \<le> n \<and> n \<le> 90
        \<and> mf_table m = t \<and> mf_count m = word_of_int n
        \<and> fold fnv_byte extra (word_of_int (blank_walk n)) = mf_fingerprint m)"

lemma entry_matches_holds:
  assumes "entry_matches table m"
  shows "manifest_holds example_catalog m"
proof -
  obtain t n extra where table: "table = (t, n, extra)" by (cases table)
  have n: "1 \<le> n" "n \<le> 90" and m: "mf_table m = t" "mf_count m = word_of_int n"
    and rows: "filter (\<lambda>c. col_table c = t) example_catalog = blank_table (t, n, extra)"
    and ends: "fold fnv_byte extra (word_of_int (blank_walk n)) = mf_fingerprint m"
    using assms by (simp_all add: entry_matches_def table)
  have "unat (mf_count m) = nat n" using n by (simp add: m ordinal_index)
  then show ?thesis
    using blank_table_ordinals [OF n] blank_fingerprint [OF n]
    by (simp add: manifest_holds_def manifest_columns_def m rows ends blank_table_sorted [OF n] del: upt_Suc)
qed

lemmas blank_walks =
  blank_walk_29 blank_walk_31 blank_walk_32 blank_walk_35 blank_walk_36 blank_walk_37 blank_walk_42 blank_walk_52
  blank_walk_67 blank_walk_86 blank_walk_90

lemma blank_tables_match: "list_all2 entry_matches blank_tables r21_schema_manifest"
  by (simp add: blank_tables_def r21_schema_manifest_def entry_matches_def example_catalog_def blank_table_of
    blank_walks fnv_byte_def)

lemma example_catalog_valid: "validate_r21_schema_manifest example_catalog = Ok ()"
  unfolding validate_r21_schema_manifest_Ok
  using list.rel_mono_strong [OF blank_tables_match] entry_matches_holds
  by (metis list_all2_lengthD list_all_length blank_tables_match list_all2_nthD2)

end
