(* ===== verification/Example_Company.thy ===== *)
theory Example_Company
  imports Pipeline_Ledger Row_Properties Example_Catalog "HOL-Library.Code_Target_Nat"
begin

text \<open>
  A company file on which the pipeline returns a ledger: two accounts, a bill of two lines,
  complete coverage of every table and a catalog that the manifest accepts.
\<close>

section \<open>Schemas\<close>

definition schema_column :: "nat \<Rightarrow> column_def" where
  "schema_column index =
     (case find (\<lambda>c. fst (snd c) = index) account_columns of
        Some (ordinal, _, name, domain, width, nullable) \<Rightarrow>
          \<lparr>cd_id = ordinal, cd_name = name,
           cd_type = (if domain = 1 then ColSmallInt else if domain = 2 then ColInteger
                      else if domain = 9 then ColChar else ColBoolean),
           cd_width = width, cd_nullable = nullable\<rparr>
      | None \<Rightarrow> \<lparr>cd_id = word_of_nat (index + 1), cd_name = ''other'', cd_type = ColChar, cd_width = 8, cd_nullable = True\<rparr>)"

definition example_domain :: "column_type \<Rightarrow> u16" where
  "example_domain ty = (case ty of ColSmallInt \<Rightarrow> 1 | ColInteger \<Rightarrow> 2 | ColChar \<Rightarrow> 9 | ColBoolean \<Rightarrow> 24 | _ \<Rightarrow> 0)"

definition flag_columns :: "column_def list" where
  "flag_columns =
     [\<lparr>cd_id = 1, cd_name = ''is_no_post_bool'', cd_type = ColBoolean, cd_width = 1, cd_nullable = False\<rparr>,
      \<lparr>cd_id = 2, cd_name = ''is_memorized_transaction_bool'', cd_type = ColBoolean, cd_width = 1, cd_nullable = False\<rparr>]"

definition stored_as :: "storage_attestation \<Rightarrow> column_def list \<Rightarrow> row_schema" where
  "stored_as storage columns =
     \<lparr>sch_columns = columns, sch_boolean_tail = sto_boolean_tail storage, sch_numeric = sto_numeric storage,
      sch_enum = sto_enum storage, sch_overflow = sto_overflow storage, sch_length = sto_length storage,
      sch_null_layout = sto_null_layout storage, sch_null_coverage = sto_null_coverage storage,
      sch_prefix = sto_prefix storage\<rparr>"

definition example_schemas :: "(u32, row_schema) btree" where
  "example_schemas =
     fold (\<lambda>policy m.
         (case po_storage policy of
            None \<Rightarrow> m
          | Some storage \<Rightarrow>
              bt_insert (table_id_of (po_table policy))
                (stored_as storage (if po_table policy = AccountUser then map schema_column [0..<36] else flag_columns)) m))
       r21_policies []"

section \<open>Rows\<close>

definition partial_of :: "u32 \<Rightarrow> (u32 \<times> sql_value) list \<Rightarrow> (u32 \<times> sql_value) list \<Rightarrow> partial_row" where
  "partial_of through leading booleans =
     \<lparr>pr_declared_size = 0, pr_flags = 0, pr_through = through,
      pr_prefix = map (\<lambda>(column, v). \<lparr>rv_index = unat column - 1, rv_column = column, rv_value = v\<rparr>) leading,
      pr_booleans = map (\<lambda>(column, v). \<lparr>rv_index = unat column - 1, rv_column = column, rv_value = v\<rparr>) booleans,
      pr_opaque = 0\<rparr>"

definition account_bytes :: "byte \<Rightarrow> byte \<Rightarrow> byte \<Rightarrow> byte list" where
  "account_bytes number name code =
     [70, 0, 0x40, 0] @ replicate 4 0 @ reference number @ replicate 16 0 @ reference 1 @ reference 0 @ [1, name]
       @ replicate 27 0 @ [code, 0, 0, 0, 0]"

definition account_record :: "u16 \<Rightarrow> byte \<Rightarrow> byte \<Rightarrow> byte \<Rightarrow> partial_record" where
  "account_record record_id number name code =
     \<lparr>pd_page = 1, pd_record = record_id, pd_bytes = account_bytes number name code,
      pd_partial = partial_of 24
        [(1, SqlInteger (ucast number)), (6, SqlBytes [name]), (12, SqlNull), (18, SqlInteger (ucast code)), (22, SqlNull),
         (24, SqlNull)]
        [(7, SqlBoolean False), (8, SqlBoolean False), (9, SqlBoolean False)]\<rparr>"

definition bill_bytes :: "byte \<Rightarrow> byte \<Rightarrow> byte \<Rightarrow> byte list" where
  "bill_bytes target account marker =
     [41, 0, 0x40, 2, 0xe4] @ replicate 7 0 @ reference target @ reference 20 @ reference account @ reference 0
       @ [9, 0] @ [1, marker, 12] @ replicate 7 0 @ [0x81]"

definition bill_record :: "u16 \<Rightarrow> byte \<Rightarrow> byte \<Rightarrow> byte \<Rightarrow> partial_record" where
  "bill_record record_id target account marker =
     \<lparr>pd_page = 2, pd_record = record_id, pd_bytes = bill_bytes target account marker,
      pd_partial = partial_of 34 [] [(1, SqlBoolean False), (2, SqlBoolean False)]\<rparr>"

definition example_records :: "accounting_table \<Rightarrow> partial_record list" where
  "example_records table =
     (if table = AccountUser then [account_record 0 3 65 0, account_record 1 4 66 12]
      else if table = BillLine then [bill_record 0 1 4 0xbf, bill_record 1 2 3 0x3f]
      else [])"

definition example_rows :: "table_policy \<Rightarrow> table_rows" where
  "example_rows policy =
     (let records = example_records (po_table policy); n = length records in
      \<lparr>tr_policy = policy, tr_records = records,
       tr_coverage =
         \<lparr>tv_table = table_id_of (po_table policy), tv_groups = 1, tv_expected_records = Some (word_of_nat n),
          tv_expected_pages = Some 1, tv_expected_external = Some 0, tv_resolved = n, tv_unresolved = 0, tv_missing = 0,
          tv_disagreements = 0, tv_failures = 0, tv_artifacts = 0, tv_logical_carriers = 0, tv_aliases = 0,
          tv_external_text = 0, tv_empty_surplus = 0, tv_unsupported = False, tv_layout_pending = False\<rparr>\<rparr>)"

definition example_pipeline :: "(unit, pipeline_result) outcome" where
  "example_pipeline =
     build_pipeline_with_header_witnesses epoch_calendar example_domain (SourceSnapshotId ''s'') example_catalog
       (example_rows (hd r21_policies)) (map example_rows (tl r21_policies)) example_schemas []"

lemma example_pipeline_returns:
  "case example_pipeline of
     Ok r \<Rightarrow> (case px_ledger r of Some L \<Rightarrow> length (led_postings L) = 2 | None \<Rightarrow> False)
   | _ \<Rightarrow> False"
  unfolding example_pipeline_def build_pipeline_with_header_witnesses_def pipeline_coverage_def example_catalog_valid
    outcome.case
  by code_simp

lemma example_run:
  obtains r L where "example_pipeline = Ok r" and "px_ledger r = Some L" and "length (led_postings L) = 2"
  using example_pipeline_returns by (auto split: outcome.splits option.splits)

lemma example_flagged: "list_all unsupported_flagged (map example_rows (tl r21_policies))"
  by (simp add: list.pred_map r21_policies_def unsupported_flagged_def example_rows_def Let_def)

text \<open>
  The same company with its bill lines called unsupported by hand, their complete coverage kept: the pipeline
  returns a ledger without them.
\<close>

definition unsupported_bills :: "table_rows list" where
  "unsupported_bills =
     map (\<lambda>rows. if po_table (tr_policy rows) = BillLine
             then rows\<lparr>tr_policy := (tr_policy rows)\<lparr>po_status := PolicyUnsupported\<rparr>\<rparr> else rows)
       (map example_rows (tl r21_policies))"

lemma unsupported_rows_skipped:
  "case build_pipeline_with_header_witnesses epoch_calendar example_domain (SourceSnapshotId ''s'') example_catalog
       (example_rows (hd r21_policies)) unsupported_bills example_schemas [] of
     Ok r \<Rightarrow> (case px_ledger r of Some L \<Rightarrow> led_postings L = [] | None \<Rightarrow> False)
   | _ \<Rightarrow> False"
  unfolding build_pipeline_with_header_witnesses_def pipeline_coverage_def example_catalog_valid
    outcome.case
  by code_simp

lemma unsupported_rows_delivered:
  "length (concat (map delivered_origins unsupported_bills)) = 2 \<and> \<not> list_all unsupported_flagged unsupported_bills"
  by code_simp

end
