(* ===== verification/Pipeline_Properties.thy ===== *)
theory Pipeline_Properties
  imports Example_Company Key_Resolution
begin

text \<open>
  The properties of the pipeline that turns decoded tables into a ledger, and of the schemas, keys and
  account rows it starts from.
\<close>

section \<open>The pipeline\<close>

text \<open>C1: The pipeline returns a ledger only for a complete file. When the coverage of a table that the policy
  calls unsupported says so, as that of every collector does, a returned ledger means that the catalog holds what the schema
  manifest demands of every table; that every policy has complete coverage; that the schema of a policy with an
  attested storage layout has this layout, a schema being absent only for a posting table without a row (the
  General Journal has no such layout); that no table was delivered twice or under the number of another; and
  that the ledger satisfies the invariant of \<open>Ledger::new\<close>.\<close>

theorem pipeline_ledger_attested:
  assumes "build_pipeline_with_header_witnesses cal domain_number snapshot columns account_rows line_tables schemas witnesses = Ok r"
    and "px_ledger r = Some L" and "list_all unsupported_flagged line_tables"
  shows "list_all (manifest_holds columns) r21_schema_manifest
    \<and> list_all (policy_covered (pg_tables (px_diagnostics r))) r21_policies
    \<and> list_all (layout_attested schemas line_tables) r21_policies
    \<and> distinct (map rows_table (account_rows # line_tables))
    \<and> list_all (\<lambda>rows. bt_get (pg_tables (px_diagnostics r)) (rows_table rows) = Some (tr_coverage rows)
         \<and> tv_table (tr_coverage rows) = rows_table rows) (account_rows # line_tables)
    \<and> ledger_ok L"
proof -
  let ?d = "pipeline_coverage columns account_rows line_tables schemas"
  obtain accounts dispositions where covered: "pg_blockers ?d = []"
    and run: "accounts_for (concat (map posting_origins line_tables)) columns account_rows line_tables schemas
      (px_diagnostics r) dispositions"
    and "others_balance dispositions" and "distinct (map candidate_row dispositions)"
    and ledger: "ledger_new accounts (postings_among dispositions) Complete = Ok L"
    and "length accounts = pg_normalized_accounts (px_diagnostics r)"
    and account: "bt_get schemas (table_id_of AccountUser) \<noteq> None"
    and "\<exists>identities. list_all (\<lambda>rows. \<exists>s s'. posting_table cal identities schemas witnesses rows s = Ok s'
      \<and> pg_blockers (snd s') = []) line_tables"
    by (rule pipeline_run [OF assms(1,2)])
  then obtain identities where posted: "list_all (\<lambda>rows. \<exists>s s'. posting_table cal identities schemas witnesses rows s = Ok s'
      \<and> pg_blockers (snd s') = []) line_tables" by (elim exE)
  note gates = pipeline_coverage_gates [OF covered]
  have tables: "pg_tables (px_diagnostics r) = pg_tables ?d" using run by (simp add: accounts_for_def)
  have "list_all (policy_covered (pg_tables ?d)) r21_policies"
    using gates(2) by (rule list.pred_mono_strong) (rule policy_holds_covered)
  moreover have "list_all (layout_attested schemas line_tables) r21_policies"
    by (rule attested_layouts [OF covered assms(3) account posted])
  moreover have "list_all (manifest_holds columns) r21_schema_manifest"
    using gates(1) by (simp only: validate_r21_schema_manifest_Ok)
  ultimately show ?thesis
    unfolding tables using gates(3,4) ledger_new_ledger_ok [OF ledger] by blast
qed

lemma pipeline_ledger_attested_witness:
  "\<exists>r L. example_pipeline = Ok r \<and> px_ledger r = Some L \<and> led_postings L \<noteq> [] \<and> ledger_ok L
    \<and> list_all (layout_attested example_schemas (map example_rows (tl r21_policies))) r21_policies"
proof -
  obtain r L where run: "example_pipeline = Ok r" "px_ledger r = Some L" "length (led_postings L) = 2" by (rule example_run)
  with pipeline_ledger_attested [OF run(1) [unfolded example_pipeline_def] run(2) example_flagged] show ?thesis by force
qed

text \<open>C2: No row is lost, invented or counted twice. When the coverage of a table that the policy calls unsupported
  says so, as that of every collector does, and the pipeline returns a ledger, the rows of every posting table that was delivered, in
  the order of delivery, correspond one to one to dispositions that carry their provenance; the ledger
  holds exactly the postings among these, no two rows share a source, and the counters of the diagnostics add
  up. The condition is needed: the rows of a table that is called unsupported without the flag are passed over.\<close>

theorem pipeline_rows_conserved:
  assumes "build_pipeline_with_header_witnesses cal domain_number snapshot columns account_rows line_tables schemas witnesses = Ok r"
    and "px_ledger r = Some L" and "list_all unsupported_flagged line_tables"
  shows "\<exists>dispositions. accounts_for (concat (map delivered_origins line_tables)) columns account_rows line_tables schemas
        (px_diagnostics r) dispositions
    \<and> distinct (map candidate_row dispositions) \<and> led_postings L = postings_among dispositions
    \<and> led_completeness L = Complete"
proof -
  obtain accounts dispositions where covered: "pg_blockers (pipeline_coverage columns account_rows line_tables schemas) = []"
    and run: "accounts_for (concat (map posting_origins line_tables)) columns account_rows line_tables schemas
      (px_diagnostics r) dispositions"
    and "distinct (map candidate_row dispositions)"
    and "ledger_new accounts (postings_among dispositions) Complete = Ok L"
    using pipeline_run [OF assms(1,2)] by blast
  then show ?thesis
    unfolding delivered_origins_posted [OF covered assms(3), symmetric]
    by (metis ledger_new_Ok ledger.select_convs(2,3))
qed

lemma pipeline_rows_conserved_witness:
  "\<exists>r L dispositions. example_pipeline = Ok r \<and> px_ledger r = Some L
    \<and> accounts_for (concat (map delivered_origins (map example_rows (tl r21_policies)))) example_catalog
      (example_rows (hd r21_policies)) (map example_rows (tl r21_policies)) example_schemas (px_diagnostics r) dispositions
    \<and> led_postings L = postings_among dispositions \<and> led_postings L \<noteq> []"
proof -
  obtain r L where run: "example_pipeline = Ok r" "px_ledger r = Some L" "length (led_postings L) = 2" by (rule example_run)
  with pipeline_rows_conserved [OF run(1) [unfolded example_pipeline_def] run(2) example_flagged] show ?thesis by force
qed

text \<open>C3: In a ledger that the pipeline returns, the postings of every transaction sum to zero over all tables,
  the payments of bills left aside: theirs are the only rows that no family of the pipeline balances.\<close>

theorem pipeline_transactions_balance:
  assumes "build_pipeline_with_header_witnesses cal domain_number snapshot columns account_rows line_tables schemas witnesses = Ok r"
    and "px_ledger r = Some L"
  shows "(\<Sum>p\<leftarrow>filter (\<lambda>p. post_transaction p = t \<and> post_type p \<noteq> Some (transaction_type_label TypeBillPaymentCheck))
      (led_postings L). sint (post_signed p)) = 0"
proof -
  obtain accounts dispositions where balance: "others_balance dispositions"
    and ledger: "ledger_new accounts (postings_among dispositions) Complete = Ok L"
    using pipeline_run [OF assms] by blast
  have "(\<Sum>p\<leftarrow>filter (\<lambda>p. post_transaction p = t \<and> post_type p \<noteq> Some (transaction_type_label TypeBillPaymentCheck))
      (postings_among xs). sint (post_signed p)) = transaction_sum t (filter (Not \<circ> is_bill_payment) xs)" for xs
    by (induction xs)
      (auto simp: postings_among_def List.map_filter_simps transaction_sum_def contribution_def is_bill_payment_def
        split: posting_disposition.splits)
  then show ?thesis using balance ledger by (simp add: others_balance_def ledger_new_Ok)
qed

lemma pipeline_transactions_balance_witness:
  "\<exists>r L. example_pipeline = Ok r \<and> px_ledger r = Some L \<and> length (led_postings L) = 2
    \<and> (\<Sum>p\<leftarrow>filter (\<lambda>p. post_transaction p = TransactionId ''enterprise24-txn-20''
          \<and> post_type p \<noteq> Some (transaction_type_label TypeBillPaymentCheck)) (led_postings L). sint (post_signed p)) = 0"
proof -
  obtain r L where run: "example_pipeline = Ok r" "px_ledger r = Some L" "length (led_postings L) = 2" by (rule example_run)
  with pipeline_transactions_balance [OF run(1) [unfolded example_pipeline_def] run(2)] show ?thesis by blast
qed

text \<open>C4: The pipeline fails closed: a run that finishes withholds the ledger exactly when its diagnostics name
  a blocker.\<close>

theorem pipeline_fails_closed:
  assumes "build_pipeline_with_header_witnesses cal domain_number snapshot columns account_rows line_tables schemas witnesses = Ok r"
  shows "px_ledger r = None \<longleftrightarrow> pg_blockers (px_diagnostics r) \<noteq> []"
proof -
  have finish: "px_ledger r = None \<longleftrightarrow> pg_blockers (px_diagnostics r) \<noteq> []"
    if "finish_pipeline snapshot accounts dispositions d = Ok r" for accounts dispositions d
    using that by (auto simp: finish_pipeline_def rejected_result_def settle_blockers_def Let_def split: if_splits outcome.splits)
  show ?thesis
    using assms finish
    by (auto simp: build_pipeline_with_header_witnesses_def Let_def rbind_Ok_iff split: option.splits)
qed

lemma pipeline_fails_closed_witness:
  "\<exists>r. example_pipeline = Ok r \<and> px_ledger r \<noteq> None \<and> pg_blockers (px_diagnostics r) = []"
proof -
  obtain r L where run: "example_pipeline = Ok r" "px_ledger r = Some L" "length (led_postings L) = 2" by (rule example_run)
  with pipeline_fails_closed [OF run(1) [unfolded example_pipeline_def]] show ?thesis by auto
qed

section \<open>What the pipeline starts from\<close>

text \<open>C21: A bill carrier without a posting of its own is accepted exactly when its links lead, through carriers
  of the same master, sibling account and context, to a posting of its family. The memoised walk with its
  visited sets neither accepts a cycle nor misses a chain.\<close>

theorem bill_carriers_reach_postings:
  "t \<in> set (attested_bill_carrier_targets carriers records schema headers) \<longleftrightarrow>
     carriers \<noteq> []
     \<and> (case carrier_indexes schema records of (record_targets, by_master) \<Rightarrow>
          reaches_money (carrier_links (carrier_families schema headers by_master) record_targets
            (carrier_nodes schema record_targets (carrier_index schema carriers))) t)"
  by (simp add: attested_bill_carrier_targets_def accepted_targets_iff split: prod.split)

text \<open>C22: A transform key is chosen only by what it decodes: key discovery succeeds exactly when a single
  structural candidate opens a catalog that is uncontradicted, reproduces the schema manifest and finds
  every page that the catalog declares. The number of its witnesses never counts.\<close>

theorem transform_key_resolved:
  "discover_r21_transform_key parse_page permute store = Ok a \<longleftrightarrow>
     (\<exists>keys. discover_transform_key_candidates parse_page permute store = Ok keys
        \<and> {b. ka_key b \<in> set keys \<and> attested parse_page permute store Strict b} = {a})"
  using discover_r21_transform_key_Ok [of parse_page permute store a] unfolding attested_keys_def by simp

text \<open>C23: A typed schema is adapted exactly when the columns, ordered by ordinal, are numbered from one to the
  attested count without a gap, and each one has valid metadata, a name, a known type, a width that fits it
  and an attested default; the schema then says no more and no less than these columns.\<close>

theorem complete_schema_adapted:
  "adapt_complete_schema domain_type columns coverage storage defaults = Ok schema \<longleftrightarrow>
     sto_uncompressed storage \<and> length columns = unat (cov_count coverage)
     \<and> map (\<lambda>c. unat (col_ordinal c)) (sort_key col_ordinal columns) = [1..<Suc (length columns)]
     \<and> (\<exists>ds. list_all2 (adapted_from domain_type (cov_table coverage) storage defaults) (sort_key col_ordinal columns) ds
         \<and> schema = \<lparr>sch_columns = ds, sch_boolean_tail = sto_boolean_tail storage, sch_numeric = sto_numeric storage,
           sch_enum = sto_enum storage, sch_overflow = sto_overflow storage, sch_length = sto_length storage,
           sch_null_layout = sto_null_layout storage, sch_null_coverage = sto_null_coverage storage,
           sch_prefix = sto_prefix storage\<rparr>)"
  by (rule adapt_complete_schema_Ok)

text \<open>C24: An account that the partial adapter accepts is bound to its row. To the bytes: its id is the list id
  of the row, its name the name in the bytes, its type and classification are those of the type byte. And to
  the typed columns: the id column is the record number of the bytes, the name, number, description, type
  and parent are those of their columns, it is active exactly when the hidden flag is off, and the flags for deleted
  and for a pending delete are both off. No internal row is accepted.\<close>

theorem partial_account_bound_to_row:
  assumes "decode_schema_account_row_partial domain_number row schema identity internal parent_identity business_type
      = Ok (Some r)"
  shows "bound_account identity business_type r \<and> row_columns row identity parent_identity r
    \<and> acc_name (sa_account r) = ar_name identity \<and> \<not> internal"
  using partial_account_bound [OF assms] partial_account_columns [OF assms] by blast

lemma partial_account_bound_to_row_witness:
  "\<exists>identity r. account_row_parse (account_bytes 3 65 0) = Ok identity
    \<and> bound_account identity resolve_account_type18 r \<and> acc_name (sa_account r) = ''A''
    \<and> row_columns (pd_partial (account_record 0 3 65 0)) identity (\<lambda>_. None) r"
proof -
  let ?decode = "\<lambda>identity. decode_schema_account_row_partial example_domain (pd_partial (account_record 0 3 65 0))
      (stored_as prefix_two_declared (map schema_column [0..<36])) identity False (\<lambda>_. None) resolve_account_type18"
  have "case account_row_parse (account_bytes 3 65 0) of
      Ok identity \<Rightarrow> ar_name identity = ''A'' \<and> (case ?decode identity of Ok (Some _) \<Rightarrow> True | _ \<Rightarrow> False) | _ \<Rightarrow> False"
    by code_simp
  then obtain identity r where "account_row_parse (account_bytes 3 65 0) = Ok identity" and "ar_name identity = ''A''"
    and "?decode identity = Ok (Some r)"
    by (auto split: outcome.splits option.splits)
  with partial_account_bound_to_row [OF \<open>?decode identity = Ok (Some r)\<close>] show ?thesis by auto
qed

end
