(* ===== verification/Catalog_Properties.thy ===== *)
theory Catalog_Properties
  imports Example_Store Table_Facts Adapter_Facts
begin

text \<open>
  The properties of the page, catalog and adapter layers. Each is a statement about the modelled
  functions, proved from the lemmas of its component; the witnesses run on the one-page store of
  \<open>Example_Store\<close>.
\<close>

section \<open>Pages\<close>

text \<open>C26: The recovery of header transforms solves one congruence per probe instead of trying every
  increment. It loses nothing and invents nothing: its candidates are exactly the odd steps and odd
  increments under which the first sector turns into the bytes of the page key.\<close>

theorem header_candidates_exhaustive:
  "set (recover_header_candidates raw page_key) =
     {(step, increment, seed). odd step \<and> step < 512 \<and> odd_byte increment
        \<and> list_all (\<lambda>i. raw ! ((i + step) mod 512) + seed + word_of_nat (cycle_rank step i) * increment
                = to_le_bytes page_key ! i) [0..<4]}"
  using recover_header_candidates_iff [of _ raw page_key] unfolding reproduces_key_def by (auto simp: list_all_iff)

text \<open>Relocating the header and trailer of a page is its own inverse, so no byte is lost.\<close>

theorem header_relocation_undone:
  "length page = page_len \<Longrightarrow> relocate_header_trailer (relocate_header_trailer page) = page"
  by (rule relocate_involution)

lemma header_relocation_undone_witness:
  "relocate_header_trailer (relocate_header_trailer (example_raw 7)) = example_raw 7"
  by (rule header_relocation_undone [OF length_example_raw])

text \<open>C29: The inventory of a page store accounts for every raw page. The groups of a table are its
  pages in the order of the store, and the pages of all groups, the identity conflicts and the
  counted skips add up to the number of raw pages.\<close>

theorem page_inventory_complete:
  "groups_at (scan_table_store parse_page permute key store) table
     = map group_of (table_pages parse_page permute key store table)
   \<and> balanced_census (scan_table_store parse_page permute key store)
   \<and> sc_raw_pages (ss_census (scan_table_store parse_page permute key store)) = length store"
  using scan_groups scan_balanced by blast

text \<open>Every candidate page that the scan of a table returns is a page of the store, parses, carries
  its own page number and names that table.\<close>

theorem scanned_pages_belong:
  assumes "scan_table_pages parse_page permute store key table = Ok scan"
    and "grp \<in> set (ts_groups scan)" and "candidate \<in> set (cg_candidates grp)"
  shows "materialized_table_id parse_page (em_bytes candidate) = Ok table
    \<and> parse_page (em_bytes candidate) = Some (em_view candidate)
    \<and> unat (tp_key (em_view candidate)) = unat (cg_page grp) \<and> cg_page grp \<in> fst ` set store"
proof -
  have "set (ts_groups scan) = set (map group_of (table_pages parse_page permute key store table))"
    using assms(1) scan_groups [of parse_page permute key store table]
    by (auto simp: scan_table_pages_def for_table_def groups_at_def split: if_splits)
  with assms(2,3) obtain n candidates where "(n, candidates) \<in> set (table_pages parse_page permute key store table)"
    and "grp = group_of (n, candidates)" and "candidate \<in> set candidates" by (auto simp: group_of_def)
  from table_page_candidates [OF this(1,3)] this(2) show ?thesis by (force simp: group_of_def)
qed

lemma scanned_pages_belong_witness:
  "materialized_table_id (example_parser []) (em_bytes (example_page 3 [])) = Ok 3
    \<and> example_parser [] (em_bytes (example_page 3 [])) = Some (em_view (example_page 3 []))
    \<and> unat (tp_key (em_view (example_page 3 []))) = unat (0 :: u64) \<and> (0 :: u64) \<in> fst ` set [(0, example_raw 3)]"
proof -
  let ?page = "example_page 3 []" and ?store = "[(0 :: u64, example_raw 3)]"
  have id: "materialized_table_id (example_parser []) (em_bytes ?page) = Ok 3" using example_table_id [of 3 "[]"] by simp
  have "page_class_of (example_parser []) example_permute example_key (0, example_raw 3) = ClassTable 3 [?page]"
    by (simp add: page_class_of_def example_candidates candidate_table_ids_def id)
  then have "scan_table_store (example_parser []) example_permute example_key ?store
      = keep_group 0 3 [?page] (count_raw_page store_scan_start)"
    by (simp add: scan_table_store_def scan_page_step_def)
  then obtain scan where scan: "scan_table_pages (example_parser []) example_permute ?store example_key 3 = Ok scan"
    and groups: "ts_groups scan = [group_of (0, [?page])]"
    by (simp add: scan_table_pages_def for_table_def keep_group_def count_raw_page_def store_scan_start_def Let_def
        bt_get_def group_of_def)
  from scanned_pages_belong [OF scan, of "group_of (0, [?page])" ?page] groups show ?thesis by (simp add: group_of_def)
qed

section \<open>The column catalog\<close>

text \<open>C27: The row parser of the column catalog accepts exactly the encodings of well-formed rows. An
  accepted row determines all its bytes, and the encoding of every well-formed row, wherever it
  stands, is read back with every field.\<close>

theorem column_rows_exact:
  "parse_row_at page row_offset page_number = Ok c \<longleftrightarrow>
     wf_column c \<and> placed row_offset page_number c
     \<and> get_range page row_offset (row_offset + unat (col_row_length c)) = Some (column_bytes c)"
  using parse_row_at_Ok [of page row_offset page_number c] parse_row_at_column_bytes [of c row_offset page_number page]
  by blast

text \<open>A completed schema is all of a table: it exists for a count exactly when the columns of the
  table, reordered, have the ordinals 1, 2, up to that count, and then it is that ordering.\<close>

theorem completed_schema_exact:
  "complete_materialized_schema_columns c table n = Ok columns \<longleftrightarrow>
     0 < n \<and> mset columns = mset (filter (\<lambda>x. col_table x = table) (cc_columns c))
     \<and> map (\<lambda>x. unat (col_ordinal x)) columns = [1..<Suc (unat n)]"
  by (rule complete_columns_Ok)

text \<open>C28: The collected column catalog is the union of what the carrier pages say, with one row for each
  table, ordinal and name; its totals classify every directory slot.\<close>

theorem column_catalog_is_union:
  assumes "collect_materialized_syscolumns parse_page permute key store = Ok c"
  shows "sorted_wrt (<) (map column_key_of (cc_columns c)) \<and> classified_totals (cc_totals c)
    \<and> semantic_key_of ` set (cc_columns c)
        = (\<Union>page\<in>set store. semantic_key_of ` set (page_columns parse_page permute key page))"
  using collected_syscolumns [OF assms] by simp

definition example_column :: sys_column where
  "example_column =
     \<lparr>col_name = ''id'', col_table = 3, col_ordinal = 1, col_domain = 2, col_marker = 1, col_nulls = 78,
      col_width = 4, col_scale = 0, col_object = 9, col_identity = 0, col_post_name = [5],
      col_row_length = 50, col_row_flags = 0, col_page = 0, col_trailer = None, col_row_offset = 100,
      col_tag_offset = 142\<rparr>"

lemma example_column_record: "parse_materialized_syscolumn_record 0 (column_bytes example_column) 100 = Ok example_column"
proof -
  let ?c = "example_column\<lparr>col_row_offset := 0, col_tag_offset := 42\<rparr>"
  have bytes: "column_bytes ?c = column_bytes example_column" by (simp add: column_bytes_def example_column_def)
  have "wf_column ?c" by (simp add: wf_column_def example_column_def name_head_def name_tail_def)
  moreover from length_column_bytes [OF this] have len: "length (column_bytes example_column) = 50"
    unfolding bytes by (simp add: example_column_def)
  ultimately have row: "parse_row_at (column_bytes example_column) 0 0 = Ok ?c"
    using parse_row_at_column_bytes [of ?c 0 0 "column_bytes example_column"] unfolding bytes
    by (simp add: get_range_def) (simp add: placed_def example_column_def)
  have "row_header 50 0 = 50" by (simp add: row_header_def)
  moreover have "to_le_bytes (50 :: u32) = [50, 0, 0, 0]" by code_simp
  ultimately have "get_range (column_bytes example_column) 0 2 = Some [50, 0]"
    using len by (simp add: get_range_def) (simp add: column_bytes_def example_column_def)
  moreover have "read_le [50, 0] = (Ok 50 :: (unit, u16) outcome)" by code_simp
  ultimately show ?thesis
    using row len by (simp add: parse_materialized_syscolumn_record_def ok_or_def ensure_def) (simp add: example_column_def)
qed

lemma example_column_catalog:
  defines "slots \<equiv> [Some (100, column_bytes example_column), None]"
  shows "\<exists>totals. collect_materialized_syscolumns (example_parser slots) example_permute example_key [(0, example_raw 2)]
     = Ok \<lparr>cc_columns = [example_column], cc_totals = totals\<rparr>"
proof -
  have carrier: "carrier_choice (example_parser slots) 2 [example_page 2 slots] = Ok True"
    using example_carrier [of 2 slots] by simp
  have "carrier_page_of 12 self_length_bounded_syscolumn_fixed_prefix (parse_materialized_syscolumn_record 0) (example_page 2 slots)
      = (Ok \<lparr>cpg_rows = [example_column], cpg_slots = 2, cpg_missing = 1, cpg_unparsed = 0, cpg_prefixes = [],
           cpg_self_length = 0, cpg_short = 0, cpg_without = 0\<rparr> :: (syscolumn_error, _) outcome)"
    by (simp add: carrier_page_of_def Let_def slots_def example_page_def carrier_slot_def example_column_record)
  then show ?thesis
    by (simp add: collect_materialized_syscolumns_def collect_column_page_def example_candidates carrier Let_def
        semantic_rows_def bt_values_def retain_column_def retain_row_def)
qed

lemma column_catalog_is_union_witness:
  "\<exists>slots c. collect_materialized_syscolumns (example_parser slots) example_permute example_key [(0, example_raw 2)] = Ok c
     \<and> cc_columns c = [example_column]
     \<and> semantic_key_of ` set (cc_columns c)
        = semantic_key_of ` set (page_columns (example_parser slots) example_permute example_key (0, example_raw 2))"
proof -
  obtain totals where c: "collect_materialized_syscolumns (example_parser [Some (100, column_bytes example_column), None])
      example_permute example_key [(0, example_raw 2)] = Ok \<lparr>cc_columns = [example_column], cc_totals = totals\<rparr>"
    using example_column_catalog by blast
  from column_catalog_is_union [OF c] c show ?thesis
    by (intro exI [of _ "[Some (100, column_bytes example_column), None]"]
        exI [of _ "\<lparr>cc_columns = [example_column], cc_totals = totals\<rparr>"]) simp
qed

section \<open>The table catalog\<close>

text \<open>C32: The scan of a bounded catalog record finds a row exactly when the row at the record's start is
  complete and fills the record; earlier or later tags in the record change nothing.\<close>

theorem table_records_exact:
  "parse_materialized_systable_record page_number bytes offset = Ok e \<longleftrightarrow>
     offset + 34 < 2 ^ 64 \<and>
     (\<exists>row. systable_row_at bytes (length bytes) page_number 34 = Ok row \<and> unat (tb_row_length row) = length bytes
        \<and> length bytes \<le> 0xff0 \<and> e = row\<lparr>tb_row_offset := offset, tb_tag_offset := offset + 34\<rparr>)"
  by (rule parse_materialized_systable_Ok)

text \<open>C25: No accessible record of a carrier page can contradict the expectations that the gate of the
  required tables returns: every record that is long enough to name a table either is a row the catalog
  holds, or names a table that was not required.\<close>

theorem required_tables_safe:
  assumes "collect_materialized_systables parse_page permute key store = Ok c"
    and "require_unambiguous_tables c ids = Ok xs"
    and "page \<in> set store" and "page_candidate 1 parse_page permute key page = Some candidate"
    and "Some (offset, bytes) \<in> set (tp_slots (em_view candidate))" and "34 \<le> length bytes"
  shows "(\<exists>row. parse_materialized_systable_record (fst page) bytes offset = Ok row
        \<and> table_meaning row \<in> table_meaning ` set (tc_tables c))
    \<or> (\<exists>t. self_length_bounded_systable_fixed_prefix_table_id bytes = Some t \<and> t \<notin> set ids)"
  using assms by (rule required_tables_uncontradicted)

text \<open>A row of table 5 and a record that names table 9 without being a row.\<close>

definition example_table_bytes :: "byte list" where
  "example_table_bytes =
     [64, 0, 0, 0, 5, 0, 0, 0, 1, 0, 7, 0, 0, 0, 0, 0, 0, 0, 1, 0, 0, 0, 2, 0, 0, 0, 1, 0, 0, 0, 0, 0, 0, 0]
     @ [5, 0, 0, 0, 8, 0, 0, 0, 0, 0, 0, 0, 6, 0, 0, 0, 0, 0, 0, 0, 5] @ [108, 105, 110, 101, 115] @ [1, 0, 0, 0]"

definition example_other_bytes :: "byte list" where
  "example_other_bytes = [36, 0, 0, 0, 9, 0, 0, 0] @ replicate 28 0"

definition example_table_row :: sys_table where
  "example_table_row =
     (case parse_materialized_systable_record 0 example_table_bytes 100 of Ok e \<Rightarrow> e | _ \<Rightarrow> undefined)"

lemma example_table_record:
  "parse_materialized_systable_record 0 example_table_bytes 100 = Ok example_table_row"
  "tb_id example_table_row = 5 \<and> tb_row_count example_table_row = 7 \<and> tb_table_pages example_table_row = 2
     \<and> tb_ext_pages example_table_row = 1"
  "\<exists>u. parse_materialized_systable_record 0 example_other_bytes 200 = Err u"
proof -
  let ?read = "systable_row_at example_table_bytes (length example_table_bytes) 0 34"
  have "(case ?read of Ok e \<Rightarrow> unat (tb_row_length e) = length example_table_bytes \<and> tb_id e = 5 \<and> tb_row_count e = 7
      \<and> tb_table_pages e = 2 \<and> tb_ext_pages e = 1 | _ \<Rightarrow> False)"
    by code_simp
  then obtain row where row: "?read = Ok row" "unat (tb_row_length row) = length example_table_bytes" "tb_id row = 5"
      "tb_row_count row = 7" "tb_table_pages row = 2" "tb_ext_pages row = 1"
    by (auto split: outcome.splits)
  have "parse_materialized_systable_record 0 example_table_bytes 100
      = Ok (row\<lparr>tb_row_offset := 100, tb_tag_offset := 100 + 34\<rparr>)"
    unfolding parse_materialized_systable_Ok using row(1,2) by (simp add: example_table_bytes_def)
  then show "parse_materialized_systable_record 0 example_table_bytes 100 = Ok example_table_row"
    "tb_id example_table_row = 5 \<and> tb_row_count example_table_row = 7 \<and> tb_table_pages example_table_row = 2
     \<and> tb_ext_pages example_table_row = 1"
    using row by (simp_all add: example_table_row_def)
  have "systable_row_at example_other_bytes (length example_other_bytes) 0 34 \<noteq> Ok row" for row
    by (auto simp: systable_row_at_def example_other_bytes_def outcome_simps bytes_at_def get_range_Some_iff)
  then have "parse_materialized_systable_record 0 example_other_bytes 200 \<noteq> Ok e" for e
    by (simp add: parse_materialized_systable_Ok)
  then show "\<exists>u. parse_materialized_systable_record 0 example_other_bytes 200 = Err u"
    using parse_materialized_systable_no_panic [of 0 example_other_bytes 200]
    by (cases "parse_materialized_systable_record 0 example_other_bytes 200") auto
qed

lemma example_table_catalog:
  defines "slots \<equiv> [Some (100, example_table_bytes), None, Some (200, example_other_bytes)]"
  shows "collect_materialized_systables (example_parser slots) example_permute example_key [(0, example_raw 1)]
     = Ok \<lparr>tc_tables = [example_table_row],
           tc_totals = \<lparr>ct_pages = 1, ct_slots = 3, ct_missing = 1, ct_parsed = 1, ct_unparsed = 1,
             ct_prefixes = [(9, 1)], ct_self_length = 1, ct_short = 0, ct_without = 0, ct_skipped = no_skips\<rparr>\<rparr>"
proof -
  have carrier: "carrier_choice (example_parser slots) 1 [example_page 1 slots] = Ok True"
    using example_carrier [of 1 slots] by simp
  obtain u where err: "parse_materialized_systable_record 0 example_other_bytes 200 = Err u"
    using example_table_record(3) by blast
  have prefix: "self_length_bounded_systable_fixed_prefix_table_id example_other_bytes = Some 9" by code_simp
  have len: "length example_other_bytes = 36" by (simp add: example_other_bytes_def)
  have "carrier_page_of 34 self_length_bounded_systable_fixed_prefix_table_id (parse_materialized_systable_record 0) (example_page 1 slots)
      = (Ok \<lparr>cpg_rows = [example_table_row], cpg_slots = 3, cpg_missing = 1, cpg_unparsed = 1, cpg_prefixes = [(9, 1)],
           cpg_self_length = 1, cpg_short = 0, cpg_without = 0\<rparr> :: (systable_error, _) outcome)"
    by (simp add: carrier_page_of_def Let_def slots_def example_page_def carrier_slot_def example_table_record(1) err
        unparsed_record_def len prefix bt_add_def)
  then show ?thesis
    by (simp add: collect_materialized_systables_def collect_table_page_def example_candidates carrier Let_def
        semantic_tables_def bt_values_def retain_table_def retain_row_def add_carrier_page_def no_totals_def bt_add_def)
qed

lemma required_tables_safe_witness:
  "\<exists>slots c xs. collect_materialized_systables (example_parser slots) example_permute example_key [(0, example_raw 1)] = Ok c
     \<and> require_unambiguous_tables c [5] = Ok xs \<and> map le_row_count xs = [7]
     \<and> (\<exists>t. self_length_bounded_systable_fixed_prefix_table_id example_other_bytes = Some t \<and> t \<notin> set [5])"
proof -
  let ?slots = "[Some (100, example_table_bytes), None, Some (200, example_other_bytes)]"
  note c = example_table_catalog
  have gate: "require_unambiguous_tables \<lparr>tc_tables = [example_table_row], tc_totals = \<lparr>ct_pages = 1, ct_slots = 3,
        ct_missing = 1, ct_parsed = 1, ct_unparsed = 1, ct_prefixes = [(9, 1)], ct_self_length = 1, ct_short = 0,
        ct_without = 0, ct_skipped = no_skips\<rparr>\<rparr> [5]
      = Ok [\<lparr>le_table = 5, le_row_count = 7, le_table_pages = 2, le_ext_pages = 1\<rparr>]"
    using example_table_record(2)
    by (simp add: require_unambiguous_tables_def catalog_table_def logical_expectation_def bt_get_def ensure_def ok_or_def)
  have page: "page_candidate 1 (example_parser ?slots) example_permute example_key (0, example_raw 1) = Some (example_page 1 ?slots)"
    using example_carrier [of 1 ?slots] by (simp add: page_candidate_def example_candidates)
  have slot: "Some (200, example_other_bytes) \<in> set (tp_slots (em_view (example_page 1 ?slots)))"
    by (simp add: example_page_def)
  have "34 \<le> length example_other_bytes" by (simp add: example_other_bytes_def)
  from required_tables_safe [OF c gate _ page slot this] example_table_record(3)
  have "\<exists>t. self_length_bounded_systable_fixed_prefix_table_id example_other_bytes = Some t \<and> t \<notin> set [5]" by auto
  then obtain t where "self_length_bounded_systable_fixed_prefix_table_id example_other_bytes = Some t \<and> t \<notin> set [5]" ..
  moreover have "map le_row_count [\<lparr>le_table = 5, le_row_count = 7, le_table_pages = 2, le_ext_pages = 1\<rparr>] = [7]" by simp
  ultimately show ?thesis using c gate
    by (intro exI [of _ ?slots] exI conjI) (assumption | simp)+
qed

text \<open>C31: The conflict-free catalog holds exactly the meanings of the rows that no other row with their
  id or their name contradicts, in strictly increasing order of id and name.\<close>

theorem conflict_free_catalog:
  "sorted_wrt (<) (map (\<lambda>e. (tb_id e, tb_name e)) (collect_conflict_free entries))
   \<and> set (collect_conflict_free entries) \<subseteq> {e \<in> set entries. unconflicted entries e}
   \<and> table_meaning ` set (collect_conflict_free entries) = table_meaning ` {e \<in> set entries. unconflicted entries e}"
  using collect_conflict_free_rows [of entries] by simp

section \<open>Adapters\<close>

text \<open>The number of an accounting table and the table determine each other.\<close>

theorem accounting_table_ids:
  "accounting_table_try_from n = Ok table \<longleftrightarrow> n = table_id_of table"
  by (rule accounting_table_try_from_Ok_iff)

text \<open>C30: What the adapter of partially decoded rows accepts is what the adapter of complete rows makes of
  every complete row that the partial row is part of: reading less never changes a posting.\<close>

theorem partial_adapter_sound:
  assumes "part_of schema part full" and "adapt_enterprise_posting_row_partial cal table schema part = Ok a"
  shows "adapt_enterprise_posting_row cal table schema full = Ok a"
  using assms by (rule partial_adapter_agrees)

definition example_posting_schema :: row_schema where
  "example_posting_schema =
     (let col = (\<lambda>i n t. \<lparr>cd_id = i, cd_name = n, cd_type = t, cd_width = 4, cd_nullable = False\<rparr>) in
      \<lparr>sch_columns = [col 1 ''target_id'' ColInteger, col 2 ''transaction_id'' ColInteger, col 3 ''account_id'' ColInteger,
         col 4 ''transaction_date'' ColDate, col 5 ''amount_amt'' ColNumeric, col 6 ''memo'' ColText,
         col 7 ''is_no_post_bool'' ColBoolean, col 8 ''is_memorized_transaction_bool'' ColBoolean,
         col 9 ''is_source_bool'' ColBoolean],
       sch_boolean_tail = BooleanInlineBytes, sch_numeric = EnterpriseMaterializedRaw, sch_enum = EnumUnsupported,
       sch_overflow = OverflowUnsupported, sch_length = LengthU8, sch_null_layout = NullMsbPresent,
       sch_null_coverage = NullNullableColumns, sch_prefix = TwoByteCarrier\<rparr>)"

definition example_full_row :: decoded_row where
  "example_full_row =
     \<lparr>dr_declared_size = 60, dr_consumed_size = 60,
      dr_values = [SqlInteger 11, SqlInteger 12, SqlInteger 13, SqlDate 0, SqlNull, SqlBytes [65],
        SqlBoolean False, SqlBoolean False, SqlBoolean True]\<rparr>"

definition example_partial_row :: partial_row where
  "example_partial_row =
     \<lparr>pr_declared_size = 60, pr_flags = 0, pr_through = 5,
      pr_prefix = map (\<lambda>(i, c, v). \<lparr>rv_index = i, rv_column = c, rv_value = v\<rparr>)
        [(0, 1, SqlInteger 11), (1, 2, SqlInteger 12), (2, 3, SqlInteger 13), (3, 4, SqlDate 0), (4, 5, SqlNull)],
      pr_booleans = map (\<lambda>(i, c, v). \<lparr>rv_index = i, rv_column = c, rv_value = v\<rparr>)
        [(6, 7, SqlBoolean False), (7, 8, SqlBoolean False), (8, 9, SqlBoolean True)],
      pr_opaque = 2\<rparr>"

lemma partial_adapter_sound_witness:
  "\<forall>cal. adapt_enterprise_posting_row cal DepositLine example_posting_schema example_full_row
     = Ok (AdaptedExclusion (RowSourceOrLink 11 12))"
proof (rule allI, rule partial_adapter_sound)
  show "part_of example_posting_schema example_partial_row example_full_row" by code_simp
  have "adapt_enterprise_posting_row_partial c DepositLine example_posting_schema example_partial_row
     = Ok (AdaptedExclusion (RowSourceOrLink 11 12))" for c
    by code_simp
  then show "\<And>cal. adapt_enterprise_posting_row_partial cal DepositLine example_posting_schema example_partial_row
     = Ok (AdaptedExclusion (RowSourceOrLink 11 12))" .
qed

end
