(* ===== verification/Spec2Isabelle.thy ===== *)
theory Spec2Isabelle
  imports Prelude Codec Text Ordered_Map Account_Types Accounting Ledger_Invariant Ledger_Reports
    Report_Facts Trial_Balance_Facts Statements Statement_Facts
    QuickBooks_Values Posting_Date Posting_Cents Decoder_Contract Drec Drec_Facts
    Example_Books Ledger_Properties Codec_Properties
    Csv Native_Trial_Balance Native_Balance_Facts Report_Names Report_Output Report_Json
    Report_Name_Facts Report_Reading Report_Rendering Native_General_Ledger Account_Sections
    Posting_Multiset General_Ledger_Reading Report_Properties
    Row_Bytes Bill_Rows Check_Rows Deposit_Rows Account_Row Journal_Rows Journal_Classes
    Journal_Auxiliary Journal_Classification Journal_Class_Facts Journal_Class_Properties
    Row_Properties
    Row_Schema Posting_Adapter Adapter_Facts Header_Transform Page_Materializer Page_Facts
    Table_Scan Catalog_Pages Sys_Column Column_Facts Sys_Table Table_Facts Index_Catalog Example_Store
    Schema_Adapter Key_Resolution Account_Adapter
    Pipeline_Tables Schema_Attestation Pipeline_Collectors Pipeline_Carriers Pipeline_Checks Pipeline_Families Pipeline_Build
    Pipeline_Balance Pipeline_Masters Pipeline_Check_Facts Pipeline_Ledger
    Example_Catalog Example_Company Pipeline_Properties Catalog_Properties
begin

text \<open>
  \<^bold>\<open>A verification library of openqbw.\<close>

  openqbw reads QuickBooks company files (\<open>.qbw\<close>) without QuickBooks and turns what it decodes into
  accounting reports. Six layers of the program carry its own logic, and the library follows them.

  \<^bold>\<open>1. The accounting core\<close> (\<open>crates/openqbw/src\<close>). Decoded accounts and postings pass the
  completeness contract of \<open>decoder_contract.rs\<close> (\<open>Decoder_Contract\<close>) into \<open>Ledger::new\<close> of
  \<open>accounting.rs\<close>. \<open>Accounting\<close> models its values (identifiers, accounts, amounts, postings) and
  \<open>Ledger::new\<close>; \<open>Ledger_Reports\<close> the General Ledger, the Trial Balance and the accrual Trial
  Balance; \<open>Statements\<close> the Profit and Loss and the Balance Sheet of \<open>financial_statements.rs\<close>;
  \<open>Account_Types\<close> the code map of \<open>materialized_account_type_mapping.rs\<close>.
  \<open>Ledger_Invariant\<close> gives the invariant that \<open>Ledger::new\<close> establishes; \<open>Report_Facts\<close>,
  \<open>Trial_Balance_Facts\<close> and \<open>Statement_Facts\<close> give closed forms of the
  reports over it; \<open>Ledger_Properties\<close> states the properties.

  \<^bold>\<open>2. The value codecs\<close> (\<open>crates/openqbw/src\<close>). \<open>QuickBooks_Values\<close> models the four-byte date and
  the six-byte balance (\<open>quickbooks_date.rs\<close>, \<open>quickbooks_balance.rs\<close>) and the SA-day conversions
  (\<open>date.rs\<close>); \<open>Posting_Date\<close> the minute counts, day counts and ISO texts of
  \<open>materialized_posting_date.rs\<close>; \<open>Posting_Cents\<close> the base-100 amounts of
  \<open>materialized_numeric.rs\<close>; \<open>Drec\<close> the sparse records of \<open>cindex_drec.rs\<close>. \<open>Codec\<close> holds the
  locale \<open>fixed_codec\<close>, interpreted on both fixed-size codecs. \<open>Drec_Facts\<close> and
  \<open>Codec_Properties\<close> state round trips and bounds.

  \<^bold>\<open>3. Reports in and out\<close> (\<open>crates/openqbw-cli/src\<close>). \<open>Report_Names\<close>, \<open>Report_Output\<close> and
  \<open>Report_Json\<close> model \<open>report_output.rs\<close>: the names of accounts over the whole chart, the validations
  of the reports, the CSV and the JSON encoders. \<open>Csv\<close> and \<open>Native_Trial_Balance\<close> model
  \<open>trial_balance_reconciliation.rs\<close>: the CSV reader, both Trial Balance readers and the
  reconciliation. \<open>Native_General_Ledger\<close> and \<open>Account_Sections\<close> model
  \<open>general_ledger_reconciliation.rs\<close>: both General Ledger readers, the resolution of native account
  headings and the comparison of posting multisets. The two directions meet in
  \<open>Report_Reading\<close> and \<open>General_Ledger_Reading\<close>: what the encoders write, the readers read back.
  \<open>Report_Rendering\<close> joins the third layer to the first: every report of an accepted ledger passes
  the validations of the CSV and JSON encoders that are given its chart. \<open>Native_Balance_Facts\<close>, \<open>Report_Name_Facts\<close> and
  \<open>Posting_Multiset\<close> hold the facts on balances, names and counts; \<open>Report_Properties\<close> states the
  properties.

  \<^bold>\<open>4. The row decoders\<close> (\<open>crates/openqbw/src/materialized_*.rs\<close>). \<open>Row_Bytes\<close> has the panicking
  reads, the length frame and the locale \<open>row_decoder\<close>, interpreted on each of the twelve decoders:
  \<open>Bill_Rows\<close>, \<open>Check_Rows\<close>, \<open>Deposit_Rows\<close>, \<open>Account_Row\<close> (accounts and transaction masters) and
  \<open>Journal_Rows\<close>. The table-wide classification of General Journal rows is \<open>Journal_Classes\<close> (first
  pass), \<open>Journal_Auxiliary\<close> (rows set aside) and \<open>Journal_Classification\<close> (source links, header
  witnesses, lifecycles). \<open>Journal_Class_Facts\<close> shows when it can panic and that each disposition is
  justified by its row, \<open>Journal_Class_Properties\<close> what holds of its postings, and that the
  bounded walk of source links is the unbounded one. \<open>Row_Properties\<close> states the properties.

  \<^bold>\<open>5. Pages, catalogs and adapters\<close> (\<open>crates/openqbw/src\<close>). \<open>Header_Transform\<close> models how the
  transform of a page's first sector is recovered and \<open>Page_Materializer\<close> the pages, keys and key
  discovery of \<open>enterprise_page_materializer.rs\<close>; \<open>Table_Scan\<close> the inventory of a page store
  (\<open>enterprise_table_scan.rs\<close>). \<open>Catalog_Pages\<close> has what the two catalog collectors share,
  \<open>Sys_Column\<close> and \<open>Sys_Table\<close> the catalogs themselves (\<open>syscolumn.rs\<close>, \<open>systable.rs\<close>,
  \<open>long_value_ref.rs\<close>). \<open>Row_Schema\<close> has typed schemas and partially decoded rows
  (\<open>partial_row.rs\<close>), \<open>Posting_Adapter\<close> the physical tables
  (\<open>enterprise24_accounting_table.rs\<close>) and the adapters of
  \<open>schema_posting_adapter.rs\<close>. \<open>Schema_Adapter\<close> builds typed schemas from a
  catalog (\<open>schema_adapter.rs\<close>) and holds the schema manifest,
  \<open>Key_Resolution\<close> chooses among transform keys by what they decode
  (\<open>enterprise24_transform_key.rs\<close>) and \<open>Account_Adapter\<close> turns Account rows
  into accounts (\<open>schema_account_adapter.rs\<close>); \<open>Schema_Attestation\<close> has the
  search for the one storage layout that decodes a whole table
  (\<open>materialized_row_schema_attestation.rs\<close>) and \<open>Index_Catalog\<close> the rows of
  the index catalog and the diagnostics over them (\<open>sysindex.rs\<close>,
  \<open>page_attribution.rs\<close>, \<open>index_root_map.rs\<close>); these five prove their own
  facts. \<open>Page_Facts\<close>, \<open>Column_Facts\<close>, \<open>Table_Facts\<close> and
  \<open>Adapter_Facts\<close> prove the components, \<open>Example_Store\<close> gives a store on which
  the hypotheses hold, \<open>Catalog_Properties\<close> states the properties.

  \<^bold>\<open>6. The Enterprise 24 pipeline\<close> (\<open>enterprise24_accounting_pipeline.rs\<close>), which leads from the
  fifth layer through the fourth to the first. \<open>Pipeline_Tables\<close> has the table policies, the coverage of
  a table and the consensus among record candidates; \<open>Pipeline_Collectors\<close> the collectors of rows and
  header witnesses; \<open>Pipeline_Carriers\<close> the bill carriers and the walk along their links, shown to be
  reachability; \<open>Pipeline_Checks\<close> and \<open>Pipeline_Families\<close> what Check, Deposit, Bill and
  Bill-payment families must satisfy; \<open>Pipeline_Build\<close> the run itself: manifest and coverage gates, accounts,
  posting tables, hand-over, rejection. \<open>Pipeline_Balance\<close> and \<open>Pipeline_Masters\<close> show that
  an accepted family balances by transaction, \<open>Pipeline_Check_Facts\<close> what one posting table
  adds to a run, and \<open>Pipeline_Ledger\<close> what a run that returns a ledger has
  checked, under which condition on hand-built rows no row is passed over
  (\<open>unsupported_flagged\<close>), and that the collectors meet it. \<open>Example_Catalog\<close> gives a catalog whose
  tables have the attested fingerprints and \<open>Example_Company\<close> a company for which the pipeline returns a
  ledger, and the variant of it whose unsupported rows are skipped.
  \<open>Pipeline_Properties\<close> states the properties.

  \<^bold>\<open>How the code is rendered.\<close> Fallible code returns an \<open>outcome\<close> (\<open>Prelude\<close>): \<open>Ok\<close>, \<open>Err\<close> with the
  source's error, or \<open>Panic\<close> for an index, an \<open>unwrap\<close> or \<open>unreachable!\<close> that fails. \<open>i64\<close> and the
  other machine integers are words, with \<open>checked_add\<close> and its relatives as options; \<open>i128\<close> sums are
  integers (\<open>tally_fits_i128\<close> shows they stay in range) and \<open>usize\<close> is a natural number. A
  \<open>BTreeMap\<close> is a sorted association list (\<open>Ordered_Map\<close>). Strings are their UTF-8 bytes: \<open>Text\<close>
  models the operations of the standard library that the code uses on them, \<open>trim\<close> with the Unicode
  white space and \<open>from_utf8\<close> with the well-formedness table. Loops are folds or structural
  recursion; the name walks, the walks over journal rows and bill carriers and the CSV loop are
  \<open>function\<close>s whose
  termination is proved (the chart or the links minus what was visited, the remaining text). The one
  loop with fuel is the walk of a header cycle, 512 steps, which an odd step always returns within
  (proved in \<open>Header_Transform\<close>).

  \<^bold>\<open>Outside the repository.\<close> Two functions of the \<open>opensqlany\<close> crate, \<open>SaDate::ymd\<close> and
  \<open>SaDate::days_since_sa_epoch\<close>, are parameters wherever dates need them; the numeric token of that
  crate enters as its marker and digits. Of its page layer, \<open>parse_page\<close> (the parser of a materialized
  page with its record directory) and \<open>permute\<close> (the permutation of one sector) are parameters, and a
  page store is the list of its numbered raw pages; the types of its row decoder are those the code
  names, and the decoder itself is a parameter: \<open>decode\<close> (a typed prefix with its Boolean tail),
  \<open>decode_exact\<close> (a complete row) and \<open>segment\<close> (the segments of a physical row). So are
  \<open>domain_type\<close> and \<open>domain_number\<close>, the two directions between column types and their numbers.

  \<^bold>\<open>Not modelled.\<close> The SQLite store and its migrations (calls of \<open>rusqlite\<close>); the command line, its
  probes and its file handling; the legacy catalog and row scans that depend on the key recovery, whose
  searches use floating-point entropy; \<open>Display\<close> texts of errors.
\<close>

end
